(* ===== verification/Psx_Prelude.thy ===== *)
theory Psx_Prelude
  imports Main "HOL-Library.Word"
begin

text \<open>
  Shared vocabulary of the development: the machine integer types of the C sources, the
  collections of rewrite rules the component theories fill, and generic facts on words,
  function arrays and iterated steps.

  A C array of fixed size that is only indexed inside its bounds is a function from
  indices to elements; a store is a function update.
\<close>

unbundle bit_operations_syntax

type_synonym u8 = "8 word"
type_synonym u16 = "16 word"
type_synonym u32 = "32 word"
type_synonym u64 = "64 word"

named_theorems bit_test \<open>flag tests written with AND in the source, as bits\<close>
named_theorems frame_simps \<open>what an operation leaves unchanged\<close>
named_theorems step_defs \<open>definitions of single steps, unfolded together\<close>

text \<open>A C truth value stored in an integer.\<close>

definition of_flag :: "bool \<Rightarrow> 'a::len word" where
  "of_flag b = (if b then 1 else 0)"

lemma of_flag_simps [simp]:
  "of_flag True = 1" "of_flag False = 0"
  by (simp_all add: of_flag_def)

lemma of_flag_eq_0_iff [simp]: "of_flag b = (0 :: 'a::len word) \<longleftrightarrow> \<not> b"
  by (simp add: of_flag_def)

section \<open>Flag tests\<close>

lemma and_power_two_iff: "(w :: 'a::len word) AND 2 ^ n \<noteq> 0 \<longleftrightarrow> bit w n"
  by (simp add: bit_iff_and_push_bit_not_eq_0 push_bit_eq_mult)

lemma and_power_two_zero_iff [bit_test]: "(w :: 'a::len word) AND 2 ^ n = 0 \<longleftrightarrow> \<not> bit w n"
  using and_power_two_iff [of w n] by blast

lemma and_one_zero_iff [bit_test]: "(w :: 'a::len word) AND 1 = 0 \<longleftrightarrow> \<not> bit w 0"
  using and_power_two_zero_iff [of w 0] by simp

lemma drop_bit_and_one_zero_iff [bit_test]:
  "drop_bit n (w :: 'a::len word) AND 1 = 0 \<longleftrightarrow> \<not> bit w n"
  by (simp add: and_one_zero_iff bit_drop_bit_eq)

section \<open>Low bits of counters\<close>

lemma unat_and_mask: "unat ((w :: 'a::len word) AND mask n) = unat w mod 2 ^ n"
proof -
  have "unat (take_bit n w) = take_bit n (unat w)"
    by (rule unsigned_take_bit_eq)
  then show ?thesis
    by (simp only: take_bit_eq_mask [symmetric] take_bit_eq_mod [where 'a = nat])
qed

lemma unat_and_3: "unat ((w :: 'a::len word) AND 3) = unat w mod 4"
  using unat_and_mask [of w 2] by (simp add: mask_eq_exp_minus_1)

lemma unat_succ_and_mask:
  assumes "n \<le> LENGTH('a)"
  shows "unat (((w :: 'a::len word) + 1) AND mask n) = Suc (unat (w AND mask n)) mod 2 ^ n"
proof -
  have dvd: "(2 :: nat) ^ n dvd 2 ^ LENGTH('a)"
    using assms by (rule le_imp_power_dvd)
  have "unat (w + 1) mod 2 ^ n = (unat w + 1) mod 2 ^ LENGTH('a) mod 2 ^ n"
    by (simp add: unat_word_ariths)
  also have "\<dots> = (unat w + 1) mod 2 ^ n"
    using dvd by (rule mod_mod_cancel)
  finally show ?thesis
    by (simp add: unat_and_mask mod_Suc_eq)
qed

lemma unat_ucast_up:
  assumes "LENGTH('a::len) \<le> LENGTH('b::len)"
  shows "unat (ucast (w :: 'a word) :: 'b word) = unat w"
  using assms by transfer (simp add: min_def)

lemma unat_ucast_mod: "unat (ucast (w :: 'a::len word) :: 'b::len word) = unat w mod 2 ^ LENGTH('b)"
  by (simp add: unsigned_ucast_eq take_bit_word_eq_self unsigned_take_bit_eq take_bit_eq_mod)

lemma unat_less_of_less_ucast:
  assumes "c < (ucast (z :: 'a::len word) :: 'b::len word)"
  shows "unat c < unat z"
proof -
  have "unat c < unat z mod 2 ^ LENGTH('b)"
    using assms by (simp add: word_less_nat_alt unat_ucast_mod)
  also have "\<dots> \<le> unat z" by (rule mod_less_eq_dividend)
  finally show ?thesis .
qed

lemma unat_word_of_nat: "unat (word_of_nat n :: 'a::len word) = n mod 2 ^ LENGTH('a)"
  by (simp add: unsigned_of_nat take_bit_eq_mod)

lemma unat_sub_u32: "unat (a - b :: u32) = (unat a + 4294967296 - unat b) mod 4294967296"
  using unsigned_less [of a, where ?'a = nat] unsigned_less [of b, where ?'a = nat]
  by (simp add: unat_sub_if' mod_if)

lemma mod_4294967296_65536 [simp]: "(n :: nat) mod 4294967296 mod 65536 = n mod 65536"
  by (rule mod_mod_cancel) simp

lemma unat_lt_65536: "unat (w :: u16) < 65536"
  using unsigned_less [of w, where ?'a = nat] by simp

lemma unat_lt_256: "unat (w :: u8) < 256"
  using unsigned_less [of w, where ?'a = nat] by simp

lemma word_one_le: "(w :: 'a::len word) \<noteq> 0 \<Longrightarrow> 1 \<le> w"
  by (simp add: word_le_nat_alt Suc_le_eq unat_gt_0)

lemma unat_sub_le: "(b :: 'a::len word) \<le> a \<Longrightarrow> unat (a - b) = unat a - unat b"
  by (rule unat_sub)

section \<open>Iterated steps\<close>

lemma funpow_add_apply: "(f ^^ (m + n)) x = (f ^^ n) ((f ^^ m) x)"
proof -
  have "(f ^^ (n + m)) x = (f ^^ n) ((f ^^ m) x)"
    by (simp add: funpow_add)
  then show ?thesis by (simp add: add.commute)
qed

lemma funpow_preserves:
  assumes "\<And>s. P s \<Longrightarrow> P (f s)" and "P s"
  shows "P ((f ^^ n) s)"
  using assms(2) by (induction n arbitrary: s) (auto intro: assms(1))

lemma funpow_observation:
  assumes "\<And>s. g (f s) = g s"
  shows "g ((f ^^ n) s) = g s"
  by (induction n) (simp_all add: assms)

end
