(* ===== verification/Ring_Log.thy ===== *)
theory Ring_Log
  imports Psx_Prelude
begin

text \<open>
  The runtime keeps many always-on diagnostic rings (the event ring, the device trace, the
  MDEC trace, the DMA trace, the CD transfer log, the interpreter trace). They differ in
  their entries and in how the write position is stored, and agree on one contract: a
  recording call stores one entry at the head slot and moves the head by one, modulo the
  capacity. The contract is the locale; the facts every ring owes its readers are proved
  once inside it.
\<close>

locale ring_log =
  fixes cap :: nat
    and ok :: "'s \<Rightarrow> bool"
    and head :: "'s \<Rightarrow> nat"
    and slot :: "'s \<Rightarrow> nat \<Rightarrow> 'e"
    and note_ev :: "'x \<Rightarrow> 's \<Rightarrow> 's"
    and entry :: "'x \<Rightarrow> 's \<Rightarrow> 'e"
  assumes cap_pos: "0 < cap"
    and head_lt: "ok s \<Longrightarrow> head s < cap"
    and ok_note: "ok s \<Longrightarrow> ok (note_ev x s)"
    and head_note: "ok s \<Longrightarrow> head (note_ev x s) = Suc (head s) mod cap"
    and slot_note: "ok s \<Longrightarrow> slot (note_ev x s) i = (if i = head s then entry x s else slot s i)"
begin

lemma ok_notes: "ok s \<Longrightarrow> ok (fold note_ev xs s)"
  by (induction xs arbitrary: s) (auto intro: ok_note)

lemma head_notes: "ok s \<Longrightarrow> head (fold note_ev xs s) = (head s + length xs) mod cap"
proof (induction xs arbitrary: s)
  case Nil
  then show ?case by (simp add: head_lt)
next
  case (Cons x xs)
  then show ?case by (simp add: ok_note head_note mod_simps)
qed

lemma notes_keep_distant:
  assumes "ok s" and "\<And>j. j < length xs \<Longrightarrow> i \<noteq> (head s + j) mod cap"
  shows "slot (fold note_ev xs s) i = slot s i"
  using assms
proof (induction xs arbitrary: s)
  case Nil
  then show ?case by simp
next
  case (Cons x xs)
  have "i \<noteq> head s"
    using Cons.prems(2) [of 0] Cons.prems(1) by (simp add: head_lt)
  moreover have "slot (fold note_ev xs (note_ev x s)) i = slot (note_ev x s) i"
  proof (rule Cons.IH)
    show "ok (note_ev x s)" using Cons.prems(1) by (rule ok_note)
    fix j assume "j < length xs"
    then have "i \<noteq> (head s + Suc j) mod cap" using Cons.prems(2) [of "Suc j"] by simp
    then show "i \<noteq> (head (note_ev x s) + j) mod cap"
      using Cons.prems(1) by (simp add: head_note mod_simps)
  qed
  ultimately show ?case using Cons.prems(1) by (simp add: slot_note)
qed

text \<open>An entry survives until the ring has wrapped around onto it.\<close>

lemma entry_retained:
  assumes ok: "ok s" and j: "j < length xs" and fits: "length xs \<le> j + cap"
  shows "slot (fold note_ev xs s) ((head s + j) mod cap)
       = entry (xs ! j) (fold note_ev (take j xs) s)"
proof -
  let ?m = "fold note_ev (take j xs) s"
  let ?rest = "drop (Suc j) xs"
  have split: "fold note_ev xs s = fold note_ev ?rest (note_ev (xs ! j) ?m)"
    using j by (metis id_take_nth_drop fold_append fold_simps(2) comp_apply)
  have okm: "ok ?m" using ok by (rule ok_notes)
  have hm: "head ?m = (head s + j) mod cap"
    using head_notes [OF ok, of "take j xs"] j by (simp add: min_def)
  have "slot (fold note_ev ?rest (note_ev (xs ! j) ?m)) (head ?m) = slot (note_ev (xs ! j) ?m) (head ?m)"
  proof (rule notes_keep_distant)
    show "ok (note_ev (xs ! j) ?m)" using okm by (rule ok_note)
    fix k assume k: "k < length ?rest"
    have "Suc k < cap" using k fits j by simp
    show "head ?m \<noteq> (head (note_ev (xs ! j) ?m) + k) mod cap"
    proof
      assume "head ?m = (head (note_ev (xs ! j) ?m) + k) mod cap"
      then have "head ?m = (head ?m + Suc k) mod cap"
        using okm by (simp add: head_note mod_simps)
      with head_lt [OF okm] \<open>Suc k < cap\<close> show False
        by (cases "head ?m + Suc k < cap") (auto simp: le_mod_geq)
    qed
  qed
  then show ?thesis
    using okm by (simp add: split hm [symmetric] slot_note)
qed

end

end
