(* ===== verification/Irq_Events.thy ===== *)
theory Irq_Events
  imports Ring_Log
begin

text \<open>
  The interrupt controller and the always-on rings the device models write
  (runtime/src/interrupts.c, the I_STAT and I_MASK handlers of runtime/src/memory.c,
  runtime/src/event_ring.c, runtime/src/device_trace.c).

  The record \<open>sys\<close> holds the process-wide variables of those files and, as plain fields,
  the values their accessors report at the moment of a call: the guest cycle counter, the
  frame counter, the last store address and function noted by the debug server, the native
  overlay function in progress, whether the dirty-RAM interpreter is active and whether an
  exception is being handled. Component states extend the record, so that every operation
  below applies to them directly.

  Configuration: a desktop build with the debug tools (not PSX_VIRTUA), where the event
  ring has 65536 entries and the device trace 1048576.
\<close>

section \<open>State\<close>

record event_entry =
  ee_seq :: u64
  ee_cycle :: u64
  ee_pc :: u32
  ee_func :: u32
  ee_overlay_fn :: u32
  ee_i_stat :: u32
  ee_i_mask :: u32
  ee_aux :: u32
  ee_kind :: u16
  ee_mode :: u8
  ee_detail :: u8

record dev_event =
  de_seq :: u64
  de_cycle :: u64
  de_frame :: u32
  de_source :: u32
  de_detail :: u32

record imask_entry =
  ie_old_mask :: u32
  ie_new_mask :: u32
  ie_caller :: u32
  ie_store_pc :: u32
  ie_width :: u8
  ie_bit7_set :: u8
  ie_bit7_clear :: u8
  ie_in_exc :: u8

record sys =
  i_stat :: u32
  i_mask :: u32
  cycle_count :: u64
  s_frame_count :: u64
  g_debug_last_store_pc :: u32
  g_debug_current_func_addr :: u32
  overlay_inprogress :: u32
  interp_active :: bool
  in_exception :: u32
  ev_ring :: "nat \<Rightarrow> event_entry"
  ev_seq :: u64
  dev_ring :: "nat \<Rightarrow> dev_event"
  dev_seq :: u64
  dev_armed :: u32
  imask_trace :: "nat \<Rightarrow> imask_entry"
  imask_trace_idx :: nat
  imask_trace_count :: nat
  imask_bit7_set_count :: nat
  imask_bit7_clear_count :: nat
  g_vblank_ack_count :: u64

text \<open>The variables as the loader leaves them (static storage is zero), with an extension for
  the state of a component.\<close>

definition sys_boot :: "'a \<Rightarrow> 'a sys_scheme" where
  "sys_boot r =
     \<lparr> i_stat = 0, i_mask = 0, cycle_count = 0, s_frame_count = 0, g_debug_last_store_pc = 0,
       g_debug_current_func_addr = 0, overlay_inprogress = 0, interp_active = False, in_exception = 0,
       ev_ring = (\<lambda>_. \<lparr> ee_seq = 0, ee_cycle = 0, ee_pc = 0, ee_func = 0, ee_overlay_fn = 0, ee_i_stat = 0,
                        ee_i_mask = 0, ee_aux = 0, ee_kind = 0, ee_mode = 0, ee_detail = 0 \<rparr>),
       ev_seq = 0,
       dev_ring = (\<lambda>_. \<lparr> de_seq = 0, de_cycle = 0, de_frame = 0, de_source = 0, de_detail = 0 \<rparr>),
       dev_seq = 0, dev_armed = 0,
       imask_trace = (\<lambda>_. \<lparr> ie_old_mask = 0, ie_new_mask = 0, ie_caller = 0, ie_store_pc = 0, ie_width = 0,
                           ie_bit7_set = 0, ie_bit7_clear = 0, ie_in_exc = 0 \<rparr>),
       imask_trace_idx = 0, imask_trace_count = 0, imask_bit7_set_count = 0, imask_bit7_clear_count = 0,
       g_vblank_ack_count = 0, \<dots> = r \<rparr>"

section \<open>The event ring (event_ring.c)\<close>

abbreviation (input) EVENT_RING_CAP :: u64 where "EVENT_RING_CAP \<equiv> 65536"

abbreviation (input) EV_DMA_KICK :: u16 where "EV_DMA_KICK \<equiv> 5"
abbreviation (input) EV_DMA_DONE :: u16 where "EV_DMA_DONE \<equiv> 6"
abbreviation (input) EV_DMA_SCHED :: u16 where "EV_DMA_SCHED \<equiv> 8"
abbreviation (input) EV_ENQ :: u16 where "EV_ENQ \<equiv> 9"
abbreviation (input) EV_DEQ :: u16 where "EV_DEQ \<equiv> 10"

abbreviation (input) SRC_DMA0 :: u8 where "SRC_DMA0 \<equiv> 1"
abbreviation (input) SRC_TIMER0 :: u8 where "SRC_TIMER0 \<equiv> 24"

abbreviation (input) MODE_STATIC :: u8 where "MODE_STATIC \<equiv> 1"
abbreviation (input) MODE_NATIVE_OVERLAY :: u8 where "MODE_NATIVE_OVERLAY \<equiv> 2"
abbreviation (input) MODE_INTERP :: u8 where "MODE_INTERP \<equiv> 3"

definition current_mode :: "'a sys_scheme \<Rightarrow> u8" where
  "current_mode s =
     (if overlay_inprogress s \<noteq> 0 then MODE_NATIVE_OVERLAY
      else if interp_active s then MODE_INTERP
      else MODE_STATIC)"

definition mk_event_entry :: "u16 \<Rightarrow> u8 \<Rightarrow> u32 \<Rightarrow> 'a sys_scheme \<Rightarrow> event_entry" where
  "mk_event_entry kind detail aux s =
     \<lparr> ee_seq = ev_seq s, ee_cycle = cycle_count s, ee_pc = g_debug_last_store_pc s,
       ee_func = g_debug_current_func_addr s, ee_overlay_fn = overlay_inprogress s,
       ee_i_stat = i_stat s, ee_i_mask = i_mask s, ee_aux = aux, ee_kind = kind,
       ee_mode = current_mode s, ee_detail = detail \<rparr>"

definition event_ring_record_aux :: "u16 \<Rightarrow> u8 \<Rightarrow> u32 \<Rightarrow> 'a sys_scheme \<Rightarrow> 'a sys_scheme" where
  "event_ring_record_aux kind detail aux s =
     s\<lparr> ev_ring := (ev_ring s)(unat (ev_seq s AND (EVENT_RING_CAP - 1)) := mk_event_entry kind detail aux s),
        ev_seq := ev_seq s + 1 \<rparr>"

definition event_ring_record :: "u16 \<Rightarrow> u8 \<Rightarrow> 'a sys_scheme \<Rightarrow> 'a sys_scheme" where
  "event_ring_record kind detail s = event_ring_record_aux kind detail 0 s"

section \<open>The device trace (device_trace.c)\<close>

abbreviation (input) DEVTRACE_RING_CAP :: u64 where "DEVTRACE_RING_CAP \<equiv> 1048576"

definition device_trace_arm :: "int \<Rightarrow> 'a sys_scheme \<Rightarrow> 'a sys_scheme" where
  "device_trace_arm on s = s\<lparr> dev_armed := (if on \<noteq> 0 then 1 else 0) \<rparr>"

definition mk_dev_event :: "u32 \<Rightarrow> u32 \<Rightarrow> 'a sys_scheme \<Rightarrow> dev_event" where
  "mk_dev_event source detail s =
     \<lparr> de_seq = dev_seq s, de_cycle = cycle_count s, de_frame = ucast (s_frame_count s),
       de_source = source, de_detail = detail \<rparr>"

definition device_trace_note :: "u32 \<Rightarrow> u32 \<Rightarrow> 'a sys_scheme \<Rightarrow> 'a sys_scheme" where
  "device_trace_note source detail s =
     (if dev_armed s = 0 then s
      else s\<lparr> dev_ring := (dev_ring s)(unat (dev_seq s AND (DEVTRACE_RING_CAP - 1)) := mk_dev_event source detail s),
              dev_seq := dev_seq s + 1 \<rparr>)"

definition device_trace_get :: "u32 \<Rightarrow> 'a sys_scheme \<Rightarrow> dev_event list" where
  "device_trace_get max_rows s =
     (if max_rows = 0 then []
      else let total = dev_seq s;
               avail = (if total < DEVTRACE_RING_CAP then ucast total else ucast DEVTRACE_RING_CAP) :: u32;
               n = (if avail < max_rows then avail else max_rows);
               start = total - ucast n
           in map (\<lambda>i. dev_ring s (unat ((start + word_of_nat i) AND (DEVTRACE_RING_CAP - 1)))) [0 ..< unat n])"

section \<open>Interrupt lines (interrupts.c, memory.c)\<close>

definition psx_irq_raise :: "nat \<Rightarrow> u32 \<Rightarrow> 'a sys_scheme \<Rightarrow> 'a sys_scheme" where
  "psx_irq_raise b detail s =
     device_trace_note (word_of_nat b) detail (s\<lparr> i_stat := i_stat s OR push_bit b 1 \<rparr>)"

definition interrupt_write_stat_masked :: "u32 \<Rightarrow> u32 \<Rightarrow> 'a sys_scheme \<Rightarrow> 'a sys_scheme" where
  "interrupt_write_stat_masked val msk s =
     (let ack_mask = msk AND 0x7FF;
          before = i_stat s;
          s1 = s\<lparr> i_stat := (i_stat s AND NOT ack_mask) OR (i_stat s AND val AND ack_mask) \<rparr>
      in if before AND 1 \<noteq> 0 \<and> i_stat s1 AND 1 = 0
         then s1\<lparr> g_vblank_ack_count := g_vblank_ack_count s1 + 1 \<rparr> else s1)"

abbreviation (input) IMASK_TRACE_CAP :: nat where "IMASK_TRACE_CAP \<equiv> 4096"

definition imask_trace_record :: "u32 \<Rightarrow> u32 \<Rightarrow> u8 \<Rightarrow> 'a sys_scheme \<Rightarrow> 'a sys_scheme" where
  "imask_trace_record old_val new_val width s =
     (let set7 = old_val AND 0x80 = 0 \<and> new_val AND 0x80 \<noteq> 0;
          clr7 = old_val AND 0x80 \<noteq> 0 \<and> new_val AND 0x80 = 0;
          e = \<lparr> ie_old_mask = old_val, ie_new_mask = new_val,
                ie_caller = g_debug_current_func_addr s, ie_store_pc = g_debug_last_store_pc s,
                ie_width = width, ie_bit7_set = of_flag set7, ie_bit7_clear = of_flag clr7,
                ie_in_exc = ucast (in_exception s) \<rparr>
      in s\<lparr> imask_trace := (imask_trace s)(imask_trace_idx s := e),
            imask_bit7_set_count := imask_bit7_set_count s + (if set7 then 1 else 0),
            imask_bit7_clear_count := imask_bit7_clear_count s + (if clr7 then 1 else 0),
            imask_trace_idx := (imask_trace_idx s + 1) mod IMASK_TRACE_CAP,
            imask_trace_count := imask_trace_count s + 1 \<rparr>)"

definition interrupt_write_mask_masked :: "u32 \<Rightarrow> u32 \<Rightarrow> u8 \<Rightarrow> 'a sys_scheme \<Rightarrow> 'a sys_scheme" where
  "interrupt_write_mask_masked val msk width s =
     (let old = i_mask s;
          new = ((i_mask s AND NOT msk) OR (val AND msk)) AND 0x7FF
      in imask_trace_record old new width (s\<lparr> i_mask := new \<rparr>))"

section \<open>What the recording calls leave alone\<close>

lemma event_ring_record_aux_frame [simp, frame_simps]:
  "i_stat (event_ring_record_aux k d a s) = i_stat s"
  "i_mask (event_ring_record_aux k d a s) = i_mask s"
  "sys.more (event_ring_record_aux k d a s) = sys.more s"
  "cycle_count (event_ring_record_aux k d a s) = cycle_count s"
  "s_frame_count (event_ring_record_aux k d a s) = s_frame_count s"
  "g_debug_last_store_pc (event_ring_record_aux k d a s) = g_debug_last_store_pc s"
  "dev_armed (event_ring_record_aux k d a s) = dev_armed s"
  by (simp_all add: event_ring_record_aux_def)

lemma device_trace_note_frame [simp, frame_simps]:
  "i_stat (device_trace_note b d s) = i_stat s"
  "i_mask (device_trace_note b d s) = i_mask s"
  "sys.more (device_trace_note b d s) = sys.more s"
  "cycle_count (device_trace_note b d s) = cycle_count s"
  "s_frame_count (device_trace_note b d s) = s_frame_count s"
  "g_debug_last_store_pc (device_trace_note b d s) = g_debug_last_store_pc s"
  "dev_armed (device_trace_note b d s) = dev_armed s"
  by (simp_all add: device_trace_note_def)

lemma psx_irq_raise_i_stat [simp]: "i_stat (psx_irq_raise b d s) = i_stat s OR push_bit b 1"
  by (simp add: psx_irq_raise_def)

lemma psx_irq_raise_frame [simp, frame_simps]:
  "i_mask (psx_irq_raise b d s) = i_mask s"
  "sys.more (psx_irq_raise b d s) = sys.more s"
  "cycle_count (psx_irq_raise b d s) = cycle_count s"
  "s_frame_count (psx_irq_raise b d s) = s_frame_count s"
  "g_debug_last_store_pc (psx_irq_raise b d s) = g_debug_last_store_pc s"
  "dev_armed (psx_irq_raise b d s) = dev_armed s"
  by (simp_all add: psx_irq_raise_def)

section \<open>The rings meet the ring contract\<close>

lemma mask_65535: "(65535 :: u64) = mask 16"
  by (simp add: mask_eq_exp_minus_1)

lemma mask_1048575: "(1048575 :: u64) = mask 20"
  by (simp add: mask_eq_exp_minus_1)

interpretation event_log: ring_log
  65536
  "\<lambda>s. True"
  "\<lambda>s :: 'a sys_scheme. unat (ev_seq s AND 65535)"
  ev_ring
  "\<lambda>(k, d, a). event_ring_record_aux k d a"
  "\<lambda>(k, d, a). mk_event_entry k d a"
proof (unfold_locales, goal_cases)
  case (2 s)
  show ?case unfolding mask_65535 by (simp add: unat_and_mask)
next
  case (4 s x)
  show ?case
    unfolding mask_65535
    by (cases x) (simp add: event_ring_record_aux_def unat_succ_and_mask)
qed (auto simp: event_ring_record_aux_def)

interpretation device_log: ring_log
  1048576
  "\<lambda>s. dev_armed s \<noteq> 0"
  "\<lambda>s :: 'a sys_scheme. unat (dev_seq s AND 1048575)"
  dev_ring
  "\<lambda>(b, d). device_trace_note b d"
  "\<lambda>(b, d). mk_dev_event b d"
proof (unfold_locales, goal_cases)
  case (2 s)
  show ?case unfolding mask_1048575 by (simp add: unat_and_mask)
next
  case (4 s x)
  then show ?case
    unfolding mask_1048575
    by (cases x) (simp add: device_trace_note_def unat_succ_and_mask)
qed (auto simp: device_trace_note_def)

end
