(* ===== verification/Timers.thy ===== *)
theory Timers
  imports Irq_Events
begin

text \<open>
  The three root counters (runtime/src/timers.c). The state extends \<open>sys\<close> with the file's
  static arrays. \<open>timer_advance_counts\<close> is the bulk routine the block-cycle builds run,
  \<open>timer_tick_one\<close> the one-count step the oracle builds run; the first theorem of the file
  says that they are the same machine. The second group justifies the cycle budget that
  \<open>timers_cycles_to_irq\<close> hands to the precise interrupt slicing.

  The signed \<open>int irq_line\<close> is kept as its 32-bit pattern.
\<close>

section \<open>State and registers\<close>

record timer =
  counter :: u16
  mode :: u32
  target :: u16
  irq_line :: u32

record timers_st = sys +
  timers :: "nat \<Rightarrow> timer"
  timer_frac :: "nat \<Rightarrow> u32"
  g_timer_irq_fired :: "nat \<Rightarrow> u64"

abbreviation (input) MODE_RESET_TARGET :: u32 where "MODE_RESET_TARGET \<equiv> 8"
abbreviation (input) MODE_IRQ_TARGET :: u32 where "MODE_IRQ_TARGET \<equiv> 16"
abbreviation (input) MODE_IRQ_OVERFLOW :: u32 where "MODE_IRQ_OVERFLOW \<equiv> 32"
abbreviation (input) MODE_IRQ_REPEAT :: u32 where "MODE_IRQ_REPEAT \<equiv> 64"
abbreviation (input) MODE_IRQ_TOGGLE :: u32 where "MODE_IRQ_TOGGLE \<equiv> 128"
abbreviation (input) MODE_CLK_SRC1 :: u32 where "MODE_CLK_SRC1 \<equiv> 512"
abbreviation (input) MODE_IRQ_REQUEST :: u32 where "MODE_IRQ_REQUEST \<equiv> 1024"
abbreviation (input) MODE_TARGET_FLAG :: u32 where "MODE_TARGET_FLAG \<equiv> 2048"
abbreviation (input) MODE_OVERFLOW_FLAG :: u32 where "MODE_OVERFLOW_FLAG \<equiv> 4096"

abbreviation (input) TIMER_BASE :: u32 where "TIMER_BASE \<equiv> 0x1F801100"

definition timer_irq :: "nat \<Rightarrow> nat" where
  "timer_irq t = [4, 5, 6] ! t"

definition upd_timer :: "nat \<Rightarrow> (timer \<Rightarrow> timer) \<Rightarrow> 'a timers_st_scheme \<Rightarrow> 'a timers_st_scheme" where
  "upd_timer t f s = s\<lparr> timers := (timers s)(t := f (timers s t)) \<rparr>"

definition timers_init :: "'a timers_st_scheme \<Rightarrow> 'a timers_st_scheme" where
  "timers_init s =
     s\<lparr> timers := (\<lambda>_. \<lparr> counter = 0, mode = 0, target = 0, irq_line = 0 \<rparr>),
        timer_frac := (\<lambda>_. 0) \<rparr>"

definition timers_get_snapshot ::
  "'a timers_st_scheme \<Rightarrow> u16 list \<times> u32 list \<times> u16 list \<times> u32 list \<times> u32 list" where
  "timers_get_snapshot s =
     (map (\<lambda>i. counter (timers s i)) [0 ..< 3], map (\<lambda>i. mode (timers s i)) [0 ..< 3],
      map (\<lambda>i. target (timers s i)) [0 ..< 3], map (\<lambda>i. irq_line (timers s i)) [0 ..< 3],
      map (timer_frac s) [0 ..< 3])"

definition timers_set_snapshot ::
  "u16 list \<times> u32 list \<times> u16 list \<times> u32 list \<times> u32 list \<Rightarrow> 'a timers_st_scheme \<Rightarrow> 'a timers_st_scheme" where
  "timers_set_snapshot snap s =
     (case snap of (cs, ms, ts, ls, fs) \<Rightarrow>
        fold (\<lambda>i s. (upd_timer i (\<lambda>_. \<lparr> counter = cs ! i, mode = ms ! i, target = ts ! i, irq_line = ls ! i \<rparr>) s)
                      \<lparr> timer_frac := (timer_frac s)(i := fs ! i) \<rparr>) [0 ..< 3] s)"

definition timer_src :: "nat \<Rightarrow> 'a timers_st_scheme \<Rightarrow> u32" where
  "timer_src t s = drop_bit 8 (mode (timers s t)) AND 3"

definition timer_uses_sysclk :: "nat \<Rightarrow> 'a timers_st_scheme \<Rightarrow> bool" where
  "timer_uses_sysclk t s =
     (let src = timer_src t s
      in if t = 0 then src = 0 \<or> src = 2
         else if t = 1 then src = 0 \<or> src = 2
         else if t = 2 then src = 0 \<or> src = 1
         else True)"

section \<open>Counting\<close>

definition timer_drive_line :: "nat \<Rightarrow> 'a timers_st_scheme \<Rightarrow> 'a timers_st_scheme" where
  "timer_drive_line t s0 =
     (if mode (timers s0 t) AND MODE_IRQ_TOGGLE \<noteq> 0
      then let s = upd_timer t (\<lambda>tm. tm\<lparr> irq_line := irq_line tm XOR 1 \<rparr>) s0
           in if irq_line (timers s t) \<noteq> 0
              then psx_irq_raise (timer_irq t) (word_of_nat t)
                     (upd_timer t (\<lambda>tm. tm\<lparr> mode := mode tm AND NOT MODE_IRQ_REQUEST \<rparr>) s)
              else upd_timer t (\<lambda>tm. tm\<lparr> mode := mode tm OR MODE_IRQ_REQUEST \<rparr>) s
      else upd_timer t (\<lambda>tm. tm\<lparr> mode := mode tm OR MODE_IRQ_REQUEST \<rparr>)
             (psx_irq_raise (timer_irq t) (word_of_nat t)
               (upd_timer t (\<lambda>tm. tm\<lparr> mode := mode tm AND NOT MODE_IRQ_REQUEST \<rparr>) s0)))"

definition timer_disarm_oneshot :: "nat \<Rightarrow> 'a timers_st_scheme \<Rightarrow> 'a timers_st_scheme" where
  "timer_disarm_oneshot t s =
     (if mode (timers s t) AND MODE_IRQ_REPEAT = 0
      then upd_timer t (\<lambda>tm. tm\<lparr> mode := mode tm AND NOT (MODE_IRQ_TARGET OR MODE_IRQ_OVERFLOW) \<rparr>) s
      else s)"

definition timer_fire_irq :: "nat \<Rightarrow> 'a timers_st_scheme \<Rightarrow> 'a timers_st_scheme" where
  "timer_fire_irq t s0 =
     (let s1 = s0\<lparr> g_timer_irq_fired := (g_timer_irq_fired s0)(t := g_timer_irq_fired s0 t + 1) \<rparr>;
          s3 = timer_disarm_oneshot t (timer_drive_line t s1)
      in event_ring_record_aux EV_DEQ (SRC_TIMER0 + word_of_nat t) (ucast (counter (timers s3 t))) s3)"

text \<open>The blocks both counting routines share: what happens on reaching the target and on wrapping.\<close>

definition timer_hit_target :: "nat \<Rightarrow> 'a timers_st_scheme \<Rightarrow> 'a timers_st_scheme" where
  "timer_hit_target t s =
     (let s1 = upd_timer t (\<lambda>tm. tm\<lparr> mode := mode tm OR MODE_TARGET_FLAG \<rparr>) s;
          s2 = (if mode (timers s1 t) AND MODE_IRQ_TARGET \<noteq> 0 then timer_fire_irq t s1 else s1)
      in if mode (timers s2 t) AND MODE_RESET_TARGET \<noteq> 0
         then upd_timer t (\<lambda>tm. tm\<lparr> counter := 0 \<rparr>) s2 else s2)"

definition timer_hit_overflow :: "nat \<Rightarrow> 'a timers_st_scheme \<Rightarrow> 'a timers_st_scheme" where
  "timer_hit_overflow t s =
     (let s1 = upd_timer t (\<lambda>tm. tm\<lparr> mode := mode tm OR MODE_OVERFLOW_FLAG \<rparr>) s
      in if mode (timers s1 t) AND MODE_IRQ_OVERFLOW \<noteq> 0 then timer_fire_irq t s1 else s1)"

definition timer_tick_one :: "nat \<Rightarrow> 'a timers_st_scheme \<Rightarrow> 'a timers_st_scheme" where
  "timer_tick_one t s =
     (let old = counter (timers s t);
          s1 = upd_timer t (\<lambda>tm. tm\<lparr> counter := counter tm + 1 \<rparr>) s;
          s2 = (if counter (timers s1 t) = target (timers s1 t) then timer_hit_target t s1 else s1)
      in if old = 0xFFFF then timer_hit_overflow t s2 else s2)"

definition timer_target_dist :: "timer \<Rightarrow> u32" where
  "timer_target_dist tm =
     (let d = (ucast (target tm) - ucast (counter tm)) AND 0xFFFF in if d = 0 then 0x10000 else d)"

definition timer_overflow_dist :: "timer \<Rightarrow> u32" where
  "timer_overflow_dist tm = 0x10000 - ucast (counter tm)"

definition timer_step_size :: "timer \<Rightarrow> u32 \<Rightarrow> u32" where
  "timer_step_size tm ticks =
     (let s1 = ticks;
          s2 = (if s1 > timer_target_dist tm then timer_target_dist tm else s1);
          s3 = (if s2 > timer_overflow_dist tm then timer_overflow_dist tm else s2)
      in if s3 = 0 then 1 else s3)"

definition timer_advance_step :: "nat \<Rightarrow> u32 \<Rightarrow> 'a timers_st_scheme \<Rightarrow> 'a timers_st_scheme" where
  "timer_advance_step t step s =
     (let tm = timers s t;
          old = counter tm;
          s1 = upd_timer t (\<lambda>tm. tm\<lparr> counter := ucast (ucast (counter tm) + step) \<rparr>) s;
          s2 = (if step = timer_target_dist tm then timer_hit_target t s1 else s1)
      in if ucast old + step > 0xFFFF \<or> step = timer_overflow_dist tm
         then timer_hit_overflow t s2 else s2)"

lemma timer_step_size_nonzero: "timer_step_size tm ticks \<noteq> 0"
  by (simp add: timer_step_size_def Let_def)

lemma timer_step_size_le:
  assumes "ticks \<noteq> 0"
  shows "timer_step_size tm ticks \<le> ticks"
  using word_one_le [OF assms]
  by (auto simp: timer_step_size_def Let_def)

function timer_advance_counts :: "nat \<Rightarrow> u32 \<Rightarrow> 'a timers_st_scheme \<Rightarrow> 'a timers_st_scheme" where
  "timer_advance_counts t ticks s =
     (if ticks = 0 then s
      else let step = timer_step_size (timers s t) ticks
           in timer_advance_counts t (ticks - step) (timer_advance_step t step s))"
  by pat_completeness auto
termination
proof (relation "measure (\<lambda>(t, ticks, s). unat ticks)")
  fix t :: nat and ticks :: u32 and s :: "'a timers_st_scheme" and step
  assume "ticks \<noteq> 0" and "step = timer_step_size (timers s t) ticks"
  then have "step \<le> ticks" and "step \<noteq> 0"
    by (simp_all add: timer_step_size_le timer_step_size_nonzero)
  then have "unat (ticks - step) = unat ticks - unat step" and "0 < unat step" and "unat step \<le> unat ticks"
    by (simp_all add: unat_sub_le unat_gt_0 word_le_nat_alt)
  then show "((t, ticks - step, timer_advance_step t step s), (t, ticks, s)) \<in> measure (\<lambda>(t, ticks, s). unat ticks)"
    by simp
qed simp

declare timer_advance_counts.simps [simp del]

definition timer_advance_divided :: "nat \<Rightarrow> u32 \<Rightarrow> u32 \<Rightarrow> 'a timers_st_scheme \<Rightarrow> 'a timers_st_scheme" where
  "timer_advance_divided t cycles divisor s =
     (let divisor = (if divisor = 0 then 1 else divisor);
          total = timer_frac s t + cycles;
          ticks = total div divisor;
          s1 = s\<lparr> timer_frac := (timer_frac s)(t := total mod divisor) \<rparr>
      in if ticks \<noteq> 0 then timer_advance_counts t ticks s1 else s1)"

definition timers_advance_one :: "u32 \<Rightarrow> nat \<Rightarrow> 'a timers_st_scheme \<Rightarrow> 'a timers_st_scheme" where
  "timers_advance_one cycles t s =
     (let src = timer_src t s
      in if t = 2 \<and> (src = 2 \<or> src = 3) then timer_advance_divided t cycles 8 s
         else if timer_uses_sysclk t s then timer_advance_counts t cycles s
         else if t = 1 then timer_advance_divided t cycles 2146 s
         else if t = 0 then timer_advance_divided t cycles 5 s
         else s)"

definition timers_advance :: "u32 \<Rightarrow> 'a timers_st_scheme \<Rightarrow> 'a timers_st_scheme" where
  "timers_advance cycles s =
     (if cycles = 0 then s else fold (timers_advance_one cycles) [0 ..< 3] s)"

definition timer_divisor :: "nat \<Rightarrow> 'a timers_st_scheme \<Rightarrow> u32" where
  "timer_divisor t s =
     (let src = timer_src t s
      in if t = 2 \<and> (src = 2 \<or> src = 3) then 8
         else if timer_uses_sysclk t s then 1
         else if t = 1 then 2146
         else if t = 0 then 5
         else 1)"

definition timer_ticks_to_irq :: "timer \<Rightarrow> u32" where
  "timer_ticks_to_irq tm =
     (let want_target = mode tm AND MODE_IRQ_TARGET \<noteq> 0;
          want_overflow = mode tm AND MODE_IRQ_OVERFLOW \<noteq> 0;
          t0 = (0xFFFFFFFF :: u32);
          t1 = (if want_target \<and> timer_target_dist tm < t0 then timer_target_dist tm else t0)
      in if want_overflow \<and> timer_overflow_dist tm < t1 then timer_overflow_dist tm else t1)"

definition timers_cycles_to_irq_one :: "u32 \<Rightarrow> nat \<Rightarrow> 'a timers_st_scheme \<Rightarrow> u32 \<Rightarrow> u32" where
  "timers_cycles_to_irq_one i_msk t s best =
     (let tm = timers s t
      in if i_msk AND push_bit (timer_irq t) 1 = 0 then best
         else if mode tm AND MODE_IRQ_TARGET = 0 \<and> mode tm AND MODE_IRQ_OVERFLOW = 0 then best
         else let ticks = timer_ticks_to_irq tm
              in if ticks = 0xFFFFFFFF then best
                 else let dv = timer_divisor t s;
                          cyc0 = (ucast ticks :: u64) * ucast dv;
                          cyc1 = (if cyc0 > ucast (timer_frac s t) then cyc0 - ucast (timer_frac s t) else 0);
                          cyc2 = (if cyc1 > 0xFFFFFFFF then 0xFFFFFFFF else cyc1)
                      in if (ucast cyc2 :: u32) < best then ucast cyc2 else best)"

definition timers_cycles_to_irq :: "u32 \<Rightarrow> 'a timers_st_scheme \<Rightarrow> u32" where
  "timers_cycles_to_irq i_msk s =
     fold (\<lambda>t best. timers_cycles_to_irq_one i_msk t s best) [0 ..< 3] 0xFFFFFFFF"

section \<open>Register access\<close>

definition timers_read :: "bool \<Rightarrow> u32 \<Rightarrow> 'a timers_st_scheme \<Rightarrow> u32 \<times> 'a timers_st_scheme" where
  "timers_read block_cycles addr s =
     (let t = sint (drop_bit 4 (addr - TIMER_BASE));
          reg = (addr - TIMER_BASE) AND 0x0F
      in if t < 0 \<or> t > 2 then (0, s)
         else let n = nat t
              in if reg = 0 then
                   (let s1 =
                      (if block_cycles then s
                       else let inc = (if n = 2 \<and> mode (timers s n) AND MODE_CLK_SRC1 \<noteq> 0 then 1 else 8);
                                old = counter (timers s n);
                                s' = upd_timer n (\<lambda>tm. tm\<lparr> counter := counter tm + inc \<rparr>) s
                            in if target (timers s' n) \<noteq> 0 \<and> old < target (timers s' n) \<and>
                                  counter (timers s' n) \<ge> target (timers s' n)
                               then let s'' = upd_timer n (\<lambda>tm. tm\<lparr> mode := mode tm OR MODE_TARGET_FLAG \<rparr>) s'
                                    in if mode (timers s'' n) AND MODE_RESET_TARGET \<noteq> 0
                                       then upd_timer n (\<lambda>tm. tm\<lparr> counter := 0 \<rparr>) s'' else s''
                               else s')
                    in (ucast (counter (timers s1 n)), s1))
                 else if reg = 4 then
                   (mode (timers s n),
                    upd_timer n (\<lambda>tm. tm\<lparr> mode := mode tm AND NOT (MODE_TARGET_FLAG OR MODE_OVERFLOW_FLAG) \<rparr>) s)
                 else if reg = 8 then (ucast (target (timers s n)), s)
                 else (0, s))"

definition timers_write :: "u32 \<Rightarrow> u32 \<Rightarrow> 'a timers_st_scheme \<Rightarrow> 'a timers_st_scheme" where
  "timers_write addr val s =
     (let t = sint (drop_bit 4 (addr - TIMER_BASE));
          reg = (addr - TIMER_BASE) AND 0x0F
      in if t < 0 \<or> t > 2 then s
         else let n = nat t
              in if reg = 0 then upd_timer n (\<lambda>tm. tm\<lparr> counter := ucast (val AND 0xFFFF) \<rparr>) s
                 else if reg = 4 then
                   (let s1 = upd_timer n (\<lambda>tm. tm\<lparr> mode := (val AND 0x03FF) OR MODE_IRQ_REQUEST,
                                                   counter := 0, irq_line := 0 \<rparr>) s;
                        s2 = s1\<lparr> timer_frac := (timer_frac s1)(n := 0) \<rparr>
                    in event_ring_record_aux EV_ENQ (SRC_TIMER0 + word_of_nat n)
                         (ucast (target (timers s2 n))) s2)
                 else if reg = 8 then upd_timer n (\<lambda>tm. tm\<lparr> target := ucast (val AND 0xFFFF) \<rparr>) s
                 else s)"

definition timers_tick_ticks :: "int \<Rightarrow> nat \<Rightarrow> 'a timers_st_scheme \<Rightarrow> nat" where
  "timers_tick_ticks cycles t s =
     (if timer_uses_sysclk t s then nat cycles
      else if t = 2 then nat (sgn cycles * (\<bar>cycles\<bar> div 8))
      else 0)"

definition timers_tick :: "int \<Rightarrow> 'a timers_st_scheme \<Rightarrow> 'a timers_st_scheme" where
  "timers_tick cycles s0 =
     (let s1 = (if \<not> timer_uses_sysclk 1 s0 then (timer_tick_one 1 ^^ 263) s0 else s0)
      in fold (\<lambda>t s. (timer_tick_one t ^^ timers_tick_ticks cycles t s) s) [0 ..< 3] s1)"

section \<open>Distances and steps as numbers\<close>

lemma upd_timer_timers [simp]: "timers (upd_timer t f s) = (timers s)(t := f (timers s t))"
  by (simp add: upd_timer_def)

lemma upd_timer_compose [simp]: "upd_timer t f (upd_timer t g s) = upd_timer t (f \<circ> g) s"
  by (simp add: upd_timer_def)

lemma mask_0xFFFF: "(65535 :: u32) = mask 16"
  by (simp add: mask_eq_exp_minus_1)

lemma unat_target_dist:
  "unat (timer_target_dist tm) =
     (if unat (counter tm) < unat (target tm) then unat (target tm) - unat (counter tm)
      else 65536 + unat (target tm) - unat (counter tm))"
proof -
  let ?c = "unat (counter tm)" and ?g = "unat (target tm)"
  let ?d = "(ucast (target tm) - ucast (counter tm)) AND (65535 :: u32)"
  have c: "?c < 65536" and g: "?g < 65536" by (rule unat_lt_65536)+
  have "unat (ucast (target tm) - ucast (counter tm) :: u32) = (?g + 4294967296 - ?c) mod 4294967296"
    using c by (simp add: unat_sub_u32 unat_ucast_up)
  then have "unat ?d = (?g + 4294967296 - ?c) mod 4294967296 mod 65536"
    unfolding mask_0xFFFF by (simp add: unat_and_mask)
  also have "\<dots> = (?g + 65536 - ?c + 65535 * 65536) mod 65536"
    using c by (simp add: add.commute)
  also have "\<dots> = (?g + 65536 - ?c) mod 65536"
    by (rule mod_mult_self1)
  finally have d: "unat ?d = (?g + 65536 - ?c) mod 65536" .
  show ?thesis
  proof (cases "?c = ?g")
    case True
    then have "?d = 0" using d by (simp add: unat_eq_zero)
    then show ?thesis using True by (simp add: timer_target_dist_def)
  next
    case False
    then have "unat ?d \<noteq> 0" using d c g by (auto simp: mod_if)
    then have "?d \<noteq> 0" by (simp add: unat_eq_zero)
    then have "unat (timer_target_dist tm) = (?g + 65536 - ?c) mod 65536"
      using d by (simp add: timer_target_dist_def)
    then show ?thesis using False c g by (auto simp: mod_if)
  qed
qed

lemma unat_overflow_dist: "unat (timer_overflow_dist tm) = 65536 - unat (counter tm)"
proof -
  have "ucast (counter tm) \<le> (65536 :: u32)"
    using unat_lt_65536 [of "counter tm"] by (simp add: word_le_nat_alt unat_ucast_up)
  then show ?thesis
    by (simp add: timer_overflow_dist_def unat_sub_le unat_ucast_up)
qed

lemma unat_step_size:
  assumes "ticks \<noteq> 0"
  shows "unat (timer_step_size tm ticks)
       = min (unat ticks) (min (unat (timer_target_dist tm)) (unat (timer_overflow_dist tm)))"
proof -
  have nz: "unat (timer_target_dist tm) \<noteq> 0" "unat (timer_overflow_dist tm) \<noteq> 0"
    using unat_lt_65536 [of "counter tm"] unat_lt_65536 [of "target tm"]
    by (simp_all add: unat_target_dist unat_overflow_dist)
  then have "timer_target_dist tm \<noteq> 0" "timer_overflow_dist tm \<noteq> 0"
    by (metis unat_0)+
  with assms show ?thesis
    by (auto simp: timer_step_size_def Let_def word_less_nat_alt)
qed

section \<open>The bulk routine is the iterated tick\<close>

lemma timer_quiet_ticks:
  assumes "k < unat (timer_target_dist (timers s t))" and "k < unat (timer_overflow_dist (timers s t))"
  shows "(timer_tick_one t ^^ k) s = upd_timer t (\<lambda>tm. tm\<lparr> counter := counter tm + word_of_nat k \<rparr>) s"
  using assms
proof (induction k)
  case 0
  then show ?case by (simp add: upd_timer_def)
next
  case (Suc k)
  let ?tm = "timers s t"
  have sum: "unat (counter ?tm + word_of_nat k) = unat (counter ?tm) + k"
    using Suc.prems by (simp add: unat_overflow_dist unat_word_ariths unat_word_of_nat)
  have sum': "unat (counter ?tm + word_of_nat k + 1) = unat (counter ?tm) + k + 1"
    using Suc.prems by (simp add: unat_overflow_dist unat_word_ariths unat_word_of_nat)
  have "counter ?tm + word_of_nat k \<noteq> 0xFFFF"
    using sum Suc.prems by (auto simp: unat_overflow_dist)
  moreover have "counter ?tm + word_of_nat k + 1 \<noteq> target ?tm"
    using sum' Suc.prems by (auto simp: unat_target_dist split: if_splits)
  ultimately have "timer_tick_one t (upd_timer t (\<lambda>tm. tm\<lparr> counter := counter tm + word_of_nat k \<rparr>) s)
      = upd_timer t (\<lambda>tm. tm\<lparr> counter := counter tm + word_of_nat k + 1 \<rparr>) s"
    by (simp add: timer_tick_one_def Let_def o_def)
  then show ?case
    using Suc by (simp add: ac_simps)
qed

lemma timer_advance_step_ticks:
  assumes "1 \<le> unat step"
    and "unat step \<le> unat (timer_target_dist (timers s t))"
    and "unat step \<le> unat (timer_overflow_dist (timers s t))"
  shows "timer_advance_step t step s = (timer_tick_one t ^^ unat step) s"
proof -
  let ?tm = "timers s t"
  define k where "k = unat step - 1"
  have k: "unat step = Suc k" using assms(1) by (simp add: k_def)
  let ?s = "upd_timer t (\<lambda>tm. tm\<lparr> counter := counter tm + word_of_nat k \<rparr>) s"
  have ticks: "(timer_tick_one t ^^ unat step) s = timer_tick_one t ?s"
    using assms k by (simp add: timer_quiet_ticks)
  have sum: "unat (counter ?tm + word_of_nat k) = unat (counter ?tm) + k"
    using assms k by (simp add: unat_overflow_dist unat_word_ariths unat_word_of_nat)
  have cnt: "ucast (ucast (counter ?tm) + step) = counter ?tm + word_of_nat k + 1"
  proof -
    have "unat (ucast (counter ?tm) + step) mod 65536 = (unat (counter ?tm) + Suc k) mod 65536"
      by (simp add: unat_word_ariths unat_ucast_up k)
    then show ?thesis
      by (simp add: word_unat_eq_iff unat_ucast_mod unat_word_ariths unat_word_of_nat mod_simps)
  qed
  have hit: "counter ?tm + word_of_nat k + 1 = target ?tm \<longleftrightarrow> step = timer_target_dist ?tm"
  proof -
    have "unat (counter ?tm + word_of_nat k + 1) = (unat (counter ?tm) + k + 1) mod 65536"
      by (simp add: unat_word_ariths unat_word_of_nat mod_simps)
    then have "counter ?tm + word_of_nat k + 1 = target ?tm
                 \<longleftrightarrow> (unat (counter ?tm) + k + 1) mod 65536 = unat (target ?tm)"
      by (simp add: word_unat_eq_iff)
    also have "\<dots> \<longleftrightarrow> unat step = unat (timer_target_dist ?tm)"
      using assms k unat_lt_65536 [of "counter ?tm"] unat_lt_65536 [of "target ?tm"]
      unfolding unat_target_dist unat_overflow_dist by (auto simp: mod_if split: if_splits)
    finally show ?thesis by (simp add: word_unat_eq_iff)
  qed
  have ovf: "counter ?tm + word_of_nat k = 0xFFFF \<longleftrightarrow>
      (ucast (counter ?tm) + step > 0xFFFF \<or> step = timer_overflow_dist ?tm)"
  proof -
    have "unat (ucast (counter ?tm) + step) = unat (counter ?tm) + unat step"
      using assms by (simp add: unat_overflow_dist unat_word_ariths unat_ucast_up)
    then show ?thesis
      using sum assms k
      by (auto simp: word_unat_eq_iff word_less_nat_alt unat_overflow_dist)
  qed
  have upd: "upd_timer t (\<lambda>tm. tm\<lparr> counter := ucast (ucast (counter tm) + step) \<rparr>) s
      = upd_timer t (\<lambda>tm. tm\<lparr> counter := counter tm + word_of_nat k + 1 \<rparr>) s"
    by (simp add: upd_timer_def cnt)
  show ?thesis
    unfolding ticks timer_advance_step_def timer_tick_one_def Let_def upd
    by (simp add: o_def hit ovf)
qed

lemma timer_advance_counts_ticks: "timer_advance_counts t ticks s = (timer_tick_one t ^^ unat ticks) s"
proof (induction t ticks s rule: timer_advance_counts.induct)
  case (1 t ticks s)
  show ?case
  proof (cases "ticks = 0")
    case True
    then show ?thesis by (simp add: timer_advance_counts.simps)
  next
    case False
    let ?step = "timer_step_size (timers s t) ticks"
    have le: "?step \<le> ticks" using False by (rule timer_step_size_le)
    have "1 \<le> unat ?step"
      using timer_step_size_nonzero [of "timers s t" ticks] by (simp add: Suc_le_eq unat_gt_0)
    moreover have "unat ?step \<le> unat (timer_target_dist (timers s t))"
      and "unat ?step \<le> unat (timer_overflow_dist (timers s t))"
      using False by (simp_all add: unat_step_size)
    ultimately have step: "timer_advance_step t ?step s = (timer_tick_one t ^^ unat ?step) s"
      by (rule timer_advance_step_ticks)
    have "unat ticks = unat ?step + unat (ticks - ?step)"
      using le by (simp add: unat_sub_le word_le_nat_alt)
    then show ?thesis
      using False 1 [OF False refl] step
      by (subst timer_advance_counts.simps) (simp add: Let_def funpow_add_apply)
  qed
qed

section \<open>Quiet ticks\<close>

lemma mode_bit_tests [bit_test]:
  "(w :: u32) AND 8 = 0 \<longleftrightarrow> \<not> bit w 3"
  "(w :: u32) AND 16 = 0 \<longleftrightarrow> \<not> bit w 4"
  "(w :: u32) AND 32 = 0 \<longleftrightarrow> \<not> bit w 5"
  "(w :: u32) AND 64 = 0 \<longleftrightarrow> \<not> bit w 6"
  "(w :: u32) AND 128 = 0 \<longleftrightarrow> \<not> bit w 7"
  using and_power_two_zero_iff [of w 3] and_power_two_zero_iff [of w 4] and_power_two_zero_iff [of w 5]
    and_power_two_zero_iff [of w 6] and_power_two_zero_iff [of w 7]
  by simp_all

text \<open>A tick that raises no interrupt only touches its own counter.\<close>

definition fires_next :: "timer \<Rightarrow> bool" where
  "fires_next tm \<longleftrightarrow> bit (mode tm) 4 \<and> counter tm + 1 = target tm
                    \<or> bit (mode tm) 5 \<and> counter tm = 0xFFFF"

definition quiet_tick :: "timer \<Rightarrow> timer" where
  "quiet_tick tm =
     (let hit = counter tm + 1 = target tm
      in tm\<lparr> counter := (if hit \<and> bit (mode tm) 3 then 0 else counter tm + 1),
            mode := (mode tm OR (if hit then MODE_TARGET_FLAG else 0))
                      OR (if counter tm = 0xFFFF then MODE_OVERFLOW_FLAG else 0) \<rparr>)"

lemma upd_timer_cong: "f (timers s t) = g (timers s t) \<Longrightarrow> upd_timer t f s = upd_timer t g s"
  by (simp add: upd_timer_def)

lemma hit_target_quiet:
  assumes "\<not> bit (mode (timers s t)) 4"
  shows "timer_hit_target t s = upd_timer t (\<lambda>tm. tm\<lparr> mode := mode tm OR MODE_TARGET_FLAG,
           counter := (if bit (mode tm) 3 then 0 else counter tm) \<rparr>) s"
  using assms
  by (auto simp: timer_hit_target_def Let_def bit_test bit_or_iff intro!: upd_timer_cong)

lemma hit_overflow_quiet:
  assumes "\<not> bit (mode (timers s t)) 5"
  shows "timer_hit_overflow t s = upd_timer t (\<lambda>tm. tm\<lparr> mode := mode tm OR MODE_OVERFLOW_FLAG \<rparr>) s"
  using assms by (simp add: timer_hit_overflow_def Let_def bit_test bit_or_iff)

lemma tick_quiet:
  assumes "\<not> fires_next (timers s t)"
  shows "timer_tick_one t s = upd_timer t quiet_tick s"
proof -
  let ?tm = "timers s t"
  have t: "counter ?tm + 1 = target ?tm \<Longrightarrow> \<not> bit (mode ?tm) 4"
    and o: "counter ?tm = 0xFFFF \<Longrightarrow> \<not> bit (mode ?tm) 5"
    using assms by (simp_all add: fires_next_def)
  show ?thesis
  proof (cases "counter ?tm + 1 = target ?tm")
    case True
    then show ?thesis
      using t o
      by (auto simp: timer_tick_one_def Let_def hit_target_quiet hit_overflow_quiet bit_or_iff quiet_tick_def
          intro!: upd_timer_cong)
  next
    case False
    then show ?thesis
      using o
      by (auto simp: timer_tick_one_def Let_def hit_overflow_quiet quiet_tick_def intro!: upd_timer_cong)
  qed
qed

abbreviation irq_armed :: "timer \<Rightarrow> bool" where
  "irq_armed tm \<equiv> bit (mode tm) 4 \<or> bit (mode tm) 5"

lemma quiet_tick_keeps [simp]:
  "target (quiet_tick tm) = target tm"
  "bit (mode (quiet_tick tm)) 3 = bit (mode tm) 3"
  "bit (mode (quiet_tick tm)) 4 = bit (mode tm) 4"
  "bit (mode (quiet_tick tm)) 5 = bit (mode tm) 5"
  "bit (mode (quiet_tick tm)) 7 = bit (mode tm) 7"
  by (simp_all add: quiet_tick_def Let_def bit_simps)

lemma unat_ticks_to_irq:
  assumes "irq_armed tm"
  shows "unat (timer_ticks_to_irq tm) =
     (if bit (mode tm) 4 \<and> bit (mode tm) 5
      then min (unat (timer_target_dist tm)) (unat (timer_overflow_dist tm))
      else if bit (mode tm) 4 then unat (timer_target_dist tm) else unat (timer_overflow_dist tm))"
proof -
  have "unat (timer_target_dist tm) \<le> 65536" and "unat (timer_overflow_dist tm) \<le> 65536"
    using unat_lt_65536 [of "target tm"] by (auto simp: unat_target_dist unat_overflow_dist)
  then have "timer_target_dist tm < 0xFFFFFFFF" and "timer_overflow_dist tm < 0xFFFFFFFF"
    by (simp_all add: word_less_nat_alt)
  with assms show ?thesis
    by (auto simp: timer_ticks_to_irq_def Let_def bit_test word_less_nat_alt min_def)
qed

lemma unat_succ_u16: "unat (c + 1 :: u16) = (if c = 0xFFFF then 0 else unat c + 1)"
proof (cases "c = 0xFFFF")
  case True
  then show ?thesis by simp
next
  case False
  then have "unat c \<noteq> 65535" by (auto simp: word_unat_eq_iff)
  then show ?thesis
    using False unat_lt_65536 [of c] by (simp add: unat_word_ariths)
qed

lemma target_dist_one: "unat (timer_target_dist tm) = 1 \<longleftrightarrow> counter tm + 1 = target tm"
  using unat_lt_65536 [of "counter tm"] unat_lt_65536 [of "target tm"]
  by (auto simp: unat_target_dist word_unat_eq_iff [of "counter tm + 1"] unat_succ_u16
      word_unat_eq_iff [of "counter tm"] split: if_splits)

lemma overflow_dist_one: "unat (timer_overflow_dist tm) = 1 \<longleftrightarrow> counter tm = 0xFFFF"
  using unat_lt_65536 [of "counter tm"]
  by (auto simp: unat_overflow_dist word_unat_eq_iff)

lemma fires_next_iff:
  assumes "irq_armed tm"
  shows "fires_next tm \<longleftrightarrow> unat (timer_ticks_to_irq tm) = 1"
proof -
  have "1 \<le> unat (timer_target_dist tm)" and "1 \<le> unat (timer_overflow_dist tm)"
    using unat_lt_65536 [of "counter tm"] unat_lt_65536 [of "target tm"]
    by (auto simp: unat_target_dist unat_overflow_dist)
  then show ?thesis
    using assms target_dist_one [of tm] overflow_dist_one [of tm]
    by (auto simp: fires_next_def unat_ticks_to_irq min_def)
qed

lemma quiet_tick_target_dist:
  assumes "counter tm + 1 \<noteq> target tm"
  shows "unat (timer_target_dist (quiet_tick tm)) = unat (timer_target_dist tm) - 1"
proof -
  have "unat (counter tm + 1) \<noteq> unat (target tm)" using assms by (simp only: word_unat_eq_iff not_False_eq_True)
  then show ?thesis
    using assms unat_lt_65536 [of "counter tm"] unat_lt_65536 [of "target tm"]
    by (auto simp: unat_target_dist quiet_tick_def Let_def unat_succ_u16)
qed

lemma quiet_tick_overflow_dist:
  assumes "counter tm \<noteq> 0xFFFF"
  shows "unat (timer_overflow_dist tm) - 1 \<le> unat (timer_overflow_dist (quiet_tick tm))"
  using assms unat_lt_65536 [of "counter tm"]
  by (auto simp: unat_overflow_dist quiet_tick_def Let_def unat_succ_u16)

lemma quiet_tick_ticks_to_irq:
  assumes "irq_armed tm" and "\<not> fires_next tm"
  shows "unat (timer_ticks_to_irq tm) - 1 \<le> unat (timer_ticks_to_irq (quiet_tick tm))"
proof -
  have armed: "irq_armed (quiet_tick tm)" using assms(1) by simp
  show ?thesis
    using assms quiet_tick_target_dist [of tm] quiet_tick_overflow_dist [of tm]
    by (auto simp: unat_ticks_to_irq [OF assms(1)] unat_ticks_to_irq [OF armed] fires_next_def min_def)
qed

lemma quiet_run:
  assumes "irq_armed (timers s t)" and "n < unat (timer_ticks_to_irq (timers s t))"
  shows "(timer_tick_one t ^^ n) s = upd_timer t (quiet_tick ^^ n) s
    \<and> irq_armed ((quiet_tick ^^ n) (timers s t))
    \<and> unat (timer_ticks_to_irq (timers s t)) - n \<le> unat (timer_ticks_to_irq ((quiet_tick ^^ n) (timers s t)))"
  using assms(2)
proof (induction n)
  case 0
  show ?case using assms(1) by (simp add: upd_timer_def)
next
  case (Suc n)
  let ?tm = "(quiet_tick ^^ n) (timers s t)"
  have run: "(timer_tick_one t ^^ n) s = upd_timer t (quiet_tick ^^ n) s"
    and armed: "irq_armed ?tm"
    and left: "unat (timer_ticks_to_irq (timers s t)) - n \<le> unat (timer_ticks_to_irq ?tm)"
    using Suc by simp_all
  have quiet: "\<not> fires_next ?tm"
    using left Suc.prems by (simp add: fires_next_iff [OF armed])
  then have "\<not> fires_next (timers (upd_timer t (quiet_tick ^^ n) s) t)" by simp
  from tick_quiet [OF this] have "(timer_tick_one t ^^ Suc n) s = upd_timer t (quiet_tick ^^ Suc n) s"
    by (simp add: run o_def)
  moreover have "irq_armed ((quiet_tick ^^ Suc n) (timers s t))" using armed by simp
  moreover have "unat (timer_ticks_to_irq (timers s t)) - Suc n
      \<le> unat (timer_ticks_to_irq ((quiet_tick ^^ Suc n) (timers s t)))"
    using quiet_tick_ticks_to_irq [OF armed quiet] left by simp
  ultimately show ?case by blast
qed

section \<open>Frames: a counter only touches its own entry and its own interrupt line\<close>

lemma upd_timer_frame [simp, frame_simps]:
  "i_stat (upd_timer t f s) = i_stat s"
  "i_mask (upd_timer t f s) = i_mask s"
  "timer_frac (upd_timer t f s) = timer_frac s"
  "g_timer_irq_fired (upd_timer t f s) = g_timer_irq_fired s"
  by (simp_all add: upd_timer_def)

lemma record_timers_frame [simp, frame_simps]:
  "timers (event_ring_record_aux k d a s) = timers s"
  "timer_frac (event_ring_record_aux k d a s) = timer_frac s"
  "g_timer_irq_fired (event_ring_record_aux k d a s) = g_timer_irq_fired s"
  by (simp_all add: event_ring_record_aux_def)

lemma raise_timers_frame [simp, frame_simps]:
  "timers (psx_irq_raise b d s) = timers s"
  "timer_frac (psx_irq_raise b d s) = timer_frac s"
  "g_timer_irq_fired (psx_irq_raise b d s) = g_timer_irq_fired s"
  by (simp_all add: psx_irq_raise_def device_trace_note_def)

lemma drive_line_frame:
  "timer_frac (timer_drive_line t s) = timer_frac s"
  "g_timer_irq_fired (timer_drive_line t s) = g_timer_irq_fired s"
  "t' \<noteq> t \<Longrightarrow> timers (timer_drive_line t s) t' = timers s t'"
  "n \<noteq> timer_irq t \<Longrightarrow> bit (i_stat (timer_drive_line t s)) n = bit (i_stat s) n"
  "bit (i_stat s) n \<Longrightarrow> bit (i_stat (timer_drive_line t s)) n"
  by (simp_all add: timer_drive_line_def Let_def bit_or_iff bit_exp_iff)

lemma disarm_frame:
  "timer_frac (timer_disarm_oneshot t s) = timer_frac s"
  "g_timer_irq_fired (timer_disarm_oneshot t s) = g_timer_irq_fired s"
  "t' \<noteq> t \<Longrightarrow> timers (timer_disarm_oneshot t s) t' = timers s t'"
  "i_stat (timer_disarm_oneshot t s) = i_stat s"
  by (simp_all add: timer_disarm_oneshot_def)

lemma fire_irq_frame:
  "timer_frac (timer_fire_irq t s) = timer_frac s"
  "t' \<noteq> t \<Longrightarrow> timers (timer_fire_irq t s) t' = timers s t'"
  "t' \<noteq> t \<Longrightarrow> g_timer_irq_fired (timer_fire_irq t s) t' = g_timer_irq_fired s t'"
  "n \<noteq> timer_irq t \<Longrightarrow> bit (i_stat (timer_fire_irq t s)) n = bit (i_stat s) n"
  "bit (i_stat s) n \<Longrightarrow> bit (i_stat (timer_fire_irq t s)) n"
  by (simp_all add: timer_fire_irq_def Let_def drive_line_frame disarm_frame)

lemma tick_one_frame:
  "timer_frac (timer_tick_one t s) = timer_frac s"
  "t' \<noteq> t \<Longrightarrow> timers (timer_tick_one t s) t' = timers s t'"
  "t' \<noteq> t \<Longrightarrow> g_timer_irq_fired (timer_tick_one t s) t' = g_timer_irq_fired s t'"
  "n \<noteq> timer_irq t \<Longrightarrow> bit (i_stat (timer_tick_one t s)) n = bit (i_stat s) n"
  by (simp_all add: timer_tick_one_def timer_hit_target_def timer_hit_overflow_def Let_def fire_irq_frame)

lemma ticks_frame:
  "timer_frac ((timer_tick_one t ^^ k) s) = timer_frac s"
  "t' \<noteq> t \<Longrightarrow> timers ((timer_tick_one t ^^ k) s) t' = timers s t'"
  "t' \<noteq> t \<Longrightarrow> g_timer_irq_fired ((timer_tick_one t ^^ k) s) t' = g_timer_irq_fired s t'"
  "n \<noteq> timer_irq t \<Longrightarrow> bit (i_stat ((timer_tick_one t ^^ k) s)) n = bit (i_stat s) n"
  by (induction k) (simp_all add: tick_one_frame)

lemma timer_irq_inj: "t < 3 \<Longrightarrow> t' < 3 \<Longrightarrow> timer_irq t = timer_irq t' \<longleftrightarrow> t = t'"
  by (auto simp: timer_irq_def less_Suc_eq numeral_3_eq_3)

section \<open>One advance as ticks\<close>

definition advance_ticks :: "u32 \<Rightarrow> nat \<Rightarrow> 'a timers_st_scheme \<Rightarrow> nat" where
  "advance_ticks cycles t s =
     (if timer_uses_sysclk t s then unat cycles
      else unat ((timer_frac s t + cycles) div timer_divisor t s))"

definition advance_frac :: "u32 \<Rightarrow> nat \<Rightarrow> 'a timers_st_scheme \<Rightarrow> nat \<Rightarrow> u32" where
  "advance_frac cycles t s =
     (if timer_uses_sysclk t s then timer_frac s
      else (timer_frac s)(t := (timer_frac s t + cycles) mod timer_divisor t s))"

lemma timer_src_cases: "timer_src t s \<in> {0, 1, 2, 3}"
proof -
  have "unat (timer_src t s) < 4"
    by (simp add: timer_src_def unat_and_3)
  then have "unat (timer_src t s) \<in> {0, 1, 2, 3}" by auto
  then show ?thesis by (auto simp: word_unat_eq_iff)
qed

lemma timer_divisor_nonzero: "timer_divisor t s \<noteq> 0"
  by (simp add: timer_divisor_def Let_def)

lemma advance_divided_ticks:
  assumes "d \<noteq> 0"
  shows "timer_advance_divided t c d s =
    (timer_tick_one t ^^ unat ((timer_frac s t + c) div d))
      (s\<lparr> timer_frac := (timer_frac s)(t := (timer_frac s t + c) mod d) \<rparr>)"
  using assms by (simp add: timer_advance_divided_def Let_def timer_advance_counts_ticks)

lemma advance_one_ticks:
  assumes "t < 3"
  shows "timers_advance_one c t s
       = (timer_tick_one t ^^ advance_ticks c t s) (s\<lparr> timer_frac := advance_frac c t s \<rparr>)"
proof -
  have t: "t = 0 \<or> t = 1 \<or> t = 2" using assms by auto
  have two: "t = 2 \<Longrightarrow> timer_uses_sysclk t s \<longleftrightarrow> \<not> (timer_src t s = 2 \<or> timer_src t s = 3)"
    using timer_src_cases [of t s] by (auto simp: timer_uses_sysclk_def Let_def)
  show ?thesis
    using t two
    by (auto simp: timers_advance_one_def advance_ticks_def advance_frac_def timer_divisor_def Let_def
        timer_advance_counts_ticks advance_divided_ticks)
qed

lemma advance_one_frame:
  assumes "t < 3" and "t' \<noteq> t" and "t' < 3"
  shows "timers (timers_advance_one c t s) t' = timers s t'"
    and "timer_frac (timers_advance_one c t s) t' = timer_frac s t'"
    and "g_timer_irq_fired (timers_advance_one c t s) t' = g_timer_irq_fired s t'"
    and "bit (i_stat (timers_advance_one c t s)) (timer_irq t') = bit (i_stat s) (timer_irq t')"
  using assms timer_irq_inj [of t' t]
  by (simp_all add: advance_one_ticks ticks_frame advance_frac_def)

lemma quiet_when_unarmed:
  assumes "\<not> irq_armed (timers s t)"
  shows "(timer_tick_one t ^^ n) s = upd_timer t (quiet_tick ^^ n) s
       \<and> \<not> irq_armed ((quiet_tick ^^ n) (timers s t))"
proof (induction n)
  case 0
  show ?case using assms by (simp add: upd_timer_def)
next
  case (Suc n)
  then have "\<not> fires_next (timers (upd_timer t (quiet_tick ^^ n) s) t)"
    by (simp add: fires_next_def)
  from tick_quiet [OF this] show ?case using Suc by (simp add: o_def)
qed

lemma no_irq_below_distance:
  assumes "irq_armed (timers s t) \<Longrightarrow> n < unat (timer_ticks_to_irq (timers s t))"
  shows "(timer_tick_one t ^^ n) s = upd_timer t (quiet_tick ^^ n) s"
  using assms quiet_run [of s t n] quiet_when_unarmed [of s t n] by blast

section \<open>The interrupt budget\<close>

lemma cycles_to_irq_one_le: "timers_cycles_to_irq_one m t s b \<le> b"
  by (auto simp: timers_cycles_to_irq_one_def Let_def)

lemma divisor_le: "unat (timer_divisor t s) \<le> 2146"
  by (simp add: timer_divisor_def Let_def)

lemma cycles_to_irq_one_budget:
  assumes c: "c < timers_cycles_to_irq_one m t s b"
    and m: "bit m (timer_irq t)" and armed: "irq_armed (timers s t)"
  shows "unat (timer_frac s t) + unat c
       < unat (timer_ticks_to_irq (timers s t)) * unat (timer_divisor t s)"
proof -
  let ?k = "unat (timer_ticks_to_irq (timers s t))" and ?d = "unat (timer_divisor t s)"
  let ?f = "unat (timer_frac s t)"
  let ?cyc0 = "(ucast (timer_ticks_to_irq (timers s t)) :: u64) * ucast (timer_divisor t s)"
  let ?cyc1 = "if ?cyc0 > ucast (timer_frac s t) then ?cyc0 - ucast (timer_frac s t) else 0"
  let ?cyc2 = "if ?cyc1 > 0xFFFFFFFF then 0xFFFFFFFF else ?cyc1"
  have k: "?k \<le> 65536"
    using armed unat_lt_65536 [of "target (timers s t)"]
    by (auto simp: unat_ticks_to_irq unat_target_dist unat_overflow_dist min_def split: if_splits)
  then have ne: "timer_ticks_to_irq (timers s t) \<noteq> 0xFFFFFFFF" by auto
  have "?k * ?d \<le> 65536 * 2146" using k divisor_le by (rule mult_le_mono)
  then have cyc0: "unat ?cyc0 = ?k * ?d"
    by (simp add: unat_word_ariths unat_ucast_up)
  have cyc1: "unat ?cyc1 = ?k * ?d - ?f"
    using cyc0 by (auto simp: word_less_nat_alt unat_ucast_up unat_sub_le word_le_nat_alt)
  have eq: "timers_cycles_to_irq_one m t s b = (if (ucast ?cyc2 :: u32) < b then ucast ?cyc2 else b)"
    using m armed ne by (auto simp: timers_cycles_to_irq_one_def Let_def bit_test)
  have least: "\<And>z. c < (if z < b then z else b) \<Longrightarrow> c < z" by (auto split: if_splits)
  have "c < ucast ?cyc2" by (rule least) (rule c [unfolded eq])
  then have "unat c < unat ?cyc2" by (rule unat_less_of_less_ucast)
  also have "unat ?cyc2 \<le> unat ?cyc1"
    by (simp add: word_less_nat_alt)
  finally show ?thesis using cyc1 by simp
qed

lemma advance_ticks_below:
  assumes "unat (timer_frac s t) + unat c < k * unat (timer_divisor t s)"
    and "timer_uses_sysclk t s \<Longrightarrow> timer_divisor t s = 1"
  shows "advance_ticks c t s < k"
proof (cases "timer_uses_sysclk t s")
  case True
  then show ?thesis using assms by (simp add: advance_ticks_def)
next
  case False
  have "unat (timer_frac s t + c) \<le> unat (timer_frac s t) + unat c"
    by (simp add: unat_word_ariths)
  then have "unat (timer_frac s t + c) < k * unat (timer_divisor t s)"
    using assms(1) by simp
  then have "unat (timer_frac s t + c) div unat (timer_divisor t s) < k"
    by (simp add: less_mult_imp_div_less)
  moreover have "unat ((timer_frac s t + c) div timer_divisor t s)
      \<le> unat (timer_frac s t + c) div unat (timer_divisor t s)"
    by (simp add: unat_div)
  ultimately show ?thesis using False by (simp add: advance_ticks_def)
qed

lemma cycles_to_irq_budget:
  assumes "c < timers_cycles_to_irq m s" and "t < 3" and "bit m (timer_irq t)" and "irq_armed (timers s t)"
  shows "unat (timer_frac s t) + unat c
       < unat (timer_ticks_to_irq (timers s t)) * unat (timer_divisor t s)"
proof -
  let ?b0 = "timers_cycles_to_irq_one m 0 s 0xFFFFFFFF"
  let ?b1 = "timers_cycles_to_irq_one m 1 s ?b0"
  have whole: "timers_cycles_to_irq m s = timers_cycles_to_irq_one m 2 s ?b1"
    by (simp add: timers_cycles_to_irq_def numeral_3_eq_3 numeral_2_eq_2)
  then have c2: "c < timers_cycles_to_irq_one m 2 s ?b1" using assms(1) by simp
  then have c1: "c < ?b1" using cycles_to_irq_one_le less_le_trans by blast
  then have c0: "c < ?b0" using cycles_to_irq_one_le less_le_trans by blast
  have "t = 0 \<or> t = 1 \<or> t = 2" using assms(2) by auto
  then show ?thesis
    using cycles_to_irq_one_budget [OF c0] cycles_to_irq_one_budget [OF c1]
      cycles_to_irq_one_budget [OF c2] assms(3,4) by auto
qed

lemma sysclk_divisor:
  assumes "t < 3" and "timer_uses_sysclk t s"
  shows "timer_divisor t s = 1"
proof -
  have "t = 0 \<or> t = 1 \<or> t = 2" using assms(1) by auto
  then show ?thesis
    using assms(2) by (auto simp: timer_divisor_def timer_uses_sysclk_def Let_def)
qed

text \<open>Within the budget, an advance of counter \<open>t\<close> is silent.\<close>

lemma advance_one_silent:
  assumes t: "t < 3"
    and budget: "irq_armed (timers s t) \<Longrightarrow>
      unat (timer_frac s t) + unat c < unat (timer_ticks_to_irq (timers s t)) * unat (timer_divisor t s)"
  shows "g_timer_irq_fired (timers_advance_one c t s) = g_timer_irq_fired s"
    and "i_stat (timers_advance_one c t s) = i_stat s"
proof -
  let ?s = "s\<lparr> timer_frac := advance_frac c t s \<rparr>"
  have "(timer_tick_one t ^^ advance_ticks c t s) ?s = upd_timer t (quiet_tick ^^ advance_ticks c t s) ?s"
    using budget advance_ticks_below [OF _ sysclk_divisor [OF t]]
    by (intro no_irq_below_distance) simp
  then have "timers_advance_one c t s = upd_timer t (quiet_tick ^^ advance_ticks c t s) ?s"
    using t by (simp add: advance_one_ticks)
  then show "g_timer_irq_fired (timers_advance_one c t s) = g_timer_irq_fired s"
    and "i_stat (timers_advance_one c t s) = i_stat s"
    by simp_all
qed

section \<open>Exactness of the distance\<close>

lemma quiet_tick_exact:
  assumes "bit (mode tm) 4" and "\<not> fires_next tm"
  shows "unat (timer_ticks_to_irq (quiet_tick tm)) = unat (timer_ticks_to_irq tm) - 1"
proof -
  have armed: "irq_armed tm" and armed': "irq_armed (quiet_tick tm)" using assms(1) by simp_all
  have nohit: "counter tm + 1 \<noteq> target tm" using assms by (simp add: fires_next_def)
  then have cnt: "counter (quiet_tick tm) = counter tm + 1" by (simp add: quiet_tick_def Let_def)
  have "bit (mode tm) 5 \<Longrightarrow>
      unat (timer_overflow_dist (quiet_tick tm)) = unat (timer_overflow_dist tm) - 1"
    using assms(2) by (simp add: fires_next_def unat_overflow_dist cnt unat_succ_u16)
  then show ?thesis
    using assms(1) quiet_tick_target_dist [OF nohit]
    by (auto simp: unat_ticks_to_irq [OF armed] unat_ticks_to_irq [OF armed'] min_def)
qed

lemma quiet_run_exact:
  assumes "bit (mode tm) 4" and "n < unat (timer_ticks_to_irq tm)"
  shows "unat (timer_ticks_to_irq ((quiet_tick ^^ n) tm)) = unat (timer_ticks_to_irq tm) - n
       \<and> bit (mode ((quiet_tick ^^ n) tm)) 4 \<and> bit (mode ((quiet_tick ^^ n) tm)) 7 = bit (mode tm) 7"
  using assms(2)
proof (induction n)
  case 0
  show ?case using assms(1) by simp
next
  case (Suc n)
  let ?tm = "(quiet_tick ^^ n) tm"
  have IH: "unat (timer_ticks_to_irq ?tm) = unat (timer_ticks_to_irq tm) - n" "bit (mode ?tm) 4"
    "bit (mode ?tm) 7 = bit (mode tm) 7"
    using Suc by simp_all
  then have "\<not> fires_next ?tm" using Suc.prems by (auto simp: fires_next_iff)
  then show ?case using IH quiet_tick_exact [of ?tm] by simp
qed

lemma fire_pulse_raises:
  "\<not> bit (mode (timers s t)) 7 \<Longrightarrow> t < 3 \<Longrightarrow> bit (i_stat (timer_fire_irq t s)) (timer_irq t)"
  by (auto simp: timer_fire_irq_def timer_drive_line_def disarm_frame Let_def bit_test bit_simps timer_irq_def
      numeral_3_eq_3 less_Suc_eq)

lemma hit_overflow_keeps_raised: "bit (i_stat s) n \<Longrightarrow> bit (i_stat (timer_hit_overflow t s)) n"
  by (simp add: timer_hit_overflow_def Let_def fire_irq_frame)

lemma tick_raises:
  assumes "fires_next (timers s t)" and "\<not> bit (mode (timers s t)) 7" and "t < 3"
  shows "bit (i_stat (timer_tick_one t s)) (timer_irq t)"
proof -
  let ?tm = "timers s t"
  let ?s1 = "upd_timer t (\<lambda>tm. tm\<lparr> counter := counter tm + 1 \<rparr>) s"
  show ?thesis
  proof (cases "bit (mode ?tm) 4 \<and> counter ?tm + 1 = target ?tm")
    case True
    then have "bit (i_stat (timer_hit_target t ?s1)) (timer_irq t)"
      using assms(2,3) by (simp add: timer_hit_target_def Let_def bit_test bit_or_iff fire_pulse_raises)
    moreover have "timer_tick_one t s = (if counter ?tm = 0xFFFF then timer_hit_overflow t (timer_hit_target t ?s1)
        else timer_hit_target t ?s1)"
      using True by (cases "counter ?tm = 0xFFFF") (simp_all add: timer_tick_one_def Let_def)
    ultimately show ?thesis
      by (simp add: hit_overflow_keeps_raised)
  next
    case False
    then have ovf: "bit (mode ?tm) 5" "counter ?tm = 0xFFFF"
      using assms(1) by (auto simp: fires_next_def)
    let ?s2 = "if counter ?tm + 1 = target ?tm then timer_hit_target t ?s1 else ?s1"
    have "bit (mode (timers ?s2 t)) 5 \<and> \<not> bit (mode (timers ?s2 t)) 7"
      using False ovf assms(2) by (auto simp: hit_target_quiet bit_or_iff)
    then have "bit (i_stat (timer_hit_overflow t ?s2)) (timer_irq t)"
      using assms(3) by (simp add: timer_hit_overflow_def Let_def bit_test bit_or_iff fire_pulse_raises)
    then show ?thesis using ovf by (simp add: timer_tick_one_def Let_def)
  qed
qed

section \<open>Batching\<close>

lemma source_bits_eq:
  assumes "bit w 8 = bit v 8" and "bit w 9 = bit v 9"
  shows "drop_bit 8 w AND 3 = drop_bit 8 v AND (3 :: u32)"
proof (rule bit_eqI)
  fix n
  have "bit (3 :: u32) n \<longleftrightarrow> n = 0 \<or> n = 1"
    by (auto simp: bit_numeral_rec(2) bit_1_iff split: nat.splits)
  then show "bit (drop_bit 8 w AND 3) n = bit (drop_bit 8 v AND 3) n"
    using assms by (auto simp: bit_and_iff bit_drop_bit_eq)
qed

lemma fire_irq_source_bits:
  "bit (mode (timers (timer_fire_irq t s) t')) 8 = bit (mode (timers s t')) 8"
  "bit (mode (timers (timer_fire_irq t s) t')) 9 = bit (mode (timers s t')) 9"
  by (simp_all add: timer_fire_irq_def timer_drive_line_def timer_disarm_oneshot_def Let_def bit_simps)

lemma tick_one_source_bits:
  "bit (mode (timers (timer_tick_one t s) t')) 8 = bit (mode (timers s t')) 8"
  "bit (mode (timers (timer_tick_one t s) t')) 9 = bit (mode (timers s t')) 9"
  by (simp_all add: timer_tick_one_def timer_hit_target_def timer_hit_overflow_def Let_def
      fire_irq_source_bits bit_simps)

lemma ticks_src: "timer_src t' ((timer_tick_one t ^^ n) s) = timer_src t' s"
  unfolding timer_src_def
  by (rule funpow_observation, rule source_bits_eq) (simp_all add: tick_one_source_bits)

lemma ticks_clock:
  "timer_uses_sysclk t' ((timer_tick_one t ^^ n) s) = timer_uses_sysclk t' s"
  "timer_divisor t' ((timer_tick_one t ^^ n) s) = timer_divisor t' s"
  by (simp_all add: timer_uses_sysclk_def timer_divisor_def ticks_src)

lemma frac_clock [simp]:
  "timer_uses_sysclk t (s\<lparr> timer_frac := F \<rparr>) = timer_uses_sysclk t s"
  "timer_divisor t (s\<lparr> timer_frac := F \<rparr>) = timer_divisor t s"
  by (simp_all add: timer_uses_sysclk_def timer_divisor_def timer_src_def)

lemma record_frac: "event_ring_record_aux k d a (s\<lparr> timer_frac := F \<rparr>) = (event_ring_record_aux k d a s)\<lparr> timer_frac := F \<rparr>"
  by (simp add: event_ring_record_aux_def mk_event_entry_def current_mode_def)

lemma raise_frac: "psx_irq_raise b d (s\<lparr> timer_frac := F \<rparr>) = (psx_irq_raise b d s)\<lparr> timer_frac := F \<rparr>"
  by (simp add: psx_irq_raise_def device_trace_note_def mk_dev_event_def)

lemma upd_timer_frac: "upd_timer t f (s\<lparr> timer_frac := F \<rparr>) = (upd_timer t f s)\<lparr> timer_frac := F \<rparr>"
  by (simp add: upd_timer_def)

lemma drive_line_frac: "timer_drive_line t (s\<lparr> timer_frac := F \<rparr>) = (timer_drive_line t s)\<lparr> timer_frac := F \<rparr>"
  by (simp add: timer_drive_line_def Let_def upd_timer_frac raise_frac)

lemma disarm_frac: "timer_disarm_oneshot t (s\<lparr> timer_frac := F \<rparr>) = (timer_disarm_oneshot t s)\<lparr> timer_frac := F \<rparr>"
  by (simp add: timer_disarm_oneshot_def upd_timer_frac)

lemma fire_irq_frac: "timer_fire_irq t (s\<lparr> timer_frac := F \<rparr>) = (timer_fire_irq t s)\<lparr> timer_frac := F \<rparr>"
proof -
  have "timer_drive_line t (s\<lparr> timer_frac := F, g_timer_irq_fired := G \<rparr>)
      = (timer_drive_line t (s\<lparr> g_timer_irq_fired := G \<rparr>))\<lparr> timer_frac := F \<rparr>" for G
  proof -
    have "s\<lparr> timer_frac := F, g_timer_irq_fired := G \<rparr> = s\<lparr> g_timer_irq_fired := G, timer_frac := F \<rparr>"
      by simp
    then show ?thesis by (simp only: drive_line_frac)
  qed
  then show ?thesis
    by (simp add: timer_fire_irq_def Let_def disarm_frac record_frac)
qed

lemma hit_target_frac: "timer_hit_target t (s\<lparr> timer_frac := F \<rparr>) = (timer_hit_target t s)\<lparr> timer_frac := F \<rparr>"
  by (simp add: timer_hit_target_def Let_def upd_timer_frac fire_irq_frac)

lemma hit_overflow_frac: "timer_hit_overflow t (s\<lparr> timer_frac := F \<rparr>) = (timer_hit_overflow t s)\<lparr> timer_frac := F \<rparr>"
  by (simp add: timer_hit_overflow_def Let_def upd_timer_frac fire_irq_frac)

lemma tick_one_frac: "timer_tick_one t (s\<lparr> timer_frac := F \<rparr>) = (timer_tick_one t s)\<lparr> timer_frac := F \<rparr>"
  by (simp add: timer_tick_one_def Let_def upd_timer_frac hit_target_frac hit_overflow_frac)

lemma ticks_frac: "(timer_tick_one t ^^ n) (s\<lparr> timer_frac := F \<rparr>) = ((timer_tick_one t ^^ n) s)\<lparr> timer_frac := F \<rparr>"
  by (induction n) (simp_all add: tick_one_frac)

lemma div_mod_batch:
  assumes "0 < (d :: nat)"
  shows "(x + b) div d = x div d + (x mod d + b) div d" and "(x + b) mod d = (x mod d + b) mod d"
proof -
  have e: "x + b = (x mod d + b) + x div d * d"
    using div_mult_mod_eq [of x d] by linarith
  show "(x + b) div d = x div d + (x mod d + b) div d"
    using assms by (subst e) (simp only: div_mult_self1 neq0_conv)
  show "(x + b) mod d = (x mod d + b) mod d"
    by (subst e) (simp only: mod_mult_self1)
qed

lemma divided_batch:
  fixes f a b d :: u32
  assumes "unat f + unat a + unat b < 2 ^ 32" and "d \<noteq> 0"
  shows "unat ((f + (a + b)) div d) = unat ((f + a) div d) + unat (((f + a) mod d + b) div d)"
    and "(f + (a + b)) mod d = ((f + a) mod d + b) mod d"
proof -
  have d: "0 < unat d" using assms(2) by (simp add: unat_gt_0)
  have lt: "unat f + unat a + unat b < 4294967296" using assms(1) by simp
  have fa: "unat (f + a) = unat f + unat a" using assms(1) by (simp add: unat_word_ariths)
  have fab: "unat (f + (a + b)) = unat f + unat a + unat b"
    using assms(1) by (simp add: unat_word_ariths mod_simps)
  have m: "unat ((f + a) mod d + b) = (unat f + unat a) mod unat d + unat b"
  proof -
    have "(unat f + unat a) mod unat d + unat b < 4294967296"
      using lt mod_less_eq_dividend [of "unat f + unat a" "unat d"] by linarith
    moreover have "unat ((f + a) mod d + b) = (unat ((f + a) mod d) + unat b) mod 2 ^ 32"
      by (simp add: unat_word_ariths(1) [of "(f + a) mod d"])
    ultimately show ?thesis by (simp add: unat_mod fa)
  qed
  show "unat ((f + (a + b)) div d) = unat ((f + a) div d) + unat (((f + a) mod d + b) div d)"
    by (simp only: unat_div fab fa m div_mod_batch(1) [OF d, of "unat f + unat a" "unat b"])
  show "(f + (a + b)) mod d = ((f + a) mod d + b) mod d"
    by (simp only: word_unat_eq_iff unat_mod fab m div_mod_batch(2) [OF d, of "unat f + unat a" "unat b"])
qed

lemma advance_one_batch:
  assumes "t < 3" and "unat (timer_frac s t) + unat a + unat b < 2 ^ 32"
  shows "timers_advance_one b t (timers_advance_one a t s) = timers_advance_one (a + b) t s"
proof -
  let ?na = "advance_ticks a t s" and ?nab = "advance_ticks (a + b) t s"
  let ?s1 = "timers_advance_one a t s"
  have s1: "?s1 = ((timer_tick_one t ^^ ?na) s)\<lparr> timer_frac := advance_frac a t s \<rparr>"
    using assms(1) by (simp add: advance_one_ticks ticks_frac)
  have clock: "timer_uses_sysclk t ?s1 = timer_uses_sysclk t s" "timer_divisor t ?s1 = timer_divisor t s"
    "timer_frac ?s1 = advance_frac a t s"
    by (simp_all add: s1 ticks_clock)
  note batch = divided_batch [OF assms(2) timer_divisor_nonzero [of t s]]
  have "unat (a + b) = unat a + unat b" using assms(2) by (simp add: unat_word_ariths)
  then have n: "?nab = ?na + advance_ticks b t ?s1"
    by (cases "timer_uses_sysclk t s") (simp_all add: advance_ticks_def advance_frac_def clock batch(1))
  have F: "advance_frac b t ?s1 = advance_frac (a + b) t s"
    by (cases "timer_uses_sysclk t s") (simp_all add: advance_frac_def clock batch(2))
  have "timers_advance_one b t ?s1
      = (timer_tick_one t ^^ advance_ticks b t ?s1) (?s1\<lparr> timer_frac := advance_frac b t ?s1 \<rparr>)"
    using assms(1) by (rule advance_one_ticks)
  also have "\<dots> = ((timer_tick_one t ^^ ?nab) s)\<lparr> timer_frac := advance_frac (a + b) t s \<rparr>"
    unfolding F n by (simp add: s1 ticks_frac funpow_add_apply)
  finally show ?thesis
    using assms(1) by (simp add: advance_one_ticks ticks_frac)
qed

lemma advance_others_frame:
  assumes "t < 3" and "\<forall>t' \<in> set ts. t' < 3 \<and> t' \<noteq> t"
  shows "timers (fold (timers_advance_one c) ts s) t = timers s t
      \<and> timer_frac (fold (timers_advance_one c) ts s) t = timer_frac s t
      \<and> g_timer_irq_fired (fold (timers_advance_one c) ts s) t = g_timer_irq_fired s t
      \<and> bit (i_stat (fold (timers_advance_one c) ts s)) (timer_irq t) = bit (i_stat s) (timer_irq t)"
  using assms(2)
proof (induction ts arbitrary: s)
  case Nil
  show ?case by simp
next
  case (Cons u ts)
  then have "u < 3" and "t \<noteq> u" by auto
  with Cons assms(1) show ?case by (simp add: advance_one_frame)
qed

lemma clock_of_timer:
  "timers s t = timers s' t \<Longrightarrow> timer_divisor t s = timer_divisor t s'"
  by (simp only: timer_divisor_def timer_uses_sysclk_def timer_src_def)

lemma timers_advance_silent:
  assumes t: "t < 3"
    and budget: "irq_armed (timers s t) \<Longrightarrow>
      unat (timer_frac s t) + unat c < unat (timer_ticks_to_irq (timers s t)) * unat (timer_divisor t s)"
  shows "g_timer_irq_fired (timers_advance c s) t = g_timer_irq_fired s t
       \<and> bit (i_stat (timers_advance c s)) (timer_irq t) = bit (i_stat s) (timer_irq t)"
proof -
  let ?before = "fold (timers_advance_one c) [0 ..< t] s"
  let ?mid = "timers_advance_one c t ?before"
  have order: "[0 ..< 3] = [0 ..< t] @ t # [Suc t ..< 3]"
    using t by (metis upt_add_eq_append upt_conv_Cons le_add_diff_inverse less_imp_le zero_le)
  have before: "timers ?before t = timers s t \<and> timer_frac ?before t = timer_frac s t
      \<and> g_timer_irq_fired ?before t = g_timer_irq_fired s t
      \<and> bit (i_stat ?before) (timer_irq t) = bit (i_stat s) (timer_irq t)"
    using t by (intro advance_others_frame) auto
  have "irq_armed (timers ?before t) \<Longrightarrow> unat (timer_frac ?before t) + unat c
      < unat (timer_ticks_to_irq (timers ?before t)) * unat (timer_divisor t ?before)"
    using budget before clock_of_timer [of ?before t s] by simp
  from advance_one_silent [OF t this] have "g_timer_irq_fired ?mid = g_timer_irq_fired ?before"
    and "i_stat ?mid = i_stat ?before" by blast+
  moreover have "g_timer_irq_fired (fold (timers_advance_one c) [Suc t ..< 3] ?mid) t = g_timer_irq_fired ?mid t
      \<and> bit (i_stat (fold (timers_advance_one c) [Suc t ..< 3] ?mid)) (timer_irq t) = bit (i_stat ?mid) (timer_irq t)"
    using t advance_others_frame [of t "[Suc t ..< 3]" c ?mid] by simp
  ultimately show ?thesis
    using before by (simp add: timers_advance_def order)
qed

section \<open>Properties\<close>

text \<open>C25. The bulk routine of the block-cycle builds and the one-count step of the oracle
  builds are the same machine: for every number of counts, the whole state (counter, flags,
  interrupt lines, fire counters, event ring and device trace) is the same.\<close>

theorem bulk_advance_is_iterated_tick:
  "timer_advance_counts t ticks s = (timer_tick_one t ^^ unat ticks) s"
  by (rule timer_advance_counts_ticks)

text \<open>The budget is safe: an advance shorter than \<open>timers_cycles_to_irq\<close> fires no
  interrupt of a counter whose line is unmasked, so native code that runs within the budget
  cannot run past a timer interrupt.\<close>

lemma cycles_to_irq_is_safe:
  assumes "cycles < timers_cycles_to_irq msk s" and "t < 3" and "bit msk (timer_irq t)"
  shows "g_timer_irq_fired (timers_advance cycles s) t = g_timer_irq_fired s t
       \<and> bit (i_stat (timers_advance cycles s)) (timer_irq t) = bit (i_stat s) (timer_irq t)"
  using assms by (intro timers_advance_silent cycles_to_irq_budget)

definition armed_timer_example :: timers_st where
  "armed_timer_example =
     sys_boot (timers_st.fields (\<lambda>_. \<lparr> counter = 0, mode = 0x58, target = 100, irq_line = 0 \<rparr>) (\<lambda>_. 0) (\<lambda>_. 0))"

lemma armed_timer_example_simps [simp]:
  "timers armed_timer_example t = \<lparr> counter = 0, mode = 0x58, target = 100, irq_line = 0 \<rparr>"
  "timer_frac armed_timer_example t = 0"
  "g_timer_irq_fired armed_timer_example t = 0"
  by (simp_all add: armed_timer_example_def sys_boot_def timers_st.defs)

lemma cycles_to_irq_is_safe_example:
  "timers_cycles_to_irq 16 armed_timer_example = 100
   \<and> g_timer_irq_fired (timers_advance 99 armed_timer_example) 0 = 0"
proof -
  have budget: "timers_cycles_to_irq 16 armed_timer_example = 100"
    by (simp add: timers_cycles_to_irq_def timers_cycles_to_irq_one_def timer_irq_def timer_ticks_to_irq_def
        timer_target_dist_def timer_overflow_dist_def timer_divisor_def timer_uses_sysclk_def timer_src_def
        Let_def numeral_3_eq_3)
  have "g_timer_irq_fired (timers_advance 99 armed_timer_example) 0 = g_timer_irq_fired armed_timer_example 0"
    using cycles_to_irq_is_safe [of 99 16 armed_timer_example 0]
    by (simp add: budget timer_irq_def)
  then show ?thesis
    by (simp add: budget)
qed

text \<open>The distance is exact: a counter with its target interrupt armed, in pulse mode, has
  its interrupt line raised after precisely \<open>timer_ticks_to_irq\<close> counts.\<close>

lemma ticks_to_irq_is_exact:
  assumes "bit (mode (timers s t)) 4" and "\<not> bit (mode (timers s t)) 7" and "t < 3"
  shows "bit (i_stat (timer_advance_counts t (timer_ticks_to_irq (timers s t)) s)) (timer_irq t)"
proof -
  let ?tm = "timers s t" and ?k = "unat (timer_ticks_to_irq (timers s t))"
  have armed: "irq_armed ?tm" using assms(1) by simp
  have k: "0 < ?k"
    using unat_lt_65536 [of "counter ?tm"] by (auto simp: unat_ticks_to_irq [OF armed] unat_target_dist unat_overflow_dist)
  then have lt: "?k - 1 < ?k" by simp
  have tm: "unat (timer_ticks_to_irq ((quiet_tick ^^ (?k - 1)) ?tm)) = 1"
    "bit (mode ((quiet_tick ^^ (?k - 1)) ?tm)) 4" "\<not> bit (mode ((quiet_tick ^^ (?k - 1)) ?tm)) 7"
    using quiet_run_exact [OF assms(1) lt] k assms(2) by simp_all
  have "bit (i_stat (timer_tick_one t (upd_timer t (quiet_tick ^^ (?k - 1)) s))) (timer_irq t)"
    using tm assms(3) by (intro tick_raises) (simp_all add: fires_next_iff)
  moreover have "(timer_tick_one t ^^ ?k) s = timer_tick_one t ((timer_tick_one t ^^ (?k - 1)) s)"
    using k by (metis Suc_diff_1 comp_apply funpow.simps(2))
  ultimately show ?thesis
    using quiet_run [OF armed lt] by (simp add: timer_advance_counts_ticks)
qed

lemma ticks_to_irq_is_exact_example:
  "bit (i_stat (timer_advance_counts 0 (timer_ticks_to_irq (timers armed_timer_example 0)) armed_timer_example)) 4"
  using ticks_to_irq_is_exact [of armed_timer_example 0]
  by (simp add: timer_irq_def bit_numeral_rec)

text \<open>Batching is invisible to a counter: advancing it by \<open>a\<close> and then by \<open>b\<close> cycles is
  advancing it by \<open>a + b\<close>, dividers and fractions included, as long as the fraction
  accumulator does not wrap.\<close>

lemma advance_batches:
  assumes "t < 3" and "unat (timer_frac s t) + unat a + unat b < 2 ^ 32"
  shows "timers_advance_one b t (timers_advance_one a t s) = timers_advance_one (a + b) t s"
  using assms by (rule advance_one_batch)

lemma advance_batches_example:
  "timers_advance_one 7 1 (timers_advance_one 2145 1 armed_timer_example)
     = timers_advance_one 2152 1 armed_timer_example"
  using advance_batches [of 1 armed_timer_example 2145 7]
  by simp

end
