(* ===== verification/Psx_Memory.thy ===== *)
theory Psx_Memory
  imports Timers
begin

text \<open>
  The memory system (runtime/src/memory.c): address folding, main RAM, scratchpad and BIOS ROM,
  the raw load and store routines every CPU and DMA access goes through, and the write-side
  bookkeeping that decides whether statically recompiled code may still run: the dirty-page
  bitmap, the kernel-image bless table, the text-image guard and the overlay page generations.

  The state extends the timers with the file's statics. Host arrays are functions from indices.
  \<open>psx_bios_kernel_bodies\<close> is emitted by the recompiler, so it is a field any table can fill;
  the environment switches are boolean fields. Device registers (\<open>mmio_read*\<close>, \<open>mmio_write*\<close>) are
  arguments of the accessors, collected in the record \<open>mmio_ops\<close>. The debug-server, parity and
  card-capture hooks, the lockstep recorder and the overlay loader's active-entry check only
  observe a store and are left out.
\<close>

record kernel_body =
  kb_key :: u32
  kb_lo :: u32
  kb_hi :: u32

record d44_entry =
  d44_seq :: u64
  d44_val :: u32
  d44_old :: u32
  d44_store_pc :: u32
  d44_dma_depth :: int
  d44_dma_ch :: int
  d44_dma_madr :: u32
  d44_dma_bcr :: u32
  d44_frame :: u32

record mem_st = timers_st +
  ram :: "nat \<Rightarrow> u8"
  scratchpad :: "nat \<Rightarrow> u8"
  bios_rom :: "nat \<Rightarrow> u8"
  cache_ctrl :: u32
  sr_ref :: "u32 option"
  fntrace_game_started :: bool
  g_guest_store_count :: u64
  g_kseg2_ignored_reads :: u64
  g_kseg2_ignored_writes :: u64
  dirty_ram_bitmap :: "nat \<Rightarrow> u32"
  g_dirty_ram_code_gen :: u32
  psx_bios_kernel_bodies :: "kernel_body list"
  kbless_state :: "nat \<Rightarrow> u8"
  kbless_enabled :: int
  kbless_native_hits :: u64
  kbless_verifies :: u64
  kbless_mismatches :: u64
  kbless_invalidations :: u64
  env_kernel_bless_zero :: bool
  env_force_interp :: bool
  env_shellwin_interp :: bool
  text_ref_image :: "(nat \<Rightarrow> u8) option"
  text_ref_lo :: u32
  text_ref_hi :: u32
  text_modified_bitmap :: "nat \<Rightarrow> u32"
  text_diverged_bitmap :: "nat \<Rightarrow> u32"
  g_text_native_blocked :: u64
  g_text_diverged_pages :: u32
  text_image_active :: bool
  g_overlay_region_floor :: u32
  overlay_watch_bitmap :: "nat \<Rightarrow> u32"
  overlay_page_gen :: "nat \<Rightarrow> u32"
  g_d44_ring :: "nat \<Rightarrow> d44_entry"
  g_d44_seq :: u64
  g_dma_exec_depth :: int
  g_dma_cur_ch :: int
  g_dma_cur_madr :: u32
  g_dma_cur_bcr :: u32
  g_dma_initiator_pc :: u32

abbreviation (input) RAM_SIZE :: u32 where "RAM_SIZE \<equiv> 0x200000"
abbreviation (input) DIRTY_RAM_KERNEL_TRACK_BYTES :: u32 where "DIRTY_RAM_KERNEL_TRACK_BYTES \<equiv> 0x10000"
abbreviation (input) DIRTY_RAM_PAGE_COUNT :: u32 where "DIRTY_RAM_PAGE_COUNT \<equiv> 512"
abbreviation (input) KBLESS_RAM_LO :: u32 where "KBLESS_RAM_LO \<equiv> 0x500"
abbreviation (input) KBLESS_RAM_HI :: u32 where "KBLESS_RAM_HI \<equiv> 0x8500"
abbreviation (input) KBLESS_ROM_OFF :: u32 where "KBLESS_ROM_OFF \<equiv> 0x10000"
abbreviation (input) KBLESS_UNKNOWN :: u8 where "KBLESS_UNKNOWN \<equiv> 0"
abbreviation (input) KBLESS_CLEAN :: u8 where "KBLESS_CLEAN \<equiv> 1"
abbreviation (input) KBLESS_MISMATCH :: u8 where "KBLESS_MISMATCH \<equiv> 2"
abbreviation (input) KBLESS_MAX_ENTRIES :: nat where "KBLESS_MAX_ENTRIES \<equiv> 4096"

section \<open>Addresses and bytes\<close>

definition psx_main_ram_mirror_phys :: "u32 \<Rightarrow> u32" where
  "psx_main_ram_mirror_phys addr =
     (let phys = addr AND 0x1FFFFFFF in if phys < 0x800000 then phys AND 0x1FFFFF else phys)"

definition psx_phys_addr :: "u32 \<Rightarrow> u32" where
  "psx_phys_addr addr = psx_main_ram_mirror_phys addr"

definition word_at :: "(nat \<Rightarrow> u8) \<Rightarrow> nat \<Rightarrow> u32" where
  "word_at m a = ucast (m a) OR push_bit 8 (ucast (m (a + 1))) OR push_bit 16 (ucast (m (a + 2)))
     OR push_bit 24 (ucast (m (a + 3)))"

definition half_at :: "(nat \<Rightarrow> u8) \<Rightarrow> nat \<Rightarrow> u16" where
  "half_at m a = ucast (m a) OR push_bit 8 (ucast (m (a + 1)))"

definition put_word :: "(nat \<Rightarrow> u8) \<Rightarrow> nat \<Rightarrow> u32 \<Rightarrow> nat \<Rightarrow> u8" where
  "put_word m a v = m(a := ucast v, a + 1 := ucast (drop_bit 8 v), a + 2 := ucast (drop_bit 16 v),
                      a + 3 := ucast (drop_bit 24 v))"

definition put_half :: "(nat \<Rightarrow> u8) \<Rightarrow> nat \<Rightarrow> u16 \<Rightarrow> nat \<Rightarrow> u8" where
  "put_half m a v = m(a := ucast v, a + 1 := ucast (drop_bit 8 v))"

definition read_ram_word :: "u32 \<Rightarrow> 'a mem_st_scheme \<Rightarrow> u32" where
  "read_ram_word phys s = word_at (ram s) (unat phys)"

definition read_ram_half :: "u32 \<Rightarrow> 'a mem_st_scheme \<Rightarrow> u16" where
  "read_ram_half phys s = half_at (ram s) (unat phys)"

section \<open>Page bitmaps\<close>

text \<open>All bitmaps of the file hold one bit per 4 KiB page, 32 pages to a word.\<close>

definition page_of :: "u32 \<Rightarrow> nat" where
  "page_of phys = unat (drop_bit 12 phys)"

definition page_bit :: "(nat \<Rightarrow> u32) \<Rightarrow> nat \<Rightarrow> bool" where
  "page_bit bm page \<longleftrightarrow> bm (page div 32) AND push_bit (page mod 32) 1 \<noteq> 0"

definition page_set :: "nat \<Rightarrow> (nat \<Rightarrow> u32) \<Rightarrow> nat \<Rightarrow> u32" where
  "page_set page bm = bm(page div 32 := bm (page div 32) OR push_bit (page mod 32) 1)"

definition page_clear :: "nat \<Rightarrow> (nat \<Rightarrow> u32) \<Rightarrow> nat \<Rightarrow> u32" where
  "page_clear page bm = bm(page div 32 := bm (page div 32) AND NOT (push_bit (page mod 32) 1))"

text \<open>The last byte of a range, clipped to RAM as every range routine of the file clips it.\<close>

definition range_end :: "u32 \<Rightarrow> u32 \<Rightarrow> u32" where
  "range_end phys len =
     (let e = phys + len - 1 in if e \<ge> RAM_SIZE \<or> e < phys then RAM_SIZE - 1 else e)"

definition range_pages :: "u32 \<Rightarrow> u32 \<Rightarrow> nat list" where
  "range_pages phys len = [page_of phys ..< Suc (page_of (range_end phys len))]"

section \<open>Dirty pages\<close>

definition dirty_ram_mark_page :: "u32 \<Rightarrow> 'a mem_st_scheme \<Rightarrow> 'a mem_st_scheme" where
  "dirty_ram_mark_page phys s =
     (if phys \<ge> RAM_SIZE then s
      else let page = page_of phys;
               s1 = (if \<not> page_bit (dirty_ram_bitmap s) page
                     then s\<lparr> g_dirty_ram_code_gen := g_dirty_ram_code_gen s + 1 \<rparr> else s)
           in s1\<lparr> dirty_ram_bitmap := page_set page (dirty_ram_bitmap s1) \<rparr>)"

definition dirty_ram_is_dirty :: "u32 \<Rightarrow> 'a mem_st_scheme \<Rightarrow> bool" where
  "dirty_ram_is_dirty phys s \<longleftrightarrow>
     (if phys \<ge> RAM_SIZE then False
      else if env_force_interp s \<and> phys \<ge> DIRTY_RAM_KERNEL_TRACK_BYTES then True
      else if env_shellwin_interp s \<and> phys \<ge> 0x30000 \<and> phys \<le> 0x5AFFF then True
      else page_bit (dirty_ram_bitmap s) (page_of phys))"

section \<open>The kernel-image bless table\<close>

definition kbless_on :: "'a mem_st_scheme \<Rightarrow> bool \<times> 'a mem_st_scheme" where
  "kbless_on s =
     (let s1 = (if kbless_enabled s < 0
                then s\<lparr> kbless_enabled :=
                          (if length (psx_bios_kernel_bodies s) > KBLESS_MAX_ENTRIES then 0
                           else if env_kernel_bless_zero s then 0 else 1) \<rparr>
                else s)
      in (kbless_enabled s1 \<noteq> 0, s1))"

function kbless_search :: "kernel_body list \<Rightarrow> u32 \<Rightarrow> nat \<Rightarrow> nat \<Rightarrow> nat option" where
  "kbless_search bodies phys lo hi =
     (if lo < hi
      then let mid = (lo + hi) div 2; k = kb_key (bodies ! mid)
           in if k = phys then Some mid
              else if k < phys then kbless_search bodies phys (mid + 1) hi
              else kbless_search bodies phys lo mid
      else None)"
  by pat_completeness auto
termination
  by (relation "measure (\<lambda>(bodies, phys, lo, hi). hi - lo)") auto

declare kbless_search.simps [simp del]

definition kbless_find :: "u32 \<Rightarrow> 'a mem_st_scheme \<Rightarrow> nat option" where
  "kbless_find phys s =
     kbless_search (psx_bios_kernel_bodies s) phys 0 (length (psx_bios_kernel_bodies s))"

definition in_kernel_window :: "u32 \<Rightarrow> bool" where
  "in_kernel_window phys \<longleftrightarrow> phys - KBLESS_RAM_LO < KBLESS_RAM_HI - KBLESS_RAM_LO"

text \<open>\<open>memcmp\<close> of a body with its ROM source; the host comparison is over
  \<open>body_hi - body_lo\<close> bytes.\<close>

definition body_matches_rom :: "kernel_body \<Rightarrow> 'a mem_st_scheme \<Rightarrow> bool" where
  "body_matches_rom b s \<longleftrightarrow>
     (\<forall>i < unat (kb_hi b - kb_lo b).
        ram s (unat (kb_lo b) + i) = bios_rom s (unat KBLESS_ROM_OFF + unat (kb_lo b - KBLESS_RAM_LO) + i))"

definition psx_kernel_bless_dispatchable :: "u32 \<Rightarrow> 'a mem_st_scheme \<Rightarrow> bool \<times> 'a mem_st_scheme" where
  "psx_kernel_bless_dispatchable phys s =
     (if \<not> in_kernel_window phys then (False, s)
      else let (on, s) = kbless_on s
           in if \<not> on then (False, s)
              else case kbless_find phys s of
                     None \<Rightarrow> (False, s)
                   | Some i \<Rightarrow>
                       (if kbless_state s i = KBLESS_CLEAN
                        then (True, s\<lparr> kbless_native_hits := kbless_native_hits s + 1 \<rparr>)
                        else if kbless_state s i = KBLESS_MISMATCH then (False, s)
                        else let s1 = s\<lparr> kbless_verifies := kbless_verifies s + 1 \<rparr>
                             in if body_matches_rom (psx_bios_kernel_bodies s ! i) s
                                then (True, s1\<lparr> kbless_state := (kbless_state s1)(i := KBLESS_CLEAN),
                                               kbless_native_hits := kbless_native_hits s1 + 1 \<rparr>)
                                else (False, s1\<lparr> kbless_state := (kbless_state s1)(i := KBLESS_MISMATCH),
                                                kbless_mismatches := kbless_mismatches s1 + 1 \<rparr>)))"

definition kbless_drop :: "nat \<Rightarrow> 'a mem_st_scheme \<Rightarrow> 'a mem_st_scheme" where
  "kbless_drop i s =
     (if kbless_state s i \<noteq> KBLESS_UNKNOWN
      then s\<lparr> kbless_state := (kbless_state s)(i := KBLESS_UNKNOWN),
              kbless_invalidations := kbless_invalidations s + 1 \<rparr>
      else s)"

definition kbless_note_write :: "u32 \<Rightarrow> 'a mem_st_scheme \<Rightarrow> 'a mem_st_scheme" where
  "kbless_note_write phys s =
     (if \<not> in_kernel_window phys then s
      else if kbless_enabled s = 0 then s
      else let n = length (psx_bios_kernel_bodies s)
           in if n > KBLESS_MAX_ENTRIES then s
              else fold (\<lambda>i s. let b = psx_bios_kernel_bodies s ! i
                               in if phys \<ge> kb_lo b \<and> phys < kb_hi b then kbless_drop i s else s) [0 ..< n] s)"

definition psx_kernel_bless_note_range :: "u32 \<Rightarrow> u32 \<Rightarrow> 'a mem_st_scheme \<Rightarrow> 'a mem_st_scheme" where
  "psx_kernel_bless_note_range phys len s =
     (if len = 0 then s
      else let e = phys + len; e = (if e < phys then 0xFFFFFFFF else e)
           in if e \<le> KBLESS_RAM_LO \<or> phys \<ge> KBLESS_RAM_HI then s
              else let n = length (psx_bios_kernel_bodies s)
                   in if n > KBLESS_MAX_ENTRIES then s else fold kbless_drop [0 ..< n] s)"

definition dirty_ram_mark_kernel_write :: "u32 \<Rightarrow> 'a mem_st_scheme \<Rightarrow> 'a mem_st_scheme" where
  "dirty_ram_mark_kernel_write phys s =
     (if phys \<ge> DIRTY_RAM_KERNEL_TRACK_BYTES then s else kbless_note_write phys (dirty_ram_mark_page phys s))"

definition dirty_ram_mark_executable_range :: "u32 \<Rightarrow> u32 \<Rightarrow> 'a mem_st_scheme \<Rightarrow> 'a mem_st_scheme" where
  "dirty_ram_mark_executable_range phys len s =
     (if len = 0 \<or> phys \<ge> RAM_SIZE then s
      else let s1 = psx_kernel_bless_note_range phys len s
           in s1\<lparr> dirty_ram_bitmap := fold page_set (range_pages phys len) (dirty_ram_bitmap s1),
                  g_dirty_ram_code_gen := g_dirty_ram_code_gen s1 + 1 \<rparr>)"

section \<open>The text-image guard\<close>

definition text_guard_activate_baseline :: "'a mem_st_scheme \<Rightarrow> 'a mem_st_scheme" where
  "text_guard_activate_baseline s =
     (if text_ref_image s = None then s
      else s\<lparr> text_modified_bitmap := (\<lambda>_. 0), text_diverged_bitmap := (\<lambda>_. 0),
              g_text_native_blocked := 0, g_text_diverged_pages := 0, text_image_active := True \<rparr>)"

definition dirty_ram_clear_image_baseline :: "'a mem_st_scheme \<Rightarrow> 'a mem_st_scheme" where
  "dirty_ram_clear_image_baseline s =
     (if g_overlay_region_floor s \<le> DIRTY_RAM_KERNEL_TRACK_BYTES then s
      else let fl = (if g_overlay_region_floor s > RAM_SIZE then RAM_SIZE else g_overlay_region_floor s);
               first_page = page_of DIRTY_RAM_KERNEL_TRACK_BYTES;
               last_page = page_of (fl - 1)
           in text_guard_activate_baseline
                (s\<lparr> dirty_ram_bitmap := fold page_clear [first_page ..< Suc last_page] (dirty_ram_bitmap s) \<rparr>))"

definition dirty_ram_register_text_image :: "u32 \<Rightarrow> (nat \<Rightarrow> u8) \<Rightarrow> u32 \<Rightarrow> 'a mem_st_scheme \<Rightarrow> 'a mem_st_scheme" where
  "dirty_ram_register_text_image phys_lo bytes len s =
     (if len = 0 \<or> phys_lo \<ge> RAM_SIZE then s
      else let len = (if len > RAM_SIZE - phys_lo then RAM_SIZE - phys_lo else len)
           in s\<lparr> text_ref_image := Some bytes, text_ref_lo := phys_lo, text_ref_hi := phys_lo + len,
                 text_modified_bitmap := (\<lambda>_. 0), text_diverged_bitmap := (\<lambda>_. 0),
                 g_text_native_blocked := 0, g_text_diverged_pages := 0, text_image_active := False \<rparr>)"

definition le_bytes :: "u32 \<Rightarrow> u8 list" where
  "le_bytes v = [ucast v, ucast (drop_bit 8 v), ucast (drop_bit 16 v), ucast (drop_bit 24 v)]"

definition text_guard_note_write :: "u32 \<Rightarrow> u32 \<Rightarrow> nat \<Rightarrow> 'a mem_st_scheme \<Rightarrow> 'a mem_st_scheme" where
  "text_guard_note_write phys val sz s =
     (case text_ref_image s of
        None \<Rightarrow> s
      | Some img \<Rightarrow>
          (if phys < text_ref_lo s \<or> phys + of_nat sz > text_ref_hi s then s
           else let off = unat (phys - text_ref_lo s)
                in if map (\<lambda>i. img (off + i)) [0 ..< sz] \<noteq> take sz (le_bytes val)
                   then s\<lparr> text_modified_bitmap := page_set (page_of phys) (text_modified_bitmap s) \<rparr>
                   else s))"

definition text_window_matches :: "u32 \<Rightarrow> (nat \<Rightarrow> u8) \<Rightarrow> 'a mem_st_scheme \<Rightarrow> bool" where
  "text_window_matches phys img s \<longleftrightarrow>
     (let n = (if 256 > text_ref_hi s - phys then text_ref_hi s - phys else 256)
      in \<forall>i < unat n. ram s (unat phys + i) = img (unat (phys - text_ref_lo s) + i))"

definition text_note_blocked :: "'a mem_st_scheme \<Rightarrow> bool \<times> 'a mem_st_scheme" where
  "text_note_blocked s = (False, s\<lparr> g_text_native_blocked := g_text_native_blocked s + 1 \<rparr>)"

definition dirty_ram_text_native_ok :: "u32 \<Rightarrow> 'a mem_st_scheme \<Rightarrow> bool \<times> 'a mem_st_scheme" where
  "dirty_ram_text_native_ok phys s =
     (case text_ref_image s of
        None \<Rightarrow> (\<not> dirty_ram_is_dirty phys s, s)
      | Some img \<Rightarrow>
          (if phys < text_ref_lo s \<or> phys \<ge> text_ref_hi s then (\<not> dirty_ram_is_dirty phys s, s)
           else let page = page_of phys
                in if text_image_active s \<and> page_bit (text_diverged_bitmap s) page then text_note_blocked s
                   else if \<not> page_bit (text_modified_bitmap s) page \<and> \<not> dirty_ram_is_dirty phys s then (True, s)
                   else if text_window_matches phys img s then (True, s)
                   else text_note_blocked
                          (if text_image_active s
                           then s\<lparr> text_diverged_bitmap := page_set page (text_diverged_bitmap s),
                                   g_text_diverged_pages := g_text_diverged_pages s + 1 \<rparr>
                           else s)))"

definition dirty_ram_text_bless :: "u32 \<Rightarrow> (nat \<Rightarrow> u8) \<Rightarrow> u32 \<Rightarrow> 'a mem_st_scheme \<Rightarrow> 'a mem_st_scheme" where
  "dirty_ram_text_bless phys bytes len s =
     (case text_ref_image s of
        None \<Rightarrow> s
      | Some img \<Rightarrow>
          (if len = 0 then s
           else if phys \<ge> text_ref_hi s \<or> phys + len \<le> text_ref_lo s then s
           else let lo = (if phys < text_ref_lo s then text_ref_lo s else phys);
                    hi = (if phys + len > text_ref_hi s then text_ref_hi s else phys + len)
                in if hi \<le> lo then s
                   else let n = unat (hi - lo); ro = unat (lo - text_ref_lo s); so = unat (lo - phys)
                        in if map (\<lambda>i. img (ro + i)) [0 ..< n] = map (\<lambda>i. bytes (so + i)) [0 ..< n] then s
                           else s\<lparr> text_ref_image :=
                                     Some (\<lambda>j. if ro \<le> j \<and> j < ro + n then bytes (so + (j - ro)) else img j),
                                   text_diverged_bitmap :=
                                     fold page_clear [page_of lo ..< Suc (page_of (hi - 1))] (text_diverged_bitmap s) \<rparr>))"

section \<open>Overlay page generations\<close>

definition overlay_watch_set_range :: "u32 \<Rightarrow> u32 \<Rightarrow> 'a mem_st_scheme \<Rightarrow> 'a mem_st_scheme" where
  "overlay_watch_set_range phys len s =
     (if len = 0 \<or> phys \<ge> RAM_SIZE then s
      else s\<lparr> overlay_watch_bitmap := fold page_set (range_pages phys len) (overlay_watch_bitmap s) \<rparr>)"

definition overlay_watch_clear_range :: "u32 \<Rightarrow> u32 \<Rightarrow> 'a mem_st_scheme \<Rightarrow> 'a mem_st_scheme" where
  "overlay_watch_clear_range phys len s =
     (if len = 0 \<or> phys \<ge> RAM_SIZE then s
      else s\<lparr> overlay_watch_bitmap := fold page_clear (range_pages phys len) (overlay_watch_bitmap s) \<rparr>)"

definition overlay_watch_pagegen_sum :: "u32 \<Rightarrow> u32 \<Rightarrow> 'a mem_st_scheme \<Rightarrow> u32" where
  "overlay_watch_pagegen_sum phys len s =
     (if len = 0 \<or> phys \<ge> RAM_SIZE then 0
      else sum_list (map (overlay_page_gen s) (range_pages phys len)))"

definition overlay_watch_note_write :: "u32 \<Rightarrow> 'a mem_st_scheme \<Rightarrow> 'a mem_st_scheme" where
  "overlay_watch_note_write phys s =
     (let pg = page_of phys
      in if pg \<ge> unat DIRTY_RAM_PAGE_COUNT then s
         else if page_bit (overlay_watch_bitmap s) pg
              then s\<lparr> overlay_page_gen := (overlay_page_gen s)(pg := overlay_page_gen s pg + 1) \<rparr>
              else s)"

section \<open>Raw loads and stores\<close>

record 's mmio_ops =
  mmio_read32 :: "u32 \<Rightarrow> 's \<Rightarrow> u32 \<times> 's"
  mmio_read16 :: "u32 \<Rightarrow> 's \<Rightarrow> u16 \<times> 's"
  mmio_read8 :: "u32 \<Rightarrow> 's \<Rightarrow> u8 \<times> 's"
  mmio_write32 :: "u32 \<Rightarrow> u32 \<Rightarrow> 's \<Rightarrow> 's"
  mmio_write16 :: "u32 \<Rightarrow> u16 \<Rightarrow> 's \<Rightarrow> 's"
  mmio_write8 :: "u32 \<Rightarrow> u8 \<Rightarrow> 's \<Rightarrow> 's"

datatype region = R_ram | R_exp1 | R_scratch | R_mmio | R_rom | R_unmapped

text \<open>The chain of range tests shared by the six accessors.\<close>

definition region_of :: "u32 \<Rightarrow> region" where
  "region_of phys =
     (if phys < RAM_SIZE then R_ram
      else if phys \<ge> 0x1F000000 \<and> phys \<le> 0x1F7FFFFF then R_exp1
      else if phys \<ge> 0x1F800000 \<and> phys \<le> 0x1F8003FF then R_scratch
      else if phys \<ge> 0x1F801000 \<and> phys \<le> 0x1F803FFF then R_mmio
      else if phys \<ge> 0x1FC00000 \<and> phys \<le> 0x1FC7FFFF then R_rom
      else R_unmapped)"

definition kseg2_ignored_read :: "'a mem_st_scheme \<Rightarrow> 'a mem_st_scheme" where
  "kseg2_ignored_read s = s\<lparr> g_kseg2_ignored_reads := g_kseg2_ignored_reads s + 1 \<rparr>"

definition psx_read_word_raw ::
  "('a mem_st_scheme) mmio_ops \<Rightarrow> u32 \<Rightarrow> 'a mem_st_scheme \<Rightarrow> u32 \<times> 'a mem_st_scheme" where
  "psx_read_word_raw M addr s =
     (if addr = 0xFFFE0130 then (cache_ctrl s, s)
      else if addr \<ge> 0xC0000000 then (0, kseg2_ignored_read s)
      else let phys = psx_phys_addr addr
           in case region_of phys of
                R_ram \<Rightarrow> (word_at (ram s) (unat phys), s)
              | R_exp1 \<Rightarrow> (0xFFFFFFFF, s)
              | R_scratch \<Rightarrow> (word_at (scratchpad s) (unat (phys - 0x1F800000)), s)
              | R_mmio \<Rightarrow> mmio_read32 M phys s
              | R_rom \<Rightarrow> (word_at (bios_rom s) (unat (phys - 0x1FC00000)), s)
              | R_unmapped \<Rightarrow> (0, s))"

definition psx_read_half_raw ::
  "('a mem_st_scheme) mmio_ops \<Rightarrow> u32 \<Rightarrow> 'a mem_st_scheme \<Rightarrow> u16 \<times> 'a mem_st_scheme" where
  "psx_read_half_raw M addr s =
     (if addr \<ge> 0xC0000000 then (0, kseg2_ignored_read s)
      else let phys = psx_phys_addr addr
           in case region_of phys of
                R_ram \<Rightarrow> (half_at (ram s) (unat phys), s)
              | R_exp1 \<Rightarrow> (0xFFFF, s)
              | R_scratch \<Rightarrow> (half_at (scratchpad s) (unat (phys - 0x1F800000)), s)
              | R_mmio \<Rightarrow> mmio_read16 M phys s
              | R_rom \<Rightarrow> (half_at (bios_rom s) (unat (phys - 0x1FC00000)), s)
              | R_unmapped \<Rightarrow> (0, s))"

definition psx_read_byte_raw ::
  "('a mem_st_scheme) mmio_ops \<Rightarrow> u32 \<Rightarrow> 'a mem_st_scheme \<Rightarrow> u8 \<times> 'a mem_st_scheme" where
  "psx_read_byte_raw M addr s =
     (if addr \<ge> 0xC0000000 then (0, kseg2_ignored_read s)
      else let phys = psx_phys_addr addr
           in case region_of phys of
                R_ram \<Rightarrow> (ram s (unat phys), s)
              | R_exp1 \<Rightarrow> (0xFF, s)
              | R_scratch \<Rightarrow> (scratchpad s (unat (phys - 0x1F800000)), s)
              | R_mmio \<Rightarrow> mmio_read8 M phys s
              | R_rom \<Rightarrow> (bios_rom s (unat (phys - 0x1FC00000)), s)
              | R_unmapped \<Rightarrow> (0, s))"

definition store_isolated :: "'a mem_st_scheme \<Rightarrow> bool" where
  "store_isolated s \<longleftrightarrow> (case sr_ref s of None \<Rightarrow> False | Some sr \<Rightarrow> sr AND 0x10000 \<noteq> 0)"

definition low_boot_store_pcs :: "u32 list" where
  "low_boot_store_pcs =
     [0xBFC04E90, 0xBFC04EF0, 0xBFC05164, 0xBFC0D634, 0xBFC3EEB4, 0xBFC405E4, 0xBFC40788, 0xBFC41C50,
      0x80012434, 0x800125AC]"

text \<open>The word stores to low RAM that are dropped once the game runs: the mirrored exception
  trampoline and the BIOS delay-loop scratch.\<close>

definition low_store_dropped :: "u32 \<Rightarrow> 'a mem_st_scheme \<Rightarrow> bool" where
  "low_store_dropped phys s \<longleftrightarrow>
     fntrace_game_started s \<and> phys < 0x10 \<and> g_debug_last_store_pc s = 0xBFC10A00
     \<or> fntrace_game_started s \<and> phys = 0 \<and> g_debug_last_store_pc s \<in> set low_boot_store_pcs"

text \<open>The re-arming of a ready public card event by the BIOS cleanup helper, dropped likewise.\<close>

definition card_event_store_dropped :: "u32 \<Rightarrow> u32 \<Rightarrow> 'a mem_st_scheme \<Rightarrow> bool" where
  "card_event_store_dropped phys val s \<longleftrightarrow>
     fntrace_game_started s \<and> g_debug_last_store_pc s = 0xBFC117E4 \<and> val = 0x2000 \<and>
     phys \<ge> 4 \<and> phys + 8 < RAM_SIZE \<and>
     read_ram_word phys s = 0x4000 \<and> read_ram_word (phys - 4) s = 0xF0000011 \<and>
     read_ram_word (phys + 8) s = 0x2000 \<and>
     read_ram_word (phys + 4) s \<in> set [0x4, 0x8000, 0x100, 0x200, 0x2000]"

definition d44_note :: "u32 \<Rightarrow> u32 \<Rightarrow> u32 \<Rightarrow> 'a mem_st_scheme \<Rightarrow> 'a mem_st_scheme" where
  "d44_note phys old val s =
     (if phys \<noteq> 0x79D44 then s
      else s\<lparr> g_d44_ring := (g_d44_ring s)(unat (g_d44_seq s AND 31) :=
                \<lparr> d44_seq = g_d44_seq s, d44_val = val, d44_old = old, d44_store_pc = g_debug_last_store_pc s,
                  d44_dma_depth = g_dma_exec_depth s, d44_dma_ch = g_dma_cur_ch s,
                  d44_dma_madr = g_dma_cur_madr s, d44_dma_bcr = g_dma_cur_bcr s,
                  d44_frame = ucast (s_frame_count s) \<rparr>),
              g_d44_seq := g_d44_seq s + 1 \<rparr>)"

text \<open>The bookkeeping every RAM store performs before the bytes change.\<close>

definition note_ram_store :: "u32 \<Rightarrow> u32 \<Rightarrow> nat \<Rightarrow> 'a mem_st_scheme \<Rightarrow> 'a mem_st_scheme" where
  "note_ram_store phys val sz s =
     overlay_watch_note_write phys (text_guard_note_write phys val sz (dirty_ram_mark_kernel_write phys s))"

definition store_ram_word :: "u32 \<Rightarrow> u32 \<Rightarrow> 'a mem_st_scheme \<Rightarrow> 'a mem_st_scheme" where
  "store_ram_word phys val s =
     (if card_event_store_dropped phys val s then s
      else let s1 = note_ram_store phys val 4 (d44_note phys (read_ram_word phys s) val s)
           in s1\<lparr> ram := put_word (ram s1) (unat phys) val \<rparr>)"

definition kseg2_ignored_write :: "'a mem_st_scheme \<Rightarrow> 'a mem_st_scheme" where
  "kseg2_ignored_write s = s\<lparr> g_kseg2_ignored_writes := g_kseg2_ignored_writes s + 1 \<rparr>"

definition psx_write_word_raw ::
  "('a mem_st_scheme) mmio_ops \<Rightarrow> u32 \<Rightarrow> u32 \<Rightarrow> 'a mem_st_scheme \<Rightarrow> 'a mem_st_scheme" where
  "psx_write_word_raw M addr val s0 =
     (let s = s0\<lparr> g_guest_store_count := g_guest_store_count s0 + 1 \<rparr>
      in if addr = 0xFFFE0130 then s\<lparr> cache_ctrl := val \<rparr>
         else if addr \<ge> 0xC0000000 then kseg2_ignored_write s
         else if store_isolated s then s
         else let phys = psx_phys_addr addr
              in if low_store_dropped phys s then s
                 else case region_of phys of
                        R_ram \<Rightarrow> store_ram_word phys val s
                      | R_exp1 \<Rightarrow> s
                      | R_scratch \<Rightarrow> s\<lparr> scratchpad := put_word (scratchpad s) (unat (phys - 0x1F800000)) val \<rparr>
                      | R_mmio \<Rightarrow> mmio_write32 M phys val s
                      | R_rom \<Rightarrow> s
                      | R_unmapped \<Rightarrow> s)"

definition psx_write_half_raw ::
  "('a mem_st_scheme) mmio_ops \<Rightarrow> u32 \<Rightarrow> u16 \<Rightarrow> 'a mem_st_scheme \<Rightarrow> 'a mem_st_scheme" where
  "psx_write_half_raw M addr val s0 =
     (let s = s0\<lparr> g_guest_store_count := g_guest_store_count s0 + 1 \<rparr>
      in if store_isolated s then s
         else if addr \<ge> 0xC0000000 then kseg2_ignored_write s
         else let phys = psx_phys_addr addr
              in case region_of phys of
                   R_ram \<Rightarrow> (let s1 = note_ram_store phys (ucast val) 2 s
                             in s1\<lparr> ram := put_half (ram s1) (unat phys) val \<rparr>)
                 | R_exp1 \<Rightarrow> s
                 | R_scratch \<Rightarrow> s\<lparr> scratchpad := put_half (scratchpad s) (unat (phys - 0x1F800000)) val \<rparr>
                 | R_mmio \<Rightarrow> mmio_write16 M phys val s
                 | R_rom \<Rightarrow> s
                 | R_unmapped \<Rightarrow> s)"

definition psx_write_byte_raw ::
  "('a mem_st_scheme) mmio_ops \<Rightarrow> u32 \<Rightarrow> u8 \<Rightarrow> 'a mem_st_scheme \<Rightarrow> 'a mem_st_scheme" where
  "psx_write_byte_raw M addr val s0 =
     (let s = s0\<lparr> g_guest_store_count := g_guest_store_count s0 + 1 \<rparr>
      in if store_isolated s then s
         else if addr \<ge> 0xC0000000 then kseg2_ignored_write s
         else let phys = psx_phys_addr addr
              in case region_of phys of
                   R_ram \<Rightarrow> (let s1 = note_ram_store phys (ucast val) 1 s
                             in s1\<lparr> ram := (ram s1)(unat phys := val) \<rparr>)
                 | R_exp1 \<Rightarrow> s
                 | R_scratch \<Rightarrow> s\<lparr> scratchpad := (scratchpad s)(unat (phys - 0x1F800000) := val) \<rparr>
                 | R_mmio \<Rightarrow> mmio_write8 M phys val s
                 | R_rom \<Rightarrow> s
                 | R_unmapped \<Rightarrow> s)"

end
