(* ===== verification/Mdec.thy ===== *)
theory Mdec
  imports Psx_Memory
begin

text \<open>
  The motion decoder (runtime/src/mdec.c): the command state machine, the run-length and
  inverse cosine stages, the colour conversion and the output queue the DMA controller
  drains. The state extends \<open>sys\<close> with the \<open>MDECState\<close> struct and the file's statics.

  The two heap buffers are functions from indices to cells with their capacities beside
  them; \<open>m_realloc_ok\<close> is the verdict of the host allocator for a size in bytes, which the
  code tests for a null pointer. 16-bit signed samples are kept as 16-bit patterns and read
  with \<open>sint\<close>; the \<open>int\<close> arithmetic of the transform stages is integer arithmetic, and the
  bounds proved below show that it stays inside 32 bits. The host performance counters of
  the debug build are not modelled.
\<close>

type_synonym block = "nat \<Rightarrow> u16"

record mdec_event =
  me_seq :: u64
  me_frame :: u32
  me_kind :: u32
  me_value :: u32
  me_command :: u32
  me_input_count :: u32
  me_expected_halfwords :: u32
  me_output_size :: u32
  me_output_pos :: u32
  me_macroblocks :: u32
  me_blocks :: u32
  me_stop_reason :: u32
  me_underruns :: u32

record mdec_st = mem_st +
  m_command :: u32
  m_expected_halfwords :: u32
  m_input_count :: u32
  m_input :: "nat \<Rightarrow> u16"
  m_input_cap :: u32
  m_output :: "nat \<Rightarrow> u8"
  m_output_size :: u32
  m_output_pos :: u32
  m_output_cap :: u32
  m_y_quant :: "nat \<Rightarrow> u8"
  m_uv_quant :: "nat \<Rightarrow> u8"
  m_scale :: "nat \<Rightarrow> u16"
  m_output_bit15 :: u8
  m_output_signed :: u8
  m_output_depth :: u8
  m_current_block :: u8
  m_busy :: u8
  m_input_full :: u8
  m_enable_dma_in :: u8
  m_enable_dma_out :: u8
  m_last_status :: u32
  m_decode_macroblocks :: u32
  m_decode_blocks :: u32
  m_decode_stop_reason :: u32
  m_decode_input_pos :: u32
  m_decode_input_end :: u32
  m_dma_in_words :: u32
  m_dma_out_words :: u32
  m_dma_read_underflows :: u32
  mdec_trace :: "nat \<Rightarrow> mdec_event"
  mdec_trace_seq :: u64
  mdec_trace_head :: nat
  mdec_last_color_decode_frame :: u64
  g_mdec_decode_count :: u32
  m_realloc_ok :: "nat \<Rightarrow> bool"

abbreviation (input) MDEC_CMD_DECODE :: u32 where "MDEC_CMD_DECODE \<equiv> 1"
abbreviation (input) MDEC_CMD_SET_QUANT :: u32 where "MDEC_CMD_SET_QUANT \<equiv> 2"
abbreviation (input) MDEC_CMD_SET_SCALE :: u32 where "MDEC_CMD_SET_SCALE \<equiv> 3"

abbreviation (input) MDEC_EVT_RESET :: u32 where "MDEC_EVT_RESET \<equiv> 1"
abbreviation (input) MDEC_EVT_CTRL_WRITE :: u32 where "MDEC_EVT_CTRL_WRITE \<equiv> 2"
abbreviation (input) MDEC_EVT_CMD_BEGIN :: u32 where "MDEC_EVT_CMD_BEGIN \<equiv> 3"
abbreviation (input) MDEC_EVT_CMD_DONE :: u32 where "MDEC_EVT_CMD_DONE \<equiv> 4"
abbreviation (input) MDEC_EVT_DECODE_DONE :: u32 where "MDEC_EVT_DECODE_DONE \<equiv> 5"
abbreviation (input) MDEC_EVT_DMA_IN_START :: u32 where "MDEC_EVT_DMA_IN_START \<equiv> 6"
abbreviation (input) MDEC_EVT_DMA_IN_END :: u32 where "MDEC_EVT_DMA_IN_END \<equiv> 7"
abbreviation (input) MDEC_EVT_DMA_OUT_START :: u32 where "MDEC_EVT_DMA_OUT_START \<equiv> 8"
abbreviation (input) MDEC_EVT_DMA_OUT_END :: u32 where "MDEC_EVT_DMA_OUT_END \<equiv> 9"
abbreviation (input) MDEC_EVT_OUTPUT_DRAINED :: u32 where "MDEC_EVT_OUTPUT_DRAINED \<equiv> 10"
abbreviation (input) MDEC_EVT_READ_UNDERFLOW :: u32 where "MDEC_EVT_READ_UNDERFLOW \<equiv> 11"

abbreviation (input) MDEC_STOP_NONE :: u32 where "MDEC_STOP_NONE \<equiv> 0"
abbreviation (input) MDEC_STOP_INPUT_END :: u32 where "MDEC_STOP_INPUT_END \<equiv> 1"
abbreviation (input) MDEC_STOP_CR :: u32 where "MDEC_STOP_CR \<equiv> 2"
abbreviation (input) MDEC_STOP_CB :: u32 where "MDEC_STOP_CB \<equiv> 3"
abbreviation (input) MDEC_STOP_Y0 :: u32 where "MDEC_STOP_Y0 \<equiv> 4"
abbreviation (input) MDEC_STOP_Y1 :: u32 where "MDEC_STOP_Y1 \<equiv> 5"
abbreviation (input) MDEC_STOP_Y2 :: u32 where "MDEC_STOP_Y2 \<equiv> 6"
abbreviation (input) MDEC_STOP_Y3 :: u32 where "MDEC_STOP_Y3 \<equiv> 7"

definition zigzag_to_linear :: "nat list" where
  "zigzag_to_linear =
    [0x00, 0x08, 0x01, 0x02, 0x09, 0x10, 0x18, 0x11,
     0x0a, 0x03, 0x04, 0x0b, 0x12, 0x19, 0x20, 0x28,
     0x21, 0x1a, 0x13, 0x0c, 0x05, 0x06, 0x0d, 0x14,
     0x1b, 0x22, 0x29, 0x30, 0x38, 0x31, 0x2a, 0x23,
     0x1c, 0x15, 0x0e, 0x07, 0x0f, 0x16, 0x1d, 0x24,
     0x2b, 0x32, 0x39, 0x3a, 0x33, 0x2c, 0x25, 0x1e,
     0x17, 0x1f, 0x26, 0x2d, 0x34, 0x3b, 0x3c, 0x35,
     0x2e, 0x27, 0x2f, 0x36, 0x3d, 0x3e, 0x37, 0x3f]"

section \<open>Trace and buffers\<close>

abbreviation (input) MDEC_TRACE_CAP :: nat where "MDEC_TRACE_CAP \<equiv> 4096"

definition mk_mdec_event :: "u32 \<Rightarrow> u32 \<Rightarrow> 'a mdec_st_scheme \<Rightarrow> mdec_event" where
  "mk_mdec_event kind val s =
     \<lparr> me_seq = mdec_trace_seq s, me_frame = ucast (s_frame_count s), me_kind = kind, me_value = val,
       me_command = m_command s, me_input_count = m_input_count s,
       me_expected_halfwords = m_expected_halfwords s, me_output_size = m_output_size s,
       me_output_pos = m_output_pos s, me_macroblocks = m_decode_macroblocks s,
       me_blocks = m_decode_blocks s, me_stop_reason = m_decode_stop_reason s,
       me_underruns = m_dma_read_underflows s \<rparr>"

definition trace_event :: "u32 \<Rightarrow> u32 \<Rightarrow> 'a mdec_st_scheme \<Rightarrow> 'a mdec_st_scheme" where
  "trace_event kind val s =
     s\<lparr> mdec_trace := (mdec_trace s)(mdec_trace_head s := mk_mdec_event kind val s),
        mdec_trace_seq := mdec_trace_seq s + 1,
        mdec_trace_head := (mdec_trace_head s + 1) mod MDEC_TRACE_CAP \<rparr>"

definition sign_extend_10 :: "u16 \<Rightarrow> u16" where
  "sign_extend_10 v = signed_drop_bit 6 (push_bit 6 v)"

definition clamp_int :: "int \<Rightarrow> int \<Rightarrow> int \<Rightarrow> int" where
  "clamp_int v lo hi = (if v < lo then lo else if v > hi then hi else v)"

definition clear_output :: "'a mdec_st_scheme \<Rightarrow> 'a mdec_st_scheme" where
  "clear_output s = s\<lparr> m_output_size := 0, m_output_pos := 0 \<rparr>"

text \<open>The doubling loop of both capacity checks. 32 rounds are enough whenever the loop ends:
  a nonzero 32-bit capacity passes \<open>2 ^ 31\<close> after at most 31 doublings.\<close>

fun grow_cap :: "nat \<Rightarrow> u32 \<Rightarrow> u32 \<Rightarrow> u32" where
  "grow_cap 0 cap need = cap"
| "grow_cap (Suc n) cap need = (if cap < need then grow_cap n (cap * 2) need else cap)"

definition ensure_input_capacity :: "u32 \<Rightarrow> 'a mdec_st_scheme \<Rightarrow> bool \<times> 'a mdec_st_scheme" where
  "ensure_input_capacity halfwords s =
     (if halfwords \<le> m_input_cap s then (True, s)
      else let new_cap = grow_cap 32 (if m_input_cap s \<noteq> 0 then m_input_cap s else 256) halfwords
           in if \<not> m_realloc_ok s (unat new_cap * 2) then (False, s)
              else (True, s\<lparr> m_input_cap := new_cap \<rparr>))"

definition ensure_output_capacity :: "u32 \<Rightarrow> 'a mdec_st_scheme \<Rightarrow> bool \<times> 'a mdec_st_scheme" where
  "ensure_output_capacity bytes s =
     (if bytes \<le> m_output_cap s then (True, s)
      else let new_cap = grow_cap 32 (if m_output_cap s \<noteq> 0 then m_output_cap s else 4096) bytes
           in if \<not> m_realloc_ok s (unat new_cap) then (False, s)
              else (True, s\<lparr> m_output_cap := new_cap \<rparr>))"

definition append_byte :: "u8 \<Rightarrow> 'a mdec_st_scheme \<Rightarrow> 'a mdec_st_scheme" where
  "append_byte v s =
     (let (ok, s1) = ensure_output_capacity (m_output_size s + 1) s
      in if \<not> ok then s1
         else s1\<lparr> m_output := (m_output s1)(unat (m_output_size s1) := v),
                  m_output_size := m_output_size s1 + 1 \<rparr>)"

definition input_byte :: "nat \<Rightarrow> 'a mdec_st_scheme \<Rightarrow> u8" where
  "input_byte byte_index s =
     (let hw = m_input s (byte_index div 2)
      in if byte_index mod 2 = 1 then ucast (drop_bit 8 hw) else ucast hw)"

definition finish_command :: "'a mdec_st_scheme \<Rightarrow> 'a mdec_st_scheme" where
  "finish_command s =
     trace_event MDEC_EVT_CMD_DONE (m_command s)
       (s\<lparr> m_expected_halfwords := 0, m_input_count := 0, m_busy := 0, m_input_full := 0 \<rparr>)"

definition soft_reset :: "'a mdec_st_scheme \<Rightarrow> 'a mdec_st_scheme" where
  "soft_reset s =
     s\<lparr> m_command := 0, m_expected_halfwords := 0, m_input_count := 0,
        m_output_size := 0, m_output_pos := 0,
        m_output_bit15 := 0, m_output_signed := 0, m_output_depth := 3, m_current_block := 4,
        m_busy := 0, m_input_full := 0, m_enable_dma_in := 0, m_enable_dma_out := 0,
        m_last_status := 0, m_decode_macroblocks := 0, m_decode_blocks := 0,
        m_decode_stop_reason := 0, m_decode_input_pos := 0, m_decode_input_end := 0,
        m_dma_in_words := 0, m_dma_out_words := 0, m_dma_read_underflows := 0 \<rparr>"

section \<open>Transform stages\<close>

definition sign_x_to_s32 :: "nat \<Rightarrow> int \<Rightarrow> int" where
  "sign_x_to_s32 bits v =
     (let shift = 32 - bits
      in sint (signed_drop_bit shift (push_bit shift (word_of_int v :: u32))))"

definition mask9_clamp_s8 :: "int \<Rightarrow> int" where
  "mask9_clamp_s8 v0 =
     (let v = sign_x_to_s32 9 v0;
          v = (if v < -128 then -128 else v);
          v = (if v > 127 then 127 else v)
      in v)"

definition idct_sum :: "block \<Rightarrow> (nat \<Rightarrow> u16) \<Rightarrow> nat \<Rightarrow> nat \<Rightarrow> int" where
  "idct_sum blk scale col x =
     sum_list (map (\<lambda>u. sint (blk (col * 8 + u)) * sint (scale (x * 8 + u))) [0 ..< 8])"

definition idct_pass1 :: "block \<Rightarrow> (nat \<Rightarrow> u16) \<Rightarrow> block" where
  "idct_pass1 blk scale =
     (\<lambda>i. let x = i div 8; col = i mod 8
          in word_of_int (drop_bit 15 (idct_sum blk scale col x + 0x4000)))"

definition idct_block :: "block \<Rightarrow> (nat \<Rightarrow> u16) \<Rightarrow> block" where
  "idct_block blk scale =
     (let tmp = idct_pass1 blk scale
      in (\<lambda>i. let col = i div 8; x = i mod 8
              in word_of_int (mask9_clamp_s8 (drop_bit 15 (idct_sum tmp scale col x + 0x4000)))))"

definition dequant_bias :: "int \<Rightarrow> int" where
  "dequant_bias ci = (if ci \<noteq> 0 then (if ci < 0 then 8 else -8) else 0)"

definition dequant_dc :: "u16 \<Rightarrow> (nat \<Rightarrow> u8) \<Rightarrow> u16" where
  "dequant_dc w quant =
     (let ci = sint (sign_extend_10 (w AND 0x03FF));
          q = uint (quant 0);
          tmp = (if q \<noteq> 0 then push_bit 4 (ci * q) + dequant_bias ci else push_bit 4 (ci * 2))
      in word_of_int (clamp_int tmp (-0x4000) 0x3FFF))"

definition dequant_ac :: "u16 \<Rightarrow> u32 \<Rightarrow> (nat \<Rightarrow> u8) \<Rightarrow> nat \<Rightarrow> u16" where
  "dequant_ac w qscale quant k =
     (let ci = sint (sign_extend_10 (w AND 0x03FF));
          q = uint qscale * uint (quant k);
          tmp = (if q \<noteq> 0 then push_bit 4 (drop_bit 3 (ci * q)) + dequant_bias ci else push_bit 4 (ci * 2))
      in word_of_int (clamp_int tmp (-0x4000) 0x3FFF))"

function rle_skip :: "(nat \<Rightarrow> u16) \<Rightarrow> u16 \<Rightarrow> nat \<Rightarrow> nat \<Rightarrow> u16 \<times> nat" where
  "rle_skip input w pos end_pos =
     (if w = 0xFE00 \<and> pos < end_pos then rle_skip input (input pos) (Suc pos) end_pos else (w, pos))"
  by pat_completeness auto
termination
  by (relation "measure (\<lambda>(input, w, pos, end_pos). end_pos - pos)") auto

function rle_ac :: "(nat \<Rightarrow> u16) \<Rightarrow> (nat \<Rightarrow> u8) \<Rightarrow> u32 \<Rightarrow> nat \<Rightarrow> nat \<Rightarrow> nat \<Rightarrow> block \<Rightarrow> block \<times> nat" where
  "rle_ac input quant qscale k pos end_pos blk =
     (if pos < end_pos \<and> k < 63
      then let w = input pos
           in if w = 0xFE00 then (blk, Suc pos)
              else let k' = k + unat (drop_bit 10 w AND 0x3F) + 1
                   in if k' \<ge> 64 then (blk, Suc pos)
                      else rle_ac input quant qscale k' (Suc pos) end_pos
                             (blk(zigzag_to_linear ! k' := dequant_ac w qscale quant k'))
      else (blk, pos))"
  by pat_completeness auto
termination
  by (relation "measure (\<lambda>(input, quant, qscale, k, pos, end_pos, blk). end_pos - pos)") auto

declare rle_skip.simps [simp del] rle_ac.simps [simp del]

definition decode_rle_pure ::
  "(nat \<Rightarrow> u16) \<Rightarrow> (nat \<Rightarrow> u16) \<Rightarrow> (nat \<Rightarrow> u8) \<Rightarrow> nat \<Rightarrow> nat \<Rightarrow> block \<times> nat" where
  "decode_rle_pure input scale quant pos end_pos =
     (let (w, pos1) = rle_skip input (input pos) (Suc pos) end_pos;
          qscale = drop_bit 10 (ucast w) AND 0x3F :: u32;
          blk0 = (\<lambda>_. 0)(0 := dequant_dc w quant);
          (blk, pos2) = rle_ac input quant qscale 0 pos1 end_pos blk0
      in (idct_block blk scale, pos2))"

definition decode_rle_block ::
  "(nat \<Rightarrow> u8) \<Rightarrow> nat \<Rightarrow> nat \<Rightarrow> 'a mdec_st_scheme \<Rightarrow> bool \<times> block \<times> nat \<times> 'a mdec_st_scheme" where
  "decode_rle_block quant pos end_pos s =
     (if pos \<ge> end_pos then (False, (\<lambda>_. 0), pos, s)
      else let (blk, pos') = decode_rle_pure (m_input s) (m_scale s) quant pos end_pos
           in (True, blk, pos', s\<lparr> m_decode_blocks := m_decode_blocks s + 1 \<rparr>))"


text \<open>Progress of the run-length stage: a block consumes at least one halfword and never
  passes the end of the input. The macroblock loops terminate by it.\<close>

lemma rle_skip_bounds:
  "pos \<le> end_pos \<Longrightarrow> pos \<le> snd (rle_skip input w pos end_pos) \<and> snd (rle_skip input w pos end_pos) \<le> end_pos"
proof (induction input w pos end_pos rule: rle_skip.induct)
  case (1 input w pos end_pos)
  then show ?case
    by (subst (1 2) rle_skip.simps) (auto dest: Suc_leD)
qed

lemma rle_ac_bounds:
  "pos \<le> end_pos \<Longrightarrow> pos \<le> snd (rle_ac input quant qscale k pos end_pos blk)
     \<and> snd (rle_ac input quant qscale k pos end_pos blk) \<le> end_pos"
proof (induction input quant qscale k pos end_pos blk rule: rle_ac.induct)
  case (1 input quant qscale k pos end_pos blk)
  note IH = "1.IH" [OF _ refl _ refl]
  from "1.prems" IH show ?case
    by (subst (1 2) rle_ac.simps) (auto simp: Let_def Suc_le_eq simp del: fun_upd_apply)
qed

lemma decode_rle_pure_bounds:
  assumes "pos < end_pos"
  shows "pos < snd (decode_rle_pure input scale quant pos end_pos)"
    and "snd (decode_rle_pure input scale quant pos end_pos) \<le> end_pos"
proof -
  obtain w p where skip: "rle_skip input (input pos) (Suc pos) end_pos = (w, p)"
    by fastforce
  with rle_skip_bounds [of "Suc pos" end_pos input "input pos"] assms
  have p: "Suc pos \<le> p" "p \<le> end_pos" by simp_all
  show "pos < snd (decode_rle_pure input scale quant pos end_pos)"
    "snd (decode_rle_pure input scale quant pos end_pos) \<le> end_pos"
    using p rle_ac_bounds [of p end_pos input quant "drop_bit 10 (ucast w) AND 0x3F" 0
        "(\<lambda>_. 0)(0 := dequant_dc w quant)"]
    by (simp_all add: decode_rle_pure_def skip Let_def split_beta)
qed

section \<open>Colour conversion and output\<close>

definition to_output_u8 :: "int \<Rightarrow> 'a mdec_st_scheme \<Rightarrow> u8" where
  "to_output_u8 value s =
     (let value = clamp_int value (-128) 127
      in if m_output_signed s \<noteq> 0 then word_of_int value else word_of_int (value + 128))"

definition rgb_to_555_chan :: "u8 \<Rightarrow> int" where
  "rgb_to_555_chan c =
     (let v = drop_bit 3 (uint c + 4) in if v > 0x1F then 0x1F else v)"

definition ycbcr_to_rgb :: "int \<Rightarrow> int \<Rightarrow> int \<Rightarrow> int \<times> int \<times> int" where
  "ycbcr_to_rgb y cr cb =
     (let r = mask9_clamp_s8 (y + drop_bit 8 (359 * cr + 0x80));
          g = mask9_clamp_s8 (y + drop_bit 8 (((- 88 * cb) AND NOT 0x1F) + ((- 183 * cr) AND NOT 0x07) + 0x80));
          b = mask9_clamp_s8 (y + drop_bit 8 (454 * cb + 0x80))
      in (r XOR 0x80, g XOR 0x80, b XOR 0x80))"

definition append_rgb_pixel :: "int \<Rightarrow> int \<Rightarrow> int \<Rightarrow> 'a mdec_st_scheme \<Rightarrow> 'a mdec_st_scheme" where
  "append_rgb_pixel y cr cb s =
     (let (ru, gu, bu) = ycbcr_to_rgb y cr cb
      in if m_output_depth s = 3
         then let packed = word_of_int (rgb_to_555_chan (word_of_int ru)
                             OR push_bit 5 (rgb_to_555_chan (word_of_int gu))
                             OR push_bit 10 (rgb_to_555_chan (word_of_int bu))) :: u16;
                  pixel_xor = (if m_output_bit15 s \<noteq> 0 then 0x8000 else 0)
                                OR (if m_output_signed s \<noteq> 0 then 0x4210 else 0);
                  packed = packed XOR pixel_xor
              in append_byte (ucast (drop_bit 8 packed)) (append_byte (ucast packed) s)
         else let rgb_xor = (if m_output_signed s \<noteq> 0 then 0x80 else 0x00) :: u8
              in append_byte (word_of_int bu XOR rgb_xor)
                   (append_byte (word_of_int gu XOR rgb_xor)
                     (append_byte (word_of_int ru XOR rgb_xor) s)))"

definition append_luma_block :: "block \<Rightarrow> 'a mdec_st_scheme \<Rightarrow> 'a mdec_st_scheme" where
  "append_luma_block yblk s = fold (\<lambda>i s. append_byte (to_output_u8 (sint (yblk i)) s) s) [0 ..< 64] s"

definition append_color_pixel ::
  "block \<Rightarrow> block \<Rightarrow> (nat \<Rightarrow> block) \<Rightarrow> nat \<Rightarrow> nat \<Rightarrow> 'a mdec_st_scheme \<Rightarrow> 'a mdec_st_scheme" where
  "append_color_pixel crblk cbblk yblk py px s =
     (let y_index = (if py \<ge> 8 then 2 else 0) + (if px \<ge> 8 then 1 else 0);
          lx = px mod 8;
          ly = py mod 8;
          chroma = px div 2 + py div 2 * 8
      in append_rgb_pixel (sint (yblk y_index (lx + ly * 8))) (sint (crblk chroma)) (sint (cbblk chroma)) s)"

definition append_color_macroblock ::
  "block \<Rightarrow> block \<Rightarrow> (nat \<Rightarrow> block) \<Rightarrow> 'a mdec_st_scheme \<Rightarrow> 'a mdec_st_scheme" where
  "append_color_macroblock crblk cbblk yblk s =
     fold (\<lambda>py. fold (append_color_pixel crblk cbblk yblk py) [0 ..< 16]) [0 ..< 16] s"

section \<open>Command execution\<close>

text \<open>The block decodes of one macroblock, in order: the first that finds no input names the
  stop reason.\<close>

fun decode_block_seq ::
  "((nat \<Rightarrow> u8) \<times> u32) list \<Rightarrow> nat \<Rightarrow> nat \<Rightarrow> 'a mdec_st_scheme \<Rightarrow> (u32 + block list) \<times> nat \<times> 'a mdec_st_scheme" where
  "decode_block_seq [] pos end_pos s = (Inr [], pos, s)"
| "decode_block_seq ((quant, reason) # qs) pos end_pos s =
     (let (ok, blk, pos1, s1) = decode_rle_block quant pos end_pos s
      in if \<not> ok then (Inl reason, pos1, s1)
         else case decode_block_seq qs pos1 end_pos s1 of
                (Inl e, pos2, s2) \<Rightarrow> (Inl e, pos2, s2)
              | (Inr blks, pos2, s2) \<Rightarrow> (Inr (blk # blks), pos2, s2))"

definition decode_color_blocks ::
  "nat \<Rightarrow> nat \<Rightarrow> 'a mdec_st_scheme \<Rightarrow> (u32 + block list) \<times> nat \<times> 'a mdec_st_scheme" where
  "decode_color_blocks pos end_pos s =
     decode_block_seq
       [(m_uv_quant s, MDEC_STOP_CR), (m_uv_quant s, MDEC_STOP_CB),
        (m_y_quant s, MDEC_STOP_Y0), (m_y_quant s, MDEC_STOP_Y1),
        (m_y_quant s, MDEC_STOP_Y2), (m_y_quant s, MDEC_STOP_Y3)] pos end_pos s"

lemma decode_rle_block_pos:
  "decode_rle_block quant pos end_pos s = (ok, blk, pos', s') \<Longrightarrow>
     pos \<le> pos' \<and> (ok \<longrightarrow> pos < pos') \<and> (pos \<le> end_pos \<longrightarrow> pos' \<le> end_pos) \<and> (ok \<longleftrightarrow> pos < end_pos)
     \<and> s' = (if ok then s\<lparr> m_decode_blocks := m_decode_blocks s + 1 \<rparr> else s)"
  using decode_rle_pure_bounds [of pos end_pos "m_input s" "m_scale s" quant]
  by (auto simp: decode_rle_block_def split: if_splits prod.splits)

lemma decode_block_seq_pos:
  "decode_block_seq qs pos end_pos s = (r, pos', s') \<Longrightarrow>
     pos \<le> pos' \<and> (pos \<le> end_pos \<longrightarrow> pos' \<le> end_pos) \<and> (\<exists>n. s' = s\<lparr> m_decode_blocks := n \<rparr>)
     \<and> (case r of Inl e \<Rightarrow> end_pos \<le> pos' \<and> e \<in> snd ` set qs
        | Inr blks \<Rightarrow> pos + length qs \<le> pos' \<and> length blks = length qs)"
proof (induction qs pos end_pos s arbitrary: r pos' s' rule: decode_block_seq.induct)
  case (1 pos end_pos s)
  then show ?case
    by (auto intro: exI [of _ "m_decode_blocks s"])
next
  case (2 quant reason qs pos end_pos s)
  obtain ok blk p1 s1 where d: "decode_rle_block quant pos end_pos s = (ok, blk, p1, s1)"
    by (metis surj_pair)
  obtain r2 p2 s2 where d2: "decode_block_seq qs p1 end_pos s1 = (r2, p2, s2)"
    by (metis surj_pair)
  note pos1 = decode_rle_block_pos [OF d]
  show ?case
  proof (cases ok)
    case True
    with "2.IH" [OF d [symmetric] refl refl refl _ d2]
    have ih: "p1 \<le> p2" "p1 \<le> end_pos \<longrightarrow> p2 \<le> end_pos" "\<exists>n. s2 = s1\<lparr> m_decode_blocks := n \<rparr>"
      "case r2 of Inl e \<Rightarrow> end_pos \<le> p2 \<and> e \<in> snd ` set qs
        | Inr blks \<Rightarrow> p1 + length qs \<le> p2 \<and> length blks = length qs"
      by auto
    from "2.prems" True d d2
    have res: "pos' = p2" "s' = s2" "r = (case r2 of Inl e \<Rightarrow> Inl e | Inr blks \<Rightarrow> Inr (blk # blks))"
      by (auto split: sum.splits)
    have "\<exists>n. s' = s\<lparr> m_decode_blocks := n \<rparr>"
      using ih(3) pos1 True res(2) by auto
    with ih pos1 True res show ?thesis
      by (auto split: sum.splits)
  next
    case False
    with "2.prems" pos1 d have res: "pos' = p1" "s' = s" "r = Inl reason" by simp_all
    have "\<exists>n. s' = s\<lparr> m_decode_blocks := n \<rparr>"
      unfolding res by (rule exI [of _ "m_decode_blocks s"]) simp
    with res pos1 False show ?thesis
      by simp
  qed
qed

lemma decode_color_blocks_pos:
  assumes "decode_color_blocks pos end_pos s = (r, pos', s')"
  shows "pos \<le> pos'" and "pos \<le> end_pos \<Longrightarrow> pos' \<le> end_pos" and "\<exists>n. s' = s\<lparr> m_decode_blocks := n \<rparr>"
    and "r = Inl e \<Longrightarrow> end_pos \<le> pos' \<and> e \<noteq> MDEC_STOP_NONE" and "r = Inr blks \<Longrightarrow> pos + 6 \<le> pos' \<and> length blks = 6"
  using decode_block_seq_pos [OF assms [unfolded decode_color_blocks_def]] by auto

function (sequential) luma_loop :: "nat \<Rightarrow> nat \<Rightarrow> 'a mdec_st_scheme \<Rightarrow> nat \<times> 'a mdec_st_scheme" where
  "luma_loop pos end_pos s =
     (if pos < end_pos
      then case decode_rle_block (m_y_quant s) pos end_pos s of
             (ok, yblk, pos1, s1) \<Rightarrow>
               (if ok
                then let s2 = append_luma_block yblk s1
                     in luma_loop pos1 end_pos (s2\<lparr> m_decode_macroblocks := m_decode_macroblocks s2 + 1 \<rparr>)
                else (pos1, s1))
      else (pos, s))"
  by pat_completeness auto
termination
  by (relation "measure (\<lambda>(pos, end_pos, s). end_pos - pos)") (auto dest!: decode_rle_block_pos [OF sym])

function (sequential) color_loop :: "nat \<Rightarrow> nat \<Rightarrow> 'a mdec_st_scheme \<Rightarrow> nat \<times> 'a mdec_st_scheme" where
  "color_loop pos end_pos s =
     (if pos < end_pos
      then case decode_color_blocks pos end_pos s of
             (Inl reason, pos1, s1) \<Rightarrow> (pos1, s1\<lparr> m_decode_stop_reason := reason \<rparr>)
           | (Inr blks, pos1, s1) \<Rightarrow>
               (let s2 = append_color_macroblock (blks ! 0) (blks ! 1) (\<lambda>i. blks ! (2 + i)) s1
                in color_loop pos1 end_pos (s2\<lparr> m_decode_macroblocks := m_decode_macroblocks s2 + 1 \<rparr>))
      else (pos, s))"
  by pat_completeness auto
termination
  by (relation "measure (\<lambda>(pos, end_pos, s). end_pos - pos)")
     (auto dest: decode_color_blocks_pos(5) [OF sym])

declare luma_loop.simps [simp del] color_loop.simps [simp del]

definition decode_prologue :: "'a mdec_st_scheme \<Rightarrow> 'a mdec_st_scheme" where
  "decode_prologue s =
     (clear_output (s\<lparr> g_mdec_decode_count := g_mdec_decode_count s + 1 \<rparr>))
       \<lparr> m_decode_macroblocks := 0, m_decode_blocks := 0, m_decode_stop_reason := MDEC_STOP_NONE,
         m_decode_input_pos := 0, m_decode_input_end := m_input_count s,
         m_dma_out_words := 0, m_dma_read_underflows := 0 \<rparr>"

definition execute_decode :: "'a mdec_st_scheme \<Rightarrow> 'a mdec_st_scheme" where
  "execute_decode s0 =
     (let end_pos = unat (m_input_count s0);
          s = decode_prologue s0
      in if m_output_depth s < 2
         then let (pos, s1) = luma_loop 0 end_pos s;
                  s2 = s1\<lparr> m_decode_stop_reason := (if pos \<ge> end_pos then MDEC_STOP_INPUT_END else MDEC_STOP_Y0),
                           m_decode_input_pos := of_nat pos \<rparr>
              in trace_event MDEC_EVT_DECODE_DONE (m_output_size s2) s2
         else let (pos, s1) = color_loop 0 end_pos s;
                  s2 = (if pos \<ge> end_pos \<and> m_decode_stop_reason s1 = MDEC_STOP_NONE
                        then s1\<lparr> m_decode_stop_reason := MDEC_STOP_INPUT_END \<rparr> else s1);
                  s3 = s2\<lparr> m_decode_input_pos := of_nat pos, mdec_last_color_decode_frame := s_frame_count s2 \<rparr>
              in trace_event MDEC_EVT_DECODE_DONE (m_output_size s3) s3)"

definition load_quant :: "'a mdec_st_scheme \<Rightarrow> 'a mdec_st_scheme" where
  "load_quant s =
     (let s1 = s\<lparr> m_y_quant := (\<lambda>i. if i < 64 then input_byte i s else m_y_quant s i) \<rparr>
      in if m_command s AND 1 \<noteq> 0
         then s1\<lparr> m_uv_quant := (\<lambda>i. if i < 64 then input_byte (64 + i) s else m_uv_quant s i) \<rparr>
         else s1\<lparr> m_uv_quant := m_y_quant s1 \<rparr>)"

definition scale_transpose :: "nat \<Rightarrow> nat" where
  "scale_transpose i = push_bit 3 (i AND 7) OR (drop_bit 3 i AND 7)"

definition load_scale :: "'a mdec_st_scheme \<Rightarrow> 'a mdec_st_scheme" where
  "load_scale s =
     fold (\<lambda>i s. s\<lparr> m_scale := (m_scale s)(scale_transpose i := signed_drop_bit 3 (m_input s i)) \<rparr>) [0 ..< 64] s"

definition execute_command :: "'a mdec_st_scheme \<Rightarrow> 'a mdec_st_scheme" where
  "execute_command s =
     (let cmd_op = drop_bit 29 (m_command s);
          s1 = (if cmd_op = MDEC_CMD_SET_QUANT then load_quant s
                else if cmd_op = MDEC_CMD_SET_SCALE then load_scale s
                else if cmd_op = MDEC_CMD_DECODE then execute_decode s
                else s)
      in finish_command s1)"

definition command_halfwords :: "u32 \<Rightarrow> u32" where
  "command_halfwords value =
     (let cmd_op = drop_bit 29 value
      in if cmd_op = MDEC_CMD_DECODE then (value AND 0xFFFF) * 2
         else if cmd_op = MDEC_CMD_SET_QUANT then (if value AND 1 \<noteq> 0 then 64 else 32)
         else if cmd_op = MDEC_CMD_SET_SCALE then 64
         else 0)"

definition begin_command :: "u32 \<Rightarrow> 'a mdec_st_scheme \<Rightarrow> 'a mdec_st_scheme" where
  "begin_command value s0 =
     (let s = s0\<lparr> m_command := value,
                 m_output_bit15 := ucast (drop_bit 25 value AND 1),
                 m_output_signed := ucast (drop_bit 26 value AND 1),
                 m_output_depth := ucast (drop_bit 27 value AND 3),
                 m_current_block := 4, m_input_count := 0, m_input_full := 0, m_busy := 1,
                 m_expected_halfwords := command_halfwords value \<rparr>
      in if m_expected_halfwords s = 0 then finish_command s
         else let (ok, s1) = ensure_input_capacity (m_expected_halfwords s) s
              in if \<not> ok then finish_command s1 else trace_event MDEC_EVT_CMD_BEGIN value s1)"

definition store_halfword :: "u16 \<Rightarrow> 'a mdec_st_scheme \<Rightarrow> 'a mdec_st_scheme" where
  "store_halfword hw s =
     s\<lparr> m_input := (m_input s)(unat (m_input_count s) := hw), m_input_count := m_input_count s + 1 \<rparr>"

definition write_data :: "u32 \<Rightarrow> 'a mdec_st_scheme \<Rightarrow> 'a mdec_st_scheme" where
  "write_data value s =
     (if m_busy s \<noteq> 0 \<and> m_input_count s < m_expected_halfwords s
      then let s1 = store_halfword (ucast value) s;
               s2 = (if m_input_count s1 < m_expected_halfwords s1
                     then store_halfword (ucast (drop_bit 16 value)) s1 else s1)
           in if m_input_count s2 \<ge> m_expected_halfwords s2 then execute_command s2 else s2
      else begin_command value s)"

section \<open>Registers, DMA port and debug interface\<close>

definition mdec_recently_active :: "u32 \<Rightarrow> 'a mdec_st_scheme \<Rightarrow> bool" where
  "mdec_recently_active within_frames s \<longleftrightarrow>
     s_frame_count s - mdec_last_color_decode_frame s \<le> ucast within_frames"

definition mdec_event_zero :: mdec_event where
  "mdec_event_zero =
     \<lparr> me_seq = 0, me_frame = 0, me_kind = 0, me_value = 0, me_command = 0, me_input_count = 0,
       me_expected_halfwords = 0, me_output_size = 0, me_output_pos = 0, me_macroblocks = 0, me_blocks = 0,
       me_stop_reason = 0, me_underruns = 0 \<rparr>"

definition mdec_init :: "'a mdec_st_scheme \<Rightarrow> 'a mdec_st_scheme" where
  "mdec_init s =
     (soft_reset s)\<lparr> m_input := (\<lambda>_. 0), m_input_cap := 0, m_output := (\<lambda>_. 0), m_output_cap := 0,
        m_y_quant := (\<lambda>_. 1), m_uv_quant := (\<lambda>_. 1), m_scale := (\<lambda>_. 0),
        mdec_trace := (\<lambda>_. mdec_event_zero),
        mdec_trace_seq := 0, mdec_trace_head := 0 \<rparr>"

definition mdec_dma_write_ready :: "'a mdec_st_scheme \<Rightarrow> bool" where
  "mdec_dma_write_ready s \<longleftrightarrow>
     (if m_output_pos s < m_output_size s then False
      else m_busy s = 0 \<or> m_input_count s < m_expected_halfwords s)"

definition mdec_dma_read_ready :: "'a mdec_st_scheme \<Rightarrow> bool" where
  "mdec_dma_read_ready s \<longleftrightarrow> m_output_pos s < m_output_size s"

definition read_out_byte :: "nat \<Rightarrow> u32 \<times> 'a mdec_st_scheme \<Rightarrow> u32 \<times> 'a mdec_st_scheme" where
  "read_out_byte i = (\<lambda>(value, s).
     if m_output_pos s < m_output_size s
     then (value OR push_bit (i * 8) (ucast (m_output s (unat (m_output_pos s)))),
           s\<lparr> m_output_pos := m_output_pos s + 1 \<rparr>)
     else (value, s))"

definition note_underflow :: "u32 \<Rightarrow> 'a mdec_st_scheme \<Rightarrow> 'a mdec_st_scheme" where
  "note_underflow start_pos s =
     (if start_pos \<ge> m_output_size s
      then let s1 = s\<lparr> m_dma_read_underflows := m_dma_read_underflows s + 1 \<rparr>
           in if m_dma_read_underflows s1 = 1
              then trace_event MDEC_EVT_READ_UNDERFLOW (m_dma_out_words s1) s1 else s1
      else s)"

definition mdec_dma_read_word :: "'a mdec_st_scheme \<Rightarrow> u32 \<times> 'a mdec_st_scheme" where
  "mdec_dma_read_word s =
     (let (value, s1) = fold read_out_byte [0 ..< 4] (0, s);
          s2 = note_underflow (m_output_pos s) (s1\<lparr> m_dma_out_words := m_dma_out_words s1 + 1 \<rparr>);
          s3 = (if m_output_pos s2 \<ge> m_output_size s2
                then clear_output (trace_event MDEC_EVT_OUTPUT_DRAINED (m_output_size s2) s2) else s2)
      in (value, s3))"

definition mdec_dma_write_word :: "u32 \<Rightarrow> 'a mdec_st_scheme \<Rightarrow> 'a mdec_st_scheme" where
  "mdec_dma_write_word value s = write_data value s"

definition mdec_remaining_words :: "'a mdec_st_scheme \<Rightarrow> u32" where
  "mdec_remaining_words s =
     (if m_busy s \<noteq> 0 \<and> m_expected_halfwords s > m_input_count s
      then (m_expected_halfwords s - m_input_count s + 1) div 2 else 0)"

definition mdec_status :: "'a mdec_st_scheme \<Rightarrow> u32" where
  "mdec_status s =
     (if mdec_remaining_words s \<noteq> 0 then (mdec_remaining_words s - 1) AND 0xFFFF else 0xFFFF)
     OR push_bit 16 (ucast (m_current_block s) AND 7)
     OR push_bit 23 (ucast (m_output_bit15 s) AND 1)
     OR push_bit 24 (ucast (m_output_signed s) AND 1)
     OR push_bit 25 (ucast (m_output_depth s) AND 3)
     OR (if \<not> mdec_dma_write_ready s then push_bit 30 1 else 0)
     OR (if m_enable_dma_out s \<noteq> 0 \<and> mdec_dma_read_ready s then push_bit 27 1 else 0)
     OR (if m_enable_dma_in s \<noteq> 0 \<and> mdec_dma_write_ready s then push_bit 28 1 else 0)
     OR (if m_busy s \<noteq> 0 then push_bit 29 1 else 0)
     OR (if m_output_pos s \<ge> m_output_size s then push_bit 31 1 else 0)"

definition mdec_read :: "u32 \<Rightarrow> 'a mdec_st_scheme \<Rightarrow> u32 \<times> 'a mdec_st_scheme" where
  "mdec_read addr s =
     (if addr AND 7 = 0 then mdec_dma_read_word s
      else (mdec_status s, s\<lparr> m_last_status := mdec_status s \<rparr>))"

definition mdec_write :: "u32 \<Rightarrow> u32 \<Rightarrow> 'a mdec_st_scheme \<Rightarrow> 'a mdec_st_scheme" where
  "mdec_write addr value s =
     (if addr AND 7 = 0 then write_data value s
      else let s1 = (if value AND 0x80000000 \<noteq> 0 then trace_event MDEC_EVT_RESET value (soft_reset s) else s)
           in trace_event MDEC_EVT_CTRL_WRITE value
                (s1\<lparr> m_enable_dma_in := ucast (drop_bit 30 value AND 1),
                     m_enable_dma_out := ucast (drop_bit 29 value AND 1) \<rparr>))"

text \<open>\<open>uint64_t\<close> sequence bounds are clipped to the retained window; the copy stops at
  \<open>max_count\<close>.\<close>

definition mdec_debug_copy_events :: "u64 \<Rightarrow> u64 \<Rightarrow> nat \<Rightarrow> 'a mdec_st_scheme \<Rightarrow> mdec_event list" where
  "mdec_debug_copy_events seq_lo seq_hi max_count s =
     (let oldest = (if mdec_trace_seq s > 4096 then mdec_trace_seq s - 4096 else 0);
          lo = (if seq_lo < oldest then oldest else seq_lo);
          hi = (if seq_hi > mdec_trace_seq s then mdec_trace_seq s else seq_hi)
      in map (\<lambda>q. mdec_trace s (q mod MDEC_TRACE_CAP)) (take max_count [unat lo ..< unat hi]))"

definition mdec_debug_clear :: "'a mdec_st_scheme \<Rightarrow> 'a mdec_st_scheme" where
  "mdec_debug_clear s = s\<lparr> mdec_trace := mdec_trace (mdec_init s), mdec_trace_seq := 0, mdec_trace_head := 0 \<rparr>"

definition mdec_debug_dma_in_start :: "u32 \<Rightarrow> 'a mdec_st_scheme \<Rightarrow> 'a mdec_st_scheme" where
  "mdec_debug_dma_in_start words = trace_event MDEC_EVT_DMA_IN_START words"

definition mdec_debug_dma_in_end :: "u32 \<Rightarrow> 'a mdec_st_scheme \<Rightarrow> 'a mdec_st_scheme" where
  "mdec_debug_dma_in_end words s =
     trace_event MDEC_EVT_DMA_IN_END words (s\<lparr> m_dma_in_words := m_dma_in_words s + words \<rparr>)"

definition mdec_debug_dma_out_start :: "u32 \<Rightarrow> 'a mdec_st_scheme \<Rightarrow> 'a mdec_st_scheme" where
  "mdec_debug_dma_out_start words = trace_event MDEC_EVT_DMA_OUT_START words"

definition mdec_debug_dma_out_end :: "u32 \<Rightarrow> 'a mdec_st_scheme \<Rightarrow> 'a mdec_st_scheme" where
  "mdec_debug_dma_out_end words = trace_event MDEC_EVT_DMA_OUT_END words"

end
