(* ===== verification/Memory_Props.thy ===== *)
theory Memory_Props
  imports Psx_Memory
begin

text \<open>
  Properties of the memory system: main RAM behaves as one array of words under every alias of
  an address; the kernel bless table only ever approves code that still equals its ROM source;
  the text guard flags every page whose bytes left the compiled image; the overlay generation
  sum moves on every store to a watched page.
\<close>

section \<open>Words in a byte array\<close>

lemma word_at_put_word [simp]: "word_at (put_word m a v) a = v"
proof (rule bit_word_eqI)
  fix n assume "n < LENGTH(32)"
  then consider "n < 8" | "8 \<le> n" "n < 16" | "16 \<le> n" "n < 24" | "24 \<le> n" "n < 32"
    by fastforce
  then show "bit (word_at (put_word m a v) a) n = bit v n"
    by cases (auto simp: word_at_def put_word_def bit_simps)
qed

lemma put_word_other: "b < a \<or> a + 4 \<le> b \<Longrightarrow> put_word m a v b = m b"
  by (auto simp: put_word_def)

lemma word_at_put_word_other: "b + 4 \<le> a \<or> a + 4 \<le> b \<Longrightarrow> word_at (put_word m a v) b = word_at m b"
proof -
  assume "b + 4 \<le> a \<or> a + 4 \<le> b"
  then have "put_word m a v (b + k) = m (b + k)" if "k < 4" for k
    using that by (intro put_word_other) auto
  from this [of 0] this [of 1] this [of 2] this [of 3] show ?thesis
    by (simp add: word_at_def)
qed

lemma put_word_nth: "i < 4 \<Longrightarrow> put_word m a v (a + i) = le_bytes v ! i"
  by (auto simp: put_word_def le_bytes_def numeral_eq_Suc less_Suc_eq)

section \<open>Bitmaps\<close>

lemma page_bit_iff: "page_bit bm p \<longleftrightarrow> bit (bm (p div 32)) (p mod 32)"
  by (simp add: page_bit_def and_power_two_zero_iff)

lemma page_bit_set [simp]: "page_bit (page_set p bm) q \<longleftrightarrow> p = q \<or> page_bit bm q"
proof (cases "p = q")
  case True
  then show ?thesis by (simp add: page_bit_iff page_set_def bit_simps)
next
  case False
  then have "p div 32 \<noteq> q div 32 \<or> p mod 32 \<noteq> q mod 32"
    by (metis div_mult_mod_eq)
  moreover have "p mod 32 < 32" "q mod 32 < 32" by simp_all
  ultimately show ?thesis
    using False by (cases "p div 32 = q div 32") (simp_all add: page_bit_iff page_set_def bit_simps)
qed

lemma page_bit_clear [simp]: "page_bit (page_clear p bm) q \<longleftrightarrow> p \<noteq> q \<and> page_bit bm q"
proof (cases "p = q")
  case True
  then show ?thesis by (simp add: page_bit_iff page_clear_def bit_simps)
next
  case False
  then have "p div 32 \<noteq> q div 32 \<or> p mod 32 \<noteq> q mod 32"
    by (metis div_mult_mod_eq)
  moreover have "p mod 32 < 32" "q mod 32 < 32" by simp_all
  ultimately show ?thesis
    using False by (cases "p div 32 = q div 32") (simp_all add: page_bit_iff page_clear_def bit_simps)
qed

lemma page_of_div: "page_of phys = unat phys div 4096"
  by (simp add: page_of_def drop_bit_eq_div unat_div)

section \<open>What a store leaves alone\<close>

lemma kbless_drop_frame [simp]:
  "ram (kbless_drop i s) = ram s" "bios_rom (kbless_drop i s) = bios_rom s"
  "psx_bios_kernel_bodies (kbless_drop i s) = psx_bios_kernel_bodies s" "kbless_enabled (kbless_drop i s) = kbless_enabled s"
  "text_ref_image (kbless_drop i s) = text_ref_image s" "text_ref_lo (kbless_drop i s) = text_ref_lo s"
  "text_ref_hi (kbless_drop i s) = text_ref_hi s" "text_modified_bitmap (kbless_drop i s) = text_modified_bitmap s"
  "overlay_watch_bitmap (kbless_drop i s) = overlay_watch_bitmap s" "overlay_page_gen (kbless_drop i s) = overlay_page_gen s"
  "scratchpad (kbless_drop i s) = scratchpad s" "sr_ref (kbless_drop i s) = sr_ref s"
  "fntrace_game_started (kbless_drop i s) = fntrace_game_started s" "mem_st.more (kbless_drop i s) = mem_st.more s"
  "g_debug_last_store_pc (kbless_drop i s) = g_debug_last_store_pc s" "text_image_active (kbless_drop i s) = text_image_active s"
  "i_stat (kbless_drop i s) = i_stat s" "i_mask (kbless_drop i s) = i_mask s" "dev_armed (kbless_drop i s) = dev_armed s"
  by (simp_all add: kbless_drop_def)

text \<open>A field that every single invalidation keeps is kept by the write note.\<close>

lemma fold_kbless_keeps:
  assumes "\<And>i s. f (kbless_drop i s) = f s"
  shows "f (fold (\<lambda>i s. let b = psx_bios_kernel_bodies s ! i
           in if phys \<ge> kb_lo b \<and> phys < kb_hi b then kbless_drop i s else s) xs s) = f s"
    and "f (fold kbless_drop xs s) = f s"
proof -
  show "f (fold (\<lambda>i s. let b = psx_bios_kernel_bodies s ! i
           in if phys \<ge> kb_lo b \<and> phys < kb_hi b then kbless_drop i s else s) xs s) = f s"
    by (induction xs arbitrary: s) (simp_all add: assms Let_def)
  show "f (fold kbless_drop xs s) = f s"
    by (induction xs arbitrary: s) (simp_all add: assms)
qed

lemma note_ram_store_keeps:
  fixes s :: "'a mem_st_scheme" and f :: "'a mem_st_scheme \<Rightarrow> 'b"
  assumes "\<And>i s. f (kbless_drop i s) = f s" and "\<And>n s. f (s\<lparr> g_dirty_ram_code_gen := n \<rparr>) = f s"
    and "\<And>b s. f (s\<lparr> dirty_ram_bitmap := b \<rparr>) = f s" and "\<And>b s. f (s\<lparr> text_modified_bitmap := b \<rparr>) = f s"
    and "\<And>g s. f (s\<lparr> overlay_page_gen := g \<rparr>) = f s"
  shows "f (note_ram_store phys val sz s) = f s"
proof -
  have "f (kbless_note_write phys t) = f t" for t
    by (simp add: kbless_note_write_def fold_kbless_keeps(1) [OF assms(1), unfolded Let_def] Let_def)
  moreover have "f (dirty_ram_mark_page phys t) = f t" for t
    by (simp add: dirty_ram_mark_page_def assms(2,3) Let_def)
  ultimately have kernel: "f (dirty_ram_mark_kernel_write phys t) = f t" for t
    by (simp add: dirty_ram_mark_kernel_write_def)
  have guard: "f (text_guard_note_write phys val sz t) = f t" for t
    by (simp add: text_guard_note_write_def assms(4) Let_def split: option.split)
  have "f (overlay_watch_note_write phys t) = f t" for t
    by (simp add: overlay_watch_note_write_def assms(5) Let_def)
  with kernel guard show ?thesis by (simp add: note_ram_store_def)
qed

lemma note_ram_store_frame [simp]:
  "ram (note_ram_store phys val sz s) = ram s" "bios_rom (note_ram_store phys val sz s) = bios_rom s"
  "psx_bios_kernel_bodies (note_ram_store phys val sz s) = psx_bios_kernel_bodies s"
  "kbless_enabled (note_ram_store phys val sz s) = kbless_enabled s"
  "text_ref_image (note_ram_store phys val sz s) = text_ref_image s" "text_ref_lo (note_ram_store phys val sz s) = text_ref_lo s"
  "text_ref_hi (note_ram_store phys val sz s) = text_ref_hi s" "overlay_watch_bitmap (note_ram_store phys val sz s) = overlay_watch_bitmap s"
  "scratchpad (note_ram_store phys val sz s) = scratchpad s" "sr_ref (note_ram_store phys val sz s) = sr_ref s"
  "fntrace_game_started (note_ram_store phys val sz s) = fntrace_game_started s"
  "mem_st.more (note_ram_store phys val sz s) = mem_st.more s"
  "g_debug_last_store_pc (note_ram_store phys val sz s) = g_debug_last_store_pc s"
  "text_image_active (note_ram_store phys val sz s) = text_image_active s"
  "i_stat (note_ram_store phys val sz s) = i_stat s" "i_mask (note_ram_store phys val sz s) = i_mask s"
  "dev_armed (note_ram_store phys val sz s) = dev_armed s"
  by (rule note_ram_store_keeps; simp)+

lemma d44_note_frame [simp]:
  "ram (d44_note phys old val s) = ram s" "bios_rom (d44_note phys old val s) = bios_rom s"
  "psx_bios_kernel_bodies (d44_note phys old val s) = psx_bios_kernel_bodies s"
  "kbless_enabled (d44_note phys old val s) = kbless_enabled s" "kbless_state (d44_note phys old val s) = kbless_state s"
  "text_ref_image (d44_note phys old val s) = text_ref_image s" "text_ref_lo (d44_note phys old val s) = text_ref_lo s"
  "text_ref_hi (d44_note phys old val s) = text_ref_hi s" "text_modified_bitmap (d44_note phys old val s) = text_modified_bitmap s"
  "overlay_watch_bitmap (d44_note phys old val s) = overlay_watch_bitmap s"
  "overlay_page_gen (d44_note phys old val s) = overlay_page_gen s" "text_image_active (d44_note phys old val s) = text_image_active s"
  "sr_ref (d44_note phys old val s) = sr_ref s" "fntrace_game_started (d44_note phys old val s) = fntrace_game_started s"
  "mem_st.more (d44_note phys old val s) = mem_st.more s"
  "g_debug_last_store_pc (d44_note phys old val s) = g_debug_last_store_pc s"
  "i_stat (d44_note phys old val s) = i_stat s" "i_mask (d44_note phys old val s) = i_mask s"
  "dev_armed (d44_note phys old val s) = dev_armed s" "scratchpad (d44_note phys old val s) = scratchpad s"
  by (simp_all add: d44_note_def)

section \<open>RAM under aliases\<close>

text \<open>A store is visible when the data cache is not isolated and none of the BIOS quirk filters
  drops it.\<close>

definition store_visible :: "u32 \<Rightarrow> u32 \<Rightarrow> 'a mem_st_scheme \<Rightarrow> bool" where
  "store_visible addr val s \<longleftrightarrow>
     \<not> store_isolated s \<and> \<not> low_store_dropped (psx_phys_addr addr) s \<and> \<not> card_event_store_dropped (psx_phys_addr addr) val s"

definition main_ram :: "u32 \<Rightarrow> bool" where
  "main_ram addr \<longleftrightarrow> addr < 0xC0000000 \<and> psx_phys_addr addr < RAM_SIZE"

lemma main_ram_region: "main_ram addr \<Longrightarrow> region_of (psx_phys_addr addr) = R_ram"
  by (simp add: main_ram_def region_of_def)

lemma read_word_main_ram: "main_ram addr \<Longrightarrow> psx_read_word_raw M addr s = (word_at (ram s) (unat (psx_phys_addr addr)), s)"
  by (auto simp: psx_read_word_raw_def main_ram_region Let_def main_ram_def)

lemma write_word_main_ram:
  assumes "main_ram addr"
  shows "psx_write_word_raw M addr val s =
     (let s1 = s\<lparr> g_guest_store_count := g_guest_store_count s + 1 \<rparr>
      in if store_isolated s \<or> low_store_dropped (psx_phys_addr addr) s then s1
         else store_ram_word (psx_phys_addr addr) val s1)"
proof -
  have "addr \<noteq> 0xFFFE0130" "\<not> addr \<ge> 0xC0000000" using assms by (auto simp: main_ram_def)
  moreover have "store_isolated (s\<lparr> g_guest_store_count := n \<rparr>) = store_isolated s"
    "low_store_dropped p (s\<lparr> g_guest_store_count := n \<rparr>) = low_store_dropped p s" for n p
    by (simp_all add: store_isolated_def low_store_dropped_def)
  ultimately show ?thesis
    by (simp add: psx_write_word_raw_def main_ram_region [OF assms] Let_def)
qed

lemma card_event_count [simp]:
  "card_event_store_dropped p v (s\<lparr> g_guest_store_count := n \<rparr>) = card_event_store_dropped p v s"
  by (simp add: card_event_store_dropped_def read_ram_word_def)

lemma ram_write_word_main_ram:
  assumes "main_ram addr"
  shows "ram (psx_write_word_raw M addr val s) =
     (if store_visible addr val s then put_word (ram s) (unat (psx_phys_addr addr)) val else ram s)"
  by (simp add: write_word_main_ram [OF assms] store_visible_def store_ram_word_def Let_def)

text \<open>The window of main RAM in address numbers: the first 8 MB of the 512 MB segments below
  \<open>0xC0000000\<close>, which hold the 2 MB of RAM four times over.\<close>

definition ram_window :: "u32 \<Rightarrow> bool" where
  "ram_window a \<longleftrightarrow> unat a < 0xC0000000 \<and> unat a mod 2 ^ 29 < 2 ^ 23"

lemma unat_and_low: "unat (a AND 0x1FFFFFFF) = unat (a :: u32) mod 2 ^ 29" "unat (a AND 0x1FFFFF) = unat a mod 2 ^ 21"
  using unat_and_mask [of a 29] unat_and_mask [of a 21] by (simp_all add: mask_eq_exp_minus_1)

lemma ram_window_phys:
  assumes "ram_window a"
  shows "unat (psx_phys_addr a) = unat a mod 2 ^ 21" "main_ram a"
proof -
  have "unat (psx_phys_addr a) = unat a mod 2 ^ 29 mod 2 ^ 21"
    using assms by (simp add: psx_phys_addr_def psx_main_ram_mirror_phys_def ram_window_def word_less_nat_alt unat_and_low Let_def)
  then show p: "unat (psx_phys_addr a) = unat a mod 2 ^ 21"
    by (simp add: mod_mod_cancel)
  show "main_ram a"
    using assms p by (simp add: main_ram_def ram_window_def word_less_nat_alt)
qed

text \<open>C29. Main RAM is one array of 2 MB seen through many addresses. For any two word-aligned addresses in
  the window of main RAM (the first 8 MB of any segment below \<open>0xC0000000\<close>), a word store that neither the
  isolated cache nor one of the BIOS filters drops is read back through exactly those addresses that equal
  it modulo 2 MB; every other word, and every word when the store is dropped, keeps its value.\<close>

theorem ram_read_after_write:
  assumes "ram_window a" and "ram_window b" and "unat a mod 4 = 0" and "unat b mod 4 = 0"
  shows "fst (psx_read_word_raw M b (psx_write_word_raw M a val s)) =
     (if store_visible a val s \<and> unat b mod 2 ^ 21 = unat a mod 2 ^ 21 then val else fst (psx_read_word_raw M b s))"
proof -
  note p = ram_window_phys [OF assms(1)] ram_window_phys [OF assms(2)]
  have apart: "i mod 4 = 0 \<Longrightarrow> j mod 4 = 0 \<Longrightarrow> i \<noteq> j \<Longrightarrow> i + 4 \<le> j \<or> j + 4 \<le> i" for i j :: nat
    by presburger
  have "unat (psx_phys_addr b) + 4 \<le> unat (psx_phys_addr a) \<or> unat (psx_phys_addr a) + 4 \<le> unat (psx_phys_addr b)"
    if "unat b mod 2 ^ 21 \<noteq> unat a mod 2 ^ 21"
  proof -
    have "unat a mod 2 ^ 21 mod 4 = 0" "unat b mod 2 ^ 21 mod 4 = 0"
      using assms(3,4) by (simp_all add: mod_mod_cancel)
    from apart [OF this(2) this(1) that] show ?thesis unfolding p(1,3) .
  qed
  then show ?thesis
    using p by (auto simp: read_word_main_ram ram_write_word_main_ram word_at_put_word_other)
qed

section \<open>The kernel bless table is sound\<close>

text \<open>Bodies are word-aligned extents inside the kernel window.\<close>

definition body_ok :: "kernel_body \<Rightarrow> bool" where
  "body_ok b \<longleftrightarrow> unat (kb_lo b) mod 4 = 0 \<and> unat (kb_hi b) mod 4 = 0 \<and>
     KBLESS_RAM_LO \<le> kb_lo b \<and> kb_lo b \<le> kb_hi b \<and> kb_hi b \<le> KBLESS_RAM_HI"

definition kbless_inv :: "'a mem_st_scheme \<Rightarrow> bool" where
  "kbless_inv s \<longleftrightarrow>
     (\<forall>b \<in> set (psx_bios_kernel_bodies s). body_ok b) \<and>
     (kbless_enabled s > 0 \<longrightarrow> length (psx_bios_kernel_bodies s) \<le> KBLESS_MAX_ENTRIES) \<and>
     (kbless_enabled s \<noteq> 0 \<and> length (psx_bios_kernel_bodies s) \<le> KBLESS_MAX_ENTRIES \<longrightarrow>
        (\<forall>i < length (psx_bios_kernel_bodies s).
           kbless_state s i = KBLESS_CLEAN \<longrightarrow> body_matches_rom (psx_bios_kernel_bodies s ! i) s))"

abbreviation in_body :: "u32 \<Rightarrow> kernel_body \<Rightarrow> bool" where
  "in_body phys b \<equiv> kb_lo b \<le> phys \<and> phys < kb_hi b"

lemma kbless_state_drop: "kbless_state (kbless_drop i s) j = (if i = j then KBLESS_UNKNOWN else kbless_state s j)"
  by (auto simp: kbless_drop_def)

lemma kbless_state_fold:
  "kbless_state (fold (\<lambda>i s. let b = psx_bios_kernel_bodies s ! i in if in_body phys b then kbless_drop i s else s) xs s) j =
     (if j \<in> set xs \<and> in_body phys (psx_bios_kernel_bodies s ! j) then KBLESS_UNKNOWN else kbless_state s j)"
  by (induction xs arbitrary: s) (auto simp: kbless_state_drop Let_def)

lemma in_kernel_window_iff: "in_kernel_window phys \<longleftrightarrow> KBLESS_RAM_LO \<le> phys \<and> phys < KBLESS_RAM_HI"
proof -
  have "phys - 0x500 < 0x8000 \<longleftrightarrow> 0x500 \<le> phys \<and> phys < 0x8500"
  proof (cases "0x500 \<le> phys")
    case True
    then show ?thesis by (simp add: word_less_nat_alt unat_sub_le) (auto simp: word_le_nat_alt)
  next
    case False
    then have "unat phys < 0x500" by (simp add: word_le_nat_alt)
    then have "unat (phys - 0x500) = unat phys + 4294966016" by (simp add: unat_sub_u32)
    with False show ?thesis by (simp add: word_less_nat_alt)
  qed
  then show ?thesis by (simp add: in_kernel_window_def)
qed

text \<open>After a RAM store's bookkeeping no body that contains the stored address is trusted.\<close>

lemma note_ram_store_kbless:
  assumes "\<forall>b \<in> set (psx_bios_kernel_bodies s). body_ok b" and "kbless_enabled s \<noteq> 0"
    and "length (psx_bios_kernel_bodies s) \<le> KBLESS_MAX_ENTRIES" and i: "i < length (psx_bios_kernel_bodies s)"
  shows "kbless_state (note_ram_store phys val sz s) i =
     (if in_body phys (psx_bios_kernel_bodies s ! i) then KBLESS_UNKNOWN else kbless_state s i)"
proof -
  let ?p = "dirty_ram_mark_page phys s"
  have p: "psx_bios_kernel_bodies ?p = psx_bios_kernel_bodies s" "kbless_enabled ?p = kbless_enabled s" "kbless_state ?p = kbless_state s"
    by (simp_all add: dirty_ram_mark_page_def Let_def)
  have "body_ok (psx_bios_kernel_bodies s ! i)" using assms(1) i by auto
  then have win: "in_body phys (psx_bios_kernel_bodies s ! i) \<Longrightarrow> in_kernel_window phys \<and> phys < 0x10000"
    by (auto simp: body_ok_def in_kernel_window_iff word_le_nat_alt word_less_nat_alt)
  have n: "kbless_state (kbless_note_write phys ?p) i =
      (if in_body phys (psx_bios_kernel_bodies s ! i) then KBLESS_UNKNOWN else kbless_state s i)"
    using win assms i kbless_state_fold [of phys "[0 ..< length (psx_bios_kernel_bodies s)]" ?p i]
    by (auto simp: kbless_note_write_def p Let_def)
  have "kbless_state (dirty_ram_mark_kernel_write phys s) i =
      (if in_body phys (psx_bios_kernel_bodies s ! i) then KBLESS_UNKNOWN else kbless_state s i)"
    using n win by (auto simp: dirty_ram_mark_kernel_write_def)
  then show ?thesis
    by (simp add: note_ram_store_def overlay_watch_note_write_def text_guard_note_write_def Let_def split: option.split)
qed

lemma body_matches_frame:
  assumes ok: "body_ok b" and out: "\<not> in_body phys b" and al: "unat phys mod sz = 0" and sz: "sz dvd 4" "0 < sz"
    and ram: "\<And>j. j < unat phys \<or> unat phys + sz \<le> j \<Longrightarrow> ram s' j = ram s j" and rom: "bios_rom s' = bios_rom s"
    and m: "body_matches_rom b s"
  shows "body_matches_rom b s'"
proof -
  have sub: "unat (kb_hi b - kb_lo b) = unat (kb_hi b) - unat (kb_lo b)"
    using ok by (intro unat_sub_le) (simp add: body_ok_def)
  have ram': "ram s' (unat (kb_lo b) + i) = ram s (unat (kb_lo b) + i)" if "i < unat (kb_hi b - kb_lo b)" for i
  proof (rule ram)
    have d: "sz dvd unat (kb_lo b)" "sz dvd unat phys"
      using ok al dvd_trans [OF sz(1), of "unat (kb_lo b)"] by (simp_all add: body_ok_def dvd_eq_mod_eq_0)
    have "unat phys < unat (kb_lo b) \<or> unat (kb_hi b) \<le> unat phys"
      using out by (auto simp: word_le_nat_alt word_less_nat_alt)
    then show "unat (kb_lo b) + i < unat phys \<or> unat phys + sz \<le> unat (kb_lo b) + i"
    proof
      assume "unat phys < unat (kb_lo b)"
      with d have "unat phys + sz \<le> unat (kb_lo b)"
        by (metis dvd_diff_nat dvd_imp_le le_add_diff_inverse less_imp_le nat_add_left_cancel_le zero_less_diff)
      then show ?thesis by simp
    qed (use that sub in linarith)
  qed
  with m show ?thesis
    by (simp add: body_matches_rom_def rom)
qed

lemma kbless_inv_store:
  assumes inv: "kbless_inv s" and al: "unat phys mod sz = 0" and sz: "sz dvd 4" "0 < sz"
    and s': "kbless_state s' = kbless_state (note_ram_store phys val sz s)" "bios_rom s' = bios_rom s"
      "psx_bios_kernel_bodies s' = psx_bios_kernel_bodies s" "kbless_enabled s' = kbless_enabled s"
    and ram: "\<And>j. j < unat phys \<or> unat phys + sz \<le> j \<Longrightarrow> ram s' j = ram s j"
  shows "kbless_inv s'"
proof -
  have "body_matches_rom (psx_bios_kernel_bodies s ! i) s'"
    if "kbless_enabled s \<noteq> 0" "length (psx_bios_kernel_bodies s) \<le> KBLESS_MAX_ENTRIES"
      "i < length (psx_bios_kernel_bodies s)" "kbless_state s' i = KBLESS_CLEAN" for i
  proof (rule body_matches_frame [OF _ _ al sz ram s'(2)])
    show "body_ok (psx_bios_kernel_bodies s ! i)" using inv that by (simp add: kbless_inv_def)
    have "kbless_state s' i = (if in_body phys (psx_bios_kernel_bodies s ! i) then KBLESS_UNKNOWN else kbless_state s i)"
      using inv that unfolding s'(1) by (intro note_ram_store_kbless) (simp_all add: kbless_inv_def)
    then have "\<not> in_body phys (psx_bios_kernel_bodies s ! i) \<and> kbless_state s i = KBLESS_CLEAN"
      using that(4) by (auto split: if_splits)
    then show "\<not> in_body phys (psx_bios_kernel_bodies s ! i)" "body_matches_rom (psx_bios_kernel_bodies s ! i) s"
      using inv that by (simp_all add: kbless_inv_def)
  qed
  with inv s' show ?thesis by (simp add: kbless_inv_def)
qed

datatype mem_op = Store_word u32 u32 | Store_half u32 u16 | Store_byte u32 u8 | Code_range u32 u32 | Bless_query u32

primrec mem_exec :: "('a mem_st_scheme) mmio_ops \<Rightarrow> mem_op \<Rightarrow> 'a mem_st_scheme \<Rightarrow> 'a mem_st_scheme" where
  "mem_exec M (Store_word a v) s = psx_write_word_raw M a v s"
| "mem_exec M (Store_half a v) s = psx_write_half_raw M a v s"
| "mem_exec M (Store_byte a v) s = psx_write_byte_raw M a v s"
| "mem_exec M (Code_range p n) s = dirty_ram_mark_executable_range p n s"
| "mem_exec M (Bless_query p) s = snd (psx_kernel_bless_dispatchable p s)"

text \<open>Aligned stores to main RAM: the accesses the CPU and the DMA controller make there.\<close>

primrec mem_op_ok :: "mem_op \<Rightarrow> bool" where
  "mem_op_ok (Store_word a v) \<longleftrightarrow> main_ram a \<and> a AND 3 = 0"
| "mem_op_ok (Store_half a v) \<longleftrightarrow> main_ram a \<and> a AND 1 = 0"
| "mem_op_ok (Store_byte a v) \<longleftrightarrow> main_ram a"
| "mem_op_ok (Code_range p n) \<longleftrightarrow> True"
| "mem_op_ok (Bless_query p) \<longleftrightarrow> True"

lemma phys_and_low: "psx_phys_addr x AND 3 = x AND 3" "psx_phys_addr x AND 1 = x AND 1"
  by (simp_all add: psx_phys_addr_def psx_main_ram_mirror_phys_def Let_def and.assoc)

lemma unat_and_1: "unat (x :: u32) mod 2 = unat (x AND 1)"
  using unat_and_mask [of x 1] by (simp add: mask_eq_exp_minus_1)

lemma kbless_inv_cong:
  assumes "kbless_inv s" "kbless_state s' = kbless_state s" "ram s' = ram s" "bios_rom s' = bios_rom s"
    "psx_bios_kernel_bodies s' = psx_bios_kernel_bodies s" "kbless_enabled s' = kbless_enabled s"
  shows "kbless_inv s'"
  using assms by (simp add: kbless_inv_def body_matches_rom_def)

lemma kbless_inv_count: "kbless_inv s \<Longrightarrow> kbless_inv (s\<lparr> g_guest_store_count := n \<rparr>)"
  by (erule kbless_inv_cong) simp_all

lemma kbless_inv_d44: "kbless_inv s \<Longrightarrow> kbless_inv (d44_note phys old val s)"
  by (erule kbless_inv_cong) simp_all

lemma kbless_inv_write_word:
  assumes "kbless_inv s" "main_ram a" "a AND 3 = 0"
  shows "kbless_inv (psx_write_word_raw M a v s)"
proof -
  let ?p = "psx_phys_addr a" and ?c = "s\<lparr> g_guest_store_count := g_guest_store_count s + 1 \<rparr>"
  let ?d = "d44_note ?p (read_ram_word ?p ?c) v ?c"
  have al: "unat ?p mod 4 = 0" using assms(3) unat_and_3 [of ?p] by (simp add: phys_and_low)
  have "kbless_inv (store_ram_word ?p v ?c)"
  proof (cases "card_event_store_dropped ?p v ?c")
    case True
    then show ?thesis using kbless_inv_count [OF assms(1)] by (simp add: store_ram_word_def)
  next
    case False
    have "kbless_inv ?d" by (intro kbless_inv_d44 kbless_inv_count assms)
    then have "kbless_inv (note_ram_store ?p v 4 ?d\<lparr> ram := put_word (ram (note_ram_store ?p v 4 ?d)) (unat ?p) v \<rparr>)"
      by (rule kbless_inv_store [OF _ al, where val = v]) (auto simp: put_word_other)
    with False show ?thesis by (simp add: store_ram_word_def Let_def)
  qed
  with kbless_inv_count [OF assms(1)] show ?thesis
    by (simp add: write_word_main_ram [OF assms(2)] Let_def)
qed

lemma write_half_byte_main_ram:
  assumes "main_ram a"
  shows "psx_write_half_raw M a h s =
     (let c = s\<lparr> g_guest_store_count := g_guest_store_count s + 1 \<rparr>; p = psx_phys_addr a; n = note_ram_store p (ucast h) 2 c
      in if store_isolated s then c else n\<lparr> ram := put_half (ram n) (unat p) h \<rparr>)"
    and "psx_write_byte_raw M a b s =
     (let c = s\<lparr> g_guest_store_count := g_guest_store_count s + 1 \<rparr>; p = psx_phys_addr a; n = note_ram_store p (ucast b) 1 c
      in if store_isolated s then c else n\<lparr> ram := (ram n)(unat p := b) \<rparr>)"
proof -
  have "\<not> a \<ge> 0xC0000000" using assms by (auto simp: main_ram_def)
  moreover have "store_isolated (s\<lparr> g_guest_store_count := n \<rparr>) = store_isolated s" for n
    by (simp add: store_isolated_def)
  ultimately show "psx_write_half_raw M a h s =
     (let c = s\<lparr> g_guest_store_count := g_guest_store_count s + 1 \<rparr>; p = psx_phys_addr a; n = note_ram_store p (ucast h) 2 c
      in if store_isolated s then c else n\<lparr> ram := put_half (ram n) (unat p) h \<rparr>)"
    "psx_write_byte_raw M a b s =
     (let c = s\<lparr> g_guest_store_count := g_guest_store_count s + 1 \<rparr>; p = psx_phys_addr a; n = note_ram_store p (ucast b) 1 c
      in if store_isolated s then c else n\<lparr> ram := (ram n)(unat p := b) \<rparr>)"
    by (simp_all add: psx_write_half_raw_def psx_write_byte_raw_def main_ram_region [OF assms] Let_def)
qed

lemma kbless_inv_write_half:
  assumes "kbless_inv s" "main_ram a" "a AND 1 = 0"
  shows "kbless_inv (psx_write_half_raw M a h s)"
proof -
  let ?p = "psx_phys_addr a" and ?c = "s\<lparr> g_guest_store_count := g_guest_store_count s + 1 \<rparr>"
  have al: "unat ?p mod 2 = 0" using assms(3) by (simp add: unat_and_1 phys_and_low)
  have c: "kbless_inv ?c" by (rule kbless_inv_count [OF assms(1)])
  then have "kbless_inv (note_ram_store ?p (ucast h) 2 ?c\<lparr> ram := put_half (ram (note_ram_store ?p (ucast h) 2 ?c)) (unat ?p) h \<rparr>)"
    by (rule kbless_inv_store [OF _ al, where val = "ucast h"]) (auto simp: put_half_def)
  with c show ?thesis by (simp add: write_half_byte_main_ram [OF assms(2)] Let_def)
qed

lemma kbless_inv_write_byte:
  assumes "kbless_inv s" "main_ram a"
  shows "kbless_inv (psx_write_byte_raw M a b s)"
proof -
  let ?p = "psx_phys_addr a" and ?c = "s\<lparr> g_guest_store_count := g_guest_store_count s + 1 \<rparr>"
  have c: "kbless_inv ?c" by (rule kbless_inv_count [OF assms(1)])
  then have "kbless_inv (note_ram_store ?p (ucast b) 1 ?c\<lparr> ram := (ram (note_ram_store ?p (ucast b) 1 ?c))(unat ?p := b) \<rparr>)"
    by (rule kbless_inv_store [where val = "ucast b" and sz = 1]) auto
  with c show ?thesis by (simp add: write_half_byte_main_ram [OF assms(2)] Let_def)
qed

lemma kbless_drop_inv: "kbless_inv s \<Longrightarrow> kbless_inv (kbless_drop i s)"
  by (auto simp: kbless_inv_def kbless_state_drop body_matches_rom_def split: if_splits)

lemma kbless_inv_code_range: "kbless_inv s \<Longrightarrow> kbless_inv (dirty_ram_mark_executable_range p n s)"
proof -
  assume inv: "kbless_inv s"
  have "kbless_inv (fold kbless_drop xs t)" if "kbless_inv t" for xs and t :: "'a mem_st_scheme"
    using that by (induction xs arbitrary: t) (simp_all add: kbless_drop_inv)
  then have "kbless_inv (psx_kernel_bless_note_range p n s)"
    using inv by (simp add: psx_kernel_bless_note_range_def Let_def)
  then have "kbless_inv (psx_kernel_bless_note_range p n s
      \<lparr> dirty_ram_bitmap := b, g_dirty_ram_code_gen := g \<rparr>)" for b g
    by (rule kbless_inv_cong) simp_all
  with inv show ?thesis by (simp add: dirty_ram_mark_executable_range_def Let_def)
qed

lemma kbless_search_sound:
  "kbless_search bodies phys lo hi = Some i \<Longrightarrow> lo \<le> i \<and> i < hi \<and> kb_key (bodies ! i) = phys"
proof (induction bodies phys lo hi rule: kbless_search.induct)
  case (1 bodies phys lo hi)
  note IH = "1.IH" [OF _ refl refl]
  from "1.prems" IH show ?case
    by (subst (asm) kbless_search.simps) (fastforce simp: Let_def split: if_splits)
qed

lemma kbless_search_complete:
  assumes "sorted_wrt (\<lambda>a b. kb_key a < kb_key b) bodies"
  shows "hi \<le> length bodies \<Longrightarrow> kbless_search bodies phys lo hi = None \<Longrightarrow> lo \<le> i \<Longrightarrow> i < hi \<Longrightarrow> kb_key (bodies ! i) \<noteq> phys"
  using assms
proof (induction bodies phys lo hi rule: kbless_search.induct)
  case (1 bodies phys lo hi)
  let ?mid = "(lo + hi) div 2"
  have lt: "lo < hi" "lo \<le> ?mid" "?mid < hi" using "1.prems" by auto
  have none: "kb_key (bodies ! ?mid) \<noteq> phys"
    "kb_key (bodies ! ?mid) < phys \<Longrightarrow> kbless_search bodies phys (?mid + 1) hi = None"
    "\<not> kb_key (bodies ! ?mid) < phys \<Longrightarrow> kbless_search bodies phys lo ?mid = None"
    using "1.prems"(2) lt by (subst (asm) kbless_search.simps; auto simp: Let_def split: if_splits)+
  have mono: "kb_key (bodies ! a) < kb_key (bodies ! b)" if "a < b" "b < hi" for a b
    using "1.prems"(1,5) that by (auto simp: sorted_wrt_iff_nth_less)
  note IH = "1.IH" [OF lt(1) refl refl none(1)]
  show ?case
  proof (cases "kb_key (bodies ! ?mid) < phys")
    case True
    have "kb_key (bodies ! i) \<noteq> phys" if "i \<le> ?mid"
      using True mono [of i ?mid] that lt by (cases "i = ?mid") auto
    with IH(1) [OF True _ none(2) [OF True]] "1.prems" show ?thesis by fastforce
  next
    case False
    with none(1) have gt: "phys < kb_key (bodies ! ?mid)" by simp
    have "kb_key (bodies ! i) \<noteq> phys" if "?mid \<le> i"
      using gt mono [of ?mid i] that "1.prems"(4) by (cases "i = ?mid") auto
    with IH(2) [OF False _ none(3) [OF False]] "1.prems" lt show ?thesis by fastforce
  qed
qed

lemma kbless_dispatch_inv:
  assumes inv: "kbless_inv s"
  shows "kbless_inv (snd (psx_kernel_bless_dispatchable phys s))"
    and "fst (psx_kernel_bless_dispatchable phys s) \<Longrightarrow>
       \<exists>b \<in> set (psx_bios_kernel_bodies s). kb_key b = phys \<and> body_matches_rom b s"
proof -
  let ?bs = "psx_bios_kernel_bodies s"
  obtain on t where on: "kbless_on s = (on, t)" by fastforce
  have t: "psx_bios_kernel_bodies t = ?bs" "ram t = ram s" "bios_rom t = bios_rom s" "kbless_state t = kbless_state s"
      "on \<longleftrightarrow> kbless_enabled t \<noteq> 0" "kbless_enabled t \<noteq> 0 \<Longrightarrow> length ?bs \<le> KBLESS_MAX_ENTRIES \<and> kbless_enabled s \<noteq> 0"
      "kbless_enabled t \<ge> 0"
    using on inv by (auto simp: kbless_on_def kbless_inv_def Let_def split: if_splits)
  have match: "body_matches_rom b t \<longleftrightarrow> body_matches_rom b s" for b
    by (simp add: body_matches_rom_def t)
  have tinv: "kbless_inv t"
    using inv t by (auto simp: kbless_inv_def match)
  have found: "i < length ?bs \<and> kb_key (?bs ! i) = phys" if "kbless_find phys t = Some i" for i
    using kbless_search_sound [of ?bs phys 0 "length ?bs" i] that by (simp add: kbless_find_def t)
  have hit: "kbless_inv (t\<lparr> kbless_native_hits := n \<rparr>)" for n
    by (rule kbless_inv_cong [OF tinv]) simp_all
  have upd: "kbless_inv (t\<lparr> kbless_verifies := m, kbless_state := (kbless_state s)(i := KBLESS_CLEAN), kbless_native_hits := n \<rparr>)"
    if "body_matches_rom (?bs ! i) s" for i m n
    using that tinv by (auto simp: kbless_inv_def body_matches_rom_def t)
  have mis: "kbless_inv (t\<lparr> kbless_verifies := m, kbless_state := (kbless_state s)(i := KBLESS_MISMATCH), kbless_mismatches := n \<rparr>)"
    for i m n
    using tinv by (auto simp: kbless_inv_def body_matches_rom_def t)
  show "kbless_inv (snd (psx_kernel_bless_dispatchable phys s))"
    by (simp add: psx_kernel_bless_dispatchable_def on t(1,4) match inv tinv hit upd mis Let_def split: option.split)
  assume ok: "fst (psx_kernel_bless_dispatchable phys s)"
  then have en: "kbless_enabled t \<noteq> 0" using on t(5) by (auto simp: psx_kernel_bless_dispatchable_def split: if_splits)
  from ok obtain i where i: "kbless_find phys t = Some i"
    by (auto simp: psx_kernel_bless_dispatchable_def on split: if_splits option.splits)
  have "body_matches_rom (?bs ! i) s"
  proof (cases "kbless_state s i = KBLESS_CLEAN")
    case True
    then show ?thesis using inv t(6) [OF en] found [OF i] by (simp add: kbless_inv_def)
  next
    case False
    then show ?thesis using ok i by (auto simp: psx_kernel_bless_dispatchable_def on t match Let_def split: if_splits)
  qed
  with found [OF i] show "\<exists>b \<in> set ?bs. kb_key b = phys \<and> body_matches_rom b s" by auto
qed

lemma kbless_inv_exec: "kbless_inv s \<Longrightarrow> mem_op_ok op \<Longrightarrow> kbless_inv (mem_exec M op s)"
  by (cases op) (simp_all add: kbless_inv_write_word kbless_inv_write_half kbless_inv_write_byte
      kbless_inv_code_range kbless_dispatch_inv(1))

text \<open>C30. The kernel bless table is sound: starting from the boot state (nothing verified), after
  any sequence of aligned RAM stores, code-range marks and earlier queries, a dispatch address
  that is approved for native execution has a body whose live RAM bytes all equal the BIOS ROM
  bytes it was compiled from.\<close>

theorem bless_approves_only_rom_code:
  assumes "\<forall>b \<in> set (psx_bios_kernel_bodies s). body_ok b" and "kbless_enabled s = - 1"
    and "\<And>i. kbless_state s i = KBLESS_UNKNOWN" and "\<forall>op \<in> set ops. mem_op_ok op"
  shows "let t = fold (mem_exec M) ops s
     in fst (psx_kernel_bless_dispatchable phys t) \<longrightarrow>
        (\<exists>b \<in> set (psx_bios_kernel_bodies t). kb_key b = phys \<and> body_matches_rom b t)"
proof -
  have "kbless_inv s" using assms by (simp add: kbless_inv_def)
  then have "kbless_inv (fold (mem_exec M) ops s)"
    using assms(4)
  proof (induction ops arbitrary: s)
    case (Cons op ops)
    show ?case using Cons.IH [OF kbless_inv_exec [OF Cons.prems(1), of op M]] Cons.prems by simp
  qed simp
  then show ?thesis by (auto simp: Let_def dest: kbless_dispatch_inv(2))
qed

text \<open>The binary search over the body table finds exactly the entry with the given key, for
  a table in strictly increasing key order.\<close>

lemma kbless_find_exact:
  assumes "sorted_wrt (\<lambda>a b. kb_key a < kb_key b) (psx_bios_kernel_bodies s)"
  shows "kbless_find phys s = Some i \<longleftrightarrow>
     i < length (psx_bios_kernel_bodies s) \<and> kb_key (psx_bios_kernel_bodies s ! i) = phys"
proof
  assume "kbless_find phys s = Some i"
  then show "i < length (psx_bios_kernel_bodies s) \<and> kb_key (psx_bios_kernel_bodies s ! i) = phys"
    using kbless_search_sound [of "psx_bios_kernel_bodies s" phys 0] by (simp add: kbless_find_def)
next
  assume i: "i < length (psx_bios_kernel_bodies s) \<and> kb_key (psx_bios_kernel_bodies s ! i) = phys"
  then obtain j where j: "kbless_find phys s = Some j"
    using kbless_search_complete [OF assms le_refl, of phys 0 i] by (cases "kbless_find phys s") (auto simp: kbless_find_def)
  then have "j < length (psx_bios_kernel_bodies s) \<and> kb_key (psx_bios_kernel_bodies s ! j) = phys"
    using kbless_search_sound [of "psx_bios_kernel_bodies s" phys 0] by (simp add: kbless_find_def)
  with i assms have "i = j"
    by (metis linorder_neqE_nat order.irrefl sorted_wrt_iff_nth_less)
  with j show "kbless_find phys s = Some i" by simp
qed

section \<open>The text guard\<close>

definition text_inv :: "'a mem_st_scheme \<Rightarrow> bool" where
  "text_inv s \<longleftrightarrow>
     (\<forall>img. text_ref_image s = Some img \<longrightarrow>
        unat (text_ref_lo s) mod 4 = 0 \<and> unat (text_ref_hi s) mod 4 = 0 \<and>
        (\<forall>a. unat (text_ref_lo s) \<le> a \<and> a < unat (text_ref_hi s) \<and> \<not> page_bit (text_modified_bitmap s) (a div 4096) \<longrightarrow>
           ram s a = img (a - unat (text_ref_lo s))))"

lemma note_ram_store_modified:
  "text_modified_bitmap (note_ram_store phys val sz s) =
     (case text_ref_image s of None \<Rightarrow> text_modified_bitmap s
      | Some img \<Rightarrow>
          (if \<not> (phys < text_ref_lo s \<or> phys + of_nat sz > text_ref_hi s) \<and>
              map (\<lambda>i. img (unat (phys - text_ref_lo s) + i)) [0 ..< sz] \<noteq> take sz (le_bytes val)
           then page_set (page_of phys) (text_modified_bitmap s) else text_modified_bitmap s))"
proof -
  have k: "f (dirty_ram_mark_kernel_write phys s) = f s"
    if "\<And>i s. f (kbless_drop i s) = f s" "\<And>n s. f (s\<lparr> g_dirty_ram_code_gen := n \<rparr>) = f s"
      "\<And>b s. f (s\<lparr> dirty_ram_bitmap := b \<rparr>) = f s" for f :: "'a mem_st_scheme \<Rightarrow> 'c"
    by (simp add: dirty_ram_mark_kernel_write_def kbless_note_write_def dirty_ram_mark_page_def that
        fold_kbless_keeps(1) [OF that(1), unfolded Let_def] Let_def)
  have "text_modified_bitmap (dirty_ram_mark_kernel_write phys s) = text_modified_bitmap s"
    "text_ref_image (dirty_ram_mark_kernel_write phys s) = text_ref_image s"
    "text_ref_lo (dirty_ram_mark_kernel_write phys s) = text_ref_lo s"
    "text_ref_hi (dirty_ram_mark_kernel_write phys s) = text_ref_hi s"
    by (rule k; simp)+
  then show ?thesis
    by (simp add: note_ram_store_def overlay_watch_note_write_def text_guard_note_write_def Let_def split: option.split)
qed

lemma text_inv_store:
  assumes inv: "text_inv s" and al: "unat phys mod sz = 0" and sz: "sz dvd 4" "0 < sz" and small: "phys < RAM_SIZE"
    and s': "text_modified_bitmap s' = text_modified_bitmap (note_ram_store phys val sz s)" "text_ref_image s' = text_ref_image s"
      "text_ref_lo s' = text_ref_lo s" "text_ref_hi s' = text_ref_hi s"
    and ram: "\<And>j. ram s' j = (if unat phys \<le> j \<and> j < unat phys + sz then le_bytes val ! (j - unat phys) else ram s j)"
  shows "text_inv s'"
  unfolding text_inv_def s'(2-4)
proof (intro allI impI conjI)
  fix img assume img: "text_ref_image s = Some img"
  let ?lo = "unat (text_ref_lo s)" and ?hi = "unat (text_ref_hi s)" and ?p = "unat phys"
  from inv img show lo: "?lo mod 4 = 0" and hi: "?hi mod 4 = 0" by (auto simp: text_inv_def)
  fix a assume a: "?lo \<le> a \<and> a < ?hi \<and> \<not> page_bit (text_modified_bitmap s') (a div 4096)"
  have old: "\<not> page_bit (text_modified_bitmap s) (a div 4096)"
    using a unfolding s'(1) note_ram_store_modified by (auto simp: img split: if_splits)
  show "ram s' a = img (a - ?lo)"
  proof (cases "?p \<le> a \<and> a < ?p + sz")
    case False
    with a old inv img show ?thesis unfolding ram text_inv_def by auto
  next
    case True
    have sz4: "sz \<le> 4" "?p < 0x200000" using sz small by (auto dest: dvd_imp_le simp: word_less_nat_alt)
    have d: "sz dvd ?lo" "sz dvd ?hi" "sz dvd ?p" "sz dvd 4096"
      using dvd_trans [OF sz(1)] lo hi al by (auto simp: dvd_eq_mod_eq_0)
    have le: "?lo \<le> ?p"
    proof (rule ccontr)
      assume "\<not> ?lo \<le> ?p"
      then have "?p + sz \<le> ?lo" using d(1,3)
        by (metis dvd_diff_nat dvd_imp_le le_add_diff_inverse less_imp_le nat_add_left_cancel_le not_le zero_less_diff)
      with True a show False by simp
    qed
    have ge: "?p + sz \<le> ?hi"
    proof -
      have "?p < ?hi" using True a by simp
      with d(2,3) show ?thesis
        by (metis dvd_diff_nat dvd_imp_le le_add_diff_inverse less_imp_le nat_add_left_cancel_le zero_less_diff)
    qed
    have add: "unat (phys + of_nat sz) = ?p + sz"
      using sz4 by (simp add: unat_word_ariths(1) unat_word_of_nat)
    have page: "a div 4096 = page_of phys"
    proof -
      obtain k where k: "?p = sz * k" using d(3) by blast
      obtain m where m: "4096 = sz * m" using d(4) by blast
      have "a div sz = k" using True k sz by (simp add: div_nat_eqI mult.commute)
      moreover have "?p div sz = k" using k sz by simp
      moreover have "x div 4096 = x div sz div m" for x unfolding m by (simp add: div_mult2_eq)
      ultimately show ?thesis by (simp add: page_of_div)
    qed
    have "map (\<lambda>i. img (unat (phys - text_ref_lo s) + i)) [0 ..< sz] = take sz (le_bytes val)"
      using a le ge page add unfolding s'(1) note_ram_store_modified
      by (auto simp: img word_less_nat_alt split: if_splits)
    note bytes = arg_cong [OF this, of "\<lambda>xs. xs ! (a - ?p)"]
    have "a - ?p < sz" using True by arith
    with bytes have "img (unat (phys - text_ref_lo s) + (a - ?p)) = le_bytes val ! (a - ?p)"
      by (simp del: Nat.add_diff_assoc)
    moreover have "unat (phys - text_ref_lo s) = ?p - ?lo"
      using le by (intro unat_sub_le) (simp add: word_le_nat_alt)
    ultimately show ?thesis using True le unfolding ram by simp
  qed
qed

lemma text_inv_cong:
  assumes "text_inv s" "text_modified_bitmap s' = text_modified_bitmap s" "ram s' = ram s" "text_ref_image s' = text_ref_image s"
    "text_ref_lo s' = text_ref_lo s" "text_ref_hi s' = text_ref_hi s"
  shows "text_inv s'"
  using assms by (simp add: text_inv_def)

lemma text_inv_count: "text_inv s \<Longrightarrow> text_inv (s\<lparr> g_guest_store_count := n \<rparr>)"
  by (erule text_inv_cong) simp_all

lemma text_inv_write_word:
  assumes "text_inv s" "main_ram a" "a AND 3 = 0"
  shows "text_inv (psx_write_word_raw M a v s)"
proof -
  let ?p = "psx_phys_addr a" and ?c = "s\<lparr> g_guest_store_count := g_guest_store_count s + 1 \<rparr>"
  let ?d = "d44_note ?p (read_ram_word ?p ?c) v ?c"
  have al: "unat ?p mod 4 = 0" using assms(3) unat_and_3 [of ?p] by (simp add: phys_and_low)
  have small: "?p < RAM_SIZE" using assms(2) by (simp add: main_ram_def)
  have d: "text_inv ?d" by (rule text_inv_cong [OF assms(1)]) simp_all
  have bytes: "put_word m (unat ?p) v j = (if unat ?p \<le> j \<and> j < unat ?p + 4 then le_bytes v ! (j - unat ?p) else m j)" for m j
    using put_word_nth [of "j - unat ?p" m "unat ?p" v] put_word_other [of j "unat ?p" m v] by auto
  have "text_inv (note_ram_store ?p v 4 ?d\<lparr> ram := put_word (ram (note_ram_store ?p v 4 ?d)) (unat ?p) v \<rparr>)"
    by (rule text_inv_store [OF d al _ _ small, where val = v]) (simp_all add: bytes)
  then have "text_inv (store_ram_word ?p v ?c)"
    using text_inv_count [OF assms(1)] by (simp add: store_ram_word_def Let_def)
  with text_inv_count [OF assms(1)] show ?thesis
    by (simp add: write_word_main_ram [OF assms(2)] Let_def)
qed

lemma text_inv_write_half:
  assumes "text_inv s" "main_ram a" "a AND 1 = 0"
  shows "text_inv (psx_write_half_raw M a h s)"
proof -
  let ?p = "psx_phys_addr a" and ?c = "s\<lparr> g_guest_store_count := g_guest_store_count s + 1 \<rparr>"
  have al: "unat ?p mod 2 = 0" using assms(3) by (simp add: unat_and_1 phys_and_low)
  have small: "?p < RAM_SIZE" using assms(2) by (simp add: main_ram_def)
  have c: "text_inv ?c" by (rule text_inv_count [OF assms(1)])
  have "(ucast (drop_bit 8 (ucast h :: u32)) :: u8) = ucast (drop_bit 8 h)" "(ucast (ucast h :: u32) :: u8) = ucast h"
    by (rule bit_word_eqI; auto simp: bit_simps)+
  then have bytes: "put_half m (unat ?p) h j =
      (if unat ?p \<le> j \<and> j < unat ?p + 2 then le_bytes (ucast h) ! (j - unat ?p) else m j)" for m j
    by (auto simp: put_half_def le_bytes_def not_le less_Suc_eq)
  have "text_inv (note_ram_store ?p (ucast h) 2 ?c\<lparr> ram := put_half (ram (note_ram_store ?p (ucast h) 2 ?c)) (unat ?p) h \<rparr>)"
    by (rule text_inv_store [OF c al _ _ small, where val = "ucast h"]) (simp_all add: bytes)
  with c show ?thesis by (simp add: write_half_byte_main_ram [OF assms(2)] Let_def)
qed

lemma text_inv_write_byte:
  assumes "text_inv s" "main_ram a"
  shows "text_inv (psx_write_byte_raw M a b s)"
proof -
  let ?p = "psx_phys_addr a" and ?c = "s\<lparr> g_guest_store_count := g_guest_store_count s + 1 \<rparr>"
  have small: "?p < RAM_SIZE" using assms(2) by (simp add: main_ram_def)
  have c: "text_inv ?c" by (rule text_inv_count [OF assms(1)])
  have "(ucast (ucast b :: u32) :: u8) = b"
    by (rule bit_word_eqI) (auto simp: bit_simps)
  then have bytes: "(m(unat ?p := b)) j =
      (if unat ?p \<le> j \<and> j < unat ?p + 1 then le_bytes (ucast b) ! (j - unat ?p) else m j)" for m j
    by (auto simp: le_bytes_def)
  have "text_inv (note_ram_store ?p (ucast b) 1 ?c\<lparr> ram := (ram (note_ram_store ?p (ucast b) 1 ?c))(unat ?p := b) \<rparr>)"
    by (rule text_inv_store [OF c _ _ _ small, where val = "ucast b" and sz = 1]) (simp_all add: bytes del: fun_upd_apply)
  with c show ?thesis by (simp add: write_half_byte_main_ram [OF assms(2)] Let_def)
qed

lemma text_inv_exec: "text_inv s \<Longrightarrow> mem_op_ok op \<Longrightarrow> text_inv (mem_exec M op s)"
proof (cases op)
  case (Code_range p n)
  have keep: "f (psx_kernel_bless_note_range p n s) = f s" if "\<And>i s. f (kbless_drop i s) = f s" for f :: "'a mem_st_scheme \<Rightarrow> 'c"
    by (simp add: psx_kernel_bless_note_range_def Let_def fold_kbless_keeps(2) [OF that])
  assume "text_inv s"
  then show ?thesis
    by (rule text_inv_cong) (simp_all add: Code_range dirty_ram_mark_executable_range_def Let_def keep)
next
  case (Bless_query p)
  assume "text_inv s"
  then show ?thesis
    by (rule text_inv_cong) (simp_all add: Bless_query psx_kernel_bless_dispatchable_def kbless_on_def Let_def split: option.split prod.split)
qed (simp_all add: text_inv_write_word text_inv_write_half text_inv_write_byte)

text \<open>C31. The text guard misses no change inside a page: when the registered boot image equals
  RAM at the game-start baseline, then after any sequence of aligned RAM stores a text address
  that is approved for native execution still has, up to the end of its page (and at most 256
  bytes, the compare window), exactly the bytes of the reference image.\<close>

theorem text_guard_approves_only_image:
  assumes "text_ref_image s = Some img" and "\<And>p. \<not> page_bit (text_modified_bitmap s) p"
    and "unat (text_ref_lo s) mod 4 = 0" and "unat (text_ref_hi s) mod 4 = 0"
    and "\<And>a. unat (text_ref_lo s) \<le> a \<Longrightarrow> a < unat (text_ref_hi s) \<Longrightarrow> ram s a = img (a - unat (text_ref_lo s))"
    and "\<forall>op \<in> set ops. mem_op_ok op"
  shows "let t = fold (mem_exec M) ops s
     in text_ref_image t = Some img \<and> text_ref_lo t \<le> phys \<and> phys < text_ref_hi t \<and> fst (dirty_ram_text_native_ok phys t) \<longrightarrow>
        (\<forall>a. unat phys \<le> a \<and> a < unat phys + 256 \<and> a < unat (text_ref_hi t) \<and> a div 4096 = page_of phys \<longrightarrow>
           ram t a = img (a - unat (text_ref_lo t)))"
proof -
  have "text_inv s" using assms by (simp add: text_inv_def)
  then have inv: "text_inv (fold (mem_exec M) ops s)"
    using assms(6)
  proof (induction ops arbitrary: s)
    case (Cons op ops)
    show ?case using Cons.IH [OF text_inv_exec [OF Cons.prems(1), of op M]] Cons.prems by simp
  qed simp
  define t where "t = fold (mem_exec M) ops s"
  have "ram t a = img (a - unat (text_ref_lo t))"
    if h: "text_ref_image t = Some img" "text_ref_lo t \<le> phys" "phys < text_ref_hi t" "fst (dirty_ram_text_native_ok phys t)"
      and a: "unat phys \<le> a" "a < unat phys + 256" "a < unat (text_ref_hi t)" "a div 4096 = page_of phys" for a
  proof (cases "page_bit (text_modified_bitmap t) (page_of phys)")
    case False
    with inv h a show ?thesis by (auto simp: t_def [symmetric] text_inv_def word_le_nat_alt)
  next
    case True
    then have w: "text_window_matches phys img t"
      using h by (auto simp: dirty_ram_text_native_ok_def text_note_blocked_def Let_def split: if_splits)
    have lo: "unat (phys - text_ref_lo t) = unat phys - unat (text_ref_lo t)"
      using h(2) by (intro unat_sub_le)
    have hi: "unat (text_ref_hi t - phys) = unat (text_ref_hi t) - unat phys"
      using h(3) by (intro unat_sub_le) simp
    have "a - unat phys < unat (if 256 > text_ref_hi t - phys then text_ref_hi t - phys else 256)"
      using a hi by (auto simp: word_less_nat_alt)
    with w have "ram t (unat phys + (a - unat phys)) = img (unat (phys - text_ref_lo t) + (a - unat phys))"
      by (simp add: text_window_matches_def)
    with a lo h(2) show ?thesis by (simp add: word_le_nat_alt)
  qed
  then show ?thesis by (simp add: t_def [symmetric] Let_def)
qed

section \<open>Overlay generations\<close>

lemma note_ram_store_gen:
  "overlay_page_gen (note_ram_store phys val sz s) =
     (if page_of phys < 512 \<and> page_bit (overlay_watch_bitmap s) (page_of phys)
      then (overlay_page_gen s)(page_of phys := overlay_page_gen s (page_of phys) + 1) else overlay_page_gen s)"
proof -
  have keep: "f (text_guard_note_write phys val sz (dirty_ram_mark_kernel_write phys s)) = f s"
    if "\<And>i s. f (kbless_drop i s) = f s" "\<And>n s. f (s\<lparr> g_dirty_ram_code_gen := n \<rparr>) = f s"
      "\<And>b s. f (s\<lparr> dirty_ram_bitmap := b \<rparr>) = f s" "\<And>b s. f (s\<lparr> text_modified_bitmap := b \<rparr>) = f s"
    for f :: "'a mem_st_scheme \<Rightarrow> 'c"
  proof -
    have "f (dirty_ram_mark_kernel_write phys s) = f s"
      by (simp add: dirty_ram_mark_kernel_write_def kbless_note_write_def dirty_ram_mark_page_def that
          fold_kbless_keeps(1) [OF that(1), unfolded Let_def] Let_def)
    then show ?thesis by (simp add: text_guard_note_write_def that Let_def split: option.split)
  qed
  have "overlay_page_gen (text_guard_note_write phys val sz (dirty_ram_mark_kernel_write phys s)) = overlay_page_gen s"
    "overlay_watch_bitmap (text_guard_note_write phys val sz (dirty_ram_mark_kernel_write phys s)) = overlay_watch_bitmap s"
    by (rule keep; simp)+
  then show ?thesis by (simp add: note_ram_store_def overlay_watch_note_write_def Let_def)
qed

lemma sum_list_map_bump:
  "distinct xs \<Longrightarrow> p \<in> set xs \<Longrightarrow> sum_list (map (f(p := f p + 1)) xs) = sum_list (map f xs) + (1 :: 'a::comm_ring_1)"
proof (induction xs)
  case (Cons x xs)
  show ?case
  proof (cases "p = x")
    case True
    with Cons.prems show ?thesis by (simp add: map_fun_upd del: fun_upd_apply) (simp add: add_ac)
  next
    case False
    with Cons have "sum_list (map (f(p := f p + 1)) xs) = sum_list (map f xs) + 1" by (simp del: fun_upd_apply)
    with False show ?thesis by (simp add: add_ac del: fun_upd_apply) (simp add: add_ac)
  qed
qed simp

text \<open>The generation sum an overlay entry was validated with moves by one on every visible
  word store to a watched page of its range, so a stale entry is detected at its next dispatch.\<close>

lemma overlay_store_moves_generation:
  assumes "main_ram a" and "store_visible a v s" and "page_bit (overlay_watch_bitmap s) (page_of (psx_phys_addr a))"
    and "page_of (psx_phys_addr a) \<in> set (range_pages phys len)" and "len \<noteq> 0" and "phys < RAM_SIZE"
  shows "overlay_watch_pagegen_sum phys len (psx_write_word_raw M a v s) = overlay_watch_pagegen_sum phys len s + 1"
proof -
  let ?p = "psx_phys_addr a"
  have "page_of ?p < 512"
    using assms(1) by (simp add: main_ram_def page_of_div word_less_nat_alt less_mult_imp_div_less)
  with assms(3) have gen: "overlay_page_gen (psx_write_word_raw M a v s) = (overlay_page_gen s)(page_of ?p := overlay_page_gen s (page_of ?p) + 1)"
    using assms(1,2) by (simp add: write_word_main_ram store_visible_def store_ram_word_def note_ram_store_gen Let_def)
  have "distinct (range_pages phys len)" by (simp add: range_pages_def)
  with assms(4-6) show ?thesis
    by (simp add: overlay_watch_pagegen_sum_def gen sum_list_map_bump del: fun_upd_apply)
qed

section \<open>An example machine\<close>

definition no_mmio :: "'s mmio_ops" where
  "no_mmio = \<lparr> mmio_read32 = (\<lambda>a s. (0, s)), mmio_read16 = (\<lambda>a s. (0, s)), mmio_read8 = (\<lambda>a s. (0, s)),
     mmio_write32 = (\<lambda>a v s. s), mmio_write16 = (\<lambda>a v s. s), mmio_write8 = (\<lambda>a v s. s) \<rparr>"

definition mem_boot :: "'a \<Rightarrow> 'a mem_st_scheme" where
  "mem_boot r = sys_boot (timers_st_ext (\<lambda>_. \<lparr> counter = 0, mode = 0, target = 0, irq_line = 0 \<rparr>) (\<lambda>_. 0) (\<lambda>_. 0)
     (mem_st_ext (\<lambda>_. 0) (\<lambda>_. 0) (\<lambda>_. 0) 0 None False 0 0 0 (\<lambda>_. 0) 0
        [\<lparr> kb_key = 0x500, kb_lo = 0x500, kb_hi = 0x510 \<rparr>, \<lparr> kb_key = 0x600, kb_lo = 0x600, kb_hi = 0x620 \<rparr>]
        (\<lambda>_. 0) (- 1) 0 0 0 0 False False False
        (Some (\<lambda>_. 0)) 0x10000 0x20000 (\<lambda>_. 0) (\<lambda>_. 0) 0 0 True 0x20000 (\<lambda>_. 0xFFFFFFFF) (\<lambda>_. 0)
        (\<lambda>_. \<lparr> d44_seq = 0, d44_val = 0, d44_old = 0, d44_store_pc = 0, d44_dma_depth = 0, d44_dma_ch = 0,
                d44_dma_madr = 0, d44_dma_bcr = 0, d44_frame = 0 \<rparr>) 0 0 (- 1) 0 0 0 r))"

lemma mem_boot_simps [simp]:
  "ram (mem_boot r) = (\<lambda>_. 0)" "sr_ref (mem_boot r) = None" "fntrace_game_started (mem_boot r) = False"
  "kbless_enabled (mem_boot r) = - 1" "kbless_state (mem_boot r) = (\<lambda>_. 0)"
  "psx_bios_kernel_bodies (mem_boot r) =
     [\<lparr> kb_key = 0x500, kb_lo = 0x500, kb_hi = 0x510 \<rparr>, \<lparr> kb_key = 0x600, kb_lo = 0x600, kb_hi = 0x620 \<rparr>]"
  "text_ref_image (mem_boot r) = Some (\<lambda>_. 0)" "text_ref_lo (mem_boot r) = 0x10000" "text_ref_hi (mem_boot r) = 0x20000"
  "text_modified_bitmap (mem_boot r) = (\<lambda>_. 0)" "overlay_watch_bitmap (mem_boot r) = (\<lambda>_. 0xFFFFFFFF)"
  "dirty_ram_bitmap (mem_boot r) = (\<lambda>_. 0)" "text_diverged_bitmap (mem_boot r) = (\<lambda>_. 0)"
  "env_force_interp (mem_boot r) = False" "env_shellwin_interp (mem_boot r) = False"
  by (simp_all add: mem_boot_def sys_boot_def)

theorem ram_read_after_write_witness:
  "fst (psx_read_word_raw no_mmio 0x00201000 (psx_write_word_raw no_mmio 0x80001000 0xDEADBEEF (mem_boot ()))) = 0xDEADBEEF \<and>
   fst (psx_read_word_raw no_mmio 0x00101000 (psx_write_word_raw no_mmio 0x80001000 0xDEADBEEF (mem_boot ()))) = 0"
  using ram_read_after_write [of "0x80001000" "0x00201000" no_mmio "0xDEADBEEF" "mem_boot ()"]
    ram_read_after_write [of "0x80001000" "0x00101000" no_mmio "0xDEADBEEF" "mem_boot ()"]
  by (simp add: ram_window_def psx_phys_addr_def psx_main_ram_mirror_phys_def store_visible_def store_isolated_def
      low_store_dropped_def card_event_store_dropped_def read_word_main_ram main_ram_def word_at_def)

theorem bless_approves_only_rom_code_witness:
  "let t = fold (mem_exec no_mmio) [Store_word 0x80000600 5, Bless_query 0x500] (mem_boot ())
   in fst (psx_kernel_bless_dispatchable 0x500 t) \<longrightarrow>
      (\<exists>b \<in> set (psx_bios_kernel_bodies t). kb_key b = 0x500 \<and> body_matches_rom b t)"
  by (rule bless_approves_only_rom_code)
     (simp_all add: body_ok_def main_ram_def psx_phys_addr_def psx_main_ram_mirror_phys_def)

lemma kbless_find_exact_example: "kbless_find 0x600 (mem_boot ()) = Some 1"
  using kbless_find_exact [of "mem_boot ()" "0x600" 1] by simp

theorem text_guard_approves_only_image_witness:
  "let t = fold (mem_exec no_mmio) [Store_byte 0x80011000 5] (mem_boot ())
   in text_ref_image t = Some (\<lambda>_. 0) \<and> text_ref_lo t \<le> 0x10000 \<and> 0x10000 < text_ref_hi t \<and>
      fst (dirty_ram_text_native_ok 0x10000 t) \<longrightarrow>
      (\<forall>a. unat (0x10000 :: u32) \<le> a \<and> a < unat (0x10000 :: u32) + 256 \<and> a < unat (text_ref_hi t) \<and>
           a div 4096 = page_of 0x10000 \<longrightarrow> ram t a = 0)"
  by (rule text_guard_approves_only_image [where img = "\<lambda>_. 0"])
     (simp_all add: page_bit_def main_ram_def psx_phys_addr_def psx_main_ram_mirror_phys_def)

lemma overlay_store_moves_generation_example:
  "overlay_watch_pagegen_sum 0x20000 0x2000 (psx_write_word_raw no_mmio 0x80021004 7 (mem_boot ()))
     = overlay_watch_pagegen_sum 0x20000 0x2000 (mem_boot ()) + 1"
proof (rule overlay_store_moves_generation)
  show "page_bit (overlay_watch_bitmap (mem_boot ())) (page_of (psx_phys_addr 0x80021004))"
    by (simp add: page_bit_iff psx_phys_addr_def psx_main_ram_mirror_phys_def page_of_div bit_numeral_rec)
qed (simp_all add: main_ram_def psx_phys_addr_def psx_main_ram_mirror_phys_def store_visible_def store_isolated_def
      low_store_dropped_def card_event_store_dropped_def range_pages_def range_end_def page_of_div)

text \<open>The guard's fast path looks at one page only: an entry near the end of an untouched page is
  approved even when the compare window, which the slow path would check, reaches into a page
  whose bytes were changed.\<close>

lemma text_guard_ignores_next_page:
  "let t = mem_exec no_mmio (Store_word 0x80012000 5) (mem_boot ())
   in fst (dirty_ram_text_native_ok 0x11FF0 t) \<and> \<not> text_window_matches 0x11FF0 (\<lambda>_. 0) t"
proof -
  let ?t = "mem_exec no_mmio (Store_word 0x80012000 5) (mem_boot ())"
  have vis: "store_visible 0x80012000 5 (mem_boot ())" "main_ram 0x80012000"
    by (simp_all add: main_ram_def psx_phys_addr_def psx_main_ram_mirror_phys_def store_visible_def store_isolated_def
      low_store_dropped_def card_event_store_dropped_def)
  have p: "psx_phys_addr 0x80012000 = 0x12000" by (simp add: psx_phys_addr_def psx_main_ram_mirror_phys_def)
  have ram: "ram ?t = put_word (\<lambda>_. 0) 0x12000 5"
    using ram_write_word_main_ram [OF vis(2), of no_mmio 5 "mem_boot ()"] vis(1) by (simp add: p)
  have st: "text_modified_bitmap ?t = page_set 18 (\<lambda>_. 0)" "dirty_ram_bitmap ?t = (\<lambda>_. 0)" "text_diverged_bitmap ?t = (\<lambda>_. 0)"
    "text_ref_image ?t = Some (\<lambda>_. 0)" "text_ref_lo ?t = 0x10000" "text_ref_hi ?t = 0x20000"
    "env_force_interp ?t = False" "env_shellwin_interp ?t = False"
    by (simp_all add: write_word_main_ram [OF vis(2)] p store_isolated_def low_store_dropped_def card_event_store_dropped_def
        store_ram_word_def Let_def note_ram_store_def overlay_watch_note_write_def text_guard_note_write_def
        dirty_ram_mark_kernel_write_def d44_note_def page_of_div le_bytes_def upt_rec)
  have "fst (dirty_ram_text_native_ok 0x11FF0 ?t)"
    unfolding dirty_ram_text_native_ok_def dirty_ram_is_dirty_def st
    by (simp add: page_of_div page_bit_iff) (simp add: page_set_def)
  moreover have "\<not> text_window_matches 0x11FF0 (\<lambda>_. 0) ?t"
    unfolding text_window_matches_def ram st
    by (simp add: Let_def put_word_def)
  ultimately show ?thesis by (simp add: Let_def)
qed

end
