(* ===== verification/Mdec_Props.thy ===== *)
theory Mdec_Props
  imports Mdec Memory_Props Ring_Log
begin

text \<open>
  Correctness of the motion decoder: the buffers never overrun and the capacity loop ends
  (\<open>cap_ok\<close>, \<open>out_ok\<close>, \<open>mdec_ok\<close>), the emitted bytes are those of a pure reference decoder
  (\<open>emits\<close>), a command ends after exactly its parameter words, and the DMA port drains the
  output queue in order.
\<close>

section \<open>Capacities\<close>

definition cap_ok :: "u32 \<Rightarrow> bool" where
  "cap_ok c \<longleftrightarrow> c = 0 \<or> (\<exists>k<32. c = 2 ^ k)"

lemma unat_power_u32: "k < 32 \<Longrightarrow> unat ((2::u32) ^ k) = 2 ^ k"
  using unat_word_of_nat [of "2 ^ k", where ?'a = 32] power_strict_increasing [of k 32 "2 :: nat"] by simp

lemma grow_cap_spec:
  assumes "k < 32" and "unat need \<le> 2 ^ 31" and "31 - k \<le> n"
  shows "\<exists>j<32. grow_cap n (2 ^ k) need = 2 ^ j \<and> need \<le> 2 ^ j"
  using assms
proof (induction n arbitrary: k)
  case 0
  then have "k = 31" by simp
  with 0 show ?case
    by (auto simp: word_le_nat_alt unat_power_u32 intro!: exI [of _ 31])
next
  case (Suc n)
  show ?case
  proof (cases "(2::u32) ^ k < need")
    case True
    then have "2 ^ k < unat need" using Suc.prems by (simp add: word_less_nat_alt unat_power_u32)
    with Suc.prems have "(2::nat) ^ k < 2 ^ 31" by linarith
    then have "k < 31" by (rule power_less_imp_less_exp [rotated]) simp
    with Suc.IH [of "Suc k"] Suc.prems True show ?thesis
      by (simp add: mult.commute)
  next
    case False
    with Suc.prems show ?thesis by auto
  qed
qed

lemma ensure_output_capacity_cases:
  assumes "cap_ok (m_output_cap s)" and "unat bytes \<le> 2 ^ 31"
  obtains (same) "bytes \<le> m_output_cap s" "ensure_output_capacity bytes s = (True, s)"
  | (fail) n where "\<not> m_realloc_ok s n" "ensure_output_capacity bytes s = (False, s)"
  | (grown) c where "cap_ok c" "bytes \<le> c" "ensure_output_capacity bytes s = (True, s\<lparr> m_output_cap := c \<rparr>)"
proof -
  obtain k where k: "k < 32" "(if m_output_cap s \<noteq> 0 then m_output_cap s else 4096) = 2 ^ k"
    using assms(1) by (cases "m_output_cap s = 0") (auto simp: cap_ok_def intro: that [of 12])
  obtain j where "j < 32" "grow_cap 32 (2 ^ k) bytes = 2 ^ j" "bytes \<le> 2 ^ j"
    using grow_cap_spec [OF k(1) assms(2), of 32] diff_le_self [of 31 k] by auto
  note j = this
  have c: "cap_ok (2 ^ j)" using j(1) by (auto simp: cap_ok_def)
  show ?thesis
  proof (cases "bytes \<le> m_output_cap s")
    case True
    then show ?thesis by (intro same) (simp_all add: ensure_output_capacity_def)
  next
    case False
    then have e: "ensure_output_capacity bytes s =
        (if \<not> m_realloc_ok s (unat (2 ^ j :: u32)) then (False, s) else (True, s\<lparr> m_output_cap := 2 ^ j \<rparr>))"
      by (simp only: ensure_output_capacity_def Let_def k(2) j(2) if_False)
    show ?thesis
      by (cases "m_realloc_ok s (unat (2 ^ j :: u32))") (use e c j(3) in \<open>auto intro: fail grown\<close>)
  qed
qed

lemma ensure_input_capacity_cases:
  assumes "cap_ok (m_input_cap s)" and "unat hws \<le> 2 ^ 31"
  obtains (same) "hws \<le> m_input_cap s" "ensure_input_capacity hws s = (True, s)"
  | (fail) n where "\<not> m_realloc_ok s n" "ensure_input_capacity hws s = (False, s)"
  | (grown) c where "cap_ok c" "hws \<le> c" "ensure_input_capacity hws s = (True, s\<lparr> m_input_cap := c \<rparr>)"
proof -
  obtain k where k: "k < 32" "(if m_input_cap s \<noteq> 0 then m_input_cap s else 256) = 2 ^ k"
    using assms(1) by (cases "m_input_cap s = 0") (auto simp: cap_ok_def intro: that [of 8])
  obtain j where "j < 32" "grow_cap 32 (2 ^ k) hws = 2 ^ j" "hws \<le> 2 ^ j"
    using grow_cap_spec [OF k(1) assms(2), of 32] diff_le_self [of 31 k] by auto
  note j = this
  have c: "cap_ok (2 ^ j)" using j(1) by (auto simp: cap_ok_def)
  show ?thesis
  proof (cases "hws \<le> m_input_cap s")
    case True
    then show ?thesis by (intro same) (simp_all add: ensure_input_capacity_def)
  next
    case False
    then have e: "ensure_input_capacity hws s =
        (if \<not> m_realloc_ok s (unat (2 ^ j :: u32) * 2) then (False, s) else (True, s\<lparr> m_input_cap := 2 ^ j \<rparr>))"
      by (simp only: ensure_input_capacity_def Let_def k(2) j(2) if_False)
    show ?thesis
      by (cases "m_realloc_ok s (unat (2 ^ j :: u32) * 2)") (use e c j(3) in \<open>auto intro: fail grown\<close>)
  qed
qed

section \<open>Emitted bytes\<close>

definition out_ok :: "'a mdec_st_scheme \<Rightarrow> bool" where
  "out_ok s \<longleftrightarrow> m_output_size s \<le> m_output_cap s \<and> cap_ok (m_output_cap s)"

definition out_bytes :: "'a mdec_st_scheme \<Rightarrow> u8 list" where
  "out_bytes s = map (m_output s) [0 ..< unat (m_output_size s)]"

text \<open>The part of the state the decode loops leave alone, as the state with the other fields
  blanked out.\<close>

definition stable_part :: "'a mdec_st_scheme \<Rightarrow> 'a mdec_st_scheme" where
  "stable_part s = s\<lparr> m_output := (\<lambda>_. 0), m_output_size := 0, m_output_cap := 0,
     m_decode_blocks := 0, m_decode_macroblocks := 0, m_decode_stop_reason := 0 \<rparr>"

lemma stable_part_update [simp]:
  "stable_part (s\<lparr> m_output := out \<rparr>) = stable_part s"
  "stable_part (s\<lparr> m_output_size := n \<rparr>) = stable_part s"
  "stable_part (s\<lparr> m_output_cap := n \<rparr>) = stable_part s"
  "stable_part (s\<lparr> m_decode_blocks := n \<rparr>) = stable_part s"
  "stable_part (s\<lparr> m_decode_macroblocks := n \<rparr>) = stable_part s"
  "stable_part (s\<lparr> m_decode_stop_reason := n \<rparr>) = stable_part s"
  by (simp_all add: stable_part_def)

lemma stable_part_fields:
  assumes "stable_part s' = stable_part s"
  shows "m_output_depth s' = m_output_depth s" "m_output_bit15 s' = m_output_bit15 s"
    "m_output_signed s' = m_output_signed s" "m_realloc_ok s' = m_realloc_ok s"
    "m_input s' = m_input s" "m_scale s' = m_scale s" "m_y_quant s' = m_y_quant s"
    "m_uv_quant s' = m_uv_quant s" "m_output_pos s' = m_output_pos s" "m_input_cap s' = m_input_cap s"
    "m_command s' = m_command s" "mdec_trace_head s' = mdec_trace_head s" "mdec_trace_seq s' = mdec_trace_seq s"
    "mdec_trace s' = mdec_trace s"
  using arg_cong [OF assms, of m_output_depth] arg_cong [OF assms, of m_output_bit15]
    arg_cong [OF assms, of m_output_signed] arg_cong [OF assms, of m_realloc_ok]
    arg_cong [OF assms, of m_input] arg_cong [OF assms, of m_scale] arg_cong [OF assms, of m_y_quant]
    arg_cong [OF assms, of m_uv_quant] arg_cong [OF assms, of m_output_pos] arg_cong [OF assms, of m_input_cap]
    arg_cong [OF assms, of m_command] arg_cong [OF assms, of mdec_trace_head]
    arg_cong [OF assms, of mdec_trace_seq] arg_cong [OF assms, of mdec_trace]
  by (simp_all add: stable_part_def)

definition emits :: "u8 list \<Rightarrow> 'a mdec_st_scheme \<Rightarrow> 'a mdec_st_scheme \<Rightarrow> bool" where
  "emits vs s s' \<longleftrightarrow>
     stable_part s' = stable_part s \<and>
     out_ok s' \<and> unat (m_output_size s') \<le> unat (m_output_size s) + length vs \<and>
     ((\<forall>n. m_realloc_ok s n) \<longrightarrow> out_bytes s' = out_bytes s @ vs)"

lemma emits_refl: "out_ok s \<Longrightarrow> emits [] s s"
  by (simp add: emits_def)

lemma emits_trans:
  assumes st: "emits vs s t" and tu: "emits ws t u"
  shows "emits (vs @ ws) s u"
proof -
  have "m_realloc_ok t = m_realloc_ok s"
    using st unfolding emits_def by (blast intro: stable_part_fields(4))
  then show ?thesis
    using st tu by (simp add: emits_def)
qed

lemma emits_counters:
  assumes "out_ok s"
  shows "emits [] s (s\<lparr> m_decode_blocks := n \<rparr>)" "emits [] s (s\<lparr> m_decode_macroblocks := n \<rparr>)"
    "emits [] s (s\<lparr> m_decode_stop_reason := n \<rparr>)"
  using assms by (simp_all add: emits_def out_ok_def out_bytes_def)

lemma emits_store_byte:
  assumes "cap_ok c" and "m_output_size s + 1 \<le> c"
    and n: "unat (m_output_size s + 1) = unat (m_output_size s) + 1"
  shows "emits [v] s (s\<lparr> m_output_cap := c, m_output := (m_output s)(unat (m_output_size s) := v),
           m_output_size := m_output_size s + 1 \<rparr>)" (is "emits _ _ ?t")
proof -
  have "out_bytes ?t = out_bytes s @ [v]"
    by (simp add: out_bytes_def n)
  then show ?thesis
    using assms by (simp add: emits_def out_ok_def)
qed

lemma emits_append_byte:
  assumes ok: "out_ok s" and room: "unat (m_output_size s) < 2 ^ 31"
  shows "emits [v] s (append_byte v s)"
proof -
  let ?n = "m_output_size s + 1"
  have n: "unat ?n = unat (m_output_size s) + 1"
    using room by (simp add: unat_word_ariths(1))
  show ?thesis
  proof (rule ensure_output_capacity_cases [of s ?n])
    show "cap_ok (m_output_cap s)" using ok by (simp add: out_ok_def)
    show "unat ?n \<le> 2 ^ 31" using room n by simp
  next
    assume *: "?n \<le> m_output_cap s" "ensure_output_capacity ?n s = (True, s)"
    with emits_store_byte [of "m_output_cap s" s v] ok n show ?thesis
      by (simp add: append_byte_def out_ok_def)
  next
    fix k assume *: "\<not> m_realloc_ok s k" "ensure_output_capacity ?n s = (False, s)"
    with emits_refl [OF ok] show ?thesis
      by (auto simp: append_byte_def emits_def)
  next
    fix c assume *: "cap_ok c" "?n \<le> c" "ensure_output_capacity ?n s = (True, s\<lparr> m_output_cap := c \<rparr>)"
    with emits_store_byte [of c s v] n show ?thesis
      by (simp add: append_byte_def)
  qed
qed

lemma emits_fold_append_byte:
  assumes "out_ok s" and "unat (m_output_size s) + length vs \<le> 2 ^ 31"
  shows "emits vs s (fold append_byte vs s)"
  using assms
proof (induction vs arbitrary: s)
  case Nil
  then show ?case by (simp add: emits_refl)
next
  case (Cons v vs)
  have head: "emits [v] s (append_byte v s)"
    using Cons.prems by (intro emits_append_byte) auto
  then have "out_ok (append_byte v s)" "unat (m_output_size (append_byte v s)) + length vs \<le> 2 ^ 31"
    using Cons.prems by (auto simp: emits_def)
  from emits_trans [OF head Cons.IH [OF this]] show ?case by simp
qed


section \<open>The reference decoder\<close>

text \<open>The bytes of one pixel and of one block as pure functions of the samples and of the
  output format the command selected.\<close>

definition pixel_bytes :: "'a mdec_st_scheme \<Rightarrow> int \<Rightarrow> int \<Rightarrow> int \<Rightarrow> u8 list" where
  "pixel_bytes s y cr cb =
     (let (ru, gu, bu) = ycbcr_to_rgb y cr cb
      in if m_output_depth s = 3
         then let packed = (word_of_int (rgb_to_555_chan (word_of_int ru)
                             OR push_bit 5 (rgb_to_555_chan (word_of_int gu))
                             OR push_bit 10 (rgb_to_555_chan (word_of_int bu))) :: u16)
                           XOR ((if m_output_bit15 s \<noteq> 0 then 0x8000 else 0)
                                OR (if m_output_signed s \<noteq> 0 then 0x4210 else 0))
              in [ucast packed, ucast (drop_bit 8 packed)]
         else map (\<lambda>c. word_of_int c XOR (if m_output_signed s \<noteq> 0 then 0x80 else 0x00)) [ru, gu, bu])"

definition luma_bytes :: "'a mdec_st_scheme \<Rightarrow> block \<Rightarrow> u8 list" where
  "luma_bytes s blk = map (\<lambda>i. to_output_u8 (sint (blk i)) s) [0 ..< 64]"

definition macroblock_pixel :: "'a mdec_st_scheme \<Rightarrow> block list \<Rightarrow> nat \<Rightarrow> nat \<Rightarrow> u8 list" where
  "macroblock_pixel s blks py px =
     pixel_bytes s (sint ((blks ! (2 + (py div 8 * 2 + px div 8))) (px mod 8 + py mod 8 * 8)))
       (sint ((blks ! 0) (px div 2 + py div 2 * 8))) (sint ((blks ! 1) (px div 2 + py div 2 * 8)))"

definition macroblock_bytes :: "'a mdec_st_scheme \<Rightarrow> block list \<Rightarrow> u8 list" where
  "macroblock_bytes s blks = concat (map (\<lambda>py. concat (map (macroblock_pixel s blks py) [0 ..< 16])) [0 ..< 16])"

lemma emits_append_rgb_pixel:
  assumes "out_ok s" and "unat (m_output_size s) + 3 \<le> 2 ^ 31"
  shows "emits (pixel_bytes s y cr cb) s (append_rgb_pixel y cr cb s)"
proof -
  obtain ru gu bu where rgb: "ycbcr_to_rgb y cr cb = (ru, gu, bu)"
    by (metis surj_pair)
  have "length (pixel_bytes s y cr cb) \<le> 3"
    by (simp add: pixel_bytes_def rgb Let_def)
  moreover have "append_rgb_pixel y cr cb s = fold append_byte (pixel_bytes s y cr cb) s"
    by (simp add: pixel_bytes_def append_rgb_pixel_def rgb Let_def)
  ultimately show ?thesis
    using emits_fold_append_byte [of s "pixel_bytes s y cr cb"] assms by simp
qed

lemma length_pixel_bytes: "length (pixel_bytes s y cr cb) = (if m_output_depth s = 3 then 2 else 3)"
  by (simp add: pixel_bytes_def Let_def split_beta)

lemma length_macroblock_pixel: "length (macroblock_pixel s blks py px) = (if m_output_depth s = 3 then 2 else 3)"
  by (simp add: macroblock_pixel_def length_pixel_bytes)

text \<open>A format-preserving step leaves the pure byte functions unchanged.\<close>

lemma format_frame:
  assumes "m_output_depth s' = m_output_depth s" "m_output_bit15 s' = m_output_bit15 s"
    "m_output_signed s' = m_output_signed s"
  shows "pixel_bytes s' = pixel_bytes s" "luma_bytes s' = luma_bytes s"
    "macroblock_bytes s' = macroblock_bytes s" "macroblock_pixel s' = macroblock_pixel s"
proof -
  show px: "pixel_bytes s' = pixel_bytes s"
    by (intro ext) (simp only: pixel_bytes_def assms)
  show "luma_bytes s' = luma_bytes s"
    by (intro ext) (simp add: luma_bytes_def to_output_u8_def assms)
  show mp: "macroblock_pixel s' = macroblock_pixel s"
    by (intro ext) (simp only: macroblock_pixel_def px)
  show "macroblock_bytes s' = macroblock_bytes s"
    by (intro ext) (simp only: macroblock_bytes_def mp)
qed

lemma emits_format:
  assumes "emits vs s s'"
  shows "m_output_depth s' = m_output_depth s" "m_output_bit15 s' = m_output_bit15 s"
    "m_output_signed s' = m_output_signed s"
    "macroblock_bytes s' = macroblock_bytes s" "luma_bytes s' = luma_bytes s"
    "macroblock_pixel s' = macroblock_pixel s" "m_realloc_ok s' = m_realloc_ok s"
proof -
  have st: "stable_part s' = stable_part s" using assms by (simp add: emits_def)
  show "m_output_depth s' = m_output_depth s" "m_output_bit15 s' = m_output_bit15 s"
    "m_output_signed s' = m_output_signed s" "m_realloc_ok s' = m_realloc_ok s"
    by (rule stable_part_fields [OF st])+
  then show "macroblock_bytes s' = macroblock_bytes s" "luma_bytes s' = luma_bytes s"
    "macroblock_pixel s' = macroblock_pixel s"
    by (intro format_frame; simp)+
qed

text \<open>Emission by a loop whose body emits a byte string that only depends on the format.\<close>

lemma emits_fold:
  assumes body: "\<And>i t. i \<in> set xs \<Longrightarrow> out_ok t \<Longrightarrow> unat (m_output_size t) + k \<le> 2 ^ 31 \<Longrightarrow>
      m_output_depth t = m_output_depth s \<Longrightarrow> m_output_bit15 t = m_output_bit15 s \<Longrightarrow>
      m_output_signed t = m_output_signed s \<Longrightarrow> emits (g i) t (f i t)"
    and len: "\<And>i. i \<in> set xs \<Longrightarrow> length (g i) \<le> k"
    and ok: "out_ok s" and room: "unat (m_output_size s) + k * length xs \<le> 2 ^ 31"
  shows "emits (concat (map g xs)) s (fold f xs s)"
  using assms
proof (induction xs arbitrary: s)
  case Nil
  then show ?case by (simp add: emits_refl)
next
  case (Cons x xs)
  have head: "emits (g x) s (f x s)"
    using Cons.prems(4) by (intro Cons.prems(1)) (auto simp: Cons.prems(3))
  then have size: "unat (m_output_size (f x s)) \<le> unat (m_output_size s) + k"
    using Cons.prems(2) [of x] by (simp add: emits_def)
  have "emits (concat (map g xs)) (f x s) (fold f xs (f x s))"
  proof (rule Cons.IH)
    show "out_ok (f x s)" using head by (simp add: emits_def)
    show "unat (m_output_size (f x s)) + k * length xs \<le> 2 ^ 31"
      using size Cons.prems(4) by (simp add: algebra_simps)
  qed (use Cons.prems(1,2) emits_format [OF head] in auto)
  from emits_trans [OF head this] show ?case by simp
qed

lemma emits_append_luma_block:
  assumes "out_ok s" and "unat (m_output_size s) + 64 \<le> 2 ^ 31"
  shows "emits (luma_bytes s blk) s (append_luma_block blk s)"
proof -
  have "emits (concat (map (\<lambda>i. [to_output_u8 (sint (blk i)) s]) [0 ..< 64])) s
          (fold (\<lambda>i s. append_byte (to_output_u8 (sint (blk i)) s) s) [0 ..< 64] s)"
  proof (rule emits_fold [where k = 1])
    fix i t assume "out_ok t" "unat (m_output_size t) + 1 \<le> 2 ^ 31" "m_output_signed t = m_output_signed s"
    with emits_append_byte [of t "to_output_u8 (sint (blk i)) s"]
    show "emits [to_output_u8 (sint (blk i)) s] t (append_byte (to_output_u8 (sint (blk i)) t) t)"
      by (simp add: to_output_u8_def)
  qed (use assms in auto)
  then show ?thesis
    by (simp add: append_luma_block_def luma_bytes_def concat_map_singleton)
qed

lemma append_color_pixel_alt:
  "px < 16 \<Longrightarrow> py < 16 \<Longrightarrow>
     append_color_pixel (blks ! 0) (blks ! 1) (\<lambda>i. blks ! (2 + i)) py px s =
     append_rgb_pixel (sint ((blks ! (2 + (py div 8 * 2 + px div 8))) (px mod 8 + py mod 8 * 8)))
       (sint ((blks ! 0) (px div 2 + py div 2 * 8))) (sint ((blks ! 1) (px div 2 + py div 2 * 8))) s"
proof -
  assume "px < 16" "py < 16"
  then have "(if 8 \<le> py then 2 else 0) = py div 8 * 2" "(if 8 \<le> px then 1 else 0) = px div 8"
    by (auto simp: div_nat_eqI)
  then show ?thesis by (simp add: append_color_pixel_def Let_def)
qed

lemma emits_append_color_macroblock:
  assumes "out_ok s" and "unat (m_output_size s) + 768 \<le> 2 ^ 31"
  shows "emits (macroblock_bytes s blks) s
           (append_color_macroblock (blks ! 0) (blks ! 1) (\<lambda>i. blks ! (2 + i)) s)"
  unfolding append_color_macroblock_def macroblock_bytes_def
proof (rule emits_fold [where k = 48])
  fix py t
  assume t: "py \<in> set [0 ..< 16]" "out_ok t" "unat (m_output_size t) + 48 \<le> 2 ^ 31"
    "m_output_depth t = m_output_depth s" "m_output_bit15 t = m_output_bit15 s"
    "m_output_signed t = m_output_signed s"
  have "emits (concat (map (macroblock_pixel t blks py) [0 ..< 16])) t
          (fold (append_color_pixel (blks ! 0) (blks ! 1) (\<lambda>i. blks ! (2 + i)) py) [0 ..< 16] t)"
  proof (rule emits_fold [where k = 3])
    fix px u
    assume u: "px \<in> set [0 ..< 16]" "out_ok u" "unat (m_output_size u) + 3 \<le> 2 ^ 31"
      "m_output_depth u = m_output_depth t" "m_output_bit15 u = m_output_bit15 t"
      "m_output_signed u = m_output_signed t"
    have "pixel_bytes t = pixel_bytes u"
      by (rule format_frame) (simp_all add: u)
    with emits_append_rgb_pixel [OF u(2,3)] u(1) t(1)
    show "emits (macroblock_pixel t blks py px) u
            (append_color_pixel (blks ! 0) (blks ! 1) (\<lambda>i. blks ! (2 + i)) py px u)"
      by (simp only: append_color_pixel_alt macroblock_pixel_def set_upt atLeastLessThan_iff)
  qed (use t in \<open>auto simp: length_macroblock_pixel\<close>)
  then show "emits (concat (map (macroblock_pixel s blks py) [0 ..< 16])) t
          (fold (append_color_pixel (blks ! 0) (blks ! 1) (\<lambda>i. blks ! (2 + i)) py) [0 ..< 16] t)"
    using format_frame(4) [of t s] t by simp
qed (use assms in \<open>auto simp: length_macroblock_pixel length_concat comp_def sum_list_triv\<close>)

section \<open>The decode loops refine the reference decoder\<close>

function luma_ref ::
  "(nat \<Rightarrow> u16) \<Rightarrow> (nat \<Rightarrow> u16) \<Rightarrow> (nat \<Rightarrow> u8) \<Rightarrow> nat \<Rightarrow> nat \<Rightarrow> block list" where
  "luma_ref input scale quant pos end_pos =
     (if pos < end_pos
      then fst (decode_rle_pure input scale quant pos end_pos)
             # luma_ref input scale quant (snd (decode_rle_pure input scale quant pos end_pos)) end_pos
      else [])"
  by pat_completeness auto
termination
  by (relation "measure (\<lambda>(input, scale, quant, pos, end_pos). end_pos - pos)")
     (auto simp: decode_rle_pure_bounds diff_less_mono2)

fun ref_blocks ::
  "(nat \<Rightarrow> u16) \<Rightarrow> (nat \<Rightarrow> u16) \<Rightarrow> (nat \<Rightarrow> u8) list \<Rightarrow> nat \<Rightarrow> nat \<Rightarrow> (block list \<times> nat) option" where
  "ref_blocks input scale [] pos end_pos = Some ([], pos)"
| "ref_blocks input scale (quant # qs) pos end_pos =
     (if pos < end_pos
      then let (blk, pos1) = decode_rle_pure input scale quant pos end_pos
           in map_option (\<lambda>(blks, pos2). (blk # blks, pos2)) (ref_blocks input scale qs pos1 end_pos)
      else None)"

lemma ref_blocks_pos:
  "ref_blocks input scale qs pos end_pos = Some (blks, pos') \<Longrightarrow> pos + length qs \<le> pos' \<and> length blks = length qs"
proof (induction qs arbitrary: pos blks)
  case Nil
  then show ?case by simp
next
  case (Cons q qs)
  with decode_rle_pure_bounds(1) [of pos end_pos input scale q] show ?case
    by (fastforce split: if_splits prod.splits)
qed

abbreviation color_quants :: "(nat \<Rightarrow> u8) \<Rightarrow> (nat \<Rightarrow> u8) \<Rightarrow> (nat \<Rightarrow> u8) list" where
  "color_quants uvq yq \<equiv> [uvq, uvq, yq, yq, yq, yq]"

function color_ref ::
  "(nat \<Rightarrow> u16) \<Rightarrow> (nat \<Rightarrow> u16) \<Rightarrow> (nat \<Rightarrow> u8) \<Rightarrow> (nat \<Rightarrow> u8) \<Rightarrow> nat \<Rightarrow> nat \<Rightarrow> block list list" where
  "color_ref input scale uvq yq pos end_pos =
     (if pos < end_pos
      then case ref_blocks input scale (color_quants uvq yq) pos end_pos of
             None \<Rightarrow> []
           | Some (blks, pos1) \<Rightarrow> blks # color_ref input scale uvq yq pos1 end_pos
      else [])"
  by pat_completeness auto
termination
  by (relation "measure (\<lambda>(input, scale, uvq, yq, pos, end_pos). end_pos - pos)")
     (auto simp del: ref_blocks.simps dest: ref_blocks_pos)

declare luma_ref.simps [simp del] color_ref.simps [simp del]

lemma length_luma_bytes [simp]: "length (luma_bytes s blk) = 64"
  by (simp add: luma_bytes_def)

lemma length_macroblock_bytes [simp]:
  "length (macroblock_bytes s blks) = (if m_output_depth s = 3 then 512 else 768)"
  by (simp add: macroblock_bytes_def length_macroblock_pixel length_concat comp_def sum_list_triv)

lemma append_byte_counter [simp]: "m_decode_macroblocks (append_byte v s) = m_decode_macroblocks s"
  by (simp add: append_byte_def ensure_output_capacity_def Let_def)

lemma append_blocks_counter [simp]:
  "m_decode_macroblocks (append_luma_block blk s) = m_decode_macroblocks s"
  "m_decode_macroblocks (append_color_macroblock cr cb y s) = m_decode_macroblocks s"
proof -
  have px: "m_decode_macroblocks (append_color_pixel cr cb y py px t) = m_decode_macroblocks t" for py px t
    by (simp add: append_color_pixel_def append_rgb_pixel_def Let_def split_beta)
  have row: "m_decode_macroblocks (fold (append_color_pixel cr cb y py) xs t) = m_decode_macroblocks t" for py xs t
    by (induction xs arbitrary: t) (simp_all add: px)
  have "m_decode_macroblocks (fold (\<lambda>py. fold (append_color_pixel cr cb y py) xs) ys t) = m_decode_macroblocks t" for xs ys t
    by (induction ys arbitrary: t) (simp_all add: row)
  then show "m_decode_macroblocks (append_color_macroblock cr cb y s) = m_decode_macroblocks s"
    by (simp add: append_color_macroblock_def)
  have "m_decode_macroblocks (fold (\<lambda>i s. append_byte (to_output_u8 (sint (blk i)) s) s) xs t) = m_decode_macroblocks t" for xs t
    by (induction xs arbitrary: t) simp_all
  then show "m_decode_macroblocks (append_luma_block blk s) = m_decode_macroblocks s"
    by (simp add: append_luma_block_def)
qed

lemma luma_loop_refines:
  assumes "out_ok s" and "unat (m_output_size s) + 64 * (end_pos - pos) \<le> 2 ^ 31"
    and "luma_loop pos end_pos s = (pos', s')" and "pos \<le> end_pos"
  shows "pos' = end_pos \<and>
    emits (concat (map (luma_bytes s) (luma_ref (m_input s) (m_scale s) (m_y_quant s) pos end_pos))) s s' \<and>
    m_decode_macroblocks s' = m_decode_macroblocks s
      + of_nat (length (luma_ref (m_input s) (m_scale s) (m_y_quant s) pos end_pos))"
  using assms
proof (induction pos end_pos s arbitrary: pos' s' rule: luma_loop.induct)
  case (1 pos end_pos s)
  let ?d = "decode_rle_pure (m_input s) (m_scale s) (m_y_quant s) pos end_pos"
  show ?case
  proof (cases "pos < end_pos")
    case False
    with "1.prems" show ?thesis
      by (simp add: luma_loop.simps luma_ref.simps emits_refl)
  next
    case True
    define s1 where "s1 = s\<lparr> m_decode_blocks := m_decode_blocks s + 1 \<rparr>"
    define s2 where "s2 = append_luma_block (fst ?d) s1"
    define s3 where "s3 = s2\<lparr> m_decode_macroblocks := m_decode_macroblocks s2 + 1 \<rparr>"
    have d: "decode_rle_block (m_y_quant s) pos end_pos s = (True, fst ?d, snd ?d, s1)"
      using True by (simp add: decode_rle_block_def s1_def split_beta)
    have loop: "luma_loop pos end_pos s = luma_loop (snd ?d) end_pos s3"
      using True d by (subst luma_loop.simps) (simp add: s2_def s3_def)
    have b: "pos < snd ?d" "snd ?d \<le> end_pos"
      using decode_rle_pure_bounds [OF True] by auto
    have e1: "emits [] s s1"
      unfolding s1_def using "1.prems"(1) by (rule emits_counters)
    have "out_ok s1" using e1 by (simp add: emits_def)
    moreover have "unat (m_output_size s1) + 64 \<le> 2 ^ 31"
      using "1.prems"(2) True by (simp add: s1_def)
    ultimately have e2: "emits (luma_bytes s (fst ?d)) s1 s2"
      unfolding s2_def emits_format(5) [OF e1, symmetric] by (rule emits_append_luma_block)
    have e3: "emits [] s2 s3"
      unfolding s3_def using e2 by (intro emits_counters) (simp add: emits_def)
    have e: "emits (luma_bytes s (fst ?d)) s s3"
      using emits_trans [OF emits_trans [OF e1 e2] e3] by simp
    have "unat (m_output_size s3) \<le> unat (m_output_size s) + 64"
      using e by (simp add: emits_def)
    then have size: "unat (m_output_size s3) + 64 * (end_pos - snd ?d) \<le> 2 ^ 31"
      using b "1.prems"(2) by arith
    have st: "stable_part s3 = stable_part s" "out_ok s3" using e by (simp_all add: emits_def)
    note same = stable_part_fields [OF st(1)]
    have ih: "pos' = end_pos \<and>
        emits (concat (map (luma_bytes s3) (luma_ref (m_input s3) (m_scale s3) (m_y_quant s3) (snd ?d) end_pos))) s3 s' \<and>
        m_decode_macroblocks s' = m_decode_macroblocks s3
          + of_nat (length (luma_ref (m_input s3) (m_scale s3) (m_y_quant s3) (snd ?d) end_pos))"
      using "1.IH" [OF True d [symmetric] refl refl _ s2_def, of pos' s'] st size "1.prems"(3) b loop
      by (simp add: s3_def)
    have mb: "m_decode_macroblocks s3 = m_decode_macroblocks s + 1"
      by (simp add: s3_def s2_def s1_def)
    have lb: "luma_bytes s3 = luma_bytes s"
      by (rule emits_format(5) [OF e])
    show ?thesis
      using ih True emits_trans [OF e conjunct1 [OF conjunct2 [OF ih]]]
      by (subst (1 2) luma_ref.simps) (simp add: same mb lb)
  qed
qed

lemma decode_block_seq_ref:
  "decode_block_seq qs pos end_pos s = (r, pos', s') \<Longrightarrow>
     (case ref_blocks (m_input s) (m_scale s) (map fst qs) pos end_pos of
        None \<Rightarrow> \<exists>e. r = Inl e
      | Some (blks, p) \<Rightarrow> r = Inr blks \<and> pos' = p)"
proof (induction qs arbitrary: pos s r pos' s')
  case Nil
  then show ?case by simp
next
  case (Cons qr qs)
  obtain quant reason where qr: "qr = (quant, reason)" by (cases qr)
  let ?d = "decode_rle_pure (m_input s) (m_scale s) quant pos end_pos"
  let ?s1 = "s\<lparr> m_decode_blocks := m_decode_blocks s + 1 \<rparr>"
  obtain r2 p2 s2 where rest: "decode_block_seq qs (snd ?d) end_pos ?s1 = (r2, p2, s2)"
    by (metis surj_pair)
  show ?case
  proof (cases "pos < end_pos")
    case True
    with Cons.prems rest show ?thesis
      using Cons.IH [OF rest]
      by (auto simp: qr decode_rle_block_def split_beta split: option.splits sum.splits)
  next
    case False
    with Cons.prems show ?thesis by (auto simp: qr decode_rle_block_def)
  qed
qed

lemma color_loop_refines:
  assumes "out_ok s" and "unat (m_output_size s) + 128 * (end_pos - pos) \<le> 2 ^ 31"
    and "color_loop pos end_pos s = (pos', s')" and "pos \<le> end_pos"
  shows "pos' = end_pos \<and>
    emits (concat (map (macroblock_bytes s) (color_ref (m_input s) (m_scale s) (m_uv_quant s) (m_y_quant s) pos end_pos))) s s' \<and>
    m_decode_macroblocks s' = m_decode_macroblocks s
      + of_nat (length (color_ref (m_input s) (m_scale s) (m_uv_quant s) (m_y_quant s) pos end_pos))"
  using assms
proof (induction pos end_pos s arbitrary: pos' s' rule: color_loop.induct)
  case (1 pos end_pos s)
  let ?ref = "ref_blocks (m_input s) (m_scale s) (color_quants (m_uv_quant s) (m_y_quant s)) pos end_pos"
  obtain r p1 s1 where d: "decode_color_blocks pos end_pos s = (r, p1, s1)"
    by (metis surj_pair)
  note bounds = decode_color_blocks_pos [OF d]
  have ref: "case ?ref of None \<Rightarrow> \<exists>e. r = Inl e | Some (blks, p) \<Rightarrow> r = Inr blks \<and> p1 = p"
    using decode_block_seq_ref [OF d [unfolded decode_color_blocks_def]]
    by (simp only: list.map fst_conv)
  have e1: "emits [] s s1"
    using bounds(3) "1.prems"(1) emits_counters(1) by blast
  then have s1: "out_ok s1" "m_output_size s1 = m_output_size s" "m_decode_macroblocks s1 = m_decode_macroblocks s"
    using bounds(3) by (auto simp: emits_def)
  consider (stop) "\<not> pos < end_pos" | (short) e where "pos < end_pos" "r = Inl e"
    | (more) blks where "pos < end_pos" "r = Inr blks"
    by (cases r) auto
  then show ?case
  proof cases
    case stop
    with "1.prems" show ?thesis
      by (simp add: color_loop.simps color_ref.simps emits_refl)
  next
    case (short e)
    then have loop: "pos' = p1" "s' = s1\<lparr> m_decode_stop_reason := e \<rparr>"
      using "1.prems"(3) d by (simp_all add: color_loop.simps)
    have none: "?ref = None" using ref short by (auto split: option.splits)
    have "color_ref (m_input s) (m_scale s) (m_uv_quant s) (m_y_quant s) pos end_pos = []"
      using none by (subst color_ref.simps) (simp only: option.case if_cancel)
    moreover have "p1 = end_pos" using bounds(2,4) short by (simp add: antisym)
    moreover have "emits [] s s'"
      using emits_trans [OF e1 emits_counters(3) [OF s1(1), of e]] loop by simp
    ultimately show ?thesis using loop s1 by simp
  next
    case (more blks)
    define s2 where "s2 = append_color_macroblock (blks ! 0) (blks ! 1) (\<lambda>i. blks ! (2 + i)) s1"
    define s3 where "s3 = s2\<lparr> m_decode_macroblocks := m_decode_macroblocks s2 + 1 \<rparr>"
    have loop: "color_loop pos end_pos s = color_loop p1 end_pos s3"
      using more d by (subst color_loop.simps) (simp add: s2_def s3_def)
    have b: "pos + 6 \<le> p1" "p1 \<le> end_pos" using bounds(2,5) more by auto
    have some: "?ref = Some (blks, p1)" using ref more by (auto split: option.splits)
    have room: "unat (m_output_size s1) + 768 \<le> 2 ^ 31"
      using b "1.prems"(2) s1 by (simp add: s1)
    have e2: "emits (macroblock_bytes s blks) s1 s2"
      unfolding s2_def emits_format(4) [OF e1, symmetric] by (rule emits_append_color_macroblock [OF s1(1) room])
    have e3: "emits [] s2 s3"
      unfolding s3_def using e2 by (intro emits_counters) (simp add: emits_def)
    have e: "emits (macroblock_bytes s blks) s s3"
      using emits_trans [OF emits_trans [OF e1 e2] e3] by simp
    have "unat (m_output_size s3) \<le> unat (m_output_size s) + 768"
      using e by (simp add: emits_def split: if_splits)
    then have size: "unat (m_output_size s3) + 128 * (end_pos - p1) \<le> 2 ^ 31"
      using b "1.prems"(2) by arith
    have st: "stable_part s3 = stable_part s" "out_ok s3" using e by (simp_all add: emits_def)
    note same = stable_part_fields [OF st(1)]
    have ih: "pos' = end_pos \<and>
        emits (concat (map (macroblock_bytes s3) (color_ref (m_input s3) (m_scale s3) (m_uv_quant s3) (m_y_quant s3) p1 end_pos))) s3 s' \<and>
        m_decode_macroblocks s' = m_decode_macroblocks s3
          + of_nat (length (color_ref (m_input s3) (m_scale s3) (m_uv_quant s3) (m_y_quant s3) p1 end_pos))"
      using "1.IH" [OF more(1) d [symmetric] more(2) refl s2_def, of pos' s'] st size "1.prems"(3) b loop
      by (simp add: s3_def)
    have mb: "m_decode_macroblocks s3 = m_decode_macroblocks s + 1"
      by (simp add: s3_def s2_def s1)
    have lb: "macroblock_bytes s3 = macroblock_bytes s"
      by (rule emits_format(4) [OF e])
    have unfold_ref: "color_ref (m_input s) (m_scale s) (m_uv_quant s) (m_y_quant s) pos end_pos
        = blks # color_ref (m_input s) (m_scale s) (m_uv_quant s) (m_y_quant s) p1 end_pos"
      using more(1) some by (subst color_ref.simps) (simp del: ref_blocks.simps)
    show ?thesis
      using ih emits_trans [OF e conjunct1 [OF conjunct2 [OF ih]]]
      unfolding unfold_ref by (simp add: same mb lb)
  qed
qed

section \<open>The state invariant\<close>

lemma trace_event_fields [simp]:
  "m_output (trace_event k v s) = m_output s" "m_output_size (trace_event k v s) = m_output_size s"
  "m_output_pos (trace_event k v s) = m_output_pos s" "m_output_cap (trace_event k v s) = m_output_cap s"
  "m_input (trace_event k v s) = m_input s" "m_input_cap (trace_event k v s) = m_input_cap s"
  "m_input_count (trace_event k v s) = m_input_count s" "m_busy (trace_event k v s) = m_busy s"
  "m_expected_halfwords (trace_event k v s) = m_expected_halfwords s" "m_command (trace_event k v s) = m_command s"
  "m_decode_macroblocks (trace_event k v s) = m_decode_macroblocks s" "m_y_quant (trace_event k v s) = m_y_quant s"
  "m_uv_quant (trace_event k v s) = m_uv_quant s" "m_scale (trace_event k v s) = m_scale s"
  "m_output_depth (trace_event k v s) = m_output_depth s" "m_output_signed (trace_event k v s) = m_output_signed s"
  "m_output_bit15 (trace_event k v s) = m_output_bit15 s" "m_realloc_ok (trace_event k v s) = m_realloc_ok s" "m_decode_input_pos (trace_event k v s) = m_decode_input_pos s"
  by (simp_all add: trace_event_def)

definition trace_ok :: "'a mdec_st_scheme \<Rightarrow> bool" where
  "trace_ok s \<longleftrightarrow> mdec_trace_head s = unat (mdec_trace_seq s) mod MDEC_TRACE_CAP"

lemma trace_ok_event [simp]: "trace_ok s \<Longrightarrow> trace_ok (trace_event k v s)"
  by (simp add: trace_ok_def trace_event_def unat_word_ariths(1) mod_mod_cancel mod_Suc_eq)

definition core_ok :: "'a mdec_st_scheme \<Rightarrow> bool" where
  "core_ok s \<longleftrightarrow> out_ok s \<and> cap_ok (m_input_cap s) \<and> m_output_pos s \<le> m_output_size s
     \<and> unat (m_output_size s) \<le> 2 ^ 24 \<and> trace_ok s"

definition mdec_ok :: "'a mdec_st_scheme \<Rightarrow> bool" where
  "mdec_ok s \<longleftrightarrow> core_ok s \<and>
     (if m_busy s = 0 then m_expected_halfwords s = 0 \<and> m_input_count s = 0
      else m_input_count s < m_expected_halfwords s \<and> m_expected_halfwords s \<le> m_input_cap s
           \<and> m_expected_halfwords s = command_halfwords (m_command s))"

lemma command_halfwords_bound: "unat (command_halfwords v) \<le> 131070"
proof -
  have "unat (v AND mask 16) < 2 ^ 16"
    by (simp add: unat_and_mask)
  then have "unat (v AND 0xFFFF) < 65536" by (simp add: mask_eq_exp_minus_1)
  then show ?thesis
    by (simp add: command_halfwords_def Let_def unat_word_ariths(2) mod_if)
qed

lemma core_ok_event [simp]: "core_ok s \<Longrightarrow> core_ok (trace_event k v s)"
  by (simp add: core_ok_def out_ok_def)

lemma core_ok_cong:
  assumes "core_ok s" "m_output_size s' = m_output_size s" "m_output_pos s' = m_output_pos s"
    "m_output_cap s' = m_output_cap s" "m_input_cap s' = m_input_cap s"
    "mdec_trace_head s' = mdec_trace_head s" "mdec_trace_seq s' = mdec_trace_seq s"
  shows "core_ok s'"
  using assms by (simp add: core_ok_def out_ok_def trace_ok_def)

lemma decode_prologue_fields [simp]:
  "m_output_size (decode_prologue s) = 0" "m_output_pos (decode_prologue s) = 0"
  "m_output_cap (decode_prologue s) = m_output_cap s" "m_input_cap (decode_prologue s) = m_input_cap s"
  "m_input (decode_prologue s) = m_input s" "m_scale (decode_prologue s) = m_scale s"
  "m_y_quant (decode_prologue s) = m_y_quant s" "m_uv_quant (decode_prologue s) = m_uv_quant s"
  "m_output_depth (decode_prologue s) = m_output_depth s" "m_output_bit15 (decode_prologue s) = m_output_bit15 s"
  "m_output_signed (decode_prologue s) = m_output_signed s" "m_realloc_ok (decode_prologue s) = m_realloc_ok s"
  "m_decode_macroblocks (decode_prologue s) = 0" "m_command (decode_prologue s) = m_command s"
  "mdec_trace_head (decode_prologue s) = mdec_trace_head s" "mdec_trace_seq (decode_prologue s) = mdec_trace_seq s"
  by (simp_all add: decode_prologue_def clear_output_def)

definition ref_bytes :: "'a mdec_st_scheme \<Rightarrow> u8 list" where
  "ref_bytes s =
     (let n = unat (m_input_count s)
      in if m_output_depth s < 2
         then concat (map (luma_bytes s) (luma_ref (m_input s) (m_scale s) (m_y_quant s) 0 n))
         else concat (map (macroblock_bytes s) (color_ref (m_input s) (m_scale s) (m_uv_quant s) (m_y_quant s) 0 n)))"

definition ref_count :: "'a mdec_st_scheme \<Rightarrow> nat" where
  "ref_count s =
     (let n = unat (m_input_count s)
      in if m_output_depth s < 2
         then length (luma_ref (m_input s) (m_scale s) (m_y_quant s) 0 n)
         else length (color_ref (m_input s) (m_scale s) (m_uv_quant s) (m_y_quant s) 0 n))"

text \<open>What a decode does: everything follows from the two loop refinements.\<close>

lemma execute_decode_emits:
  assumes ok: "out_ok s" and n: "unat (m_input_count s) \<le> 131070"
  shows "\<exists>t. emits (ref_bytes s) (decode_prologue s) t \<and>
     m_decode_macroblocks t = of_nat (ref_count s) \<and>
     m_output (execute_decode s) = m_output t \<and> m_output_size (execute_decode s) = m_output_size t \<and>
     m_output_cap (execute_decode s) = m_output_cap t \<and> m_output_pos (execute_decode s) = m_output_pos t \<and>
     m_input_cap (execute_decode s) = m_input_cap t \<and> m_command (execute_decode s) = m_command t \<and>
     (trace_ok t \<longrightarrow> trace_ok (execute_decode s)) \<and>
     m_decode_macroblocks (execute_decode s) = m_decode_macroblocks t \<and>
     m_decode_input_pos (execute_decode s) = m_input_count s \<and> m_scale (execute_decode s) = m_scale t"
proof -
  let ?p = "decode_prologue s" and ?n = "unat (m_input_count s)"
  have p: "out_ok ?p" using ok by (simp add: out_ok_def)
  have fmt: "luma_bytes ?p = luma_bytes s" "macroblock_bytes ?p = macroblock_bytes s"
    by (rule format_frame; simp)+
  show ?thesis
  proof (cases "m_output_depth s < 2")
    case True
    obtain q t where l: "luma_loop 0 ?n ?p = (q, t)" by (metis surj_pair)
    have *: "q = ?n \<and> emits (ref_bytes s) ?p t \<and> m_decode_macroblocks t = of_nat (ref_count s)"
      using luma_loop_refines [OF p _ l] n True by (simp add: ref_bytes_def ref_count_def fmt)
    show ?thesis
      by (intro exI [of _ t]) (use * True l in \<open>simp add: execute_decode_def Let_def trace_ok_def trace_event_def
        unat_word_ariths(1) mod_mod_cancel mod_Suc_eq\<close>)
  next
    case False
    obtain q t where l: "color_loop 0 ?n ?p = (q, t)" by (metis surj_pair)
    have *: "q = ?n \<and> emits (ref_bytes s) ?p t \<and> m_decode_macroblocks t = of_nat (ref_count s)"
      using color_loop_refines [OF p _ l] n False by (simp add: ref_bytes_def ref_count_def fmt)
    show ?thesis
      by (intro exI [of _ t]) (use * False l in \<open>simp add: execute_decode_def Let_def trace_ok_def trace_event_def
        unat_word_ariths(1) mod_mod_cancel mod_Suc_eq\<close>)
  qed
qed

lemma length_luma_ref: "pos \<le> end_pos \<Longrightarrow> length (luma_ref input scale quant pos end_pos) \<le> end_pos - pos"
proof (induction input scale quant pos end_pos rule: luma_ref.induct)
  case (1 input scale quant pos end_pos)
  then show ?case
    using decode_rle_pure_bounds [of pos end_pos input scale quant]
    by (subst luma_ref.simps) auto
qed

lemma ref_blocks_le:
  "ref_blocks input scale qs pos end_pos = Some (blks, pos') \<Longrightarrow> pos \<le> end_pos \<Longrightarrow> pos' \<le> end_pos"
proof (induction qs arbitrary: pos blks)
  case Nil
  then show ?case by simp
next
  case (Cons q qs)
  then show ?case
    using decode_rle_pure_bounds(2) [of pos end_pos input scale q]
    by (auto split: if_splits prod.splits)
qed

lemma length_color_ref:
  "pos \<le> end_pos \<Longrightarrow> 6 * length (color_ref input scale uvq yq pos end_pos) \<le> end_pos - pos"
proof (induction input scale uvq yq pos end_pos rule: color_ref.induct)
  case (1 input scale uvq yq pos end_pos)
  show ?case
  proof (cases "ref_blocks input scale (color_quants uvq yq) pos end_pos")
    case None
    then show ?thesis by (subst color_ref.simps) (simp del: ref_blocks.simps)
  next
    case (Some a)
    obtain blks p where a: "a = (blks, p)" by (cases a)
    have "pos + 6 \<le> p" "p \<le> end_pos"
      using ref_blocks_pos [OF Some [unfolded a]] ref_blocks_le [OF Some [unfolded a]] "1.prems" by auto
    then show ?thesis
      using "1.IH" [OF _ Some a [symmetric]] Some a by (subst color_ref.simps) (simp del: ref_blocks.simps)
  qed
qed

lemma length_concat_const:
  "(\<And>x. x \<in> set xs \<Longrightarrow> length (f x) = k) \<Longrightarrow> length (concat (map f xs)) = k * length xs"
  by (induction xs) simp_all

lemma length_ref_bytes:
  "length (ref_bytes s) =
     (if m_output_depth s < 2 then 64 else if m_output_depth s = 3 then 512 else 768) * ref_count s"
  by (simp add: ref_bytes_def ref_count_def Let_def length_concat_const [where k = 64]
      length_concat_const [where k = "if m_output_depth s = 3 then 512 else 768"])

lemma length_ref_bytes_le: "length (ref_bytes s) \<le> 128 * unat (m_input_count s)"
  using length_luma_ref [of 0 "unat (m_input_count s)" "m_input s" "m_scale s" "m_y_quant s"]
    length_color_ref [of 0 "unat (m_input_count s)" "m_input s" "m_scale s" "m_uv_quant s" "m_y_quant s"]
  by (simp add: length_ref_bytes) (simp add: ref_count_def Let_def split: if_splits)

lemma load_quant_fields [simp]:
  "m_output_size (load_quant s) = m_output_size s" "m_output_pos (load_quant s) = m_output_pos s"
  "m_output_cap (load_quant s) = m_output_cap s" "m_input_cap (load_quant s) = m_input_cap s"
  "mdec_trace_head (load_quant s) = mdec_trace_head s" "mdec_trace_seq (load_quant s) = mdec_trace_seq s"
  by (simp_all add: load_quant_def Let_def)

lemma load_scale_eq:
  "load_scale s = s\<lparr> m_scale := fold (\<lambda>i m. m(scale_transpose i := signed_drop_bit 3 (m_input s i))) [0 ..< 64] (m_scale s) \<rparr>"
proof -
  have "fold (\<lambda>i s. s\<lparr> m_scale := (m_scale s)(scale_transpose i := signed_drop_bit 3 (m_input s i)) \<rparr>) xs s =
      s\<lparr> m_scale := fold (\<lambda>i m. m(scale_transpose i := signed_drop_bit 3 (m_input s i))) xs (m_scale s) \<rparr>" for xs
    by (induction xs arbitrary: s) simp_all
  then show ?thesis unfolding load_scale_def .
qed

lemma core_ok_execute_decode:
  assumes "core_ok s" and "unat (m_input_count s) \<le> 131070"
  shows "core_ok (execute_decode s)"
proof -
  from assms(1) have "out_ok s" by (simp add: core_ok_def)
  from execute_decode_emits [OF this assms(2)] obtain t where
    t: "emits (ref_bytes s) (decode_prologue s) t" "m_output_size (execute_decode s) = m_output_size t"
     "m_output_cap (execute_decode s) = m_output_cap t" "m_output_pos (execute_decode s) = m_output_pos t"
     "m_input_cap (execute_decode s) = m_input_cap t" "trace_ok t \<longrightarrow> trace_ok (execute_decode s)"
    by blast
  from t(1) have st: "stable_part t = stable_part (decode_prologue s)" by (simp add: emits_def)
  note same = stable_part_fields [OF st]
  have "trace_ok t" using assms(1) same by (simp add: trace_ok_def core_ok_def)
  moreover have "unat (m_output_size t) \<le> 2 ^ 24"
    using t(1) length_ref_bytes_le [of s] assms(2) by (simp add: emits_def)
  ultimately show ?thesis
    using t same assms(1) by (simp add: core_ok_def emits_def out_ok_def)
qed

lemma core_ok_execute_command:
  assumes "core_ok s" and "unat (m_input_count s) \<le> 131070"
  shows "core_ok (execute_command s)" "m_busy (execute_command s) = 0"
    "m_expected_halfwords (execute_command s) = 0" "m_input_count (execute_command s) = 0"
proof -
  have "core_ok (finish_command u)" if "core_ok u" for u :: "'a mdec_st_scheme"
    unfolding finish_command_def by (intro core_ok_event core_ok_cong [OF that]) simp_all
  then show "core_ok (execute_command s)"
    using core_ok_execute_decode [OF assms] core_ok_cong [OF assms(1), of "load_quant s"]
      core_ok_cong [OF assms(1), of "load_scale s"] assms(1)
    by (simp add: execute_command_def Let_def load_scale_eq)
qed (simp_all add: execute_command_def finish_command_def Let_def)

lemma mdec_ok_write_data:
  assumes "mdec_ok s"
  shows "mdec_ok (write_data v s)"
proof (cases "m_busy s \<noteq> 0 \<and> m_input_count s < m_expected_halfwords s")
  case True
  define s1 where "s1 = store_halfword (ucast v) s"
  define s2 where "s2 = (if m_input_count s1 < m_expected_halfwords s1
                     then store_halfword (ucast (drop_bit 16 v)) s1 else s1)"
  have w: "write_data v s = (if m_input_count s2 \<ge> m_expected_halfwords s2 then execute_command s2 else s2)"
    using True by (simp add: write_data_def s1_def s2_def Let_def)
  have exp: "unat (m_expected_halfwords s) \<le> 131070"
    using assms True command_halfwords_bound by (simp add: mdec_ok_def)
  have core: "core_ok s2"
    using assms unfolding mdec_ok_def by (elim conjE core_ok_cong) (simp_all add: s2_def s1_def store_halfword_def)
  have c1: "unat (m_input_count s1) = unat (m_input_count s) + 1" "m_expected_halfwords s1 = m_expected_halfwords s"
    using True exp by (auto simp: s1_def store_halfword_def word_less_nat_alt unat_word_ariths(1))
  have c2: "unat (m_input_count s2) \<le> unat (m_expected_halfwords s)"
    using c1 True exp by (auto simp: s2_def store_halfword_def word_less_nat_alt unat_word_ariths(1) not_less)
  have same: "m_expected_halfwords s2 = m_expected_halfwords s" "m_busy s2 = m_busy s"
    "m_command s2 = m_command s" "m_input_cap s2 = m_input_cap s"
    by (simp_all add: s2_def s1_def store_halfword_def)
  show ?thesis
  proof (cases "m_input_count s2 \<ge> m_expected_halfwords s2")
    case True
    with w core_ok_execute_command [OF core] c2 exp show ?thesis by (simp add: mdec_ok_def)
  next
    case False
    then have "write_data v s = s2" by (simp add: w)
    with False core assms same \<open>m_busy s \<noteq> 0 \<and> _\<close> show ?thesis by (auto simp: mdec_ok_def not_le)
  qed
next
  case False
  define t where "t = s\<lparr> m_command := v,
                 m_output_bit15 := ucast (drop_bit 25 v AND 1),
                 m_output_signed := ucast (drop_bit 26 v AND 1),
                 m_output_depth := ucast (drop_bit 27 v AND 3),
                 m_current_block := 4, m_input_count := 0, m_input_full := 0, m_busy := 1,
                 m_expected_halfwords := command_halfwords v \<rparr>"
  have core: "core_ok t"
    using assms unfolding mdec_ok_def by (elim conjE core_ok_cong) (simp_all add: t_def)
  have fin: "mdec_ok (finish_command u)" if "core_ok u" for u :: "'a mdec_st_scheme"
    using core_ok_event [OF core_ok_cong [OF that, of "u\<lparr> m_expected_halfwords := 0, m_input_count := 0, m_busy := 0, m_input_full := 0 \<rparr>"]]
    by (simp add: finish_command_def mdec_ok_def)
  have e: "m_expected_halfwords t = command_halfwords v" "m_busy t = 1" "m_input_count t = 0" "m_command t = v"
    by (simp_all add: t_def)
  have w: "write_data v s = (if m_expected_halfwords t = 0 then finish_command t
         else let (ok, s1) = ensure_input_capacity (m_expected_halfwords t) t
              in if \<not> ok then finish_command s1 else trace_event MDEC_EVT_CMD_BEGIN v s1)"
    unfolding write_data_def if_not_P [OF False] begin_command_def t_def [symmetric] Let_def ..
  have cap: "cap_ok (m_input_cap t)" "unat (m_expected_halfwords t) \<le> 2 ^ 31"
    using core command_halfwords_bound [of v] by (auto simp: core_ok_def t_def)
  show ?thesis
  proof (cases "m_expected_halfwords t = 0")
    case True
    with w fin [OF core] show ?thesis by simp
  next
    case False
    from cap show ?thesis
    proof (cases rule: ensure_input_capacity_cases)
      case same
      with w core e False show ?thesis by (simp add: mdec_ok_def word_gt_0)
    next
      case (fail n)
      with w fin [OF core] show ?thesis by simp
    next
      case (grown c)
      have "core_ok (t\<lparr> m_input_cap := c \<rparr>)"
        using core grown by (simp add: core_ok_def out_ok_def trace_ok_def)
      with grown w e False show ?thesis by (simp add: mdec_ok_def word_gt_0)
    qed
  qed
qed

lemma mdec_ok_event [simp]: "mdec_ok s \<Longrightarrow> mdec_ok (trace_event k v s)"
  by (auto simp: mdec_ok_def split: if_splits)

lemma mdec_ok_update [simp]:
  "mdec_ok (s\<lparr> m_dma_read_underflows := n \<rparr>) \<longleftrightarrow> mdec_ok s" "mdec_ok (s\<lparr> m_dma_out_words := n \<rparr>) \<longleftrightarrow> mdec_ok s"
  "mdec_ok (s\<lparr> m_dma_in_words := n \<rparr>) \<longleftrightarrow> mdec_ok s" "mdec_ok (s\<lparr> m_last_status := n \<rparr>) \<longleftrightarrow> mdec_ok s"
  "mdec_ok (s\<lparr> m_enable_dma_in := b \<rparr>) \<longleftrightarrow> mdec_ok s" "mdec_ok (s\<lparr> m_enable_dma_out := b \<rparr>) \<longleftrightarrow> mdec_ok s"
  by (simp_all add: mdec_ok_def core_ok_def out_ok_def trace_ok_def)

lemma read_out_byte_step:
  "read_out_byte i (v, s) =
     (if m_output_pos s < m_output_size s
      then (v OR push_bit (i * 8) (ucast (m_output s (unat (m_output_pos s)))), s\<lparr> m_output_pos := m_output_pos s + 1 \<rparr>)
      else (v, s))"
  by (simp add: read_out_byte_def)

lemma fold_read_out_byte_frame:
  "\<exists>p. snd (fold read_out_byte is (v, s)) = s\<lparr> m_output_pos := p \<rparr> \<and>
     (m_output_pos s \<le> m_output_size s \<longrightarrow> p \<le> m_output_size s)"
proof (induction "is" arbitrary: v s)
  case Nil
  show ?case by (auto intro: exI [of _ "m_output_pos s"])
next
  case (Cons i "is")
  show ?case
  proof (cases "m_output_pos s < m_output_size s")
    case True
    then have "m_output_pos s + 1 \<le> m_output_size s" by (simp add: inc_le)
    with True Cons [of _ "s\<lparr> m_output_pos := m_output_pos s + 1 \<rparr>"] show ?thesis
      by (auto simp: read_out_byte_step)
  next
    case False
    with Cons [of v s] show ?thesis by (simp add: read_out_byte_step)
  qed
qed

lemma mdec_ok_output_pos:
  "mdec_ok s \<Longrightarrow> p \<le> m_output_size s \<Longrightarrow> mdec_ok (s\<lparr> m_output_pos := p \<rparr>)"
  by (auto simp: mdec_ok_def core_ok_def out_ok_def trace_ok_def split: if_splits)

lemma mdec_ok_clear_output: "mdec_ok s \<Longrightarrow> mdec_ok (clear_output s)"
  by (auto simp: mdec_ok_def core_ok_def out_ok_def trace_ok_def clear_output_def split: if_splits)

lemma mdec_ok_dma_read_word:
  assumes "mdec_ok s"
  shows "mdec_ok (snd (mdec_dma_read_word s))"
proof -
  obtain v s1 where f: "fold read_out_byte [0 ..< 4] (0, s) = (v, s1)" by fastforce
  obtain p where s1: "s1 = s\<lparr> m_output_pos := p \<rparr>" "p \<le> m_output_size s"
    using fold_read_out_byte_frame [of "[0 ..< 4]" 0 s] f assms by (auto simp: mdec_ok_def core_ok_def)
  have "mdec_ok s1" using assms s1 by (simp add: mdec_ok_output_pos)
  then have "mdec_ok (note_underflow (m_output_pos s) (s1\<lparr> m_dma_out_words := m_dma_out_words s1 + 1 \<rparr>))"
    by (simp add: note_underflow_def Let_def)
  then show ?thesis
    by (simp add: mdec_dma_read_word_def f Let_def mdec_ok_clear_output)
qed

lemma mdec_ok_write:
  assumes "mdec_ok s"
  shows "mdec_ok (mdec_write a v s)"
proof -
  have "mdec_ok (soft_reset s)"
    using assms by (simp add: mdec_ok_def core_ok_def out_ok_def trace_ok_def soft_reset_def)
  with assms mdec_ok_write_data [OF assms] show ?thesis
    by (simp add: mdec_write_def Let_def)
qed

lemma mdec_ok_init: "mdec_ok (mdec_init s)"
  by (simp add: mdec_ok_def core_ok_def out_ok_def cap_ok_def trace_ok_def mdec_init_def soft_reset_def)

datatype mdec_op = Op_read u32 | Op_write u32 u32 | Op_dma_write u32 | Op_dma_read
  | Op_in_start u32 | Op_in_end u32 | Op_out_start u32 | Op_out_end u32 | Op_clear_debug

primrec mdec_exec :: "mdec_op \<Rightarrow> 'a mdec_st_scheme \<Rightarrow> 'a mdec_st_scheme" where
  "mdec_exec (Op_read a) s = snd (mdec_read a s)"
| "mdec_exec (Op_write a v) s = mdec_write a v s"
| "mdec_exec (Op_dma_write v) s = mdec_dma_write_word v s"
| "mdec_exec Op_dma_read s = snd (mdec_dma_read_word s)"
| "mdec_exec (Op_in_start n) s = mdec_debug_dma_in_start n s"
| "mdec_exec (Op_in_end n) s = mdec_debug_dma_in_end n s"
| "mdec_exec (Op_out_start n) s = mdec_debug_dma_out_start n s"
| "mdec_exec (Op_out_end n) s = mdec_debug_dma_out_end n s"
| "mdec_exec Op_clear_debug s = mdec_debug_clear s"

lemma mdec_ok_exec:
  assumes "mdec_ok s"
  shows "mdec_ok (mdec_exec op s)"
proof (cases op)
  case Op_clear_debug
  then show ?thesis
    using assms by (auto simp: mdec_debug_clear_def mdec_ok_def core_ok_def out_ok_def trace_ok_def split: if_splits)
qed (simp_all add: assms mdec_ok_write mdec_dma_write_word_def mdec_ok_write_data mdec_ok_dma_read_word mdec_read_def
      mdec_debug_dma_in_start_def mdec_debug_dma_in_end_def mdec_debug_dma_out_start_def mdec_debug_dma_out_end_def)

text \<open>C22. Whatever sequence of register accesses, DMA words and debug calls the decoder receives
  after \<open>mdec_init\<close>, whether or not the host allocator grants its requests, the output queue
  stays inside its buffer, the parameter buffer holds every halfword the running command still
  waits for, and a busy decoder is always waiting for at least one.\<close>

theorem mdec_reachable_ok:
  "let t = fold mdec_exec ops (mdec_init s)
   in m_output_pos t \<le> m_output_size t \<and> m_output_size t \<le> m_output_cap t \<and> unat (m_output_size t) \<le> 2 ^ 24 \<and>
      (m_busy t = 0 \<and> m_input_count t = 0 \<or>
       m_busy t \<noteq> 0 \<and> m_input_count t < m_expected_halfwords t \<and> m_expected_halfwords t \<le> m_input_cap t) \<and>
      mdec_trace_head t < MDEC_TRACE_CAP"
proof -
  have "mdec_ok (fold mdec_exec ops u)" if "mdec_ok u" for u :: "'a mdec_st_scheme"
    using that by (induction ops arbitrary: u) (simp_all add: mdec_ok_exec)
  from this [OF mdec_ok_init, of s] show ?thesis
    by (auto simp: Let_def mdec_ok_def core_ok_def out_ok_def trace_ok_def split: if_splits)
qed

section \<open>An example decoder\<close>

definition mdec_example :: mdec_st where
  "mdec_example = mdec_init (mem_boot (mdec_st.fields 0 0 0 (\<lambda>_. 0) 0 (\<lambda>_. 0) 0 0 0 (\<lambda>_. 0) (\<lambda>_. 0) (\<lambda>_. 0)
     0 0 0 0 0 0 0 0 0 0 0 0 0 0 0 0 0 (\<lambda>_. mdec_event_zero) 0 0 0 0 (\<lambda>_. True)))"

lemma mdec_example_simps [simp]:
  "mdec_ok mdec_example" "m_busy mdec_example = 0" "m_realloc_ok mdec_example n"
  by (simp_all add: mdec_example_def mdec_ok_init)
     (simp_all add: mdec_init_def soft_reset_def mem_boot_def sys_boot_def mdec_st.defs)

section \<open>Decoding\<close>

lemma rle_skip_reads:
  "\<forall>i<end_pos. f i = g i \<Longrightarrow> rle_skip f w pos end_pos = rle_skip g w pos end_pos"
proof (induction f w pos end_pos rule: rle_skip.induct)
  case (1 f w pos end_pos)
  then show ?case by (subst (1 2) rle_skip.simps) simp
qed

lemma rle_ac_reads:
  "\<forall>i<end_pos. f i = g i \<Longrightarrow> rle_ac f quant qscale k pos end_pos blk = rle_ac g quant qscale k pos end_pos blk"
proof (induction f quant qscale k pos end_pos blk rule: rle_ac.induct)
  case (1 f quant qscale k pos end_pos blk)
  note IH = "1.IH" [OF _ refl _ refl]
  from "1.prems" IH show ?case by (subst (1 2) rle_ac.simps) (simp add: Let_def del: fun_upd_apply)
qed

text \<open>Decoding a block reads the parameter buffer only below the end of the command's data:
  two buffers that agree there give the same block and the same next position.\<close>

lemma decode_rle_reads_in_bounds:
  assumes "pos < end_pos" and "\<And>i. i < end_pos \<Longrightarrow> f i = g i"
  shows "decode_rle_pure f scale quant pos end_pos = decode_rle_pure g scale quant pos end_pos"
  using assms rle_skip_reads [of end_pos f g] rle_ac_reads [of end_pos f g]
  by (simp add: decode_rle_pure_def)

lemma decode_rle_reads_in_bounds_example:
  "decode_rle_pure (\<lambda>i. if i < 2 then 0xFE00 else 7) (\<lambda>_. 0) (\<lambda>_. 1) 0 2
     = decode_rle_pure (\<lambda>_. 0xFE00) (\<lambda>_. 0) (\<lambda>_. 1) 0 2"
  using decode_rle_reads_in_bounds [of 0 2 "\<lambda>i. if i < 2 then 0xFE00 else 7" "\<lambda>_. 0xFE00" "\<lambda>_. 0" "\<lambda>_. 1"]
  by simp

text \<open>When the allocator grants its requests, a decode leaves the bytes of both loops in the output
  buffer, 64 per luma block, 512 per 15-bit and 768 per 24-bit macroblock, counts those
  macroblocks and consumes the whole input.\<close>

lemma execute_decode_output:
  assumes "out_ok s" and n: "unat (m_input_count s) \<le> 131070" and alloc: "\<And>n. m_realloc_ok s n"
  shows "let t = execute_decode s; k = (if m_output_depth s < 2 then 64 else if m_output_depth s = 3 then 512 else 768)
     in out_bytes t = ref_bytes s \<and> unat (m_output_size t) = k * unat (m_decode_macroblocks t)
        \<and> m_output_pos t = 0 \<and> m_decode_input_pos t = m_input_count s"
proof -
  from execute_decode_emits [OF assms(1) n] obtain t where
    t: "emits (ref_bytes s) (decode_prologue s) t" "m_output_size (execute_decode s) = m_output_size t"
     "m_output (execute_decode s) = m_output t" "m_output_pos (execute_decode s) = m_output_pos t"
     "m_decode_macroblocks (execute_decode s) = of_nat (ref_count s)"
     "m_decode_input_pos (execute_decode s) = m_input_count s"
    by auto
  have "out_bytes t = ref_bytes s"
    using t(1) alloc by (simp add: emits_def) (simp add: out_bytes_def)
  then have bytes: "out_bytes (execute_decode s) = ref_bytes s"
    using t by (simp add: out_bytes_def)
  from arg_cong [OF this, of length]
  have size: "unat (m_output_size (execute_decode s)) = length (ref_bytes s)"
    by (simp add: out_bytes_def)
  have "ref_count s \<le> length (ref_bytes s)"
    by (simp add: length_ref_bytes)
  then have "ref_count s < 2 ^ 32"
    using length_ref_bytes_le [of s] n by simp
  then have "unat (m_decode_macroblocks (execute_decode s)) = ref_count s"
    using t by (simp add: unat_word_of_nat)
  moreover have "m_output_pos t = 0"
  proof -
    have "stable_part t = stable_part (decode_prologue s)" using t(1) by (simp add: emits_def)
    from stable_part_fields(9) [OF this] show ?thesis by simp
  qed
  ultimately show ?thesis
    using bytes size t by (simp add: Let_def length_ref_bytes)
qed

section \<open>Range of the transform arithmetic\<close>

lemma mask9_range: "- 128 \<le> mask9_clamp_s8 v" "mask9_clamp_s8 v \<le> 127"
  by (simp_all add: mask9_clamp_s8_def Let_def)

lemma sint_s16_range: "- 32768 \<le> sint (w :: u16)" "sint (w :: u16) \<le> 32767"
  using sint_range_size [of w] by (simp_all add: word_size)

lemma sint_word_of_int_u16: "- 32768 \<le> v \<Longrightarrow> v \<le> 32767 \<Longrightarrow> sint (word_of_int v :: u16) = v"
  by (simp add: signed_of_int signed_take_bit_int_eq_self)

lemma dequant_range: "\<bar>sint (dequant_dc w quant)\<bar> \<le> 0x4000" "\<bar>sint (dequant_ac w qscale quant k)\<bar> \<le> 0x4000"
proof -
  have "\<bar>sint (word_of_int (clamp_int v (- 0x4000) 0x3FFF) :: u16)\<bar> \<le> 0x4000" for v
    by (auto simp: clamp_int_def sint_word_of_int_u16)
  then show "\<bar>sint (dequant_dc w quant)\<bar> \<le> 0x4000" "\<bar>sint (dequant_ac w qscale quant k)\<bar> \<le> 0x4000"
    by (simp_all only: dequant_dc_def dequant_ac_def Let_def)
qed

text \<open>The IDCT matrix holds 16-bit entries arithmetically shifted right by three.\<close>

definition scale_ok :: "(nat \<Rightarrow> u16) \<Rightarrow> bool" where
  "scale_ok scale \<longleftrightarrow> (\<forall>i. \<bar>sint (scale i)\<bar> \<le> 4096)"

definition idct_partial :: "block \<Rightarrow> (nat \<Rightarrow> u16) \<Rightarrow> nat \<Rightarrow> nat \<Rightarrow> nat \<Rightarrow> int" where
  "idct_partial blk scale col x n =
     sum_list (map (\<lambda>u. sint (blk (col * 8 + u)) * sint (scale (x * 8 + u))) [0 ..< n])"

lemma idct_sum_partial: "idct_sum blk scale col x = idct_partial blk scale col x 8"
  by (simp add: idct_sum_def idct_partial_def)

lemma idct_partial_bound:
  assumes "\<And>i. \<bar>sint (blk i)\<bar> \<le> b" and "scale_ok scale"
  shows "\<bar>idct_partial blk scale col x n\<bar> \<le> int n * (b * 4096)"
proof -
  have b0: "0 \<le> b" using assms(1) [of 0] by simp
  have p: "\<bar>sint (blk i) * sint (scale j)\<bar> \<le> b * 4096" for i j
    unfolding abs_mult using assms b0 by (intro mult_mono) (auto simp: scale_ok_def)
  show ?thesis
  proof (induction n)
    case (Suc n)
    then show ?case using p [of "col * 8 + n" "x * 8 + n"] by (simp add: idct_partial_def algebra_simps)
  qed (simp add: idct_partial_def)
qed

lemma idct_partial_bound_8:
  assumes "\<And>i. \<bar>sint (blk i)\<bar> \<le> 0x4000" and "scale_ok scale" and "n \<le> 8"
  shows "\<bar>idct_partial blk scale col x n\<bar> \<le> 2 ^ 29"
proof -
  have "\<bar>idct_partial blk scale col x n\<bar> \<le> int n * (0x4000 * 4096)"
    by (rule idct_partial_bound [OF assms(1,2)])
  also have "\<dots> \<le> 8 * (0x4000 * 4096)"
    using assms(3) by (intro mult_right_mono) auto
  finally show ?thesis by simp
qed

lemma idct_pass1_exact:
  assumes "\<And>i. \<bar>sint (blk i)\<bar> \<le> 0x4000" and "scale_ok scale"
  shows "sint (idct_pass1 blk scale i) = (idct_sum blk scale (i mod 8) (i div 8) + 0x4000) div 0x8000"
    and "\<bar>sint (idct_pass1 blk scale i)\<bar> \<le> 0x4000"
proof -
  let ?v = "(idct_sum blk scale (i mod 8) (i div 8) + 0x4000) div 0x8000"
  have "\<bar>idct_sum blk scale (i mod 8) (i div 8)\<bar> \<le> 2 ^ 29"
    unfolding idct_sum_partial by (rule idct_partial_bound_8 [OF assms]) simp
  then have "- 0x4000 \<le> ?v \<and> ?v \<le> 0x4000" by (simp add: abs_le_iff) linarith
  then have v: "- 0x4000 \<le> ?v" "?v \<le> 0x4000" by simp_all
  have e: "idct_pass1 blk scale i = word_of_int ?v"
    by (simp add: idct_pass1_def Let_def drop_bit_eq_div)
  show "sint (idct_pass1 blk scale i) = ?v"
    unfolding e using v by (intro sint_word_of_int_u16) linarith+
  then show "\<bar>sint (idct_pass1 blk scale i)\<bar> \<le> 0x4000" using v by (simp add: abs_le_iff)
qed

lemma rle_ac_range:
  "(\<And>i. \<bar>sint (blk i)\<bar> \<le> 0x4000) \<Longrightarrow>
     \<bar>sint (fst (rle_ac input quant qscale k pos end_pos blk) j)\<bar> \<le> 0x4000"
proof (induction input quant qscale k pos end_pos blk rule: rle_ac.induct)
  case (1 input quant qscale k pos end_pos blk)
  note IH = "1.IH" [OF _ refl _ refl]
  have "\<bar>sint ((blk(a := dequant_ac w qscale quant b)) i)\<bar> \<le> 0x4000" for a w b i
    using "1.prems" dequant_range by simp
  with "1.prems" IH show ?case
    by (subst rle_ac.simps) (simp add: Let_def del: fun_upd_apply)
qed

definition rle_coefficients :: "(nat \<Rightarrow> u16) \<Rightarrow> (nat \<Rightarrow> u8) \<Rightarrow> nat \<Rightarrow> nat \<Rightarrow> block" where
  "rle_coefficients input quant pos end_pos =
     (let (w, pos1) = rle_skip input (input pos) (Suc pos) end_pos
      in fst (rle_ac input quant (drop_bit 10 (ucast w) AND 0x3F) 0 pos1 end_pos ((\<lambda>_. 0)(0 := dequant_dc w quant))))"

lemma decode_rle_pure_idct:
  "fst (decode_rle_pure input scale quant pos end_pos) = idct_block (rle_coefficients input quant pos end_pos) scale"
  by (simp add: decode_rle_pure_def rle_coefficients_def Let_def split_beta)

text \<open>The inverse transform of any run-length coded block never leaves the C types: with a
  matrix as the set-scale command stores it, every partial sum of both passes (with the rounding
  term) fits a 32-bit \<open>int\<close>, the intermediate samples are stored in 16 bits without loss, and the
  final samples are in the range of \<open>int8_t\<close>.\<close>

lemma idct_stays_in_range:
  assumes "scale_ok scale"
  shows "let blk = rle_coefficients input quant pos end_pos; tmp = idct_pass1 blk scale;
             out = fst (decode_rle_pure input scale quant pos end_pos)
     in (\<forall>col x n. n \<le> 8 \<longrightarrow> \<bar>idct_partial blk scale col x n\<bar> + 0x4000 < 2 ^ 31
                           \<and> \<bar>idct_partial tmp scale col x n\<bar> + 0x4000 < 2 ^ 31)
        \<and> (\<forall>i. sint (tmp i) = (idct_sum blk scale (i mod 8) (i div 8) + 0x4000) div 0x8000)
        \<and> (\<forall>i. - 128 \<le> sint (out i) \<and> sint (out i) \<le> 127)"
proof -
  let ?blk = "rle_coefficients input quant pos end_pos"
  let ?tmp = "idct_pass1 ?blk scale"
  have blk: "\<bar>sint (?blk i)\<bar> \<le> 0x4000" for i
    by (auto simp: rle_coefficients_def split_beta Let_def dequant_range intro!: rle_ac_range)
  have tmp: "sint (?tmp i) = (idct_sum ?blk scale (i mod 8) (i div 8) + 0x4000) div 0x8000" "\<bar>sint (?tmp i)\<bar> \<le> 0x4000" for i
    using idct_pass1_exact [of ?blk scale, OF blk assms] by simp_all
  have "\<bar>idct_partial ?blk scale col x n\<bar> + 0x4000 < 2 ^ 31 \<and> \<bar>idct_partial ?tmp scale col x n\<bar> + 0x4000 < 2 ^ 31"
    if "n \<le> 8" for col x n
    using idct_partial_bound_8 [of ?blk scale n col x, OF blk assms that]
      idct_partial_bound_8 [of ?tmp scale n col x, OF tmp(2) assms that] by simp
  moreover have "- 128 \<le> sint (idct_block ?blk scale i) \<and> sint (idct_block ?blk scale i) \<le> 127" for i
  proof -
    let ?m = "mask9_clamp_s8 (drop_bit 15 (idct_sum ?tmp scale (i div 8) (i mod 8) + 0x4000))"
    have "sint (idct_block ?blk scale i) = ?m"
      using mask9_range [of "drop_bit 15 (idct_sum ?tmp scale (i div 8) (i mod 8) + 0x4000)"]
      by (simp add: idct_block_def Let_def sint_word_of_int_u16)
    then show ?thesis using mask9_range by simp
  qed
  ultimately show ?thesis
    using tmp(1) by (simp add: Let_def decode_rle_pure_idct)
qed

lemma scale_ok_load: "scale_ok (m_scale s) \<Longrightarrow> scale_ok (m_scale (load_scale s))"
proof -
  have shift: "\<bar>sint (signed_drop_bit 3 (w :: u16))\<bar> \<le> 4096" for w
    using sint_s16_range [of w] by (simp add: sint_signed_drop_bit_eq drop_bit_eq_div)
  have "scale_ok (fold (\<lambda>i m. m(scale_transpose i := signed_drop_bit 3 (f i))) xs m)" if "scale_ok m" for f xs m
    using that by (induction xs arbitrary: m) (simp_all add: scale_ok_def shift)
  then show "scale_ok (m_scale s) \<Longrightarrow> scale_ok (m_scale (load_scale s))"
    by (simp add: load_scale_eq)
qed

lemma idct_stays_in_range_example:
  "let scale = (\<lambda>_. 0x0B50) :: nat \<Rightarrow> u16;
       out = fst (decode_rle_pure (\<lambda>_. 0xFE00) scale (\<lambda>_. 1) 0 2)
   in \<forall>i. - 128 \<le> sint (out i) \<and> sint (out i) \<le> 127"
proof -
  have "scale_ok ((\<lambda>_. 0x0B50) :: nat \<Rightarrow> u16)" by (simp add: scale_ok_def)
  from idct_stays_in_range [OF this, of "\<lambda>_. 0xFE00" "\<lambda>_. 1" 0 2] show ?thesis by (simp add: Let_def)
qed

section \<open>Command life cycle\<close>

lemma command_halfwords_even: "even (unat (command_halfwords v))"
proof -
  have "unat (v AND 0xFFFF) < 65536"
    using unat_and_mask [of v 16] by (simp add: mask_eq_exp_minus_1)
  then show ?thesis
    by (simp add: command_halfwords_def Let_def unat_word_ariths(2) mod_if)
qed

text \<open>A decoder that has taken the command word and the parameter words \<open>ws\<close> and waits for
  more.\<close>

definition awaiting :: "u32 \<Rightarrow> u32 list \<Rightarrow> 'a mdec_st_scheme \<Rightarrow> 'a mdec_st_scheme \<Rightarrow> bool" where
  "awaiting cmd ws s t \<longleftrightarrow>
     mdec_ok t \<and> m_busy t = 1 \<and> m_command t = cmd \<and> m_expected_halfwords t = command_halfwords cmd \<and>
     unat (m_input_count t) = 2 * length ws \<and>
     (\<forall>j<length ws. m_input t (2 * j) = ucast (ws ! j) \<and> m_input t (2 * j + 1) = ucast (drop_bit 16 (ws ! j))) \<and>
     m_y_quant t = m_y_quant s \<and> m_uv_quant t = m_uv_quant s \<and> m_scale t = m_scale s \<and>
     m_realloc_ok t = m_realloc_ok s \<and> m_output_depth t = ucast (drop_bit 27 cmd AND 3) \<and>
     m_output_signed t = ucast (drop_bit 26 cmd AND 1) \<and> m_output_bit15 t = ucast (drop_bit 25 cmd AND 1)"

lemma awaiting_begin:
  assumes ok: "mdec_ok s" and idle: "m_busy s = 0" and alloc: "\<And>n. m_realloc_ok s n"
    and cmd: "command_halfwords cmd \<noteq> 0"
  shows "awaiting cmd [] s (write_data cmd s)"
proof -
  have "write_data cmd s = begin_command cmd s" using idle by (simp add: write_data_def)
  moreover have "m_busy (begin_command cmd s) = 1 \<and> m_command (begin_command cmd s) = cmd
      \<and> m_expected_halfwords (begin_command cmd s) = command_halfwords cmd \<and> m_input_count (begin_command cmd s) = 0
      \<and> m_y_quant (begin_command cmd s) = m_y_quant s \<and> m_uv_quant (begin_command cmd s) = m_uv_quant s
      \<and> m_scale (begin_command cmd s) = m_scale s \<and> m_realloc_ok (begin_command cmd s) = m_realloc_ok s
      \<and> m_output_depth (begin_command cmd s) = ucast (drop_bit 27 cmd AND 3)
      \<and> m_output_signed (begin_command cmd s) = ucast (drop_bit 26 cmd AND 1)
      \<and> m_output_bit15 (begin_command cmd s) = ucast (drop_bit 25 cmd AND 1)"
    using cmd alloc by (simp add: begin_command_def ensure_input_capacity_def Let_def)
  ultimately show ?thesis
    using mdec_ok_write_data [OF ok, of cmd] by (simp add: awaiting_def)
qed

text \<open>Both halves of a parameter word are always taken: the parameter counts are even.\<close>

definition store_word :: "u32 \<Rightarrow> 'a mdec_st_scheme \<Rightarrow> 'a mdec_st_scheme" where
  "store_word w t = store_halfword (ucast (drop_bit 16 w)) (store_halfword (ucast w) t)"

lemma awaiting_write:
  assumes t: "awaiting cmd ws s t"
  shows "write_data w t =
      (if 2 * length ws + 2 \<ge> unat (command_halfwords cmd) then execute_command (store_word w t) else store_word w t)"
    and "unat (m_input_count (store_word w t)) = 2 * length ws + 2"
    and "2 * length ws + 2 \<le> unat (command_halfwords cmd)"
proof -
  have less: "2 * length ws < unat (command_halfwords cmd)"
    using t by (auto simp: awaiting_def mdec_ok_def word_less_nat_alt)
  then show le: "2 * length ws + 2 \<le> unat (command_halfwords cmd)"
    using command_halfwords_even [of cmd] by presburger
  have c: "unat (m_input_count t + 1) = 2 * length ws + 1" "unat (m_input_count t + 1 + 1) = 2 * length ws + 2"
    using t le command_halfwords_bound [of cmd] by (simp_all add: awaiting_def unat_word_ariths(1))
  then show "unat (m_input_count (store_word w t)) = 2 * length ws + 2"
    by (simp add: store_word_def store_halfword_def)
  show "write_data w t =
      (if 2 * length ws + 2 \<ge> unat (command_halfwords cmd) then execute_command (store_word w t) else store_word w t)"
    using t less le c
    by (simp add: write_data_def awaiting_def word_less_nat_alt word_le_nat_alt Let_def store_word_def store_halfword_def)
qed

lemma store_word_input:
  assumes t: "awaiting cmd ws s t" and "j < length (ws @ [w])"
  shows "m_input (store_word w t) (2 * j) = ucast ((ws @ [w]) ! j)
       \<and> m_input (store_word w t) (2 * j + 1) = ucast (drop_bit 16 ((ws @ [w]) ! j))"
proof -
  have c: "unat (m_input_count t + 1) = 2 * length ws + 1"
    using t awaiting_write(3) [OF t] command_halfwords_bound [of cmd] by (simp add: awaiting_def unat_word_ariths(1))
  show ?thesis
  proof (cases "j < length ws")
    case True
    with t c show ?thesis
      by (auto simp: awaiting_def store_word_def store_halfword_def nth_append)
  next
    case False
    with assms have "j = length ws" by simp
    with t c show ?thesis
      by (simp add: awaiting_def store_word_def store_halfword_def)
  qed
qed

lemma awaiting_step:
  assumes t: "awaiting cmd ws s t" and more: "2 * length ws + 2 < unat (command_halfwords cmd)"
  shows "awaiting cmd (ws @ [w]) s (write_data w t)"
proof -
  have e: "write_data w t = store_word w t"
    using awaiting_write(1) [OF t, of w] more by simp
  have same: "m_busy (store_word w t) = m_busy t" "m_command (store_word w t) = m_command t"
    "m_expected_halfwords (store_word w t) = m_expected_halfwords t" "m_y_quant (store_word w t) = m_y_quant t"
    "m_uv_quant (store_word w t) = m_uv_quant t" "m_scale (store_word w t) = m_scale t"
    "m_realloc_ok (store_word w t) = m_realloc_ok t" "m_output_depth (store_word w t) = m_output_depth t"
    "m_output_signed (store_word w t) = m_output_signed t" "m_output_bit15 (store_word w t) = m_output_bit15 t"
    by (simp_all add: store_word_def store_halfword_def)
  have "mdec_ok (store_word w t)"
    using mdec_ok_write_data [of t w] t e by (simp add: awaiting_def)
  then show ?thesis
    unfolding e using t same awaiting_write(2) [OF t, of w] store_word_input [OF t, of _ w]
    by (simp add: awaiting_def)
qed

lemma awaiting_stream:
  assumes "mdec_ok s" "m_busy s = 0" "\<And>n. m_realloc_ok s n"
    and "2 * length ws < unat (command_halfwords cmd)"
  shows "awaiting cmd ws s (fold write_data ws (write_data cmd s))"
  using assms(4)
proof (induction ws rule: rev_induct)
  case Nil
  then have "command_halfwords cmd \<noteq> 0" by auto
  with awaiting_begin [OF assms(1-3)] show ?case by simp
next
  case (snoc w ws)
  then have "awaiting cmd ws s (fold write_data ws (write_data cmd s))" by simp
  from awaiting_step [OF this, of w] snoc.prems show ?case by simp
qed

lemma last_parameter:
  assumes "mdec_ok s" "m_busy s = 0" "\<And>n. m_realloc_ok s n"
    and len: "unat (command_halfwords cmd) = 2 * Suc (length ws)"
  obtains t where "awaiting cmd ws s t"
    "fold write_data (ws @ [w]) (write_data cmd s) = execute_command (store_word w t)"
    "m_command (store_word w t) = cmd"
proof -
  have a: "awaiting cmd ws s (fold write_data ws (write_data cmd s))" (is "awaiting _ _ _ ?t")
    using len by (intro awaiting_stream [OF assms(1-3)]) simp
  have "write_data w ?t = execute_command (store_word w ?t)"
    using awaiting_write(1) [OF a, of w] len by simp
  with a that [of ?t] show ?thesis
    by (simp add: store_word_def store_halfword_def awaiting_def)
qed

text \<open>An idle decoder that receives a command word stays busy until exactly the number of
  parameter words the command asks for has arrived, the status register counting them down, and
  is idle again after the last one.\<close>

lemma command_life_cycle:
  assumes "mdec_ok s" and "m_busy s = 0" and "\<And>n. m_realloc_ok s n"
    and "unat (command_halfwords cmd) = 2 * n"
  shows "let t = fold write_data ws (write_data cmd s)
     in (length ws < n \<longrightarrow> m_busy t = 1 \<and> unat (mdec_remaining_words t) = n - length ws)
        \<and> (length ws = n \<longrightarrow> m_busy t = 0)"
  unfolding Let_def
proof (intro conjI impI)
  assume "length ws < n"
  with assms have a: "awaiting cmd ws s (fold write_data ws (write_data cmd s))" (is "awaiting _ _ _ ?t")
    by (intro awaiting_stream [OF assms(1-3)]) simp
  have n: "2 * n \<le> 131070" using assms(4) command_halfwords_bound [of cmd] by simp
  have sub: "unat (m_expected_halfwords ?t - m_input_count ?t) = 2 * n - 2 * length ws"
    using a assms(4) \<open>length ws < n\<close> by (subst unat_sub_le) (simp_all add: awaiting_def word_le_nat_alt)
  then have "unat (m_expected_halfwords ?t - m_input_count ?t + 1) = 2 * n - 2 * length ws + 1"
    using n by (simp add: unat_word_ariths(1) [of "m_expected_halfwords ?t - m_input_count ?t"])
  then have "unat ((m_expected_halfwords ?t - m_input_count ?t + 1) div 2) = (2 * (n - length ws) + 1) div 2"
    by (simp add: unat_div diff_mult_distrib2)
  with a assms(4) \<open>length ws < n\<close>
  show "m_busy ?t = 1" "unat (mdec_remaining_words ?t) = n - length ws"
    by (simp_all add: awaiting_def mdec_remaining_words_def word_less_nat_alt)
next
  assume len: "length ws = n"
  show "m_busy (fold write_data ws (write_data cmd s)) = 0"
  proof (cases ws rule: rev_cases)
    case Nil
    with len assms have "command_halfwords cmd = 0" by (simp add: unat_eq_0)
    with Nil assms(2) show ?thesis by (simp add: write_data_def begin_command_def finish_command_def Let_def)
  next
    case (snoc us w)
    obtain t where "fold write_data (us @ [w]) (write_data cmd s) = execute_command (store_word w t)"
      using last_parameter [OF assms(1-3), of cmd us w] assms(4) len snoc by auto
    with snoc show ?thesis by (simp add: execute_command_def finish_command_def Let_def)
  qed
qed

lemma command_life_cycle_example:
  "m_busy (fold write_data (replicate 15 0) (write_data 0x40000000 mdec_example)) = 1
   \<and> m_busy (fold write_data (replicate 16 0) (write_data 0x40000000 mdec_example)) = 0"
  using command_life_cycle [of mdec_example "0x40000000" 16 "replicate 15 0"]
    command_life_cycle [of mdec_example "0x40000000" 16 "replicate 16 0"]
  by (simp add: command_halfwords_def Let_def)

text \<open>The tables a command loads, as bytes and halfwords of the parameter words in
  little-endian order.\<close>

definition stream_half :: "u32 list \<Rightarrow> nat \<Rightarrow> u16" where
  "stream_half ws i = (if even i then ucast (ws ! (i div 2)) else ucast (drop_bit 16 (ws ! (i div 2))))"

definition stream_byte :: "u32 list \<Rightarrow> nat \<Rightarrow> u8" where
  "stream_byte ws i = ucast (drop_bit (8 * (i mod 4)) (ws ! (i div 4)))"

lemma stream_input:
  assumes "awaiting cmd ws s t" and "i < 2 * length (ws @ [w])"
  shows "m_input (store_word w t) i = stream_half (ws @ [w]) i"
proof -
  have "i div 2 < length (ws @ [w])" using assms(2) by auto
  from store_word_input [OF assms(1) this] show ?thesis
    by (cases "even i") (auto simp: stream_half_def)
qed

lemma stream_byte_half:
  "stream_byte ws i = (if i mod 2 = 1 then ucast (drop_bit 8 (stream_half ws (i div 2))) else ucast (stream_half ws (i div 2)))"
proof -
  have lo: "(ucast (ucast w :: u16) :: u8) = ucast w" "(ucast (drop_bit 8 (ucast w :: u16)) :: u8) = ucast (drop_bit 8 w)" for w :: u32
    by (rule bit_word_eqI; auto simp: bit_simps)+
  define q where "q = i div 4"
  have "i = 4 * q \<or> i = Suc (4 * q) \<or> i = Suc (Suc (4 * q)) \<or> i = Suc (Suc (Suc (4 * q)))"
    unfolding q_def by presburger
  then show ?thesis
  proof (elim disjE)
    assume i: "i = Suc (Suc (4 * q))"
    then have "i div 2 = Suc (2 * q)" "i mod 4 = 2" "i mod 2 = 0" "i div 4 = q" by presburger+
    then show ?thesis by (simp add: stream_byte_def stream_half_def lo)
  next
    assume i: "i = Suc (Suc (Suc (4 * q)))"
    then have "i div 2 = Suc (2 * q)" "i mod 4 = 3" "i mod 2 = 1" "i div 4 = q" by presburger+
    then show ?thesis by (simp add: stream_byte_def stream_half_def lo)
  next
    assume i: "i = Suc (4 * q)"
    then have "i div 2 = 2 * q" "i mod 4 = 1" "i mod 2 = 1" "i div 4 = q" by presburger+
    then show ?thesis by (simp add: stream_byte_def stream_half_def lo)
  qed (simp add: stream_byte_def stream_half_def lo)
qed

lemma load_scale_entries:
  "i < 64 \<Longrightarrow> m_scale (load_scale s) (i mod 8 * 8 + i div 8) = signed_drop_bit 3 (m_input s i)"
proof -
  have tr: "map scale_transpose [0 ..< 64] = map (\<lambda>i. i mod 8 * 8 + i div 8) [0 ..< 64]"
    by code_simp
  have dist: "distinct (map scale_transpose [0 ..< 64])"
    by code_simp
  have gen: "distinct (map g xs) \<Longrightarrow> i \<in> set xs \<Longrightarrow> fold (\<lambda>i m. m(g i := f i)) xs m (g i) = f i"
    for g :: "nat \<Rightarrow> nat" and f :: "nat \<Rightarrow> u16" and xs m i
  proof (induction xs arbitrary: m)
    case (Cons x xs)
    have keep: "a \<notin> set (map g xs) \<Longrightarrow> fold (\<lambda>i m. m(g i := f i)) xs m a = m a" for a m
      by (induction xs arbitrary: m) auto
    show ?case
      using Cons keep [of "g x" "m(g x := f x)"]
      by (cases "i \<in> set xs") (auto simp del: fun_upd_apply simp: fun_upd_same)
  qed simp
  assume "i < 64"
  moreover from this have "scale_transpose i = i mod 8 * 8 + i div 8"
    using arg_cong [OF tr, of "\<lambda>xs. xs ! i"] by simp
  ultimately show ?thesis
    using gen [OF dist, of i] by (simp add: load_scale_eq)
qed

text \<open>The table commands: after the set-quant command word and its parameters the luminance
  table is the first 64 parameter bytes and the chrominance table the next 64 when bit 0 of
  the command is set, the same bytes otherwise; after the set-scale command, entry \<open>(x, u)\<close> of the
  matrix is parameter halfword \<open>8 u + x\<close> arithmetically shifted right by three.\<close>

lemma table_commands_load:
  assumes "mdec_ok s" and "m_busy s = 0" and "\<And>n. m_realloc_ok s n"
    and "unat (command_halfwords cmd) = 2 * length ws" and "ws \<noteq> []"
  shows "let t = fold write_data ws (write_data cmd s)
     in (drop_bit 29 cmd = MDEC_CMD_SET_QUANT \<longrightarrow>
           (\<forall>i<64. m_y_quant t i = stream_byte ws i
                 \<and> m_uv_quant t i = stream_byte ws (if cmd AND 1 \<noteq> 0 then 64 + i else i)))
        \<and> (drop_bit 29 cmd = MDEC_CMD_SET_SCALE \<longrightarrow>
           (\<forall>x<8. \<forall>u<8. m_scale t (x * 8 + u) = signed_drop_bit 3 (stream_half ws (u * 8 + x))))"
proof -
  obtain us w where ws: "ws = us @ [w]" using assms(5) by (cases ws rule: rev_cases) auto
  obtain t where t: "awaiting cmd us s t" "m_command (store_word w t) = cmd"
    "fold write_data ws (write_data cmd s) = execute_command (store_word w t)"
    using last_parameter [OF assms(1-3), of cmd us w] assms(4) ws by auto
  have half: "m_input (store_word w t) i = stream_half ws i" if "i < 2 * length ws" for i
    using stream_input [OF t(1), of i w] that ws by simp
  have byte: "input_byte i (store_word w t) = stream_byte ws i" if "i div 2 < 2 * length ws" for i
    using half [OF that] by (simp add: input_byte_def stream_byte_half Let_def)
  have "m_y_quant (execute_command (store_word w t)) i = stream_byte ws i
      \<and> m_uv_quant (execute_command (store_word w t)) i = stream_byte ws (if cmd AND 1 \<noteq> 0 then 64 + i else i)"
    if op: "drop_bit 29 cmd = MDEC_CMD_SET_QUANT" and i: "i < 64" for i
  proof -
    have "2 * length ws = (if cmd AND 1 \<noteq> 0 then 64 else 32)"
      using assms(4) op by (simp add: command_halfwords_def split: if_splits)
    then have "input_byte i (store_word w t) = stream_byte ws i"
      "cmd AND 1 \<noteq> 0 \<Longrightarrow> input_byte (64 + i) (store_word w t) = stream_byte ws (64 + i)"
      using i by (intro byte; auto)+
    with op i t(2) show ?thesis
      by (simp add: execute_command_def load_quant_def finish_command_def Let_def)
  qed
  moreover have "m_scale (execute_command (store_word w t)) (x * 8 + u) = signed_drop_bit 3 (stream_half ws (u * 8 + x))"
    if op: "drop_bit 29 cmd = MDEC_CMD_SET_SCALE" and xu: "x < 8" "u < 8" for x u
  proof -
    have "2 * length ws = 64"
      using assms(4) op by (simp add: command_halfwords_def)
    then show ?thesis
      using load_scale_entries [of "u * 8 + x" "store_word w t"] half [of "u * 8 + x"] op xu t(2)
      by (simp add: execute_command_def finish_command_def Let_def)
  qed
  ultimately show ?thesis by (simp add: t(3) Let_def)
qed

lemma table_commands_load_example:
  "let t = fold write_data (replicate 16 0x04030201) (write_data 0x40000000 mdec_example)
   in m_y_quant t 0 = 1 \<and> m_y_quant t 5 = 2 \<and> m_uv_quant t 63 = 4"
  using table_commands_load [of mdec_example "0x40000000" "replicate 16 0x04030201"]
  by (simp add: command_halfwords_def Let_def stream_byte_def)

section \<open>Draining the output queue\<close>

definition pending :: "'a mdec_st_scheme \<Rightarrow> u8 list" where
  "pending s = map (m_output s) [unat (m_output_pos s) ..< unat (m_output_size s)]"

fun le_from :: "nat \<Rightarrow> u8 list \<Rightarrow> u32" where
  "le_from k [] = 0"
| "le_from k (b # bs) = push_bit (k * 8) (ucast b) OR le_from (Suc k) bs"

fun words_of :: "u8 list \<Rightarrow> u32 list" where
  "words_of [] = []"
| "words_of (b # bs) = le_from 0 (take 4 (b # bs)) # words_of (drop 4 (b # bs))"

primrec drain_words :: "nat \<Rightarrow> 'a mdec_st_scheme \<Rightarrow> u32 list \<times> 'a mdec_st_scheme" where
  "drain_words 0 s = ([], s)"
| "drain_words (Suc n) s =
     (let (w, s1) = mdec_dma_read_word s; (ws, s2) = drain_words n s1 in (w # ws, s2))"

lemma pending_Cons:
  assumes "m_output_pos s < m_output_size s"
  shows "pending s = m_output s (unat (m_output_pos s)) # pending (s\<lparr> m_output_pos := m_output_pos s + 1 \<rparr>)"
proof -
  have lt: "unat (m_output_pos s) < unat (m_output_size s)"
    using assms by (simp add: word_less_nat_alt)
  have "unat (m_output_pos s + 1) = Suc (unat (m_output_pos s))"
    using lt unsigned_less [of "m_output_size s", where ?'a = nat] by (simp add: unat_word_ariths(1))
  with lt show ?thesis by (simp add: pending_def upt_conv_Cons)
qed

lemma pending_Nil: "\<not> m_output_pos s < m_output_size s \<Longrightarrow> pending s = []"
  by (simp add: pending_def word_less_nat_alt)

lemma fold_read_out_byte:
  "fold read_out_byte [k ..< k + n] (v, s) = (v', s') \<Longrightarrow>
     v' = v OR le_from k (take n (pending s)) \<and> pending s' = drop n (pending s)
     \<and> m_output_size s' = m_output_size s \<and> m_output s' = m_output s"
proof (induction n arbitrary: k v s)
  case 0
  then show ?case by simp
next
  case (Suc n)
  have split: "[k ..< k + Suc n] = k # [Suc k ..< Suc k + n]" by (simp add: upt_conv_Cons)
  show ?case
  proof (cases "m_output_pos s < m_output_size s")
    case True
    with Suc.prems have "fold read_out_byte [Suc k ..< Suc k + n]
        (v OR push_bit (k * 8) (ucast (m_output s (unat (m_output_pos s)))), s\<lparr> m_output_pos := m_output_pos s + 1 \<rparr>) = (v', s')"
      unfolding split by (simp add: read_out_byte_step del: upt_Suc)
    from Suc.IH [OF this] pending_Cons [OF True] show ?thesis
      by (simp add: or.assoc)
  next
    case False
    with Suc.IH [of "Suc k" v s] Suc.prems pending_Nil [OF False] show ?thesis
      unfolding split by (simp add: read_out_byte_step)
  qed
qed

lemma pending_update [simp]:
  "pending (s\<lparr> m_dma_out_words := n \<rparr>) = pending s" "pending (s\<lparr> m_dma_read_underflows := n \<rparr>) = pending s"
  "pending (trace_event k v s) = pending s"
  by (simp_all add: pending_def)

lemma pending_clear [simp]: "pending (clear_output s) = []"
  by (simp add: pending_def clear_output_def)

lemma mdec_dma_read_word_queue:
  assumes "mdec_dma_read_word s = (w, s')"
  shows "w = le_from 0 (take 4 (pending s))" "pending s' = drop 4 (pending s)"
proof -
  obtain v s1 where f: "fold read_out_byte [0 ..< 4] (0, s) = (v, s1)" by fastforce
  note q = fold_read_out_byte [of 0 4, simplified, OF f]
  let ?s2 = "note_underflow (m_output_pos s) (s1\<lparr> m_dma_out_words := m_dma_out_words s1 + 1 \<rparr>)"
  have p2: "pending ?s2 = drop 4 (pending s)"
    using q by (simp add: note_underflow_def Let_def)
  show "w = le_from 0 (take 4 (pending s))"
    using assms q by (simp add: mdec_dma_read_word_def f Let_def)
  show "pending s' = drop 4 (pending s)"
    using assms p2 pending_Nil [of ?s2] by (auto simp: mdec_dma_read_word_def f Let_def not_less)
qed

lemma drain_queue:
  "drain_words (length (words_of (pending s))) s = (ws, s') \<Longrightarrow> ws = words_of (pending s) \<and> \<not> mdec_dma_read_ready s'"
proof (induction "pending s" arbitrary: s s' ws rule: words_of.induct)
  case 1
  then have "\<not> m_output_pos s < m_output_size s" using pending_Cons [of s] by auto
  moreover have "pending s = []" using 1(1) by simp
  ultimately show ?case using 1(2) by (auto simp: mdec_dma_read_ready_def)
next
  case (2 b bs)
  obtain w s1 where r: "mdec_dma_read_word s = (w, s1)" by fastforce
  obtain us s2 where d: "drain_words (length (words_of (pending s1))) s1 = (us, s2)" by fastforce
  note q = mdec_dma_read_word_queue [OF r]
  have rest: "drop 4 (b # bs) = pending s1" using q 2(2) by simp
  have "words_of (pending s) = w # words_of (pending s1)"
    unfolding 2(2) [symmetric] q(1) q(2) by simp
  with 2(1) [OF rest d] 2(3) r d show ?case by simp
qed

text \<open>The output port is a queue: reading as many words as the queued bytes fill returns
  them in order, four to a word in little-endian order, the last word padded with zeros, and
  leaves nothing to read.\<close>

lemma drain_returns_output:
  "let (ws, s') = drain_words (length (words_of (pending s))) s
   in ws = words_of (pending s) \<and> \<not> mdec_dma_read_ready s'"
  using drain_queue [of s] by (auto simp: Let_def split: prod.splits)

end
