(* ===== verification/Mdec_Spec.thy ===== *)
theory Mdec_Spec
  imports Mdec_Props
begin

text \<open>
  What the motion decoder has to compute, written without the code: the run-length code as a
  parser of a list of halfwords, the coefficients, the inverse transform and the colour
  conversion over the integers, the zigzag order by its diagonals. The decoder of Mdec is
  shown to deliver exactly this image, from the command word to the words the DMA port reads.
\<close>

section \<open>The specification\<close>

definition saturate :: "int \<Rightarrow> int \<Rightarrow> int \<Rightarrow> int" where
  "saturate lo hi v = max lo (min hi v)"

text \<open>The two fields of a halfword of the code: a signed level of 10 bits and a run of 6 bits. The end of
  a block is coded by a halfword of its own.\<close>

definition eob :: u16 where "eob = 0xFE00"

definition level :: "u16 \<Rightarrow> int" where
  "level w = (let l = uint w mod 1024 in if l < 512 then l else l - 1024)"

definition run :: "u16 \<Rightarrow> nat" where
  "run w = unat w div 1024"

text \<open>Dequantisation: a factor of 0 doubles the level, any other multiplies it; both are in sixteenths, with
  half a step towards zero, and saturate at 15 bits.\<close>

definition dequantise :: "int \<Rightarrow> int \<Rightarrow> int \<Rightarrow> int" where
  "dequantise factor product l =
     saturate (- 0x4000) 0x3FFF (if factor = 0 then 32 * l else 16 * product - 8 * sgn l)"

text \<open>The coefficients after the first, as pairs of a zigzag index and a halfword, and what is left.\<close>

fun parse_ac :: "nat \<Rightarrow> u16 list \<Rightarrow> (nat \<times> u16) list \<times> u16 list" where
  "parse_ac k [] = ([], [])"
| "parse_ac k (w # hs) =
     (if 63 \<le> k then ([], w # hs)
      else if w = eob \<or> 63 < k + run w + 1 then ([], hs)
      else (case parse_ac (k + run w + 1) hs of (ps, r) \<Rightarrow> ((k + run w + 1, w) # ps, r)))"

text \<open>A block: padding is skipped, the first halfword holds the quantiser scale and the DC level.\<close>

definition parse_block :: "u16 list \<Rightarrow> (u16 \<times> (nat \<times> u16) list) \<times> u16 list" where
  "parse_block hs = (case dropWhile ((=) eob) hs of
     [] \<Rightarrow> ((eob, []), [])
   | w # r \<Rightarrow> (case parse_ac 0 r of (ps, r') \<Rightarrow> ((w, ps), r')))"

definition coefficient :: "(nat \<Rightarrow> u8) \<Rightarrow> u16 \<times> (nat \<times> u16) list \<Rightarrow> nat \<Rightarrow> int" where
  "coefficient quant b k =
     (let q = uint (quant k) in
      if k = 0 then dequantise q (level (fst b) * q) (level (fst b))
      else case map_of (snd b) k of
             None \<Rightarrow> 0
           | Some w \<Rightarrow> (let f = int (run (fst b)) * q in dequantise f (level w * f div 8) (level w)))"

text \<open>The zigzag: the diagonals of the 8 by 8 matrix in turn, in alternating directions.\<close>

definition diagonal :: "nat \<Rightarrow> (nat \<times> nat) list" where
  "diagonal d = map (\<lambda>a. (a, d - a)) (filter (\<lambda>a. a \<le> d \<and> d - a < 8) [0 ..< 8])"

definition zigzag :: "(nat \<times> nat) list" where
  "zigzag = concat (map (\<lambda>d. if even d then diagonal d else rev (diagonal d)) [0 ..< 15])"

definition coefficients :: "(nat \<Rightarrow> u8) \<Rightarrow> u16 \<times> (nat \<times> u16) list \<Rightarrow> nat \<Rightarrow> nat \<Rightarrow> int" where
  "coefficients quant b i j = coefficient quant b (the (map_of (zip zigzag [0 ..< 64]) (i, j)))"

text \<open>The inverse transform: two products with the matrix \<open>S\<close>, each rounded to the nearest multiple of
  \<open>2 ^ 15\<close>; a sample is the low 9 bits, signed, saturated at 8.\<close>

definition sample9 :: "int \<Rightarrow> int" where
  "sample9 v = saturate (- 128) 127 ((v + 256) mod 512 - 256)"

definition product_row :: "(nat \<Rightarrow> nat \<Rightarrow> int) \<Rightarrow> (nat \<Rightarrow> nat \<Rightarrow> int) \<Rightarrow> nat \<Rightarrow> nat \<Rightarrow> int" where
  "product_row M S i x = ((\<Sum>u<8. M i u * S x u) + 2 ^ 14) div 2 ^ 15"

definition inverse_transform :: "(nat \<Rightarrow> nat \<Rightarrow> int) \<Rightarrow> (nat \<Rightarrow> nat \<Rightarrow> int) \<Rightarrow> nat \<Rightarrow> nat \<Rightarrow> int" where
  "inverse_transform M S y x = sample9 (product_row (\<lambda>i u. product_row M S u i) S y x)"

text \<open>Colour: luminance and the two chrominances to red, green and blue, as signed samples.\<close>

definition rgb :: "int \<Rightarrow> int \<Rightarrow> int \<Rightarrow> int list" where
  "rgb y cr cb =
     [sample9 (y + (359 * cr + 128) div 256),
      sample9 (y + (32 * (- 88 * cb div 32) + 8 * (- 183 * cr div 8) + 128) div 256),
      sample9 (y + (454 * cb + 128) div 256)]"

record format =
  depth :: u8
  sgnd :: bool
  bit15 :: bool

definition byte_of :: "bool \<Rightarrow> int \<Rightarrow> u8" where
  "byte_of sg v = word_of_int (if sg then v else v + 128)"

text \<open>Five bits of a sample, and a pixel of 16 bits in two bytes.\<close>

definition five :: "bool \<Rightarrow> int \<Rightarrow> int" where
  "five sg v = (let c = min 31 ((v + 132) div 8) in if sg then (c + 16) mod 32 else c)"

definition pixel :: "format \<Rightarrow> int list \<Rightarrow> u8 list" where
  "pixel f cs =
     (if depth f = 3
      then let p = five (sgnd f) (cs ! 0) + 32 * five (sgnd f) (cs ! 1) + 1024 * five (sgnd f) (cs ! 2) +
                   (if bit15 f then 32768 else 0)
           in [word_of_int p, word_of_int (p div 256)]
      else map (byte_of (sgnd f)) cs)"

text \<open>An image is a list of blocks of samples: single luminance blocks, or macroblocks of two chrominance
  and four luminance blocks, 16 by 16 pixels; an incomplete macroblock at the end is dropped.\<close>

type_synonym samples = "nat \<Rightarrow> nat \<Rightarrow> int"

record tables =
  luma_quant :: "nat \<Rightarrow> u8"
  chroma_quant :: "nat \<Rightarrow> u8"
  matrix :: "nat \<Rightarrow> nat \<Rightarrow> int"

definition decode_block :: "tables \<Rightarrow> (nat \<Rightarrow> u8) \<Rightarrow> u16 list \<Rightarrow> samples \<times> u16 list" where
  "decode_block T quant hs =
     (case parse_block hs of (b, r) \<Rightarrow> (inverse_transform (coefficients quant b) (matrix T), r))"

fun decode_blocks :: "tables \<Rightarrow> (nat \<Rightarrow> u8) list \<Rightarrow> u16 list \<Rightarrow> (samples list \<times> u16 list) option" where
  "decode_blocks T [] hs = Some ([], hs)"
| "decode_blocks T (q # qs) hs =
     (if hs = [] then None
      else case decode_block T q hs of (b, r) \<Rightarrow> map_option (\<lambda>(bs, r'). (b # bs, r')) (decode_blocks T qs r))"

definition plan :: "format \<Rightarrow> tables \<Rightarrow> (nat \<Rightarrow> u8) list" where
  "plan f T = (if depth f < 2 then [luma_quant T]
               else [chroma_quant T, chroma_quant T, luma_quant T, luma_quant T, luma_quant T, luma_quant T])"

primrec decode_units :: "nat \<Rightarrow> format \<Rightarrow> tables \<Rightarrow> u16 list \<Rightarrow> samples list list" where
  "decode_units 0 f T hs = []"
| "decode_units (Suc n) f T hs =
     (if hs = [] then []
      else case decode_blocks T (plan f T) hs of
             None \<Rightarrow> []
           | Some (bs, r) \<Rightarrow> bs # decode_units n f T r)"

definition unit_bytes :: "format \<Rightarrow> samples list \<Rightarrow> u8 list" where
  "unit_bytes f bs =
     (if depth f < 2
      then concat (map (\<lambda>y. map (\<lambda>x. byte_of (sgnd f) ((bs ! 0) y x)) [0 ..< 8]) [0 ..< 8])
      else concat (map (\<lambda>y. concat (map (\<lambda>x.
             pixel f (rgb ((bs ! (2 + 2 * (y div 8) + x div 8)) (y mod 8) (x mod 8))
                          ((bs ! 0) (y div 2) (x div 2)) ((bs ! 1) (y div 2) (x div 2)))) [0 ..< 16])) [0 ..< 16]))"

text \<open>Every unit takes at least one halfword, so their number bounds the number of units.\<close>

definition decoded_image :: "format \<Rightarrow> tables \<Rightarrow> u16 list \<Rightarrow> u8 list" where
  "decoded_image f T hs = concat (map (unit_bytes f) (decode_units (length hs) f T hs))"

section \<open>The fields of a halfword\<close>

lemma sint_u16: "sint (w :: u16) = (uint w + 32768) mod 65536 - 32768"
  by (simp add: sint_uint signed_take_bit_eq_take_bit_shift take_bit_eq_mod)

lemma uint_and_1023: "uint ((w :: u16) AND 0x03FF) = uint w mod 1024"
proof -
  have "w AND 0x03FF = take_bit 10 w"
    by (simp add: take_bit_eq_mask mask_eq_exp_minus_1)
  then have "uint (w AND 0x03FF) = take_bit 10 (uint w)"
    by (simp only: unsigned_take_bit_eq)
  then show ?thesis
    by (simp add: take_bit_eq_mod)
qed

lemma level_sint: "sint (sign_extend_10 (w AND 0x03FF)) = level w"
proof -
  define v where "v = w AND 0x03FF"
  have v: "uint v = uint w mod 1024"
    by (simp add: v_def uint_and_1023)
  have p: "uint (push_bit 6 v) = uint v * 64"
    using v by (simp add: push_bit_eq_mult uint_word_ariths(3) mod_pos_pos_trivial)
  have "sint (sign_extend_10 v) = sint (push_bit 6 v) div 64"
    by (simp only: sign_extend_10_def sint_signed_drop_bit_eq) (simp add: drop_bit_eq_div)
  also have "\<dots> = ((uint v * 64 + 32768) mod 65536 - 32768) div 64"
    by (simp only: sint_u16 p)
  also have "\<dots> = level w"
  proof -
    have "0 \<le> uint v" "uint v < 1024"
      using v by simp_all
    moreover have "(uint v * 64 + 32768) mod 65536 = uint v * 64 - 32768" if "512 \<le> uint v" "uint v < 1024"
      using that mod_pos_pos_trivial [of "uint v * 64 - 32768" 65536] mod_add_self2 [of "uint v * 64 - 32768" 65536] by (simp add: add.commute)
    ultimately show ?thesis
      unfolding level_def v [symmetric] Let_def by (cases "uint v < 512") simp_all
  qed
  finally show ?thesis
    by (simp add: v_def)
qed

lemma run_unat: "unat (drop_bit 10 w AND 0x3F) = run w" "uint (drop_bit 10 (ucast w) AND 0x3F :: u32) = int (run w)"
proof -
  have lt: "unat w div 1024 < 64"
    using unsigned_less [of w, where ?'a = nat] by (simp add: less_mult_imp_div_less)
  show "unat (drop_bit 10 w AND 0x3F) = run w"
    using unat_and_mask [of "drop_bit 10 w" 6] lt by (simp add: mask_eq_exp_minus_1 run_def drop_bit_eq_div unat_div)
  have "unat (drop_bit 10 (ucast w) AND 0x3F :: u32) = run w"
    using unat_and_mask [of "drop_bit 10 (ucast w) :: u32" 6] lt
    by (simp add: mask_eq_exp_minus_1 run_def drop_bit_eq_div unat_div unat_ucast_up)
  then show "uint (drop_bit 10 (ucast w) AND 0x3F :: u32) = int (run w)"
    by (metis of_nat_unat)
qed

lemma clamp_saturate: "sint (word_of_int (clamp_int v (- 0x4000) 0x3FFF) :: u16) = saturate (- 0x4000) 0x3FFF v"
  by (auto simp: clamp_int_def saturate_def sint_word_of_int_u16)

lemma bias_sgn: "dequant_bias l = - 8 * sgn l"
  by (simp add: dequant_bias_def sgn_if)

lemma dequant_spec:
  "sint (dequant_dc w quant) = dequantise (uint (quant 0)) (level w * uint (quant 0)) (level w)"
  "sint (dequant_ac w (drop_bit 10 (ucast h) AND 0x3F) quant k) =
     (let f = int (run h) * uint (quant k) in dequantise f (level w * f div 8) (level w))"
  unfolding dequant_dc_def dequant_ac_def level_sint run_unat Let_def clamp_saturate
  by (simp_all add: dequantise_def bias_sgn push_bit_eq_mult drop_bit_eq_div algebra_simps)

section \<open>The zigzag order\<close>

lemma zigzag_table:
  "list_all (\<lambda>i. list_all (\<lambda>j. let k = the (map_of (zip zigzag [0 ..< 64]) (i, j))
     in k < 64 \<and> zigzag_to_linear ! k = 8 * i + j) [0 ..< 8]) [0 ..< 8]"
  by code_simp

lemma zigzag_to_linear_distinct: "distinct zigzag_to_linear" "length zigzag_to_linear = 64" "zigzag_to_linear ! 0 = 0"
  by (simp_all add: zigzag_to_linear_def)

lemma zigzag_index:
  assumes "i < 8" "j < 8"
  defines "k \<equiv> the (map_of (zip zigzag [0 ..< 64]) (i, j))"
  shows "k < 64" "zigzag_to_linear ! k = 8 * i + j"
  using zigzag_table assms(1,2) unfolding k_def list_all_iff Let_def by auto

section \<open>Parsing\<close>

lemma map_from: "pos < end_pos \<Longrightarrow> map f [pos ..< end_pos] = f pos # map f [Suc pos ..< end_pos]"
  by (simp add: upt_conv_Cons)

lemma rle_skip_parse:
  "pos \<le> end_pos \<Longrightarrow>
     (case dropWhile ((=) eob) (w # map input [pos ..< end_pos]) of
        [] \<Rightarrow> rle_skip input w pos end_pos = (eob, end_pos)
      | v # r \<Rightarrow> \<exists>p. rle_skip input w pos end_pos = (v, p) \<and> p \<le> end_pos \<and> r = map input [p ..< end_pos])"
proof (induction input w pos end_pos rule: rle_skip.induct)
  case (1 input w pos end_pos)
  show ?case
  proof (cases "w = eob \<and> pos < end_pos")
    case True
    then have skip: "rle_skip input w pos end_pos = rle_skip input (input pos) (Suc pos) end_pos"
      by (subst rle_skip.simps) (simp add: eob_def)
    have drop: "dropWhile ((=) eob) (w # map input [pos ..< end_pos]) = dropWhile ((=) eob) (input pos # map input [Suc pos ..< end_pos])"
      using True by (simp add: map_from)
    show ?thesis
      unfolding skip drop by (rule "1.IH") (use True in \<open>simp_all add: eob_def\<close>)
  next
    case False
    then show ?thesis
      using "1.prems" by (subst (1 2) rle_skip.simps) (auto simp: eob_def)
  qed
qed

definition put_ac :: "(nat \<Rightarrow> u8) \<Rightarrow> u32 \<Rightarrow> nat \<times> u16 \<Rightarrow> block \<Rightarrow> block" where
  "put_ac quant qscale p blk = blk(zigzag_to_linear ! fst p := dequant_ac (snd p) qscale quant (fst p))"

lemma rle_ac_parse:
  "pos \<le> end_pos \<Longrightarrow> parse_ac k (map input [pos ..< end_pos]) = (ps, r) \<Longrightarrow>
     \<exists>p. rle_ac input quant qscale k pos end_pos blk = (fold (put_ac quant qscale) ps blk, p) \<and> p \<le> end_pos \<and>
         r = map input [p ..< end_pos]"
proof (induction input quant qscale k pos end_pos blk arbitrary: ps rule: rle_ac.induct)
  case (1 input quant qscale k pos end_pos blk)
  show ?case
  proof (cases "pos < end_pos \<and> k < 63 \<and> input pos \<noteq> eob \<and> k + run (input pos) + 1 < 64")
    case True
    define k' where "k' = k + run (input pos) + 1"
    obtain qs r' where q: "parse_ac k' (map input [Suc pos ..< end_pos]) = (qs, r')"
      by fastforce
    have ps: "ps = (k', input pos) # qs" "r = r'"
      using "1.prems"(2) True q by (simp_all add: map_from k'_def)
    have step: "rle_ac input quant qscale k pos end_pos blk =
        rle_ac input quant qscale k' (Suc pos) end_pos (put_ac quant qscale (k', input pos) blk)"
      using True by (subst rle_ac.simps) (simp add: Let_def run_unat k'_def eob_def put_ac_def)
    note IH = "1.IH" [OF _ refl _ refl, unfolded run_unat]
    have put: "put_ac quant qscale (k', input pos) blk = blk(zigzag_to_linear ! k' := dequant_ac (input pos) qscale quant k')"
      by (simp add: put_ac_def)
    have "\<exists>p. rle_ac input quant qscale k' (Suc pos) end_pos (put_ac quant qscale (k', input pos) blk) =
        (fold (put_ac quant qscale) qs (put_ac quant qscale (k', input pos) blk), p) \<and> p \<le> end_pos \<and> r' = map input [p ..< end_pos]"
      unfolding put unfolding k'_def ps(2) [symmetric]
      by (rule IH) (use True q ps(2) in \<open>simp_all add: eob_def k'_def\<close>)
    then show ?thesis
      unfolding step ps by simp
  next
    case False
    then show ?thesis
      using "1.prems" by (subst rle_ac.simps) (auto simp: map_from run_unat eob_def Let_def upt_rec [of pos] split: if_splits)
  qed
qed

lemma parse_ac_indices:
  "parse_ac k hs = (ps, r) \<Longrightarrow> distinct (map fst ps) \<and> (\<forall>p \<in> set ps. k < fst p \<and> fst p < 64)"
proof (induction k hs arbitrary: ps r rule: parse_ac.induct)
  case (2 k w hs)
  show ?case
  proof (cases "63 \<le> k \<or> w = eob \<or> 63 < k + run w + 1")
    case True
    with "2.prems" show ?thesis
      by (auto split: if_splits)
  next
    case False
    obtain qs r' where q: "parse_ac (k + run w + 1) hs = (qs, r')"
      by fastforce
    with "2.IH" [of qs r'] False have "distinct (map fst qs) \<and> (\<forall>p \<in> set qs. k + run w + 1 < fst p \<and> fst p < 64)"
      by simp
    with "2.prems" False q show ?thesis
      by fastforce
  qed
qed simp

lemma zigzag_inj: "a < 64 \<Longrightarrow> b < 64 \<Longrightarrow> zigzag_to_linear ! a = zigzag_to_linear ! b \<longleftrightarrow> a = b"
  using zigzag_to_linear_distinct by (simp add: nth_eq_iff_index_eq)

lemma put_acs:
  assumes "distinct (map fst ps)" "\<forall>p \<in> set ps. fst p < 64" "k < 64"
  shows "fold (put_ac quant qscale) ps blk (zigzag_to_linear ! k) =
           (case map_of ps k of None \<Rightarrow> blk (zigzag_to_linear ! k) | Some w \<Rightarrow> dequant_ac w qscale quant k)"
  using assms(1,2)
proof (induction ps arbitrary: blk)
  case (Cons p ps)
  obtain a w where p: "p = (a, w)"
    by (cases p)
  have "map_of ps a = None"
    using Cons.prems by (simp add: p map_of_eq_None_iff)
  with Cons show ?case
    using zigzag_inj [of k a] assms(3) by (auto simp: p put_ac_def split: option.splits)
qed simp

section \<open>One block\<close>

definition same_block :: "block \<Rightarrow> samples \<Rightarrow> bool" where
  "same_block blk sm \<longleftrightarrow> (\<forall>i<8. \<forall>j<8. sint (blk (8 * i + j)) = sm i j)"

lemma coefficients_refine:
  assumes "pos < end_pos" "parse_block (map input [pos ..< end_pos]) = (b, r)"
  shows "same_block (rle_coefficients input quant pos end_pos) (coefficients quant b)"
    and "r = map input [snd (decode_rle_pure input scale quant pos end_pos) ..< end_pos]"
proof -
  obtain w p where skip: "rle_skip input (input pos) (Suc pos) end_pos = (w, p)"
    by fastforce
  obtain ps r' where ac: "parse_ac 0 (map input [p ..< end_pos]) = (ps, r')"
    by fastforce
  define xs where "xs = dropWhile ((=) eob) (map input [pos ..< end_pos])"
  have "case xs of [] \<Rightarrow> rle_skip input (input pos) (Suc pos) end_pos = (eob, end_pos)
      | v # r \<Rightarrow> \<exists>p. rle_skip input (input pos) (Suc pos) end_pos = (v, p) \<and> p \<le> end_pos \<and> r = map input [p ..< end_pos]"
    unfolding xs_def map_from [OF assms(1)] by (rule rle_skip_parse) (use assms(1) in simp)
  then have drop: "case xs of [] \<Rightarrow> w = eob \<and> p = end_pos | v # r \<Rightarrow> w = v \<and> p \<le> end_pos \<and> r = map input [p ..< end_pos]"
    unfolding skip by (cases xs) auto
  have p: "p \<le> end_pos"
    using drop by (auto split: list.splits)
  have b: "b = (w, ps)" "r = r'"
    using drop assms(2) ac by (auto simp: parse_block_def xs_def split: list.splits)
  define qs where "qs = (drop_bit 10 (ucast w) AND 0x3F :: u32)"
  define blk0 where "blk0 = ((\<lambda>_. 0) :: block)(0 := dequant_dc w quant)"
  obtain p' where run: "rle_ac input quant qs 0 p end_pos blk0 = (fold (put_ac quant qs) ps blk0, p')"
      "r' = map input [p' ..< end_pos]"
    using rle_ac_parse [OF p ac, of quant qs blk0] by blast
  then show "r = map input [snd (decode_rle_pure input scale quant pos end_pos) ..< end_pos]"
    by (simp add: decode_rle_pure_def skip b qs_def blk0_def Let_def)
  have coeffs: "rle_coefficients input quant pos end_pos = fold (put_ac quant qs) ps blk0"
    using run by (simp add: rle_coefficients_def skip qs_def blk0_def)
  note idx = parse_ac_indices [OF ac]
  show "same_block (rle_coefficients input quant pos end_pos) (coefficients quant b)"
    unfolding same_block_def
  proof (intro allI impI)
    fix i j :: nat
    assume ij: "i < 8" "j < 8"
    define k where "k = the (map_of (zip zigzag [0 ..< 64]) (i, j))"
    have k: "k < 64" "zigzag_to_linear ! k = 8 * i + j"
      using zigzag_index [OF ij] by (simp_all add: k_def)
    have v: "rle_coefficients input quant pos end_pos (8 * i + j) =
        (case map_of ps k of None \<Rightarrow> blk0 (zigzag_to_linear ! k) | Some v \<Rightarrow> dequant_ac v qs quant k)"
      using put_acs [of ps k quant qs blk0] idx k by (simp add: coeffs)
    have c: "coefficients quant b i j = coefficient quant (w, ps) k"
      by (simp add: coefficients_def k_def b)
    show "sint (rle_coefficients input quant pos end_pos (8 * i + j)) = coefficients quant b i j"
    proof (cases "k = 0")
      case True
      moreover from this idx have "map_of ps k = None"
        by (force simp: map_of_eq_None_iff)
      ultimately show ?thesis
        unfolding c v by (simp add: coefficient_def blk0_def dequant_spec zigzag_to_linear_distinct Let_def)
    next
      case False
      then have "zigzag_to_linear ! k \<noteq> 0"
        using zigzag_inj [of k 0] k(1) by (simp add: zigzag_to_linear_distinct)
      with False show ?thesis
        unfolding c v by (simp add: coefficient_def blk0_def qs_def dequant_spec Let_def split: option.splits)
    qed
  qed
qed

lemma sample9_mask: "mask9_clamp_s8 v = sample9 v"
proof -
  have "sign_x_to_s32 9 v = (v + 256) mod 512 - 256"
  proof -
    have "sign_x_to_s32 9 v = signed_take_bit 8 v"
      unfolding sign_x_to_s32_def
    proof (rule bit_eqI)
      fix n
      show "bit (let shift = 32 - 9 in sint (signed_drop_bit shift (push_bit shift (word_of_int v :: u32)))) n = bit (signed_take_bit 8 v) n"
        by (cases "n = 8") (auto simp: bit_simps min_def)
    qed
    then show ?thesis
      by (simp add: signed_take_bit_eq_take_bit_shift take_bit_eq_mod)
  qed
  then show ?thesis
    by (auto simp: mask9_clamp_s8_def sample9_def saturate_def Let_def)
qed

lemma idct_sum_product:
  assumes "same_block blk M" "i < 8"
  shows "(idct_sum blk scale i x + 0x4000) div 0x8000 = product_row M (\<lambda>x u. sint (scale (x * 8 + u))) i x"
proof -
  have "idct_sum blk scale i x = (\<Sum>u<8. sint (blk (i * 8 + u)) * sint (scale (x * 8 + u)))"
    by (simp add: idct_sum_def sum_list_sum_nth atLeast0LessThan)
  also have "\<dots> = (\<Sum>u<8. M i u * sint (scale (x * 8 + u)))"
    using assms by (intro sum.cong) (auto simp: same_block_def mult.commute)
  finally show ?thesis
    by (simp add: product_row_def)
qed

lemma idct_refines:
  assumes b: "same_block blk M" "\<And>i. \<bar>sint (blk i)\<bar> \<le> 0x4000" and s: "scale_ok scale"
  shows "same_block (idct_block blk scale) (inverse_transform M (\<lambda>x u. sint (scale (x * 8 + u))))"
  unfolding same_block_def
proof (intro allI impI)
  let ?S = "\<lambda>x u. sint (scale (x * 8 + u))"
  have pass1: "same_block (idct_pass1 blk scale) (\<lambda>i u. product_row M ?S u i)"
    unfolding same_block_def
  proof (intro allI impI)
    fix i u :: nat
    assume "i < 8" "u < 8"
    then show "sint (idct_pass1 blk scale (8 * i + u)) = product_row M ?S u i"
      using idct_pass1_exact(1) [of blk scale "8 * i + u", OF b(2) s] idct_sum_product [OF b(1), of u scale i] by simp
  qed
  fix i j :: nat
  assume ij: "i < 8" "j < 8"
  have "sint (idct_block blk scale (8 * i + j)) = sample9 ((idct_sum (idct_pass1 blk scale) scale i j + 0x4000) div 0x8000)"
    using ij mask9_range [of "(idct_sum (idct_pass1 blk scale) scale i j + 0x4000) div 0x8000"]
    by (simp add: idct_block_def Let_def drop_bit_eq_div sint_word_of_int_u16 sample9_mask)
  then show "sint (idct_block blk scale (8 * i + j)) = inverse_transform M ?S i j"
    using idct_sum_product [OF pass1 ij(1), of scale j] by (simp add: inverse_transform_def)
qed

definition tables_of :: "'a mdec_st_scheme \<Rightarrow> tables" where
  "tables_of s = \<lparr> luma_quant = m_y_quant s, chroma_quant = m_uv_quant s, matrix = (\<lambda>x u. sint (m_scale s (x * 8 + u))) \<rparr>"

lemma decode_block_refines:
  assumes "pos < end_pos" "scale_ok scale" "matrix T = (\<lambda>x u. sint (scale (x * 8 + u)))"
    and "decode_rle_pure input scale quant pos end_pos = (blk, pos')"
  shows "\<exists>sm. decode_block T quant (map input [pos ..< end_pos]) = (sm, map input [pos' ..< end_pos]) \<and> same_block blk sm"
proof -
  obtain b r where p: "parse_block (map input [pos ..< end_pos]) = (b, r)"
    by fastforce
  let ?c = "rle_coefficients input quant pos end_pos"
  have c: "\<bar>sint (?c i)\<bar> \<le> 0x4000" for i
    by (auto simp: rle_coefficients_def split_beta Let_def dequant_range intro!: rle_ac_range)
  have "same_block blk (inverse_transform (coefficients quant b) (matrix T))"
    using idct_refines [OF coefficients_refine(1) [OF assms(1) p, of quant] c assms(2)]
      decode_rle_pure_idct [of input scale quant pos end_pos] assms(3,4) by simp
  moreover have "r = map input [pos' ..< end_pos]"
    using coefficients_refine(2) [OF assms(1) p, of scale quant] assms(4) by simp
  ultimately show ?thesis
    by (simp add: decode_block_def p)
qed

section \<open>Colours and bytes\<close>

lemma sample9_range: "- 128 \<le> sample9 v" "sample9 v \<le> 127"
  by (simp_all add: sample9_def saturate_def)

lemma and_not_low: "(v :: int) AND NOT 0x1F = 32 * (v div 32)" "v AND NOT 0x07 = 8 * (v div 8)"
proof -
  have "v AND NOT (mask n) = 2 ^ n * (v div 2 ^ n)" for n
  proof -
    have "v AND NOT (mask n) = push_bit n (drop_bit n v)"
      by (rule bit_eqI) (auto simp: bit_simps)
    then show ?thesis
      by (simp add: push_bit_eq_mult drop_bit_eq_div mult.commute)
  qed
  from this [of 5] this [of 3] show "v AND NOT 0x1F = 32 * (v div 32)" "v AND NOT 0x07 = 8 * (v div 8)"
    by (simp_all add: mask_eq_exp_minus_1)
qed

text \<open>All 256 samples, by evaluation: a signed sample with its sign bit flipped is the unsigned one.\<close>

lemma sample_bytes:
  "list_all (\<lambda>v. (word_of_int (v XOR 0x80) :: u8) = word_of_int (v + 128) \<and> (word_of_int (v XOR 0x80) :: u8) XOR 0x80 = word_of_int v \<and>
     rgb_to_555_chan (word_of_int (v XOR 0x80)) = min 31 ((v + 132) div 8)) [- 128 .. 127]"
  by code_simp

lemma all_upto: "list_all P [a .. b] \<Longrightarrow> a \<le> v \<Longrightarrow> v \<le> b \<Longrightarrow> P (v :: int)"
  by (simp add: list_all_iff)

lemma sample_byte:
  assumes "- 128 \<le> v" "v \<le> 127"
  shows "(word_of_int (v XOR 0x80) :: u8) XOR (if sg then 0x80 else 0x00) = byte_of sg v"
    "rgb_to_555_chan (word_of_int (v XOR 0x80)) = min 31 ((v + 132) div 8)"
proof -
  note b = all_upto [OF sample_bytes assms]
  show "(word_of_int (v XOR 0x80) :: u8) XOR (if sg then 0x80 else 0x00) = byte_of sg v"
  proof (cases sg)
    case True
    with b show ?thesis
      unfolding byte_of_def if_P [OF True] by (elim conjE)
  next
    case False
    with b show ?thesis
      by (simp add: byte_of_def)
  qed
  show "rgb_to_555_chan (word_of_int (v XOR 0x80)) = min 31 ((v + 132) div 8)"
    using b by blast
qed

lemma rgb_refines:
  "ycbcr_to_rgb y cr cb = (r, g, b) \<Longrightarrow> r = rgb y cr cb ! 0 XOR 0x80 \<and> g = rgb y cr cb ! 1 XOR 0x80 \<and> b = rgb y cr cb ! 2 XOR 0x80"
  unfolding ycbcr_to_rgb_def Let_def and_not_low by (auto simp: rgb_def sample9_mask drop_bit_eq_div)

lemma rgb_length: "rgb y cr cb = [rgb y cr cb ! 0, rgb y cr cb ! 1, rgb y cr cb ! 2]"
  by (simp add: rgb_def)

lemma rgb_range: "n < 3 \<Longrightarrow> - 128 \<le> rgb y cr cb ! n \<and> rgb y cr cb ! n \<le> 127"
  by (auto simp: rgb_def less_Suc_eq numeral_3_eq_3 sample9_range)

text \<open>Packing three fields of five bits.\<close>

lemma or_add_5: "0 \<le> a \<Longrightarrow> a < 32 \<Longrightarrow> (a :: int) OR push_bit 5 b = a + 32 * b"
proof -
  assume "0 \<le> a" "a < 32"
  then have t: "take_bit 5 a = a"
    by (simp add: take_bit_int_eq_self)
  have "a AND push_bit 5 b = 0"
  proof (rule bit_eqI)
    fix n
    have "bit a n \<Longrightarrow> n < 5"
      by (subst (asm) t [symmetric]) (simp add: bit_take_bit_iff)
    then show "bit (a AND push_bit 5 b) n = bit 0 n"
      by (auto simp: bit_simps)
  qed
  then show ?thesis
    by (simp add: disjunctive_add_eq_or [symmetric] push_bit_eq_mult mult.commute)
qed

lemma five_xor: "0 \<le> c \<Longrightarrow> c < 32 \<Longrightarrow> (c + 16) mod 32 = c XOR 16" for c :: int
proof -
  have "list_all (\<lambda>c. (c + 16) mod 32 = c XOR 16) [0 .. 31 :: int]"
    by code_simp
  from all_upto [OF this, of c] show "0 \<le> c \<Longrightarrow> c < 32 \<Longrightarrow> (c + 16) mod 32 = c XOR 16"
    by simp
qed

lemma five_range: "- 128 \<le> v \<Longrightarrow> v \<le> 127 \<Longrightarrow> 0 \<le> five sg v \<and> five sg v < 32"
  by (auto simp: five_def Let_def min_def)

lemma five_alt: "- 128 \<le> v \<Longrightarrow> v \<le> 127 \<Longrightarrow> five sg v = min 31 ((v + 132) div 8) XOR (if sg then 16 else 0)"
proof -
  have "list_all (\<lambda>v. five True v = min 31 ((v + 132) div 8) XOR 16) [- 128 .. 127]"
    by code_simp
  from all_upto [OF this, of v] show "- 128 \<le> v \<Longrightarrow> v \<le> 127 \<Longrightarrow> five sg v = min 31 ((v + 132) div 8) XOR (if sg then 16 else 0)"
    by (cases sg) (simp_all add: five_def Let_def)
qed

lemma pixel_high_bits: "0 \<le> a \<Longrightarrow> a < 32 \<Longrightarrow> 5 \<le> n \<Longrightarrow> \<not> bit (a :: int) n"
  using take_bit_int_eq_self [of a 5] bit_take_bit_iff [of 5 a n] by auto

lemma pack_xor:
  fixes p q r x h :: int
  assumes "0 \<le> p" "p < 32" "0 \<le> q" "q < 32" "0 \<le> r" "r < 32" "0 \<le> x" "x < 32"
  shows "(p XOR x) OR push_bit 5 ((q XOR x) OR push_bit 5 ((r XOR x) OR push_bit 5 h)) =
         (p OR push_bit 5 q OR push_bit 10 r) XOR (push_bit 15 h OR (x OR push_bit 5 x OR push_bit 10 x))"
proof (rule bit_eqI)
  fix n :: nat
  note hb = pixel_high_bits [OF assms(1,2)] pixel_high_bits [OF assms(3,4)] pixel_high_bits [OF assms(5,6)] pixel_high_bits [OF assms(7,8)]
  consider "n < 5" | "5 \<le> n" "n < 10" | "10 \<le> n" "n < 15" | "15 \<le> n"
    by linarith
  then show "bit ((p XOR x) OR push_bit 5 ((q XOR x) OR push_bit 5 ((r XOR x) OR push_bit 5 h))) n =
         bit ((p OR push_bit 5 q OR push_bit 10 r) XOR (push_bit 15 h OR (x OR push_bit 5 x OR push_bit 10 x))) n"
    by cases (simp_all add: bit_simps hb)
qed

text \<open>The pixel of 15 bits as the code packs it.\<close>

lemma pack_refines:
  assumes v: "\<And>n. n < 3 \<Longrightarrow> - 128 \<le> cs ! n \<and> cs ! n \<le> 127"
  shows "(word_of_int (min 31 ((cs ! 0 + 132) div 8) OR push_bit 5 (min 31 ((cs ! 1 + 132) div 8)) OR
                       push_bit 10 (min 31 ((cs ! 2 + 132) div 8))) :: u16) XOR
           ((if b15 then 0x8000 else 0) OR (if sg then 0x4210 else 0)) =
         word_of_int (five sg (cs ! 0) + 32 * five sg (cs ! 1) + 1024 * five sg (cs ! 2) + (if b15 then 32768 else 0))"
proof -
  define c where "c = (\<lambda>n. min 31 ((cs ! n + 132) div 8))"
  define x where "x = (if sg then 16 else 0 :: int)"
  define h where "h = (if b15 then 1 else 0 :: int)"
  have f: "five sg (cs ! n) = c n XOR x" "0 \<le> five sg (cs ! n)" "five sg (cs ! n) < 32" "0 \<le> c n" "c n < 32" if "n < 3" for n
    using five_alt [of "cs ! n" sg] five_range [of "cs ! n" sg] v [OF that] by (auto simp: c_def x_def min_def)
  have x: "0 \<le> x" "x < 32"
    by (simp_all add: x_def)
  have "five sg (cs ! 0) + 32 * five sg (cs ! 1) + 1024 * five sg (cs ! 2) + 32768 * h =
      five sg (cs ! 0) OR push_bit 5 (five sg (cs ! 1) OR push_bit 5 (five sg (cs ! 2) OR push_bit 5 h))"
    using f(2,3) [of 0] f(2,3) [of 1] f(2,3) [of 2] by (simp add: or_add_5 del: One_nat_def)
  also have "\<dots> = (c 0 OR push_bit 5 (c 1) OR push_bit 10 (c 2)) XOR (push_bit 15 h OR (x OR push_bit 5 x OR push_bit 10 x))"
    using f [of 0] f [of 1] f [of 2] pack_xor [OF f(4,5) [of 0] f(4,5) [of 1] f(4,5) [of 2] x] by (simp del: One_nat_def)
  finally have "(word_of_int (five sg (cs ! 0) + 32 * five sg (cs ! 1) + 1024 * five sg (cs ! 2) + 32768 * h) :: u16) =
      word_of_int (c 0 OR push_bit 5 (c 1) OR push_bit 10 (c 2)) XOR word_of_int (push_bit 15 h OR (x OR push_bit 5 x OR push_bit 10 x))"
    by (simp only: of_int_xor_eq)
  moreover have "(word_of_int (push_bit 15 h OR (x OR push_bit 5 x OR push_bit 10 x)) :: u16) = (if b15 then 0x8000 else 0) OR (if sg then 0x4210 else 0)"
    by (simp add: h_def x_def)
  ultimately show ?thesis
    by (cases b15) (simp_all add: h_def c_def)
qed

section \<open>The output format\<close>

definition format_of :: "'a mdec_st_scheme \<Rightarrow> format" where
  "format_of s = \<lparr> depth = m_output_depth s, sgnd = (m_output_signed s \<noteq> 0), bit15 = (m_output_bit15 s \<noteq> 0) \<rparr>"

lemma pixel_refines: "pixel_bytes s y cr cb = pixel (format_of s) (rgb y cr cb)"
proof -
  define cs where "cs = rgb y cr cb"
  obtain r g b where ycc: "ycbcr_to_rgb y cr cb = (r, g, b)"
    by (metis surj_pair)
  have rgb: "r = cs ! 0 XOR 0x80" "g = cs ! 1 XOR 0x80" "b = cs ! 2 XOR 0x80"
    using rgb_refines [OF ycc] by (simp_all add: cs_def)
  have v: "- 128 \<le> cs ! n \<and> cs ! n \<le> 127" if "n < 3" for n
    using rgb_range [OF that] by (simp add: cs_def)
  have cs: "cs = [cs ! 0, cs ! 1, cs ! 2]"
    unfolding cs_def by (rule rgb_length)
  have vs: "- 128 \<le> cs ! 0" "cs ! 0 \<le> 127" "- 128 \<le> cs ! 1" "cs ! 1 \<le> 127" "- 128 \<le> cs ! 2" "cs ! 2 \<le> 127"
    using v [of 0] v [of 1] v [of 2] by simp_all
  have lo: "ucast (word_of_int p :: u16) = (word_of_int p :: u8)" "ucast (drop_bit 8 (word_of_int p :: u16)) = (word_of_int (p div 256) :: u8)" for p :: int
  proof -
    show "ucast (word_of_int p :: u16) = (word_of_int p :: u8)"
      by (rule bit_word_eqI) (simp add: bit_simps)
    have "p div 256 = drop_bit 8 p"
      by (simp add: drop_bit_eq_div)
    then show "ucast (drop_bit 8 (word_of_int p :: u16)) = (word_of_int (p div 256) :: u8)"
      by (simp only:) (rule bit_word_eqI, simp add: bit_simps)
  qed
  show ?thesis
  proof (cases "m_output_depth s = 3")
    case True
    define p where "p = five (m_output_signed s \<noteq> 0) (cs ! 0) + 32 * five (m_output_signed s \<noteq> 0) (cs ! 1) +
      1024 * five (m_output_signed s \<noteq> 0) (cs ! 2) + (if m_output_bit15 s \<noteq> 0 then 32768 else 0)"
    have "pixel_bytes s y cr cb = [ucast (word_of_int p :: u16), ucast (drop_bit 8 (word_of_int p :: u16))]"
      unfolding pixel_bytes_def ycc rgb Let_def prod.case if_P [OF True] sample_byte(2) [OF vs(1,2)] sample_byte(2) [OF vs(3,4)]
        sample_byte(2) [OF vs(5,6)] p_def
      by (subst (1 2) pack_refines) (use v in \<open>auto\<close>)
    then have "pixel_bytes s y cr cb = [word_of_int p, word_of_int (p div 256)]"
      unfolding lo .
    moreover have "pixel (format_of s) cs = [word_of_int p, word_of_int (p div 256)]"
      unfolding pixel_def p_def using True by (simp only: format_of_def format.select_convs if_True simp_thms Let_def)
    ultimately show ?thesis
      by (simp only: cs_def)
  next
    case False
    then show ?thesis
      unfolding cs_def [symmetric] using vs
      by (subst cs) (simp add: pixel_bytes_def ycc rgb sample_byte(1) pixel_def format_of_def Let_def)
  qed
qed

lemma concat_rows: "concat (map (\<lambda>y. map (\<lambda>x. f (8 * y + x)) [0 ..< 8]) [0 ..< 8]) = map f [0 ..< 64]"
proof -
  have "concat (map (\<lambda>y. map (\<lambda>x. 8 * y + x) [0 ..< 8]) [0 ..< 8]) = [0 ..< 64 :: nat]"
    by code_simp
  from arg_cong [OF this, of "map f"] show ?thesis
    by (simp only: map_concat map_map comp_def)
qed

lemma luma_refines:
  assumes "same_block blk sm" "\<And>i. - 128 \<le> sint (blk i) \<and> sint (blk i) \<le> 127" "m_output_depth s < 2"
  shows "luma_bytes s blk = unit_bytes (format_of s) [sm]"
proof -
  have b: "to_output_u8 (sint (blk i)) s = byte_of (m_output_signed s \<noteq> 0) (sint (blk i))" for i
    using assms(2) [of i] by (auto simp: to_output_u8_def clamp_int_def byte_of_def)
  have "unit_bytes (format_of s) [sm] =
      concat (map (\<lambda>y. map (\<lambda>x. byte_of (m_output_signed s \<noteq> 0) (sint (blk (8 * y + x)))) [0 ..< 8]) [0 ..< 8])"
  proof -
    have "map (\<lambda>x. byte_of (m_output_signed s \<noteq> 0) (sm y x)) [0 ..< 8] =
        map (\<lambda>x. byte_of (m_output_signed s \<noteq> 0) (sint (blk (8 * y + x)))) [0 ..< 8]" if "y < 8" for y
      using assms(1) that by (auto simp: same_block_def)
    then show ?thesis
      using assms(3) by (auto simp: unit_bytes_def format_of_def intro!: arg_cong [where f = concat] map_cong)
  qed
  also have "\<dots> = map (\<lambda>i. byte_of (m_output_signed s \<noteq> 0) (sint (blk i))) [0 ..< 64]"
    by (rule concat_rows)
  finally show ?thesis
    by (simp add: luma_bytes_def b)
qed

lemma macroblock_refines:
  assumes "list_all2 same_block blks sms" "length blks = 6" "\<not> m_output_depth s < 2"
  shows "macroblock_bytes s blks = unit_bytes (format_of s) sms"
proof -
  have same: "sint ((blks ! n) (j + i * 8)) = (sms ! n) i j" if "n < 6" "i < 8" "j < 8" for n i j
  proof -
    have "same_block (blks ! n) (sms ! n)"
      using assms(1,2) that(1) by (simp add: list_all2_nthD)
    then show ?thesis
      using that(2,3) by (auto simp: same_block_def mult.commute add.commute)
  qed
  have "macroblock_pixel s blks y x = pixel (format_of s) (rgb ((sms ! (2 + 2 * (y div 8) + x div 8)) (y mod 8) (x mod 8))
      ((sms ! 0) (y div 2) (x div 2)) ((sms ! 1) (y div 2) (x div 2)))" if "y < 16" "x < 16" for y x
  proof -
    have "y div 8 < 2" "x div 8 < 2" "y div 2 < 8" "x div 2 < 8"
      using that by (simp_all add: less_mult_imp_div_less)
    moreover have i: "2 + (y div 8 * 2 + x div 8) = 2 + 2 * (y div 8) + x div 8"
      by simp
    ultimately have "2 + 2 * (y div 8) + x div 8 < 6"
      by linarith
    note parts = same [OF this, of "y mod 8" "x mod 8"] same [of 0 "y div 2" "x div 2"] same [of 1 "y div 2" "x div 2"]
    show ?thesis
      unfolding macroblock_pixel_def pixel_refines i
      using parts \<open>y div 2 < 8\<close> \<open>x div 2 < 8\<close> by (simp del: One_nat_def)
  qed
  then show ?thesis
    using assms(3) unfolding macroblock_bytes_def unit_bytes_def
    by (simp add: format_of_def) (auto intro!: arg_cong [where f = concat] map_cong simp: format_of_def)
qed

section \<open>The whole image\<close>

lemma decode_rle_pure_range:
  "scale_ok scale \<Longrightarrow> - 128 \<le> sint (fst (decode_rle_pure input scale quant pos end_pos) i) \<and>
     sint (fst (decode_rle_pure input scale quant pos end_pos) i) \<le> 127"
  using idct_stays_in_range [of scale input quant pos end_pos] by (simp add: Let_def)

lemma tables_of_sel [simp]:
  "luma_quant (tables_of s) = m_y_quant s" "chroma_quant (tables_of s) = m_uv_quant s"
  "matrix (tables_of s) = (\<lambda>x u. sint (m_scale s (x * 8 + u)))"
  by (simp_all add: tables_of_def)

lemma luma_units:
  assumes "scale_ok (m_scale s)" "m_output_depth s < 2" "end_pos - pos \<le> n"
  shows "concat (map (luma_bytes s) (luma_ref input (m_scale s) (m_y_quant s) pos end_pos)) =
         concat (map (unit_bytes (format_of s)) (decode_units n (format_of s) (tables_of s) (map input [pos ..< end_pos])))"
  using assms(3)
proof (induction n arbitrary: pos)
  case 0
  then show ?case
    by (simp add: luma_ref.simps)
next
  case (Suc n)
  show ?case
  proof (cases "pos < end_pos")
    case True
    obtain blk pos' where d: "decode_rle_pure input (m_scale s) (m_y_quant s) pos end_pos = (blk, pos')"
      by fastforce
    obtain sm where sm: "decode_block (tables_of s) (m_y_quant s) (map input [pos ..< end_pos]) = (sm, map input [pos' ..< end_pos])"
      "same_block blk sm"
      using decode_block_refines [OF True assms(1) _ d, of "tables_of s"] by auto
    have "luma_bytes s blk = unit_bytes (format_of s) [sm]"
      using luma_refines [OF sm(2) _ assms(2)] decode_rle_pure_range [OF assms(1), of input "m_y_quant s" pos end_pos] d by simp
    moreover have "end_pos - pos' \<le> n"
      using decode_rle_pure_bounds(1) [OF True, of input "m_scale s" "m_y_quant s"] d Suc.prems by simp
    moreover have "plan (format_of s) (tables_of s) = [m_y_quant s]"
      using assms(2) by (simp add: plan_def format_of_def)
    ultimately show ?thesis
      using True d sm(1) Suc.IH [of pos'] by (subst luma_ref.simps) simp
  next
    case False
    then show ?thesis
      by (simp add: luma_ref.simps)
  qed
qed

lemma blocks_refine:
  assumes "scale_ok (m_scale s)"
  shows "(case ref_blocks input (m_scale s) qs pos end_pos of
            None \<Rightarrow> decode_blocks (tables_of s) qs (map input [pos ..< end_pos]) = None
          | Some (blks, p) \<Rightarrow> \<exists>sms. decode_blocks (tables_of s) qs (map input [pos ..< end_pos]) = Some (sms, map input [p ..< end_pos]) \<and>
                                   list_all2 same_block blks sms)"
proof (induction qs arbitrary: pos)
  case (Cons q qs)
  show ?case
  proof (cases "pos < end_pos")
    case True
    obtain blk pos' where d: "decode_rle_pure input (m_scale s) q pos end_pos = (blk, pos')"
      by fastforce
    obtain sm where sm: "decode_block (tables_of s) q (map input [pos ..< end_pos]) = (sm, map input [pos' ..< end_pos])"
      "same_block blk sm"
      using decode_block_refines [OF True assms _ d, of "tables_of s"] by auto
    show ?thesis
      using Cons.IH [of pos'] True d sm by (auto split: option.splits)
  qed simp
qed simp

lemma color_units:
  assumes "scale_ok (m_scale s)" "\<not> m_output_depth s < 2" "end_pos - pos \<le> n"
  shows "concat (map (macroblock_bytes s) (color_ref input (m_scale s) (m_uv_quant s) (m_y_quant s) pos end_pos)) =
         concat (map (unit_bytes (format_of s)) (decode_units n (format_of s) (tables_of s) (map input [pos ..< end_pos])))"
  using assms(3)
proof (induction n arbitrary: pos)
  case 0
  then show ?case
    by (simp add: color_ref.simps)
next
  case (Suc n)
  define qs where "qs = color_quants (m_uv_quant s) (m_y_quant s)"
  have plan: "plan (format_of s) (tables_of s) = qs"
    using assms(2) by (simp add: plan_def format_of_def qs_def)
  note ref = blocks_refine [OF assms(1), where input = input and qs = qs and pos = pos and end_pos = end_pos]
  show ?case
  proof (cases "pos < end_pos")
    case True
    show ?thesis
    proof (cases "ref_blocks input (m_scale s) qs pos end_pos")
      case None
      with ref True show ?thesis
        by (subst color_ref.simps) (simp add: plan qs_def [symmetric])
    next
      case (Some bp)
      obtain blks p where bp: "bp = (blks, p)"
        by (cases bp)
      obtain sms where sms: "decode_blocks (tables_of s) qs (map input [pos ..< end_pos]) = Some (sms, map input [p ..< end_pos])"
        "list_all2 same_block blks sms"
        using ref Some by (auto simp: bp)
      have l: "pos + length qs \<le> p" "length blks = length qs"
        using ref_blocks_pos Some by (auto simp: bp)
      then have "length blks = 6" "end_pos - p \<le> n"
        using Suc.prems by (simp_all add: qs_def)
      moreover from this(1) have "macroblock_bytes s blks = unit_bytes (format_of s) sms"
        by (rule macroblock_refines [OF sms(2) _ assms(2)])
      ultimately show ?thesis
        using True Some sms(1) Suc.IH [of p] by (subst color_ref.simps) (simp add: plan bp qs_def [symmetric])
    qed
  next
    case False
    then show ?thesis
      by (simp add: color_ref.simps)
  qed
qed

lemma ref_bytes_image:
  assumes "scale_ok (m_scale s)"
  shows "ref_bytes s = decoded_image (format_of s) (tables_of s) (map (m_input s) [0 ..< unat (m_input_count s)])"
  using luma_units [OF assms, of "unat (m_input_count s)" 0 "unat (m_input_count s)" "m_input s"]
    color_units [OF assms, of "unat (m_input_count s)" 0 "unat (m_input_count s)" "m_input s"]
  by (simp add: ref_bytes_def decoded_image_def Let_def)

section \<open>From the command word to the output port\<close>

text \<open>The matrix of a reachable decoder holds values of 13 bits: only the set-scale command writes it.\<close>

lemma scale_ok_execute:
  assumes "core_ok s" "unat (m_input_count s) \<le> 131070" "scale_ok (m_scale s)"
  shows "scale_ok (m_scale (execute_command s))"
proof -
  have "out_ok s"
    using assms(1) by (simp add: core_ok_def)
  from execute_decode_emits [OF this assms(2)] obtain t where
    t: "emits (ref_bytes s) (decode_prologue s) t" "m_scale (execute_decode s) = m_scale t"
    by blast
  have "m_scale t = m_scale (decode_prologue s)"
    using t(1) stable_part_fields [of t "decode_prologue s"] by (simp add: emits_def)
  then have "scale_ok (m_scale (execute_decode s))"
    using t(2) assms(3) by (simp add: decode_prologue_def clear_output_def)
  moreover have "scale_ok (m_scale (load_quant s))"
    using assms(3) by (simp add: load_quant_def Let_def)
  ultimately show ?thesis
    using assms(3) scale_ok_load [OF assms(3)] by (simp add: execute_command_def finish_command_def Let_def)
qed

lemma scale_ok_write_data:
  assumes "mdec_ok s" "scale_ok (m_scale s)"
  shows "scale_ok (m_scale (write_data v s))"
proof (cases "m_busy s \<noteq> 0 \<and> m_input_count s < m_expected_halfwords s")
  case True
  define s1 where "s1 = store_halfword (ucast v) s"
  define s2 where "s2 = (if m_input_count s1 < m_expected_halfwords s1 then store_halfword (ucast (drop_bit 16 v)) s1 else s1)"
  have w: "write_data v s = (if m_input_count s2 \<ge> m_expected_halfwords s2 then execute_command s2 else s2)"
    using True by (simp add: write_data_def s1_def s2_def Let_def)
  have e: "unat (m_expected_halfwords s) \<le> 131070"
    using assms(1) True command_halfwords_bound by (simp add: mdec_ok_def)
  have "core_ok s2"
    using assms(1) unfolding mdec_ok_def by (elim conjE core_ok_cong) (simp_all add: s2_def s1_def store_halfword_def)
  moreover have "unat (m_input_count s2) \<le> 131070"
  proof -
    have "unat (m_input_count s1) = unat (m_input_count s) + 1" "m_expected_halfwords s1 = m_expected_halfwords s"
      using True e by (auto simp: s1_def store_halfword_def word_less_nat_alt unat_word_ariths(1))
    then show ?thesis
      using True e by (auto simp: s2_def store_halfword_def word_less_nat_alt unat_word_ariths(1))
  qed
  moreover have "scale_ok (m_scale s2)"
    using assms(2) by (simp add: s2_def s1_def store_halfword_def)
  ultimately show ?thesis
    unfolding w by (simp add: scale_ok_execute)
next
  case False
  then show ?thesis
    using assms(2) by (auto simp: write_data_def begin_command_def ensure_input_capacity_def finish_command_def Let_def)
qed

lemma scale_ok_exec:
  assumes "mdec_ok s" "scale_ok (m_scale s)"
  shows "scale_ok (m_scale (mdec_exec op s))"
proof -
  have r: "m_scale (snd (mdec_dma_read_word s)) = m_scale s"
  proof -
    obtain v s1 where f: "fold read_out_byte [0 ..< 4] (0, s) = (v, s1)"
      by fastforce
    then have "m_scale s1 = m_scale s"
      using fold_read_out_byte_frame [of "[0 ..< 4]" 0 s] by auto
    then show ?thesis
      by (simp add: mdec_dma_read_word_def f note_underflow_def clear_output_def Let_def)
  qed
  show ?thesis
    using assms r scale_ok_write_data [OF assms]
    by (cases op) (simp_all add: mdec_read_def mdec_write_def mdec_dma_write_word_def soft_reset_def mdec_debug_clear_def
        mdec_debug_dma_in_start_def mdec_debug_dma_in_end_def mdec_debug_dma_out_start_def mdec_debug_dma_out_end_def Let_def)
qed

lemma reachable_scale_ok: "mdec_ok (fold mdec_exec ops (mdec_init s)) \<and> scale_ok (m_scale (fold mdec_exec ops (mdec_init s)))"
proof -
  have "mdec_ok (fold mdec_exec ops u) \<and> scale_ok (m_scale (fold mdec_exec ops u))"
    if "mdec_ok u" "scale_ok (m_scale u)" for u :: "'a mdec_st_scheme"
    using that by (induction ops arbitrary: u) (simp_all add: mdec_ok_exec scale_ok_exec)
  moreover have "scale_ok (m_scale (mdec_init s))"
    by (simp add: mdec_init_def scale_ok_def)
  ultimately show ?thesis
    by (simp add: mdec_ok_init)
qed

definition command_format :: "u32 \<Rightarrow> format" where
  "command_format cmd = \<lparr> depth = ucast (drop_bit 27 cmd AND 3), sgnd = bit cmd 26, bit15 = bit cmd 25 \<rparr>"

lemma flag_bit: "(ucast (drop_bit n w AND 1) :: u8) \<noteq> 0 \<longleftrightarrow> bit (w :: u32) n"
proof -
  have "drop_bit n w AND 1 = (if bit w n then 1 else 0)"
    by (simp add: and_one_eq mod_2_eq_odd bit_iff_odd_drop_bit)
  then show ?thesis
    by simp
qed

text \<open>C7. The decoder delivers the image the code describes. Take any reachable idle decoder whose host
  allocator grants its requests, send it a decode command and as many parameter words as the command announces:
  it is idle again, the output buffer holds exactly the bytes of the specified image, computed from the
  parameters and the tables in force by an independent parser, an integer transform and an integer colour
  conversion, and reading the data port returns those bytes, four to a word.\<close>

theorem decode_matches_reference:
  assumes "s = fold mdec_exec ops (mdec_init s0)" and "m_busy s = 0" and "\<And>n. m_realloc_ok s n"
    and "drop_bit 29 cmd = 1" and "unat (cmd AND 0xFFFF) = length ws" and "ws \<noteq> []"
  shows "let t = fold write_data ws (write_data cmd s);
             bytes = decoded_image (command_format cmd) (tables_of s) (map (stream_half ws) [0 ..< 2 * length ws])
     in m_busy t = 0 \<and> out_bytes t = bytes \<and> fst (drain_words (length (words_of bytes)) t) = words_of bytes"
proof -
  have ok: "mdec_ok s" "scale_ok (m_scale s)"
    using reachable_scale_ok [of ops s0] assms(1) by simp_all
  have n: "unat (command_halfwords cmd) = 2 * length ws"
  proof -
    have "unat (cmd AND 0xFFFF) < 65536"
      using unat_and_mask [of cmd 16] by (simp add: mask_eq_exp_minus_1)
    then show ?thesis
      using assms(4,5) by (simp add: command_halfwords_def Let_def unat_word_ariths(2))
  qed
  obtain us w where ws: "ws = us @ [w]"
    using assms(6) by (cases ws rule: rev_cases) auto
  obtain a where a: "awaiting cmd us s a" "m_command (store_word w a) = cmd"
    "fold write_data ws (write_data cmd s) = execute_command (store_word w a)"
    using last_parameter [OF ok(1) assms(2,3), of cmd us w] n ws by auto
  define d where "d = store_word w a"
  define e where "e = execute_decode d"
  have t: "fold write_data ws (write_data cmd s) = finish_command e"
    using a(2,3) assms(4) by (simp add: execute_command_def e_def d_def Let_def)
  have fields: "m_scale d = m_scale s" "m_y_quant d = m_y_quant s" "m_uv_quant d = m_uv_quant s" "m_realloc_ok d = m_realloc_ok s"
    "m_output_depth d = ucast (drop_bit 27 cmd AND 3)" "m_output_signed d = ucast (drop_bit 26 cmd AND 1)"
    "m_output_bit15 d = ucast (drop_bit 25 cmd AND 1)"
    using a(1) by (simp_all add: awaiting_def d_def store_word_def store_halfword_def)
  have count: "unat (m_input_count d) = 2 * length ws"
    using awaiting_write(2) [OF a(1), of w] ws by (simp add: d_def)
  have "core_ok a"
    using a(1) by (simp add: awaiting_def mdec_ok_def)
  then have "out_ok d"
    by (simp add: core_ok_def out_ok_def d_def store_word_def store_halfword_def)
  moreover have "unat (m_input_count d) \<le> 131070"
    using count n command_halfwords_bound [of cmd] by simp
  ultimately have out: "out_bytes e = ref_bytes d" "m_output_pos e = 0"
    using execute_decode_output [of d] fields(4) assms(3) by (simp_all add: e_def Let_def)
  have input: "map (m_input d) [0 ..< 2 * length ws] = map (stream_half ws) [0 ..< 2 * length ws]"
    using stream_input [OF a(1)] ws by (auto simp: d_def)
  have format: "format_of d = command_format cmd" "tables_of d = tables_of s"
    by (simp_all add: format_of_def command_format_def tables_of_def fields flag_bit)
  have img: "ref_bytes d = decoded_image (command_format cmd) (tables_of s) (map (stream_half ws) [0 ..< 2 * length ws])"
    using ref_bytes_image [of d] ok(2) unfolding fields(1) count input format by blast
  have "out_bytes (finish_command e) = out_bytes e" "pending (finish_command e) = out_bytes e"
    using out(2) by (simp_all add: finish_command_def out_bytes_def pending_def)
  then show ?thesis
    using out(1) img t drain_returns_output [of "finish_command e"]
    by (simp add: Let_def split_beta) (simp add: finish_command_def)
qed

text \<open>Two words of padding, decoded to one luminance block.\<close>

theorem decode_matches_reference_witness:
  "m_busy (fold write_data [0xFE00FE00, 0xFE00FE00] (write_data 0x20000002 mdec_example)) = 0 \<and>
   out_bytes (fold write_data [0xFE00FE00, 0xFE00FE00] (write_data 0x20000002 mdec_example)) =
     decoded_image (command_format 0x20000002) (tables_of mdec_example) (map (stream_half [0xFE00FE00, 0xFE00FE00]) [0 ..< 4])"
proof -
  have "\<exists>s0. mdec_example = fold mdec_exec [] (mdec_init s0)"
    by (auto simp: mdec_example_def)
  then obtain s0 where "mdec_example = fold mdec_exec [] (mdec_init s0)" ..
  from decode_matches_reference [OF this, of "0x20000002" "[0xFE00FE00, 0xFE00FE00]"] show ?thesis
    by (simp add: Let_def)
qed

end
