(* ===== verification/Dma.thy ===== *)
theory Dma
  imports Mdec Ring_Log
begin

text \<open>
  The DMA controller (runtime/src/dma.c): the seven channels' registers, DPCR and DICR, the
  synchronous transfers (GPU blocks and linked lists, SPU, ordering-table clear), the cycle-driven
  MDEC and CD-ROM transfers, delayed completion, the interrupt edge into \<open>I_STAT\<close> and the
  diagnostic rings. The state extends the MDEC's; memory accesses are the raw accessors of
  memory.c (the recorder is off while a DMA runs).

  GPU, SPU, CD-ROM and overlay capture are reached through the functions of \<open>dma_env\<close> on a device
  state of their own, the field \<open>devs\<close>. \<open>psx_fatal_halt\<close> does not return, so operations that can
  reach it return a \<open>dma_fault\<close> or the next state.
\<close>

record dma_channel =
  madr :: u32
  bcr :: u32
  chcr :: u32

record dma_async =
  as_active :: u8
  as_debug_started :: u8
  as_total_words :: u32
  as_remaining_words :: u32
  as_cycles_accum :: u32
  as_start_addr :: u32

record cd_dma_entry =
  ce_lba :: int
  ce_dest :: u32
  ce_size :: u32

record dma_delayed =
  dc_active :: u8
  dc_total_words :: u32
  dc_cycles_remaining :: u32

record dma_trace_entry =
  dt_seq :: u64
  dt_frame :: u32
  dt_kind :: u32
  dt_channel :: u32
  dt_total_words :: u32
  dt_addr :: u32
  dt_val :: u32
  dt_mask :: u32
  dt_madr :: u32
  dt_bcr :: u32
  dt_chcr :: u32
  dt_dpcr :: u32
  dt_dicr_before :: u32
  dt_dicr_after :: u32
  dt_i_stat_before :: u32
  dt_i_stat_after :: u32
  dt_func :: u32
  dt_pc :: u32

record cd_history_entry =
  ch_seq :: u64
  ch_frame_start :: u32
  ch_frame_end :: u32
  ch_start_addr :: u32
  ch_final_addr :: u32
  ch_requested_words :: u32
  ch_moved_words :: u32
  ch_bcr :: u32
  ch_chcr :: u32
  ch_dpcr :: u32
  ch_dicr_start :: u32
  ch_dicr_end :: u32
  ch_i_stat_start :: u32
  ch_i_stat_end :: u32
  ch_func :: u32
  ch_pc :: u32
  ch_lba :: int
  ch_sector_size :: int
  ch_sector_read_pos_start :: int
  ch_sector_read_pos_end :: int
  ch_mode :: u8
  ch_sector_available_start :: u8
  ch_sector_available_end :: u8
  ch_completed :: u8
  ch_first_count :: u8
  ch_last_count :: u8
  ch_first_words :: "u32 list"
  ch_last_words :: "u32 list"

record 'd dma_st = mdec_st +
  channels :: "nat \<Rightarrow> dma_channel"
  mdec_async :: "nat \<Rightarrow> dma_async"
  cdrom_async :: dma_async
  cd_dma_log :: "nat \<Rightarrow> cd_dma_entry"
  cd_dma_log_head :: u32
  cd_dma_log_total :: u32
  s_dma_ch_initiator_pc :: "nat \<Rightarrow> u32"
  delayed_complete :: "nat \<Rightarrow> dma_delayed"
  dpcr :: u32
  dicr :: u32
  dma_trace :: "nat \<Rightarrow> dma_trace_entry"
  dma_trace_seq :: u64
  cdrom_dma_history :: "nat \<Rightarrow> cd_history_entry"
  cdrom_dma_history_seq :: u64
  cdrom_dma_active_entry :: cd_history_entry
  cdrom_dma_history_active :: u8
  g_io_openbus_reads :: u64
  g_io_openbus_writes :: u64
  devs :: 'd

record cd_snapshot =
  cs_last_sector_lba :: int
  cs_sector_size :: int
  cs_last_sector_size :: int
  cs_sector_read_pos :: int
  cs_last_sector_mode :: u8
  cs_mode_reg :: u8
  cs_sector_available :: int

record ('d, 's) dma_env =
  io :: "'s mmio_ops"
  gpu_write_gp0 :: "u32 \<Rightarrow> 'd \<Rightarrow> 'd"
  gpu_set_gp0_source :: "u32 \<Rightarrow> 'd \<Rightarrow> 'd"
  gpu_read_gpuread :: "'d \<Rightarrow> u32 \<times> 'd"
  gpu_ws_begin_linked_list :: "'d \<Rightarrow> 'd"
  spu_dma_write :: "u32 \<Rightarrow> 'd \<Rightarrow> 'd"
  audio_trace_event :: "u32 \<Rightarrow> u32 \<Rightarrow> u32 \<Rightarrow> 'd \<Rightarrow> 'd"
  cdrom_dma_read :: "'d \<Rightarrow> u32 \<times> 'd"
  cdrom_dma_ready :: "'d \<Rightarrow> bool"
  cdrom_dma_sector_word_count :: "'d \<Rightarrow> u32"
  cdrom_get_setloc_lba :: "'d \<Rightarrow> int"
  cdrom_debug_snapshot :: "'d \<Rightarrow> cd_snapshot"
  overlay_capture_on_dma :: "u32 \<Rightarrow> u32 \<Rightarrow> (nat \<Rightarrow> u8) \<Rightarrow> 'd \<Rightarrow> 'd"

datatype dma_fault = Insane_length nat u32 | Not_implemented nat u32

type_synonym ('d, 'z) dma = "('d, 'z) dma_st_scheme"
type_synonym ('d, 'z) env = "('d, ('d, 'z) dma_st_scheme) dma_env"

abbreviation (input) DICR_WRITE_MASK :: u32 where "DICR_WRITE_MASK \<equiv> 0x00FF807F"
abbreviation (input) DICR_RESET_MASK :: u32 where "DICR_RESET_MASK \<equiv> 0x7F000000"
abbreviation (input) DMA_TRACE_CAP :: nat where "DMA_TRACE_CAP \<equiv> 16384"
abbreviation (input) DMA_CDROM_HISTORY_CAP :: nat where "DMA_CDROM_HISTORY_CAP \<equiv> 8192"
abbreviation (input) DMA_CDROM_HISTORY_WORDS :: nat where "DMA_CDROM_HISTORY_WORDS \<equiv> 16"
abbreviation (input) CD_DMA_LOG_CAP :: u32 where "CD_DMA_LOG_CAP \<equiv> 65536"
abbreviation (input) DMA_MDEC_IN_CYCLES_PER_WORD :: u32 where "DMA_MDEC_IN_CYCLES_PER_WORD \<equiv> 1"
abbreviation (input) DMA_MDEC_OUT_CYCLES_PER_WORD :: u32 where "DMA_MDEC_OUT_CYCLES_PER_WORD \<equiv> 14"
abbreviation (input) DMA_GPU_CYCLES_PER_WORD :: u32 where "DMA_GPU_CYCLES_PER_WORD \<equiv> 1"
abbreviation (input) DMA_CDROM_CYCLES_PER_WORD :: u32 where "DMA_CDROM_CYCLES_PER_WORD \<equiv> 1"
abbreviation (input) DMA_SPU_CYCLES_PER_WORD :: u32 where "DMA_SPU_CYCLES_PER_WORD \<equiv> 48"
abbreviation (input) DMA_MAX_TRANSFER_WORDS :: u32 where "DMA_MAX_TRANSFER_WORDS \<equiv> 0x80000"
abbreviation (input) AUDIO_EV_DMA_WRITE :: u32 where "AUDIO_EV_DMA_WRITE \<equiv> 8"
abbreviation (input) MAX_NODES :: nat where "MAX_NODES \<equiv> 0x40000"
abbreviation (input) UINT32_MAX :: u32 where "UINT32_MAX \<equiv> 0xFFFFFFFF"

section \<open>Register access and memory\<close>

definition upd_channel :: "nat \<Rightarrow> (dma_channel \<Rightarrow> dma_channel) \<Rightarrow> ('d, 'z) dma \<Rightarrow> ('d, 'z) dma" where
  "upd_channel ch f s = s\<lparr> channels := (channels s)(ch := f (channels s ch)) \<rparr>"

definition ram_addr :: "u32 \<Rightarrow> u32" where
  "ram_addr a = a AND 0x1FFFFC"

definition next_addr :: "u32 \<Rightarrow> u32 \<Rightarrow> u32" where
  "next_addr step addr = ram_addr (if step \<noteq> 0 then addr - 4 else addr + 4)"

definition chan_step :: "u32 \<Rightarrow> u32" where
  "chan_step c = drop_bit 1 c AND 1"

definition chan_sync_mode :: "u32 \<Rightarrow> u32" where
  "chan_sync_mode c = drop_bit 9 c AND 3"

definition chan_busy :: "u32 \<Rightarrow> bool" where
  "chan_busy c \<longleftrightarrow> drop_bit 24 c AND 1 \<noteq> 0"

definition clear_start_busy :: "u32 \<Rightarrow> u32" where
  "clear_start_busy c = c AND NOT (push_bit 24 1 OR push_bit 28 1)"

definition dma_load :: "('d, 'z) env \<Rightarrow> u32 \<Rightarrow> ('d, 'z) dma \<Rightarrow> u32 \<times> ('d, 'z) dma" where
  "dma_load E addr s = psx_read_word_raw (io E) addr s"

definition dma_store :: "('d, 'z) env \<Rightarrow> u32 \<Rightarrow> u32 \<Rightarrow> ('d, 'z) dma \<Rightarrow> ('d, 'z) dma" where
  "dma_store E addr v s = psx_write_word_raw (io E) addr v s"

definition on_devs :: "('d \<Rightarrow> 'd) \<Rightarrow> ('d, 'z) dma \<Rightarrow> ('d, 'z) dma" where
  "on_devs f s = s\<lparr> devs := f (devs s) \<rparr>"

section \<open>CD transfer log\<close>

definition cd_dma_log_push :: "int \<Rightarrow> u32 \<Rightarrow> u32 \<Rightarrow> ('d, 'z) dma \<Rightarrow> ('d, 'z) dma" where
  "cd_dma_log_push lba dest sz s =
     s\<lparr> cd_dma_log := (cd_dma_log s)(unat (cd_dma_log_head s mod CD_DMA_LOG_CAP) :=
           \<lparr> ce_lba = lba, ce_dest = dest, ce_size = sz \<rparr>),
        cd_dma_log_head := (cd_dma_log_head s + 1) mod CD_DMA_LOG_CAP,
        cd_dma_log_total := cd_dma_log_total s + 1 \<rparr>"

definition cd_dma_log_get_entry :: "u32 \<Rightarrow> ('d, 'z) dma \<Rightarrow> cd_dma_entry option" where
  "cd_dma_log_get_entry idx s =
     (let oldest = (if cd_dma_log_total s > CD_DMA_LOG_CAP then cd_dma_log_total s - CD_DMA_LOG_CAP else 0)
      in if idx < oldest \<or> idx \<ge> cd_dma_log_total s then None
         else Some (cd_dma_log s (unat (idx mod CD_DMA_LOG_CAP))))"

section \<open>Interrupts and traces\<close>

definition dicr_master_flag :: "u32 \<Rightarrow> u32" where
  "dicr_master_flag v =
     (if v AND push_bit 15 1 \<noteq> 0 \<or> v AND push_bit 23 1 \<noteq> 0 \<and> v AND DICR_RESET_MASK \<noteq> 0
      then push_bit 31 1 else 0)"

definition dicr_read_value :: "u32 \<Rightarrow> u32" where
  "dicr_read_value v = (v AND NOT (push_bit 31 1)) OR dicr_master_flag v"

definition trace_entry_at ::
  "u32 \<Rightarrow> u32 \<Rightarrow> u32 \<Rightarrow> u32 \<times> u32 \<times> u32 \<Rightarrow> dma_channel \<Rightarrow> u32 \<Rightarrow> u32 \<Rightarrow> ('d, 'z) dma \<Rightarrow> dma_trace_entry" where
  "trace_entry_at kind ch total_words wr c dicr_before i_stat_before s =
     \<lparr> dt_seq = dma_trace_seq s, dt_frame = ucast (s_frame_count s), dt_kind = kind, dt_channel = ch,
       dt_total_words = total_words, dt_addr = fst wr, dt_val = fst (snd wr), dt_mask = snd (snd wr),
       dt_madr = madr c, dt_bcr = bcr c, dt_chcr = chcr c, dt_dpcr = dpcr s,
       dt_dicr_before = dicr_read_value dicr_before, dt_dicr_after = dicr_read_value (dicr s),
       dt_i_stat_before = i_stat_before, dt_i_stat_after = i_stat s,
       dt_func = g_debug_current_func_addr s, dt_pc = g_debug_last_store_pc s \<rparr>"

definition push_trace :: "dma_trace_entry \<Rightarrow> ('d, 'z) dma \<Rightarrow> ('d, 'z) dma" where
  "push_trace e s =
     s\<lparr> dma_trace := (dma_trace s)(unat (dma_trace_seq s) mod DMA_TRACE_CAP := e),
        dma_trace_seq := dma_trace_seq s + 1 \<rparr>"

definition no_channel :: dma_channel where
  "no_channel = \<lparr> madr = 0, bcr = 0, chcr = 0 \<rparr>"

definition trace_dma :: "u32 \<Rightarrow> nat \<Rightarrow> u32 \<Rightarrow> u32 \<Rightarrow> u32 \<Rightarrow> ('d, 'z) dma \<Rightarrow> ('d, 'z) dma" where
  "trace_dma kind ch total_words dicr_before i_stat_before s =
     push_trace (trace_entry_at kind (of_nat ch) total_words (0, 0, 0)
       (if ch < 7 then channels s ch else no_channel) dicr_before i_stat_before s) s"

definition trace_dma_reg_write :: "u32 \<Rightarrow> u32 \<Rightarrow> u32 \<Rightarrow> u32 \<Rightarrow> u32 \<Rightarrow> ('d, 'z) dma \<Rightarrow> ('d, 'z) dma" where
  "trace_dma_reg_write addr val msk dicr_before i_stat_before s =
     push_trace (trace_entry_at 0x57 0xFFFFFFFF 0 (addr, val, msk) no_channel dicr_before i_stat_before s) s"

definition raise_dma_irq_on_master_edge :: "u32 \<Rightarrow> ('d, 'z) dma \<Rightarrow> ('d, 'z) dma" where
  "raise_dma_irq_on_master_edge before s =
     (if dicr_master_flag before = 0 \<and> dicr_master_flag (dicr s) \<noteq> 0
      then psx_irq_raise 3 (drop_bit 24 (dicr s) AND 0x7F) s else s)"

definition channel_enabled :: "nat \<Rightarrow> ('d, 'z) dma \<Rightarrow> bool" where
  "channel_enabled ch s \<longleftrightarrow> drop_bit (ch * 4 + 3) (dpcr s) AND 1 \<noteq> 0"

definition channel_irq_flag_armed :: "nat \<Rightarrow> ('d, 'z) dma \<Rightarrow> bool" where
  "channel_irq_flag_armed ch s \<longleftrightarrow>
     drop_bit (16 + ch) (dicr s) AND 1 \<noteq> 0 \<and> drop_bit 23 (dicr s) AND 1 \<noteq> 0"

definition transfer_word_count :: "('d, 'z) env \<Rightarrow> nat \<Rightarrow> ('d, 'z) dma \<Rightarrow> u32" where
  "transfer_word_count E ch s =
     (let c = channels s ch;
          sync_mode = chan_sync_mode (chcr c);
          block_size = bcr c AND 0xFFFF;
          block_count = drop_bit 16 (bcr c) AND 0xFFFF
      in if ch = 3 \<and> block_size = 0 then cdrom_dma_sector_word_count E (devs s)
         else if sync_mode = 1
              then (if block_size = 0 then 0x10000 else block_size) * (if block_count = 0 then 1 else block_count)
              else (if block_size = 0 then 0x10000 else block_size))"

definition validate_transfer_length :: "('d, 'z) env \<Rightarrow> nat \<Rightarrow> ('d, 'z) dma \<Rightarrow> dma_fault option" where
  "validate_transfer_length E ch s =
     (if ch = 2 \<and> chan_sync_mode (chcr (channels s ch)) = 2 then None
      else let words = transfer_word_count E ch s
           in if words > DMA_MAX_TRANSFER_WORDS then Some (Insane_length ch words) else None)"

definition complete_transfer :: "nat \<Rightarrow> ('d, 'z) dma \<Rightarrow> ('d, 'z) dma" where
  "complete_transfer ch s =
     (let dicr_before = dicr s;
          i_stat_before = i_stat s;
          s1 = upd_channel ch (chcr_update clear_start_busy) s;
          s2 = (if channel_irq_flag_armed ch s1
                then raise_dma_irq_on_master_edge dicr_before
                       (s1\<lparr> dicr := dicr s1 OR push_bit (24 + ch) 1 \<rparr>)
                else s1);
          s3 = trace_dma 0x43 ch 0 dicr_before i_stat_before s2;
          s4 = event_ring_record_aux EV_DMA_DONE (of_nat ch) (chcr (channels s3 ch)) s3
      in event_ring_record_aux EV_DEQ (SRC_DMA0 + of_nat ch) (chcr (channels s4 ch)) s4)"

section \<open>CD transfer capture\<close>

definition start_cdrom_dma_capture :: "('d, 'z) env \<Rightarrow> u32 \<Rightarrow> ('d, 'z) dma \<Rightarrow> ('d, 'z) dma" where
  "start_cdrom_dma_capture E requested_words s =
     (let q = cdrom_debug_snapshot E (devs s);
          c = channels s 3
      in s\<lparr> cdrom_dma_active_entry :=
             \<lparr> ch_seq = cdrom_dma_history_seq s, ch_frame_start = ucast (s_frame_count s), ch_frame_end = 0,
               ch_start_addr = ram_addr (madr c), ch_final_addr = ram_addr (madr c),
               ch_requested_words = requested_words, ch_moved_words = 0, ch_bcr = bcr c, ch_chcr = chcr c,
               ch_dpcr = dpcr s, ch_dicr_start = dicr_read_value (dicr s), ch_dicr_end = 0,
               ch_i_stat_start = i_stat s, ch_i_stat_end = 0, ch_func = g_debug_current_func_addr s,
               ch_pc = g_debug_last_store_pc s, ch_lba = cs_last_sector_lba q,
               ch_sector_size = (if cs_sector_size q > 0 then cs_sector_size q else cs_last_sector_size q),
               ch_sector_read_pos_start = cs_sector_read_pos q, ch_sector_read_pos_end = 0,
               ch_mode = (if cs_last_sector_mode q \<noteq> 0 then cs_last_sector_mode q else cs_mode_reg q),
               ch_sector_available_start = (if cs_sector_available q \<noteq> 0 then 1 else 0),
               ch_sector_available_end = 0, ch_completed = 0, ch_first_count = 0, ch_last_count = 0,
               ch_first_words = [], ch_last_words = [] \<rparr>,
            cdrom_dma_history_seq := cdrom_dma_history_seq s + 1,
            cdrom_dma_history_active := 1 \<rparr>)"

text \<open>The two 16-word windows are kept as the lists of their filled cells.\<close>

definition record_word :: "u32 \<Rightarrow> cd_history_entry \<Rightarrow> cd_history_entry" where
  "record_word word e =
     (let e1 = (if unat (ch_first_count e) < DMA_CDROM_HISTORY_WORDS
                then e\<lparr> ch_first_words := ch_first_words e @ [word], ch_first_count := ch_first_count e + 1 \<rparr> else e);
          e2 = (if unat (ch_last_count e1) < DMA_CDROM_HISTORY_WORDS
                then e1\<lparr> ch_last_words := ch_last_words e1 @ [word], ch_last_count := ch_last_count e1 + 1 \<rparr>
                else e1\<lparr> ch_last_words := tl (ch_last_words e1) @ [word] \<rparr>)
      in e2\<lparr> ch_moved_words := ch_moved_words e2 + 1 \<rparr>)"

definition record_cdrom_dma_word :: "u32 \<Rightarrow> ('d, 'z) dma \<Rightarrow> ('d, 'z) dma" where
  "record_cdrom_dma_word word s =
     (if cdrom_dma_history_active s = 0 then s
      else s\<lparr> cdrom_dma_active_entry := record_word word (cdrom_dma_active_entry s) \<rparr>)"

definition finish_cdrom_dma_capture :: "('d, 'z) env \<Rightarrow> u32 \<Rightarrow> u8 \<Rightarrow> ('d, 'z) dma \<Rightarrow> ('d, 'z) dma" where
  "finish_cdrom_dma_capture E final_addr completed s =
     (if cdrom_dma_history_active s = 0 then s
      else let q = cdrom_debug_snapshot E (devs s);
               e = (cdrom_dma_active_entry s)
                     \<lparr> ch_frame_end := ucast (s_frame_count s), ch_final_addr := ram_addr final_addr,
                       ch_dicr_end := dicr_read_value (dicr s), ch_i_stat_end := i_stat s,
                       ch_sector_read_pos_end := cs_sector_read_pos q,
                       ch_sector_available_end := (if cs_sector_available q \<noteq> 0 then 1 else 0),
                       ch_completed := (if completed \<noteq> 0 then 1 else 0) \<rparr>
           in s\<lparr> cdrom_dma_active_entry := e,
                 cdrom_dma_history := (cdrom_dma_history s)(unat (ch_seq e) mod DMA_CDROM_HISTORY_CAP := e),
                 cdrom_dma_history_active := 0 \<rparr>)"

section \<open>Scheduling of completions\<close>

definition idle_async :: "dma_async \<Rightarrow> dma_async" where
  "idle_async a = a\<lparr> as_active := 0, as_debug_started := 0, as_total_words := 0, as_remaining_words := 0,
                     as_cycles_accum := 0 \<rparr>"

definition no_delayed :: dma_delayed where
  "no_delayed = \<lparr> dc_active = 0, dc_total_words = 0, dc_cycles_remaining = 0 \<rparr>"

definition cancel_async_transfer :: "('d, 'z) env \<Rightarrow> nat \<Rightarrow> ('d, 'z) dma \<Rightarrow> ('d, 'z) dma" where
  "cancel_async_transfer E ch s =
     (let s1 = (if ch < 2 then s\<lparr> mdec_async := (mdec_async s)(ch := idle_async (mdec_async s ch)) \<rparr> else s);
          s2 = (if ch = 3
                then let t = finish_cdrom_dma_capture E (ram_addr (madr (channels s1 3))) 0 s1
                     in t\<lparr> cdrom_async := idle_async (cdrom_async t) \<rparr>
                else s1)
      in if ch < 7 then s2\<lparr> delayed_complete := (delayed_complete s2)(ch := no_delayed) \<rparr> else s2)"

definition schedule_delayed_complete :: "nat \<Rightarrow> u32 \<Rightarrow> u32 \<Rightarrow> ('d, 'z) dma \<Rightarrow> ('d, 'z) dma" where
  "schedule_delayed_complete ch total_words cycles_per_word s =
     (if total_words = 0 \<or> cycles_per_word = 0 then complete_transfer ch s
      else let cycles = (ucast total_words * ucast cycles_per_word) :: u64;
               cycles = (if cycles > ucast UINT32_MAX then ucast UINT32_MAX else cycles);
               s1 = s\<lparr> delayed_complete := (delayed_complete s)(ch :=
                         \<lparr> dc_active = 1, dc_total_words = total_words, dc_cycles_remaining = ucast cycles \<rparr>) \<rparr>
           in event_ring_record_aux EV_DMA_SCHED (of_nat ch) (chcr (channels s1 ch)) s1)"

definition advance_delayed_complete :: "u32 \<Rightarrow> nat \<Rightarrow> ('d, 'z) dma \<Rightarrow> ('d, 'z) dma" where
  "advance_delayed_complete cycles ch s =
     (let d = delayed_complete s ch
      in if dc_active d = 0 then s
         else if cycles < dc_cycles_remaining d
              then s\<lparr> delayed_complete := (delayed_complete s)(ch :=
                       d\<lparr> dc_cycles_remaining := dc_cycles_remaining d - cycles \<rparr>) \<rparr>
              else complete_transfer ch (s\<lparr> delayed_complete := (delayed_complete s)(ch := no_delayed) \<rparr>))"

section \<open>MDEC transfers\<close>

definition mdec_dma_start_note :: "nat \<Rightarrow> u32 \<Rightarrow> ('d, 'z) dma \<Rightarrow> ('d, 'z) dma" where
  "mdec_dma_start_note ch words s =
     (if ch = 0 then mdec_debug_dma_in_start words s else mdec_debug_dma_out_start words s)"

definition mdec_dma_end_note :: "nat \<Rightarrow> u32 \<Rightarrow> ('d, 'z) dma \<Rightarrow> ('d, 'z) dma" where
  "mdec_dma_end_note ch words s =
     (if ch = 0 then mdec_debug_dma_in_end words s else mdec_debug_dma_out_end words s)"

definition start_async_mdec_transfer :: "('d, 'z) env \<Rightarrow> nat \<Rightarrow> ('d, 'z) dma \<Rightarrow> ('d, 'z) dma" where
  "start_async_mdec_transfer E ch s =
     (if as_active (mdec_async s ch) \<noteq> 0 then s
      else let n = transfer_word_count E ch s;
               s1 = s\<lparr> mdec_async := (mdec_async s)(ch := (mdec_async s ch)
                         \<lparr> as_active := 1, as_debug_started := 0, as_total_words := n, as_remaining_words := n,
                           as_cycles_accum := 0 \<rparr>) \<rparr>;
               s2 = mdec_dma_start_note ch n s1
           in s2\<lparr> mdec_async := (mdec_async s2)(ch := (mdec_async s2 ch)\<lparr> as_debug_started := 1 \<rparr>) \<rparr>)"

definition finish_async_mdec_transfer :: "('d, 'z) env \<Rightarrow> nat \<Rightarrow> u32 \<Rightarrow> ('d, 'z) dma \<Rightarrow> ('d, 'z) dma" where
  "finish_async_mdec_transfer E ch total_words s =
     complete_transfer ch (cancel_async_transfer E ch (mdec_dma_end_note ch total_words s))"

definition dec_remaining :: "nat \<Rightarrow> ('d, 'z) dma \<Rightarrow> ('d, 'z) dma" where
  "dec_remaining ch s =
     s\<lparr> mdec_async := (mdec_async s)(ch := (mdec_async s ch)
          \<lparr> as_remaining_words := as_remaining_words (mdec_async s ch) - 1 \<rparr>) \<rparr>"

text \<open>The word loop of \<open>advance_mdec_channel\<close>: the first argument is the word budget.\<close>

primrec mdec_move :: "nat \<Rightarrow> ('d, 'z) env \<Rightarrow> nat \<Rightarrow> u32 \<Rightarrow> u32 \<Rightarrow> u32 \<Rightarrow> ('d, 'z) dma \<Rightarrow> u32 \<times> u32 \<times> ('d, 'z) dma" where
  "mdec_move 0 E ch step addr moved s = (addr, moved, s)"
| "mdec_move (Suc n) E ch step addr moved s =
     (if as_remaining_words (mdec_async s ch) = 0 then (addr, moved, s)
      else if ch = 0
      then (if \<not> mdec_dma_write_ready s then (addr, moved, s)
            else let (w, s1) = dma_load E addr s;
                     s2 = dec_remaining ch (mdec_dma_write_word w s1)
                 in mdec_move n E ch step (next_addr step addr) (moved + 1) s2)
      else (if \<not> mdec_dma_read_ready s then (addr, moved, s)
            else let (w, s1) = mdec_dma_read_word (s\<lparr> g_dma_cur_madr := addr \<rparr>);
                     s2 = dec_remaining ch (dma_store E addr w s1)
                 in mdec_move n E ch step (next_addr step addr) (moved + 1) s2))"

definition mdec_cycles_per_word :: "nat \<Rightarrow> u32" where
  "mdec_cycles_per_word ch = (if ch = 0 then DMA_MDEC_IN_CYCLES_PER_WORD else DMA_MDEC_OUT_CYCLES_PER_WORD)"

definition sat_add :: "u32 \<Rightarrow> u32 \<Rightarrow> u32" where
  "sat_add accum cycles = (if cycles > UINT32_MAX - accum then UINT32_MAX else accum + cycles)"

definition mdec_advance_words :: "('d, 'z) env \<Rightarrow> nat \<Rightarrow> ('d, 'z) dma \<Rightarrow> ('d, 'z) dma" where
  "mdec_advance_words E ch s =
     (let cpw = mdec_cycles_per_word ch;
          words_budget = as_cycles_accum (mdec_async s ch) div cpw
      in if words_budget = 0 then s
         else let addr = ram_addr (madr (channels s ch));
                  s1 = (if ch = 1
                        then s\<lparr> g_dma_exec_depth := g_dma_exec_depth s + 1, g_dma_cur_ch := 1,
                                g_dma_cur_bcr := bcr (channels s 1),
                                g_dma_initiator_pc := s_dma_ch_initiator_pc s 1 \<rparr>
                        else s);
                  (addr, moved, s2) = mdec_move (unat words_budget) E ch (chan_step (chcr (channels s ch))) addr 0 s1;
                  s3 = (if ch = 1 then s2\<lparr> g_dma_cur_ch := - 1, g_dma_exec_depth := g_dma_exec_depth s2 - 1 \<rparr> else s2)
              in if moved = 0 then s3
                 else let s4 = upd_channel ch (madr_update (\<lambda>_. addr))
                                 (s3\<lparr> mdec_async := (mdec_async s3)(ch := (mdec_async s3 ch)
                                       \<lparr> as_cycles_accum := as_cycles_accum (mdec_async s3 ch) - moved * cpw \<rparr>) \<rparr>)
                      in if as_remaining_words (mdec_async s4 ch) = 0
                         then finish_async_mdec_transfer E ch (as_total_words (mdec_async s4 ch)) s4 else s4)"

definition advance_mdec_channel :: "('d, 'z) env \<Rightarrow> nat \<Rightarrow> u32 \<Rightarrow> ('d, 'z) dma \<Rightarrow> ('d, 'z) dma" where
  "advance_mdec_channel E ch cycles s =
     (let a = mdec_async s ch; c = chcr (channels s ch)
      in if as_active a = 0 then s
         else if \<not> chan_busy c \<or> \<not> channel_enabled ch s then s
         else if ch = 0 \<and> c AND 1 = 0 \<or> ch = 1 \<and> c AND 1 \<noteq> 0
              then finish_async_mdec_transfer E ch (as_total_words a) s
         else if (if ch = 0 then \<not> mdec_dma_write_ready s else \<not> mdec_dma_read_ready s) then s
         else mdec_advance_words E ch
                (s\<lparr> mdec_async := (mdec_async s)(ch := a\<lparr> as_cycles_accum := sat_add (as_cycles_accum a) cycles \<rparr>) \<rparr>))"

section \<open>CD-ROM transfers\<close>

definition start_async_cdrom_transfer :: "('d, 'z) env \<Rightarrow> ('d, 'z) dma \<Rightarrow> ('d, 'z) dma" where
  "start_async_cdrom_transfer E s =
     (if as_active (cdrom_async s) \<noteq> 0 then s
      else let n = transfer_word_count E 3 s;
               s1 = s\<lparr> cdrom_async := \<lparr> as_active = 1, as_debug_started = 0, as_total_words = n, as_remaining_words = n,
                         as_cycles_accum = 0, as_start_addr = ram_addr (madr (channels s 3)) \<rparr> \<rparr>;
               s2 = start_cdrom_dma_capture E n s1
           in if n = 0
              then complete_transfer 3 (cancel_async_transfer E 3
                     (finish_cdrom_dma_capture E (ram_addr (madr (channels s2 3))) 1 s2))
              else s2)"

definition finish_async_cdrom_transfer :: "('d, 'z) env \<Rightarrow> u32 \<Rightarrow> ('d, 'z) dma \<Rightarrow> ('d, 'z) dma" where
  "finish_async_cdrom_transfer E final_addr s0 =
     (let s = finish_cdrom_dma_capture E final_addr 1 s0;
          a = cdrom_async s;
          step = chan_step (chcr (channels s 3));
          load_start = as_start_addr a;
          sz = as_total_words a * 4;
          s1 = (if step = 0 \<and> sz > 0 \<and> load_start < 0x1C0000
                then let sz = (if sz > 0x200000 - load_start then 0x200000 - load_start else sz);
                         lba = cdrom_get_setloc_lba E (devs s);
                         t = (if lba \<ge> 0 then cd_dma_log_push lba load_start sz s else s)
                     in on_devs (overlay_capture_on_dma E load_start sz (\<lambda>i. ram t (unat load_start + i))) t
                else s);
          s2 = upd_channel 3 (madr_update (\<lambda>_. final_addr)) s1
      in complete_transfer 3 (cancel_async_transfer E 3 s2))"

definition dma_cdrom_transfer_active :: "('d, 'z) dma \<Rightarrow> bool" where
  "dma_cdrom_transfer_active s \<longleftrightarrow>
     as_active (cdrom_async s) \<noteq> 0 \<and> chan_busy (chcr (channels s 3)) \<and> channel_enabled 3 s \<and> chcr (channels s 3) AND 1 = 0"

definition cd_dec_remaining :: "('d, 'z) dma \<Rightarrow> ('d, 'z) dma" where
  "cd_dec_remaining s =
     s\<lparr> cdrom_async := (cdrom_async s)\<lparr> as_remaining_words := as_remaining_words (cdrom_async s) - 1 \<rparr> \<rparr>"

primrec cdrom_move :: "nat \<Rightarrow> ('d, 'z) env \<Rightarrow> u32 \<Rightarrow> u32 \<Rightarrow> u32 \<Rightarrow> ('d, 'z) dma \<Rightarrow> u32 \<times> u32 \<times> ('d, 'z) dma" where
  "cdrom_move 0 E step addr moved s = (addr, moved, s)"
| "cdrom_move (Suc n) E step addr moved s =
     (if as_remaining_words (cdrom_async s) = 0 \<or> \<not> cdrom_dma_ready E (devs s) then (addr, moved, s)
      else let (word, d) = cdrom_dma_read E (devs s);
               s1 = s\<lparr> devs := d, g_dma_cur_madr := addr \<rparr>;
               s2 = record_cdrom_dma_word word (dma_store E addr word s1);
               s3 = cd_dec_remaining (dirty_ram_mark_executable_range addr 4 s2)
           in cdrom_move n E step (next_addr step addr) (moved + 1) s3)"

definition cdrom_advance_words :: "('d, 'z) env \<Rightarrow> u32 \<Rightarrow> ('d, 'z) dma \<Rightarrow> ('d, 'z) dma" where
  "cdrom_advance_words E cycles s =
     (let acc = sat_add (as_cycles_accum (cdrom_async s)) cycles;
          s1 = s\<lparr> cdrom_async := (cdrom_async s)\<lparr> as_cycles_accum := acc \<rparr> \<rparr>;
          words_budget = acc div DMA_CDROM_CYCLES_PER_WORD;
          s2 = s1\<lparr> g_dma_cur_ch := 3, g_dma_cur_bcr := bcr (channels s1 3),
                   g_dma_initiator_pc := s_dma_ch_initiator_pc s1 3 \<rparr>;
          (addr, moved, s3) = cdrom_move (unat words_budget) E (chan_step (chcr (channels s 3)))
                                (ram_addr (madr (channels s 3))) 0 s2
      in if moved = 0 then s3
         else let s4 = upd_channel 3 (madr_update (\<lambda>_. addr))
                         (s3\<lparr> cdrom_async := (cdrom_async s3)
                               \<lparr> as_cycles_accum := as_cycles_accum (cdrom_async s3) - moved * DMA_CDROM_CYCLES_PER_WORD \<rparr> \<rparr>)
              in if as_remaining_words (cdrom_async s4) = 0 then finish_async_cdrom_transfer E addr s4 else s4)"

definition advance_cdrom_channel :: "('d, 'z) env \<Rightarrow> u32 \<Rightarrow> ('d, 'z) dma \<Rightarrow> ('d, 'z) dma" where
  "advance_cdrom_channel E cycles s =
     (if dma_cdrom_transfer_active s
      then (if chcr (channels s 3) AND 1 \<noteq> 0
            then upd_channel 3 (chcr_update clear_start_busy) (cancel_async_transfer E 3 s)
            else if cdrom_dma_ready E (devs s) then cdrom_advance_words E cycles s else s)
      else s)"

section \<open>Synchronous transfers\<close>

primrec mdec_in_loop :: "nat \<Rightarrow> ('d, 'z) env \<Rightarrow> u32 \<Rightarrow> u32 \<Rightarrow> ('d, 'z) dma \<Rightarrow> u32 \<times> ('d, 'z) dma" where
  "mdec_in_loop 0 E step addr s = (addr, s)"
| "mdec_in_loop (Suc n) E step addr s =
     (let (w, s1) = dma_load E addr s in mdec_in_loop n E step (next_addr step addr) (mdec_dma_write_word w s1))"

definition execute_ch0_mdec_in :: "('d, 'z) env \<Rightarrow> ('d, 'z) dma \<Rightarrow> ('d, 'z) dma" where
  "execute_ch0_mdec_in E s =
     (let c = chcr (channels s 0); n = transfer_word_count E 0 s
      in complete_transfer 0
           (if c AND 1 \<noteq> 0
            then let (addr, s1) = mdec_in_loop (unat n) E (chan_step c) (ram_addr (madr (channels s 0)))
                                    (mdec_debug_dma_in_start n s)
                 in upd_channel 0 (madr_update (\<lambda>_. addr)) (mdec_debug_dma_in_end n s1)
            else s))"

primrec mdec_out_loop :: "nat \<Rightarrow> ('d, 'z) env \<Rightarrow> u32 \<Rightarrow> u32 \<Rightarrow> ('d, 'z) dma \<Rightarrow> u32 \<times> ('d, 'z) dma" where
  "mdec_out_loop 0 E step addr s = (addr, s)"
| "mdec_out_loop (Suc n) E step addr s =
     (let (w, s1) = mdec_dma_read_word s in mdec_out_loop n E step (next_addr step addr) (dma_store E addr w s1))"

definition execute_ch1_mdec_out :: "('d, 'z) env \<Rightarrow> ('d, 'z) dma \<Rightarrow> ('d, 'z) dma" where
  "execute_ch1_mdec_out E s =
     (let c = chcr (channels s 1); n = transfer_word_count E 1 s
      in complete_transfer 1
           (if c AND 1 = 0
            then let (addr, s1) = mdec_out_loop (unat n) E (chan_step c) (ram_addr (madr (channels s 1)))
                                    (mdec_debug_dma_out_start n s)
                 in upd_channel 1 (madr_update (\<lambda>_. addr)) (mdec_debug_dma_out_end n s1)
            else s))"

primrec gpu_read_loop :: "nat \<Rightarrow> ('d, 'z) env \<Rightarrow> u32 \<Rightarrow> u32 \<Rightarrow> ('d, 'z) dma \<Rightarrow> u32 \<times> ('d, 'z) dma" where
  "gpu_read_loop 0 E step addr s = (addr, s)"
| "gpu_read_loop (Suc n) E step addr s =
     (let (pixel_data, d) = gpu_read_gpuread E (devs s)
      in gpu_read_loop n E step (next_addr step addr) (dma_store E addr pixel_data (s\<lparr> devs := d \<rparr>)))"

text \<open>One word of a RAM to GPU transfer: the source address is announced, then the word is
  written to GP0.\<close>

definition send_gp0 :: "('d, 'z) env \<Rightarrow> u32 \<Rightarrow> ('d, 'z) dma \<Rightarrow> ('d, 'z) dma" where
  "send_gp0 E addr s =
     (let (word, s1) = dma_load E addr s in on_devs (gpu_write_gp0 E word) (on_devs (gpu_set_gp0_source E addr) s1))"

primrec gp0_loop :: "nat \<Rightarrow> ('d, 'z) env \<Rightarrow> u32 \<Rightarrow> u32 \<Rightarrow> ('d, 'z) dma \<Rightarrow> u32 \<times> ('d, 'z) dma" where
  "gp0_loop 0 E step addr s = (addr, s)"
| "gp0_loop (Suc n) E step addr s = gp0_loop n E step (next_addr step addr) (send_gp0 E addr s)"

text \<open>The linked-list walk. The first argument counts the nodes still allowed: the loop runs the
  body while \<open>safety++ > MAX_NODES\<close> is false, that is for at most \<open>MAX_NODES + 1\<close> nodes. The flag of
  the result is the test \<open>safety > MAX_NODES\<close> that follows the loop.\<close>

primrec ll_walk :: "nat \<Rightarrow> ('d, 'z) env \<Rightarrow> u32 \<Rightarrow> u32 \<Rightarrow> ('d, 'z) dma \<Rightarrow> bool \<times> u32 \<times> u32 \<times> ('d, 'z) dma" where
  "ll_walk 0 E addr words s = (True, addr, words, s)"
| "ll_walk (Suc n) E addr words s =
     (let (header, s1) = dma_load E addr s;
          num_words = drop_bit 24 header AND 0xFF;
          (_, s2) = gp0_loop (unat num_words) E 0 (ram_addr (addr + 4)) s1;
          words' = words + 1 + num_words;
          nxt = header AND 0xFFFFFF
      in if nxt = 0xFFFFFF then (n = 0, addr, words', upd_channel 2 (madr_update (\<lambda>_. 0x00FFFFFF)) s2)
         else ll_walk n E (ram_addr nxt) words' s2)"

definition execute_ch2_gpu_list :: "('d, 'z) env \<Rightarrow> ('d, 'z) dma \<Rightarrow> u32 \<times> ('d, 'z) dma" where
  "execute_ch2_gpu_list E s =
     (let (over, addr, words, s1) = ll_walk (MAX_NODES + 1) E (ram_addr (madr (channels s 2))) 0
                                      (on_devs (gpu_ws_begin_linked_list E) s)
      in (words, if over then upd_channel 2 (madr_update (\<lambda>_. addr)) s1 else s1))"

definition execute_ch2_gpu :: "('d, 'z) env \<Rightarrow> ('d, 'z) dma \<Rightarrow> u32 \<times> ('d, 'z) dma" where
  "execute_ch2_gpu E s =
     (let c = channels s 2;
          step = chan_step (chcr c);
          sync_mode = chan_sync_mode (chcr c);
          total_words = (bcr c AND 0xFFFF) * (drop_bit 16 (bcr c) AND 0xFFFF);
          start = ram_addr (madr c)
      in if chcr c AND 1 = 0
         then (if sync_mode = 1
               then let (addr, s1) = gpu_read_loop (unat total_words) E step start s
                    in (total_words, upd_channel 2 (madr_update (\<lambda>_. addr)) s1)
               else (0, s))
         else if sync_mode = 1
              then let (addr, s1) = gp0_loop (unat total_words) E step start s
                   in (total_words, upd_channel 2 (madr_update (\<lambda>_. addr)) s1)
         else if sync_mode = 2 then execute_ch2_gpu_list E s
         else let word_count = (if bcr c AND 0xFFFF = 0 then 0x10000 else bcr c AND 0xFFFF);
                  (addr, s1) = gp0_loop (unat word_count) E step start s
              in (word_count, upd_channel 2 (madr_update (\<lambda>_. addr)) s1))"

definition execute_ch3_cdrom :: "('d, 'z) env \<Rightarrow> ('d, 'z) dma \<Rightarrow> ('d, 'z) dma" where
  "execute_ch3_cdrom E s =
     (if chcr (channels s 3) AND 1 \<noteq> 0 then upd_channel 3 (chcr_update clear_start_busy) s
      else start_async_cdrom_transfer E s)"

primrec spu_loop :: "nat \<Rightarrow> ('d, 'z) env \<Rightarrow> u32 \<Rightarrow> u32 \<Rightarrow> ('d, 'z) dma \<Rightarrow> u32 \<times> ('d, 'z) dma" where
  "spu_loop 0 E step addr s = (addr, s)"
| "spu_loop (Suc n) E step addr s =
     (let (w, s1) = dma_load E addr s in spu_loop n E step (next_addr step addr) (on_devs (spu_dma_write E w) s1))"

primrec zero_loop :: "nat \<Rightarrow> ('d, 'z) env \<Rightarrow> u32 \<Rightarrow> u32 \<Rightarrow> ('d, 'z) dma \<Rightarrow> u32 \<times> ('d, 'z) dma" where
  "zero_loop 0 E step addr s = (addr, s)"
| "zero_loop (Suc n) E step addr s = zero_loop n E step (next_addr step addr) (dma_store E addr 0 s)"

definition execute_ch4_spu :: "('d, 'z) env \<Rightarrow> ('d, 'z) dma \<Rightarrow> u32 \<times> ('d, 'z) dma" where
  "execute_ch4_spu E s =
     (let c = channels s 4;
          total_words = transfer_word_count E 4 s;
          start = ram_addr (madr c);
          (addr, s1) =
            (if chcr c AND 1 \<noteq> 0
             then let (addr, t) = spu_loop (unat total_words) E (chan_step (chcr c)) start s
                  in (addr, on_devs (audio_trace_event E AUDIO_EV_DMA_WRITE total_words (ram_addr (madr (channels t 4)))) t)
             else zero_loop (unat total_words) E (chan_step (chcr c)) start s)
      in (total_words, upd_channel 4 (madr_update (\<lambda>_. addr)) s1))"

primrec otc_loop :: "nat \<Rightarrow> ('d, 'z) env \<Rightarrow> u32 \<Rightarrow> ('d, 'z) dma \<Rightarrow> ('d, 'z) dma" where
  "otc_loop 0 E addr s = s"
| "otc_loop (Suc n) E addr s =
     otc_loop n E (ram_addr (addr - 4))
       (dma_store E addr (if n = 0 then 0x00FFFFFF else (addr - 4) AND 0x00FFFFFF) s)"

definition otc_entries :: "u32 \<Rightarrow> u32" where
  "otc_entries b = (if b AND 0xFFFF = 0 then 0x10000 else b AND 0xFFFF)"

definition execute_ch6_otc :: "('d, 'z) env \<Rightarrow> ('d, 'z) dma \<Rightarrow> ('d, 'z) dma" where
  "execute_ch6_otc E s =
     complete_transfer 6 (otc_loop (unat (otc_entries (bcr (channels s 6)))) E (ram_addr (madr (channels s 6))) s)"

definition execute_channel :: "('d, 'z) env \<Rightarrow> nat \<Rightarrow> u32 \<Rightarrow> ('d, 'z) dma \<Rightarrow> dma_fault + ('d, 'z) dma" where
  "execute_channel E ch c s =
     (if ch = 0 \<or> ch = 1 then Inr (start_async_mdec_transfer E ch s)
      else if ch = 2
      then let (words, s1) = execute_ch2_gpu E s in Inr (schedule_delayed_complete 2 words DMA_GPU_CYCLES_PER_WORD s1)
      else if ch = 3 then Inr (execute_ch3_cdrom E s)
      else if ch = 4
      then let (words, s1) = execute_ch4_spu E s in Inr (schedule_delayed_complete 4 words DMA_SPU_CYCLES_PER_WORD s1)
      else if ch = 6 then Inr (execute_ch6_otc E s)
      else Inl (Not_implemented ch c))"

definition note_kick :: "('d, 'z) env \<Rightarrow> nat \<Rightarrow> ('d, 'z) dma \<Rightarrow> ('d, 'z) dma" where
  "note_kick E ch s =
     (let s1 = upd_channel ch (chcr_update (\<lambda>c. c AND NOT (push_bit 28 1))) s;
          s2 = trace_dma 0x53 ch (transfer_word_count E ch s1) (dicr s1) (i_stat s1) s1;
          s3 = event_ring_record_aux EV_DMA_KICK (of_nat ch) (chcr (channels s2 ch)) s2
      in event_ring_record_aux EV_ENQ (SRC_DMA0 + of_nat ch) (transfer_word_count E ch s3) s3)"

definition enter_exec :: "nat \<Rightarrow> ('d, 'z) dma \<Rightarrow> ('d, 'z) dma" where
  "enter_exec ch s =
     s\<lparr> s_dma_ch_initiator_pc := (s_dma_ch_initiator_pc s)(ch := g_debug_last_store_pc s),
        g_dma_initiator_pc := g_debug_last_store_pc s,
        g_dma_exec_depth := g_dma_exec_depth s + 1, g_dma_cur_ch := int ch,
        g_dma_cur_madr := madr (channels s ch), g_dma_cur_bcr := bcr (channels s ch) \<rparr>"

definition leave_exec :: "('d, 'z) dma \<Rightarrow> ('d, 'z) dma" where
  "leave_exec s = s\<lparr> g_dma_exec_depth := g_dma_exec_depth s - 1, g_dma_cur_ch := - 1 \<rparr>"

definition try_execute :: "('d, 'z) env \<Rightarrow> nat \<Rightarrow> ('d, 'z) dma \<Rightarrow> dma_fault + ('d, 'z) dma" where
  "try_execute E ch s =
     (let c = chcr (channels s ch)
      in if \<not> chan_busy c then Inr s
         else if \<not> channel_enabled ch s then Inr s
         else let s1 = note_kick E ch s
              in case validate_transfer_length E ch s1 of
                   Some fault \<Rightarrow> Inl fault
                 | None \<Rightarrow> map_sum id leave_exec (execute_channel E ch c (enter_exec ch s1)))"

section \<open>Public interface\<close>

definition async_estimate :: "dma_async \<Rightarrow> u32" where
  "async_estimate a =
     (if as_remaining_words a > as_cycles_accum a then as_remaining_words a - as_cycles_accum a else 0)"

definition async_channels :: "('d, 'z) dma \<Rightarrow> (nat \<times> dma_async) list" where
  "async_channels s = [(0, mdec_async s 0), (1, mdec_async s 1), (3, cdrom_async s)]"

definition async_best :: "(nat \<Rightarrow> bool) \<Rightarrow> ('d, 'z) dma \<Rightarrow> u32 \<Rightarrow> u32" where
  "async_best P s best =
     fold (\<lambda>(ch, a) best. if \<not> P ch \<or> as_active a = 0 \<or> as_remaining_words a = 0 then best
                          else if async_estimate a < best then async_estimate a else best) (async_channels s) best"

definition delayed_best :: "(nat \<Rightarrow> bool) \<Rightarrow> ('d, 'z) dma \<Rightarrow> u32 \<Rightarrow> u32" where
  "delayed_best P s best =
     fold (\<lambda>ch best. if P ch \<and> dc_active (delayed_complete s ch) \<noteq> 0 \<and> dc_cycles_remaining (delayed_complete s ch) < best
                     then dc_cycles_remaining (delayed_complete s ch) else best) [0 ..< 7] best"

definition dma_cycles_to_irq :: "u32 \<Rightarrow> ('d, 'z) dma \<Rightarrow> u32" where
  "dma_cycles_to_irq imask s =
     (if imask AND push_bit 3 1 = 0 then UINT32_MAX
      else delayed_best (\<lambda>_. True) s (async_best (\<lambda>_. True) s UINT32_MAX))"

definition dma_cycles_to_deliverable_irq :: "u32 \<Rightarrow> ('d, 'z) dma \<Rightarrow> u32" where
  "dma_cycles_to_deliverable_irq imask s =
     (if imask AND push_bit 3 1 = 0 then UINT32_MAX
      else let P = (\<lambda>ch. channel_irq_flag_armed ch s) in delayed_best P s (async_best P s UINT32_MAX))"

definition dma_advance :: "('d, 'z) env \<Rightarrow> u32 \<Rightarrow> ('d, 'z) dma \<Rightarrow> ('d, 'z) dma" where
  "dma_advance E cycles s =
     (if cycles = 0 then s
      else let s1 = s\<lparr> g_dma_exec_depth := g_dma_exec_depth s + 1 \<rparr>;
               s2 = advance_mdec_channel E 1 cycles (advance_mdec_channel E 0 cycles s1);
               s3 = advance_cdrom_channel E cycles s2;
               s4 = fold (advance_delayed_complete cycles) [0 ..< 7] s3
           in s4\<lparr> g_dma_cur_ch := - 1, g_dma_exec_depth := g_dma_exec_depth s4 - 1 \<rparr>)"

definition zero_async :: dma_async where
  "zero_async = \<lparr> as_active = 0, as_debug_started = 0, as_total_words = 0, as_remaining_words = 0,
                 as_cycles_accum = 0, as_start_addr = 0 \<rparr>"

definition zero_trace_entry :: dma_trace_entry where
  "zero_trace_entry = \<lparr> dt_seq = 0, dt_frame = 0, dt_kind = 0, dt_channel = 0, dt_total_words = 0, dt_addr = 0,
     dt_val = 0, dt_mask = 0, dt_madr = 0, dt_bcr = 0, dt_chcr = 0, dt_dpcr = 0, dt_dicr_before = 0,
     dt_dicr_after = 0, dt_i_stat_before = 0, dt_i_stat_after = 0, dt_func = 0, dt_pc = 0 \<rparr>"

definition zero_history_entry :: cd_history_entry where
  "zero_history_entry = \<lparr> ch_seq = 0, ch_frame_start = 0, ch_frame_end = 0, ch_start_addr = 0, ch_final_addr = 0,
     ch_requested_words = 0, ch_moved_words = 0, ch_bcr = 0, ch_chcr = 0, ch_dpcr = 0, ch_dicr_start = 0,
     ch_dicr_end = 0, ch_i_stat_start = 0, ch_i_stat_end = 0, ch_func = 0, ch_pc = 0, ch_lba = 0,
     ch_sector_size = 0, ch_sector_read_pos_start = 0, ch_sector_read_pos_end = 0, ch_mode = 0,
     ch_sector_available_start = 0, ch_sector_available_end = 0, ch_completed = 0, ch_first_count = 0,
     ch_last_count = 0, ch_first_words = [], ch_last_words = [] \<rparr>"

definition dma_debug_clear_trace :: "('d, 'z) dma \<Rightarrow> ('d, 'z) dma" where
  "dma_debug_clear_trace s = s\<lparr> dma_trace := (\<lambda>_. zero_trace_entry), dma_trace_seq := 0 \<rparr>"

definition dma_debug_clear_cdrom_history :: "('d, 'z) dma \<Rightarrow> ('d, 'z) dma" where
  "dma_debug_clear_cdrom_history s =
     s\<lparr> cdrom_dma_history := (\<lambda>_. zero_history_entry), cdrom_dma_active_entry := zero_history_entry,
        cdrom_dma_history_seq := 0, cdrom_dma_history_active := 0 \<rparr>"

definition dma_init :: "('d, 'z) dma \<Rightarrow> ('d, 'z) dma" where
  "dma_init s =
     dma_debug_clear_cdrom_history (dma_debug_clear_trace
       (s\<lparr> channels := (\<lambda>_. no_channel), mdec_async := (\<lambda>_. zero_async), cdrom_async := zero_async,
           delayed_complete := (\<lambda>_. no_delayed), dpcr := 0x07654321, dicr := 0 \<rparr>))"

datatype dma_reg = Reg_dpcr | Reg_dicr | Reg_madr nat | Reg_bcr nat | Reg_chcr nat | Reg_pad | Reg_bad

text \<open>The address decoding of \<open>dma_read\<close> and \<open>dma_write_masked\<close>.\<close>

definition decode_reg :: "u32 \<Rightarrow> dma_reg" where
  "decode_reg addr =
     (if addr = 0x1F8010F0 then Reg_dpcr
      else if addr = 0x1F8010F4 then Reg_dicr
      else if addr \<ge> 0x1F801080 \<and> addr \<le> 0x1F8010EF
      then let off = addr - 0x1F801080; ch = unat (off div 0x10); reg = off mod 0x10
           in if ch > 6 then Reg_bad
              else if reg = 0x00 then Reg_madr ch
              else if reg = 0x04 then Reg_bcr ch
              else if reg = 0x08 then Reg_chcr ch
              else if reg = 0x0C then Reg_pad
              else Reg_bad
      else Reg_bad)"

definition dma_get_dicr :: "('d, 'z) dma \<Rightarrow> u32" where
  "dma_get_dicr s = dicr_read_value (dicr s)"

definition dma_read :: "u32 \<Rightarrow> ('d, 'z) dma \<Rightarrow> u32 \<times> ('d, 'z) dma" where
  "dma_read addr s =
     (case decode_reg addr of
        Reg_dpcr \<Rightarrow> (dpcr s, s)
      | Reg_dicr \<Rightarrow> (dma_get_dicr s, s)
      | Reg_madr ch \<Rightarrow> (madr (channels s ch), s)
      | Reg_bcr ch \<Rightarrow> (bcr (channels s ch), s)
      | Reg_chcr ch \<Rightarrow> (chcr (channels s ch), s)
      | Reg_pad \<Rightarrow> (0, s)
      | Reg_bad \<Rightarrow> (0, s\<lparr> g_io_openbus_reads := g_io_openbus_reads s + 1 \<rparr>))"

definition masked :: "u32 \<Rightarrow> u32 \<Rightarrow> u32 \<Rightarrow> u32" where
  "masked msk val old = (old AND NOT msk) OR (val AND msk)"

definition write_dicr :: "u32 \<Rightarrow> u32 \<Rightarrow> u32 \<Rightarrow> ('d, 'z) dma \<Rightarrow> ('d, 'z) dma" where
  "write_dicr addr val msk s =
     (let dicr_before = dicr s;
          i_stat_before = i_stat s;
          write_mask = DICR_WRITE_MASK AND msk;
          reset_mask = DICR_RESET_MASK AND msk;
          s1 = s\<lparr> dicr := masked write_mask val (dicr s) AND NOT (val AND reset_mask) \<rparr>
      in trace_dma_reg_write addr val msk dicr_before i_stat_before (raise_dma_irq_on_master_edge dicr_before s1))"

definition write_chcr :: "('d, 'z) env \<Rightarrow> nat \<Rightarrow> u32 \<Rightarrow> u32 \<Rightarrow> ('d, 'z) dma \<Rightarrow> dma_fault + ('d, 'z) dma" where
  "write_chcr E ch val msk s =
     (let s1 = upd_channel ch (chcr_update (masked msk val)) s;
          s2 = (if msk AND push_bit 24 1 \<noteq> 0 \<and> \<not> chan_busy (chcr (channels s1 ch))
                then cancel_async_transfer E ch s1 else s1)
      in if msk AND push_bit 24 1 \<noteq> 0 \<and> chan_busy (chcr (channels s2 ch)) then try_execute E ch s2 else Inr s2)"

definition dma_write_masked :: "('d, 'z) env \<Rightarrow> u32 \<Rightarrow> u32 \<Rightarrow> u32 \<Rightarrow> ('d, 'z) dma \<Rightarrow> dma_fault + ('d, 'z) dma" where
  "dma_write_masked E addr val msk s =
     (case decode_reg addr of
        Reg_dpcr \<Rightarrow> Inr (s\<lparr> dpcr := masked msk val (dpcr s) \<rparr>)
      | Reg_dicr \<Rightarrow> Inr (write_dicr addr val msk s)
      | Reg_madr ch \<Rightarrow> Inr (upd_channel ch (madr_update (masked msk val)) s)
      | Reg_bcr ch \<Rightarrow> Inr (upd_channel ch (bcr_update (masked msk val)) s)
      | Reg_chcr ch \<Rightarrow> write_chcr E ch val msk s
      | Reg_pad \<Rightarrow> Inr s
      | Reg_bad \<Rightarrow> Inr (s\<lparr> g_io_openbus_writes := g_io_openbus_writes s + 1 \<rparr>))"

definition dma_write :: "('d, 'z) env \<Rightarrow> u32 \<Rightarrow> u32 \<Rightarrow> ('d, 'z) dma \<Rightarrow> dma_fault + ('d, 'z) dma" where
  "dma_write E addr val s = dma_write_masked E addr val 0xFFFFFFFF s"

record dma_snapshot =
  sn_channels :: "nat \<Rightarrow> dma_channel"
  sn_dpcr :: u32
  sn_dicr :: u32
  sn_mdec_async :: "nat \<Rightarrow> dma_async"
  sn_cdrom_async :: dma_async
  sn_delayed :: "nat \<Rightarrow> dma_delayed"

definition dma_snapshot_write :: "('d, 'z) dma \<Rightarrow> dma_snapshot" where
  "dma_snapshot_write s =
     \<lparr> sn_channels = channels s, sn_dpcr = dpcr s, sn_dicr = dicr s, sn_mdec_async = mdec_async s,
       sn_cdrom_async = cdrom_async s, sn_delayed = delayed_complete s \<rparr>"

definition dma_snapshot_read :: "dma_snapshot \<Rightarrow> ('d, 'z) dma \<Rightarrow> ('d, 'z) dma" where
  "dma_snapshot_read n s =
     s\<lparr> channels := sn_channels n, dpcr := sn_dpcr n, dicr := sn_dicr n, mdec_async := sn_mdec_async n,
        cdrom_async := sn_cdrom_async n, delayed_complete := sn_delayed n \<rparr>"

end
