(* ===== verification/Dma_Props.thy ===== *)
theory Dma_Props
  imports Dma Memory_Props Mdec_Props
begin

text \<open>
  Correctness of the DMA controller: the interrupt register and its edge into \<open>I_STAT\<close>, completion
  and its timing, the ordering-table clear and the linked-list walk that consumes it, the error
  branches, the transfer log, and the soundness of the cycle budget handed to the scheduler.
\<close>

section \<open>Frames\<close>

lemma upd_channel_frame [simp]:
  "dicr (upd_channel ch f s) = dicr s" "i_stat (upd_channel ch f s) = i_stat s" "dpcr (upd_channel ch f s) = dpcr s"
  "devs (upd_channel ch f s) = devs s" "mdec_async (upd_channel ch f s) = mdec_async s"
  "delayed_complete (upd_channel ch f s) = delayed_complete s" "cdrom_async (upd_channel ch f s) = cdrom_async s"
  "channels (upd_channel ch f s) = (channels s)(ch := f (channels s ch))" "ram (upd_channel ch f s) = ram s"
  by (simp_all add: upd_channel_def)

lemma event_frame [simp]:
  "dicr (event_ring_record_aux k d a s) = dicr s" "dpcr (event_ring_record_aux k d a s) = dpcr s"
  "devs (event_ring_record_aux k d a s) = devs s" "mdec_async (event_ring_record_aux k d a s) = mdec_async s"
  "delayed_complete (event_ring_record_aux k d a s) = delayed_complete s"
  "cdrom_async (event_ring_record_aux k d a s) = cdrom_async s" "channels (event_ring_record_aux k d a s) = channels s"
  "ram (event_ring_record_aux k d a s) = ram s"
  by (simp_all add: event_ring_record_aux_def)

lemma irq_frame [simp]:
  "dicr (psx_irq_raise b d s) = dicr s" "dpcr (psx_irq_raise b d s) = dpcr s"
  "devs (psx_irq_raise b d s) = devs s" "mdec_async (psx_irq_raise b d s) = mdec_async s"
  "delayed_complete (psx_irq_raise b d s) = delayed_complete s"
  "cdrom_async (psx_irq_raise b d s) = cdrom_async s" "channels (psx_irq_raise b d s) = channels s"
  "ram (psx_irq_raise b d s) = ram s"
  by (simp_all add: psx_irq_raise_def device_trace_note_def)

lemma edge_frame [simp]:
  "dicr (raise_dma_irq_on_master_edge b s) = dicr s" "dpcr (raise_dma_irq_on_master_edge b s) = dpcr s"
  "devs (raise_dma_irq_on_master_edge b s) = devs s" "mdec_async (raise_dma_irq_on_master_edge b s) = mdec_async s"
  "delayed_complete (raise_dma_irq_on_master_edge b s) = delayed_complete s"
  "cdrom_async (raise_dma_irq_on_master_edge b s) = cdrom_async s" "channels (raise_dma_irq_on_master_edge b s) = channels s"
  "ram (raise_dma_irq_on_master_edge b s) = ram s"
  by (simp_all add: raise_dma_irq_on_master_edge_def)

lemma push_trace_frame [simp]:
  "dicr (push_trace e s) = dicr s" "dpcr (push_trace e s) = dpcr s" "i_stat (push_trace e s) = i_stat s"
  "devs (push_trace e s) = devs s" "mdec_async (push_trace e s) = mdec_async s"
  "delayed_complete (push_trace e s) = delayed_complete s"
  "cdrom_async (push_trace e s) = cdrom_async s" "channels (push_trace e s) = channels s" "ram (push_trace e s) = ram s"
  by (simp_all add: push_trace_def)

section \<open>The interrupt register\<close>

lemma bit_push_one: "bit (push_bit k (1 :: u32)) n \<longleftrightarrow> n = k \<and> k < 32"
  by (auto simp: bit_simps)

lemma bit_two_ones: "bit (push_bit j (1 :: u32) OR push_bit k 1) n \<longleftrightarrow> n = j \<and> j < 32 \<or> n = k \<and> k < 32"
  unfolding bit_or_iff bit_push_one by auto

lemma bit_field: "bit (push_bit k (mask w :: u32)) n \<longleftrightarrow> k \<le> n \<and> n < k + w \<and> n < 32"
  by (auto simp: bit_push_bit_iff bit_mask_iff)

lemmas bit_literals [simp] = bit_push_one [of 3, simplified] bit_push_one [of 31, simplified]
  bit_two_ones [of 24 28, simplified]

lemma reset_mask_iff: "(v :: u32) AND DICR_RESET_MASK \<noteq> 0 \<longleftrightarrow> (\<exists>n\<in>{24 ..< 31}. bit v n)"
proof -
  have "(0x7F000000 :: u32) = push_bit 24 (mask 7)" by (simp add: mask_eq_exp_minus_1)
  then have m: "bit (0x7F000000 :: u32) n \<longleftrightarrow> n \<in> {24 ..< 31}" for n
    by (auto simp only: bit_field atLeastLessThan_iff)
  have "v AND 0x7F000000 \<noteq> 0 \<longleftrightarrow> (\<exists>n. bit v n \<and> bit (0x7F000000 :: u32) n)"
    by (auto simp: bit_eq_iff [of _ "0 :: u32"] bit_and_iff dest: bit_imp_le_length)
  then show ?thesis using m by auto
qed

lemma master_flag_iff:
  "dicr_master_flag v \<noteq> 0 \<longleftrightarrow> bit v 15 \<or> bit v 23 \<and> (\<exists>n\<in>{24 ..< 31}. bit v n)"
proof -
  have "v AND push_bit k 1 \<noteq> 0 \<longleftrightarrow> bit v k" if "k < 32" for k
    using that by (simp add: bit_test)
  from this [of 15] this [of 23] show ?thesis
    unfolding dicr_master_flag_def reset_mask_iff by simp
qed

text \<open>What software reads from DICR: bits 0 to 30 as stored, and bit 31 set exactly when the
  bus-error bit 15 is set or the master enable bit 23 is set together with any completion flag
  (whatever the channel enable bits 16 to 22 say).\<close>

lemma dicr_read_bits:
  "bit (dma_get_dicr s) n \<longleftrightarrow>
     (if n = 31 then bit (dicr s) 15 \<or> bit (dicr s) 23 \<and> (\<exists>k\<in>{24 ..< 31}. bit (dicr s) k)
      else bit (dicr s) n)"
proof -
  have f: "dicr_master_flag v = (if dicr_master_flag v \<noteq> 0 then push_bit 31 1 else 0)" for v
    by (simp add: dicr_master_flag_def)
  have "bit (dma_get_dicr s) n \<longleftrightarrow> (n \<noteq> 31 \<and> bit (dicr s) n) \<or> (n = 31 \<and> dicr_master_flag (dicr s) \<noteq> 0)"
    unfolding dma_get_dicr_def dicr_read_value_def
    by (subst f) (auto simp: bit_simps dest: bit_imp_le_length)
  then show ?thesis by (auto simp: master_flag_iff)
qed

lemma edge_i_stat:
  "bit (i_stat (raise_dma_irq_on_master_edge b s)) n \<longleftrightarrow>
     bit (i_stat s) n \<or> n = 3 \<and> dicr_master_flag b = 0 \<and> dicr_master_flag (dicr s) \<noteq> 0"
  by (auto simp: raise_dma_irq_on_master_edge_def bit_simps)

lemma write_dicr_frame [simp]:
  "i_stat (write_dicr a v m s) = i_stat (raise_dma_irq_on_master_edge (dicr s) (s\<lparr> dicr := dicr (write_dicr a v m s) \<rparr>))"
  "dicr (write_dicr a v m s) = masked (DICR_WRITE_MASK AND m) v (dicr s) AND NOT (v AND (DICR_RESET_MASK AND m))"
  by (simp_all add: write_dicr_def trace_dma_reg_write_def Let_def)

lemma complete_transfer_frame [simp]:
  "dicr (complete_transfer ch s) = (if channel_irq_flag_armed ch s then dicr s OR push_bit (24 + ch) 1 else dicr s)"
  "channels (complete_transfer ch s) = (channels s)(ch := chcr_update clear_start_busy (channels s ch))"
  "dpcr (complete_transfer ch s) = dpcr s" "devs (complete_transfer ch s) = devs s" "ram (complete_transfer ch s) = ram s"
  "mdec_async (complete_transfer ch s) = mdec_async s" "cdrom_async (complete_transfer ch s) = cdrom_async s"
  "delayed_complete (complete_transfer ch s) = delayed_complete s"
  by (simp_all add: complete_transfer_def trace_dma_def Let_def channel_irq_flag_armed_def)

lemma complete_transfer_i_stat:
  "bit (i_stat (complete_transfer ch s)) n \<longleftrightarrow>
     bit (i_stat s) n \<or> n = 3 \<and> dicr_master_flag (dicr s) = 0 \<and> dicr_master_flag (dicr (complete_transfer ch s)) \<noteq> 0"
  by (simp add: complete_transfer_def trace_dma_def Let_def channel_irq_flag_armed_def edge_i_stat)

text \<open>The DMA interrupt is edge-triggered: a completion and a DICR write both set \<open>I_STAT\<close> bit 3
  exactly when they take the master flag from 0 to 1, and touch no other interrupt line.\<close>

lemma dma_irq_on_master_edge:
  "(\<forall>n. bit (i_stat (complete_transfer ch s)) n \<longleftrightarrow>
        bit (i_stat s) n \<or> n = 3 \<and> \<not> bit (dma_get_dicr s) 31 \<and> bit (dma_get_dicr (complete_transfer ch s)) 31) \<and>
   (\<forall>n. bit (i_stat (write_dicr a v m s)) n \<longleftrightarrow>
        bit (i_stat s) n \<or> n = 3 \<and> \<not> bit (dma_get_dicr s) 31 \<and> bit (dma_get_dicr (write_dicr a v m s)) 31)"
proof -
  have flag: "bit (dma_get_dicr t) 31 \<longleftrightarrow> dicr_master_flag (dicr t) \<noteq> 0" for t :: "('a, 'b) dma"
  proof -
    have "dicr_master_flag (dicr t) = (if dicr_master_flag (dicr t) \<noteq> 0 then push_bit 31 1 else 0)"
      by (simp add: dicr_master_flag_def)
    then show ?thesis
      unfolding dma_get_dicr_def dicr_read_value_def by (auto simp: bit_simps)
  qed
  show ?thesis
    by (simp add: flag complete_transfer_i_stat edge_i_stat del: write_dicr_frame(2) complete_transfer_frame(1))
qed

lemma bit_clear_start_busy: "bit (clear_start_busy v) n \<longleftrightarrow> bit v n \<and> n \<noteq> 24 \<and> n \<noteq> 28"
  by (auto simp: clear_start_busy_def bit_simps dest: bit_imp_le_length)

lemma chan_busy_iff: "chan_busy v \<longleftrightarrow> bit v 24"
  using drop_bit_and_one_zero_iff [of 24 v] by (simp add: chan_busy_def)

lemma chan_busy_clear [simp]: "\<not> chan_busy (clear_start_busy v)"
  by (simp add: chan_busy_iff bit_clear_start_busy)

text \<open>Completion: the busy and trigger bits of the channel's CHCR are cleared and nothing else
  of any channel changes; the channel's flag is latched in DICR exactly when its enable bit and
  the master enable bit are set at that moment.\<close>

lemma completion_effects:
  assumes "ch < 7"
  shows "let t = complete_transfer ch s
     in \<not> chan_busy (chcr (channels t ch)) \<and>
        (\<forall>n. bit (chcr (channels t ch)) n \<longleftrightarrow> bit (chcr (channels s ch)) n \<and> n \<noteq> 24 \<and> n \<noteq> 28) \<and>
        madr (channels t ch) = madr (channels s ch) \<and> bcr (channels t ch) = bcr (channels s ch) \<and>
        (\<forall>k. k \<noteq> ch \<longrightarrow> channels t k = channels s k) \<and>
        (\<forall>n. bit (dicr t) n \<longleftrightarrow> bit (dicr s) n \<or> n = 24 + ch \<and> bit (dicr s) (16 + ch) \<and> bit (dicr s) 23)"
proof -
  have armed: "channel_irq_flag_armed ch s \<longleftrightarrow> bit (dicr s) (16 + ch) \<and> bit (dicr s) 23"
    using drop_bit_and_one_zero_iff [of "16 + ch" "dicr s"] drop_bit_and_one_zero_iff [of 23 "dicr s"]
    by (simp add: channel_irq_flag_armed_def)
  show ?thesis
    using assms by (auto simp: Let_def bit_clear_start_busy armed bit_simps)
qed

section \<open>RAM seen by the controller\<close>

lemma ram_addr_facts [simp]:
  "psx_phys_addr (ram_addr a) = ram_addr a" "main_ram (ram_addr a)" "ram_addr a AND 3 = 0"
  "unat (ram_addr a) < 0x200000" "unat (ram_addr a) mod 4 = 0" "ram_addr (ram_addr a) = ram_addr a"
proof -
  have le: "ram_addr a \<le> 0x1FFFFC" unfolding ram_addr_def by (rule word_and_le1)
  then have lt: "unat (ram_addr a) \<le> 0x1FFFFC" by (simp add: word_le_nat_alt)
  then show "unat (ram_addr a) < 0x200000" by simp
  have m: "ram_addr a AND 0x1FFFFFFF = ram_addr a" "ram_addr a AND 0x1FFFFF = ram_addr a"
    by (simp_all add: ram_addr_def and.assoc)
  show p: "psx_phys_addr (ram_addr a) = ram_addr a"
    by (simp add: psx_phys_addr_def psx_main_ram_mirror_phys_def m Let_def)
  show "main_ram (ram_addr a)"
    using lt by (simp add: main_ram_def p word_less_nat_alt)
  show z: "ram_addr a AND 3 = 0" by (simp add: ram_addr_def and.assoc)
  then show "unat (ram_addr a) mod 4 = 0" using unat_and_3 [of "ram_addr a"] by simp
  show "ram_addr (ram_addr a) = ram_addr a" by (simp add: ram_addr_def and.assoc)
qed

lemma ram_addr_id: "unat a < 0x200000 \<Longrightarrow> unat a mod 4 = 0 \<Longrightarrow> ram_addr a = a"
proof -
  assume a: "unat a < 0x200000" "unat a mod 4 = 0"
  have "a AND mask 21 = a"
    using a(1) by (simp add: word_unat_eq_iff unat_and_mask)
  moreover have "a AND 3 = 0" using a(2) unat_and_3 [of a] by (simp add: unat_eq_0)
  moreover have "(0x1FFFFC :: u32) = mask 21 AND NOT 3" by (simp add: mask_eq_exp_minus_1)
  then have "a AND 0x1FFFFC = (a AND mask 21) AND NOT 3" by (simp only: and.assoc)
  ultimately have "a AND 0x1FFFFC = a AND NOT 3" by (simp only:)
  also have "\<dots> = a"
  proof (rule bit_word_eqI)
    fix n assume "n < LENGTH(32)"
    have "\<not> (bit a n \<and> bit (3 :: u32) n)"
      using \<open>a AND 3 = 0\<close> by (metis bit_and_iff bit_0_eq bot_apply bot_bool_def)
    then show "bit (a AND NOT 3) n = bit a n"
      using \<open>n < LENGTH(32)\<close> unfolding bit_and_iff bit_not_iff by auto
  qed
  finally show ?thesis by (simp add: ram_addr_def)
qed

lemma dma_load_ram [simp]: "dma_load E (ram_addr a) s = (word_at (ram s) (unat (ram_addr a)), s)"
  by (simp add: dma_load_def read_word_main_ram)

text \<open>Stores reach RAM when the data cache is not isolated and the last store was not one of the
  BIOS quirk sites.\<close>

definition stores_pass :: "('d, 'z) dma \<Rightarrow> bool" where
  "stores_pass s \<longleftrightarrow> \<not> store_isolated s \<and>
     (fntrace_game_started s \<longrightarrow> g_debug_last_store_pc s \<notin> set (0xBFC10A00 # 0xBFC117E4 # low_boot_store_pcs))"

lemma dma_store_keeps:
  fixes f :: "('d, 'z) dma \<Rightarrow> 'b"
  assumes "\<And>i s. f (kbless_drop i s) = f s" and "\<And>n s. f (s\<lparr> g_dirty_ram_code_gen := n \<rparr>) = f s"
    and "\<And>b s. f (s\<lparr> dirty_ram_bitmap := b \<rparr>) = f s" and "\<And>b s. f (s\<lparr> text_modified_bitmap := b \<rparr>) = f s"
    and "\<And>g s. f (s\<lparr> overlay_page_gen := g \<rparr>) = f s" and "\<And>n s. f (s\<lparr> g_guest_store_count := n \<rparr>) = f s"
    and "\<And>r s. f (s\<lparr> ram := r \<rparr>) = f s" and "\<And>p o' v s. f (d44_note p o' v s) = f s"
  shows "f (dma_store E (ram_addr a) v s) = f s"
  by (simp add: dma_store_def write_word_main_ram store_ram_word_def note_ram_store_keeps assms Let_def)

lemma d44_note_dma [simp]:
  "devs (d44_note p o' v s) = devs s" "channels (d44_note p o' v s) = channels s" "dicr (d44_note p o' v s) = dicr s"
  "dpcr (d44_note p o' v s) = dpcr s" "mdec_async (d44_note p o' v s) = mdec_async s"
  "cdrom_async (d44_note p o' v s) = cdrom_async s" "delayed_complete (d44_note p o' v s) = delayed_complete s"
  by (simp_all add: d44_note_def)

lemma kbless_drop_dma [simp]:
  "devs (kbless_drop i s) = devs s" "channels (kbless_drop i s) = channels s" "dicr (kbless_drop i s) = dicr s"
  "dpcr (kbless_drop i s) = dpcr s" "mdec_async (kbless_drop i s) = mdec_async s"
  "cdrom_async (kbless_drop i s) = cdrom_async s" "delayed_complete (kbless_drop i s) = delayed_complete s"
  by (simp_all add: kbless_drop_def)

lemma dma_store_frame [simp]:
  "devs (dma_store E (ram_addr a) v s) = devs s" "channels (dma_store E (ram_addr a) v s) = channels s"
  "dicr (dma_store E (ram_addr a) v s) = dicr s" "dpcr (dma_store E (ram_addr a) v s) = dpcr s"
  "mdec_async (dma_store E (ram_addr a) v s) = mdec_async s" "cdrom_async (dma_store E (ram_addr a) v s) = cdrom_async s"
  "delayed_complete (dma_store E (ram_addr a) v s) = delayed_complete s" "i_stat (dma_store E (ram_addr a) v s) = i_stat s"
  "stores_pass (dma_store E (ram_addr a) v s) = stores_pass s"
  by (rule dma_store_keeps; simp add: stores_pass_def store_isolated_def)+

lemma dma_store_ram:
  "stores_pass s \<Longrightarrow> ram (dma_store E (ram_addr a) v s) = put_word (ram s) (unat (ram_addr a)) v"
  by (auto simp: dma_store_def ram_write_word_main_ram store_visible_def stores_pass_def low_store_dropped_def
      card_event_store_dropped_def)

section \<open>Ordering table and linked list\<close>

lemma unat_sub_4: "4 \<le> unat a \<Longrightarrow> unat (a - 4 :: u32) = unat a - 4"
  by (subst unat_sub_le) (simp_all add: word_le_nat_alt)

lemma otc_loop_frame [simp]:
  "devs (otc_loop n E (ram_addr a) s) = devs s" "channels (otc_loop n E (ram_addr a) s) = channels s"
  "dicr (otc_loop n E (ram_addr a) s) = dicr s" "i_stat (otc_loop n E (ram_addr a) s) = i_stat s"
  "stores_pass (otc_loop n E (ram_addr a) s) = stores_pass s"
  by (induction n arbitrary: a s; simp)+

definition otc_value :: "nat \<Rightarrow> u32 \<Rightarrow> nat \<Rightarrow> u32" where
  "otc_value n a i = (if i = n - 1 then 0x00FFFFFF else of_nat (unat a - 4 * (i + 1)))"

lemma otc_loop_ram:
  assumes "stores_pass s" and "unat a mod 4 = 0" and "unat a < 0x200000" and "4 * n \<le> unat a + 4"
  shows "(\<forall>i<n. word_at (ram (otc_loop n E a s)) (unat a - 4 * i) = otc_value n a i)
       \<and> (\<forall>j. unat a + 4 \<le> j \<longrightarrow> ram (otc_loop n E a s) j = ram s j)"
  using assms
proof (induction n arbitrary: a s)
  case 0
  then show ?case by simp
next
  case (Suc n)
  have id: "ram_addr a = a" using Suc.prems by (intro ram_addr_id)
  let ?v = "if n = 0 then 0x00FFFFFF else (a - 4) AND 0x00FFFFFF"
  let ?s1 = "dma_store E a ?v s"
  have s1: "stores_pass ?s1" "ram ?s1 = put_word (ram s) (unat a) ?v"
    using Suc.prems(1) dma_store_ram [of s E a ?v] dma_store_frame(9) [of E a ?v s] by (simp_all add: id)
  show ?case
  proof (cases "n = 0")
    case True
    with s1 show ?thesis by (auto simp: otc_value_def put_word_other)
  next
    case False
    then have u: "unat (a - 4) = unat a - 4" "4 \<le> unat a" using Suc.prems(4) by (simp_all add: unat_sub_4)
    have id': "ram_addr (a - 4) = a - 4"
    proof (rule ram_addr_id)
      show "unat (a - 4) mod 4 = 0" unfolding u(1) using u(2) Suc.prems(2) by presburger
    qed (use u Suc.prems in simp)
    have "(a - 4) AND mask 24 = a - 4"
      using u Suc.prems(3) by (simp add: word_unat_eq_iff unat_and_mask)
    then have v: "?v = a - 4" using False by (simp add: mask_eq_exp_minus_1)
    let ?r = "ram (otc_loop n E (a - 4) ?s1)"
    have ih: "(\<forall>i<n. word_at ?r (unat (a - 4) - 4 * i) = otc_value n (a - 4) i) \<and> (\<forall>j. unat (a - 4) + 4 \<le> j \<longrightarrow> ?r j = ram ?s1 j)"
    proof (rule Suc.IH [OF s1(1)])
      show "unat (a - 4) mod 4 = 0" by (metis id' ram_addr_facts(5))
    qed (use u Suc.prems in simp_all)
    have loop: "ram (otc_loop (Suc n) E a s) = ?r" by (simp add: id')
    have "word_at ?r (unat a - 4 * i) = otc_value (Suc n) a i" if "i < Suc n" for i
    proof (cases i)
      case 0
      have keep: "?r (unat a + k) = ram ?s1 (unat a + k)" for k using ih u by simp
      have "word_at ?r (unat a) = word_at (ram ?s1) (unat a)"
        using keep [of 0] keep [of 1] keep [of 2] keep [of 3] by (simp add: word_at_def)
      then show ?thesis using 0 False s1(2) v u by (simp add: otc_value_def word_unat_eq_iff unat_word_of_nat)
    next
      case (Suc k)
      with that ih have "word_at ?r (unat (a - 4) - 4 * k) = otc_value n (a - 4) k" by simp
      moreover have "unat (a - 4) - 4 * k = unat a - 4 * i" "otc_value n (a - 4) k = otc_value (Suc n) a i"
        using Suc u False that by (auto simp: otc_value_def)
      ultimately show ?thesis by simp
    qed
    moreover have "?r j = ram s j" if "unat a + 4 \<le> j" for j
      using ih u that s1(2) by (simp add: put_word_other)
    ultimately show ?thesis unfolding loop by blast
  qed
qed

text \<open>The reference reading of a linked list in RAM: the payload of each node as pairs of source
  address and word, for a list that ends within the given number of nodes.\<close>

primrec payload :: "nat \<Rightarrow> (nat \<Rightarrow> u8) \<Rightarrow> u32 \<Rightarrow> (u32 \<times> u32) list" where
  "payload 0 m a = []"
| "payload (Suc k) m a = (a, word_at m (unat a)) # payload k m (next_addr 0 a)"

primrec list_nodes :: "nat \<Rightarrow> (nat \<Rightarrow> u8) \<Rightarrow> u32 \<Rightarrow> (u32 \<times> u32) list list option" where
  "list_nodes 0 m a = None"
| "list_nodes (Suc n) m a =
     (let header = word_at m (unat a);
          p = payload (unat (drop_bit 24 header AND 0xFF)) m (ram_addr (a + 4))
      in if header AND 0xFFFFFF = 0xFFFFFF then Some [p]
         else map_option ((#) p) (list_nodes n m (ram_addr (header AND 0xFFFFFF))))"

definition gp0_word :: "('d, 'z) env \<Rightarrow> u32 \<times> u32 \<Rightarrow> 'd \<Rightarrow> 'd" where
  "gp0_word E = (\<lambda>(a, w) d. gpu_write_gp0 E w (gpu_set_gp0_source E a d))"

lemma next_addr_ram_addr: "\<exists>b. next_addr step a = ram_addr b"
  by (auto simp: next_addr_def)

lemma gp0_loop_devs:
  "snd (gp0_loop n E 0 (ram_addr a) s) = s\<lparr> devs := fold (gp0_word E) (payload n (ram s) (ram_addr a)) (devs s) \<rparr>"
proof (induction n arbitrary: a s)
  case 0
  then show ?case by simp
next
  case (Suc n)
  obtain b where b: "next_addr 0 (ram_addr a) = ram_addr b" using next_addr_ram_addr by blast
  show ?case
    by (simp add: b Suc.IH send_gp0_def on_devs_def gp0_word_def)
qed

lemma length_payload [simp]: "length (payload k m a) = k"
  by (induction k arbitrary: a) simp_all

lemma ll_walk_list:
  assumes "list_nodes n (ram s) (ram_addr a) = Some ps"
  shows "\<exists>b. ll_walk (n + k) E (ram_addr a) words s =
    (n + k = length ps, b, words + of_nat (length ps + length (concat ps)),
     upd_channel 2 (madr_update (\<lambda>_. 0x00FFFFFF)) (s\<lparr> devs := fold (gp0_word E) (concat ps) (devs s) \<rparr>))"
  using assms
proof (induction n arbitrary: a words s ps)
  case 0
  then show ?case by simp
next
  case (Suc n)
  let ?h = "word_at (ram s) (unat (ram_addr a))"
  let ?w = "drop_bit 24 ?h AND 0xFF"
  let ?p = "payload (unat ?w) (ram s) (ram_addr (ram_addr a + 4))"
  let ?s1 = "s\<lparr> devs := fold (gp0_word E) ?p (devs s) \<rparr>"
  have g: "snd (gp0_loop (unat ?w) E 0 (ram_addr (ram_addr a + 4)) s) = ?s1"
    by (rule gp0_loop_devs)
  show ?case
  proof (cases "?h AND 0xFFFFFF = 0xFFFFFF")
    case True
    with Suc.prems g show ?thesis
      by (auto simp: Let_def split_beta)
  next
    case False
    with Suc.prems obtain qs where qs: "list_nodes n (ram s) (ram_addr (?h AND 0xFFFFFF)) = Some qs" "ps = ?p # qs"
      by (auto simp: Let_def)
    have "list_nodes n (ram ?s1) (ram_addr (?h AND 0xFFFFFF)) = Some qs" using qs by simp
    note ih = Suc.IH [OF this, of "words + 1 + ?w"]
    have step: "ll_walk (Suc n + k) E (ram_addr a) words s = ll_walk (n + k) E (ram_addr (?h AND 0xFFFFFF)) (words + 1 + ?w) ?s1"
      using False g by (simp add: Let_def split_beta)
    from ih obtain b where "ll_walk (n + k) E (ram_addr (?h AND 0xFFFFFF)) (words + 1 + ?w) ?s1 =
      (n + k = length qs, b, words + 1 + ?w + of_nat (length qs + length (concat qs)),
       upd_channel 2 (madr_update (\<lambda>_. 0x00FFFFFF)) (?s1\<lparr> devs := fold (gp0_word E) (concat qs) (devs ?s1) \<rparr>))"
      by blast
    then show ?thesis
      unfolding step by (simp add: qs(2) add_ac)
  qed
qed

lemma list_nodes_length: "list_nodes n m a = Some ps \<Longrightarrow> length ps \<le> n \<and> ps \<noteq> []"
  by (induction n arbitrary: a ps) (auto simp: Let_def split: if_splits)

lemma gpu_list_transfer:
  assumes "list_nodes MAX_NODES (ram s) (ram_addr (madr (channels s 2))) = Some ps"
  shows "let (words, t) = execute_ch2_gpu_list E s
     in devs t = fold (gp0_word E) (concat ps) (gpu_ws_begin_linked_list E (devs s))
        \<and> words = of_nat (length ps + length (concat ps)) \<and> madr (channels t 2) = 0x00FFFFFF
        \<and> ram t = ram s \<and> i_stat t = i_stat s"
proof -
  let ?s = "on_devs (gpu_ws_begin_linked_list E) s"
  have "list_nodes MAX_NODES (ram ?s) (ram_addr (madr (channels s 2))) = Some ps"
    using assms by (simp add: on_devs_def)
  from ll_walk_list [OF this, of 1 E 0] obtain b where
    "ll_walk (MAX_NODES + 1) E (ram_addr (madr (channels s 2))) 0 ?s =
      (MAX_NODES + 1 = length ps, b, 0 + of_nat (length ps + length (concat ps)),
       upd_channel 2 (madr_update (\<lambda>_. 0x00FFFFFF)) (?s\<lparr> devs := fold (gp0_word E) (concat ps) (devs ?s) \<rparr>))"
    by blast
  moreover have "MAX_NODES + 1 \<noteq> length ps" using list_nodes_length [OF assms] by simp
  ultimately show ?thesis
    unfolding execute_ch2_gpu_list_def by (simp add: on_devs_def Let_def)
qed

text \<open>C32. A GPU linked list that ends within \<open>MAX_NODES\<close> nodes is transferred completely and in
  order: every payload word reaches GP0 right after its source address, the word count is one
  per node plus the payload, and MADR is left at the end marker.\<close>

theorem gpu_linked_list_transfer:
  assumes "list_nodes MAX_NODES (ram s) (ram_addr (madr (channels s 2))) = Some ps"
  shows "let (words, t) = execute_ch2_gpu_list E s
     in devs t = fold (gp0_word E) (concat ps) (gpu_ws_begin_linked_list E (devs s))
        \<and> words = of_nat (length ps + length (concat ps)) \<and> madr (channels t 2) = 0x00FFFFFF
        \<and> ram t = ram s \<and> i_stat t = i_stat s"
  using assms by (rule gpu_list_transfer)

text \<open>A list that does not end is cut off: whatever the RAM contents, the walk stops after at
  most \<open>MAX_NODES + 1\<close> nodes of at most 256 words each, so the word count stays far from the
  32-bit limit and the completion delay is bounded.\<close>

lemma gpu_linked_list_bounded:
  "unat (fst (execute_ch2_gpu_list E s)) \<le> 256 * (MAX_NODES + 1)"
proof -
  have "unat (fst (snd (snd (ll_walk n E a words t)))) \<le> unat words + 256 * n" for n a words and t :: "('a, 'b) dma"
  proof (induction n arbitrary: a words t)
    case 0
    then show ?case by simp
  next
    case (Suc n)
    obtain h t1 where l: "dma_load E a t = (h, t1)" by fastforce
    obtain x t2 where g: "gp0_loop (unat (drop_bit 24 h AND 0xFF)) E 0 (ram_addr (a + 4)) t1 = (x, t2)" by fastforce
    let ?w = "words + 1 + (drop_bit 24 h AND 0xFF)"
    have w: "unat (drop_bit 24 h AND 0xFF) < 256"
      using unat_and_mask [of "drop_bit 24 h" 8] by (simp add: mask_eq_exp_minus_1)
    have le: "unat (x + y :: u32) \<le> unat x + unat y" for x y
      by (simp add: unat_word_ariths(1))
    have "unat ?w \<le> unat words + 256"
      using w le [of "words + 1" "drop_bit 24 h AND 0xFF"] le [of words 1] unat_1 [where ?'a = 32] by linarith
    then show ?case using Suc.IH [of "ram_addr (h AND 0xFFFFFF)" ?w t2] by (auto simp: l g Let_def)
  qed
  from this [of "MAX_NODES + 1" "ram_addr (madr (channels s 2))" 0 "on_devs (gpu_ws_begin_linked_list E) s"] show ?thesis
    by (simp add: execute_ch2_gpu_list_def split_beta del: ll_walk.simps)
qed

text \<open>The ordering table in RAM is a linked list of empty nodes.\<close>

lemma otc_list_nodes:
  assumes "\<forall>i<n. word_at m (unat a - 4 * i) = otc_value n a i" and "0 < n"
    and "unat a mod 4 = 0" and "unat a < 0x200000" and "4 * n \<le> unat a + 4"
  shows "list_nodes n m a = Some (replicate n [])"
  using assms
proof (induction n arbitrary: a)
  case 0
  then show ?case by simp
next
  case (Suc n)
  have head: "word_at m (unat a) = otc_value (Suc n) a 0" using Suc.prems(1) by auto
  show ?case
  proof (cases "n = 0")
    case True
    with head show ?thesis by (simp add: otc_value_def Let_def)
  next
    case False
    then have u: "unat (a - 4) = unat a - 4" "4 \<le> unat a" using Suc.prems(5) by (simp_all add: unat_sub_4)
    have al: "unat (a - 4) mod 4 = 0" unfolding u(1) using u(2) Suc.prems(3) by presburger
    have h: "word_at m (unat a) = a - 4"
      using head False u Suc.prems(4) by (simp add: otc_value_def word_unat_eq_iff unat_word_of_nat)
    have m24: "(a - 4) AND 0xFFFFFF = a - 4"
    proof -
      have "(a - 4) AND mask 24 = a - 4" using u Suc.prems(4) by (simp add: word_unat_eq_iff unat_and_mask)
      then show ?thesis by (simp add: mask_eq_exp_minus_1)
    qed
    have nz: "a - 4 \<noteq> 0xFFFFFF" using u Suc.prems(4) by (simp add: word_unat_eq_iff)
    have top: "drop_bit 24 (a - 4) = 0"
      using u Suc.prems(4) by (simp add: word_unat_eq_iff unat_drop_bit_eq drop_bit_eq_div unat_div)
    have id': "ram_addr (a - 4) = a - 4" using al u Suc.prems(4) by (intro ram_addr_id) simp_all
    have "list_nodes n m (a - 4) = Some (replicate n [])"
    proof (rule Suc.IH)
      show "\<forall>i<n. word_at m (unat (a - 4) - 4 * i) = otc_value n (a - 4) i"
      proof (intro allI impI)
        fix i assume "i < n"
        with Suc.prems(1) have "word_at m (unat a - 4 * Suc i) = otc_value (Suc n) a (Suc i)" by blast
        moreover have "otc_value (Suc n) a (Suc i) = otc_value n (a - 4) i"
          using u False by (simp add: otc_value_def) (auto simp: algebra_simps)
        ultimately show "word_at m (unat (a - 4) - 4 * i) = otc_value n (a - 4) i" using u by simp
      qed
    qed (use False al u Suc.prems in simp_all)
    with h m24 nz top show ?thesis by (simp add: Let_def id')
  qed
qed

text \<open>Clearing an ordering table and drawing it untouched draws nothing: the table the clear
  channel writes (its last entry at the lowest address, every other entry pointing one word
  down) is read by the GPU channel as exactly that many empty nodes, so no word reaches GP0 and
  the transfer costs one word per entry.\<close>

lemma cleared_ordering_table_is_empty:
  assumes "stores_pass s" and "madr (channels s 2) = madr (channels s 6)"
    and "n = unat (otc_entries (bcr (channels s 6)))" and "4 * n \<le> unat (ram_addr (madr (channels s 6))) + 4"
  shows "let t = execute_ch6_otc E s; (words, u) = execute_ch2_gpu_list E t
     in (\<forall>i<n. word_at (ram t) (unat (ram_addr (madr (channels s 6))) - 4 * i) = otc_value n (ram_addr (madr (channels s 6))) i)
        \<and> words = of_nat n \<and> devs u = gpu_ws_begin_linked_list E (devs s) \<and> \<not> chan_busy (chcr (channels t 6))"
proof -
  let ?a = "ram_addr (madr (channels s 6))"
  let ?t = "execute_ch6_otc E s"
  have n: "0 < n" "n \<le> MAX_NODES"
  proof -
    have "unat (bcr (channels s 6) AND 0xFFFF) < 65536"
      using unat_and_mask [of "bcr (channels s 6)" 16] by (simp add: mask_eq_exp_minus_1)
    then show "0 < n" "n \<le> MAX_NODES" using assms(3) by (auto simp: otc_entries_def unat_gt_0)
  qed
  have t: "ram ?t = ram (otc_loop n E ?a s)" "devs ?t = devs s"
    "channels ?t = (channels s)(6 := chcr_update clear_start_busy (channels s 6))"
    using otc_loop_frame [of n E "madr (channels s 6)" s] by (simp_all add: execute_ch6_otc_def assms(3))
  have words: "\<forall>i<n. word_at (ram ?t) (unat ?a - 4 * i) = otc_value n ?a i"
    using otc_loop_ram [OF assms(1), of ?a n E] assms(4) by (simp add: t)
  have nodes: "list_nodes n (ram ?t) ?a = Some (replicate n [])"
    by (rule otc_list_nodes [OF words n(1)]) (use assms(4) in simp_all)
  have mono: "list_nodes k m a = Some ps \<Longrightarrow> list_nodes (k + j) m a = Some ps" for k j m a ps
    by (induction k arbitrary: a ps) (auto simp: Let_def split: if_splits)
  have "list_nodes MAX_NODES (ram ?t) (ram_addr (madr (channels ?t 2))) = Some (replicate n [])"
    using mono [OF nodes, of "MAX_NODES - n"] n(2) assms(2) by (simp add: t(3))
  from gpu_list_transfer [OF this, of E]
  have g: "let (words, u) = execute_ch2_gpu_list E ?t
     in devs u = gpu_ws_begin_linked_list E (devs s) \<and> words = of_nat n"
    by (simp add: t(2) Let_def split_beta)
  have "\<not> chan_busy (chcr (channels ?t 6))"
    by (simp add: t(3))
  with words g show ?thesis by (simp add: Let_def split_beta)
qed

section \<open>Delayed completion\<close>

definition waiting :: "nat \<Rightarrow> ('d, 'z) dma \<Rightarrow> ('d, 'z) dma \<Rightarrow> nat \<Rightarrow> bool" where
  "waiting ch s t r \<longleftrightarrow> channels t = channels s \<and> dicr t = dicr s \<and> i_stat t = i_stat s \<and>
     dc_active (delayed_complete t ch) = 1 \<and> unat (dc_cycles_remaining (delayed_complete t ch)) = r"

lemma waiting_advance:
  assumes "waiting ch s t r" and "unat c < r"
  shows "waiting ch s (advance_delayed_complete c ch t) (r - unat c)"
  using assms by (simp add: waiting_def advance_delayed_complete_def Let_def word_less_nat_alt unat_sub_le word_le_nat_alt)

lemma waiting_done:
  assumes "waiting ch s t r" and "r \<le> unat c"
  shows "\<not> chan_busy (chcr (channels (advance_delayed_complete c ch t) ch)) \<and>
         dc_active (delayed_complete (advance_delayed_complete c ch t) ch) = 0"
  using assms by (simp add: waiting_def advance_delayed_complete_def Let_def word_less_nat_alt no_delayed_def)

lemma done_stays:
  "dc_active (delayed_complete t ch) = 0 \<Longrightarrow> fold (\<lambda>c. advance_delayed_complete c ch) cs t = t"
  by (induction cs) (simp_all add: advance_delayed_complete_def Let_def)

lemma waiting_fold:
  assumes "waiting ch s t r" and "0 < r"
  shows "let u = fold (\<lambda>c. advance_delayed_complete c ch) cs t; n = sum_list (map unat cs)
     in (n < r \<longrightarrow> waiting ch s u (r - n)) \<and> (r \<le> n \<longrightarrow> \<not> chan_busy (chcr (channels u ch)) \<and> dc_active (delayed_complete u ch) = 0)"
  using assms
proof (induction cs arbitrary: t r)
  case Nil
  then show ?case by simp
next
  case (Cons c cs)
  show ?case
  proof (cases "unat c < r")
    case True
    have "0 < r - unat c" using True by simp
    from Cons.IH [OF waiting_advance [OF Cons.prems(1) True] this] True show ?thesis
      by (auto simp: Let_def)
  next
    case False
    with waiting_done [OF Cons.prems(1), of c] show ?thesis by (simp add: Let_def done_stays)
  qed
qed

lemma schedule_waiting:
  assumes "words \<noteq> 0" "cpw \<noteq> 0" "unat words * unat cpw < 2 ^ 32"
  shows "waiting ch s (schedule_delayed_complete ch words cpw s) (unat words * unat cpw)"
proof -
  have u: "unat (ucast words * ucast cpw :: u64) = unat words * unat cpw"
    using assms(3) by (simp add: unat_word_ariths(2) unat_ucast_up)
  then have "\<not> (ucast words * ucast cpw :: u64) > ucast (0xFFFFFFFF :: u32)"
    using assms(3) by (simp add: word_less_nat_alt)
  moreover have "unat (ucast (ucast words * ucast cpw :: u64) :: u32) = unat words * unat cpw"
    using assms(3) u by (simp add: unat_ucast_mod)
  ultimately show ?thesis
    using assms(1,2) by (simp add: schedule_delayed_complete_def waiting_def Let_def)
qed

text \<open>A delayed channel completes exactly on time, however the elapsed cycles are sliced: while
  the cycles passed are fewer than words times cycles per word, no register and no interrupt
  line changes and the countdown holds the difference; as soon as they reach it the channel is
  no longer busy.\<close>

lemma delayed_completion_exact:
  assumes "words \<noteq> 0" and "cpw \<noteq> 0" and "unat words * unat cpw < 2 ^ 32"
  shows "let u = fold (\<lambda>c. advance_delayed_complete c ch) cs (schedule_delayed_complete ch words cpw s);
             n = sum_list (map unat cs); total = unat words * unat cpw
     in (n < total \<longrightarrow> channels u = channels s \<and> dicr u = dicr s \<and> i_stat u = i_stat s \<and>
                      unat (dc_cycles_remaining (delayed_complete u ch)) = total - n) \<and>
        (total \<le> n \<longrightarrow> \<not> chan_busy (chcr (channels u ch)) \<and> dc_active (delayed_complete u ch) = 0)"
proof -
  have "0 < unat words * unat cpw" using assms by (simp add: unat_gt_0)
  from waiting_fold [OF schedule_waiting [OF assms, of ch s] this, of cs] show ?thesis
    by (simp add: Let_def waiting_def)
qed

section \<open>What the motion decoder leaves alone\<close>

definition outside_mdec :: "'a mdec_st_scheme \<Rightarrow> u32 \<times> u64 \<times> u32 \<times> (nat \<Rightarrow> timer) \<times> (nat \<Rightarrow> u32) \<times> 'a" where
  "outside_mdec s = (i_stat s, cycle_count s, in_exception s, timers s, timer_frac s, mdec_st.more s)"

lemma outside_trace [simp]: "outside_mdec (trace_event k v s) = outside_mdec s"
  by (simp add: outside_mdec_def trace_event_def)

lemma outside_append_byte [simp]: "outside_mdec (append_byte v s) = outside_mdec s"
  by (simp add: outside_mdec_def append_byte_def ensure_output_capacity_def Let_def)

lemma outside_append_luma [simp]: "outside_mdec (append_luma_block blk s) = outside_mdec s"
proof -
  have "outside_mdec (fold (\<lambda>i s. append_byte (to_output_u8 (sint (blk i)) s) s) xs t) = outside_mdec t" for xs and t :: "'a mdec_st_scheme"
    by (induction xs arbitrary: t) simp_all
  then show ?thesis by (simp add: append_luma_block_def)
qed

lemma outside_append_color [simp]: "outside_mdec (append_color_macroblock cr cb y s) = outside_mdec s"
proof -
  have px: "outside_mdec (append_color_pixel cr cb y py px t) = outside_mdec t" for py px and t :: "'a mdec_st_scheme"
    by (simp add: append_color_pixel_def append_rgb_pixel_def Let_def split_beta)
  have row: "outside_mdec (fold (append_color_pixel cr cb y py) xs t) = outside_mdec t" for py xs and t :: "'a mdec_st_scheme"
    by (induction xs arbitrary: t) (simp_all add: px)
  have "outside_mdec (fold (\<lambda>py. fold (append_color_pixel cr cb y py) xs) ys t) = outside_mdec t" for xs ys and t :: "'a mdec_st_scheme"
    by (induction ys arbitrary: t) (simp_all add: row)
  then show ?thesis by (simp add: append_color_macroblock_def)
qed

lemma outside_update [simp]:
  "outside_mdec (s\<lparr> m_decode_macroblocks := n \<rparr>) = outside_mdec s" "outside_mdec (s\<lparr> m_decode_blocks := n \<rparr>) = outside_mdec s"
  "outside_mdec (s\<lparr> m_decode_stop_reason := n \<rparr>) = outside_mdec s" "outside_mdec (s\<lparr> m_decode_input_pos := n \<rparr>) = outside_mdec s"
  "outside_mdec (s\<lparr> mdec_last_color_decode_frame := f \<rparr>) = outside_mdec s" "outside_mdec (s\<lparr> m_scale := sc \<rparr>) = outside_mdec s"
  by (simp_all add: outside_mdec_def)

lemma outside_luma_loop: "outside_mdec (snd (luma_loop pos end_pos s)) = outside_mdec s"
proof (induction pos end_pos s rule: luma_loop.induct)
  case (1 pos end_pos s)
  obtain ok blk p1 s1 where d: "decode_rle_block (m_y_quant s) pos end_pos s = (ok, blk, p1, s1)" by (metis surj_pair)
  have s1: "outside_mdec s1 = outside_mdec s" using decode_rle_block_pos [OF d] by simp
  show ?case
    using "1.IH" [OF _ d [symmetric] refl refl _ refl] s1
    by (subst luma_loop.simps) (simp add: d Let_def)
qed

lemma outside_color_loop: "outside_mdec (snd (color_loop pos end_pos s)) = outside_mdec s"
proof (induction pos end_pos s rule: color_loop.induct)
  case (1 pos end_pos s)
  obtain r p1 s1 where d: "decode_color_blocks pos end_pos s = (r, p1, s1)" by (metis surj_pair)
  obtain n where "s1 = s\<lparr> m_decode_blocks := n \<rparr>" using decode_color_blocks_pos(3) [OF d] by blast
  then have s1: "outside_mdec s1 = outside_mdec s" by simp
  show ?case
    using "1.IH" [OF _ d [symmetric] _ refl refl] s1
    by (subst color_loop.simps) (simp add: d Let_def split: sum.split)
qed

lemma outside_execute_decode: "outside_mdec (execute_decode s) = outside_mdec s"
proof -
  have p: "outside_mdec (decode_prologue s) = outside_mdec s"
    by (simp add: outside_mdec_def decode_prologue_def clear_output_def)
  show ?thesis
    using outside_luma_loop [of 0 "unat (m_input_count s)" "decode_prologue s"]
      outside_color_loop [of 0 "unat (m_input_count s)" "decode_prologue s"] p
    by (simp add: execute_decode_def Let_def split_beta)
qed

lemma outside_write_data [simp]: "outside_mdec (write_data v s) = outside_mdec s"
proof -
  have fin: "outside_mdec (finish_command t) = outside_mdec t" for t :: "'a mdec_st_scheme"
    by (simp add: finish_command_def) (simp add: outside_mdec_def)
  have "outside_mdec (load_quant t) = outside_mdec t" for t :: "'a mdec_st_scheme"
    by (simp add: outside_mdec_def load_quant_def Let_def)
  then have exec: "outside_mdec (execute_command t) = outside_mdec t" for t :: "'a mdec_st_scheme"
    by (simp add: execute_command_def fin outside_execute_decode load_scale_eq Let_def)
  have store: "outside_mdec (store_halfword h t) = outside_mdec t" for h and t :: "'a mdec_st_scheme"
    by (simp add: outside_mdec_def store_halfword_def)
  have "outside_mdec (snd (ensure_input_capacity n t)) = outside_mdec t" for n and t :: "'a mdec_st_scheme"
    by (simp add: outside_mdec_def ensure_input_capacity_def Let_def)
  then have "outside_mdec (begin_command v s) = outside_mdec s"
    by (simp add: begin_command_def fin Let_def split_beta) (simp add: outside_mdec_def)
  then show ?thesis
    by (simp add: write_data_def exec store Let_def)
qed

lemma outside_read_word [simp]: "outside_mdec (snd (mdec_dma_read_word s)) = outside_mdec s"
proof -
  have f: "outside_mdec (snd (fold read_out_byte is (v, t))) = outside_mdec t" for "is" v and t :: "'a mdec_st_scheme"
    using fold_read_out_byte_frame [of "is" v t] by (auto simp: outside_mdec_def)
  show ?thesis
    using f [of "[0 ..< 4]" 0 s]
    by (simp add: mdec_dma_read_word_def note_underflow_def clear_output_def Let_def split_beta)
       (simp add: outside_mdec_def trace_event_def)
qed

lemma outside_fields:
  fixes s t :: "('d, 'z) dma"
  assumes "outside_mdec s = outside_mdec t"
  shows "i_stat s = i_stat t" "dicr s = dicr t" "channels s = channels t" "mdec_async s = mdec_async t"
    "cdrom_async s = cdrom_async t" "delayed_complete s = delayed_complete t" "dpcr s = dpcr t" "devs s = devs t"
  using assms by (cases s; cases t; simp add: outside_mdec_def)+

section \<open>The cycle budget\<close>

text \<open>What the interrupt line depends on: the interrupt registers, the control registers of the
  channels and the schedules of the transfers.\<close>

definition irq_view :: "('d, 'z) dma \<Rightarrow> u32 \<times> u32 \<times> u32 \<times> (nat \<Rightarrow> u32)" where
  "irq_view s = (i_stat s, dicr s, dpcr s, \<lambda>ch. chcr (channels s ch))"

definition same_but :: "nat \<Rightarrow> ('d, 'z) dma \<Rightarrow> ('d, 'z) dma \<Rightarrow> bool" where
  "same_but ch s t \<longleftrightarrow> irq_view t = irq_view s \<and> delayed_complete t = delayed_complete s \<and>
     (ch \<noteq> 3 \<longrightarrow> cdrom_async t = cdrom_async s) \<and> (\<forall>k<2. k \<noteq> ch \<longrightarrow> mdec_async t k = mdec_async s k)"

lemma same_but_refl [simp]: "same_but ch s s"
  by (simp add: same_but_def)

lemma same_but_trans: "same_but ch s t \<Longrightarrow> same_but ch t u \<Longrightarrow> same_but ch s u"
  by (simp add: same_but_def)

lemma outside_cur_madr [simp]: "outside_mdec (s\<lparr> g_dma_cur_madr := a \<rparr>) = outside_mdec s"
  by (simp add: outside_mdec_def)

lemma mdec_write_step:
  fixes s :: "('d, 'z) dma"
  shows "same_but 0 s (dec_remaining 0 (mdec_dma_write_word w s)) \<and>
     as_remaining_words (mdec_async (dec_remaining 0 (mdec_dma_write_word w s)) 0) = as_remaining_words (mdec_async s 0) - 1"
proof -
  have "outside_mdec (mdec_dma_write_word w s) = outside_mdec s" by (simp add: mdec_dma_write_word_def)
  from outside_fields [OF this] show ?thesis
    by (simp add: same_but_def irq_view_def dec_remaining_def)
qed

lemma mdec_read_step:
  fixes s :: "('d, 'z) dma"
  assumes "ch < 2"
  shows "let (w, s1) = mdec_dma_read_word (s\<lparr> g_dma_cur_madr := ram_addr a \<rparr>);
             t = dec_remaining ch (dma_store E (ram_addr a) w s1)
     in same_but ch s t \<and> as_remaining_words (mdec_async t ch) = as_remaining_words (mdec_async s ch) - 1"
proof -
  obtain w s1 where r: "mdec_dma_read_word (s\<lparr> g_dma_cur_madr := ram_addr a \<rparr>) = (w, s1)" by fastforce
  have "outside_mdec s1 = outside_mdec s" using outside_read_word [of "s\<lparr> g_dma_cur_madr := ram_addr a \<rparr>"] r by simp
  from outside_fields [OF this] show ?thesis
    using r by (simp add: same_but_def irq_view_def dec_remaining_def)
qed

lemma mdec_move_step:
  assumes "mdec_move n E ch step (ram_addr a) moved s = (b, m, t)" and "ch < 2"
  shows "same_but ch s t \<and> (as_remaining_words (mdec_async s ch) = 0 \<longrightarrow> m = moved) \<and>
     (n < unat (as_remaining_words (mdec_async s ch)) \<longrightarrow> as_remaining_words (mdec_async t ch) \<noteq> 0)"
  using assms(1)
proof (induction n arbitrary: a moved s)
  case 0
  then show ?case by auto
next
  case (Suc n)
  let ?r = "as_remaining_words (mdec_async s ch)"
  obtain c where c: "next_addr step (ram_addr a) = ram_addr c" using next_addr_ram_addr by blast
  show ?case
  proof (cases "mdec_move (Suc n) E ch step (ram_addr a) moved s = (ram_addr a, moved, s)")
    case True
    with Suc.prems have "t = s \<and> m = moved" by simp
    then show ?thesis by auto
  next
    case False
    then have r: "?r \<noteq> 0" by auto
    have dec: "unat (?r - 1) = unat ?r - 1"
      using r by (simp add: unat_minus_one)
    obtain s1 where s1: "mdec_move n E ch step (ram_addr c) (moved + 1) s1 = (b, m, t)"
      "same_but ch s s1" "as_remaining_words (mdec_async s1 ch) = ?r - 1"
      using False Suc.prems mdec_write_step [where s = s] mdec_read_step [OF assms(2), where s = s and a = a and E = E] c assms(2)
      by (auto simp: Let_def split_beta split: if_splits)
    from Suc.IH [OF s1(1)] show ?thesis
      using same_but_trans [OF s1(2)] s1(3) r dec by auto
  qed
qed

lemma sat_add_le: "unat (sat_add a c) \<le> unat a + unat c"
proof (cases "c > UINT32_MAX - a")
  case True
  have "unat (0xFFFFFFFF - a) = 0xFFFFFFFF - unat a"
    using unsigned_less [of a, where ?'a = nat] by (subst unat_sub_le) (simp_all add: word_le_nat_alt)
  with True show ?thesis by (simp add: sat_add_def word_less_nat_alt)
next
  case False
  then show ?thesis by (simp add: sat_add_def unat_word_ariths(1))
qed

lemma estimate_bounds_budget:
  assumes "as_remaining_words a \<noteq> 0 \<longrightarrow> cycles < async_estimate a" and "as_remaining_words a \<noteq> 0"
  shows "unat (sat_add (as_cycles_accum a) cycles div k) < unat (as_remaining_words a)"
proof -
  have "unat (as_cycles_accum a) + unat cycles < unat (as_remaining_words a)"
    using assms by (auto simp: async_estimate_def word_less_nat_alt unat_sub_le word_le_nat_alt split: if_splits)
  moreover have "unat (sat_add (as_cycles_accum a) cycles div k) \<le> unat (sat_add (as_cycles_accum a) cycles)"
    by (simp add: unat_div)
  ultimately show ?thesis using sat_add_le [of "as_cycles_accum a" cycles] by linarith
qed

lemma same_but_updates [simp]:
  "same_but ch s (t\<lparr> g_dma_exec_depth := n \<rparr>) = same_but ch s t" "same_but ch s (t\<lparr> g_dma_cur_ch := i \<rparr>) = same_but ch s t"
  "same_but ch s (t\<lparr> g_dma_cur_bcr := b \<rparr>) = same_but ch s t" "same_but ch s (t\<lparr> g_dma_initiator_pc := b \<rparr>) = same_but ch s t"
  "same_but ch s (t\<lparr> mdec_async := (mdec_async t)(ch := a) \<rparr>) = same_but ch s t"
  "same_but 3 s (t\<lparr> cdrom_async := a \<rparr>) = same_but 3 s t"
  "same_but ch s (upd_channel k (madr_update f) t) = same_but ch s t"
proof -
  have "(\<lambda>j. chcr (((channels t)(k := madr_update f (channels t k))) j)) = (\<lambda>j. chcr (channels t j))" by auto
  then show "same_but ch s (upd_channel k (madr_update f) t) = same_but ch s t"
    by (simp add: same_but_def irq_view_def upd_channel_def del: fun_upd_apply)
qed (simp_all add: same_but_def irq_view_def)

lemma advance_words_quiet:
  assumes "ch < 2"
    and "as_remaining_words (mdec_async s ch) \<noteq> 0 \<longrightarrow>
      unat (as_cycles_accum (mdec_async s ch) div mdec_cycles_per_word ch) < unat (as_remaining_words (mdec_async s ch))"
  shows "same_but ch s (mdec_advance_words E ch s)"
proof -
  let ?n = "unat (as_cycles_accum (mdec_async s ch) div mdec_cycles_per_word ch)"
  define s1 where "s1 = (if ch = 1
                        then s\<lparr> g_dma_exec_depth := g_dma_exec_depth s + 1, g_dma_cur_ch := 1,
                                g_dma_cur_bcr := bcr (channels s 1),
                                g_dma_initiator_pc := s_dma_ch_initiator_pc s 1 \<rparr>
                        else s)"
  have s1: "same_but ch s s1" "mdec_async s1 = mdec_async s" by (simp_all add: s1_def)
  obtain b m t where m: "mdec_move ?n E ch (chan_step (chcr (channels s ch))) (ram_addr (madr (channels s ch))) 0 s1 = (b, m, t)"
    by (metis surj_pair)
  from mdec_move_step [OF m assms(1)] s1 assms(2)
  have t: "same_but ch s t" "m \<noteq> 0 \<longrightarrow> as_remaining_words (mdec_async t ch) \<noteq> 0"
    using same_but_trans by auto
  then show ?thesis
    unfolding mdec_advance_words_def s1_def [symmetric] Let_def m prod.case
    by (cases "m = 0") auto
qed

lemma advance_mdec_quiet:
  assumes "ch < 2" and "as_active (mdec_async s ch) \<noteq> 0 \<longrightarrow> (chcr (channels s ch) AND 1 = 0 \<longleftrightarrow> ch = 1)"
    and "as_active (mdec_async s ch) \<noteq> 0 \<and> as_remaining_words (mdec_async s ch) \<noteq> 0 \<longrightarrow> cycles < async_estimate (mdec_async s ch)"
  shows "same_but ch s (advance_mdec_channel E ch cycles s)"
proof -
  let ?a = "mdec_async s ch"
  let ?s = "s\<lparr> mdec_async := (mdec_async s)(ch := ?a\<lparr> as_cycles_accum := sat_add (as_cycles_accum ?a) cycles \<rparr>) \<rparr>"
  have "same_but ch s (mdec_advance_words E ch ?s)" if "as_active ?a \<noteq> 0"
  proof (rule same_but_trans)
    show "same_but ch ?s (mdec_advance_words E ch ?s)"
      using assms(1,3) that estimate_bounds_budget [of ?a cycles "mdec_cycles_per_word ch"]
      by (intro advance_words_quiet) auto
  qed simp
  with assms(1,2) show ?thesis by (auto simp: advance_mdec_channel_def Let_def less_2_cases_iff)
qed

lemma kbless_drops_dma: "same_but ch s (fold kbless_drop ks s)"
proof (induction ks arbitrary: s)
  case Nil
  then show ?case by simp
next
  case (Cons k ks)
  have "same_but ch s (kbless_drop k s)"
    by (simp add: same_but_def irq_view_def)
  with Cons.IH show ?case using same_but_trans by fastforce
qed

lemma cd_word_step:
  fixes s :: "('d, 'z) dma"
  shows "let t = cd_dec_remaining (dirty_ram_mark_executable_range a 4 (record_cdrom_dma_word w
                   (dma_store E (ram_addr a') w (s\<lparr> devs := d, g_dma_cur_madr := m \<rparr>))))
     in same_but 3 s t \<and> as_remaining_words (cdrom_async t) = as_remaining_words (cdrom_async s) - 1"
proof -
  have keep: "same_but 3 u (dirty_ram_mark_executable_range a 4 u) \<and>
      cdrom_async (dirty_ram_mark_executable_range a 4 u) = cdrom_async u" for u :: "('d, 'z) dma"
  proof -
    have c: "cdrom_async (fold kbless_drop ks v) = cdrom_async v" for ks and v :: "('d, 'z) dma"
      by (induction ks arbitrary: v) simp_all
    have "same_but 3 u v \<Longrightarrow> same_but 3 u (v\<lparr> dirty_ram_bitmap := b, g_dirty_ram_code_gen := n \<rparr>)" for v :: "('d, 'z) dma" and b n
      by (simp add: same_but_def irq_view_def)
    then show ?thesis
      using kbless_drops_dma [of 3 u] c [of _ u]
      by (simp add: dirty_ram_mark_executable_range_def psx_kernel_bless_note_range_def Let_def)
  qed
  let ?u = "record_cdrom_dma_word w (dma_store E (ram_addr a') w (s\<lparr> devs := d, g_dma_cur_madr := m \<rparr>))"
  have "same_but 3 s ?u" "cdrom_async ?u = cdrom_async s"
    by (simp_all add: record_cdrom_dma_word_def same_but_def irq_view_def)
  with keep [of ?u] show ?thesis
    using same_but_trans [of 3 s ?u "dirty_ram_mark_executable_range a 4 ?u"] by (simp add: cd_dec_remaining_def Let_def)
qed

lemma cdrom_move_step:
  assumes "cdrom_move n E step (ram_addr a) moved s = (b, m, t)"
  shows "same_but 3 s t \<and> (as_remaining_words (cdrom_async s) = 0 \<longrightarrow> m = moved) \<and>
     (n < unat (as_remaining_words (cdrom_async s)) \<longrightarrow> as_remaining_words (cdrom_async t) \<noteq> 0)"
  using assms
proof (induction n arbitrary: a moved s)
  case 0
  then show ?case by auto
next
  case (Suc n)
  let ?r = "as_remaining_words (cdrom_async s)"
  obtain c where c: "next_addr step (ram_addr a) = ram_addr c" using next_addr_ram_addr by blast
  show ?case
  proof (cases "?r = 0 \<or> \<not> cdrom_dma_ready E (devs s)")
    case True
    with Suc.prems have "t = s \<and> m = moved" by simp
    then show ?thesis by auto
  next
    case False
    then have dec: "unat (?r - 1) = unat ?r - 1" by (simp add: unat_minus_one)
    obtain s1 where s1: "cdrom_move n E step (ram_addr c) (moved + 1) s1 = (b, m, t)"
      "same_but 3 s s1" "as_remaining_words (cdrom_async s1) = ?r - 1"
      using False Suc.prems cd_word_step [where s = s and E = E and a' = a] c
      by (auto simp: Let_def split_beta split: if_splits)
    from Suc.IH [OF s1(1)] show ?thesis
      using same_but_trans [OF s1(2)] s1(3) False dec by auto
  qed
qed

lemma advance_cdrom_quiet:
  assumes "as_active (cdrom_async s) \<noteq> 0 \<and> as_remaining_words (cdrom_async s) \<noteq> 0 \<longrightarrow> cycles < async_estimate (cdrom_async s)"
  shows "same_but 3 s (advance_cdrom_channel E cycles s)"
proof (cases "dma_cdrom_transfer_active s \<and> cdrom_dma_ready E (devs s)")
  case True
  let ?a = "cdrom_async s"
  let ?acc = "sat_add (as_cycles_accum ?a) cycles"
  let ?s = "s\<lparr> cdrom_async := ?a\<lparr> as_cycles_accum := ?acc \<rparr>, g_dma_cur_ch := 3, g_dma_cur_bcr := bcr (channels s 3),
               g_dma_initiator_pc := s_dma_ch_initiator_pc s 3 \<rparr>"
  obtain b m t where m: "cdrom_move (unat (?acc div 1)) E (chan_step (chcr (channels s 3))) (ram_addr (madr (channels s 3))) 0 ?s = (b, m, t)"
    by (metis surj_pair)
  have "as_active ?a \<noteq> 0" using True by (simp add: dma_cdrom_transfer_active_def)
  then have "as_remaining_words ?a \<noteq> 0 \<longrightarrow> unat (?acc div 1) < unat (as_remaining_words ?a)"
    using assms estimate_bounds_budget [of ?a cycles 1] by blast
  with cdrom_move_step [OF m] have t: "same_but 3 ?s t" "m \<noteq> 0 \<longrightarrow> as_remaining_words (cdrom_async t) \<noteq> 0"
    by auto
  then have "same_but 3 s t" using same_but_trans [of 3 s ?s t] by simp
  then have "same_but 3 s (cdrom_advance_words E cycles s)"
    unfolding cdrom_advance_words_def Let_def using m t(2) by simp
  with True show ?thesis by (auto simp: advance_cdrom_channel_def dma_cdrom_transfer_active_def)
next
  case False
  then show ?thesis by (auto simp: advance_cdrom_channel_def dma_cdrom_transfer_active_def)
qed

lemma fold_delayed_quiet:
  assumes "\<forall>ch\<in>set chs. dc_active (delayed_complete s ch) \<noteq> 0 \<longrightarrow> cycles < dc_cycles_remaining (delayed_complete s ch)"
    and "distinct chs"
  shows "irq_view (fold (advance_delayed_complete cycles) chs s) = irq_view s"
  using assms
proof (induction chs arbitrary: s)
  case Nil
  then show ?case by simp
next
  case (Cons ch chs)
  let ?t = "advance_delayed_complete cycles ch s"
  have t: "irq_view ?t = irq_view s" "\<forall>k. k \<noteq> ch \<longrightarrow> delayed_complete ?t k = delayed_complete s k"
    using Cons.prems(1) by (simp_all add: advance_delayed_complete_def irq_view_def Let_def)
  moreover have "\<forall>k\<in>set chs. dc_active (delayed_complete ?t k) \<noteq> 0 \<longrightarrow> cycles < dc_cycles_remaining (delayed_complete ?t k)"
    using Cons.prems t(2) by (metis distinct.simps(2) list.set_intros(2))
  ultimately show ?case using Cons.IH [of ?t] Cons.prems(2) by simp
qed

lemma fold_min_bound:
  assumes "(c :: u32) < fold (\<lambda>x best. if P x \<and> f x < best then f x else best) xs best"
  shows "c < best \<and> (\<forall>x\<in>set xs. P x \<longrightarrow> c < f x)"
  using assms
proof (induction xs arbitrary: best)
  case Nil
  then show ?case by simp
next
  case (Cons x xs)
  from Cons.IH [of "if P x \<and> f x < best then f x else best"] Cons.prems
  have "c < (if P x \<and> f x < best then f x else best)" "\<forall>y\<in>set xs. P y \<longrightarrow> c < f y" by simp_all
  then show ?case by (cases "P x \<and> f x < best") auto
qed

lemma budget_bounds:
  assumes "cycles < dma_cycles_to_irq imask s" and "bit imask 3"
  shows "\<forall>(ch, a)\<in>set (async_channels s). as_active a \<noteq> 0 \<and> as_remaining_words a \<noteq> 0 \<longrightarrow> cycles < async_estimate a"
    and "\<forall>ch<7. dc_active (delayed_complete s ch) \<noteq> 0 \<longrightarrow> cycles < dc_cycles_remaining (delayed_complete s ch)"
proof -
  let ?P = "\<lambda>ch. dc_active (delayed_complete s ch) \<noteq> 0"
  let ?Q = "\<lambda>x. as_active (snd x) \<noteq> 0 \<and> as_remaining_words (snd x) \<noteq> 0"
  have m: "imask AND push_bit 3 1 \<noteq> 0" using assms(2) and_power_two_zero_iff [of imask 3] by simp
  have b: "cycles < fold (\<lambda>ch best. if ?P ch \<and> dc_cycles_remaining (delayed_complete s ch) < best
      then dc_cycles_remaining (delayed_complete s ch) else best) [0 ..< 7] (async_best (\<lambda>_. True) s UINT32_MAX)"
    using assms(1) unfolding dma_cycles_to_irq_def delayed_best_def by (simp only: m if_False HOL.simp_thms)
  show "\<forall>ch<7. ?P ch \<longrightarrow> cycles < dc_cycles_remaining (delayed_complete s ch)"
    using fold_min_bound [OF b] by auto
  have "(\<lambda>(ch :: nat, a) best. if as_active a = 0 \<or> as_remaining_words a = 0 then best
      else if async_estimate a < best then async_estimate a else best) =
      (\<lambda>x best. if ?Q x \<and> async_estimate (snd x) < best then async_estimate (snd x) else best)"
    by (auto simp: fun_eq_iff)
  then have "cycles < fold (\<lambda>x best. if ?Q x \<and> async_estimate (snd x) < best then async_estimate (snd x) else best)
      (async_channels s) UINT32_MAX"
    using fold_min_bound [OF b] by (simp add: async_best_def)
  from fold_min_bound [OF this]
  show "\<forall>(ch, a)\<in>set (async_channels s). as_active a \<noteq> 0 \<and> as_remaining_words a \<noteq> 0 \<longrightarrow> cycles < async_estimate a"
    by auto
qed

text \<open>C33. The cycle budget handed to the scheduler is sound: while fewer cycles pass than
  \<open>dma_cycles_to_irq\<close> announced, no channel completes, DICR is unchanged and no interrupt line
  rises, provided the active MDEC transfers run in the direction of their channel (0 from RAM, 1
  to RAM).\<close>

theorem dma_budget_is_safe:
  assumes "cycles < dma_cycles_to_irq imask s" and "bit imask 3"
    and "as_active (mdec_async s 0) \<noteq> 0 \<longrightarrow> chcr (channels s 0) AND 1 \<noteq> 0"
    and "as_active (mdec_async s 1) \<noteq> 0 \<longrightarrow> chcr (channels s 1) AND 1 = 0"
  shows "let t = dma_advance E cycles s
     in i_stat t = i_stat s \<and> dicr t = dicr s \<and> (\<forall>ch. chcr (channels t ch) = chcr (channels s ch))"
proof (cases "cycles = 0")
  case True
  then show ?thesis by (simp add: dma_advance_def)
next
  case False
  let ?s1 = "s\<lparr> g_dma_exec_depth := g_dma_exec_depth s + 1 \<rparr>"
  let ?s2 = "advance_mdec_channel E 0 cycles ?s1"
  let ?s3 = "advance_mdec_channel E 1 cycles ?s2"
  let ?s4 = "advance_cdrom_channel E cycles ?s3"
  note est = budget_bounds(1) [OF assms(1,2), unfolded async_channels_def, simplified]
  have 2: "same_but 0 ?s1 ?s2" using assms(3) est by (intro advance_mdec_quiet) auto
  then have v2: "mdec_async ?s2 1 = mdec_async s 1" "chcr (channels ?s2 1) = chcr (channels s 1)"
    by (simp_all add: same_but_def irq_view_def fun_eq_iff)
  have 3: "same_but 1 ?s2 ?s3" using assms(4) est v2 by (intro advance_mdec_quiet) auto
  then have "cdrom_async ?s3 = cdrom_async s" using 2 by (simp add: same_but_def)
  then have 4: "same_but 3 ?s3 ?s4" using est by (intro advance_cdrom_quiet) auto
  have "delayed_complete ?s4 = delayed_complete s" "irq_view ?s4 = irq_view s"
    using 2 3 4 by (simp_all add: same_but_def irq_view_def)
  then have "irq_view (fold (advance_delayed_complete cycles) [0 ..< 7] ?s4) = irq_view s"
    using budget_bounds(2) [OF assms(1,2)] by (subst fold_delayed_quiet) auto
  then show ?thesis
    using False by (simp add: dma_advance_def Let_def irq_view_def fun_eq_iff)
qed

section \<open>Error branches\<close>

lemma sync_mode_kick [simp]: "chan_sync_mode (c AND NOT (push_bit 28 1)) = chan_sync_mode c"
proof (rule bit_word_eqI)
  fix n assume "n < LENGTH(32)"
  have "drop_bit 9 (c AND NOT (push_bit 28 1)) AND mask 2 = drop_bit 9 c AND mask 2"
    by (rule bit_word_eqI) (unfold bit_and_iff bit_drop_bit_eq bit_not_iff bit_push_one bit_mask_iff o_apply, auto)
  then show "bit (chan_sync_mode (c AND NOT (push_bit 28 1))) n = bit (chan_sync_mode c) n"
    by (simp add: chan_sync_mode_def mask_eq_exp_minus_1)
qed

lemma note_kick_frame [simp]:
  "devs (note_kick E ch s) = devs s" "dpcr (note_kick E ch s) = dpcr s" "ram (note_kick E ch s) = ram s"
  "channels (note_kick E ch s) = (channels s)(ch := chcr_update (\<lambda>c. c AND NOT (push_bit 28 1)) (channels s ch))"
  by (simp_all add: note_kick_def trace_dma_def Let_def)

lemma word_count_kick [simp]: "transfer_word_count E ch (note_kick E ch s) = transfer_word_count E ch s"
  by (simp add: transfer_word_count_def Let_def del: push_bit_of_1)

lemma cancel_frame [simp]: "channels (cancel_async_transfer E ch s) = channels s"
  by (simp add: cancel_async_transfer_def finish_cdrom_dma_capture_def Let_def)

text \<open>C34. A CHCR write stops the machine in exactly two cases, both only when it leaves the channel
  busy and enabled in DPCR: the programmed length exceeds 2 MiB (linked lists excepted), or the
  channel is PIO, which has no device. Every other write returns.\<close>

theorem chcr_write_faults:
  "write_chcr E ch val msk s = Inl f \<longleftrightarrow>
     (let s1 = upd_channel ch (chcr_update (masked msk val)) s;
          c = chcr (channels s1 ch);
          words = transfer_word_count E ch s1
      in bit msk 24 \<and> chan_busy c \<and> channel_enabled ch s \<and>
         (if \<not> (ch = 2 \<and> chan_sync_mode c = 2) \<and> words > DMA_MAX_TRANSFER_WORDS then f = Insane_length ch words
          else ch \<notin> {0, 1, 2, 3, 4, 6} \<and> f = Not_implemented ch c))"
proof -
  let ?s1 = "upd_channel ch (chcr_update (masked msk val)) s"
  let ?c = "chcr (channels ?s1 ch)"
  have b: "msk AND push_bit 24 1 \<noteq> 0 \<longleftrightarrow> bit msk 24" using and_power_two_zero_iff [of msk 24] by simp
  have "write_chcr E ch val msk s = Inl f \<longleftrightarrow> bit msk 24 \<and> chan_busy ?c \<and> try_execute E ch ?s1 = Inl f"
    unfolding write_chcr_def Let_def b by simp
  also have "try_execute E ch ?s1 = Inl f \<longleftrightarrow> chan_busy ?c \<and> channel_enabled ch s \<and>
      (case validate_transfer_length E ch (note_kick E ch ?s1) of Some g \<Rightarrow> f = g
       | None \<Rightarrow> execute_channel E ch ?c (enter_exec ch (note_kick E ch ?s1)) = Inl f)"
    by (auto simp: try_execute_def channel_enabled_def Let_def map_sum_def split: option.splits sum.splits)
  also have "validate_transfer_length E ch (note_kick E ch ?s1) =
      (if \<not> (ch = 2 \<and> chan_sync_mode ?c = 2) \<and> transfer_word_count E ch ?s1 > DMA_MAX_TRANSFER_WORDS
       then Some (Insane_length ch (transfer_word_count E ch ?s1)) else None)"
    by (auto simp: validate_transfer_length_def Let_def simp del: push_bit_of_1)
  also have "execute_channel E ch ?c t = Inl f \<longleftrightarrow> ch \<notin> {0, 1, 2, 3, 4, 6} \<and> f = Not_implemented ch ?c" for t
    by (auto simp: execute_channel_def Let_def split_beta)
  finally show ?thesis by (auto simp: Let_def)
qed

section \<open>The transfer log and the trace ring\<close>

interpretation cd_log: ring_log
  65536
  "\<lambda>s. cd_dma_log_head s < CD_DMA_LOG_CAP"
  "\<lambda>s :: ('d, 'z) dma. unat (cd_dma_log_head s)"
  cd_dma_log
  "\<lambda>e. cd_dma_log_push (ce_lba e) (ce_dest e) (ce_size e)"
  "\<lambda>e s. e"
proof (unfold_locales, goal_cases)
  case (4 s x)
  then have "unat (cd_dma_log_head s + 1) = Suc (unat (cd_dma_log_head s))"
    by (simp add: word_less_nat_alt unat_word_ariths(1))
  then show ?case by (simp add: cd_dma_log_push_def unat_mod)
next
  case (5 s x i)
  then show ?case by (simp add: cd_dma_log_push_def unat_mod word_less_nat_alt)
qed (auto simp: cd_dma_log_push_def word_less_nat_alt unat_mod)

interpretation dma_trace_log: ring_log
  16384
  "\<lambda>s. True"
  "\<lambda>s :: ('d, 'z) dma. unat (dma_trace_seq s) mod 16384"
  dma_trace
  push_trace
  "\<lambda>e s. e"
proof (unfold_locales, goal_cases)
  case (4 s x)
  have "unat (dma_trace_seq s + 1) mod 16384 = Suc (unat (dma_trace_seq s)) mod 16384"
  proof -
    have "(2 :: nat) ^ 64 = 16384 * 2 ^ 50" by simp
    then have "m mod 2 ^ 64 mod 16384 = m mod (16384 :: nat)" for m by (simp only: mod_mult_right_eq) (metis dvd_triv_left mod_mod_cancel)
    then show ?thesis by (simp add: unat_word_ariths(1))
  qed
  then show ?case by (simp add: push_trace_def mod_simps)
qed (auto simp: push_trace_def)

text \<open>The CD transfer log answers every query about the last 65536 transfers, and only those:
  after any run of recorded transfers from an empty log, the entry of index \<open>i\<close> is the transfer
  number \<open>i\<close>, and an index that is not yet recorded or already overwritten is refused.\<close>

lemma cd_log_get_after_push:
  assumes "cd_dma_log_head s = 0" and "cd_dma_log_total s = 0" and "length es < 2 ^ 32"
  shows "cd_dma_log_get_entry i (fold (\<lambda>e. cd_dma_log_push (ce_lba e) (ce_dest e) (ce_size e)) es s) =
     (if length es \<le> unat i + 65536 \<and> unat i < length es then Some (es ! unat i) else None)"
proof -
  let ?t = "fold (\<lambda>e. cd_dma_log_push (ce_lba e) (ce_dest e) (ce_size e)) es s"
  have tot: "cd_dma_log_total (fold (\<lambda>e. cd_dma_log_push (ce_lba e) (ce_dest e) (ce_size e)) xs u) =
      cd_dma_log_total u + of_nat (length xs)" for xs and u :: "('a, 'b) dma"
    by (induction xs arbitrary: u) (simp_all add: cd_dma_log_push_def)
  have n: "unat (cd_dma_log_total ?t) = length es"
    using assms(2,3) by (simp add: tot unat_word_of_nat)
  have old: "unat (if cd_dma_log_total ?t > CD_DMA_LOG_CAP then cd_dma_log_total ?t - CD_DMA_LOG_CAP else 0) = length es - 65536"
    using n by (simp add: word_less_nat_alt unat_sub_le word_le_nat_alt)
  have "cd_dma_log ?t (unat (i mod CD_DMA_LOG_CAP)) = es ! unat i" if "unat i < length es" "length es \<le> unat i + 65536"
    using cd_log.entry_retained [of s "unat i" es] that assms(1) by (simp add: unat_mod)
  then show ?thesis
    unfolding cd_dma_log_get_entry_def Let_def word_less_nat_alt [of i] word_le_nat_alt [of _ i] old n
    by auto
qed

section \<open>An example machine\<close>

text \<open>A machine whose GPU collects the words written to GP0, with channel 6 programmed to clear a
  table of four entries at 0x1000C and channel 2 pointing at its top.\<close>

definition log_env :: "(u32 list, unit) env" where
  "log_env = \<lparr> io = no_mmio, gpu_write_gp0 = (\<lambda>w d. d @ [w]), gpu_set_gp0_source = (\<lambda>a d. d),
     gpu_read_gpuread = (\<lambda>d. (0, d)), gpu_ws_begin_linked_list = (\<lambda>d. d), spu_dma_write = (\<lambda>w d. d),
     audio_trace_event = (\<lambda>k a b d. d), cdrom_dma_read = (\<lambda>d. (0, d)), cdrom_dma_ready = (\<lambda>d. False),
     cdrom_dma_sector_word_count = (\<lambda>d. 512), cdrom_get_setloc_lba = (\<lambda>d. 0),
     cdrom_debug_snapshot = (\<lambda>d. \<lparr> cs_last_sector_lba = 0, cs_sector_size = 0, cs_last_sector_size = 0,
       cs_sector_read_pos = 0, cs_last_sector_mode = 0, cs_mode_reg = 0, cs_sector_available = 0 \<rparr>),
     overlay_capture_on_dma = (\<lambda>a n m d. d) \<rparr>"

definition dma_zero :: "(u32 list, unit) dma" where
  "dma_zero = mem_boot (mdec_st_ext 0 0 0 (\<lambda>_. 0) 0 (\<lambda>_. 0) 0 0 0 (\<lambda>_. 0) (\<lambda>_. 0) (\<lambda>_. 0)
     0 0 0 0 0 0 0 0 0 0 0 0 0 0 0 0 0 (\<lambda>_. mdec_event_zero) 0 0 0 0 (\<lambda>_. True)
     (dma_st.fields (\<lambda>_. no_channel) (\<lambda>_. zero_async) zero_async (\<lambda>_. \<lparr> ce_lba = 0, ce_dest = 0, ce_size = 0 \<rparr>) 0 0
        (\<lambda>_. 0) (\<lambda>_. no_delayed) 0 0 (\<lambda>_. zero_trace_entry) 0 (\<lambda>_. zero_history_entry) 0 zero_history_entry 0 0 0 []))"

definition dma_example :: "(u32 list, unit) dma" where
  "dma_example = (dma_init dma_zero)
     \<lparr> channels := (\<lambda>_. no_channel)(2 := \<lparr> madr = 0x1000C, bcr = 0, chcr = 0x01000401 \<rparr>,
                                    6 := \<lparr> madr = 0x1000C, bcr = 4, chcr = 0x11000002 \<rparr>) \<rparr>"

lemma dma_zero_simps [simp]:
  "ram dma_zero = (\<lambda>_. 0)" "fntrace_game_started dma_zero = False" "sr_ref dma_zero = None" "devs dma_zero = []"
  "cd_dma_log_head dma_zero = 0" "cd_dma_log_total dma_zero = 0" "i_stat dma_zero = 0"
  by (simp_all add: dma_zero_def) (simp_all add: mem_boot_def sys_boot_def dma_st.defs)

lemma dma_example_simps [simp]:
  "ram dma_example = (\<lambda>_. 0)" "stores_pass dma_example" "devs dma_example = []" "dicr dma_example = 0"
  "cd_dma_log_head dma_example = 0" "cd_dma_log_total dma_example = 0"
  "mdec_async dma_example = (\<lambda>_. zero_async)" "cdrom_async dma_example = zero_async"
  "delayed_complete dma_example = (\<lambda>_. no_delayed)"
  "channels dma_example = (\<lambda>_. no_channel)(2 := \<lparr> madr = 0x1000C, bcr = 0, chcr = 0x01000401 \<rparr>,
                                    6 := \<lparr> madr = 0x1000C, bcr = 4, chcr = 0x11000002 \<rparr>)"
  by (simp_all add: dma_example_def dma_init_def dma_debug_clear_cdrom_history_def dma_debug_clear_trace_def
      stores_pass_def store_isolated_def)

lemma completion_effects_example:
  "let t = complete_transfer 6 dma_example
   in \<not> chan_busy (chcr (channels t 6)) \<and> madr (channels t 6) = 0x1000C \<and> channels t 2 = channels dma_example 2"
  using completion_effects [of 6 dma_example] by (simp add: Let_def)

theorem gpu_linked_list_transfer_witness:
  "let s = dma_example\<lparr> ram := put_word (put_word (\<lambda>_. 0) 0x1000C 0x01FFFFFF) 0x10010 0x02000000 \<rparr>;
       (words, t) = execute_ch2_gpu_list log_env s
   in devs t = [0x02000000] \<and> words = 2 \<and> madr (channels t 2) = 0x00FFFFFF"
proof -
  let ?s = "dma_example\<lparr> ram := put_word (put_word (\<lambda>_. 0) 0x1000C 0x01FFFFFF) 0x10010 0x02000000 \<rparr>"
  have "list_nodes (Suc n) (ram ?s) (ram_addr (madr (channels ?s 2))) = Some [[(0x10010, 0x02000000)]]" for n
    by (simp add: ram_addr_def word_at_def put_word_def Let_def)
  from this [of "MAX_NODES - 1"]
  have "list_nodes MAX_NODES (ram ?s) (ram_addr (madr (channels ?s 2))) = Some [[(0x10010, 0x02000000)]]"
    by (simp del: list_nodes.simps dma_example_simps)
  from gpu_linked_list_transfer [OF this, of log_env] show ?thesis
    by (simp add: log_env_def gp0_word_def Let_def split_beta del: ll_walk.simps)
qed

lemma cleared_ordering_table_is_empty_example:
  "let t = execute_ch6_otc log_env dma_example; (words, u) = execute_ch2_gpu_list log_env t
   in words = 4 \<and> devs u = []"
  using cleared_ordering_table_is_empty [of dma_example 4 log_env]
  by (simp add: otc_entries_def ram_addr_def log_env_def Let_def split_beta)

lemma delayed_completion_exact_example:
  "let u = fold (\<lambda>c. advance_delayed_complete c 4) [20, 20] (schedule_delayed_complete 4 2 48 dma_example)
   in i_stat u = i_stat dma_example \<and> unat (dc_cycles_remaining (delayed_complete u 4)) = 56"
  using delayed_completion_exact [of 2 48 4 "[20, 20]" dma_example] by (simp add: Let_def)

lemma cd_log_get_after_push_example:
  "cd_dma_log_get_entry 1 (fold (\<lambda>e. cd_dma_log_push (ce_lba e) (ce_dest e) (ce_size e))
     [\<lparr> ce_lba = 16, ce_dest = 0x10000, ce_size = 2048 \<rparr>, \<lparr> ce_lba = 17, ce_dest = 0x10800, ce_size = 2048 \<rparr>] dma_example)
   = Some \<lparr> ce_lba = 17, ce_dest = 0x10800, ce_size = 2048 \<rparr>"
  using cd_log_get_after_push [of dma_example
      "[\<lparr> ce_lba = 16, ce_dest = 0x10000, ce_size = 2048 \<rparr>, \<lparr> ce_lba = 17, ce_dest = 0x10800, ce_size = 2048 \<rparr>]" 1]
  by (simp add: Let_def)

text \<open>A machine with a delayed SPU completion 40 cycles away, and an MDEC-in transfer of ten words
  that runs in the right direction.\<close>

definition dma_running :: "(u32 list, unit) dma" where
  "dma_running = dma_example
     \<lparr> channels := (channels dma_example)(0 := \<lparr> madr = 0x2000, bcr = 10, chcr = 0x01000001 \<rparr>), dpcr := 8,
       dicr := 0x00810000,
       mdec_async := (\<lambda>_. zero_async)(0 := zero_async\<lparr> as_active := 1, as_total_words := 10, as_remaining_words := 10 \<rparr>),
       delayed_complete := (\<lambda>_. no_delayed)(4 := \<lparr> dc_active = 1, dc_total_words = 1, dc_cycles_remaining = 40 \<rparr>) \<rparr>"

lemma dma_running_budget [simp]: "dma_cycles_to_irq 8 dma_running = 10"
  by (simp add: dma_cycles_to_irq_def delayed_best_def async_best_def async_channels_def async_estimate_def dma_running_def
      zero_async_def no_delayed_def upt_rec)

theorem dma_budget_is_safe_witness:
  "let t = dma_advance log_env 9 dma_running
   in i_stat t = i_stat dma_running \<and> dicr t = dicr dma_running \<and>
      (\<forall>ch. chcr (channels t ch) = chcr (channels dma_running ch))"
proof (rule dma_budget_is_safe)
  show "9 < dma_cycles_to_irq 8 dma_running" by simp
qed (simp_all add: dma_running_def zero_async_def)

text \<open>Without the direction condition the announced budget is not a lower bound: an MDEC-in
  transfer whose direction bit says "to RAM" is ended by the next advance, and raises the
  interrupt after one cycle although ten were announced.\<close>

lemma budget_unsound_for_wrong_direction:
  "let s = upd_channel 0 (chcr_update (\<lambda>_. 0x01000000)) dma_running
   in dma_cycles_to_irq 8 s = 10 \<and> \<not> bit (i_stat s) 3 \<and> bit (dicr (advance_mdec_channel log_env 0 1 s)) 24 \<and>
      bit (i_stat (advance_mdec_channel log_env 0 1 s)) 3"
proof -
  let ?s = "upd_channel 0 (chcr_update (\<lambda>_. 0x01000000)) dma_running"
  have f: "advance_mdec_channel log_env 0 1 ?s = complete_transfer 0 (cancel_async_transfer log_env 0 (mdec_debug_dma_in_end 10 ?s))"
    by (simp add: advance_mdec_channel_def finish_async_mdec_transfer_def mdec_dma_end_note_def dma_running_def
        upd_channel_def chan_busy_def channel_enabled_def zero_async_def)
  let ?t = "cancel_async_transfer log_env 0 (mdec_debug_dma_in_end 10 ?s)"
  have t: "dicr ?t = 0x00810000" "i_stat ?t = 0"
    by (simp_all add: cancel_async_transfer_def mdec_debug_dma_in_end_def trace_event_def dma_running_def Let_def
        upd_channel_def dma_example_def dma_init_def dma_debug_clear_cdrom_history_def dma_debug_clear_trace_def)
  have armed: "channel_irq_flag_armed 0 ?t" by (simp add: channel_irq_flag_armed_def t)
  have "i_stat ?s = 0"
    by (simp add: dma_running_def dma_example_def dma_init_def dma_debug_clear_cdrom_history_def dma_debug_clear_trace_def)
  moreover have "dma_cycles_to_irq 8 ?s = dma_cycles_to_irq 8 dma_running"
    by (simp add: dma_cycles_to_irq_def delayed_best_def async_best_def async_channels_def cong: if_cong)
  ultimately show ?thesis
    unfolding Let_def f
    by (simp add: complete_transfer_i_stat armed t dicr_master_flag_def)
qed

end
