(* ===== verification/Cpu_State.thy ===== *)
theory Cpu_State
  imports Irq_Events
begin

text \<open>
  The R3000A register state of include/cpu_state.h with the synchronous exception helpers every
  back end shares, the call contract that guards generated continuations, and the ledger of wild
  returns (runtime/src/traps.c) that the contract feeds.

  The memory access function pointers of \<open>CPUState\<close> are a parameter of the interpreter, and the
  helper table of the JIT is not modelled.
\<close>

record cpu =
  gpr :: "nat \<Rightarrow> u32"
  cpu_pc :: u32
  cpu_hi :: u32
  cpu_lo :: u32
  cop0 :: "nat \<Rightarrow> u32"
  gte_data :: "nat \<Rightarrow> u32"
  gte_ctrl :: "nat \<Rightarrow> u32"
  muldiv_ts_done :: u64
  gte_ts_done :: u64
  read_absorb :: "nat \<Rightarrow> u8"
  read_absorb_which :: u8
  read_fudge :: u8
  ld_which_t :: u8
  ld_absorb :: u32

record bail_slot =
  bs_site_ra :: u32
  bs_wild_pc :: u32
  bs_site_sp :: u32
  bs_guest_sp :: u32
  bs_count :: u64
  bs_first_frame :: u32
  bs_used :: bool

record bail_st = sys +
  g_psx_call_bail :: bool
  g_psx_bail_first :: u64
  g_psx_bail_resolved :: u64
  s_bail_ledger :: "nat \<Rightarrow> bail_slot"
  s_bail_unique :: u32
  g_bail_first_site_ra :: u32
  g_bail_first_wild_pc :: u32
  g_bail_first_site_sp :: u32
  g_bail_first_guest_sp :: u32
  g_bail_first_frame :: u32
  g_bail_first_in_exc :: u32
  s_bail_first_latched :: bool

abbreviation (input) BAIL_LEDGER_SLOTS :: nat where "BAIL_LEDGER_SLOTS \<equiv> 1024"

section \<open>Synchronous exceptions\<close>

definition set_cop0 :: "nat \<Rightarrow> u32 \<Rightarrow> cpu \<Rightarrow> cpu" where
  "set_cop0 r v c = c\<lparr> cop0 := (cop0 c)(r := v) \<rparr>"

definition exception_vector :: "u32 \<Rightarrow> u32" where
  "exception_vector sr = (if sr AND 0x00400000 \<noteq> 0 then 0xBFC00180 else 0x80000080)"

definition psx_sync_exception :: "u32 \<Rightarrow> u32 \<Rightarrow> u32 \<Rightarrow> cpu \<Rightarrow> cpu" where
  "psx_sync_exception code ce pc c =
     (let sr = cop0 c 12;
          c1 = set_cop0 12 ((sr AND NOT 0x3F) OR (push_bit 2 sr AND 0x3F)) c;
          c2 = set_cop0 13 ((cop0 c1 13 AND 0x0000FF00) OR push_bit 2 (code AND 0x1F) OR push_bit 28 (ce AND 3)) c1;
          c3 = set_cop0 14 pc c2
      in c3\<lparr> cpu_pc := exception_vector sr \<rparr>)"

definition psx_cop_unusable :: "u32 \<Rightarrow> u32 \<Rightarrow> cpu \<Rightarrow> cpu" where
  "psx_cop_unusable cop pc = psx_sync_exception 11 cop pc"

definition psx_reserved_instruction_exception :: "u32 \<Rightarrow> cpu \<Rightarrow> cpu" where
  "psx_reserved_instruction_exception pc = psx_sync_exception 10 0 pc"

definition psx_address_error_exception :: "u32 \<Rightarrow> u32 \<Rightarrow> bool \<Rightarrow> cpu \<Rightarrow> cpu" where
  "psx_address_error_exception addr pc is_store c =
     psx_sync_exception (if is_store then 5 else 4) 0 pc (set_cop0 8 addr c)"

section \<open>The wild-return ledger\<close>

definition bail_start :: "u32 \<Rightarrow> u32 \<Rightarrow> nat" where
  "bail_start site_ra wild_pc =
     unat ((site_ra * 2654435761 XOR wild_pc * 40503) AND 1023)"

definition bail_upd :: "nat \<Rightarrow> (bail_slot \<Rightarrow> bail_slot) \<Rightarrow> 'a bail_st_scheme \<Rightarrow> 'a bail_st_scheme" where
  "bail_upd i f s = s\<lparr> s_bail_ledger := (s_bail_ledger s)(i := f (s_bail_ledger s i)) \<rparr>"

definition bail_latch :: "u32 \<Rightarrow> u32 \<Rightarrow> u32 \<Rightarrow> u32 \<Rightarrow> 'a bail_st_scheme \<Rightarrow> 'a bail_st_scheme" where
  "bail_latch site_ra site_sp wild_pc guest_sp s =
     (if s_bail_first_latched s then s
      else s\<lparr> s_bail_first_latched := True, g_bail_first_site_ra := site_ra, g_bail_first_wild_pc := wild_pc,
              g_bail_first_site_sp := site_sp, g_bail_first_guest_sp := guest_sp,
              g_bail_first_frame := ucast (s_frame_count s), g_bail_first_in_exc := in_exception s \<rparr>)"

text \<open>The probe loop of \<open>psx_bail_record\<close>, from probe \<open>i\<close> on with \<open>n\<close> probes left.\<close>

fun bail_probe :: "nat \<Rightarrow> nat \<Rightarrow> nat \<Rightarrow> u32 \<Rightarrow> u32 \<Rightarrow> u32 \<Rightarrow> u32 \<Rightarrow> 'a bail_st_scheme \<Rightarrow> 'a bail_st_scheme" where
  "bail_probe 0 i start site_ra site_sp wild_pc guest_sp s =
     bail_upd start (\<lambda>e. e\<lparr> bs_count := bs_count e + 1 \<rparr>) s"
| "bail_probe (Suc n) i start site_ra site_sp wild_pc guest_sp s =
     (let j = (start + i) mod BAIL_LEDGER_SLOTS; e = s_bail_ledger s j
      in if bs_used e \<and> bs_site_ra e = site_ra \<and> bs_wild_pc e = wild_pc
         then bail_upd j (\<lambda>e. e\<lparr> bs_count := bs_count e + 1 \<rparr>) s
         else if \<not> bs_used e
         then (bail_upd j (\<lambda>_. \<lparr> bs_site_ra = site_ra, bs_wild_pc = wild_pc, bs_site_sp = site_sp, bs_guest_sp = guest_sp,
                                bs_count = 1, bs_first_frame = ucast (s_frame_count s), bs_used = True \<rparr>) s)
                \<lparr> s_bail_unique := s_bail_unique s + 1 \<rparr>
         else bail_probe n (Suc i) start site_ra site_sp wild_pc guest_sp s)"

definition psx_bail_record :: "u32 \<Rightarrow> u32 \<Rightarrow> u32 \<Rightarrow> u32 \<Rightarrow> 'a bail_st_scheme \<Rightarrow> 'a bail_st_scheme" where
  "psx_bail_record site_ra site_sp wild_pc guest_sp s =
     bail_probe 16 0 (bail_start site_ra wild_pc) site_ra site_sp wild_pc guest_sp
       (bail_latch site_ra site_sp wild_pc guest_sp s)"

text \<open>\<open>psx_bail_ledger_top\<close>: the used slot with the highest count, the first one on ties.\<close>

definition psx_bail_ledger_top :: "'a bail_st_scheme \<Rightarrow> bail_slot option" where
  "psx_bail_ledger_top s =
     snd (fold (\<lambda>i (best, r). let e = s_bail_ledger s i
                             in if bs_used e \<and> bs_count e > best then (bs_count e, Some e) else (best, r))
       [0 ..< BAIL_LEDGER_SLOTS] (0, None))"

section \<open>The call contract\<close>

definition same_code :: "u32 \<Rightarrow> u32 \<Rightarrow> bool" where
  "same_code a b \<longleftrightarrow> (a XOR b) AND 0x1FFFFFFF = 0"

definition psx_call_contract ::
  "u32 \<Rightarrow> u32 \<Rightarrow> cpu \<times> 'a bail_st_scheme \<Rightarrow> bool \<times> cpu \<times> 'a bail_st_scheme" where
  "psx_call_contract site_ra site_sp = (\<lambda>(c, s).
     if g_psx_call_bail s
     then (if same_code (cpu_pc c) site_ra \<and> gpr c 29 = site_sp
           then (False, c\<lparr> cpu_pc := 0 \<rparr>,
                 s\<lparr> g_psx_call_bail := False, g_psx_bail_resolved := g_psx_bail_resolved s + 1 \<rparr>)
           else (True, c, s))
     else if gpr c 29 \<noteq> site_sp \<or> \<not> same_code (gpr c 31) site_ra
     then (True, c\<lparr> cpu_pc := gpr c 31 \<rparr>,
           psx_bail_record site_ra site_sp (gpr c 31) (gpr c 29)
             (s\<lparr> g_psx_call_bail := True, g_psx_bail_first := g_psx_bail_first s + 1 \<rparr>))
     else (False, c, s))"

definition psx_call_result_is_transfer :: "u32 \<Rightarrow> cpu \<Rightarrow> bool \<times> cpu" where
  "psx_call_result_is_transfer site_ra c =
     (let c1 = (if cpu_pc c \<noteq> 0 \<and> same_code (cpu_pc c) site_ra then c\<lparr> cpu_pc := 0 \<rparr> else c)
      in (cpu_pc c1 \<noteq> 0, c1))"

definition psx_is_dispatchable :: "u32 \<Rightarrow> bool" where
  "psx_is_dispatchable pc \<longleftrightarrow> pc \<noteq> 0 \<and> pc \<noteq> 0x80000048"

text \<open>The frames of the generated code unwind one by one, innermost first: each asks its contract
  and either runs its continuation or returns at once.\<close>

primrec unwind :: "(u32 \<times> u32) list \<Rightarrow> cpu \<times> 'a bail_st_scheme \<Rightarrow> (u32 \<times> u32) option \<times> cpu \<times> 'a bail_st_scheme" where
  "unwind [] cs = (None, cs)"
| "unwind (x # xs) cs =
     (let (leave, cs') = psx_call_contract (fst x) (snd x) cs
      in if leave then unwind xs cs' else (Some x, cs'))"

section \<open>Unwinding a wild return\<close>

definition lands_at :: "u32 \<Rightarrow> u32 \<Rightarrow> u32 \<times> u32 \<Rightarrow> bool" where
  "lands_at pc sp x \<longleftrightarrow> same_code pc (fst x) \<and> sp = snd x"

lemma unwind_bailing:
  assumes "g_psx_call_bail s"
  shows "unwind xs (c, s) =
    (case find (lands_at (cpu_pc c) (gpr c 29)) xs of
       None \<Rightarrow> (None, c, s)
     | Some x \<Rightarrow> (Some x, c\<lparr> cpu_pc := 0 \<rparr>,
                  s\<lparr> g_psx_call_bail := False, g_psx_bail_resolved := g_psx_bail_resolved s + 1 \<rparr>))"
  using assms by (induction xs) (auto simp: psx_call_contract_def lands_at_def)

lemma bail_probe_frame [simp]:
  "g_psx_call_bail (bail_probe n i st ra sp w g s) = g_psx_call_bail s"
  "g_psx_bail_first (bail_probe n i st ra sp w g s) = g_psx_bail_first s"
  "g_psx_bail_resolved (bail_probe n i st ra sp w g s) = g_psx_bail_resolved s"
  by (induction n arbitrary: i; simp add: bail_upd_def Let_def)+

lemma bail_latch_frame [simp]:
  "g_psx_call_bail (bail_latch ra sp w g s) = g_psx_call_bail s"
  "g_psx_bail_first (bail_latch ra sp w g s) = g_psx_bail_first s"
  "g_psx_bail_resolved (bail_latch ra sp w g s) = g_psx_bail_resolved s"
  "s_bail_ledger (bail_latch ra sp w g s) = s_bail_ledger s" "s_bail_unique (bail_latch ra sp w g s) = s_bail_unique s"
  by (simp_all add: bail_latch_def)

text \<open>C36. The call contract. When a callee comes back, the innermost continuation runs exactly when
  the guest stands at its return address with its stack pointer. Otherwise no continuation runs
  until the unwinding reaches the first enclosing call site whose return address and stack
  pointer match the guest's \<open>$ra\<close> and \<open>$sp\<close>; that one resumes with the bail flag cleared. When none
  matches, the flag stays set and the program counter holds the guest's true target. The guest's
  registers are untouched in every case.\<close>

theorem wild_return_unwinds_to_first_match:
  assumes "\<not> g_psx_call_bail s"
  shows "let (r, c', s') = unwind (x # xs) (c, s)
     in gpr c' = gpr c \<and>
        (if lands_at (gpr c 31) (gpr c 29) x then r = Some x \<and> c' = c \<and> s' = s
         else r = find (lands_at (gpr c 31) (gpr c 29)) xs \<and>
              cpu_pc c' = (if r = None then gpr c 31 else 0) \<and>
              (g_psx_call_bail s' \<longleftrightarrow> r = None) \<and>
              g_psx_bail_first s' = g_psx_bail_first s + 1 \<and>
              g_psx_bail_resolved s' = g_psx_bail_resolved s + (if r = None then 0 else 1))"
proof (cases "lands_at (gpr c 31) (gpr c 29) x")
  case True
  with assms show ?thesis by (simp add: psx_call_contract_def lands_at_def)
next
  case False
  let ?s = "psx_bail_record (fst x) (snd x) (gpr c 31) (gpr c 29)
             (s\<lparr> g_psx_call_bail := True, g_psx_bail_first := g_psx_bail_first s + 1 \<rparr>)"
  have b: "g_psx_call_bail ?s" "g_psx_bail_first ?s = g_psx_bail_first s + 1" "g_psx_bail_resolved ?s = g_psx_bail_resolved s"
    by (simp_all add: psx_bail_record_def)
  have "unwind (x # xs) (c, s) = unwind xs (c\<lparr> cpu_pc := gpr c 31 \<rparr>, ?s)"
    using False assms by (auto simp: psx_call_contract_def lands_at_def)
  also have "\<dots> = (case find (lands_at (gpr c 31) (gpr c 29)) xs of
       None \<Rightarrow> (None, c\<lparr> cpu_pc := gpr c 31 \<rparr>, ?s)
     | Some x \<Rightarrow> (Some x, c\<lparr> cpu_pc := 0 \<rparr>,
                  ?s\<lparr> g_psx_call_bail := False, g_psx_bail_resolved := g_psx_bail_resolved ?s + 1 \<rparr>))"
    by (simp add: unwind_bailing [OF b(1)] split: option.split)
  finally show ?thesis using False b by (simp add: Let_def split: option.split)
qed

section \<open>The ledger stays honest\<close>

abbreviation (input) slot_key :: "bail_slot \<Rightarrow> u32 \<times> u32" where
  "slot_key e \<equiv> (bs_site_ra e, bs_wild_pc e)"

text \<open>A used slot lies within sixteen probes of where its key hashes, and every slot before it on
  that path is used.\<close>

definition ledger_ok :: "(nat \<Rightarrow> bail_slot) \<Rightarrow> bool" where
  "ledger_ok L \<longleftrightarrow>
     (\<forall>j<BAIL_LEDGER_SLOTS. \<not> bs_used (L j) \<longrightarrow> bs_count (L j) = 0) \<and>
     (\<forall>j<BAIL_LEDGER_SLOTS. bs_used (L j) \<longrightarrow>
        (\<exists>d<16. j = (bail_start (bs_site_ra (L j)) (bs_wild_pc (L j)) + d) mod BAIL_LEDGER_SLOTS \<and>
          (\<forall>e<d. bs_used (L ((bail_start (bs_site_ra (L j)) (bs_wild_pc (L j)) + e) mod BAIL_LEDGER_SLOTS))))) \<and>
     (\<forall>j<BAIL_LEDGER_SLOTS. \<forall>k<BAIL_LEDGER_SLOTS. bs_used (L j) \<and> bs_used (L k) \<and> slot_key (L j) = slot_key (L k) \<longrightarrow> j = k)"

definition used_slots :: "(nat \<Rightarrow> bail_slot) \<Rightarrow> nat set" where
  "used_slots L = {j. j < BAIL_LEDGER_SLOTS \<and> bs_used (L j)}"

lemma sum_count_bump:
  assumes "j < BAIL_LEDGER_SLOTS" and "bs_count e = bs_count (L j) + 1"
  shows "(\<Sum>i<BAIL_LEDGER_SLOTS. bs_count ((L(j := e)) i)) = (\<Sum>i<BAIL_LEDGER_SLOTS. bs_count (L i)) + 1"
proof -
  have "(\<Sum>i<BAIL_LEDGER_SLOTS. bs_count ((L(j := e)) i)) = bs_count e + (\<Sum>i\<in>{..<BAIL_LEDGER_SLOTS} - {j}. bs_count (L i))"
    using assms(1) by (subst sum.remove [of _ j]) auto
  moreover have "(\<Sum>i<BAIL_LEDGER_SLOTS. bs_count (L i)) = bs_count (L j) + (\<Sum>i\<in>{..<BAIL_LEDGER_SLOTS} - {j}. bs_count (L i))"
    using assms(1) by (subst sum.remove [of _ j]) auto
  ultimately show ?thesis using assms(2) by simp
qed

lemma bail_start_lt: "bail_start a b < BAIL_LEDGER_SLOTS"
proof -
  have "(1023 :: u32) = mask 10" by (simp add: mask_eq_exp_minus_1)
  then show ?thesis unfolding bail_start_def by (simp only: unat_and_mask) simp
qed

text \<open>What one recorded return does to the ledger: it either counts on a used slot or fills the
  first free slot of the path with a key that no slot holds.\<close>

definition fresh_slot :: "u32 \<Rightarrow> u32 \<Rightarrow> bail_slot \<Rightarrow> bool" where
  "fresh_slot ra w e \<longleftrightarrow> bs_used e \<and> bs_count e = 1 \<and> bs_site_ra e = ra \<and> bs_wild_pc e = w"

lemma bail_probe_cases:
  assumes "\<forall>e<i. bs_used (s_bail_ledger s ((st + e) mod BAIL_LEDGER_SLOTS)) \<and>
                 slot_key (s_bail_ledger s ((st + e) mod BAIL_LEDGER_SLOTS)) \<noteq> (ra, w)"
    and "st < BAIL_LEDGER_SLOTS" and "0 < i + n" and "i + n = 16"
  shows "let t = bail_probe n i st ra sp w g s; L = s_bail_ledger s
     in (\<exists>j<BAIL_LEDGER_SLOTS. bs_used (L j) \<and> s_bail_ledger t = L(j := (L j)\<lparr> bs_count := bs_count (L j) + 1 \<rparr>) \<and>
           s_bail_unique t = s_bail_unique s) \<or>
        (\<exists>d<16. \<exists>e. \<not> bs_used (L ((st + d) mod BAIL_LEDGER_SLOTS)) \<and> fresh_slot ra w e \<and>
           (\<forall>k<d. bs_used (L ((st + k) mod BAIL_LEDGER_SLOTS)) \<and> slot_key (L ((st + k) mod BAIL_LEDGER_SLOTS)) \<noteq> (ra, w)) \<and>
           s_bail_ledger t = L((st + d) mod BAIL_LEDGER_SLOTS := e) \<and> s_bail_unique t = s_bail_unique s + 1)"
  using assms
proof (induction n arbitrary: i)
  case 0
  then have "bs_used (s_bail_ledger s (st mod BAIL_LEDGER_SLOTS))" by (metis add.right_neutral)
  then show ?case using 0 by (simp add: Let_def bail_upd_def) (intro disjI1 exI [of _ st], simp add: fun_upd_def)
next
  case (Suc n)
  let ?j = "(st + i) mod BAIL_LEDGER_SLOTS"
  let ?e = "s_bail_ledger s ?j"
  consider (hit) "bs_used ?e" "slot_key ?e = (ra, w)" | (free) "\<not> bs_used ?e" | (on) "bs_used ?e" "slot_key ?e \<noteq> (ra, w)" by blast
  then show ?case
  proof cases
    case hit
    then have "bail_probe (Suc n) i st ra sp w g s = bail_upd ?j (\<lambda>e. e\<lparr> bs_count := bs_count e + 1 \<rparr>) s" by (simp add: Let_def)
    then show ?thesis using hit by (auto simp: Let_def bail_upd_def intro!: exI [of _ ?j])
  next
    case free
    let ?n = "\<lparr> bs_site_ra = ra, bs_wild_pc = w, bs_site_sp = sp, bs_guest_sp = g, bs_count = 1,
                bs_first_frame = ucast (s_frame_count s), bs_used = True \<rparr>"
    have "s_bail_ledger (bail_probe (Suc n) i st ra sp w g s) = (s_bail_ledger s)(?j := ?n)"
      "s_bail_unique (bail_probe (Suc n) i st ra sp w g s) = s_bail_unique s + 1"
      using free by (simp_all add: Let_def bail_upd_def)
    moreover have "fresh_slot ra w ?n" by (simp add: fresh_slot_def)
    moreover have "i < 16" using Suc.prems(4) by simp
    ultimately show ?thesis unfolding Let_def using free Suc.prems(1) by blast
  next
    case on
    then have "bail_probe (Suc n) i st ra sp w g s = bail_probe n (Suc i) st ra sp w g s" by (auto simp: Let_def)
    moreover have "\<forall>e<Suc i. bs_used (s_bail_ledger s ((st + e) mod BAIL_LEDGER_SLOTS)) \<and>
                 slot_key (s_bail_ledger s ((st + e) mod BAIL_LEDGER_SLOTS)) \<noteq> (ra, w)"
      using on Suc.prems(1) less_Suc_eq by auto
    ultimately show ?thesis using Suc.IH [of "Suc i"] Suc.prems by (simp add: Let_def)
  qed
qed

lemma path_reaches:
  assumes "ledger_ok L" and "j < BAIL_LEDGER_SLOTS" and "bs_used (L j)" and "slot_key (L j) = (ra, w)"
    and "\<not> bs_used (L ((bail_start ra w + d) mod BAIL_LEDGER_SLOTS))"
  shows "\<exists>k<d. slot_key (L ((bail_start ra w + k) mod BAIL_LEDGER_SLOTS)) = (ra, w)"
proof -
  from assms(4) have k: "bs_site_ra (L j) = ra" "bs_wild_pc (L j) = w" by simp_all
  from assms(1,2,3) obtain e where e: "j = (bail_start ra w + e) mod BAIL_LEDGER_SLOTS"
      "\<forall>e'<e. bs_used (L ((bail_start ra w + e') mod BAIL_LEDGER_SLOTS))"
    unfolding ledger_ok_def k [symmetric] by blast
  have "e \<noteq> d" using e(1) assms(3,5) by auto
  moreover have "\<not> d < e" using e(2) assms(5) by blast
  ultimately show ?thesis using e(1) assms(4) by (intro exI [of _ e]) auto
qed

lemma ledger_ok_count: "ledger_ok L \<Longrightarrow> bs_used (L j) \<Longrightarrow> ledger_ok (L(j := (L j)\<lparr> bs_count := n \<rparr>))"
proof -
  assume L: "ledger_ok L" and j: "bs_used (L j)"
  let ?L = "L(j := (L j)\<lparr> bs_count := n \<rparr>)"
  have same: "bs_used (?L k) = bs_used (L k)" "bs_site_ra (?L k) = bs_site_ra (L k)" "bs_wild_pc (?L k) = bs_wild_pc (L k)" for k
    by simp_all
  have cnt: "\<forall>k<BAIL_LEDGER_SLOTS. \<not> bs_used (L k) \<longrightarrow> bs_count (?L k) = 0"
    using L j unfolding ledger_ok_def by (metis fun_upd_other)
  show "ledger_ok ?L"
    using L cnt unfolding ledger_ok_def same by (elim conjE, intro conjI) assumption+
qed

lemma ledger_ok_fill:
  assumes L: "ledger_ok L" and d: "d < 16" "\<not> bs_used (L ((bail_start ra w + d) mod BAIL_LEDGER_SLOTS))"
    and path: "\<forall>k<d. bs_used (L ((bail_start ra w + k) mod BAIL_LEDGER_SLOTS)) \<and> slot_key (L ((bail_start ra w + k) mod BAIL_LEDGER_SLOTS)) \<noteq> (ra, w)"
    and e: "fresh_slot ra w e"
  shows "ledger_ok (L((bail_start ra w + d) mod BAIL_LEDGER_SLOTS := e))"
proof -
  let ?p = "(bail_start ra w + d) mod BAIL_LEDGER_SLOTS"
  let ?L = "L(?p := e)"
  have new: "slot_key (L j) \<noteq> (ra, w)" if "j < BAIL_LEDGER_SLOTS" "bs_used (L j)" for j
    using path_reaches [OF L that] d(2) path by blast
  have mono: "bs_used (L j) \<Longrightarrow> bs_used (?L j)" for j using e by (simp add: fresh_slot_def)
  have 1: "\<forall>j<BAIL_LEDGER_SLOTS. \<not> bs_used (?L j) \<longrightarrow> bs_count (?L j) = 0"
    using L e by (simp add: ledger_ok_def fresh_slot_def)
  have 2: "\<exists>n<16. j = (bail_start (bs_site_ra (?L j)) (bs_wild_pc (?L j)) + n) mod BAIL_LEDGER_SLOTS \<and>
          (\<forall>m<n. bs_used (?L ((bail_start (bs_site_ra (?L j)) (bs_wild_pc (?L j)) + m) mod BAIL_LEDGER_SLOTS)))"
    if j: "j < BAIL_LEDGER_SLOTS" "bs_used (?L j)" for j
  proof (cases "j = ?p")
    case True
    with d(1) path mono e show ?thesis by (intro exI [of _ d]) (auto simp: fresh_slot_def)
  next
    case False
    with L j obtain n where "n < 16" "j = (bail_start (bs_site_ra (L j)) (bs_wild_pc (L j)) + n) mod BAIL_LEDGER_SLOTS"
        "\<forall>m<n. bs_used (L ((bail_start (bs_site_ra (L j)) (bs_wild_pc (L j)) + m) mod BAIL_LEDGER_SLOTS))"
      unfolding ledger_ok_def by auto
    with False mono show ?thesis by (intro exI [of _ n]) auto
  qed
  have 3: "j = k" if "j < BAIL_LEDGER_SLOTS" "k < BAIL_LEDGER_SLOTS" "bs_used (?L j)" "bs_used (?L k)" "slot_key (?L j) = slot_key (?L k)" for j k
    using that new [of j] new [of k] e L unfolding ledger_ok_def fresh_slot_def by (auto split: if_splits)
  show ?thesis unfolding ledger_ok_def using 1 2 3 by blast
qed

lemma card_used_fill:
  assumes "j < BAIL_LEDGER_SLOTS" "\<not> bs_used (L j)" "bs_used e"
  shows "card (used_slots (L(j := e))) = Suc (card (used_slots L))"
proof -
  have "used_slots (L(j := e)) = insert j (used_slots L)" using assms by (auto simp: used_slots_def)
  moreover have "finite (used_slots L)" "j \<notin> used_slots L" using assms(2) by (simp_all add: used_slots_def)
  ultimately show ?thesis by simp
qed

definition ledger_counts :: "'a bail_st_scheme \<Rightarrow> u64 \<Rightarrow> bool" where
  "ledger_counts s n \<longleftrightarrow> ledger_ok (s_bail_ledger s) \<and> (\<Sum>i<BAIL_LEDGER_SLOTS. bs_count (s_bail_ledger s i)) = n \<and>
     s_bail_unique s = of_nat (card (used_slots (s_bail_ledger s)))"

lemma bail_record_counts:
  assumes "ledger_counts s n"
  shows "ledger_counts (psx_bail_record ra sp w g s) (n + 1)"
proof -
  let ?s = "bail_latch ra sp w g s"
  let ?t = "bail_probe 16 0 (bail_start ra w) ra sp w g ?s"
  have ok: "ledger_ok (s_bail_ledger s)" using assms by (simp add: ledger_counts_def)
  from bail_probe_cases [of 0 ?s "bail_start ra w" ra w 16 sp g] bail_start_lt [of ra w]
  consider (count) j where "j < BAIL_LEDGER_SLOTS" "bs_used (s_bail_ledger s j)"
      "s_bail_ledger ?t = (s_bail_ledger s)(j := (s_bail_ledger s j)\<lparr> bs_count := bs_count (s_bail_ledger s j) + 1 \<rparr>)"
      "s_bail_unique ?t = s_bail_unique s"
  | (fill) d e where "d < 16" "\<not> bs_used (s_bail_ledger s ((bail_start ra w + d) mod BAIL_LEDGER_SLOTS))" "fresh_slot ra w e"
      "\<forall>k<d. bs_used (s_bail_ledger s ((bail_start ra w + k) mod BAIL_LEDGER_SLOTS)) \<and>
             slot_key (s_bail_ledger s ((bail_start ra w + k) mod BAIL_LEDGER_SLOTS)) \<noteq> (ra, w)"
      "s_bail_ledger ?t = (s_bail_ledger s)((bail_start ra w + d) mod BAIL_LEDGER_SLOTS := e)" "s_bail_unique ?t = s_bail_unique s + 1"
    unfolding Let_def by (auto simp del: bail_probe.simps)
  then have "ledger_counts ?t (n + 1)"
  proof cases
    case count
    have "used_slots (s_bail_ledger ?t) = used_slots (s_bail_ledger s)" using count by (auto simp: used_slots_def)
    moreover have "(\<Sum>i<BAIL_LEDGER_SLOTS. bs_count (s_bail_ledger ?t i)) = (\<Sum>i<BAIL_LEDGER_SLOTS. bs_count (s_bail_ledger s i)) + 1"
      unfolding count(3) by (rule sum_count_bump [OF count(1)]) simp
    moreover have "ledger_ok (s_bail_ledger ?t)"
      unfolding count(3) by (rule ledger_ok_count [OF ok count(2)])
    ultimately show ?thesis using assms count(4) by (simp add: ledger_counts_def del: bail_probe.simps)
  next
    case fill
    let ?p = "(bail_start ra w + d) mod BAIL_LEDGER_SLOTS"
    have z: "bs_count (s_bail_ledger s ?p) = 0" using ok fill(2) by (simp add: ledger_ok_def)
    have "card (used_slots (s_bail_ledger ?t)) = Suc (card (used_slots (s_bail_ledger s)))"
      unfolding fill(5) using fill(2,3) by (intro card_used_fill) (simp_all add: fresh_slot_def)
    moreover have "(\<Sum>i<BAIL_LEDGER_SLOTS. bs_count (s_bail_ledger ?t i)) = (\<Sum>i<BAIL_LEDGER_SLOTS. bs_count (s_bail_ledger s i)) + 1"
      unfolding fill(5) using fill(3) z by (intro sum_count_bump) (simp_all add: fresh_slot_def)
    moreover have "ledger_ok (s_bail_ledger ?t)"
      unfolding fill(5) using ledger_ok_fill [OF ok fill(1,2,4,3)] .
    ultimately show ?thesis using assms fill(6) by (simp add: ledger_counts_def del: bail_probe.simps)
  qed
  then show ?thesis by (simp add: psx_bail_record_def)
qed

text \<open>The ledger of wild returns stays honest: from an empty ledger, after any sequence of
  recorded returns the slot counts add up to the number of records (even when the probe window is
  exhausted), every key has at most one slot, and the unique counter is the number of slots in
  use.\<close>

lemma bail_ledger_honest:
  assumes "\<forall>i. \<not> bs_used (s_bail_ledger s i) \<and> bs_count (s_bail_ledger s i) = 0" and "s_bail_unique s = 0"
  shows "let t = fold (\<lambda>(ra, sp, w, g). psx_bail_record ra sp w g) rs s; L = s_bail_ledger t
     in (\<Sum>i<BAIL_LEDGER_SLOTS. bs_count (L i)) = of_nat (length rs) \<and>
        (\<forall>j<BAIL_LEDGER_SLOTS. \<forall>k<BAIL_LEDGER_SLOTS. bs_used (L j) \<and> bs_used (L k) \<and> slot_key (L j) = slot_key (L k) \<longrightarrow> j = k) \<and>
        s_bail_unique t = of_nat (card {j. j < BAIL_LEDGER_SLOTS \<and> bs_used (L j)})"
proof -
  have "ledger_counts (fold (\<lambda>(ra, sp, w, g). psx_bail_record ra sp w g) rs u) (n + of_nat (length rs))"
    if "ledger_counts u n" for u :: "'a bail_st_scheme" and n
    using that
  proof (induction rs arbitrary: u n)
    case Nil
    then show ?case by simp
  next
    case (Cons r rs)
    obtain ra sp w g where r: "r = (ra, sp, w, g)" by (metis surj_pair)
    from Cons.IH [OF bail_record_counts [OF Cons.prems, of ra sp w g]] show ?case by (simp add: r add.assoc)
  qed
  moreover have "ledger_counts s 0"
    using assms by (simp add: ledger_counts_def ledger_ok_def used_slots_def)
  ultimately have "ledger_counts (fold (\<lambda>(ra, sp, w, g). psx_bail_record ra sp w g) rs s) (of_nat (length rs))"
    by fastforce
  then show ?thesis unfolding Let_def ledger_counts_def ledger_ok_def used_slots_def by blast
qed

section \<open>Examples\<close>

definition cpu_zero :: cpu where
  "cpu_zero = \<lparr> gpr = (\<lambda>_. 0), cpu_pc = 0, cpu_hi = 0, cpu_lo = 0, cop0 = (\<lambda>_. 0), gte_data = (\<lambda>_. 0),
     gte_ctrl = (\<lambda>_. 0), muldiv_ts_done = 0, gte_ts_done = 0, read_absorb = (\<lambda>_. 0), read_absorb_which = 0,
     read_fudge = 0, ld_which_t = 0, ld_absorb = 0 \<rparr>"

definition bail_zero :: bail_st where
  "bail_zero = sys_boot (bail_st.fields False 0 0
     (\<lambda>_. \<lparr> bs_site_ra = 0, bs_wild_pc = 0, bs_site_sp = 0, bs_guest_sp = 0, bs_count = 0, bs_first_frame = 0, bs_used = False \<rparr>)
     0 0 0 0 0 0 0 False)"

lemma bail_zero_simps [simp]:
  "\<not> g_psx_call_bail bail_zero" "s_bail_unique bail_zero = 0" "\<not> bs_used (s_bail_ledger bail_zero i)"
  "bs_count (s_bail_ledger bail_zero i) = 0"
  by (simp_all add: bail_zero_def sys_boot_def bail_st.defs)

text \<open>A callee that skipped one frame: its \<open>$ra\<close> and \<open>$sp\<close> are those of the second enclosing site.\<close>

theorem wild_return_unwinds_to_first_match_witness:
  "fst (unwind [(0x80020000, 0x801FFE00), (0x80030000, 0x801FFE80), (0x80010008, 0x801FFF00)]
     (cpu_zero\<lparr> gpr := (\<lambda>_. 0)(29 := 0x801FFF00, 31 := 0x00010008) \<rparr>, bail_zero)) = Some (0x80010008, 0x801FFF00)"
  using wild_return_unwinds_to_first_match [OF bail_zero_simps(1), of "(0x80020000, 0x801FFE00)"
      "[(0x80030000, 0x801FFE80), (0x80010008, 0x801FFF00)]" "cpu_zero\<lparr> gpr := (\<lambda>_. 0)(29 := 0x801FFF00, 31 := 0x00010008) \<rparr>"]
  by (simp add: Let_def split_beta lands_at_def same_code_def del: unwind.simps)

lemma bail_ledger_honest_example:
  "(\<Sum>i<BAIL_LEDGER_SLOTS. bs_count (s_bail_ledger (fold (\<lambda>(ra, sp, w, g). psx_bail_record ra sp w g)
     [(0x80010008, 0, 0x80020000, 0), (0x80010008, 4, 0x80020000, 4), (0x80010010, 0, 0, 0)] bail_zero) i)) = 3"
  using bail_ledger_honest [of bail_zero "[(0x80010008, 0, 0x80020000, 0), (0x80010008, 4, 0x80020000, 4), (0x80010010, 0, 0, 0)]"]
  by (simp add: Let_def del: fold_simps sum.lessThan_Suc)

end
