(* ===== verification/Interpreter.thy ===== *)
theory Interpreter
  imports Cpu_State Timers "HOL-Library.Signed_Division"
begin

text \<open>
  The R3000A interpreter of the oracle builds (runtime/src/psx_interpreter.c): decoding, every
  instruction, the pending load, exceptions, breakpoints, the trace ring, interrupt injection and
  the step loop.

  \<open>exec_one\<close> calls itself for the instruction in a branch delay slot, and a delay slot may hold
  another branch, so the model carries the remaining nesting depth as fuel and returns \<open>None\<close> when it
  runs out. The access functions of \<open>CPUState\<close>, the GTE entry points (gte.cpp works on the two COP2
  register files only) and the ticks of the devices are the parameter \<open>cpu_env\<close>. The instruction
  switch is split into its pure parts (\<open>alu_special\<close>, \<open>alu_imm\<close>, \<open>branch_taken\<close>, the unaligned merges)
  and the parts with an effect.
\<close>

type_synonym gte_regs = "(nat \<Rightarrow> u32) \<times> (nat \<Rightarrow> u32)"

record 'm cpu_env =
  read_word :: "u32 \<Rightarrow> 'm \<Rightarrow> u32 \<times> 'm"
  write_word :: "u32 \<Rightarrow> u32 \<Rightarrow> 'm \<Rightarrow> 'm"
  read_half :: "u32 \<Rightarrow> 'm \<Rightarrow> u16 \<times> 'm"
  write_half :: "u32 \<Rightarrow> u16 \<Rightarrow> 'm \<Rightarrow> 'm"
  read_byte :: "u32 \<Rightarrow> 'm \<Rightarrow> u8 \<times> 'm"
  write_byte :: "u32 \<Rightarrow> u8 \<Rightarrow> 'm \<Rightarrow> 'm"
  gte_read_data :: "nat \<Rightarrow> gte_regs \<Rightarrow> u32"
  gte_read_ctrl :: "nat \<Rightarrow> gte_regs \<Rightarrow> u32"
  gte_write_data :: "nat \<Rightarrow> u32 \<Rightarrow> gte_regs \<Rightarrow> gte_regs"
  gte_write_ctrl :: "nat \<Rightarrow> u32 \<Rightarrow> gte_regs \<Rightarrow> gte_regs"
  gte_execute :: "u32 \<Rightarrow> gte_regs \<Rightarrow> gte_regs"
  sio_tick :: "u32 \<Rightarrow> 'm \<Rightarrow> 'm"
  gpu_vblank_tick :: "'m \<Rightarrow> 'm"
  cdrom_tick :: "'m \<Rightarrow> 'm"

record interp_trace_entry =
  te_pc :: u32
  te_gpr :: "nat \<Rightarrow> u32"
  te_hi :: u32
  te_lo :: u32
  te_cop0_sr :: u32
  te_cop0_cause :: u32
  te_cop0_epc :: u32
  te_insn :: u32
  te_seq :: u64

record 'm interp_st =
  cpu_of :: cpu
  s_hit_bp :: bool
  s_trace_on :: bool
  s_halted :: bool
  s_bp :: "nat \<Rightarrow> u32"
  s_bp_count :: nat
  s_trace_ring :: "nat \<Rightarrow> interp_trace_entry"
  s_trace_seq :: u64
  s_trace_write_idx :: u32
  s_load_reg :: u32
  s_load_val :: u32
  s_vblank_count :: u32
  mach :: 'm

abbreviation (input) MAX_BREAKPOINTS :: nat where "MAX_BREAKPOINTS \<equiv> 64"
abbreviation (input) TRACE_RING_SIZE :: u32 where "TRACE_RING_SIZE \<equiv> 0x100000"
abbreviation (input) TRACE_RING_MASK :: u32 where "TRACE_RING_MASK \<equiv> 0xFFFFF"
abbreviation (input) VBLANK_INTERVAL :: u32 where "VBLANK_INTERVAL \<equiv> 50000"

section \<open>Decoding\<close>

definition OP :: "u32 \<Rightarrow> u32" where "OP i = drop_bit 26 i AND 0x3F"
definition RS :: "u32 \<Rightarrow> u32" where "RS i = drop_bit 21 i AND 0x1F"
definition RT :: "u32 \<Rightarrow> u32" where "RT i = drop_bit 16 i AND 0x1F"
definition RD :: "u32 \<Rightarrow> u32" where "RD i = drop_bit 11 i AND 0x1F"
definition SA :: "u32 \<Rightarrow> u32" where "SA i = drop_bit 6 i AND 0x1F"
definition FUNC :: "u32 \<Rightarrow> u32" where "FUNC i = i AND 0x3F"
definition IMM16 :: "u32 \<Rightarrow> u32" where "IMM16 i = i AND 0xFFFF"
definition SIMM :: "u32 \<Rightarrow> u32" where "SIMM i = scast (ucast i :: u16)"
definition JTARGET :: "u32 \<Rightarrow> u32 \<Rightarrow> u32" where
  "JTARGET i pc = ((pc + 4) AND 0xF0000000) OR push_bit 2 (i AND 0x03FFFFFF)"

section \<open>Registers, breakpoints and trace\<close>

definition upd_cpu :: "(cpu \<Rightarrow> cpu) \<Rightarrow> 'm interp_st \<Rightarrow> 'm interp_st" where
  "upd_cpu f s = s\<lparr> cpu_of := f (cpu_of s) \<rparr>"

definition set_pc :: "u32 \<Rightarrow> 'm interp_st \<Rightarrow> 'm interp_st" where
  "set_pc v = upd_cpu (cpu_pc_update (\<lambda>_. v))"

definition reg :: "u32 \<Rightarrow> 'm interp_st \<Rightarrow> u32" where
  "reg r s = gpr (cpu_of s) (unat r)"

definition set_reg :: "u32 \<Rightarrow> u32 \<Rightarrow> 'm interp_st \<Rightarrow> 'm interp_st" where
  "set_reg r v s = (if r \<noteq> 0 then upd_cpu (\<lambda>c. c\<lparr> gpr := (gpr c)(unat r := v) \<rparr>) s else s)"

definition apply_load_delay :: "'m interp_st \<Rightarrow> 'm interp_st" where
  "apply_load_delay s =
     (if s_load_reg s \<noteq> 0
      then (upd_cpu (\<lambda>c. c\<lparr> gpr := (gpr c)(unat (s_load_reg s) := s_load_val s) \<rparr>) s)\<lparr> s_load_reg := 0 \<rparr> else s)"

definition set_load_delay :: "u32 \<Rightarrow> u32 \<Rightarrow> 'm interp_st \<Rightarrow> 'm interp_st" where
  "set_load_delay r v s = s\<lparr> s_load_reg := r, s_load_val := v \<rparr>"

definition gte_of :: "cpu \<Rightarrow> gte_regs" where
  "gte_of c = (gte_data c, gte_ctrl c)"

definition upd_gte :: "(gte_regs \<Rightarrow> gte_regs) \<Rightarrow> 'm interp_st \<Rightarrow> 'm interp_st" where
  "upd_gte f = upd_cpu (\<lambda>c. let (d, k) = f (gte_of c) in c\<lparr> gte_data := d, gte_ctrl := k \<rparr>)"

definition interp_init :: "'m interp_st \<Rightarrow> 'm interp_st" where
  "interp_init s =
     s\<lparr> s_hit_bp := False, s_trace_on := False, s_halted := False, s_bp_count := 0,
        s_trace_ring := (\<lambda>_. \<lparr> te_pc = 0, te_gpr = (\<lambda>_. 0), te_hi = 0, te_lo = 0, te_cop0_sr = 0, te_cop0_cause = 0,
                               te_cop0_epc = 0, te_insn = 0, te_seq = 0 \<rparr>),
        s_trace_seq := 0, s_trace_write_idx := 0, s_load_reg := 0, s_load_val := 0, s_vblank_count := 0 \<rparr>"

definition interp_break_add :: "u32 \<Rightarrow> 'm interp_st \<Rightarrow> int \<times> 'm interp_st" where
  "interp_break_add pc s =
     (if s_bp_count s \<ge> MAX_BREAKPOINTS then (- 1, s)
      else (int (s_bp_count s), s\<lparr> s_bp := (s_bp s)(s_bp_count s := pc), s_bp_count := s_bp_count s + 1 \<rparr>))"

definition interp_break_remove :: "u32 \<Rightarrow> 'm interp_st \<Rightarrow> bool \<times> 'm interp_st" where
  "interp_break_remove pc s =
     (case find (\<lambda>i. s_bp s i = pc) [0 ..< s_bp_count s] of
        None \<Rightarrow> (False, s)
      | Some i \<Rightarrow> (True, s\<lparr> s_bp_count := s_bp_count s - 1, s_bp := (s_bp s)(i := s_bp s (s_bp_count s - 1)) \<rparr>))"

definition interp_break_clear_all :: "'m interp_st \<Rightarrow> 'm interp_st" where
  "interp_break_clear_all s = s\<lparr> s_bp_count := 0 \<rparr>"

definition interp_hit_breakpoint :: "'m interp_st \<Rightarrow> bool" where
  "interp_hit_breakpoint s = s_hit_bp s"

definition interp_trace_enable :: "bool \<Rightarrow> 'm interp_st \<Rightarrow> 'm interp_st" where
  "interp_trace_enable on s = s\<lparr> s_trace_on := on \<rparr>"

definition interp_trace_count :: "'m interp_st \<Rightarrow> u64" where
  "interp_trace_count s = s_trace_seq s"

definition mk_trace_entry :: "u32 \<Rightarrow> 'm interp_st \<Rightarrow> interp_trace_entry" where
  "mk_trace_entry insn s =
     (let c = cpu_of s
      in \<lparr> te_pc = cpu_pc c, te_gpr = gpr c, te_hi = cpu_hi c, te_lo = cpu_lo c, te_cop0_sr = cop0 c 12,
           te_cop0_cause = cop0 c 13, te_cop0_epc = cop0 c 14, te_insn = insn, te_seq = s_trace_seq s \<rparr>)"

definition trace_record :: "u32 \<Rightarrow> 'm interp_st \<Rightarrow> 'm interp_st" where
  "trace_record insn s =
     s\<lparr> s_trace_ring := (s_trace_ring s)(unat (s_trace_write_idx s) := mk_trace_entry insn s),
        s_trace_seq := s_trace_seq s + 1,
        s_trace_write_idx := (s_trace_write_idx s + 1) AND TRACE_RING_MASK \<rparr>"

definition interp_trace_get :: "u32 \<Rightarrow> 'm interp_st \<Rightarrow> interp_trace_entry option" where
  "interp_trace_get ring_idx s =
     (if ring_idx \<ge> TRACE_RING_SIZE then None
      else let avail = (if s_trace_seq s < ucast TRACE_RING_SIZE then ucast (s_trace_seq s) else TRACE_RING_SIZE)
           in if ring_idx \<ge> avail then None
              else Some (s_trace_ring s (unat ((s_trace_write_idx s - avail + ring_idx) AND TRACE_RING_MASK))))"

section \<open>Exceptions\<close>

definition raise_exception :: "u32 \<Rightarrow> bool \<Rightarrow> cpu \<Rightarrow> cpu" where
  "raise_exception exccode in_delay c =
     (let sr = cop0 c 12;
          c1 = set_cop0 12 ((sr AND NOT 0x3F) OR push_bit 2 (sr AND 0x0F)) c;
          cause = (cop0 c1 13 AND NOT 0x7C) OR push_bit 2 exccode;
          c2 = set_cop0 13 (if in_delay then cause OR push_bit 31 1 else cause AND NOT (push_bit 31 1)) c1;
          c3 = set_cop0 14 (if in_delay then cpu_pc c2 - 4 else cpu_pc c2) c2
      in c3\<lparr> cpu_pc := exception_vector sr \<rparr>)"

section \<open>The instruction switch\<close>

text \<open>How the switch ends: \<open>Fall\<close> breaks out of it, \<open>Return\<close> leaves \<open>exec_one\<close>, \<open>Delay t\<close> executes the
  delay slot and then sets the program counter, \<open>Delay_cop1 t\<close> does so unless the slot transferred.\<close>

datatype flow = Fall | Return | Delay u32 | Delay_cop1 u32

text \<open>The value written to \<open>rd\<close> by the SPECIAL encodings that only write a register.\<close>

definition alu_special :: "u32 \<Rightarrow> u32 \<Rightarrow> u32 \<Rightarrow> u32 \<Rightarrow> cpu \<Rightarrow> u32 option" where
  "alu_special func sa rs_val rt_val c =
     (if func = 0x00 then Some (push_bit (unat sa) rt_val)
      else if func = 0x02 then Some (drop_bit (unat sa) rt_val)
      else if func = 0x03 then Some (signed_drop_bit (unat sa) rt_val)
      else if func = 0x04 then Some (push_bit (unat (rs_val AND 31)) rt_val)
      else if func = 0x06 then Some (drop_bit (unat (rs_val AND 31)) rt_val)
      else if func = 0x07 then Some (signed_drop_bit (unat (rs_val AND 31)) rt_val)
      else if func = 0x10 then Some (cpu_hi c)
      else if func = 0x12 then Some (cpu_lo c)
      else if func = 0x21 then Some (rs_val + rt_val)
      else if func = 0x23 then Some (rs_val - rt_val)
      else if func = 0x24 then Some (rs_val AND rt_val)
      else if func = 0x25 then Some (rs_val OR rt_val)
      else if func = 0x26 then Some (rs_val XOR rt_val)
      else if func = 0x27 then Some (NOT (rs_val OR rt_val))
      else if func = 0x2A then Some (if sint rs_val < sint rt_val then 1 else 0)
      else if func = 0x2B then Some (if rs_val < rt_val then 1 else 0)
      else None)"

definition fits_i32 :: "int \<Rightarrow> bool" where
  "fits_i32 r \<longleftrightarrow> - (2 ^ 31) \<le> r \<and> r < 2 ^ 31"

definition set_hi_lo :: "u32 \<Rightarrow> u32 \<Rightarrow> 'm interp_st \<Rightarrow> 'm interp_st" where
  "set_hi_lo h l = upd_cpu (\<lambda>c. c\<lparr> cpu_hi := h, cpu_lo := l \<rparr>)"

definition mult_result :: "u64 \<Rightarrow> 'm interp_st \<Rightarrow> 'm interp_st" where
  "mult_result r = set_hi_lo (ucast (drop_bit 32 r)) (ucast r)"

definition exec_div :: "u32 \<Rightarrow> u32 \<Rightarrow> 'm interp_st \<Rightarrow> 'm interp_st" where
  "exec_div rs_val rt_val =
     (if rt_val = 0 then set_hi_lo rs_val (if rs_val AND 0x80000000 \<noteq> 0 then 1 else 0xFFFFFFFF)
      else if rs_val = 0x80000000 \<and> rt_val = 0xFFFFFFFF then set_hi_lo 0 0x80000000
      else set_hi_lo (word_of_int (sint rs_val smod sint rt_val)) (word_of_int (sint rs_val sdiv sint rt_val)))"

definition exec_divu :: "u32 \<Rightarrow> u32 \<Rightarrow> 'm interp_st \<Rightarrow> 'm interp_st" where
  "exec_divu rs_val rt_val =
     (if rt_val = 0 then set_hi_lo rs_val 0xFFFFFFFF else set_hi_lo (rs_val mod rt_val) (rs_val div rt_val))"

text \<open>ADD, SUB and ADDI: the exact result, or the overflow exception.\<close>

definition exec_trapping :: "u32 \<Rightarrow> int \<Rightarrow> 'm interp_st \<Rightarrow> flow \<times> 'm interp_st" where
  "exec_trapping r v s =
     (if \<not> fits_i32 v then (Return, upd_cpu (raise_exception 12 False) s) else (Fall, set_reg r (word_of_int v) s))"

definition exec_special :: "u32 \<Rightarrow> u32 \<Rightarrow> 'm interp_st \<Rightarrow> flow \<times> 'm interp_st" where
  "exec_special pc insn s =
     (let func = FUNC insn; rd = RD insn; rs_val = reg (RS insn) s; rt_val = reg (RT insn) s
      in case alu_special func (SA insn) rs_val rt_val (cpu_of s) of
           Some v \<Rightarrow> (Fall, set_reg rd v s)
         | None \<Rightarrow>
           (if func = 0x08 then (Delay rs_val, s)
            else if func = 0x09 then (Delay rs_val, set_reg rd (pc + 8) s)
            else if func = 0x0C then (Return, upd_cpu (raise_exception 8 False) s)
            else if func = 0x0D then (Return, upd_cpu (raise_exception 9 False) s)
            else if func = 0x11 then (Fall, upd_cpu (cpu_hi_update (\<lambda>_. rs_val)) s)
            else if func = 0x13 then (Fall, upd_cpu (cpu_lo_update (\<lambda>_. rs_val)) s)
            else if func = 0x18 then (Fall, mult_result (scast rs_val * scast rt_val) s)
            else if func = 0x19 then (Fall, mult_result (ucast rs_val * ucast rt_val) s)
            else if func = 0x1A then (Fall, exec_div rs_val rt_val s)
            else if func = 0x1B then (Fall, exec_divu rs_val rt_val s)
            else if func = 0x20 then exec_trapping rd (sint rs_val + sint rt_val) s
            else if func = 0x22 then exec_trapping rd (sint rs_val - sint rt_val) s
            else (Fall, s)))"

definition branch_target :: "u32 \<Rightarrow> u32 \<Rightarrow> u32" where
  "branch_target insn pc = pc + 4 + push_bit 2 (SIMM insn)"

definition exec_regimm :: "u32 \<Rightarrow> u32 \<Rightarrow> 'm interp_st \<Rightarrow> flow \<times> 'm interp_st" where
  "exec_regimm pc insn s =
     (let rt = RT insn;
          rs_val = reg (RS insn) s;
          link = (rt AND 0x10 \<noteq> 0);
          cond = (if rt AND 0x01 \<noteq> 0 then sint rs_val \<ge> 0 else sint rs_val < 0);
          s1 = (if link then set_reg 31 (pc + 8) s else s)
      in if cond then (Delay (branch_target insn pc), s1) else (Fall, s1))"

text \<open>BEQ, BNE, BLEZ and BGTZ.\<close>

definition branch_taken :: "u32 \<Rightarrow> u32 \<Rightarrow> u32 \<Rightarrow> bool" where
  "branch_taken op rs_val rt_val \<longleftrightarrow>
     (if op = 0x04 then rs_val = rt_val
      else if op = 0x05 then rs_val \<noteq> rt_val
      else if op = 0x06 then sint rs_val \<le> 0
      else sint rs_val > 0)"

text \<open>ADDIU, SLTI, SLTIU, ANDI, ORI, XORI and LUI.\<close>

definition alu_imm :: "u32 \<Rightarrow> u32 \<Rightarrow> u32 \<Rightarrow> u32" where
  "alu_imm op rs_val insn =
     (if op = 0x09 then rs_val + SIMM insn
      else if op = 0x0A then (if sint rs_val < sint (SIMM insn) then 1 else 0)
      else if op = 0x0B then (if rs_val < SIMM insn then 1 else 0)
      else if op = 0x0C then rs_val AND IMM16 insn
      else if op = 0x0D then rs_val OR IMM16 insn
      else if op = 0x0E then rs_val XOR IMM16 insn
      else push_bit 16 (IMM16 insn))"

definition exec_cop0 :: "u32 \<Rightarrow> 'm interp_st \<Rightarrow> 'm interp_st" where
  "exec_cop0 insn s =
     (let cop_op = RS insn; c = cpu_of s
      in if cop_op = 0x00 then set_load_delay (RT insn) (cop0 c (unat (RD insn))) s
         else if cop_op = 0x04 then upd_cpu (set_cop0 (unat (RD insn)) (reg (RT insn) s)) s
         else if cop_op = 0x10 \<and> insn AND 0x3F = 0x10
         then upd_cpu (set_cop0 12 ((cop0 c 12 AND 0xFFFFFFC0) OR (drop_bit 2 (cop0 c 12) AND 0x0F))) s
         else s)"

definition cu1_enabled :: "cpu \<Rightarrow> bool" where
  "cu1_enabled c \<longleftrightarrow> cop0 c 12 AND push_bit 29 1 \<noteq> 0"

definition exec_cop1 :: "u32 \<Rightarrow> u32 \<Rightarrow> 'm interp_st \<Rightarrow> flow \<times> 'm interp_st" where
  "exec_cop1 pc insn s =
     (if \<not> cu1_enabled (cpu_of s) then (Return, upd_cpu (psx_cop_unusable 1 pc) s)
      else if RS insn = 0x08 \<or> RS insn = 0x0C
      then (Delay_cop1 (if insn AND push_bit 16 1 = 0 then branch_target insn pc else pc + 8), s)
      else (Fall, s))"

definition exec_cop2 :: "'m cpu_env \<Rightarrow> u32 \<Rightarrow> 'm interp_st \<Rightarrow> 'm interp_st" where
  "exec_cop2 E insn s =
     (let cop_op = RS insn; g = gte_of (cpu_of s); rd = unat (RD insn); rt_val = reg (RT insn) s
      in if cop_op = 0x00 then set_load_delay (RT insn) (gte_read_data E rd g) s
         else if cop_op = 0x02 then set_load_delay (RT insn) (gte_read_ctrl E rd g) s
         else if cop_op = 0x04 then upd_gte (gte_write_data E rd rt_val) s
         else if cop_op = 0x06 then upd_gte (gte_write_ctrl E rd rt_val) s
         else if cop_op AND 0x10 \<noteq> 0 then upd_gte (gte_execute E (insn AND 0x1FFFFFF)) s
         else s)"

definition lwl_merge :: "u32 \<Rightarrow> u32 \<Rightarrow> u32 \<Rightarrow> u32" where
  "lwl_merge addr cur word =
     (if addr AND 3 = 0 then (cur AND 0x00FFFFFF) OR push_bit 24 word
      else if addr AND 3 = 1 then (cur AND 0x0000FFFF) OR push_bit 16 word
      else if addr AND 3 = 2 then (cur AND 0x000000FF) OR push_bit 8 word
      else word)"

definition lwr_merge :: "u32 \<Rightarrow> u32 \<Rightarrow> u32 \<Rightarrow> u32" where
  "lwr_merge addr cur word =
     (if addr AND 3 = 0 then word
      else if addr AND 3 = 1 then (cur AND 0xFF000000) OR drop_bit 8 word
      else if addr AND 3 = 2 then (cur AND 0xFFFF0000) OR drop_bit 16 word
      else (cur AND 0xFFFFFF00) OR drop_bit 24 word)"

definition swl_merge :: "u32 \<Rightarrow> u32 \<Rightarrow> u32 \<Rightarrow> u32" where
  "swl_merge addr cur rt_val =
     (if addr AND 3 = 0 then (cur AND 0xFFFFFF00) OR drop_bit 24 rt_val
      else if addr AND 3 = 1 then (cur AND 0xFFFF0000) OR drop_bit 16 rt_val
      else if addr AND 3 = 2 then (cur AND 0xFF000000) OR drop_bit 8 rt_val
      else rt_val)"

definition swr_merge :: "u32 \<Rightarrow> u32 \<Rightarrow> u32 \<Rightarrow> u32" where
  "swr_merge addr cur rt_val =
     (if addr AND 3 = 0 then rt_val
      else if addr AND 3 = 1 then (cur AND 0x000000FF) OR push_bit 8 rt_val
      else if addr AND 3 = 2 then (cur AND 0x0000FFFF) OR push_bit 16 rt_val
      else (cur AND 0x00FFFFFF) OR push_bit 24 rt_val)"

definition bus_read :: "(u32 \<Rightarrow> 'm \<Rightarrow> 'w \<times> 'm) \<Rightarrow> u32 \<Rightarrow> 'm interp_st \<Rightarrow> 'w \<times> 'm interp_st" where
  "bus_read rd addr s = (let (w, m) = rd addr (mach s) in (w, s\<lparr> mach := m \<rparr>))"

definition bus_write :: "(u32 \<Rightarrow> 'w \<Rightarrow> 'm \<Rightarrow> 'm) \<Rightarrow> u32 \<Rightarrow> 'w \<Rightarrow> 'm interp_st \<Rightarrow> 'm interp_st" where
  "bus_write wr addr v s = s\<lparr> mach := wr addr v (mach s) \<rparr>"

definition exec_load :: "'m cpu_env \<Rightarrow> u32 \<Rightarrow> u32 \<Rightarrow> u32 \<Rightarrow> 'm interp_st \<Rightarrow> 'm interp_st" where
  "exec_load E op rt addr s =
     (if op = 0x20 then let (b, s1) = bus_read (read_byte E) addr s in set_load_delay rt (scast b) s1
      else if op = 0x21 then let (h, s1) = bus_read (read_half E) addr s in set_load_delay rt (scast h) s1
      else if op = 0x22
      then let (w, s1) = bus_read (read_word E) (addr AND NOT 3) s in set_reg rt (lwl_merge addr (reg rt s1) w) s1
      else if op = 0x23 then let (w, s1) = bus_read (read_word E) addr s in set_load_delay rt w s1
      else if op = 0x24 then let (b, s1) = bus_read (read_byte E) addr s in set_load_delay rt (ucast b) s1
      else if op = 0x25 then let (h, s1) = bus_read (read_half E) addr s in set_load_delay rt (ucast h) s1
      else let (w, s1) = bus_read (read_word E) (addr AND NOT 3) s in set_reg rt (lwr_merge addr (reg rt s1) w) s1)"

definition exec_store :: "'m cpu_env \<Rightarrow> u32 \<Rightarrow> u32 \<Rightarrow> u32 \<Rightarrow> 'm interp_st \<Rightarrow> 'm interp_st" where
  "exec_store E op rt_val addr s =
     (if op = 0x28 then bus_write (write_byte E) addr (ucast (rt_val AND 0xFF)) s
      else if op = 0x29 then bus_write (write_half E) addr (ucast (rt_val AND 0xFFFF)) s
      else if op = 0x2A
      then let (cur, s1) = bus_read (read_word E) (addr AND NOT 3) s
           in bus_write (write_word E) (addr AND NOT 3) (swl_merge addr cur rt_val) s1
      else if op = 0x2B then bus_write (write_word E) addr rt_val s
      else let (cur, s1) = bus_read (read_word E) (addr AND NOT 3) s
           in bus_write (write_word E) (addr AND NOT 3) (swr_merge addr cur rt_val) s1)"

text \<open>LWC1 and SWC1 on a machine without COP1.\<close>

definition exec_cop1_mem :: "'m cpu_env \<Rightarrow> bool \<Rightarrow> u32 \<Rightarrow> u32 \<Rightarrow> 'm interp_st \<Rightarrow> flow \<times> 'm interp_st" where
  "exec_cop1_mem E is_store pc addr s =
     (if \<not> cu1_enabled (cpu_of s) then (Return, upd_cpu (psx_cop_unusable 1 pc) s)
      else if addr AND 3 \<noteq> 0 then (Return, upd_cpu (psx_address_error_exception addr pc is_store) s)
      else if is_store then (Fall, s) else (Fall, snd (bus_read (read_word E) addr s)))"

definition exec_insn :: "'m cpu_env \<Rightarrow> u32 \<Rightarrow> u32 \<Rightarrow> 'm interp_st \<Rightarrow> flow \<times> 'm interp_st" where
  "exec_insn E pc insn s =
     (let op = OP insn; rs_val = reg (RS insn) s; rt_val = reg (RT insn) s; addr = rs_val + SIMM insn
      in if op = 0x00 then exec_special pc insn s
         else if op = 0x01 then exec_regimm pc insn s
         else if op = 0x02 then (Delay (JTARGET insn pc), s)
         else if op = 0x03 then (Delay (JTARGET insn pc), set_reg 31 (pc + 8) s)
         else if op \<in> {0x04, 0x05, 0x06, 0x07}
         then (if branch_taken op rs_val rt_val then Delay (branch_target insn pc) else Fall, s)
         else if op = 0x08 then exec_trapping (RT insn) (sint rs_val + sint (SIMM insn)) s
         else if op \<in> {0x09, 0x0A, 0x0B, 0x0C, 0x0D, 0x0E, 0x0F} then (Fall, set_reg (RT insn) (alu_imm op rs_val insn) s)
         else if op = 0x10 then (Fall, exec_cop0 insn s)
         else if op = 0x11 then exec_cop1 pc insn s
         else if op = 0x12 then (Fall, exec_cop2 E insn s)
         else if op \<in> {0x20, 0x21, 0x22, 0x23, 0x24, 0x25, 0x26} then (Fall, exec_load E op (RT insn) addr s)
         else if op \<in> {0x28, 0x29, 0x2A, 0x2B, 0x2E} then (Fall, exec_store E op rt_val addr s)
         else if op = 0x31 then exec_cop1_mem E False pc addr s
         else if op = 0x39 then exec_cop1_mem E True pc addr s
         else if op = 0x32
         then (Fall, let (w, s1) = bus_read (read_word E) addr s in upd_gte (gte_write_data E (unat (RT insn)) w) s1)
         else if op = 0x3A
         then (Fall, bus_write (write_word E) addr (gte_read_data E (unat (RT insn)) (gte_of (cpu_of s))) s)
         else (Fall, s))"

section \<open>One instruction\<close>

definition clear_zero :: "'m interp_st \<Rightarrow> 'm interp_st" where
  "clear_zero = upd_cpu (\<lambda>c. c\<lparr> gpr := (gpr c)(0 := 0) \<rparr>)"

text \<open>Fetch, trace, advance the program counter and land the pending load.\<close>

definition fetch :: "'m cpu_env \<Rightarrow> 'm interp_st \<Rightarrow> u32 \<times> 'm interp_st" where
  "fetch E s =
     (let pc = cpu_pc (cpu_of s);
          (insn, s1) = bus_read (read_word E) pc s;
          s2 = (if s_trace_on s1 then trace_record insn s1 else s1)
      in (insn, apply_load_delay (set_pc (pc + 4) s2)))"

primrec exec_one :: "nat \<Rightarrow> 'm cpu_env \<Rightarrow> 'm interp_st \<Rightarrow> 'm interp_st option" where
  "exec_one 0 E s = None"
| "exec_one (Suc n) E s =
     (let pc = cpu_pc (cpu_of s)
      in if pc = 0 then Some (s\<lparr> s_halted := True \<rparr>)
         else let (insn, s1) = fetch E s;
                  (fl, s2) = exec_insn E pc insn s1
              in case fl of
                   Fall \<Rightarrow> Some (clear_zero s2)
                 | Return \<Rightarrow> Some s2
                 | Delay t \<Rightarrow> map_option (set_pc t) (exec_one n E s2)
                 | Delay_cop1 t \<Rightarrow> map_option (\<lambda>s3. if cpu_pc (cpu_of s3) \<noteq> pc + 8 then s3 else set_pc t s3) (exec_one n E s2))"

section \<open>Interrupt injection and the step loop\<close>

definition interp_vblank :: "('z timers_st_scheme) cpu_env \<Rightarrow> 'z timers_st_scheme \<Rightarrow> 'z timers_st_scheme" where
  "interp_vblank E m = cdrom_tick E (timers_tick 33868 (gpu_vblank_tick E (psx_irq_raise 0 0 m)))"

definition take_interrupt :: "cpu \<Rightarrow> cpu" where
  "take_interrupt c =
     (let sr = cop0 c 12;
          c1 = set_cop0 13 ((cop0 c 13 AND NOT 0x7C) OR push_bit 10 1) c;
          c2 = set_cop0 12 ((sr AND NOT 0x3F) OR push_bit 2 (sr AND 0x0F)) c1;
          c3 = set_cop0 14 (cpu_pc c2) c2
      in c3\<lparr> cpu_pc := exception_vector sr \<rparr>)"

definition interp_check_interrupts ::
  "('z timers_st_scheme) cpu_env \<Rightarrow> ('z timers_st_scheme) interp_st \<Rightarrow> ('z timers_st_scheme) interp_st" where
  "interp_check_interrupts E s =
     (let s1 = s\<lparr> mach := sio_tick E 0 (mach s), s_vblank_count := s_vblank_count s + 1 \<rparr>;
          s2 = (if s_vblank_count s1 \<ge> VBLANK_INTERVAL
                then s1\<lparr> s_vblank_count := 0, mach := interp_vblank E (mach s1) \<rparr> else s1);
          sr = cop0 (cpu_of s2) 12
      in if i_stat (mach s2) AND i_mask (mach s2) = 0 then s2
         else if sr AND 0x01 = 0 then s2
         else if sr AND push_bit 10 1 = 0 then s2
         else upd_cpu take_interrupt s2)"

definition at_breakpoint :: "'m interp_st \<Rightarrow> bool" where
  "at_breakpoint s \<longleftrightarrow> (\<exists>b\<in>set [0 ..< s_bp_count s]. cpu_pc (cpu_of s) = s_bp s b)"

primrec step_loop :: "nat \<Rightarrow> nat \<Rightarrow> ('z timers_st_scheme) cpu_env \<Rightarrow> u32 \<Rightarrow> ('z timers_st_scheme) interp_st
    \<Rightarrow> (u32 \<times> ('z timers_st_scheme) interp_st) option" where
  "step_loop 0 fuel E executed s = Some (executed, s)"
| "step_loop (Suc k) fuel E executed s =
     (if at_breakpoint s then Some (executed, s\<lparr> s_hit_bp := True \<rparr>)
      else case exec_one fuel E s of
             None \<Rightarrow> None
           | Some s1 \<Rightarrow>
             (if s_halted s1 then Some (executed + 1, s1)
              else step_loop k fuel E (executed + 1)
                     (if (executed + 1) AND 0xF = 0 then interp_check_interrupts E s1 else s1)))"

definition interp_step ::
  "nat \<Rightarrow> ('z timers_st_scheme) cpu_env \<Rightarrow> u32 \<Rightarrow> ('z timers_st_scheme) interp_st \<Rightarrow> (u32 \<times> ('z timers_st_scheme) interp_st) option" where
  "interp_step fuel E count s = step_loop (unat count) fuel E 0 (s\<lparr> s_hit_bp := False \<rparr>)"

definition interp_run ::
  "nat \<Rightarrow> ('z timers_st_scheme) cpu_env \<Rightarrow> u32 \<Rightarrow> ('z timers_st_scheme) interp_st \<Rightarrow> (u32 \<times> ('z timers_st_scheme) interp_st) option" where
  "interp_run fuel E max_instructions s = interp_step fuel E max_instructions s"

end
