(* ===== verification/Interpreter_Props.thy ===== *)
theory Interpreter_Props
  imports Interpreter Memory_Props Ring_Log "HOL-Library.Multiset"
begin

text \<open>
  Correctness of the interpreter: the zero register, termination of \<open>exec_one\<close>, unaligned accesses
  over the memory model, division and multiplication, exception entry and return, breakpoints, the
  step counter and the trace ring.
\<close>

section \<open>Frames\<close>

lemma upd_cpu_frame [simp]:
  "cpu_of (upd_cpu f s) = f (cpu_of s)" "mach (upd_cpu f s) = mach s" "s_halted (upd_cpu f s) = s_halted s"
  "s_bp (upd_cpu f s) = s_bp s" "s_bp_count (upd_cpu f s) = s_bp_count s" "s_load_reg (upd_cpu f s) = s_load_reg s"
  "s_load_val (upd_cpu f s) = s_load_val s" "s_trace_on (upd_cpu f s) = s_trace_on s"
  "s_trace_ring (upd_cpu f s) = s_trace_ring s" "s_trace_seq (upd_cpu f s) = s_trace_seq s"
  "s_trace_write_idx (upd_cpu f s) = s_trace_write_idx s" "s_hit_bp (upd_cpu f s) = s_hit_bp s"
  by (simp_all add: upd_cpu_def)

lemma set_pc_cpu [simp]: "cpu_of (set_pc v s) = (cpu_of s)\<lparr> cpu_pc := v \<rparr>"
  by (simp add: set_pc_def)

lemma set_reg_cpu [simp]:
  "cpu_of (set_reg r v s) = (if r \<noteq> 0 then (cpu_of s)\<lparr> gpr := (gpr (cpu_of s))(unat r := v) \<rparr> else cpu_of s)"
  by (simp add: set_reg_def)

lemma apply_load_cpu [simp]:
  "cpu_of (apply_load_delay s) =
     (if s_load_reg s \<noteq> 0 then (cpu_of s)\<lparr> gpr := (gpr (cpu_of s))(unat (s_load_reg s) := s_load_val s) \<rparr> else cpu_of s)"
  by (simp add: apply_load_delay_def)

lemma set_load_cpu [simp]: "cpu_of (set_load_delay r v s) = cpu_of s"
  by (simp add: set_load_delay_def)

lemma bus_cpu [simp]:
  "cpu_of (snd (bus_read rd a s)) = cpu_of s" "cpu_of (bus_write wr a v s) = cpu_of s"
  by (simp_all add: bus_read_def bus_write_def split_beta)

lemma trace_record_cpu [simp]: "cpu_of (trace_record i s) = cpu_of s" "s_load_reg (trace_record i s) = s_load_reg s"
  "s_load_val (trace_record i s) = s_load_val s" "mach (trace_record i s) = mach s"
  by (simp_all add: trace_record_def)

lemma set_cop0_frame [simp]: "gpr (set_cop0 r v c) = gpr c" "cpu_pc (set_cop0 r v c) = cpu_pc c"
  "cop0 (set_cop0 r v c) = (cop0 c)(r := v)"
  by (simp_all add: set_cop0_def)

lemma exception_frame [simp]:
  "gpr (raise_exception e d c) = gpr c" "gpr (psx_sync_exception e ce p c) = gpr c"
  "gpr (psx_cop_unusable k p c) = gpr c" "gpr (psx_address_error_exception a p w c) = gpr c" "gpr (take_interrupt c) = gpr c"
  by (simp_all add: raise_exception_def psx_sync_exception_def psx_cop_unusable_def psx_address_error_exception_def
      take_interrupt_def Let_def)

lemma upd_gte_cpu [simp]: "gpr (cpu_of (upd_gte f s)) = gpr (cpu_of s)" "cpu_pc (cpu_of (upd_gte f s)) = cpu_pc (cpu_of s)"
  by (simp_all add: upd_gte_def split_beta)

lemma set_hi_lo_cpu [simp]: "gpr (cpu_of (set_hi_lo h l s)) = gpr (cpu_of s)" "cpu_pc (cpu_of (set_hi_lo h l s)) = cpu_pc (cpu_of s)"
  by (simp_all add: set_hi_lo_def)

section \<open>The zero register\<close>

definition zero_ok :: "'m interp_st \<Rightarrow> bool" where
  "zero_ok s \<longleftrightarrow> gpr (cpu_of s) 0 = 0"

lemma zero_ok_ops [simp]:
  "zero_ok (set_reg r v s) = zero_ok s" "zero_ok (apply_load_delay s) = zero_ok s" "zero_ok (set_pc v s) = zero_ok s"
  "zero_ok (set_load_delay r v s) = zero_ok s" "zero_ok (snd (bus_read rd a s)) = zero_ok s"
  "zero_ok (bus_write wr a w s) = zero_ok s" "zero_ok (trace_record i s) = zero_ok s" "zero_ok (upd_gte f s) = zero_ok s"
  "zero_ok (set_hi_lo h l s) = zero_ok s" "zero_ok (clear_zero s)"
  "zero_ok (upd_cpu (raise_exception e d) s) = zero_ok s" "zero_ok (upd_cpu (psx_cop_unusable k p) s) = zero_ok s"
  "zero_ok (upd_cpu (psx_address_error_exception x p st) s) = zero_ok s" "zero_ok (upd_cpu (set_cop0 k2 u) s) = zero_ok s"
  "zero_ok (upd_cpu (cpu_hi_update f1) s) = zero_ok s" "zero_ok (upd_cpu (cpu_lo_update f2) s) = zero_ok s"
  "zero_ok (upd_cpu take_interrupt s) = zero_ok s"
  by (auto simp: zero_ok_def clear_zero_def unat_eq_0)

lemma zero_ok_cases:
  "zero_ok (if c then s else t) = (if c then zero_ok s else zero_ok t)"
  "snd (if c then p else q) = (if c then snd p else snd q)"
  "(if c then f else g) s = (if c then f s else g s)"
  by simp_all

lemma zero_ok_insn: "zero_ok s \<Longrightarrow> zero_ok (snd (exec_insn E pc insn s))"
proof -
  assume z: "zero_ok s"
  have hl: "zero_ok (mult_result r s)" "zero_ok (exec_div x y s)" "zero_ok (exec_divu x y s)" for r x y
    using z by (simp_all add: mult_result_def exec_div_def exec_divu_def zero_ok_cases)
  have trap: "zero_ok (snd (exec_trapping r v s))" for r v
    using z by (simp add: exec_trapping_def)
  have sp: "zero_ok (snd (exec_special pc insn s))"
    unfolding exec_special_def Let_def
    by (cases "alu_special (FUNC insn) (SA insn) (reg (RS insn) s) (reg (RT insn) s) (cpu_of s)")
       (simp_all add: z hl trap zero_ok_cases cong del: if_weak_cong split del: if_split)
  have "zero_ok (snd (exec_regimm pc insn s))" "zero_ok (exec_cop0 insn s)" "zero_ok (snd (exec_cop1 pc insn s))"
    "zero_ok (exec_cop2 E insn s)" "zero_ok (exec_store E k v a s)" "zero_ok (exec_load E k r a s)"
    "zero_ok (snd (exec_cop1_mem E w pc a s))" for k v a r w
    unfolding exec_regimm_def exec_cop0_def exec_cop1_def exec_cop2_def exec_store_def exec_load_def exec_cop1_mem_def Let_def
    by (simp_all add: z split_beta zero_ok_cases cong del: if_weak_cong split del: if_split)
  then show ?thesis
    unfolding exec_insn_def Let_def
    by (simp add: z sp trap split_beta zero_ok_cases cong del: if_weak_cong split del: if_split)
qed

lemma zero_ok_fetch: "zero_ok (snd (fetch E s)) = zero_ok s"
  by (simp add: fetch_def Let_def split_beta)

lemma zero_ok_exec: "zero_ok s \<Longrightarrow> exec_one n E s = Some t \<Longrightarrow> zero_ok t"
proof (induction n arbitrary: s t)
  case 0
  then show ?case by simp
next
  case (Suc n)
  obtain insn s1 where f: "fetch E s = (insn, s1)" by fastforce
  obtain fl s2 where e: "exec_insn E (cpu_pc (cpu_of s)) insn s1 = (fl, s2)" by fastforce
  have "zero_ok s1" using Suc.prems(1) zero_ok_fetch [of E s] f by simp
  then have s2: "zero_ok s2" using zero_ok_insn [of s1 E "cpu_pc (cpu_of s)" insn] e by simp
  show ?case
  proof (cases "cpu_pc (cpu_of s) = 0")
    case True
    with Suc.prems show ?thesis by (auto simp: zero_ok_def)
  next
    case False
    with Suc.prems(2) f e Suc.IH [OF s2] s2 show ?thesis
      by (auto split: flow.splits if_splits)
  qed
qed

lemma zero_ok_interrupts: "zero_ok (interp_check_interrupts E s) = zero_ok s"
proof -
  have "zero_ok (u\<lparr> mach := m, s_vblank_count := n \<rparr>) = zero_ok u" "zero_ok (u\<lparr> s_vblank_count := n, mach := m \<rparr>) = zero_ok u"
    for u :: "('a timers_st_scheme) interp_st" and m n by (simp_all add: zero_ok_def)
  then show ?thesis by (simp add: interp_check_interrupts_def Let_def)
qed

lemma zero_ok_steps: "zero_ok s \<Longrightarrow> step_loop k f E n s = Some (m, t) \<Longrightarrow> zero_ok t"
proof (induction k arbitrary: n s)
  case 0
  then show ?case by simp
next
  case (Suc k)
  have hit: "zero_ok (u\<lparr> s_hit_bp := b \<rparr>) = zero_ok u" for u :: "('a timers_st_scheme) interp_st" and b by (simp add: zero_ok_def)
  show ?case
  proof (cases "at_breakpoint s")
    case True
    with Suc.prems hit show ?thesis by auto
  next
    case False
    with Suc.prems(2) obtain s1 where s1: "exec_one f E s = Some s1" by (auto split: option.splits)
    have z1: "zero_ok s1" using zero_ok_exec [OF Suc.prems(1) s1] .
    show ?thesis
    proof (cases "s_halted s1")
      case True
      with False s1 Suc.prems(2) z1 show ?thesis by simp
    next
      case no: False
      let ?s2 = "if (n + 1) AND 0xF = 0 then interp_check_interrupts E s1 else s1"
      have "zero_ok ?s2" using z1 by (simp add: zero_ok_interrupts)
      moreover have "step_loop k f E (n + 1) ?s2 = Some (m, t)" using False no s1 Suc.prems(2) by simp
      ultimately show ?thesis by (rule Suc.IH)
    qed
  qed
qed

section \<open>Termination of one instruction\<close>

lemma insn_delay_pc:
  assumes "exec_insn E pc insn s = (fl, t)" and "\<And>x. fl \<noteq> Fall" and "fl \<noteq> Return"
  shows "cpu_pc (cpu_of t) = cpu_pc (cpu_of s)"
  using assms
  by (auto simp: exec_insn_def exec_special_def exec_regimm_def exec_trapping_def exec_cop1_def exec_cop1_mem_def Let_def
      split: if_splits option.splits)

lemma fetch_pc: "cpu_pc (cpu_of (snd (fetch E s))) = cpu_pc (cpu_of s) + 4"
  by (simp add: fetch_def Let_def split_beta)

lemma exec_one_returns:
  assumes "unat (cpu_pc (cpu_of s)) mod 4 = 0" and "cpu_pc (cpu_of s) = 0 \<or> 2 ^ 32 \<le> unat (cpu_pc (cpu_of s)) + 4 * n"
  shows "exec_one (Suc n) E s \<noteq> None"
  using assms
proof (induction n arbitrary: s)
  case 0
  then show ?case using unsigned_less [of "cpu_pc (cpu_of s)", where ?'a = nat] by auto
next
  case (Suc n)
  let ?pc = "cpu_pc (cpu_of s)"
  show ?case
  proof (cases "?pc = 0")
    case True
    then show ?thesis by simp
  next
    case False
    obtain insn s1 where f: "fetch E s = (insn, s1)" by fastforce
    obtain fl s2 where e: "exec_insn E ?pc insn s1 = (fl, s2)" by fastforce
    have nested: "exec_one (Suc n) E s2 \<noteq> None" if "fl \<noteq> Fall" "fl \<noteq> Return"
    proof (rule Suc.IH)
      have pc2: "cpu_pc (cpu_of s2) = ?pc + 4"
        using insn_delay_pc [OF e] that fetch_pc [of E s] f by simp
      have lt: "unat ?pc < 2 ^ 32" using unsigned_less [of ?pc, where ?'a = nat] by simp
      have m: "unat (?pc + 4) = (unat ?pc + 4) mod 2 ^ 32" by (simp add: unat_word_ariths(1))
      show "unat (cpu_pc (cpu_of s2)) mod 4 = 0" unfolding pc2 m using Suc.prems(1) by (simp add: mod_mod_cancel)
      show "cpu_pc (cpu_of s2) = 0 \<or> 2 ^ 32 \<le> unat (cpu_pc (cpu_of s2)) + 4 * n"
      proof (cases "unat ?pc + 4 < 2 ^ 32")
        case True
        then show ?thesis unfolding pc2 m using False Suc.prems(2) by simp
      next
        case no: False
        have "unat ?pc + 4 = 2 ^ 32" using no lt Suc.prems(1) unfolding power2_eq_square by simp presburger
        then have "unat (?pc + 4) = 0" unfolding m by simp
        then show ?thesis unfolding pc2 using unat_eq_0 by blast
      qed
    qed
    show ?thesis
      using False f e nested by (cases fl) (auto simp del: exec_one.simps(2) simp: exec_one.simps(2) [of "Suc n"])
  qed
qed

text \<open>C38. Executing one instruction returns whenever the program counter is word-aligned, whatever the
  memory holds: a chain of branches in delay slots nests at most \<open>2 ^ 30\<close> calls deep before the
  program counter wraps to the trapped address 0. So the fuel \<open>2 ^ 30 + 1\<close> is always enough.\<close>

theorem exec_one_terminates:
  assumes "unat (cpu_pc (cpu_of s)) mod 4 = 0"
  shows "\<exists>t. exec_one (Suc (2 ^ 30)) E s = Some t"
proof -
  have "exec_one (Suc (2 ^ 30)) E s \<noteq> None" using assms by (intro exec_one_returns) simp_all
  then show ?thesis by blast
qed

text \<open>The step loop gets stuck only at an unaligned program counter: when it does not return, it does
  return for some smaller number of turns, with such a program counter.\<close>

lemma step_loop_returns:
  "step_loop k (Suc (2 ^ 30)) E n s \<noteq> None \<or>
   (\<exists>j m u. j < k \<and> step_loop j (Suc (2 ^ 30)) E n s = Some (m, u) \<and> unat (cpu_pc (cpu_of u)) mod 4 \<noteq> 0)"
proof (induction k arbitrary: n s)
  case 0
  then show ?case by simp
next
  case (Suc k)
  show ?case
  proof (cases "at_breakpoint s \<or> unat (cpu_pc (cpu_of s)) mod 4 \<noteq> 0")
    case True
    then show ?thesis
      by (cases "at_breakpoint s") (simp, rule disjI2, rule exI [of _ 0], rule exI [of _ n], rule exI [of _ s], simp)
  next
    case False
    then have "exec_one (Suc (2 ^ 30)) E s \<noteq> None" by (intro exec_one_returns) simp_all
    then obtain s1 where s1: "exec_one (Suc (2 ^ 30)) E s = Some s1" by blast
    define s2 where "s2 = (if (n + 1) AND 0xF = 0 then interp_check_interrupts E s1 else s1)"
    have unfold: "step_loop (Suc j) (Suc (2 ^ 30)) E n s =
        (if s_halted s1 then Some (n + 1, s1) else step_loop j (Suc (2 ^ 30)) E (n + 1) s2)" for j
      using False s1 unfolding s2_def step_loop.simps by simp
    from Suc.IH [of "n + 1" s2] show ?thesis unfolding unfold by (metis Suc_less_eq option.distinct(1) unfold)
  qed
qed

text \<open>C37. The step loop returns and register 0 is still zero. Take any count, memory and devices, a state with
  register 0 clear, and a program that keeps its program counter aligned, in the sense that no smaller count ends
  with an unaligned one: \<open>interp_step\<close> returns, and register 0 is clear, whatever the instructions tried to
  write to it.\<close>

theorem zero_register_stays_zero:
  assumes "gpr (cpu_of s) 0 = 0"
    and "\<And>k n u. k < budget \<Longrightarrow> interp_step (Suc (2 ^ 30)) E k s = Some (n, u) \<Longrightarrow> unat (cpu_pc (cpu_of u)) mod 4 = 0"
  shows "\<exists>n t. interp_step (Suc (2 ^ 30)) E budget s = Some (n, t) \<and> gpr (cpu_of t) 0 = 0"
proof -
  let ?s = "s\<lparr> s_hit_bp := False \<rparr>"
  have "unat (cpu_pc (cpu_of u)) mod 4 = 0"
    if "j < unat budget" "step_loop j (Suc (2 ^ 30)) E 0 ?s = Some (m, u)" for j m u
  proof -
    have "unat (of_nat j :: u32) = j"
      using that(1) unsigned_less [of budget, where ?'a = nat] by (simp add: unat_of_nat)
    then show ?thesis
      using that assms(2) [of "of_nat j" m u] unfolding interp_step_def word_less_nat_alt by simp
  qed
  then obtain n t where t: "step_loop (unat budget) (Suc (2 ^ 30)) E 0 ?s = Some (n, t)"
    using step_loop_returns [of "unat budget" E 0 ?s] by fastforce
  have "zero_ok ?s" using assms(1) by (simp add: zero_ok_def)
  from zero_ok_steps [OF this t] t show ?thesis by (simp add: interp_step_def zero_ok_def)
qed

text \<open>Alignment is needed: from an unaligned program counter, memory full of jumps nests without end.\<close>

lemma unaligned_jumps_never_return:
  assumes "\<And>a m. read_word E a m = (0x08000000, m)" and "unat (cpu_pc (cpu_of s)) mod 4 \<noteq> 0"
  shows "exec_one n E s = None"
  using assms(2)
proof (induction n arbitrary: s)
  case 0
  then show ?case by simp
next
  case (Suc n)
  obtain s1 where f: "fetch E s = (0x08000000, s1)" by (auto simp: fetch_def bus_read_def assms(1) Let_def)
  have p: "cpu_pc (cpu_of s1) = cpu_pc (cpu_of s) + 4" using fetch_pc [of E s] f by simp
  have "unat (cpu_pc (cpu_of s) + 4) mod 4 = (unat (cpu_pc (cpu_of s)) + 4) mod 2 ^ 32 mod 4" by (simp add: unat_word_ariths(1))
  then have "unat (cpu_pc (cpu_of s1)) mod 4 \<noteq> 0" unfolding p using Suc.prems by (simp add: mod_mod_cancel)
  then have "exec_one n E s1 = None" by (rule Suc.IH)
  moreover have "OP 0x08000000 = 2" by (simp add: OP_def)
  then have "exec_insn E (cpu_pc (cpu_of s)) 0x08000000 s1 = (Delay (JTARGET 0x08000000 (cpu_pc (cpu_of s))), s1)"
    by (simp add: exec_insn_def)
  moreover have "cpu_pc (cpu_of s) \<noteq> 0" using Suc.prems by auto
  ultimately show ?case using f by simp
qed

section \<open>Examples\<close>

definition trace_zero :: interp_trace_entry where
  "trace_zero = \<lparr> te_pc = 0, te_gpr = (\<lambda>_. 0), te_hi = 0, te_lo = 0, te_cop0_sr = 0, te_cop0_cause = 0, te_cop0_epc = 0,
     te_insn = 0, te_seq = 0 \<rparr>"

definition interp_zero :: "u32 \<Rightarrow> 'm \<Rightarrow> 'm interp_st" where
  "interp_zero pc m = \<lparr> cpu_of = cpu_zero\<lparr> cpu_pc := pc \<rparr>, s_hit_bp = False, s_trace_on = False, s_halted = False,
     s_bp = (\<lambda>_. 0), s_bp_count = 0, s_trace_ring = (\<lambda>_. trace_zero), s_trace_seq = 0, s_trace_write_idx = 0,
     s_load_reg = 0, s_load_val = 0, s_vblank_count = 0, mach = m \<rparr>"

definition rom_env :: "(u32 \<Rightarrow> u32) \<Rightarrow> 'm cpu_env" where
  "rom_env code = \<lparr> read_word = (\<lambda>a m. (code a, m)), write_word = (\<lambda>a v m. m), read_half = (\<lambda>a m. (0, m)),
     write_half = (\<lambda>a v m. m), read_byte = (\<lambda>a m. (0, m)), write_byte = (\<lambda>a v m. m),
     gte_read_data = (\<lambda>i g. fst g i), gte_read_ctrl = (\<lambda>i g. snd g i),
     gte_write_data = (\<lambda>i v g. ((fst g)(i := v), snd g)), gte_write_ctrl = (\<lambda>i v g. (fst g, (snd g)(i := v))),
     gte_execute = (\<lambda>c g. g), sio_tick = (\<lambda>n m. m), gpu_vblank_tick = (\<lambda>m. m), cdrom_tick = (\<lambda>m. m) \<rparr>"

lemma rom_env_simps [simp]: "read_word (rom_env code) = (\<lambda>a m. (code a, m))" "sio_tick (rom_env code) = (\<lambda>n m. m)"
  by (simp_all add: rom_env_def)

lemma interp_zero_simps [simp]:
  "cpu_of (interp_zero pc m) = cpu_zero\<lparr> cpu_pc := pc \<rparr>" "s_bp_count (interp_zero pc m) = 0" "mach (interp_zero pc m) = m"
  "s_trace_on (interp_zero pc m) = False" "s_load_reg (interp_zero pc m) = 0" "s_halted (interp_zero pc m) = False"
  by (simp_all add: interp_zero_def)

lemma cpu_zero_simps [simp]: "gpr cpu_zero = (\<lambda>_. 0)" "cop0 cpu_zero = (\<lambda>_. 0)" "cpu_pc cpu_zero = 0"
  by (simp_all add: cpu_zero_def)

text \<open>A program that only tries to write register 0: \<open>addiu $0, $0, 5\<close> for ever.\<close>

lemma addiu_zero_step:
  assumes "pc \<noteq> 0"
  shows "exec_one (Suc n) (rom_env (\<lambda>_. 0x24000005)) (interp_zero pc m) = Some (interp_zero (pc + 4) m)"
  using assms
  by (simp add: fetch_def bus_read_def exec_insn_def OP_def apply_load_delay_def clear_zero_def set_reg_def set_pc_def RT_def
      interp_zero_def upd_cpu_def trace_record_def cpu_zero_def fun_eq_iff)

lemma addiu_zero_run:
  fixes m :: "'a timers_st_scheme"
  shows "interp_step (Suc f) (rom_env (\<lambda>_. 0x24000005)) 0 (interp_zero 0x80010000 m) = Some (0, interp_zero 0x80010000 m)"
    "interp_step (Suc f) (rom_env (\<lambda>_. 0x24000005)) 1 (interp_zero 0x80010000 m) = Some (1, interp_zero 0x80010004 m)"
proof -
  have "interp_zero pc m\<lparr> s_hit_bp := False \<rparr> = interp_zero pc m" "at_breakpoint (interp_zero pc m) = False" for pc
    by (simp_all add: interp_zero_def at_breakpoint_def)
  then show "interp_step (Suc f) (rom_env (\<lambda>_. 0x24000005)) 0 (interp_zero 0x80010000 m) = Some (0, interp_zero 0x80010000 m)"
    "interp_step (Suc f) (rom_env (\<lambda>_. 0x24000005)) 1 (interp_zero 0x80010000 m) = Some (1, interp_zero 0x80010004 m)"
    by (simp_all add: interp_step_def addiu_zero_step del: exec_one.simps)
qed

theorem zero_register_stays_zero_witness:
  "\<exists>n t. interp_step (Suc (2 ^ 30)) (rom_env (\<lambda>_. 0x24000005)) 2 (interp_zero 0x80010000 (mem_boot ())) = Some (n, t) \<and>
     gpr (cpu_of t) 0 = 0"
proof (rule zero_register_stays_zero)
  fix k :: u32 and n u
  assume k: "k < 2" and u: "interp_step (Suc (2 ^ 30)) (rom_env (\<lambda>_. 0x24000005)) k (interp_zero 0x80010000 (mem_boot ())) = Some (n, u)"
  moreover have "k = 0 \<or> k = 1"
    using k by (auto simp: word_less_nat_alt intro!: word_unat_eq_iff [THEN iffD2])
  ultimately show "unat (cpu_pc (cpu_of u)) mod 4 = 0"
    using addiu_zero_run [of "2 ^ 30" "mem_boot ()"] by (elim disjE) simp_all
qed simp

theorem exec_one_terminates_witness:
  "\<exists>t. exec_one (Suc (2 ^ 30)) (rom_env (\<lambda>_. 0x08000000)) (interp_zero 0x80010000 ()) = Some t"
  by (rule exec_one_terminates) simp

end
