(* ===== verification/Unaligned.thy ===== *)
theory Unaligned
  imports Interpreter_Props
begin

text \<open>
  Unaligned accesses: the interpreter's LWL/LWR and SWL/SWR pairs over the memory model move
  exactly the four bytes at the unaligned address, through every mirror of main RAM.
\<close>

section \<open>Words as bytes\<close>

lemma bit_word_at: "bit (word_at m a) n \<longleftrightarrow> n < 32 \<and> bit (m (a + n div 8)) (n mod 8)"
proof -
  consider "n < 8" | "8 \<le> n" "n < 16" | "16 \<le> n" "n < 24" | "24 \<le> n" "n < 32" | "32 \<le> n" by linarith
  then show ?thesis
  proof cases
    case 1
    then show ?thesis by (auto simp: word_at_def bit_simps)
  next
    case 2
    then have "n div 8 = 1" "n mod 8 = n - 8" by presburger+
    with 2 show ?thesis by (auto simp: word_at_def bit_simps dest: bit_imp_le_length)
  next
    case 3
    then have "n div 8 = 2" "n mod 8 = n - 16" by presburger+
    with 3 show ?thesis by (auto simp: word_at_def bit_simps dest: bit_imp_le_length)
  next
    case 4
    then have "n div 8 = 3" "n mod 8 = n - 24" by presburger+
    with 4 show ?thesis by (auto simp: word_at_def bit_simps dest: bit_imp_le_length)
  next
    case 5
    then show ?thesis by (auto dest: bit_imp_le_length)
  qed
qed

lemma and_3_eq: "(a :: u32) AND 3 = k \<longleftrightarrow> unat a mod 4 = unat k"
  using unat_and_3 [of a] by (metis unsigned_word_eqI)

lemma low_masks: "(0xFFFFFF :: u32) = mask 24" "(0xFFFF :: u32) = mask 16" "(0xFF :: u32) = mask 8"
  "(0xFF000000 :: u32) = NOT (mask 24)" "(0xFFFF0000 :: u32) = NOT (mask 16)" "(0xFFFFFF00 :: u32) = NOT (mask 8)"
  by (simp_all add: mask_eq_exp_minus_1)

text \<open>The two parts of the word at \<open>b + s\<close>, taken from the aligned words at \<open>b\<close> and \<open>b + 4\<close>.\<close>

lemma word_at_low_part:
  "bit (drop_bit (8 * s) (word_at m b)) n \<longleftrightarrow> 8 * s + n < 32 \<and> bit (m (b + s + n div 8)) (n mod 8)"
  by (simp add: bit_drop_bit_eq bit_word_at div_mult_self1 add.assoc)

lemma word_at_high_part:
  assumes "s < 4"
  shows "bit (push_bit (32 - 8 * s) (word_at m (b + 4))) n \<longleftrightarrow> 32 \<le> 8 * s + n \<and> n < 32 \<and> bit (m (b + s + n div 8)) (n mod 8)"
proof (cases "32 \<le> 8 * s + n")
  case True
  define j where "j = n - (32 - 8 * s)"
  have n: "n = j + 8 * (4 - s)" using True assms by (simp add: j_def)
  then have "n div 8 = j div 8 + (4 - s)" "n mod 8 = j mod 8" by simp_all
  then show ?thesis
    using True assms unfolding bit_push_bit_iff bit_word_at j_def [symmetric] by (auto simp: n ac_simps)
next
  case False
  then show ?thesis using assms by (auto simp: bit_push_bit_iff)
qed

lemma unaligned_word:
  assumes "s < 4"
  shows "(((cur AND mask (32 - 8 * s)) OR push_bit (32 - 8 * s) (word_at m (b + 4))) AND NOT (mask (32 - 8 * s))) OR
     drop_bit (8 * s) (word_at m b) = word_at m (b + s)"
proof (rule bit_word_eqI)
  fix n assume n: "n < LENGTH(32)"
  show "bit ((((cur AND mask (32 - 8 * s)) OR push_bit (32 - 8 * s) (word_at m (b + 4))) AND NOT (mask (32 - 8 * s))) OR
      drop_bit (8 * s) (word_at m b)) n = bit (word_at m (b + s)) n"
    using n assms unfolding bit_or_iff bit_and_iff bit_not_iff word_at_low_part word_at_high_part [OF assms] bit_word_at bit_mask_iff
    by auto
qed

lemma unaligned_merge:
  "lwr_merge a (lwl_merge (a + 3) cur (word_at m (if unat a mod 4 = 0 then b else b + 4))) (word_at m b) =
   word_at m (b + unat a mod 4)"
proof -
  have a3: "unat (a + 3) mod 4 = (unat a + 3) mod 4"
    by (simp add: unat_word_ariths(1) mod_mod_cancel)
  have "unat a mod 4 < 4" by simp
  then consider "unat a mod 4 = 0" | "unat a mod 4 = 1" | "unat a mod 4 = 2" | "unat a mod 4 = 3" by linarith
  then show ?thesis
  proof cases
    case 1
    then show ?thesis by (simp add: lwr_merge_def and_3_eq)
  next
    case 2
    then have "(unat a + 3) mod 4 = 0" by presburger
    with 2 unaligned_word [of 1 cur m b] show ?thesis
      unfolding lwr_merge_def lwl_merge_def and_3_eq a3 low_masks by simp
  next
    case 3
    then have "(unat a + 3) mod 4 = 1" by presburger
    with 3 unaligned_word [of 2 cur m b] show ?thesis
      unfolding lwr_merge_def lwl_merge_def and_3_eq a3 low_masks by simp
  next
    case 4
    then have "(unat a + 3) mod 4 = 2" by presburger
    with 4 unaligned_word [of 3 cur m b] show ?thesis
      unfolding lwr_merge_def lwl_merge_def and_3_eq a3 low_masks by simp
  qed
qed

lemma phys_nat:
  "unat (psx_phys_addr a) = (let p = unat a mod 0x20000000 in if p < 0x800000 then p mod 0x200000 else p)"
proof -
  have "unat (x AND 0x1FFFFFFF) = unat x mod 0x20000000" "unat (x AND 0x1FFFFF) = unat x mod 0x200000" for x :: u32
    using unat_and_mask [of x 29] unat_and_mask [of x 21] by (simp_all add: mask_eq_exp_minus_1)
  then show ?thesis
    by (simp add: psx_phys_addr_def psx_main_ram_mirror_phys_def Let_def word_less_nat_alt)
qed

lemma align_down: "unat (a AND NOT 3 :: u32) = unat a - unat a mod 4"
proof -
  have "a AND NOT (mask 2) = push_bit 2 (drop_bit 2 a)"
    by (rule bit_word_eqI) (unfold bit_and_iff bit_not_iff bit_mask_iff bit_push_bit_iff bit_drop_bit_eq o_apply, auto simp del: add_2_eq_Suc add_2_eq_Suc')
  then have "a = (a AND NOT (mask 2)) + (a AND mask 2)" using bits_ident [of 2 a] by (simp add: take_bit_eq_mask)
  then have "a AND NOT 3 = a - (a AND 3)" by (simp add: mask_eq_exp_minus_1 eq_diff_eq)
  moreover have "a AND 3 \<le> a" by (rule word_and_le2)
  ultimately show ?thesis by (simp add: unat_sub_le unat_and_3)
qed

lemma mod_by_4: "(r :: nat) < 4 \<Longrightarrow> (4 * y + r) mod (4 * k) = 4 * (y mod k) + r"
  by (simp add: mod_mult2_eq)

lemma phys_words:
  assumes "r < 4" and "unat a = 4 * y + r"
  shows "unat (psx_phys_addr a) = 4 * (if y mod 2 ^ 27 < 2 ^ 21 then y mod 2 ^ 19 else y mod 2 ^ 27) + r"
proof -
  have "(4 * y + r) mod 0x20000000 = 4 * (y mod 2 ^ 27) + r" "(4 * (y mod 2 ^ 27) + r) mod 0x200000 = 4 * (y mod 2 ^ 27 mod 2 ^ 19) + r"
    using mod_by_4 [OF assms(1), of y "2 ^ 27"] mod_by_4 [OF assms(1), of "y mod 2 ^ 27" "2 ^ 19"] by simp_all
  moreover have "y mod 2 ^ 27 mod 2 ^ 19 = y mod 2 ^ 19" by (rule mod_mod_cancel) (simp add: le_imp_power_dvd)
  ultimately show ?thesis using assms(1) unfolding phys_nat Let_def assms(2) by simp
qed

lemma phys_aligned:
  assumes "a < 0xC0000000" and "unat (psx_phys_addr a) + 3 < 0x200000"
  shows "unat (psx_phys_addr (a AND NOT 3)) = unat (psx_phys_addr a) - unat a mod 4"
    and "unat (psx_phys_addr ((a + 3) AND NOT 3)) = unat (psx_phys_addr a) - unat a mod 4 + (if unat a mod 4 = 0 then 0 else 4)"
    and "unat (psx_phys_addr a) mod 4 = unat a mod 4"
proof -
  have lt: "unat a < 0xC0000000" using assms(1) by (simp add: word_less_nat_alt)
  define r y where "r = unat a mod 4" and "y = unat a div 4"
  have a: "unat a = 4 * y + r" "r < 4" by (simp_all add: r_def y_def)
  have a3: "unat (a + 3) = unat a + 3" using lt by (simp add: unat_word_ariths(1))
  note p = phys_words [OF a(2,1)]
  have small: "y mod 2 ^ 27 < 2 ^ 21" "4 * (y mod 2 ^ 19) + r + 3 < 0x200000"
    using assms(2) p by (auto split: if_splits)
  show "unat (psx_phys_addr a) mod 4 = unat a mod 4" using p a(2) by (simp add: r_def)
  have d: "unat (a AND NOT 3) = 4 * y + 0" unfolding align_down using a by simp
  show "unat (psx_phys_addr (a AND NOT 3)) = unat (psx_phys_addr a) - unat a mod 4"
    using phys_words [OF _ d] p by (simp add: r_def)
  show "unat (psx_phys_addr ((a + 3) AND NOT 3)) = unat (psx_phys_addr a) - unat a mod 4 + (if unat a mod 4 = 0 then 0 else 4)"
  proof (cases "r = 0")
    case True
    have "unat ((a + 3) AND NOT 3) = 4 * y + 0" unfolding align_down a3 using a True by simp
    from phys_words [OF _ this] p True show ?thesis by (simp add: r_def)
  next
    case False
    have "(4 * y + r + 3) mod 4 = r - 1" using False a(2) by presburger
    then have u: "unat ((a + 3) AND NOT 3) = 4 * Suc y + 0" unfolding align_down a3 a(1) using False a(2) by simp
    have s19: "Suc y mod 2 ^ 19 = Suc (y mod 2 ^ 19)" using small(2) False by (simp add: mod_Suc)
    have "y mod 2 ^ 27 mod 2 ^ 19 = y mod 2 ^ 19" by (rule mod_mod_cancel) (simp add: le_imp_power_dvd)
    then have "y mod 2 ^ 27 \<noteq> 2 ^ 21 - 1" using small(2) False by (intro notI) simp
    then have "Suc y mod 2 ^ 27 < 2 ^ 21" using small(1) by (simp add: mod_Suc)
    with phys_words [OF _ u] s19 p small(1) False show ?thesis by (simp add: r_def)
  qed
qed
lemma put_word_bit:
  assumes "j < 8"
  shows "bit (put_word m a v i) j \<longleftrightarrow> (if a \<le> i \<and> i < a + 4 then bit v (8 * (i - a) + j) else bit (m i) j)"
proof -
  consider "i < a \<or> a + 4 \<le> i" | "i = a" | "i = a + 1" | "i = a + 2" | "i = a + 3" by linarith
  then show ?thesis
    using assms by cases (auto simp: put_word_def bit_simps)
qed

lemma unaligned_store_part:
  fixes m :: "nat \<Rightarrow> u8" and b :: nat and v :: u32
  assumes "0 < s" and "s < 4"
  defines "m1 \<equiv> put_word m (b + 4) ((word_at m (b + 4) AND NOT (mask (8 * s))) OR drop_bit (32 - 8 * s) v)"
  shows "put_word m1 b ((word_at m1 b AND mask (8 * s)) OR push_bit (8 * s) v) = put_word m (b + s) v"
proof
  fix i
  have keep: "word_at m1 b = word_at m b" unfolding m1_def by (rule word_at_put_word_other) simp
  show "put_word m1 b ((word_at m1 b AND mask (8 * s)) OR push_bit (8 * s) v) i = put_word m (b + s) v i"
  proof (rule bit_word_eqI)
    fix j assume "j < LENGTH(8)"
    then have j: "j < 8" by simp
    have w: "bit (word_at m c) (8 * q + j) \<longleftrightarrow> q < 4 \<and> bit (m (c + q)) j" for c q using j by (auto simp: bit_word_at)
    consider (lo) q where "i = b + q" "q < 4" | (hi) q where "i = b + 4 + q" "q < 4" | (out) "i < b \<or> b + 8 \<le> i"
    proof (cases "i < b \<or> b + 8 \<le> i")
      case False
      then show ?thesis using lo [of "i - b"] hi [of "i - b - 4"] by (cases "i < b + 4") auto
    qed (rule out)
    then show "bit (put_word m1 b ((word_at m1 b AND mask (8 * s)) OR push_bit (8 * s) v) i) j = bit (put_word m (b + s) v i) j"
    proof cases
      case lo
      have "8 * q + j < 8 * s \<longleftrightarrow> q < s" using j by linarith
      moreover have "s \<le> q \<Longrightarrow> 8 * q + j - 8 * s = 8 * (q - s) + j" by simp
      ultimately show ?thesis
        using lo assms(1,2) j by (auto simp: put_word_bit keep bit_or_iff bit_and_iff bit_mask_iff bit_push_bit_iff w dest: bit_imp_le_length)
    next
      case hi
      have "8 * q + j < 8 * s \<longleftrightarrow> q < s" using j by linarith
      moreover have "q < s \<Longrightarrow> 32 - 8 * s + (8 * q + j) = 8 * (4 + q - s) + j" using assms(2) by simp
      moreover have "s \<le> q \<Longrightarrow> \<not> bit v (32 - 8 * s + (8 * q + j))" using assms(2) by (auto dest: bit_imp_le_length)
      ultimately show ?thesis
        using hi assms(1,2) j unfolding m1_def
        by (auto simp: put_word_bit bit_or_iff bit_and_iff bit_not_iff bit_mask_iff bit_drop_bit_eq w dest: bit_imp_le_length)
    next
      case out
      then show ?thesis using assms(1,2) j unfolding m1_def by (auto simp: put_word_bit)
    qed
  qed
qed
section \<open>The instruction pairs\<close>

text \<open>The access functions of \<open>CPUState\<close> as main wires them: the accessors of memory.c.\<close>

definition wire_memory :: "('z mem_st_scheme) mmio_ops \<Rightarrow> ('z mem_st_scheme) cpu_env \<Rightarrow> ('z mem_st_scheme) cpu_env" where
  "wire_memory M E =
     E\<lparr> read_word := psx_read_word_raw M, write_word := psx_write_word_raw M, read_half := psx_read_half_raw M,
        write_half := psx_write_half_raw M, read_byte := psx_read_byte_raw M, write_byte := psx_write_byte_raw M \<rparr>"

lemma wire_memory_simps [simp]:
  "read_word (wire_memory M E) = psx_read_word_raw M" "write_word (wire_memory M E) = psx_write_word_raw M"
  by (simp_all add: wire_memory_def)

lemma main_ram_aligned:
  assumes "a < 0xC0000000" and "unat (psx_phys_addr a) + 3 < 0x200000"
  shows "main_ram (a AND NOT 3)" and "main_ram ((a + 3) AND NOT 3)"
proof -
  note p = phys_aligned [OF assms]
  have lt: "unat a < 0xC0000000" using assms(1) by (simp add: word_less_nat_alt)
  have "unat (a AND NOT 3) < 0xC0000000" using lt unfolding align_down by simp
  then show "main_ram (a AND NOT 3)"
    using p(1) assms(2) by (simp add: main_ram_def word_less_nat_alt)
  have "unat (a + 3) = unat a + 3" using lt by (simp add: unat_word_ariths(1))
  then have le: "unat ((a + 3) AND NOT 3) \<le> 0xC0000000" unfolding align_down using lt by presburger
  have "unat ((a + 3) AND NOT 3) \<noteq> 0xC0000000"
  proof
    assume "unat ((a + 3) AND NOT 3) = 0xC0000000"
    then have z: "unat (psx_phys_addr ((a + 3) AND NOT 3)) = 0" unfolding phys_nat by simp
    have "unat a mod 4 \<le> unat (psx_phys_addr a)" using p(3) by (metis mod_less_eq_dividend)
    with z p(2) have "unat a mod 4 = 0" by (auto split: if_splits)
    moreover from this have "unat ((a + 3) AND NOT 3) = unat a"
      unfolding align_down \<open>unat (a + 3) = unat a + 3\<close> by presburger
    ultimately show False using \<open>unat ((a + 3) AND NOT 3) = 0xC0000000\<close> lt by simp
  qed
  with le have "unat ((a + 3) AND NOT 3) < 0xC0000000" by simp
  then show "main_ram ((a + 3) AND NOT 3)"
    using p(2) assms(2) p(3) by (simp add: main_ram_def word_less_nat_alt split: if_splits)
qed

text \<open>The four unaligned accesses, with the aligned address kept as a variable.\<close>

lemma unaligned_loads:
  assumes "x = addr AND NOT 3"
  shows "exec_load E 0x22 rt addr s = (let (w, s1) = bus_read (read_word E) x s in set_reg rt (lwl_merge addr (reg rt s1) w) s1)"
    "exec_load E 0x26 rt addr s = (let (w, s1) = bus_read (read_word E) x s in set_reg rt (lwr_merge addr (reg rt s1) w) s1)"
  using assms by (simp_all add: exec_load_def)

lemma unaligned_stores:
  assumes "x = addr AND NOT 3"
  shows "exec_store E 0x2A v addr s =
      (let (cur, s1) = bus_read (read_word E) x s in bus_write (write_word E) x (swl_merge addr cur v) s1)"
    "exec_store E 0x2E v addr s =
      (let (cur, s1) = bus_read (read_word E) x s in bus_write (write_word E) x (swr_merge addr cur v) s1)"
  using assms by (simp_all add: exec_store_def)

text \<open>Both aligned words of an unaligned access, as main RAM sees them.\<close>

lemma aligned_words:
  assumes "a < 0xC0000000" and "unat (psx_phys_addr a) + 3 < 0x200000"
  obtains lo hi where "lo = a AND NOT 3" "hi = (a + 3) AND NOT 3" "main_ram lo" "main_ram hi"
    "unat (psx_phys_addr lo) = unat (psx_phys_addr a) - unat a mod 4"
    "unat (psx_phys_addr hi) = (if unat a mod 4 = 0 then unat (psx_phys_addr a) - unat a mod 4 else unat (psx_phys_addr a) - unat a mod 4 + 4)"
    "unat a mod 4 \<le> unat (psx_phys_addr a)"
proof (rule that [OF refl refl])
  note p = phys_aligned [OF assms]
  show "main_ram (a AND NOT 3)" "main_ram ((a + 3) AND NOT 3)" by (rule main_ram_aligned [OF assms])+
  show "unat (psx_phys_addr (a AND NOT 3)) = unat (psx_phys_addr a) - unat a mod 4" by (rule p(1))
  show "unat (psx_phys_addr ((a + 3) AND NOT 3)) =
      (if unat a mod 4 = 0 then unat (psx_phys_addr a) - unat a mod 4 else unat (psx_phys_addr a) - unat a mod 4 + 4)"
    unfolding p(2) by simp
  show "unat a mod 4 \<le> unat (psx_phys_addr a)" using p(3) by (metis mod_less_eq_dividend)
qed

text \<open>C39. Unaligned loads: LWL at \<open>a + 3\<close> followed by LWR at \<open>a\<close> leaves in the register the word made
  of the four bytes at \<open>a\<close>, for every address of main RAM in every segment and mirror, whatever the
  register held, and memory is not changed.\<close>

theorem unaligned_load_pair:
  assumes "a < 0xC0000000" and "unat (psx_phys_addr a) + 3 < 0x200000" and "rt \<noteq> 0"
  shows "let E' = wire_memory M E; t = exec_load E' 0x26 rt a (exec_load E' 0x22 rt (a + 3) s)
     in reg rt t = word_at (ram (mach s)) (unat (psx_phys_addr a)) \<and> mach t = mach s"
proof -
  from assms(1,2) obtain lo hi where x: "lo = a AND NOT 3" "hi = (a + 3) AND NOT 3" and r: "main_ram lo" "main_ram hi"
    and p: "unat (psx_phys_addr lo) = unat (psx_phys_addr a) - unat a mod 4"
      "unat (psx_phys_addr hi) = (if unat a mod 4 = 0 then unat (psx_phys_addr a) - unat a mod 4 else unat (psx_phys_addr a) - unat a mod 4 + 4)"
    and le: "unat a mod 4 \<le> unat (psx_phys_addr a)" by (rule aligned_words)
  show ?thesis
    using unaligned_merge [of a "reg rt s" "ram (mach s)" "unat (psx_phys_addr a) - unat a mod 4"] le assms(3)
    unfolding unaligned_loads(1) [OF x(2)] unaligned_loads(2) [OF x(1)]
    by (simp add: bus_read_def read_word_main_ram [OF r(1)] read_word_main_ram [OF r(2)] p set_reg_def upd_cpu_def reg_def)
qed

lemma write_word_keeps_gates:
  assumes "main_ram a"
  shows "store_isolated (psx_write_word_raw M a v s) = store_isolated s"
    "fntrace_game_started (psx_write_word_raw M a v s) = fntrace_game_started s"
proof -
  have "sr_ref (psx_write_word_raw M a v s) = sr_ref s" "fntrace_game_started (psx_write_word_raw M a v s) = fntrace_game_started s"
    by (simp_all add: write_word_main_ram [OF assms] store_ram_word_def d44_note_def note_ram_store_keeps kbless_drop_def Let_def)
  then show "store_isolated (psx_write_word_raw M a v s) = store_isolated s"
    "fntrace_game_started (psx_write_word_raw M a v s) = fntrace_game_started s"
    by (simp_all add: store_isolated_def)
qed

lemma unaligned_store_merge:
  "(let m1 = put_word m (if unat a mod 4 = 0 then b else b + 4)
                (swl_merge (a + 3) (word_at m (if unat a mod 4 = 0 then b else b + 4)) v)
    in put_word m1 b (swr_merge a (word_at m1 b) v)) = put_word m (b + unat a mod 4) v"
proof -
  have a3: "unat (a + 3) mod 4 = (unat a + 3) mod 4"
    by (simp add: unat_word_ariths(1) mod_mod_cancel)
  have "unat a mod 4 < 4" by simp
  then consider "unat a mod 4 = 0" | "unat a mod 4 = 1" | "unat a mod 4 = 2" | "unat a mod 4 = 3" by linarith
  then show ?thesis
  proof cases
    case 1
    then have "(unat a + 3) mod 4 = 3" by presburger
    with 1 show ?thesis by (simp add: swr_merge_def swl_merge_def and_3_eq a3 put_word_def fun_upd_twist)
  next
    case 2
    then have "(unat a + 3) mod 4 = 0" by presburger
    with 2 unaligned_store_part [of 1 m b v] show ?thesis
      unfolding swr_merge_def swl_merge_def and_3_eq a3 low_masks by (simp add: Let_def)
  next
    case 3
    then have "(unat a + 3) mod 4 = 1" by presburger
    with 3 unaligned_store_part [of 2 m b v] show ?thesis
      unfolding swr_merge_def swl_merge_def and_3_eq a3 low_masks by (simp add: Let_def)
  next
    case 4
    then have "(unat a + 3) mod 4 = 2" by presburger
    with 4 unaligned_store_part [of 3 m b v] show ?thesis
      unfolding swr_merge_def swl_merge_def and_3_eq a3 low_masks by (simp add: Let_def)
  qed
qed

text \<open>Unaligned stores: SWL at \<open>a + 3\<close> followed by SWR at \<open>a\<close> writes the four bytes of the register
  at \<open>a\<close> and changes no other byte of main RAM, while stores reach memory (the data cache is not
  isolated and the store filters of the game phase are off).\<close>

lemma unaligned_store_pair:
  assumes "a < 0xC0000000" and "unat (psx_phys_addr a) + 3 < 0x200000"
    and "\<not> store_isolated (mach s)" and "\<not> fntrace_game_started (mach s)"
  shows "let E' = wire_memory M E; t = exec_store E' 0x2E v a (exec_store E' 0x2A v (a + 3) s)
     in ram (mach t) = put_word (ram (mach s)) (unat (psx_phys_addr a)) v"
proof -
  let ?b = "unat (psx_phys_addr a) - unat a mod 4"
  let ?u = "if unat a mod 4 = 0 then ?b else ?b + 4"
  from assms(1,2) obtain lo hi where x: "lo = a AND NOT 3" "hi = (a + 3) AND NOT 3" and r: "main_ram lo" "main_ram hi"
    and p: "unat (psx_phys_addr lo) = ?b" "unat (psx_phys_addr hi) = ?u" and le: "unat a mod 4 \<le> unat (psx_phys_addr a)"
    by (rule aligned_words)
  have vis: "store_visible y z m" if "\<not> store_isolated m" "\<not> fntrace_game_started m" for y z and m :: "'a mem_st_scheme"
    using that by (simp add: store_visible_def low_store_dropped_def card_event_store_dropped_def)
  define w where "w = swl_merge (a + 3) (word_at (ram (mach s)) ?u) v"
  define m1 where "m1 = psx_write_word_raw M hi w (mach s)"
  have m1: "ram m1 = put_word (ram (mach s)) ?u w" "\<not> store_isolated m1" "\<not> fntrace_game_started m1"
    using vis [OF assms(3,4)] write_word_keeps_gates [OF r(2), of M w "mach s"] assms(3,4)
    by (simp_all add: m1_def ram_write_word_main_ram [OF r(2)] p)
  have "mach (exec_store (wire_memory M E) 0x2A v (a + 3) s) = m1"
    unfolding unaligned_stores(1) [OF x(2)]
    by (simp add: bus_read_def bus_write_def read_word_main_ram [OF r(2)] p m1_def w_def)
  then have "ram (mach (exec_store (wire_memory M E) 0x2E v a (exec_store (wire_memory M E) 0x2A v (a + 3) s)))
      = put_word (ram m1) ?b (swr_merge a (word_at (ram m1) ?b) v)"
    using vis [OF m1(2,3)]
    unfolding unaligned_stores(2) [OF x(1)]
    by (simp add: bus_read_def bus_write_def read_word_main_ram [OF r(1)] p ram_write_word_main_ram [OF r(1)])
  then show ?thesis
    using unaligned_store_merge [of "ram (mach s)" a ?b v] le by (simp add: m1(1) w_def Let_def)
qed

section \<open>Examples\<close>

theorem unaligned_load_pair_witness:
  "let E = wire_memory no_mmio (rom_env (\<lambda>_. 0)); s = interp_zero 0x80010000 (mem_boot ())
   in reg 8 (exec_load E 0x26 8 0x80201002 (exec_load E 0x22 8 0x80201005 s)) = word_at (\<lambda>_. 0) 0x1002"
  using unaligned_load_pair [of "0x80201002" 8 no_mmio "rom_env (\<lambda>_. 0)" "interp_zero 0x80010000 (mem_boot ())"]
  by (simp add: Let_def psx_phys_addr_def psx_main_ram_mirror_phys_def)

lemma unaligned_store_pair_example:
  "let E = wire_memory no_mmio (rom_env (\<lambda>_. 0)); s = interp_zero 0x80010000 (mem_boot ())
   in ram (mach (exec_store E 0x2E 0x11223344 0x80201002 (exec_store E 0x2A 0x11223344 0x80201005 s))) 0x1003 = 0x33"
  using unaligned_store_pair [of "0x80201002" "interp_zero 0x80010000 (mem_boot ())" no_mmio "rom_env (\<lambda>_. 0)" "0x11223344"]
  by (simp add: Let_def psx_phys_addr_def psx_main_ram_mirror_phys_def store_isolated_def put_word_def)

end
