(* ===== verification/Interp_Debug.thy ===== *)
theory Interp_Debug
  imports Interpreter_Props
begin

text \<open>
  The debugging side of the interpreter: the breakpoint table as a bag of addresses, what the step
  loop reports, and the trace ring as an instance of the shared ring contract.
\<close>

section \<open>Breakpoints\<close>

definition bps :: "'m interp_st \<Rightarrow> u32 multiset" where
  "bps s = mset (map (s_bp s) [0 ..< s_bp_count s])"

lemma at_breakpoint_iff: "at_breakpoint s \<longleftrightarrow> cpu_pc (cpu_of s) \<in># bps s"
  by (auto simp: at_breakpoint_def bps_def)

lemma bps_add: "s_bp_count s < MAX_BREAKPOINTS \<Longrightarrow> bps (snd (interp_break_add pc s)) = add_mset pc (bps s)"
  by (simp add: interp_break_add_def bps_def)

text \<open>Removal moves the last entry into the hole.\<close>

lemma mset_move_last:
  assumes "i < Suc n"
  shows "mset (map (f(i := f n)) [0 ..< n]) = mset (map f [0 ..< Suc n]) - {# f i #}"
proof (cases "i = n")
  case True
  then show ?thesis by (simp cong: map_cong)
next
  case False
  then have i: "i < n" using assms by simp
  have "map (f(i := f n)) [0 ..< n] = (map f [0 ..< n])[i := f n]"
    by (rule nth_equalityI) (auto simp: nth_list_update)
  then show ?thesis using i by (simp add: mset_update)
qed

lemma bps_remove:
  "fst (interp_break_remove pc s) \<longleftrightarrow> pc \<in># bps s" "bps (snd (interp_break_remove pc s)) = bps s - {# pc #}"
proof -
  let ?r = "find (\<lambda>i. s_bp s i = pc) [0 ..< s_bp_count s]"
  have "(fst (interp_break_remove pc s) \<longleftrightarrow> pc \<in># bps s) \<and> bps (snd (interp_break_remove pc s)) = bps s - {# pc #}"
  proof (cases ?r)
    case None
    then have "pc \<notin># bps s" by (auto simp: find_None_iff bps_def)
    with None show ?thesis by (simp add: interp_break_remove_def diff_single_trivial)
  next
    case (Some i)
    then have i: "i < s_bp_count s" "s_bp s i = pc" by (auto simp: find_Some_iff)
    then obtain n where n: "s_bp_count s = Suc n" by (cases "s_bp_count s") auto
    have "pc \<in># bps s" using i by (auto simp: bps_def)
    moreover have "mset (map ((s_bp s)(i := s_bp s n)) [0 ..< n]) = bps s - {# pc #}"
      using mset_move_last [of i n "s_bp s"] i n by (simp add: bps_def)
    ultimately show ?thesis using Some n by (simp add: interp_break_remove_def bps_def)
  qed
  then show "fst (interp_break_remove pc s) \<longleftrightarrow> pc \<in># bps s" "bps (snd (interp_break_remove pc s)) = bps s - {# pc #}"
    by blast+
qed

text \<open>The breakpoint table is a bag of at most 64 addresses: adding inserts one copy and is
  refused (with -1 and no change) exactly when the table is full, removing takes out one copy and
  reports whether there was one, clearing empties it, and the check before each step stops exactly
  at the addresses of the bag.\<close>

lemma breakpoints_are_a_bag:
  "interp_break_add pc s = (if size (bps s) \<ge> MAX_BREAKPOINTS then (- 1, s) else (int (size (bps s)), snd (interp_break_add pc s)))
   \<and> bps (snd (interp_break_add pc s)) = (if size (bps s) \<ge> MAX_BREAKPOINTS then bps s else add_mset pc (bps s))
   \<and> fst (interp_break_remove pc s) = (pc \<in># bps s)
   \<and> bps (snd (interp_break_remove pc s)) = bps s - {# pc #}
   \<and> bps (interp_break_clear_all s) = {#}
   \<and> at_breakpoint s = (cpu_pc (cpu_of s) \<in># bps s)"
proof -
  have sz: "size (bps s) = s_bp_count s" and cl: "bps (interp_break_clear_all s) = {#}"
    by (simp_all add: bps_def interp_break_clear_all_def)
  show ?thesis
  proof (cases "s_bp_count s \<ge> MAX_BREAKPOINTS")
    case True
    then have "interp_break_add pc s = (- 1, s)" by (simp add: interp_break_add_def)
    with True show ?thesis by (simp add: sz cl bps_remove at_breakpoint_iff)
  next
    case False
    then have "fst (interp_break_add pc s) = int (s_bp_count s)" by (simp add: interp_break_add_def)
    with False show ?thesis by (simp add: sz cl bps_remove at_breakpoint_iff bps_add prod_eq_iff)
  qed
qed

section \<open>The step counter\<close>

definition stopped_early :: "'m interp_st \<Rightarrow> bool" where
  "stopped_early t \<longleftrightarrow> s_halted t \<or> (interp_hit_breakpoint t \<and> at_breakpoint t)"

lemma step_loop_count:
  assumes "step_loop k fuel E n s = Some (m, t)" and "unat n + k < 2 ^ 32"
  shows "unat n \<le> unat m \<and> unat m \<le> unat n + k \<and> (unat m < unat n + k \<longrightarrow> stopped_early t)"
  using assms
proof (induction k arbitrary: n s)
  case 0
  then show ?case by simp
next
  case (Suc k)
  have n1: "unat (n + 1) = Suc (unat n)" using Suc.prems(2) by (simp add: unat_word_ariths(1))
  show ?case
  proof (cases "at_breakpoint s")
    case True
    then have "at_breakpoint (s\<lparr> s_hit_bp := True \<rparr>)" by (simp add: at_breakpoint_def)
    with True Suc.prems(1) show ?thesis by (auto simp: stopped_early_def interp_hit_breakpoint_def)
  next
    case False
    with Suc.prems(1) obtain s1 where s1: "exec_one fuel E s = Some s1" by (auto split: option.splits)
    show ?thesis
    proof (cases "s_halted s1")
      case True
      with False s1 Suc.prems(1) have "m = n + 1" "t = s1" by auto
      then show ?thesis using n1 True by (auto simp: stopped_early_def)
    next
      case no: False
      with False s1 Suc.prems(1) have
        "step_loop k fuel E (n + 1) (if (n + 1) AND 0xF = 0 then interp_check_interrupts E s1 else s1) = Some (m, t)" by simp
      from Suc.IH [OF this] show ?thesis using Suc.prems(2) unfolding n1 by simp
    qed
  qed
qed

text \<open>What a run reports: the count it returns is at most the requested one, and it is smaller
  only when the machine halted on a jump to address 0 or stands at a breakpoint that was reported.\<close>

lemma interp_run_count:
  assumes "interp_run fuel E budget s = Some (n, t)"
  shows "n \<le> budget \<and> (n < budget \<longrightarrow> s_halted t \<or> (interp_hit_breakpoint t \<and> cpu_pc (cpu_of t) \<in># bps t))"
proof -
  have "unat (0 :: u32) + unat budget < 2 ^ 32" using unsigned_less [of budget, where ?'a = nat] by simp
  from step_loop_count [OF assms [unfolded interp_run_def interp_step_def] this] show ?thesis
    by (simp add: word_le_nat_alt word_less_nat_alt stopped_early_def at_breakpoint_iff)
qed

section \<open>The trace ring\<close>

definition trace_at :: "u32 \<Rightarrow> cpu \<Rightarrow> 'm interp_st \<Rightarrow> 'm interp_st" where
  "trace_at insn c s = trace_record insn (s\<lparr> cpu_of := c \<rparr>)"

interpretation interp_log: ring_log
  "2 ^ 20"
  "\<lambda>s. s_trace_write_idx s < TRACE_RING_SIZE"
  "\<lambda>s :: 'm interp_st. unat (s_trace_write_idx s)"
  s_trace_ring
  "\<lambda>(insn, c). trace_at insn c"
  "\<lambda>(insn, c) s. mk_trace_entry insn (s\<lparr> cpu_of := c \<rparr>)"
proof (unfold_locales, goal_cases)
  case (2 s)
  then show ?case by (simp add: word_less_nat_alt)
next
  case (3 s x)
  have "unat ((s_trace_write_idx s + 1) AND 0xFFFFF) = unat (s_trace_write_idx s + 1) mod 2 ^ 20"
    using unat_and_mask [of "s_trace_write_idx s + 1" 20] by (simp add: mask_eq_exp_minus_1)
  then show ?case by (simp add: split_beta trace_at_def trace_record_def word_less_nat_alt)
next
  case (4 s x)
  have "unat (s_trace_write_idx s + 1) = Suc (unat (s_trace_write_idx s))"
    using 4 by (simp add: word_less_nat_alt unat_word_ariths(1))
  then have "unat ((s_trace_write_idx s + 1) AND 0xFFFFF) = Suc (unat (s_trace_write_idx s)) mod 2 ^ 20"
    using unat_and_mask [of "s_trace_write_idx s + 1" 20] by (simp add: mask_eq_exp_minus_1)
  then show ?case by (simp add: split_beta trace_at_def trace_record_def)
next
  case (5 s x i)
  then show ?case by (simp add: split_beta trace_at_def trace_record_def)
qed simp

lemma take_bit_shift: "take_bit 20 (x - 0x100000 + i :: u32) = take_bit 20 (x + i)"
proof -
  have "(a - 0x100000 + b) mod 2 ^ 20 = (a + b) mod (2 :: int) ^ 20" for a b :: int
  proof -
    have "a + b = (a - 0x100000 + b) + 2 ^ 20" by simp
    then show ?thesis by (metis mod_add_self2)
  qed
  then show ?thesis by transfer (simp add: take_bit_eq_mod)
qed

lemma trace_seq_notes:
  "s_trace_seq (fold (\<lambda>(insn, c). trace_at insn c) rs s) = s_trace_seq s + of_nat (length rs)"
  by (induction rs arbitrary: s) (auto simp: trace_at_def trace_record_def)

text \<open>The trace ring answers by age: after any run of recorded instructions, index \<open>i\<close> counts
  from the oldest entry still held, the last \<open>2 ^ 20\<close> records are all there in order, each with the
  registers and the sequence number it was recorded with, and every other index is refused.\<close>

lemma trace_get_by_age:
  fixes rs :: "(u32 \<times> cpu) list"
  assumes "s_trace_seq s = 0" and "s_trace_write_idx s = 0" and "length rs < 2 ^ 64"
  shows "interp_trace_get i (fold (\<lambda>(insn, c). trace_at insn c) rs s) =
     (let avail = min (length rs) (2 ^ 20); j = length rs - avail + unat i
      in if unat i < avail then Some (mk_trace_entry (fst (rs ! j)) (s\<lparr> cpu_of := snd (rs ! j), s_trace_seq := of_nat j \<rparr>))
         else None)"
proof -
  let ?f = "\<lambda>(insn, c). trace_at insn c"
  let ?t = "fold ?f rs s"
  define n where "n = length rs"
  define avail :: u32 where "avail = (if s_trace_seq ?t < ucast TRACE_RING_SIZE then ucast (s_trace_seq ?t) else TRACE_RING_SIZE)"
  have ok: "s_trace_write_idx s < TRACE_RING_SIZE" using assms(2) by simp
  have seq: "unat (s_trace_seq ?t) = n"
    using assms(1,3) by (simp add: trace_seq_notes n_def unsigned_of_nat take_bit_nat_eq_self)
  have av: "unat avail = min n (2 ^ 20)"
  proof (cases "s_trace_seq ?t < ucast TRACE_RING_SIZE")
    case True
    then have "n < 2 ^ 20" using seq by (simp add: word_less_nat_alt)
    moreover have "unat (ucast (s_trace_seq ?t) :: u32) = unat (s_trace_seq ?t)"
      using calculation seq by (simp add: unsigned_ucast_eq unsigned_take_bit_eq take_bit_nat_eq_self)
    ultimately show ?thesis using True seq by (simp add: avail_def)
  next
    case False
    then show ?thesis using seq by (simp add: avail_def word_less_nat_alt)
  qed
  have widx: "unat (s_trace_write_idx ?t) = n mod 2 ^ 20"
    using interp_log.head_notes [OF ok, of rs] assms(2) by (simp add: n_def)
  show ?thesis
  proof (cases "unat i < min n (2 ^ 20)")
    case False
    then have "i \<ge> avail" using av unfolding word_le_nat_alt by linarith
    then show ?thesis
      using False unfolding interp_trace_get_def Let_def avail_def [symmetric] n_def [symmetric] by simp
  next
    case True
    define j where "j = n - min n (2 ^ 20) + unat i"
    have j: "j < length rs" "length rs \<le> j + 2 ^ 20" using True by (auto simp: j_def n_def)
    have entry: "s_trace_ring ?t (j mod 2 ^ 20) = mk_trace_entry (fst (rs ! j)) (s\<lparr> cpu_of := snd (rs ! j), s_trace_seq := of_nat j \<rparr>)"
    proof -
      have "s_trace_seq (fold ?f (take j rs) s) = of_nat j"
        using assms(1) j(1) by (simp add: trace_seq_notes)
      then show ?thesis
        using interp_log.entry_retained [OF ok j(1,2)] assms(2) by (simp add: split_beta mk_trace_entry_def Let_def)
    qed
    have "unat ((s_trace_write_idx ?t - avail + i) AND TRACE_RING_MASK) = j mod 2 ^ 20"
    proof (cases "n < 2 ^ 20")
      case small: True
      have "s_trace_write_idx ?t = avail" unfolding word_unat_eq_iff using small widx av by simp
      moreover have "unat i < 2 ^ 20" using True small by simp
      ultimately show ?thesis
        using small unat_and_mask [of i 20] by (simp add: j_def mask_eq_exp_minus_1)
    next
      case big: False
      then have a: "avail = 0x100000" using av by (simp add: word_unat_eq_iff)
      have lt: "unat (s_trace_write_idx ?t) < 2 ^ 20" "unat i < 2 ^ 20" using widx True by simp_all
      have "take_bit 20 (s_trace_write_idx ?t - avail + i) = take_bit 20 (s_trace_write_idx ?t + i)"
        unfolding a by (rule take_bit_shift)
      then have "unat ((s_trace_write_idx ?t - avail + i) AND TRACE_RING_MASK) = unat (s_trace_write_idx ?t + i) mod 2 ^ 20"
        using unat_and_mask [of "s_trace_write_idx ?t + i" 20] by (simp add: take_bit_eq_mask mask_eq_exp_minus_1)
      also have "unat (s_trace_write_idx ?t + i) = n mod 2 ^ 20 + unat i"
        using lt widx by (simp add: unat_word_ariths(1))
      also have "(n mod 2 ^ 20 + unat i) mod 2 ^ 20 = j mod 2 ^ 20"
      proof -
        have "n + unat i = j + 2 ^ 20" using big by (simp add: j_def)
        then show ?thesis by (metis mod_add_left_eq mod_add_self2)
      qed
      finally show ?thesis .
    qed
    moreover have "\<not> i \<ge> TRACE_RING_SIZE" "\<not> i \<ge> avail" using True av by (simp_all add: word_le_nat_alt not_le)
    ultimately show ?thesis
      using True entry unfolding interp_trace_get_def Let_def avail_def [symmetric] n_def [symmetric] j_def [symmetric] by simp
  qed
qed

section \<open>Examples\<close>

text \<open>A run with a budget of three over no-operations, stopped by a breakpoint after one.\<close>

lemma interp_run_count_example:
  "let s = snd (interp_break_add 0x80010004 (interp_zero 0x80010000 (mem_boot ())))
   in map_option (\<lambda>(n, t). (n \<le> 3, s_halted t \<or> (interp_hit_breakpoint t \<and> cpu_pc (cpu_of t) \<in># bps t)))
        (interp_run 1 (rom_env (\<lambda>_. 0)) 3 s) = Some (True, True)"
proof -
  let ?s = "snd (interp_break_add 0x80010004 (interp_zero 0x80010000 (mem_boot ())))"
  have three: "unat (3 :: u32) = Suc (Suc (Suc 0))" by simp
  obtain t where e: "interp_run 1 (rom_env (\<lambda>_. 0)) 3 ?s = Some (1, t)"
    unfolding interp_run_def interp_step_def three
    by (simp add: at_breakpoint_def fetch_def bus_read_def exec_insn_def OP_def FUNC_def SA_def
        alu_special_def exec_special_def apply_load_delay_def clear_zero_def set_reg_def set_pc_def RD_def interp_zero_def
        interp_break_add_def upd_cpu_def)
  from interp_run_count [OF e] show ?thesis unfolding Let_def e by simp
qed

lemma trace_get_by_age_example:
  "interp_trace_get 1 (fold (\<lambda>(insn, c). trace_at insn c) [(5, cpu_zero), (6, cpu_zero\<lparr> cpu_pc := 4 \<rparr>)] (interp_zero 0 ())) =
   Some (trace_zero\<lparr> te_pc := 4, te_insn := 6, te_seq := 1 \<rparr>)"
  using trace_get_by_age [of "interp_zero 0 ()" "[(5, cpu_zero), (6, cpu_zero\<lparr> cpu_pc := 4 \<rparr>)]" 1]
  by (simp add: interp_zero_def mk_trace_entry_def trace_zero_def cpu_zero_def Let_def)

end
