(* ===== verification/Interp_Exec.thy ===== *)
theory Interp_Exec
  imports Interpreter_Props
begin

text \<open>
  What instructions compute: multiplication and division against integer arithmetic, and the life
  of an interrupt, from injection through the handler's MFC0, JR and RFE back to the interrupted
  instruction.
\<close>

section \<open>Multiplication and division\<close>

lemma word_cat_halves: "(word_cat (ucast (drop_bit 32 r) :: u32) (ucast r :: u32) :: u64) = r"
  by (rule bit_word_eqI) (auto simp: bit_word_cat_iff bit_ucast_iff bit_drop_bit_eq not_less)

lemma sign_bit_set: "(a :: u32) AND 0x80000000 \<noteq> 0 \<longleftrightarrow> sint a < 0"
proof -
  have "a AND 0x80000000 \<noteq> 0 \<longleftrightarrow> bit a 31" using and_power_two_zero_iff [of a 31] by simp
  then show ?thesis using bit_last_iff [of a] by simp
qed

lemma sint_word_of_int32: "- (2 ^ 31) \<le> i \<Longrightarrow> i < 2 ^ 31 \<Longrightarrow> sint (word_of_int i :: u32) = i"
  by (simp add: signed_of_int signed_take_bit_int_eq_self)

lemma sint_inj: "sint x = sint y \<Longrightarrow> x = (y :: u32)"
  by (rule signed_word_eqI)

lemma uint_inj: "uint x = uint y \<Longrightarrow> x = (y :: u32)"
  by (rule unsigned_word_eqI)

lemma sint32_bounds: "- (2 ^ 31) \<le> sint (w :: u32)" "sint (w :: u32) < 2 ^ 31"
  using sint_ge [of w] sint_lt [of w] by simp_all

lemma mult_signed: "sint (scast a * scast b :: u64) = sint (a :: u32) * sint (b :: u32)"
proof -
  have "\<bar>sint a\<bar> \<le> 2 ^ 31" "\<bar>sint b\<bar> \<le> 2 ^ 31" using sint32_bounds [of a] sint32_bounds [of b] by auto
  then have "\<bar>sint a * sint b\<bar> \<le> 2 ^ 31 * 2 ^ 31" unfolding abs_mult by (rule mult_mono) simp_all
  then have r: "- (2 ^ 63) \<le> sint a * sint b" "sint a * sint b < 2 ^ 63" by auto
  have "scast a * scast b = (word_of_int (sint a * sint b) :: u64)" by simp
  then show ?thesis using r by (simp add: signed_of_int signed_take_bit_int_eq_self del: of_int_mult)
qed

lemma mult_unsigned: "uint (ucast a * ucast b :: u64) = uint (a :: u32) * uint (b :: u32)"
proof -
  have "uint a < 2 ^ 32" "uint b < 2 ^ 32" "0 \<le> uint a" "0 \<le> uint b"
    using unsigned_less [of a, where ?'a = int] unsigned_less [of b, where ?'a = int] by simp_all
  then have "uint a * uint b < 2 ^ 32 * 2 ^ 32" by (intro mult_strict_mono) simp_all
  then have r: "uint a * uint b < 2 ^ 64" "0 \<le> uint a * uint b" by simp_all
  have "ucast a * ucast b = (word_of_int (uint a * uint b) :: u64)" by simp
  then show ?thesis using r by (simp add: unsigned_of_int take_bit_int_eq_self del: of_int_mult)
qed

lemma smod_facts:
  assumes "(b :: int) \<noteq> 0"
  shows "\<bar>a smod b\<bar> < \<bar>b\<bar>" and "0 \<le> a * (a smod b)"
proof -
  have m: "a smod b = sgn a * (\<bar>a\<bar> mod \<bar>b\<bar>)" by (simp add: smod_int_alt_def)
  show "\<bar>a smod b\<bar> < \<bar>b\<bar>" using assms by (simp add: m abs_mult abs_sgn_eq)
  show "0 \<le> a * (a smod b)" using assms by (simp add: m sgn_if mult_nonneg_nonneg mult_nonpos_nonneg)
qed

text \<open>Signed division: the quotient and the remainder fit in a register except for the quotient of
  the smallest number by -1.\<close>

lemma div_signed:
  assumes "b \<noteq> 0" and "\<not> (a = 0x80000000 \<and> b = 0xFFFFFFFF)"
  shows "sint (word_of_int (sint a sdiv sint b) :: u32) = sint a sdiv sint (b :: u32)"
    and "sint (word_of_int (sint a smod sint b) :: u32) = sint (a :: u32) smod sint b"
proof -
  have b0: "sint b \<noteq> 0" using assms(1) signed_word_eqI [of b 0] by auto
  have q: "\<bar>sint a sdiv sint b\<bar> = \<bar>sint a\<bar> div \<bar>sint b\<bar>"
    using b0 by (cases "sint a = 0") (simp_all add: signed_divide_int_def abs_mult abs_sgn_eq pos_imp_zdiv_nonneg_iff)
  have "sint a sdiv sint b \<noteq> 2 ^ 31"
  proof
    assume e: "sint a sdiv sint b = 2 ^ 31"
    have ge: "\<bar>sint a\<bar> \<le> 2 ^ 31" using sint32_bounds [of a] by auto
    have b1: "\<bar>sint b\<bar> = 1"
    proof (rule ccontr)
      assume "\<bar>sint b\<bar> \<noteq> 1"
      then have "2 \<le> \<bar>sint b\<bar>" using b0 by linarith
      then have "\<bar>sint a\<bar> div \<bar>sint b\<bar> \<le> \<bar>sint a\<bar> div 2" by (intro zdiv_mono2) simp_all
      then show False using q e ge by simp
    qed
    then have a1: "\<bar>sint a\<bar> = 2 ^ 31" using q e by simp
    then have a: "sint a = - (2 ^ 31)" using sint32_bounds [of a] by auto
    then have b: "sint b = - 1" using b1 e by (auto simp: abs_if signed_divide_int_def split: if_splits)
    have "a = 0x80000000" by (rule sint_inj) (simp add: a)
    moreover have "b = 0xFFFFFFFF" by (rule sint_inj) (simp add: b)
    ultimately show False using assms(2) by blast
  qed
  moreover have "\<bar>sint a\<bar> div \<bar>sint b\<bar> \<le> 2 ^ 31"
  proof -
    have "\<bar>sint a\<bar> div \<bar>sint b\<bar> \<le> \<bar>sint a\<bar>" using zdiv_mono2 [of "\<bar>sint a\<bar>" 1 "\<bar>sint b\<bar>"] b0 by simp
    then show ?thesis using sint32_bounds [of a] by auto
  qed
  ultimately have "- (2 ^ 31) \<le> sint a sdiv sint b" "sint a sdiv sint b < 2 ^ 31" using q by auto
  then show "sint (word_of_int (sint a sdiv sint b) :: u32) = sint a sdiv sint b" by (rule sint_word_of_int32)
  have "\<bar>sint a smod sint b\<bar> < \<bar>sint b\<bar>" by (rule smod_facts(1) [OF b0])
  then have "- (2 ^ 31) \<le> sint a smod sint b" "sint a smod sint b < 2 ^ 31" using sint32_bounds [of b] by auto
  then show "sint (word_of_int (sint a smod sint b) :: u32) = sint a smod sint b" by (rule sint_word_of_int32)
qed

lemma muldiv_insn:
  assumes "OP insn = 0"
  shows "FUNC insn = 0x18 \<Longrightarrow> snd (exec_insn E pc insn s) = mult_result (scast (reg (RS insn) s) * scast (reg (RT insn) s)) s"
    and "FUNC insn = 0x19 \<Longrightarrow> snd (exec_insn E pc insn s) = mult_result (ucast (reg (RS insn) s) * ucast (reg (RT insn) s)) s"
    and "FUNC insn = 0x1A \<Longrightarrow> snd (exec_insn E pc insn s) = exec_div (reg (RS insn) s) (reg (RT insn) s) s"
    and "FUNC insn = 0x1B \<Longrightarrow> snd (exec_insn E pc insn s) = exec_divu (reg (RS insn) s) (reg (RT insn) s) s"
  using assms by (simp_all add: exec_insn_def exec_special_def alu_special_def)

lemma hi_lo_simps [simp]: "cpu_hi (cpu_of (set_hi_lo h l s)) = h" "cpu_lo (cpu_of (set_hi_lo h l s)) = l"
  by (simp_all add: set_hi_lo_def)

text \<open>Multiplication and division are integer arithmetic: HI and LO hold the exact 64-bit signed or
  unsigned product; for a non-zero divisor they hold the remainder and the quotient rounded towards
  zero, the remainder smaller than the divisor and with the sign of the dividend; the one signed
  quotient that does not fit wraps to the dividend with remainder 0; and division by zero leaves the
  dividend in HI and -1 or 1 in LO.\<close>

lemma mult_div_correct:
  "OP insn = 0 \<Longrightarrow>
   (let a = reg (RS insn) s; b = reg (RT insn) s; t = cpu_of (snd (exec_insn E pc insn s)); hi = cpu_hi t; lo = cpu_lo t
    in (FUNC insn = 0x18 \<longrightarrow> sint (word_cat hi lo :: u64) = sint a * sint b) \<and>
       (FUNC insn = 0x19 \<longrightarrow> uint (word_cat hi lo :: u64) = uint a * uint b) \<and>
       (FUNC insn = 0x1A \<and> b \<noteq> 0 \<and> \<not> (a = 0x80000000 \<and> b = 0xFFFFFFFF) \<longrightarrow>
          sint a = sint lo * sint b + sint hi \<and> \<bar>sint hi\<bar> < \<bar>sint b\<bar> \<and> 0 \<le> sint a * sint hi) \<and>
       (FUNC insn = 0x1A \<and> a = 0x80000000 \<and> b = 0xFFFFFFFF \<longrightarrow> lo = a \<and> hi = 0) \<and>
       (FUNC insn = 0x1A \<and> b = 0 \<longrightarrow> hi = a \<and> lo = (if sint a < 0 then 1 else - 1)) \<and>
       (FUNC insn = 0x1B \<and> b \<noteq> 0 \<longrightarrow> uint a = uint lo * uint b + uint hi \<and> uint hi < uint b) \<and>
       (FUNC insn = 0x1B \<and> b = 0 \<longrightarrow> hi = a \<and> lo = - 1))"
proof -
  assume op: "OP insn = 0"
  let ?a = "reg (RS insn) s" and ?b = "reg (RT insn) s" and ?t = "cpu_of (snd (exec_insn E pc insn s))"
  have "sint (word_cat (cpu_hi ?t) (cpu_lo ?t) :: u64) = sint ?a * sint ?b" if "FUNC insn = 0x18"
    by (simp add: muldiv_insn(1) [OF op that] mult_result_def word_cat_halves mult_signed)
  moreover have "uint (word_cat (cpu_hi ?t) (cpu_lo ?t) :: u64) = uint ?a * uint ?b" if "FUNC insn = 0x19"
    by (simp add: muldiv_insn(2) [OF op that] mult_result_def word_cat_halves mult_unsigned)
  moreover have "sint ?a = sint (cpu_lo ?t) * sint ?b + sint (cpu_hi ?t) \<and> \<bar>sint (cpu_hi ?t)\<bar> < \<bar>sint ?b\<bar> \<and> 0 \<le> sint ?a * sint (cpu_hi ?t)"
    if c: "FUNC insn = 0x1A" "?b \<noteq> 0" "\<not> (?a = 0x80000000 \<and> ?b = 0xFFFFFFFF)"
  proof -
    have b0: "sint ?b \<noteq> 0" using c(2) signed_word_eqI [of ?b 0] by auto
    have "snd (exec_insn E pc insn s) =
        set_hi_lo (word_of_int (sint ?a smod sint ?b)) (word_of_int (sint ?a sdiv sint ?b)) s"
      unfolding muldiv_insn(3) [OF op c(1)] exec_div_def using c(2,3) by auto
    then show ?thesis
      using smod_facts [OF b0, of "sint ?a"] sdiv_mult_smod_eq [of "sint ?a" "sint ?b"] by (simp add: div_signed [OF c(2,3)])
  qed
  moreover have "cpu_lo ?t = ?a \<and> cpu_hi ?t = 0" if c: "FUNC insn = 0x1A" "?a = 0x80000000" "?b = 0xFFFFFFFF"
    unfolding muldiv_insn(3) [OF op c(1)] exec_div_def using c(2,3) by simp
  moreover have "cpu_hi ?t = ?a \<and> cpu_lo ?t = (if sint ?a < 0 then 1 else - 1)" if c: "FUNC insn = 0x1A" "?b = 0"
    using c sign_bit_set [of ?a] unfolding muldiv_insn(3) [OF op c(1)] exec_div_def by simp
  moreover have "uint ?a = uint (cpu_lo ?t) * uint ?b + uint (cpu_hi ?t) \<and> uint (cpu_hi ?t) < uint ?b"
    if c: "FUNC insn = 0x1B" "?b \<noteq> 0"
  proof -
    have "0 < uint ?b" using c(2) uint_inj [of ?b 0] by (auto simp: less_le)
    then show ?thesis
      unfolding muldiv_insn(4) [OF op c(1)] exec_divu_def using c(2) by (simp add: uint_div_distrib uint_mod_distrib)
  qed
  moreover have "cpu_hi ?t = ?a \<and> cpu_lo ?t = - 1" if c: "FUNC insn = 0x1B" "?b = 0"
    using c unfolding muldiv_insn(4) [OF op c(1)] exec_divu_def by simp
  ultimately show ?thesis unfolding Let_def by blast
qed

section \<open>The life of an interrupt\<close>

abbreviation irq_enabled :: "cpu \<Rightarrow> bool" where
  "irq_enabled c \<equiv> cop0 c 12 AND 1 \<noteq> 0 \<and> cop0 c 12 AND push_bit 10 1 \<noteq> 0"

lemma check_interrupts_cpu:
  "cpu_of (interp_check_interrupts E s) =
     (if i_stat (mach (interp_check_interrupts E s)) AND i_mask (mach (interp_check_interrupts E s)) \<noteq> 0 \<and> irq_enabled (cpu_of s)
      then take_interrupt (cpu_of s) else cpu_of s)"
  "s_load_reg (interp_check_interrupts E s) = s_load_reg s" "s_load_val (interp_check_interrupts E s) = s_load_val s"
  by (simp_all add: interp_check_interrupts_def Let_def)

text \<open>Entry pushes the three pairs of mode bits and return pops them; the oldest pair is lost.\<close>

lemma sr_push_pop:
  "let p = (sr AND NOT 0x3F) OR push_bit 2 (sr AND 0x0F) in (p AND 0xFFFFFFC0) OR (drop_bit 2 p AND 0x0F) = sr AND NOT (0x30 :: u32)"
proof -
  have m: "(0x3F :: u32) = mask 6" "(0xF :: u32) = mask 4" "(0xFFFFFFC0 :: u32) = NOT (mask 6)" "(0x30 :: u32) = push_bit 4 (mask 2)"
    by (simp_all add: mask_eq_exp_minus_1)
  show ?thesis
    unfolding Let_def m
    by (rule bit_word_eqI) (unfold bit_and_iff bit_or_iff bit_not_iff bit_push_bit_iff bit_drop_bit_eq bit_mask_iff o_apply, auto)
qed

text \<open>The shortest handler: \<open>mfc0 $k0, EPC\<close>, \<open>jr $k0\<close>, and \<open>rfe\<close> in the delay slot.\<close>

lemma handler_decode:
  "OP 0x401A7000 = 0x10" "RS 0x401A7000 = 0" "RT 0x401A7000 = 26" "RD 0x401A7000 = 14"
  "OP 0x03400008 = 0" "FUNC 0x03400008 = 8" "RS 0x03400008 = 26"
  "OP 0x42000010 = 0x10" "RS 0x42000010 = 0x10"
  by (simp_all add: OP_def RS_def RT_def RD_def FUNC_def)

lemma handler_insns:
  "exec_insn E pc 0x401A7000 s = (Fall, set_load_delay 26 (cop0 (cpu_of s) 14) s)"
  "exec_insn E pc 0x03400008 s = (Delay (reg 26 s), s)"
  "exec_insn E pc 0x42000010 s =
     (Fall, upd_cpu (set_cop0 12 ((cop0 (cpu_of s) 12 AND 0xFFFFFFC0) OR (drop_bit 2 (cop0 (cpu_of s) 12) AND 0x0F))) s)"
  by (simp_all add: exec_insn_def exec_cop0_def exec_special_def alu_special_def handler_decode Let_def)

lemma fetch_facts:
  assumes "read_word E (cpu_pc (cpu_of s)) (mach s) = (i, mach s)"
  shows "fst (fetch E s) = i" "mach (snd (fetch E s)) = mach s" "s_load_reg (snd (fetch E s)) = 0"
    "cpu_of (snd (fetch E s)) = (cpu_of (apply_load_delay s))\<lparr> cpu_pc := cpu_pc (cpu_of s) + 4 \<rparr>"
  using assms by (simp_all add: fetch_def bus_read_def Let_def apply_load_delay_def set_pc_def)

lemma exec_one_step:
  assumes "cpu_pc (cpu_of s) \<noteq> 0" and "read_word E (cpu_pc (cpu_of s)) (mach s) = (i, mach s)"
  shows "exec_insn E (cpu_pc (cpu_of s)) i (snd (fetch E s)) = (Fall, u) \<Longrightarrow> exec_one (Suc n) E s = Some (clear_zero u)"
    and "exec_insn E (cpu_pc (cpu_of s)) i (snd (fetch E s)) = (Delay x, u) \<Longrightarrow>
      exec_one (Suc n) E s = map_option (set_pc x) (exec_one n E u)"
  using assms(1) fetch_facts(1) [OF assms(2)] by (simp_all add: split_beta)

text \<open>From the vector, the handler leads back to EPC.\<close>

lemma handler_runs:
  assumes v: "cpu_pc (cpu_of t) = v" "v \<noteq> 0" "v + 4 \<noteq> 0" "v + 8 \<noteq> 0"
    and code: "\<And>m. read_word E v m = (0x401A7000, m)" "\<And>m. read_word E (v + 4) m = (0x03400008, m)"
      "\<And>m. read_word E (v + 8) m = (0x42000010, m)"
  shows "\<exists>u. Option.bind (exec_one 1 E t) (exec_one 2 E) = Some u \<and> cpu_pc (cpu_of u) = cop0 (cpu_of t) 14 \<and>
     cop0 (cpu_of u) 12 = (cop0 (cpu_of t) 12 AND 0xFFFFFFC0) OR (drop_bit 2 (cop0 (cpu_of t) 12) AND 0x0F) \<and>
     (\<forall>r. r \<noteq> 0 \<and> r \<noteq> 26 \<longrightarrow> gpr (cpu_of u) r = gpr (cpu_of (apply_load_delay t)) r) \<and> mach u = mach t"
proof -
  let ?a = "snd (fetch E t)"
  define t1 where "t1 = clear_zero (set_load_delay 26 (cop0 (cpu_of ?a) 14) ?a)"
  have ra: "read_word E (cpu_pc (cpu_of t)) (mach t) = (0x401A7000, mach t)" using v code by simp
  note fa = fetch_facts [OF ra]
  have one: "exec_one (Suc 0) E t = Some t1"
    unfolding t1_def by (rule exec_one_step(1) [OF _ ra]) (use v in \<open>simp_all add: handler_insns\<close>)
  have t1: "cpu_pc (cpu_of t1) = v + 4" "mach t1 = mach t" "s_load_reg t1 = 26" "s_load_val t1 = cop0 (cpu_of t) 14"
    "cop0 (cpu_of t1) = cop0 (cpu_of t)" "r \<noteq> 0 \<Longrightarrow> gpr (cpu_of t1) r = gpr (cpu_of (apply_load_delay t)) r" for r
    using v(1) by (simp_all add: t1_def clear_zero_def set_load_delay_def fa)
  let ?b = "snd (fetch E t1)"
  have rb: "read_word E (cpu_pc (cpu_of t1)) (mach t1) = (0x03400008, mach t1)" using t1 code by simp
  note fb = fetch_facts [OF rb]
  have b: "cpu_pc (cpu_of ?b) = v + 8" "reg 26 ?b = cop0 (cpu_of t) 14" "cop0 (cpu_of ?b) = cop0 (cpu_of t)"
    "mach ?b = mach t" "s_load_reg ?b = 0" "r \<noteq> 0 \<and> r \<noteq> 26 \<Longrightarrow> gpr (cpu_of ?b) r = gpr (cpu_of (apply_load_delay t)) r" for r
    using t1 by (simp_all add: fb reg_def add.assoc)
  let ?c = "snd (fetch E ?b)"
  have rc: "read_word E (cpu_pc (cpu_of ?b)) (mach ?b) = (0x42000010, mach ?b)" using b code by simp
  note fc = fetch_facts [OF rc]
  define t2 where "t2 = clear_zero (upd_cpu (set_cop0 12
      ((cop0 (cpu_of ?c) 12 AND 0xFFFFFFC0) OR (drop_bit 2 (cop0 (cpu_of ?c) 12) AND 0x0F))) ?c)"
  have slot: "exec_one (Suc 0) E ?b = Some t2"
    unfolding t2_def by (rule exec_one_step(1) [OF _ rc]) (use v b in \<open>simp_all add: handler_insns\<close>)
  have two: "exec_one (Suc (Suc 0)) E t1 = map_option (set_pc (reg 26 ?b)) (exec_one (Suc 0) E ?b)"
    by (rule exec_one_step(2) [OF _ rb]) (use v t1 in \<open>simp_all add: handler_insns\<close>)
  have "Option.bind (exec_one 1 E t) (exec_one 2 E) = Some (set_pc (reg 26 ?b) t2)"
    unfolding One_nat_def numeral_2_eq_2 one by (simp add: two slot del: exec_one.simps)
  moreover have "mach (set_pc x t2) = mach t" for x by (simp add: t2_def clear_zero_def set_pc_def fc(2) b)
  moreover have "cop0 (cpu_of t2) 12 = (cop0 (cpu_of t) 12 AND 0xFFFFFFC0) OR (drop_bit 2 (cop0 (cpu_of t) 12) AND 0x0F)"
    "r \<noteq> 0 \<and> r \<noteq> 26 \<Longrightarrow> gpr (cpu_of t2) r = gpr (cpu_of (apply_load_delay t)) r" for r
    using b by (simp_all add: t2_def clear_zero_def fc)
  ultimately show ?thesis using b(2) by auto
qed

text \<open>Interrupts are taken exactly when a raised line is unmasked in \<open>I_MASK\<close> and the status
  register enables them (IEc and IM2); otherwise the processor state is untouched. A taken interrupt
  whose handler is MFC0 EPC, JR with RFE in its delay slot resumes at the interrupted instruction,
  with the status register as before except that the oldest mode pair (bits 4 and 5) is clear, and
  with every register but \<open>$k0\<close> as the program left it, a pending load included.\<close>

lemma interrupt_life_cycle:
  assumes "v = exception_vector (cop0 (cpu_of s) 12)"
    and "\<And>m. read_word E v m = (0x401A7000, m)" and "\<And>m. read_word E (v + 4) m = (0x03400008, m)"
    and "\<And>m. read_word E (v + 8) m = (0x42000010, m)"
  shows "let t = interp_check_interrupts E s
     in if i_stat (mach t) AND i_mask (mach t) \<noteq> 0 \<and> irq_enabled (cpu_of s)
        then \<exists>u. Option.bind (exec_one 1 E t) (exec_one 2 E) = Some u \<and> cpu_pc (cpu_of u) = cpu_pc (cpu_of s) \<and>
               cop0 (cpu_of u) 12 = cop0 (cpu_of s) 12 AND NOT 0x30 \<and>
               (\<forall>r. r \<noteq> 0 \<and> r \<noteq> 26 \<longrightarrow> gpr (cpu_of u) r = gpr (cpu_of (apply_load_delay s)) r)
        else cpu_of t = cpu_of s"
proof -
  let ?t = "interp_check_interrupts E s"
  have vs: "v \<noteq> 0" "v + 4 \<noteq> 0" "v + 8 \<noteq> 0" using assms(1) by (simp_all add: exception_vector_def)
  show ?thesis
  proof (cases "i_stat (mach ?t) AND i_mask (mach ?t) \<noteq> 0 \<and> irq_enabled (cpu_of s)")
    case False
    then show ?thesis by (auto simp: check_interrupts_cpu(1) Let_def)
  next
    case True
    then have c: "cpu_of ?t = take_interrupt (cpu_of s)" by (simp add: check_interrupts_cpu(1))
    then have tk: "cpu_pc (cpu_of ?t) = v" "cop0 (cpu_of ?t) 14 = cpu_pc (cpu_of s)" "gpr (cpu_of ?t) = gpr (cpu_of s)"
      "cop0 (cpu_of ?t) 12 = (cop0 (cpu_of s) 12 AND NOT 0x3F) OR push_bit 2 (cop0 (cpu_of s) 12 AND 0x0F)"
      using assms(1) by (simp_all add: take_interrupt_def Let_def)
    from tk(3) have "gpr (cpu_of (apply_load_delay ?t)) = gpr (cpu_of (apply_load_delay s))"
      by (simp add: check_interrupts_cpu(2,3))
    with handler_runs [OF tk(1) vs assms(2-4)] sr_push_pop [of "cop0 (cpu_of s) 12"] True show ?thesis
      unfolding tk(2,4) Let_def by auto
  qed
qed

section \<open>Examples\<close>

text \<open>\<open>div $8, $9\<close> with 7 and -2.\<close>

lemma mult_div_correct_example:
  "let s = interp_zero 0 (); s = set_reg 8 7 (set_reg 9 (- 2) s); t = cpu_of (snd (exec_insn (rom_env (\<lambda>_. 0)) 0 0x0109001A s))
   in sint (cpu_lo t) * (- 2) + sint (cpu_hi t) = 7 \<and> \<bar>sint (cpu_hi t)\<bar> < 2"
proof -
  let ?s = "set_reg 8 7 (set_reg 9 (- 2) (interp_zero 0 ()))"
  have d: "OP 0x0109001A = 0" "FUNC 0x0109001A = 0x1A" "RS 0x0109001A = 8" "RT 0x0109001A = 9"
    by (simp_all add: OP_def FUNC_def RS_def RT_def)
  have r: "reg 8 ?s = 7" "reg 9 ?s = - 2" by (simp_all add: reg_def)
  show ?thesis
    using mult_div_correct [OF d(1), of ?s "rom_env (\<lambda>_. 0)" 0] unfolding Let_def d r by auto
qed

definition handler_code :: "u32 \<Rightarrow> u32" where
  "handler_code a = (if a = 0x80000080 then 0x401A7000 else if a = 0x80000084 then 0x03400008
     else if a = 0x80000088 then 0x42000010 else 0)"

lemma interrupt_life_cycle_example:
  "let s = upd_cpu (set_cop0 12 0x401) (interp_zero 0x80010000 ((mem_boot ())\<lparr> i_stat := 1, i_mask := 1 \<rparr>));
       E = rom_env handler_code
   in \<exists>u. Option.bind (exec_one 1 E (interp_check_interrupts E s)) (exec_one 2 E) = Some u \<and>
        cpu_pc (cpu_of u) = 0x80010000 \<and> cop0 (cpu_of u) 12 = 0x401"
proof -
  let ?s = "upd_cpu (set_cop0 12 0x401) (interp_zero 0x80010000 ((mem_boot ())\<lparr> i_stat := 1, i_mask := 1 \<rparr>))"
  let ?E = "rom_env handler_code"
  have m: "mach (interp_check_interrupts ?E ?s) = (mem_boot ())\<lparr> i_stat := 1, i_mask := 1 \<rparr>"
    by (simp add: interp_check_interrupts_def interp_zero_def upd_cpu_def Let_def word_le_nat_alt)
  have c: "i_stat (mach (interp_check_interrupts ?E ?s)) AND i_mask (mach (interp_check_interrupts ?E ?s)) \<noteq> 0 \<and> irq_enabled (cpu_of ?s)"
    unfolding m by simp
  have v: "0x80000080 = exception_vector (cop0 (cpu_of ?s) 12)" by (simp add: exception_vector_def)
  have sr: "cop0 (cpu_of ?s) 12 AND NOT 0x30 = 0x401" "cpu_pc (cpu_of ?s) = 0x80010000" by simp_all
  have code: "read_word ?E 0x80000080 m = (0x401A7000, m)" "read_word ?E (0x80000080 + 4) m = (0x03400008, m)"
    "read_word ?E (0x80000080 + 8) m = (0x42000010, m)" for m :: mem_st
    by (simp_all add: handler_code_def)
  show ?thesis
    using interrupt_life_cycle [OF v code] unfolding Let_def if_P [OF c] sr by blast
qed

end
