(* ===== verification/Psx_Cycles.thy ===== *)
theory Psx_Cycles
  imports Dma Cpu_State
begin

text \<open>
  The guest clock (runtime/src/psx_cycles.c) and the VBlank scheduler it drives
  (runtime/src/interrupts.c): advancing the devices, the event-deadline servicing of the production
  build, the exact per-charge path, the stalls of the multiplier and of the GTE, and the skip of idle
  loops. The root counters and the DMA controller are the models of Timers and Dma; SIO, CD-ROM, GPU
  and the starvation diagnostics are the parameter \<open>clock_env\<close>.

  The model is of the production build: \<open>PSX_ENABLE_BLOCK_CYCLES\<close> defined, \<open>PSX_COSIM\<close> not. The catch-up
  loop of \<open>psx_devices_service_to_now\<close> runs until the clock reaches its target, which a device that moved
  the clock backwards could prevent: the loop carries fuel, the first argument of every operation that
  can reach it, and \<open>None\<close> means that it ran out.
\<close>

record 'd cyc_st = "'d dma_st" +
  s_watchdog_throttle :: u32
  s_pc_sample_throttle :: u32
  g_event_step_conservative :: bool
  s_devices_synced_cycle :: u64
  s_next_service_cycle :: u64
  s_in_device_service :: bool
  g_ls_replay_active :: bool
  cycles_since_vblank :: u32
  dispatch_count :: u32
  g_vblank_raise_count :: u64
  last_sio_seq_seen :: u32
  last_sio_progress_cycle :: u64
  g_idle_skip_enabled :: int
  g_idle_skip_count :: u64
  g_idle_skip_cycles :: u64
  g_idle_skip_last_pc :: u32
  g_idle_skip_last_quantum :: u32
  g_idle_note_suppress :: bool
  s_idle_pc :: u32
  s_idle_quantum :: u32
  s_idle_streak :: u32
  s_idle_gpr :: "nat \<Rightarrow> u32"
  s_idle_hi :: u32
  s_idle_lo :: u32
  s_idle_progress_reg :: int
  s_idle_progress_delta :: int
  s_idle_last_cycle :: u64
  s_idle_last_stores :: u64
  s_idle_last_mmio :: u64
  g_mmio_access_count :: u64
  cyc_call_bail :: bool
  g_precise_mode :: bool
  g_ls_mode :: int
  env_idle_skip_one :: bool

type_synonym ('d, 'z) cyc = "('d, 'z) cyc_st_scheme"

text \<open>What the clock needs of the components it drives. The GPU tick works on the device state only.\<close>

record ('d, 's) clock_env =
  dma_ops :: "('d, 's) dma_env"
  sio_advance :: "u32 \<Rightarrow> 's \<Rightarrow> 's"
  cdrom_advance :: "u32 \<Rightarrow> 's \<Rightarrow> 's"
  sio_cycles_to_irq :: "u32 \<Rightarrow> 's \<Rightarrow> u32"
  cdrom_cycles_to_irq :: "u32 \<Rightarrow> 's \<Rightarrow> u32"
  sio_get_seq :: "'s \<Rightarrow> u32"
  sio_card_protocol_active :: "'s \<Rightarrow> bool"
  gpu_vblank :: "'d \<Rightarrow> 'd"
  starvation_watchdog_check :: "'s \<Rightarrow> 's"
  starvation_ring_pc_sample :: "'s \<Rightarrow> 's"

type_synonym ('d, 'z) clk = "('d, ('d, 'z) cyc) clock_env"

abbreviation (input) VBLANK_CYCLES :: u32 where "VBLANK_CYCLES \<equiv> 564480"
abbreviation (input) VBLANK_DEFER_STALE_CYCLES :: u64 where "VBLANK_DEFER_STALE_CYCLES \<equiv> 5644800"
abbreviation (input) PSX_DEADLINE_HARD_CAP :: u32 where "PSX_DEADLINE_HARD_CAP \<equiv> 16384"
abbreviation (input) SRC_VBLANK :: u8 where "SRC_VBLANK \<equiv> 16"
abbreviation (input) EV_ISTAT_RAISE :: u16 where "EV_ISTAT_RAISE \<equiv> 3"
abbreviation (input) IDLE_STREAK_MIN :: u32 where "IDLE_STREAK_MIN \<equiv> 4"
abbreviation (input) IDLE_QUANTUM_MAX :: u32 where "IDLE_QUANTUM_MAX \<equiv> 32768"
abbreviation (input) IDLE_SKIP_MAX_CYCLES :: u64 where "IDLE_SKIP_MAX_CYCLES \<equiv> 1200000"

section \<open>The VBlank scheduler\<close>

definition note_sio_progress_cycle :: "('d, 'z) clk \<Rightarrow> ('d, 'z) cyc \<Rightarrow> ('d, 'z) cyc" where
  "note_sio_progress_cycle C s =
     (if sio_get_seq C s \<noteq> last_sio_seq_seen s
      then s\<lparr> last_sio_seq_seen := sio_get_seq C s, last_sio_progress_cycle := cycle_count s \<rparr> else s)"

definition should_defer_vblank_for_sio :: "('d, 'z) clk \<Rightarrow> ('d, 'z) cyc \<Rightarrow> bool" where
  "should_defer_vblank_for_sio C s \<longleftrightarrow>
     sio_card_protocol_active C s \<and>
     (let now = cycle_count s;
          since_progress = (if now \<ge> last_sio_progress_cycle s then now - last_sio_progress_cycle s else 0)
      in since_progress < VBLANK_DEFER_STALE_CYCLES)"

definition fire_vblank_edge :: "('d, 'z) clk \<Rightarrow> ('d, 'z) cyc \<Rightarrow> ('d, 'z) cyc" where
  "fire_vblank_edge C s =
     (let s1 = s\<lparr> cycles_since_vblank := cycles_since_vblank s - VBLANK_CYCLES, dispatch_count := 0 \<rparr>;
          s2 = event_ring_record_aux EV_DEQ SRC_VBLANK (ucast (cycle_count s1)) s1;
          s3 = event_ring_record_aux EV_ENQ SRC_VBLANK (ucast (cycle_count s2 + ucast VBLANK_CYCLES)) s2;
          s4 = psx_irq_raise 0 0 s3;
          s5 = s4\<lparr> g_vblank_raise_count := g_vblank_raise_count s4 + 1 \<rparr>
      in on_devs (gpu_vblank C) (event_ring_record EV_ISTAT_RAISE 0 s5))"

text \<open>The loop of \<open>interrupts_service_scheduled_events\<close>; every turn takes one period off the counter, so
  its value in periods bounds the number of turns.\<close>

primrec vblank_loop :: "nat \<Rightarrow> ('d, 'z) clk \<Rightarrow> ('d, 'z) cyc \<Rightarrow> ('d, 'z) cyc" where
  "vblank_loop 0 C s = s"
| "vblank_loop (Suc n) C s =
     (if cycles_since_vblank s \<ge> VBLANK_CYCLES
      then if should_defer_vblank_for_sio C s then s else vblank_loop n C (fire_vblank_edge C s)
      else s)"

definition interrupts_service_scheduled_events :: "('d, 'z) clk \<Rightarrow> ('d, 'z) cyc \<Rightarrow> ('d, 'z) cyc" where
  "interrupts_service_scheduled_events C s =
     (let s1 = note_sio_progress_cycle C s
      in if in_exception s1 \<noteq> 0 then s1 else vblank_loop (unat (cycles_since_vblank s1) div 564480) C s1)"

definition interrupts_cycles_to_vblank :: "('d, 'z) cyc \<Rightarrow> u32" where
  "interrupts_cycles_to_vblank s =
     (if cycles_since_vblank s \<ge> VBLANK_CYCLES then 0 else VBLANK_CYCLES - cycles_since_vblank s)"

definition interrupts_advance_cycles :: "('d, 'z) clk \<Rightarrow> u32 \<Rightarrow> ('d, 'z) cyc \<Rightarrow> ('d, 'z) cyc" where
  "interrupts_advance_cycles C cycles s =
     interrupts_service_scheduled_events C (s\<lparr> cycles_since_vblank := cycles_since_vblank s + cycles \<rparr>)"

section \<open>Advancing the devices\<close>

definition advance_devices :: "('d, 'z) clk \<Rightarrow> u32 \<Rightarrow> ('d, 'z) cyc \<Rightarrow> ('d, 'z) cyc" where
  "advance_devices C c s =
     (let s1 = s\<lparr> cycle_count := cycle_count s + ucast c \<rparr>;
          s2 = sio_advance C c s1;
          s3 = cdrom_advance C c s2;
          s4 = dma_advance (dma_ops C) c s3;
          s5 = timers_advance c s4
      in interrupts_advance_cycles C c s5)"

definition devices_cycles_to_next_internal_event :: "('d, 'z) clk \<Rightarrow> ('d, 'z) cyc \<Rightarrow> u32" where
  "devices_cycles_to_next_internal_event C s =
     (let best = interrupts_cycles_to_vblank s;
          t = timers_cycles_to_irq 0xFFFFFFFF s; best = (if t < best then t else best);
          c = cdrom_cycles_to_irq C 0xFFFFFFFF s; best = (if c < best then c else best);
          d = dma_cycles_to_irq 0xFFFFFFFF s; best = (if d < best then d else best);
          i = sio_cycles_to_irq C 0xFFFFFFFF s; best = (if i < best then i else best)
      in if best = 0 then 1 else best)"

definition devices_cycles_to_next_idle_event :: "('d, 'z) clk \<Rightarrow> ('d, 'z) cyc \<Rightarrow> u32" where
  "devices_cycles_to_next_idle_event C s =
     (let best = interrupts_cycles_to_vblank s;
          t = timers_cycles_to_irq (i_mask s) s; best = (if t < best then t else best);
          c = cdrom_cycles_to_irq C (i_mask s) s; best = (if c < best then c else best);
          d = dma_cycles_to_deliverable_irq (i_mask s) s; best = (if d < best then d else best);
          i = sio_cycles_to_irq C (i_mask s) s; best = (if i < best then i else best)
      in if best = 0 then 1 else best)"

definition psx_devices_recompute_deadline :: "('d, 'z) clk \<Rightarrow> ('d, 'z) cyc \<Rightarrow> ('d, 'z) cyc" where
  "psx_devices_recompute_deadline C s =
     (let nxt = devices_cycles_to_next_internal_event C s;
          nxt = (if nxt > PSX_DEADLINE_HARD_CAP then PSX_DEADLINE_HARD_CAP else nxt)
      in s\<lparr> s_next_service_cycle := cycle_count s + ucast nxt \<rparr>)"

text \<open>The length of the next chunk of the catch-up loop.\<close>

definition service_step :: "('d, 'z) clk \<Rightarrow> u64 \<Rightarrow> ('d, 'z) cyc \<Rightarrow> u32" where
  "service_step C target_cycle s =
     (let remaining = ucast (target_cycle - cycle_count s);
          to_ev = devices_cycles_to_next_internal_event C s;
          step = (if to_ev > 0 \<and> to_ev < remaining then to_ev else remaining)
      in if step = 0 then 1 else step)"

primrec service_loop :: "nat \<Rightarrow> ('d, 'z) clk \<Rightarrow> u64 \<Rightarrow> ('d, 'z) cyc \<Rightarrow> ('d, 'z) cyc option" where
  "service_loop 0 C target_cycle s = (if cycle_count s < target_cycle then None else Some s)"
| "service_loop (Suc n) C target_cycle s =
     (if cycle_count s < target_cycle
      then service_loop n C target_cycle
             (interrupts_service_scheduled_events C (advance_devices C (service_step C target_cycle s) s))
      else Some s)"

definition psx_devices_service_to_now :: "nat \<Rightarrow> ('d, 'z) clk \<Rightarrow> ('d, 'z) cyc \<Rightarrow> ('d, 'z) cyc option" where
  "psx_devices_service_to_now n C s =
     (if s_in_device_service s then Some s
      else let s1 = s\<lparr> s_in_device_service := True \<rparr>;
               target_cycle = cycle_count s1;
               r = (if s_devices_synced_cycle s1 < target_cycle
                    then map_option (s_devices_synced_cycle_update (\<lambda>_. target_cycle))
                           (service_loop n C target_cycle
                              (interrupts_service_scheduled_events C (s1\<lparr> cycle_count := s_devices_synced_cycle s1 \<rparr>)))
                    else Some s1)
           in map_option (\<lambda>s2. (psx_devices_recompute_deadline C s2)\<lparr> s_in_device_service := False \<rparr>) r)"

definition psx_devices_mmio_sync :: "nat \<Rightarrow> ('d, 'z) clk \<Rightarrow> ('d, 'z) cyc \<Rightarrow> ('d, 'z) cyc option" where
  "psx_devices_mmio_sync n C s =
     map_option (s_next_service_cycle_update (\<lambda>_. 0))
       (if s_devices_synced_cycle s \<noteq> cycle_count s then psx_devices_service_to_now n C s else Some s)"

section \<open>Charging cycles\<close>

text \<open>The length of the next chunk of the exact path.\<close>

definition exact_step :: "u32 \<Rightarrow> ('d, 'z) cyc \<Rightarrow> u32" where
  "exact_step cycles s =
     (let step = (if g_event_step_conservative s \<and> cycles > 1 then 1
                  else let to_vblank = interrupts_cycles_to_vblank s
                       in if to_vblank > 0 \<and> to_vblank < cycles then to_vblank else cycles)
      in if step = 0 then cycles else step)"

lemma exact_step_bounds: "0 < cycles \<Longrightarrow> 0 < exact_step cycles s \<and> exact_step cycles s \<le> cycles"
  by (auto simp: exact_step_def Let_def word_gt_0)

function exact_loop :: "('d, 'z) clk \<Rightarrow> u32 \<Rightarrow> ('d, 'z) cyc \<Rightarrow> ('d, 'z) cyc" where
  "exact_loop C cycles s =
     (if cycles > 0
      then let step = exact_step cycles s
           in exact_loop C (cycles - step) (interrupts_service_scheduled_events C (advance_devices C step s))
      else s)"
  by pat_completeness auto
termination
proof (relation "measure (\<lambda>(C, cycles, s). unat cycles)", goal_cases)
  case (2 C cycles s x)
  then have "0 < unat (exact_step cycles s)" "unat (exact_step cycles s) \<le> unat cycles"
    using exact_step_bounds [of cycles s] by (auto simp: word_less_nat_alt word_le_nat_alt)
  moreover from this have "unat (cycles - exact_step cycles s) = unat cycles - unat (exact_step cycles s)"
    by (simp add: unat_sub_if_size)
  ultimately show ?case using 2 by simp
qed simp

declare exact_loop.simps [simp del]

definition psx_advance_cycles_exact :: "('d, 'z) clk \<Rightarrow> u32 \<Rightarrow> ('d, 'z) cyc \<Rightarrow> ('d, 'z) cyc" where
  "psx_advance_cycles_exact C cycles s =
     (let s1 = exact_loop C cycles (interrupts_service_scheduled_events C s)
      in s1\<lparr> s_devices_synced_cycle := cycle_count s1, s_next_service_cycle := 0 \<rparr>)"

definition note_throttles :: "('d, 'z) clk \<Rightarrow> u32 \<Rightarrow> ('d, 'z) cyc \<Rightarrow> ('d, 'z) cyc" where
  "note_throttles C charged s =
     (let s1 = s\<lparr> s_watchdog_throttle := s_watchdog_throttle s + charged \<rparr>;
          s2 = (if s_watchdog_throttle s1 \<ge> 65536 then starvation_watchdog_check C (s1\<lparr> s_watchdog_throttle := 0 \<rparr>) else s1);
          s3 = s2\<lparr> s_pc_sample_throttle := s_pc_sample_throttle s2 + charged \<rparr>
      in if s_pc_sample_throttle s3 \<ge> 1048576 then starvation_ring_pc_sample C (s3\<lparr> s_pc_sample_throttle := 0 \<rparr>) else s3)"

definition psx_advance_cycles :: "nat \<Rightarrow> ('d, 'z) clk \<Rightarrow> u32 \<Rightarrow> ('d, 'z) cyc \<Rightarrow> ('d, 'z) cyc option" where
  "psx_advance_cycles n C cycles s =
     (if g_ls_replay_active s then Some s
      else if cycles = 0 then Some s
      else let s1 = s\<lparr> cycle_count := cycle_count s + ucast cycles \<rparr>;
               r = (if g_event_step_conservative s then Some (psx_advance_cycles_exact C cycles s)
                    else if s_in_device_service s then Some s1
                    else if s_next_service_cycle s1 = 0 \<or> cycle_count s1 \<ge> s_next_service_cycle s1
                    then psx_devices_service_to_now n C s1 else Some s1)
           in map_option (note_throttles C cycles) r)"

definition psx_cycles_resync_after_restore :: "('d, 'z) cyc \<Rightarrow> ('d, 'z) cyc" where
  "psx_cycles_resync_after_restore s =
     s\<lparr> s_devices_synced_cycle := cycle_count s, s_next_service_cycle := 0, s_in_device_service := False \<rparr>"

section \<open>Stalls\<close>

definition PSX_MULT_TAB24 :: "u32 list" where
  "PSX_MULT_TAB24 = replicate 12 14 @ replicate 9 10 @ replicate 3 7"

text \<open>\<open>__builtin_clz\<close> on a non-zero word: the position of the highest set bit, counted from the top.\<close>

primrec clz_from :: "nat \<Rightarrow> u32 \<Rightarrow> nat" where
  "clz_from 0 v = 32"
| "clz_from (Suc n) v = (if bit v n then 31 - n else clz_from n v)"

definition psx_clz32 :: "u32 \<Rightarrow> nat" where
  "psx_clz32 v = clz_from 32 v"

definition psx_mult_latency_s :: "u32 \<Rightarrow> u32" where
  "psx_mult_latency_s rs = PSX_MULT_TAB24 ! psx_clz32 ((rs XOR signed_drop_bit 31 rs) OR 0x400)"

definition psx_mult_latency_u :: "u32 \<Rightarrow> u32" where
  "psx_mult_latency_u rs = PSX_MULT_TAB24 ! psx_clz32 (rs OR 0x400)"

definition psx_muldiv_set :: "u32 \<Rightarrow> cpu \<Rightarrow> ('d, 'z) cyc \<Rightarrow> cpu" where
  "psx_muldiv_set latency c s = c\<lparr> muldiv_ts_done := cycle_count s + ucast latency \<rparr>"

definition with_cpu :: "cpu \<Rightarrow> ('d, 'z) cyc option \<Rightarrow> (cpu \<times> ('d, 'z) cyc) option" where
  "with_cpu c = map_option (Pair c)"

definition psx_muldiv_stall :: "nat \<Rightarrow> ('d, 'z) clk \<Rightarrow> cpu \<Rightarrow> ('d, 'z) cyc \<Rightarrow> (cpu \<times> ('d, 'z) cyc) option" where
  "psx_muldiv_stall n C c s =
     (if muldiv_ts_done c > cycle_count s
      then if muldiv_ts_done c = cycle_count s + 1
           then Some (c\<lparr> muldiv_ts_done := muldiv_ts_done c - 1 \<rparr>, s)
           else let stall = ucast (muldiv_ts_done c - cycle_count s) :: u32;
                    w = unat (read_absorb_which c);
                    give = ucast (read_absorb c w) :: u32;
                    c1 = c\<lparr> read_absorb := (read_absorb c)(w := if give > stall then ucast (give - stall) else 0) \<rparr>
                in with_cpu c1 (psx_advance_cycles n C stall s)
      else Some (c, s))"

definition psx_gte_read :: "nat \<Rightarrow> ('d, 'z) clk \<Rightarrow> u32 \<Rightarrow> cpu \<Rightarrow> ('d, 'z) cyc \<Rightarrow> (cpu \<times> ('d, 'z) cyc) option" where
  "psx_gte_read n C rt c s =
     (if gte_ts_done c > cycle_count s
      then let stall = ucast (gte_ts_done c - cycle_count s) :: u32
           in with_cpu (c\<lparr> ld_absorb := stall, ld_which_t := ucast rt \<rparr>) (psx_advance_cycles n C stall s)
      else Some (c\<lparr> ld_absorb := 0, ld_which_t := ucast rt \<rparr>, s))"

definition PSX_GTE_LAT_M1 :: "(nat \<times> u32) list" where
  "PSX_GTE_LAT_M1 =
     [(0x00, 14), (0x01, 14), (0x06, 7), (0x0C, 5), (0x10, 7), (0x11, 7), (0x12, 7), (0x13, 18), (0x14, 12), (0x16, 43),
      (0x1A, 7), (0x1B, 16), (0x1C, 10), (0x1E, 13), (0x20, 29), (0x28, 4), (0x29, 7), (0x2A, 16), (0x2D, 4), (0x2E, 4),
      (0x30, 22), (0x3D, 4), (0x3E, 4), (0x3F, 38)]"

definition psx_gte_cmd_latency :: "u32 \<Rightarrow> u32" where
  "psx_gte_cmd_latency cmd = (case map_of PSX_GTE_LAT_M1 (unat (cmd AND 0x3F)) of Some l \<Rightarrow> l | None \<Rightarrow> 0)"

definition psx_gte_stall :: "nat \<Rightarrow> ('d, 'z) clk \<Rightarrow> cpu \<Rightarrow> ('d, 'z) cyc \<Rightarrow> ('d, 'z) cyc option" where
  "psx_gte_stall n C c s =
     (if gte_ts_done c > cycle_count s then psx_advance_cycles n C (ucast (gte_ts_done c - cycle_count s)) s else Some s)"

definition psx_gte_set :: "nat \<Rightarrow> ('d, 'z) clk \<Rightarrow> u32 \<Rightarrow> cpu \<Rightarrow> ('d, 'z) cyc \<Rightarrow> (cpu \<times> ('d, 'z) cyc) option" where
  "psx_gte_set n C latency c s =
     map_option (\<lambda>t. (c\<lparr> gte_ts_done := cycle_count t + ucast latency \<rparr>, t))
       (if gte_ts_done c > cycle_count s then psx_advance_cycles n C (ucast (gte_ts_done c - cycle_count s)) s else Some s)"

section \<open>Idle loops\<close>

definition idle_snapshot_regs :: "cpu \<Rightarrow> ('d, 'z) cyc \<Rightarrow> ('d, 'z) cyc" where
  "idle_snapshot_regs c s =
     s\<lparr> s_idle_gpr := (\<lambda>i. if 1 \<le> i \<and> i < 32 then gpr c i else s_idle_gpr s i), s_idle_hi := cpu_hi c, s_idle_lo := cpu_lo c \<rparr>"

definition idle_skip_on :: "('d, 'z) cyc \<Rightarrow> bool \<times> ('d, 'z) cyc" where
  "idle_skip_on s =
     (let s1 = (if g_idle_skip_enabled s < 0 then s\<lparr> g_idle_skip_enabled := (if env_idle_skip_one s then 1 else 0) \<rparr> else s)
      in (g_idle_skip_enabled s1 \<noteq> 0, s1))"

definition psx_idle_skip_is_enabled :: "('d, 'z) cyc \<Rightarrow> bool \<times> ('d, 'z) cyc" where
  "psx_idle_skip_is_enabled s = idle_skip_on s"

text \<open>The register that moved since the last check and by how much: -1 for none, the register for a
  single one that went down by one, -2 for anything else.\<close>

definition idle_progress :: "cpu \<Rightarrow> ('d, 'z) cyc \<Rightarrow> int \<times> int" where
  "idle_progress c s =
     (let changed = filter (\<lambda>i. gpr c i \<noteq> s_idle_gpr s i) [1 ..< 32];
          changed_count = (if cpu_hi c \<noteq> s_idle_hi s \<or> cpu_lo c \<noteq> s_idle_lo s then 2 else length changed);
          delta = (if changed_count = 1 then sint (gpr c (hd changed) - s_idle_gpr s (hd changed)) else 0)
      in (if changed_count = 0 then - 1 else if changed_count = 1 \<and> delta = - 1 then int (hd changed) else - 2, delta))"

definition idle_reset :: "('d, 'z) cyc \<Rightarrow> ('d, 'z) cyc" where
  "idle_reset s = s\<lparr> s_idle_streak := 0, s_idle_quantum := 0, s_idle_progress_reg := - 2, s_idle_progress_delta := 0 \<rparr>"

text \<open>What a check records about the loop.\<close>

definition idle_observe :: "cpu \<Rightarrow> u32 \<Rightarrow> ('d, 'z) cyc \<Rightarrow> ('d, 'z) cyc" where
  "idle_observe c check_pc s =
     (let cyc = cycle_count s;
          s1 = (if check_pc = s_idle_pc s \<and> g_guest_store_count s = s_idle_last_stores s \<and> g_mmio_access_count s = s_idle_last_mmio s
                then let (progress_reg, delta) = idle_progress c s;
                         quantum = ucast (cyc - s_idle_last_cycle s);
                         t = (if progress_reg \<noteq> - 2 \<and> quantum > 0 \<and> quantum \<le> IDLE_QUANTUM_MAX
                              then if quantum = s_idle_quantum s \<and> progress_reg = s_idle_progress_reg s \<and> delta = s_idle_progress_delta s
                                   then if s_idle_streak s < 1000000 then s\<lparr> s_idle_streak := s_idle_streak s + 1 \<rparr> else s
                                   else s\<lparr> s_idle_quantum := quantum, s_idle_progress_reg := progress_reg,
                                           s_idle_progress_delta := delta, s_idle_streak := 1 \<rparr>
                              else idle_reset s)
                     in idle_snapshot_regs c t
                else idle_snapshot_regs c (idle_reset (s\<lparr> s_idle_pc := check_pc \<rparr>)))
      in s1\<lparr> s_idle_last_cycle := cyc, s_idle_last_stores := g_guest_store_count s1, s_idle_last_mmio := g_mmio_access_count s1 \<rparr>)"

text \<open>The number of whole iterations to skip; 0 for no skip.\<close>

definition idle_iterations :: "('d, 'z) clk \<Rightarrow> cpu \<Rightarrow> ('d, 'z) cyc \<Rightarrow> u32" where
  "idle_iterations C c s =
     (let q = s_idle_quantum s;
          dist = devices_cycles_to_next_idle_event C s
      in if s_idle_streak s < IDLE_STREAK_MIN \<or> dist \<le> q then 0
         else let k = (dist + q - 1) div q;
                  k = (if s_idle_progress_reg s > 0
                       then let v = gpr c (nat (s_idle_progress_reg s)); max_k = (if v > 1 then v - 1 else 0)
                            in if k > max_k then max_k else k
                       else k)
              in if (ucast k :: u64) * ucast q > IDLE_SKIP_MAX_CYCLES then 0 else k)"

definition idle_skip :: "nat \<Rightarrow> ('d, 'z) clk \<Rightarrow> cpu \<Rightarrow> u32 \<Rightarrow> u32 \<Rightarrow> ('d, 'z) cyc \<Rightarrow> (cpu \<times> ('d, 'z) cyc) option" where
  "idle_skip n C c check_pc k s =
     (let q = s_idle_quantum s;
          skip = ucast k * ucast q :: u64;
          r = nat (s_idle_progress_reg s);
          c1 = (if s_idle_progress_reg s > 0 then c\<lparr> gpr := (gpr c)(r := gpr c r - k) \<rparr> else c);
          s1 = s\<lparr> g_idle_skip_count := g_idle_skip_count s + 1, g_idle_skip_cycles := g_idle_skip_cycles s + skip,
                  g_idle_skip_last_pc := check_pc, g_idle_skip_last_quantum := q \<rparr>
      in with_cpu c1 (map_option (\<lambda>t. (idle_snapshot_regs c1 (t\<lparr> s_idle_streak := 0 \<rparr>))
           \<lparr> s_idle_last_cycle := cycle_count t, s_idle_last_stores := g_guest_store_count t,
             s_idle_last_mmio := g_mmio_access_count t \<rparr>)
           (psx_advance_cycles n C (ucast skip) s1)))"

definition psx_idle_note_check ::
  "nat \<Rightarrow> ('d, 'z) clk \<Rightarrow> cpu \<Rightarrow> u32 \<Rightarrow> ('d, 'z) cyc \<Rightarrow> (cpu \<times> ('d, 'z) cyc) option" where
  "psx_idle_note_check n C c check_pc s0 =
     (let (on, s) = idle_skip_on s0
      in if \<not> on \<or> g_idle_note_suppress s then Some (c, s)
         else if check_pc = 0 \<or> in_exception s \<noteq> 0 \<or> cyc_call_bail s \<or> g_precise_mode s \<or> g_ls_mode s \<noteq> 0 \<or> g_ls_replay_active s
         then Some (c, s\<lparr> s_idle_pc := 0, s_idle_streak := 0 \<rparr>)
         else let s1 = idle_observe c check_pc s;
                  k = idle_iterations C c s1
              in if k = 0 then Some (c, s1) else idle_skip n C c check_pc k s1)"

end
