(* ===== verification/Cycles_Props.thy ===== *)
theory Cycles_Props
  imports Psx_Cycles Dma_Props
begin

text \<open>
  Correctness of the guest clock: the DMA controller leaves the clock alone, no VBlank is lost, the
  event-deadline servicing catches the devices up exactly and never jumps over an event, the root
  counters see the same time however it is sliced, and the stalls and idle skips end where they must.
\<close>

section \<open>The DMA controller leaves the clock alone\<close>

definition clock_view :: "('d, 'z) dma \<Rightarrow> u64 \<times> u32 \<times> (nat \<Rightarrow> timer) \<times> (nat \<Rightarrow> u32) \<times> 'z" where
  "clock_view s = (cycle_count s, in_exception s, timers s, timer_frac s, dma_st.more s)"

lemma clock_view_outside: "outside_mdec s = outside_mdec t \<Longrightarrow> clock_view s = clock_view t"
  by (cases s; cases t; simp add: clock_view_def outside_mdec_def)

lemma clock_view_updates [simp]:
  "clock_view (s\<lparr> mdec_async := x1 \<rparr>) = clock_view s" "clock_view (s\<lparr> cdrom_async := x2 \<rparr>) = clock_view s"
  "clock_view (s\<lparr> g_dma_cur_madr := x3 \<rparr>) = clock_view s" "clock_view (s\<lparr> g_dma_cur_ch := x4 \<rparr>) = clock_view s"
  "clock_view (s\<lparr> g_dma_exec_depth := x5 \<rparr>) = clock_view s" "clock_view (s\<lparr> g_dma_cur_bcr := x6 \<rparr>) = clock_view s"
  "clock_view (s\<lparr> g_dma_initiator_pc := x7 \<rparr>) = clock_view s" "clock_view (s\<lparr> delayed_complete := x8 \<rparr>) = clock_view s"
  "clock_view (s\<lparr> devs := x9 \<rparr>) = clock_view s" "clock_view (s\<lparr> dicr := x10 \<rparr>) = clock_view s"
  "clock_view (s\<lparr> channels := x11 \<rparr>) = clock_view s" "clock_view (s\<lparr> cdrom_dma_active_entry := x12 \<rparr>) = clock_view s"
  "clock_view (s\<lparr> cdrom_dma_history := x13 \<rparr>) = clock_view s" "clock_view (s\<lparr> cdrom_dma_history_active := x14 \<rparr>) = clock_view s"
  "clock_view (s\<lparr> dirty_ram_bitmap := x15 \<rparr>) = clock_view s" "clock_view (s\<lparr> g_dirty_ram_code_gen := x16 \<rparr>) = clock_view s"
  by (simp_all add: clock_view_def)

lemma clock_view_records [simp]:
  "clock_view (upd_channel ch f s) = clock_view s" "clock_view (event_ring_record_aux k d a s) = clock_view s"
  "clock_view (push_trace e s) = clock_view s" "clock_view (cd_dma_log_push l a z s) = clock_view s"
  "clock_view (on_devs g s) = clock_view s" "clock_view (record_cdrom_dma_word w s) = clock_view s"
  "clock_view (kbless_drop i s) = clock_view s" "clock_view (d44_note p q v s) = clock_view s"
  "clock_view (psx_irq_raise b x s) = clock_view s" "clock_view (dec_remaining ch s) = clock_view s"
  "clock_view (cd_dec_remaining s) = clock_view s"
  by (simp_all add: clock_view_def upd_channel_def event_ring_record_aux_def push_trace_def cd_dma_log_push_def on_devs_def
      record_cdrom_dma_word_def kbless_drop_def d44_note_def psx_irq_raise_def device_trace_note_def dec_remaining_def
      cd_dec_remaining_def)

lemma clock_view_store [simp]: "clock_view (dma_store E (ram_addr a) v s) = clock_view s"
  by (rule dma_store_keeps) (simp_all, simp_all add: clock_view_def)

lemma clock_view_complete [simp]:
  "clock_view (complete_transfer ch s) = clock_view s" "clock_view (finish_cdrom_dma_capture E a k s) = clock_view s"
  by (simp_all add: complete_transfer_def trace_dma_def raise_dma_irq_on_master_edge_def finish_cdrom_dma_capture_def Let_def)

lemma clock_view_cancel [simp]: "clock_view (cancel_async_transfer E ch s) = clock_view s"
  by (simp add: cancel_async_transfer_def Let_def)

lemma clock_view_mdec [simp]:
  "clock_view (mdec_dma_write_word w s) = clock_view s" "clock_view (snd (mdec_dma_read_word s)) = clock_view s"
  "clock_view (mdec_dma_end_note ch n s) = clock_view s"
  by (rule clock_view_outside, simp add: mdec_dma_write_word_def)
     (rule clock_view_outside, simp, rule clock_view_outside,
      simp add: mdec_dma_end_note_def mdec_debug_dma_in_end_def mdec_debug_dma_out_end_def outside_mdec_def trace_event_def)

lemma clock_view_mark_range [simp]:
  fixes s :: "('d, 'z) dma"
  shows "clock_view (dirty_ram_mark_executable_range a n s) = clock_view s"
proof -
  have "clock_view (fold kbless_drop ks u) = clock_view u" for ks and u :: "('d, 'z) dma"
    by (induction ks arbitrary: u) simp_all
  then show ?thesis by (simp add: dirty_ram_mark_executable_range_def psx_kernel_bless_note_range_def Let_def)
qed

lemma clock_view_mdec_move: "clock_view (snd (snd (mdec_move n E ch step (ram_addr a) moved s))) = clock_view s"
proof (induction n arbitrary: ch a moved s)
  case 0
  then show ?case by simp
next
  case (Suc n)
  obtain c where c: "next_addr step (ram_addr a) = ram_addr c" using next_addr_ram_addr by blast
  show ?case by (simp add: c Suc.IH split_beta Let_def)
qed

lemma clock_view_cdrom_move: "clock_view (snd (snd (cdrom_move n E step (ram_addr a) moved s))) = clock_view s"
proof (induction n arbitrary: a moved s)
  case 0
  then show ?case by simp
next
  case (Suc n)
  obtain c where c: "next_addr step (ram_addr a) = ram_addr c" using next_addr_ram_addr by blast
  show ?case by (simp add: c Suc.IH split_beta Let_def)
qed

lemma clock_view_mdec_channel [simp]: "clock_view (advance_mdec_channel E ch cycles s) = clock_view s"
proof -
  have "clock_view (mdec_advance_words E ch u) = clock_view u" for u
    by (simp add: mdec_advance_words_def Let_def split_beta clock_view_mdec_move finish_async_mdec_transfer_def)
  then show ?thesis by (simp add: advance_mdec_channel_def finish_async_mdec_transfer_def Let_def)
qed

lemma clock_view_cdrom_channel [simp]: "clock_view (advance_cdrom_channel E cycles s) = clock_view s"
proof -
  have "clock_view (finish_async_cdrom_transfer E a u) = clock_view u" for a u
    by (simp add: finish_async_cdrom_transfer_def Let_def)
  then have "clock_view (cdrom_advance_words E cycles u) = clock_view u" for u
    by (simp add: cdrom_advance_words_def Let_def split_beta clock_view_cdrom_move)
  then show ?thesis by (simp add: advance_cdrom_channel_def)
qed

lemma clock_view_delayed [simp]: "clock_view (advance_delayed_complete cycles ch u) = clock_view u"
  by (simp add: advance_delayed_complete_def Let_def)

lemma clock_view_fold_delayed [simp]: "clock_view (fold (advance_delayed_complete cycles) chs u) = clock_view u"
  by (induction chs arbitrary: u) simp_all

lemma clock_view_dma_advance: "clock_view (dma_advance E cycles s) = clock_view s"
  by (simp add: dma_advance_def Let_def)

section \<open>VBlank\<close>

text \<open>An edge takes one period off the counter, counts itself and raises line 0.\<close>

lemma fire_vblank_facts:
  "cycles_since_vblank (fire_vblank_edge C s) = cycles_since_vblank s - VBLANK_CYCLES"
  "g_vblank_raise_count (fire_vblank_edge C s) = g_vblank_raise_count s + 1"
  "bit (i_stat (fire_vblank_edge C s)) 0" "in_exception (fire_vblank_edge C s) = in_exception s"
  by (simp_all add: fire_vblank_edge_def on_devs_def event_ring_record_def event_ring_record_aux_def psx_irq_raise_def
      device_trace_note_def Let_def bit_or_iff)

definition vblank_edges :: "('d, 'z) cyc \<Rightarrow> ('d, 'z) cyc \<Rightarrow> nat \<Rightarrow> bool" where
  "vblank_edges s t k \<longleftrightarrow> g_vblank_raise_count t = g_vblank_raise_count s + of_nat k \<and>
     unat (cycles_since_vblank t) + 564480 * k = unat (cycles_since_vblank s) \<and> in_exception t = in_exception s \<and>
     (0 < k \<longrightarrow> bit (i_stat t) 0)"

lemma vblank_loop_keeps_bit: "bit (i_stat s) 0 \<Longrightarrow> bit (i_stat (vblank_loop n C s)) 0"
proof (induction n arbitrary: s)
  case (Suc n)
  then show ?case using Suc.IH [OF fire_vblank_facts(3)] by simp
qed simp

lemma vblank_loop_edges: "\<exists>k. vblank_edges s (vblank_loop n C s) k"
proof (induction n arbitrary: s)
  case 0
  have "vblank_edges s s 0" by (simp add: vblank_edges_def)
  then show ?case by (auto intro: exI)
next
  case (Suc n)
  have none: "vblank_edges s s 0" by (simp add: vblank_edges_def)
  show ?case
  proof (cases "cycles_since_vblank s \<ge> VBLANK_CYCLES \<and> \<not> should_defer_vblank_for_sio C s")
    case True
    let ?f = "fire_vblank_edge C s"
    obtain k where k: "vblank_edges ?f (vblank_loop n C ?f) k" using Suc.IH by blast
    have "unat (cycles_since_vblank s - VBLANK_CYCLES) = unat (cycles_since_vblank s) - 564480" "564480 \<le> unat (cycles_since_vblank s)"
      using True by (simp_all add: unat_sub_if_size word_le_nat_alt)
    moreover have "bit (i_stat (vblank_loop n C ?f)) 0"
      using k fire_vblank_facts(3) [of C s] vblank_loop_keeps_bit by blast
    ultimately have "vblank_edges s (vblank_loop n C ?f) (Suc k)"
      using k by (auto simp: vblank_edges_def fire_vblank_facts)
    with True show ?thesis by auto
  next
    case False
    then have "vblank_loop (Suc n) C s = s" by auto
    with none show ?thesis by metis
  qed
qed

text \<open>The loop ends with less than one period left, or in a state that defers the next edge.\<close>

lemma vblank_loop_finishes:
  assumes "unat (cycles_since_vblank s) div 564480 \<le> n"
  shows "unat (cycles_since_vblank (vblank_loop n C s)) < 564480 \<or> should_defer_vblank_for_sio C (vblank_loop n C s)"
  using assms
proof (induction n arbitrary: s)
  case 0
  then show ?case by (simp add: div_eq_0_iff)
next
  case (Suc n)
  show ?case
  proof (cases "cycles_since_vblank s \<ge> VBLANK_CYCLES")
    case True
    then have "unat (cycles_since_vblank s - VBLANK_CYCLES) = unat (cycles_since_vblank s) - 564480" "564480 \<le> unat (cycles_since_vblank s)"
      by (simp_all add: unat_sub_if_size word_le_nat_alt)
    then have "unat (cycles_since_vblank (fire_vblank_edge C s)) div 564480 \<le> n"
      using Suc.prems by (simp add: fire_vblank_facts le_div_geq)
    from Suc.IH [OF this] show ?thesis using True by simp
  next
    case False
    then show ?thesis by (simp add: word_le_nat_alt)
  qed
qed

lemma advance_vblank_edges:
  assumes "unat (cycles_since_vblank s) + unat c < 2 ^ 32"
  shows "\<exists>k. g_vblank_raise_count (interrupts_advance_cycles C c s) = g_vblank_raise_count s + of_nat k \<and>
      unat (cycles_since_vblank (interrupts_advance_cycles C c s)) + 564480 * k = unat (cycles_since_vblank s) + unat c \<and>
      in_exception (interrupts_advance_cycles C c s) = in_exception s \<and> (0 < k \<longrightarrow> bit (i_stat (interrupts_advance_cycles C c s)) 0) \<and>
      (in_exception s = 0 \<longrightarrow> unat (cycles_since_vblank (interrupts_advance_cycles C c s)) < 564480 \<or>
         should_defer_vblank_for_sio C (interrupts_advance_cycles C c s))"
proof -
  let ?s = "s\<lparr> cycles_since_vblank := cycles_since_vblank s + c \<rparr>"
  let ?n = "note_sio_progress_cycle C ?s"
  let ?t = "interrupts_advance_cycles C c s"
  have u: "unat (cycles_since_vblank s + c) = unat (cycles_since_vblank s) + unat c" using assms by (simp add: unat_word_ariths(1))
  have n: "cycles_since_vblank ?n = cycles_since_vblank s + c" "g_vblank_raise_count ?n = g_vblank_raise_count s"
    "in_exception ?n = in_exception s"
    by (simp_all add: note_sio_progress_cycle_def)
  show ?thesis
  proof (cases "in_exception s = 0")
    case True
    then have t: "?t = vblank_loop (unat (cycles_since_vblank ?n) div 564480) C ?n"
      by (simp add: interrupts_advance_cycles_def interrupts_service_scheduled_events_def n)
    obtain k where "vblank_edges ?n ?t k" unfolding t using vblank_loop_edges by blast
    moreover have "unat (cycles_since_vblank ?t) < 564480 \<or> should_defer_vblank_for_sio C ?t"
      unfolding t by (rule vblank_loop_finishes) simp
    ultimately show ?thesis unfolding vblank_edges_def n u by (intro exI [of _ k]) auto
  next
    case False
    then have "?t = ?n" by (simp add: interrupts_advance_cycles_def interrupts_service_scheduled_events_def n)
    then show ?thesis using False n u by (intro exI [of _ 0]) simp
  qed
qed

section \<open>What the steps of the clock keep\<close>

definition sched :: "('d, 'z) cyc \<Rightarrow> u64 \<times> u64 \<times> u64 \<times> bool" where
  "sched s = (cycle_count s, s_devices_synced_cycle s, s_next_service_cycle s, s_in_device_service s)"

lemma clock_view_core:
  assumes "clock_view s = clock_view (t :: ('d, 'z) cyc)"
  shows "sched s = sched t" "timers s = timers t" "timer_frac s = timer_frac t"
  using assms by (cases s; cases t; simp add: clock_view_def sched_def)+

lemma vblank_core:
  "sched (fire_vblank_edge C s) = sched s" "timers (fire_vblank_edge C s) = timers s" "timer_frac (fire_vblank_edge C s) = timer_frac s"
  by (simp_all add: sched_def fire_vblank_edge_def on_devs_def event_ring_record_def event_ring_record_aux_def psx_irq_raise_def
      device_trace_note_def Let_def)

lemma vblank_loop_core:
  "sched (vblank_loop n C s) = sched s \<and> timers (vblank_loop n C s) = timers s \<and> timer_frac (vblank_loop n C s) = timer_frac s"
  by (induction n arbitrary: s) (simp_all add: vblank_core)

lemma service_events_core [simp]:
  "sched (interrupts_service_scheduled_events C s) = sched s"
  "timers (interrupts_service_scheduled_events C s) = timers s"
  "timer_frac (interrupts_service_scheduled_events C s) = timer_frac s"
proof -
  have "sched (note_sio_progress_cycle C s) = sched s \<and> timers (note_sio_progress_cycle C s) = timers s
      \<and> timer_frac (note_sio_progress_cycle C s) = timer_frac s"
    by (simp add: note_sio_progress_cycle_def sched_def)
  then show "sched (interrupts_service_scheduled_events C s) = sched s"
    "timers (interrupts_service_scheduled_events C s) = timers s"
    "timer_frac (interrupts_service_scheduled_events C s) = timer_frac s"
    by (simp_all add: interrupts_service_scheduled_events_def Let_def vblank_loop_core)
qed

lemma advance_vblank_core [simp]:
  "sched (interrupts_advance_cycles C c s) = sched s" "timers (interrupts_advance_cycles C c s) = timers s"
  "timer_frac (interrupts_advance_cycles C c s) = timer_frac s"
  by (simp_all add: interrupts_advance_cycles_def) (simp add: sched_def)

text \<open>The root counters change nothing but themselves, the interrupt lines and the logs.\<close>

definition outside_timers :: "('d, 'z) dma \<Rightarrow> u64 \<times> u32 \<times> 'z" where
  "outside_timers s = (cycle_count s, in_exception s, dma_st.more s)"

lemma timer_ops_outside [simp]:
  fixes s :: "('d, 'z) dma"
  shows "outside_timers (upd_timer t f s) = outside_timers s" "outside_timers (psx_irq_raise b d s) = outside_timers s"
    "outside_timers (event_ring_record_aux k d' a s) = outside_timers s"
    "outside_timers (s\<lparr> timer_frac := x \<rparr>) = outside_timers s" "outside_timers (s\<lparr> g_timer_irq_fired := y \<rparr>) = outside_timers s"
  by (simp_all add: outside_timers_def upd_timer_def psx_irq_raise_def device_trace_note_def event_ring_record_aux_def)

lemma tick_outside [simp]:
  fixes s :: "('d, 'z) dma"
  shows "outside_timers (timer_tick_one t s) = outside_timers s"
proof -
  have "outside_timers (timer_drive_line t u) = outside_timers u" "outside_timers (timer_disarm_oneshot t u) = outside_timers u" for u :: "('d, 'z) dma"
    by (simp_all add: timer_drive_line_def timer_disarm_oneshot_def Let_def)
  then have "outside_timers (timer_fire_irq t u) = outside_timers u" for u :: "('d, 'z) dma"
    by (simp add: timer_fire_irq_def Let_def)
  then show ?thesis by (simp add: timer_tick_one_def timer_hit_target_def timer_hit_overflow_def Let_def)
qed

lemma timers_advance_outside:
  fixes s :: "('d, 'z) dma"
  shows "outside_timers (timers_advance c s) = outside_timers s"
proof -
  have ticks: "outside_timers ((timer_tick_one t ^^ n) u) = outside_timers u" for t n and u :: "('d, 'z) dma" by (induction n) simp_all
  have "outside_timers (timers_advance_one c t u) = outside_timers u" if "t < 3" for t and u :: "('d, 'z) dma"
    using that by (simp add: advance_one_ticks ticks)
  then show ?thesis by (simp add: timers_advance_def numeral_3_eq_3)
qed

text \<open>The part of the state the VBlank scheduler counts with.\<close>

definition vblank_view :: "('d, 'z) cyc \<Rightarrow> u32 \<times> u64 \<times> u32" where
  "vblank_view s = (cycles_since_vblank s, g_vblank_raise_count s, in_exception s)"

lemma outside_timers_core:
  assumes "outside_timers s = outside_timers (t :: ('d, 'z) cyc)"
  shows "sched s = sched t" "vblank_view s = vblank_view t"
  using assms by (cases s; cases t; simp add: outside_timers_def sched_def vblank_view_def)+

lemmas timers_advance_core [simp] = outside_timers_core [OF timers_advance_outside]

lemma clock_view_vblank:
  assumes "clock_view s = clock_view (t :: ('d, 'z) cyc)"
  shows "vblank_view s = vblank_view t"
  using assms by (cases s; cases t; simp add: clock_view_def vblank_view_def)

text \<open>The parts of the clock the serial and disc controllers never touch.\<close>

definition quiet_devices :: "('d, 'z) clk \<Rightarrow> bool" where
  "quiet_devices C \<longleftrightarrow>
     (\<forall>c s. clock_view (sio_advance C c s) = clock_view s \<and> clock_view (cdrom_advance C c s) = clock_view s)"

lemma advance_devices_core:
  fixes s :: "('d, 'z) cyc"
  assumes "quiet_devices C"
  shows "sched (advance_devices C c s) = sched (s\<lparr> cycle_count := cycle_count s + ucast c \<rparr>)"
    and "\<exists>u :: ('d, 'z) cyc. timers u = timers s \<and> timer_frac u = timer_frac s \<and>
           timers (advance_devices C c s) = timers (timers_advance c u) \<and> timer_frac (advance_devices C c s) = timer_frac (timers_advance c u)"
proof -
  let ?s1 = "s\<lparr> cycle_count := cycle_count s + ucast c \<rparr>"
  define u where "u = dma_advance (dma_ops C) c (cdrom_advance C c (sio_advance C c ?s1))"
  have "clock_view u = clock_view ?s1"
    using assms unfolding u_def quiet_devices_def by (simp add: clock_view_dma_advance)
  note u = clock_view_core [OF this]
  have a: "advance_devices C c s = interrupts_advance_cycles C c (timers_advance c u)"
    by (simp add: advance_devices_def Let_def u_def)
  show "sched (advance_devices C c s) = sched ?s1" unfolding a using u(1) by simp
  show "\<exists>u :: ('d, 'z) cyc. timers u = timers s \<and> timer_frac u = timer_frac s \<and>
      timers (advance_devices C c s) = timers (timers_advance c u) \<and> timer_frac (advance_devices C c s) = timer_frac (timers_advance c u)"
    unfolding a using u(2,3) by (intro exI [of _ u]) simp
qed

lemma advance_devices_edges:
  fixes s :: "('d, 'z) cyc"
  assumes "quiet_devices C" and "unat (cycles_since_vblank s) + unat c < 2 ^ 32"
  shows "\<exists>k. g_vblank_raise_count (advance_devices C c s) = g_vblank_raise_count s + of_nat k \<and>
      unat (cycles_since_vblank (advance_devices C c s)) + 564480 * k = unat (cycles_since_vblank s) + unat c \<and>
      in_exception (advance_devices C c s) = in_exception s \<and>
      (in_exception s = 0 \<longrightarrow> unat (cycles_since_vblank (advance_devices C c s)) < 564480 \<or>
         should_defer_vblank_for_sio C (advance_devices C c s))"
proof -
  let ?s1 = "s\<lparr> cycle_count := cycle_count s + ucast c \<rparr>"
  define u where "u = timers_advance c (dma_advance (dma_ops C) c (cdrom_advance C c (sio_advance C c ?s1)))"
  have "clock_view (dma_advance (dma_ops C) c (cdrom_advance C c (sio_advance C c ?s1))) = clock_view ?s1"
    using assms(1) unfolding quiet_devices_def by (simp add: clock_view_dma_advance)
  from clock_view_vblank [OF this] have "vblank_view u = vblank_view ?s1"
    unfolding u_def timers_advance_core(2) .
  then have v: "cycles_since_vblank u = cycles_since_vblank s" "g_vblank_raise_count u = g_vblank_raise_count s" "in_exception u = in_exception s"
    by (simp_all add: vblank_view_def)
  have a: "advance_devices C c s = interrupts_advance_cycles C c u"
    by (simp add: advance_devices_def Let_def u_def)
  show ?thesis
    unfolding a using advance_vblank_edges [of u c C] assms(2) unfolding v by blast
qed

text \<open>Whatever the slices and whatever is deferred in between, the edges raised and the counter account for
  every cycle.\<close>

lemma advance_devices_account:
  fixes s :: "('d, 'z) cyc"
  assumes "quiet_devices C" and "unat (cycles_since_vblank s) + sum_list (map unat cs) < 2 ^ 32"
  shows "\<exists>k. g_vblank_raise_count (fold (advance_devices C) cs s) = g_vblank_raise_count s + of_nat k \<and>
      unat (cycles_since_vblank (fold (advance_devices C) cs s)) + 564480 * k = unat (cycles_since_vblank s) + sum_list (map unat cs) \<and>
      in_exception (fold (advance_devices C) cs s) = in_exception s"
  using assms(2)
proof (induction cs arbitrary: s)
  case Nil
  then show ?case by (intro exI [of _ 0]) simp
next
  case (Cons c cs)
  let ?t = "advance_devices C c s"
  obtain k where k: "g_vblank_raise_count ?t = g_vblank_raise_count s + of_nat k"
    "unat (cycles_since_vblank ?t) + 564480 * k = unat (cycles_since_vblank s) + unat c" "in_exception ?t = in_exception s"
    using advance_devices_edges [OF assms(1), of s c] Cons.prems by auto
  have "unat (cycles_since_vblank ?t) + sum_list (map unat cs) < 2 ^ 32"
    using Cons.prems k(2) by simp
  from Cons.IH [OF this] obtain j where "g_vblank_raise_count (fold (advance_devices C) cs ?t) = g_vblank_raise_count ?t + of_nat j"
    "unat (cycles_since_vblank (fold (advance_devices C) cs ?t)) + 564480 * j = unat (cycles_since_vblank ?t) + sum_list (map unat cs)"
    "in_exception (fold (advance_devices C) cs ?t) = in_exception ?t"
    by blast
  with k show ?case by (intro exI [of _ "k + j"]) (simp add: add.assoc)
qed

section \<open>Event-deadline servicing\<close>

text \<open>A replay of the devices: chunk by chunk, each chunk no longer than the distance to the next event.\<close>

primrec replay_ok :: "('d, 'z) clk \<Rightarrow> u32 list \<Rightarrow> ('d, 'z) cyc \<Rightarrow> bool" where
  "replay_ok C [] s \<longleftrightarrow> True"
| "replay_ok C (c # cs) s \<longleftrightarrow> 0 < c \<and> c \<le> devices_cycles_to_next_internal_event C s \<and>
     replay_ok C cs (interrupts_service_scheduled_events C (advance_devices C c s))"

definition replay :: "('d, 'z) clk \<Rightarrow> u32 list \<Rightarrow> ('d, 'z) cyc \<Rightarrow> ('d, 'z) cyc" where
  "replay C cs s = fold (\<lambda>c u. interrupts_service_scheduled_events C (advance_devices C c u)) cs s"

lemma event_distance_pos: "0 < devices_cycles_to_next_internal_event C s"
  by (simp add: devices_cycles_to_next_internal_event_def Let_def word_gt_0)

lemma unat_ucast64: "unat (ucast (x :: u32) :: u64) = unat x"
  using unsigned_less [of x, where ?'a = nat] by (simp add: unsigned_ucast_eq take_bit_nat_eq_self)

lemma service_step_bounds:
  assumes "cycle_count s < target_cycle"
  shows "0 < service_step C target_cycle s" "service_step C target_cycle s \<le> devices_cycles_to_next_internal_event C s"
    and "unat (service_step C target_cycle s) \<le> unat (target_cycle - cycle_count s)"
proof -
  let ?g = "target_cycle - cycle_count s" and ?d = "devices_cycles_to_next_internal_event C s"
  have g: "0 < unat ?g" using assms by (simp add: word_less_nat_alt unat_sub_if_size)
  have r: "unat (ucast ?g :: u32) \<le> unat ?g" by (simp add: unsigned_ucast_eq take_bit_nat_less_eq_self)
  have d: "0 < ?d" by (rule event_distance_pos)
  show "0 < service_step C target_cycle s" by (auto simp: service_step_def Let_def word_gt_0)
  show "service_step C target_cycle s \<le> ?d"
    using d by (auto simp: service_step_def Let_def not_less word_le_nat_alt word_less_nat_alt)
  show "unat (service_step C target_cycle s) \<le> unat ?g"
    using g r by (auto simp: service_step_def Let_def word_less_nat_alt split: if_splits)
qed

lemma service_loop_replays:
  assumes "quiet_devices C" and "cycle_count s \<le> target_cycle" and "unat (target_cycle - cycle_count s) \<le> n"
  shows "\<exists>cs. service_loop n C target_cycle s = Some (replay C cs s) \<and> replay_ok C cs s \<and>
     sum_list (map unat cs) = unat (target_cycle - cycle_count s) \<and>
     sched (replay C cs s) = sched (s\<lparr> cycle_count := target_cycle \<rparr>)"
  using assms(2,3)
proof (induction n arbitrary: s)
  case 0
  then have e: "cycle_count s = target_cycle" by (simp add: unat_eq_0)
  then show ?case by (intro exI [of _ "[]"]) (simp add: replay_def sched_def)
next
  case (Suc n)
  show ?case
  proof (cases "cycle_count s < target_cycle")
    case False
    then have e: "cycle_count s = target_cycle" using Suc.prems(1) by simp
    then show ?thesis by (intro exI [of _ "[]"]) (simp add: replay_def sched_def)
  next
    case True
    define c where "c = service_step C target_cycle s"
    define u where "u = interrupts_service_scheduled_events C (advance_devices C c s)"
    note b = service_step_bounds [OF True, of C, folded c_def]
    have su: "sched u = sched (s\<lparr> cycle_count := cycle_count s + ucast c \<rparr>)"
      by (simp add: u_def advance_devices_core(1) [OF assms(1)])
    then have cu: "cycle_count u = cycle_count s + ucast c" by (simp add: sched_def)
    have g: "unat (target_cycle - cycle_count s) = unat target_cycle - unat (cycle_count s)"
      using True by (simp add: word_less_nat_alt unat_sub_if_size)
    have nu: "unat (cycle_count u) = unat (cycle_count s) + unat c"
      using b(3) True unsigned_less [of target_cycle, where ?'a = nat] unfolding cu g
      by (simp add: unat_word_ariths(1) unat_ucast64 word_less_nat_alt)
    have le: "cycle_count u \<le> target_cycle" using b(3) True unfolding g word_le_nat_alt nu word_less_nat_alt by simp
    then have gu: "unat (target_cycle - cycle_count u) = unat (target_cycle - cycle_count s) - unat c"
      unfolding g using nu by (simp add: word_le_nat_alt unat_sub_if_size)
    have "0 < unat c" using b(1) by (simp add: word_less_nat_alt)
    then have "unat (target_cycle - cycle_count u) \<le> n" using gu Suc.prems(2) b(3) by simp
    from Suc.IH [OF le this] obtain cs where cs: "service_loop n C target_cycle u = Some (replay C cs u)" "replay_ok C cs u"
      "sum_list (map unat cs) = unat (target_cycle - cycle_count u)" "sched (replay C cs u) = sched (u\<lparr> cycle_count := target_cycle \<rparr>)"
      by blast
    have "sched (u\<lparr> cycle_count := target_cycle \<rparr>) = sched (s\<lparr> cycle_count := target_cycle \<rparr>)" using su by (simp add: sched_def)
    with True cs b gu show ?thesis
      by (intro exI [of _ "c # cs"]) (simp add: replay_def c_def [symmetric] u_def [symmetric])
  qed
qed

lemma deadline_bounds:
  "let d = s_next_service_cycle (psx_devices_recompute_deadline C s) - cycle_count s in 0 < d \<and> d \<le> 16384"
proof -
  show ?thesis
    using event_distance_pos [of C s]
    by (simp add: psx_devices_recompute_deadline_def Let_def word_less_nat_alt word_le_nat_alt unat_ucast64)
qed

lemma service_replay_facts:
  assumes "quiet_devices C" and "\<not> s_in_device_service s" and "s_devices_synced_cycle s < cycle_count s"
    and "unat (cycle_count s - s_devices_synced_cycle s) \<le> n"
  shows "\<exists>t cs. psx_devices_service_to_now n C s = Some t \<and>
     (let start = interrupts_service_scheduled_events C
                    (s\<lparr> s_in_device_service := True, cycle_count := s_devices_synced_cycle s \<rparr>);
          end_state = (replay C cs start)\<lparr> s_devices_synced_cycle := cycle_count s \<rparr>
      in replay_ok C cs start \<and> sum_list (map unat cs) = unat (cycle_count s - s_devices_synced_cycle s) \<and>
         t = (psx_devices_recompute_deadline C end_state)\<lparr> s_in_device_service := False \<rparr>) \<and>
     cycle_count t = cycle_count s \<and> s_devices_synced_cycle t = cycle_count s \<and> \<not> s_in_device_service t \<and>
     0 < s_next_service_cycle t - cycle_count t \<and> s_next_service_cycle t - cycle_count t \<le> 16384"
proof -
  let ?s = "s\<lparr> s_in_device_service := True, cycle_count := s_devices_synced_cycle s \<rparr>"
  define start where "start = interrupts_service_scheduled_events C ?s"
  have "sched start = sched ?s" by (simp add: start_def)
  then have st: "cycle_count start = s_devices_synced_cycle s" by (simp add: sched_def)
  obtain cs where cs: "service_loop n C (cycle_count s) start = Some (replay C cs start)" "replay_ok C cs start"
    "sum_list (map unat cs) = unat (cycle_count s - cycle_count start)"
    "sched (replay C cs start) = sched (start\<lparr> cycle_count := cycle_count s \<rparr>)"
    using service_loop_replays [OF assms(1), of start "cycle_count s" n] less_imp_le [OF assms(3)] assms(4) st by auto
  define e where "e = (replay C cs start)\<lparr> s_devices_synced_cycle := cycle_count s \<rparr>"
  have ce: "cycle_count e = cycle_count s" using cs(4) by (simp add: e_def sched_def)
  let ?t = "(psx_devices_recompute_deadline C e)\<lparr> s_in_device_service := False \<rparr>"
  have t: "psx_devices_service_to_now n C s = Some ?t"
    using assms(2,3) cs(1) by (simp add: psx_devices_service_to_now_def Let_def start_def [symmetric] e_def)
  have "cycle_count ?t = cycle_count s" "s_devices_synced_cycle ?t = cycle_count s" "\<not> s_in_device_service ?t"
    using ce by (simp_all add: psx_devices_recompute_deadline_def Let_def e_def)
  moreover have "s_next_service_cycle ?t = s_next_service_cycle (psx_devices_recompute_deadline C e)" by simp
  ultimately show ?thesis
    using t cs(2,3) st deadline_bounds [of C e] ce
    unfolding start_def [symmetric] Let_def e_def [symmetric]
    by (intro exI [of _ ?t] exI [of _ cs]) (simp add: e_def)
qed

section \<open>The root counters under servicing\<close>

text \<open>One counter with its fraction, and the fact that its advance depends on nothing else.\<close>

definition cnt :: "nat \<Rightarrow> 'a timers_st_scheme \<Rightarrow> timer \<times> u32" where
  "cnt t s = (timers s t, timer_frac s t)"

lemma fire_cong:
  assumes "timers s t = timers u t"
  shows "timers (timer_fire_irq t s) t = timers (timer_fire_irq t u) t"
proof -
  have drive: "timers (timer_drive_line t x) t = timers (timer_drive_line t y) t" if "timers x t = timers y t"
    for x :: "'x timers_st_scheme" and y :: "'y timers_st_scheme"
    using that by (simp add: timer_drive_line_def Let_def)
  have disarm: "timers (timer_disarm_oneshot t x) t = timers (timer_disarm_oneshot t y) t" if "timers x t = timers y t"
    for x :: "'x timers_st_scheme" and y :: "'y timers_st_scheme"
    using that by (simp add: timer_disarm_oneshot_def)
  show ?thesis using assms by (simp add: timer_fire_irq_def Let_def) (intro disarm drive, simp)
qed

lemma tick_cong:
  assumes "timers s t = timers u t"
  shows "timers (timer_tick_one t s) t = timers (timer_tick_one t u) t"
proof -
  have target: "timers (timer_hit_target t x) t = timers (timer_hit_target t y) t" if "timers x t = timers y t"
    for x :: "'a timers_st_scheme" and y :: "'b timers_st_scheme"
    using that fire_cong [of "upd_timer t (\<lambda>tm. tm\<lparr> mode := mode tm OR MODE_TARGET_FLAG \<rparr>) x" t
        "upd_timer t (\<lambda>tm. tm\<lparr> mode := mode tm OR MODE_TARGET_FLAG \<rparr>) y"]
    by (simp add: timer_hit_target_def Let_def)
  have over: "timers (timer_hit_overflow t x) t = timers (timer_hit_overflow t y) t" if "timers x t = timers y t"
    for x :: "'a timers_st_scheme" and y :: "'b timers_st_scheme"
    using that fire_cong [of "upd_timer t (\<lambda>tm. tm\<lparr> mode := mode tm OR MODE_OVERFLOW_FLAG \<rparr>) x" t
        "upd_timer t (\<lambda>tm. tm\<lparr> mode := mode tm OR MODE_OVERFLOW_FLAG \<rparr>) y"]
    by (simp add: timer_hit_overflow_def Let_def)
  show ?thesis
    using assms target [of "upd_timer t (\<lambda>tm. tm\<lparr> counter := counter tm + 1 \<rparr>) s" "upd_timer t (\<lambda>tm. tm\<lparr> counter := counter tm + 1 \<rparr>) u"]
    by (simp add: timer_tick_one_def Let_def over)
qed

lemma ticks_cong: "timers s t = timers u t \<Longrightarrow> timers ((timer_tick_one t ^^ n) s) t = timers ((timer_tick_one t ^^ n) u) t"
  by (induction n) (auto intro: tick_cong)

lemma cnt_one_cong:
  assumes "t < 3" and "cnt t s = cnt t u"
  shows "cnt t (timers_advance_one c t s) = cnt t (timers_advance_one c t u)"
proof -
  have src: "timer_src t s = timer_src t u" using assms(2) by (simp add: cnt_def timer_src_def)
  have clocks: "timer_uses_sysclk t s = timer_uses_sysclk t u" "timer_divisor t s = timer_divisor t u"
    unfolding timer_divisor_def timer_uses_sysclk_def src by simp_all
  have "timers ((timer_tick_one t ^^ n) (s\<lparr> timer_frac := x \<rparr>)) t = timers ((timer_tick_one t ^^ n) (u\<lparr> timer_frac := y \<rparr>)) t" for n x y
    using assms(2) by (intro ticks_cong) (simp add: cnt_def)
  moreover have "timers ((timer_tick_one t ^^ n) s) t = timers ((timer_tick_one t ^^ n) u) t" for n
    using assms(2) by (intro ticks_cong) (simp add: cnt_def)
  ultimately show ?thesis
    using assms by (simp add: cnt_def advance_one_ticks ticks_frame advance_ticks_def advance_frac_def clocks)
qed

lemma cnt_one_other: "t < 3 \<Longrightarrow> t' < 3 \<Longrightarrow> t' \<noteq> t \<Longrightarrow> cnt t (timers_advance_one c t' s) = cnt t s"
  by (simp add: cnt_def advance_one_frame)

lemma cnt_advance:
  assumes "t < 3" and "c \<noteq> 0"
  shows "cnt t (timers_advance c s) = cnt t (timers_advance_one c t s)"
proof -
  let ?a = "timers_advance_one c"
  have a: "timers_advance c s = ?a 2 (?a 1 (?a 0 s))"
    using assms(2) by (simp add: timers_advance_def numeral_3_eq_3 numeral_2_eq_2)
  consider "t = 0" | "t = 1" | "t = 2" using assms(1) by linarith
  then show ?thesis
  proof cases
    case 1
    then show ?thesis by (simp add: a cnt_one_other)
  next
    case 2
    then show ?thesis using cnt_one_cong [of 1 "?a 0 s" s c] by (simp add: a cnt_one_other)
  next
    case 3
    then show ?thesis using cnt_one_cong [of 2 "?a 1 (?a 0 s)" s c] by (simp add: a cnt_one_other)
  qed
qed

lemma cnt_advance_cong:
  assumes "t < 3" and "c \<noteq> 0" and "cnt t s = cnt t u"
  shows "cnt t (timers_advance c s) = cnt t (timers_advance c u)"
  unfolding cnt_advance [OF assms(1,2)] by (rule cnt_one_cong [OF assms(1,3)])

lemma cnt_advance_batch:
  assumes "t < 3" and "a \<noteq> 0" and "b \<noteq> 0" and "unat (timer_frac s t) + unat a + unat b < 2 ^ 32"
  shows "cnt t (timers_advance b (timers_advance a s)) = cnt t (timers_advance (a + b) s)"
proof -
  have "a + b \<noteq> 0"
  proof
    assume "a + b = 0"
    moreover have "unat (a + b) = unat a + unat b" using assms(4) by (simp add: unat_word_ariths(1))
    ultimately show False using assms(2) by (simp add: unat_eq_0)
  qed
  moreover have "cnt t (timers_advance b (timers_advance a s)) = cnt t (timers_advance_one b t (timers_advance_one a t s))"
    using cnt_one_cong [OF assms(1), of "timers_advance a s" "timers_advance_one a t s" b] assms(1-3) by (simp add: cnt_advance)
  ultimately show ?thesis using assms(1) by (simp add: cnt_advance advance_one_batch [OF assms(1,4)])
qed

lemma cnt_devices:
  fixes s :: "('d, 'z) cyc"
  assumes "quiet_devices C" and "t < 3" and "c \<noteq> 0"
  shows "cnt t (interrupts_service_scheduled_events C (advance_devices C c s)) = cnt t (timers_advance c s)"
proof -
  obtain u :: "('d, 'z) cyc" where u: "timers u = timers s" "timer_frac u = timer_frac s"
    "timers (advance_devices C c s) = timers (timers_advance c u)" "timer_frac (advance_devices C c s) = timer_frac (timers_advance c u)"
    using advance_devices_core(2) [OF assms(1)] by blast
  have "cnt t (timers_advance c u) = cnt t (timers_advance c s)"
    by (rule cnt_advance_cong [OF assms(2,3)]) (simp add: cnt_def u)
  then show ?thesis by (simp add: cnt_def u)
qed

lemma frac_advance_le:
  assumes "t < 3" and "c \<noteq> 0" and "unat (timer_frac s t) + unat c < 2 ^ 32"
  shows "unat (timer_frac (timers_advance c s) t) \<le> unat (timer_frac s t) + unat c"
proof -
  have "timer_frac (timers_advance c s) t = advance_frac c t s t"
    using cnt_advance [OF assms(1,2), of s] assms(1) by (simp add: cnt_def advance_one_ticks ticks_frame)
  moreover have "unat (timer_frac s t + c) = unat (timer_frac s t) + unat c" using assms(3) by (simp add: unat_word_ariths(1))
  ultimately show ?thesis by (simp add: advance_frac_def unat_mod)
qed

lemma replay_counters:
  assumes "quiet_devices C" and "t < 3" and "replay_ok C cs s" and "cs \<noteq> []"
    and "unat (timer_frac s t) + sum_list (map unat cs) < 2 ^ 32"
  shows "cnt t (replay C cs s) = cnt t (timers_advance (of_nat (sum_list (map unat cs))) s)"
  using assms(3-)
proof (induction cs arbitrary: s)
  case Nil
  then show ?case by simp
next
  case (Cons c cs)
  let ?u = "interrupts_service_scheduled_events C (advance_devices C c s)"
  have c: "c \<noteq> 0" using Cons.prems(1) by auto
  have u: "cnt t ?u = cnt t (timers_advance c s)" by (rule cnt_devices [OF assms(1,2) c])
  show ?case
  proof (cases "cs = []")
    case True
    then show ?thesis using u by (simp add: replay_def)
  next
    case False
    define b :: u32 where "b = of_nat (sum_list (map unat cs))"
    have ub: "unat b = sum_list (map unat cs)"
      using Cons.prems(3) by (simp add: b_def unsigned_of_nat take_bit_nat_eq_self)
    have ok: "replay_ok C cs ?u" using Cons.prems(1) by simp
    have b: "b \<noteq> 0"
    proof
      assume "b = 0"
      then have "sum_list (map unat cs) = 0" using ub by simp
      moreover obtain d ds where "cs = d # ds" using False by (cases cs) auto
      moreover have "d \<noteq> 0" using ok calculation(2) by auto
      ultimately show False by (simp add: unat_eq_0)
    qed
    have fits: "unat (timer_frac s t) + unat c + unat b < 2 ^ 32" using Cons.prems(3) ub by simp
    have "timer_frac ?u t = timer_frac (timers_advance c s) t" using u by (simp add: cnt_def)
    then have "unat (timer_frac ?u t) + sum_list (map unat cs) < 2 ^ 32"
      using frac_advance_le [OF assms(2) c, of s] fits ub by simp
    then have "cnt t (replay C cs ?u) = cnt t (timers_advance b ?u)" using Cons.IH [OF ok False] by (simp add: b_def)
    also have "\<dots> = cnt t (timers_advance b (timers_advance c s))" by (rule cnt_advance_cong [OF assms(2) b u])
    also have "\<dots> = cnt t (timers_advance (c + b) s)" by (rule cnt_advance_batch [OF assms(2) c b fits])
    finally show ?thesis by (simp add: replay_def b_def)
  qed
qed

text \<open>The root counters do not notice the servicing: after a catch-up every counter, its mode and
  flags and its fraction are exactly what one advance by the whole gap makes of them, wherever the
  chunk boundaries fell and whatever the other devices did in between.\<close>

lemma counters_after_service:
  assumes "quiet_devices C" and "\<not> s_in_device_service s" and "s_devices_synced_cycle s < cycle_count s"
    and "unat (cycle_count s - s_devices_synced_cycle s) \<le> n" and "t < 3"
    and "unat (timer_frac s t) + unat (cycle_count s - s_devices_synced_cycle s) < 2 ^ 32"
  shows "\<exists>u. psx_devices_service_to_now n C s = Some u \<and>
     (let v = timers_advance (ucast (cycle_count s - s_devices_synced_cycle s)) s
      in timers u t = timers v t \<and> timer_frac u t = timer_frac v t)"
proof -
  let ?g = "cycle_count s - s_devices_synced_cycle s"
  let ?start = "interrupts_service_scheduled_events C (s\<lparr> s_in_device_service := True, cycle_count := s_devices_synced_cycle s \<rparr>)"
  obtain u cs where u: "psx_devices_service_to_now n C s = Some u"
    and cs: "replay_ok C cs ?start" "sum_list (map unat cs) = unat ?g"
      "u = (psx_devices_recompute_deadline C ((replay C cs ?start)\<lparr> s_devices_synced_cycle := cycle_count s \<rparr>))\<lparr> s_in_device_service := False \<rparr>"
    using service_replay_facts [OF assms(1-4)] unfolding Let_def by blast
  have "cs \<noteq> []"
  proof
    assume "cs = []"
    then have "?g = 0" using cs(2) by (simp add: unat_eq_0)
    with assms(3) show False by simp
  qed
  moreover have "cnt t ?start = cnt t s" by (simp add: cnt_def)
  moreover have "(of_nat (unat ?g) :: u32) = ucast ?g" by simp
  moreover have "(ucast ?g :: u32) \<noteq> 0"
  proof
    assume "(ucast ?g :: u32) = 0"
    moreover have "unat (ucast ?g :: u32) = unat ?g" using assms(6) by (simp add: unsigned_ucast_eq take_bit_nat_eq_self)
    ultimately have "unat ?g = 0" by simp
    with assms(3) show False by (simp add: unat_eq_0)
  qed
  ultimately have "cnt t (replay C cs ?start) = cnt t (timers_advance (ucast ?g) s)"
    using replay_counters [OF assms(1,5) cs(1)] cs(2) assms(6) cnt_advance_cong [OF assms(5), of "ucast ?g" ?start s]
    by (simp add: cnt_def)
  then show ?thesis
    using u cs(3) by (auto simp: cnt_def psx_devices_recompute_deadline_def Let_def)
qed

section \<open>Stalls and latencies\<close>

lemma clz_from_le: "k \<le> 31 \<Longrightarrow> n \<le> 32 \<Longrightarrow> clz_from n v \<le> 31 - k \<longleftrightarrow> (\<exists>i. k \<le> i \<and> i < n \<and> bit v i)"
proof (induction n)
  case 0
  then show ?case by simp
next
  case (Suc n)
  show ?case
  proof (cases "bit v n")
    case True
    then show ?thesis using Suc.prems by (cases "k \<le> n") auto
  next
    case False
    then have "(\<exists>i. k \<le> i \<and> i < Suc n \<and> bit v i) \<longleftrightarrow> (\<exists>i. k \<le> i \<and> i < n \<and> bit v i)" using less_Suc_eq by auto
    then show ?thesis using Suc False by simp
  qed
qed

lemma high_bits: "(\<exists>i. k \<le> i \<and> i < 32 \<and> bit v i) \<longleftrightarrow> \<not> v < 2 ^ k" if "k < 32" for v :: u32
proof -
  have "(2 :: nat) ^ k < 2 ^ 32" using that by (rule power_strict_increasing) simp
  then have "unat (2 ^ k :: u32) = 2 ^ k" using unat_of_nat [of "2 ^ k", where ?'a = 32] by simp
  then have "take_bit k v = v \<longleftrightarrow> v < 2 ^ k"
    by (simp add: word_unat_eq_iff unsigned_take_bit_eq take_bit_nat_eq_self_iff word_less_nat_alt)
  moreover have "take_bit k v = v \<longleftrightarrow> \<not> (\<exists>i. k \<le> i \<and> i < 32 \<and> bit v i)"
  proof -
    have lt: "n < 32" if "bit v n" for n using bit_imp_le_length [OF that] by simp
    have "take_bit k v = v \<longleftrightarrow> (\<forall>n. bit v n \<longrightarrow> n < k)"
      using lt by (auto simp: bit_eq_iff bit_take_bit_iff)
    also have "\<dots> \<longleftrightarrow> \<not> (\<exists>i. k \<le> i \<and> i < 32 \<and> bit v i)" using lt not_less by blast
    finally show ?thesis .
  qed
  ultimately show ?thesis by blast
qed

lemma mult_table:
  assumes "bit v 10"
  shows "PSX_MULT_TAB24 ! psx_clz32 v = (if v < 2 ^ 11 then 7 else if v < 2 ^ 20 then 10 else 14)"
proof -
  let ?i = "psx_clz32 v"
  have "?i \<le> 21 \<longleftrightarrow> (\<exists>i. 10 \<le> i \<and> i < 32 \<and> bit v i)" "?i \<le> 20 \<longleftrightarrow> \<not> v < 2 ^ 11" "?i \<le> 11 \<longleftrightarrow> \<not> v < 2 ^ 20"
    using clz_from_le [of 10 32 v] clz_from_le [of 11 32 v] clz_from_le [of 20 32 v] high_bits [of 11 v] high_bits [of 20 v]
    by (simp_all add: psx_clz32_def)
  moreover have "\<exists>i. 10 \<le> i \<and> i < 32 \<and> bit v i" using assms by (intro exI [of _ 10]) simp
  moreover have "v < 2 ^ 11 \<Longrightarrow> v < 2 ^ 20" by (simp add: word_less_nat_alt)
  ultimately show ?thesis
    by (auto simp: PSX_MULT_TAB24_def nth_append)
qed

text \<open>The latency of a multiplication grows with the operand: seven cycles below eleven significant
  bits, ten below twenty, fourteen above; for MULT the operand is folded to its magnitude first.\<close>

lemma mult_latency_by_magnitude:
  "psx_mult_latency_u rs = (if rs < 2 ^ 11 then 7 else if rs < 2 ^ 20 then 10 else 14)"
  "psx_mult_latency_s rs = (let m = rs XOR signed_drop_bit 31 rs in if m < 2 ^ 11 then 7 else if m < 2 ^ 20 then 10 else 14)"
proof -
  have o: "m OR 0x400 < 2 ^ k \<longleftrightarrow> m < 2 ^ k" if "10 < k" "k < 32" for m :: u32 and k
  proof -
    have "bit (m OR 0x400) i = bit m i" if "k \<le> i" for i
      using that \<open>10 < k\<close> bit_exp_iff [of 10 i, where ?'a = u32] by (auto simp: bit_or_iff)
    then show ?thesis using high_bits [OF that(2), of m] high_bits [OF that(2), of "m OR 0x400"] by metis
  qed
  have t: "bit (m OR 0x400) 10" for m :: u32 by (simp add: bit_or_iff)
  show "psx_mult_latency_u rs = (if rs < 2 ^ 11 then 7 else if rs < 2 ^ 20 then 10 else 14)"
    unfolding psx_mult_latency_u_def mult_table [OF t] using o [of 11 rs] o [of 20 rs] by simp
  show "psx_mult_latency_s rs = (let m = rs XOR signed_drop_bit 31 rs in if m < 2 ^ 11 then 7 else if m < 2 ^ 20 then 10 else 14)"
    unfolding psx_mult_latency_s_def Let_def mult_table [OF t]
    using o [of 11 "rs XOR signed_drop_bit 31 rs"] o [of 20 "rs XOR signed_drop_bit 31 rs"] by simp
qed

section \<open>Idle loops\<close>

lemma idle_distance_bound: "unat (devices_cycles_to_next_idle_event C s) \<le> 564480"
proof -
  have v: "unat (interrupts_cycles_to_vblank s) \<le> 564480"
    by (auto simp: interrupts_cycles_to_vblank_def unat_sub_if_size not_le word_less_nat_alt)
  then show ?thesis by (auto simp: devices_cycles_to_next_idle_event_def Let_def word_less_nat_alt)
qed

lemma ceil_div:
  assumes "0 < (q :: nat)" and "0 < d"
  shows "d \<le> ((d + q - 1) div q) * q" "((d + q - 1) div q - 1) * q < d"
proof -
  let ?k = "(d + q - 1) div q"
  have e: "?k * q + (d + q - 1) mod q = d + q - 1" by simp
  have "(d + q - 1) mod q < q" using assms(1) by simp
  then show "d \<le> ?k * q" using e by linarith
  have "(?k - 1) * q = ?k * q - q" by (simp add: diff_mult_distrib)
  moreover have "?k * q \<le> d + q - 1" using e by linarith
  ultimately show "(?k - 1) * q < d" using assms by linarith
qed

text \<open>An idle loop is skipped to where it would have arrived by itself: the skip is a whole number
  of iterations within the safety cap, its last iteration starts before the next event, it reaches the
  event when the registers do not change, and when the loop counts a register down it stops before the
  register reaches zero, so that the exit branch still runs.\<close>

lemma idle_skip_lands:
  fixes C :: "('d, 'z) clk" and s :: "('d, 'z) cyc"
  assumes "0 < s_idle_quantum s" and "s_idle_quantum s \<le> IDLE_QUANTUM_MAX" and "idle_iterations C c s \<noteq> 0"
  shows "let k = unat (idle_iterations C c s); q = unat (s_idle_quantum s); d = unat (devices_cycles_to_next_idle_event C s)
     in k * q \<le> 1200000 \<and> (k - 1) * q < d \<and> (s_idle_progress_reg s \<le> 0 \<longrightarrow> d \<le> k * q) \<and>
        (0 < s_idle_progress_reg s \<longrightarrow> k < unat (gpr c (nat (s_idle_progress_reg s))))"
proof -
  define q dist k0 where "q = s_idle_quantum s" and "dist = devices_cycles_to_next_idle_event C s" and "k0 = (dist + q - 1) div q"
  define v max_k where "v = gpr c (nat (s_idle_progress_reg s))" and "max_k = (if v > 1 then v - 1 else 0)"
  define k where "k = (if 0 < s_idle_progress_reg s then if k0 > max_k then max_k else k0 else k0)"
  have it: "idle_iterations C c s = k" "\<not> (ucast k * ucast q :: u64) > 1200000" "dist > q"
    using assms(3) unfolding idle_iterations_def Let_def q_def [symmetric] dist_def [symmetric] k0_def [symmetric]
      v_def [symmetric] max_k_def [symmetric] k_def [symmetric] by (auto split: if_splits)
  have q: "0 < unat q" "unat q \<le> 32768" using assms(1,2) by (simp_all add: q_def word_less_nat_alt word_le_nat_alt)
  have d: "0 < unat dist" "unat dist \<le> 564480" using it(3) q idle_distance_bound [of C s] by (auto simp: dist_def word_less_nat_alt)
  have "unat (dist + q) = unat dist + unat q" using d(2) q(2) by (simp add: unat_word_ariths(1))
  then have "unat (dist + q - 1) = unat dist + unat q - 1" using q(1) by (simp add: unat_sub_if_size)
  then have k0: "unat k0 = (unat dist + unat q - 1) div unat q" by (simp add: k0_def unat_div)
  note cd = ceil_div [OF q(1) d(1), folded k0]
  have le: "unat k \<le> unat k0" by (auto simp: k_def word_less_nat_alt)
  then have "(unat k - 1) * unat q \<le> (unat k0 - 1) * unat q" by (simp add: mult_le_mono1 diff_le_mono)
  then have "(unat k - 1) * unat q < unat dist" using cd(2) by (rule le_less_trans)
  moreover have "unat k < unat v" if "0 < s_idle_progress_reg s"
  proof -
    have "unat k \<le> unat max_k" "k \<noteq> 0" using that assms(3) it(1) by (auto simp: k_def word_less_nat_alt)
    then show ?thesis using unat_eq_0 [of k] by (auto simp: max_k_def word_less_nat_alt unat_sub_if_size split: if_splits)
  qed
  moreover have "unat k * unat q \<le> 1200000"
  proof -
    have "unat k < 2 ^ 32" "unat q < 2 ^ 32" using unsigned_less [of k, where ?'a = nat] unsigned_less [of q, where ?'a = nat] by simp_all
    then have "unat k * unat q < 2 ^ 32 * 2 ^ 32" by (intro mult_strict_mono) simp_all
    then have "unat (ucast k * ucast q :: u64) = unat k * unat q" by (simp add: unat_word_ariths(2) unat_ucast64)
    then show ?thesis using it(2) by (simp add: word_less_nat_alt)
  qed
  ultimately show ?thesis
    using cd(1) unfolding Let_def it(1) q_def [symmetric] dist_def [symmetric] v_def [symmetric] by (auto simp: k_def)
qed

section \<open>Examples\<close>

definition still_env :: "(u32 list, 's) dma_env" where
  "still_env = \<lparr> io = no_mmio, gpu_write_gp0 = (\<lambda>w d. d @ [w]), gpu_set_gp0_source = (\<lambda>a d. d),
     gpu_read_gpuread = (\<lambda>d. (0, d)), gpu_ws_begin_linked_list = (\<lambda>d. d), spu_dma_write = (\<lambda>w d. d),
     audio_trace_event = (\<lambda>k a b d. d), cdrom_dma_read = (\<lambda>d. (0, d)), cdrom_dma_ready = (\<lambda>d. False),
     cdrom_dma_sector_word_count = (\<lambda>d. 512), cdrom_get_setloc_lba = (\<lambda>d. 0),
     cdrom_debug_snapshot = (\<lambda>d. \<lparr> cs_last_sector_lba = 0, cs_sector_size = 0, cs_last_sector_size = 0,
       cs_sector_read_pos = 0, cs_last_sector_mode = 0, cs_mode_reg = 0, cs_sector_available = 0 \<rparr>),
     overlay_capture_on_dma = (\<lambda>a n m d. d) \<rparr>"

definition still_clock :: "(u32 list, unit) clk" where
  "still_clock = \<lparr> dma_ops = still_env, sio_advance = (\<lambda>c s. s), cdrom_advance = (\<lambda>c s. s),
     sio_cycles_to_irq = (\<lambda>m s. 0xFFFFFFFF), cdrom_cycles_to_irq = (\<lambda>m s. 0xFFFFFFFF), sio_get_seq = (\<lambda>s. 0),
     sio_card_protocol_active = (\<lambda>s. False), gpu_vblank = (\<lambda>d. d), starvation_watchdog_check = (\<lambda>s. s),
     starvation_ring_pc_sample = (\<lambda>s. s) \<rparr>"

definition cyc_zero :: "(u32 list) cyc_st" where
  "cyc_zero = dma_st.extend dma_zero (cyc_st.fields 0 0 False 0 0 False False 0 0 0 0 0 0 0 0 0 0 False 0 0 0 (\<lambda>_. 0) 0 0 (- 2) 0
     0 0 0 0 False False 0 False)"

lemma cyc_zero_simps [simp]:
  "cycle_count cyc_zero = 0" "s_devices_synced_cycle cyc_zero = 0" "\<not> s_in_device_service cyc_zero"
  "cycles_since_vblank cyc_zero = 0" "g_vblank_raise_count cyc_zero = 0" "in_exception cyc_zero = 0"
  "timers cyc_zero = (\<lambda>_. \<lparr> counter = 0, mode = 0, target = 0, irq_line = 0 \<rparr>)" "timer_frac cyc_zero = (\<lambda>_. 0)"
  by (simp_all add: cyc_zero_def dma_st.defs cyc_st.defs dma_zero_def mem_boot_def sys_boot_def)

lemma still_clock_quiet [simp]: "quiet_devices still_clock" "\<not> sio_card_protocol_active still_clock u"
  by (simp_all add: quiet_devices_def still_clock_def)

lemma counters_after_service_example:
  "\<exists>u. psx_devices_service_to_now 1000 still_clock (cyc_zero\<lparr> cycle_count := 1000 \<rparr>) = Some u \<and>
     timers u 2 = timers (timers_advance 1000 (cyc_zero\<lparr> cycle_count := 1000 \<rparr>)) 2"
  using counters_after_service [of still_clock "cyc_zero\<lparr> cycle_count := 1000 \<rparr>" 1000 2] by (auto simp: Let_def)

text \<open>A loop of 100 cycles with nothing pending but the next VBlank.\<close>

lemma idle_skip_lands_example:
  "let s = cyc_zero\<lparr> s_idle_quantum := 100, s_idle_streak := 4 \<rparr>; k = unat (idle_iterations still_clock cpu_zero s)
   in 564480 \<le> k * 100 \<and> (k - 1) * 100 < 564480"
proof -
  let ?s = "cyc_zero\<lparr> s_idle_quantum := 100, s_idle_streak := 4 \<rparr>"
  have z: "i_mask ?s = 0" "s_idle_progress_reg ?s = - 2"
    by (simp_all add: cyc_zero_def dma_st.defs cyc_st.defs dma_zero_def mem_boot_def sys_boot_def)
  have d: "devices_cycles_to_next_idle_event still_clock ?s = 564480"
    unfolding devices_cycles_to_next_idle_event_def z
    by (simp add: interrupts_cycles_to_vblank_def timers_cycles_to_irq_def timers_cycles_to_irq_one_def
        dma_cycles_to_deliverable_irq_def still_clock_def Let_def numeral_3_eq_3)
  have "idle_iterations still_clock cpu_zero ?s \<noteq> 0"
    unfolding idle_iterations_def d z Let_def by simp
  from idle_skip_lands [OF _ _ this] show ?thesis unfolding d z Let_def by simp
qed

end
