(* ===== verification/Icache.thy ===== *)
theory Icache
  imports Cycles_Props
begin

text \<open>
  The instruction-cache fetch cost (runtime/src/psx_icache.c): the array of per-word tags, the hit test,
  the refill of the rest of a line on a miss, the give-back of a pending load that a miss cancels and the
  cycles charged. The build is the one of Psx_Cycles (\<open>PSX_ENABLE_BLOCK_CYCLES\<close> defined); the environment
  variable \<open>PSX_ICACHE\<close> is a field of the state, and so is the static that remembers it.
\<close>

section \<open>The code\<close>

record 'd icache_st = "'d cyc_st" +
  s_icache_tv :: "nat \<Rightarrow> u32"
  icache_switch :: int
  env_psx_icache :: "string option"

type_synonym ('d, 'z) ic = "('d, 'z) icache_st_scheme"

definition psx_icache_enabled :: "('d, 'z) ic \<Rightarrow> bool \<times> ('d, 'z) ic" where
  "psx_icache_enabled s =
     (let s1 = (if icache_switch s < 0
                then s\<lparr> icache_switch := (case env_psx_icache s of None \<Rightarrow> 1 | Some [] \<Rightarrow> 1
                                         | Some (ch # _) \<Rightarrow> if ch \<noteq> CHR ''0'' then 1 else 0) \<rparr>
                else s)
      in (icache_switch s1 \<noteq> 0, s1))"

definition psx_icache_reset :: "('d, 'z) ic \<Rightarrow> ('d, 'z) ic" where
  "psx_icache_reset s = s\<lparr> s_icache_tv := (\<lambda>i. if i < 1024 then 1 else s_icache_tv s i) \<rparr>"

text \<open>The loop that makes the words from the missing one to the end of the line valid; it counts them.\<close>

primrec refill_loop :: "nat \<Rightarrow> nat \<Rightarrow> nat \<Rightarrow> u32 \<Rightarrow> (nat \<Rightarrow> u32) \<Rightarrow> u32 \<times> (nat \<Rightarrow> u32)" where
  "refill_loop 0 bidx i cost tv = (cost, tv)"
| "refill_loop (Suc n) bidx i cost tv =
     (if i < 4 then refill_loop n bidx (i + 1) (cost + 1) (tv(bidx + i := tv (bidx + i) AND NOT 2)) else (cost, tv))"

definition refill_line :: "u32 \<Rightarrow> (nat \<Rightarrow> u32) \<Rightarrow> u32 \<times> (nat \<Rightarrow> u32)" where
  "refill_line addr tv =
     (let line = addr AND 0xFFFFFFF0;
          bidx = unat (drop_bit 2 (addr AND 0xFF0));
          tv1 = tv(bidx + 0 := line OR 0 OR 2, bidx + 1 := line OR 4 OR 2, bidx + 2 := line OR 8 OR 2, bidx + 3 := line OR 0xC OR 2)
      in refill_loop 4 bidx (unat (drop_bit 2 (addr AND 0xC))) 3 tv1)"

definition cancel_give_back :: "cpu \<Rightarrow> cpu" where
  "cancel_give_back c = c\<lparr> read_absorb := (read_absorb c)(unat (read_absorb_which c) := 0), read_absorb_which := 0 \<rparr>"

text \<open>What a fetch does to the tags, and the cycles it costs: none on a hit.\<close>

definition icache_lookup :: "u32 \<Rightarrow> (nat \<Rightarrow> u32) \<Rightarrow> u32 option \<times> (nat \<Rightarrow> u32)" where
  "icache_lookup addr tv =
     (if tv (unat (drop_bit 2 (addr AND 0xFFC))) = addr then (None, tv)
      else if addr \<ge> 0xA0000000 then (Some 4, tv)
      else let (cost, tv1) = refill_line addr tv in (Some cost, tv1))"

definition psx_icache_fetch ::
  "nat \<Rightarrow> ('d, ('d, 'z) ic) clock_env \<Rightarrow> u32 \<Rightarrow> cpu \<Rightarrow> ('d, 'z) ic \<Rightarrow> (cpu \<times> ('d, 'z) ic) option" where
  "psx_icache_fetch n C addr c s0 =
     (if g_ls_replay_active s0 then Some (c, s0)
      else let (on, s) = psx_icache_enabled s0
           in if \<not> on then Some (c, s)
              else case icache_lookup addr (s_icache_tv s) of
                     (None, _) \<Rightarrow> Some (c, s)
                   | (Some cost, tv) \<Rightarrow>
                       map_option (Pair (cancel_give_back c)) (psx_advance_cycles n C cost (s\<lparr> s_icache_tv := tv \<rparr>)))"

section \<open>A direct-mapped cache\<close>

text \<open>The cache the source describes: 256 lines of four words, each line empty or holding the words of one
  16-byte block from some word on.\<close>

type_synonym dm_cache = "nat \<Rightarrow> (u32 \<times> nat) option"

definition line_of :: "u32 \<Rightarrow> u32" where "line_of addr = drop_bit 4 addr"
definition set_of :: "u32 \<Rightarrow> nat" where "set_of addr = unat (line_of addr) mod 256"
definition word_of :: "u32 \<Rightarrow> nat" where "word_of addr = unat addr div 4 mod 4"

definition dm_hit :: "dm_cache \<Rightarrow> u32 \<Rightarrow> bool" where
  "dm_hit A addr = (case A (set_of addr) of None \<Rightarrow> False | Some (l, lo) \<Rightarrow> l = line_of addr \<and> lo \<le> word_of addr)"

definition dm_fill :: "dm_cache \<Rightarrow> u32 \<Rightarrow> dm_cache" where
  "dm_fill A addr = A(set_of addr := Some (line_of addr, word_of addr))"

definition dm_access :: "dm_cache \<Rightarrow> u32 \<Rightarrow> dm_cache" where
  "dm_access A addr = (if dm_hit A addr \<or> addr \<ge> 0xA0000000 then A else dm_fill A addr)"

definition dm_cost :: "dm_cache \<Rightarrow> u32 \<Rightarrow> u32 option" where
  "dm_cost A addr =
     (if dm_hit A addr then None else if addr \<ge> 0xA0000000 then Some 4 else Some (3 + of_nat (4 - word_of addr)))"

text \<open>The tags that stand for a cache: in an empty line no tag is the address of an instruction; in a
  filled one the tags are the addresses of its words, with bit 1 set on those before the first valid one.\<close>

definition tag_of :: "u32 \<Rightarrow> nat \<Rightarrow> nat \<Rightarrow> u32" where
  "tag_of l lo w = push_bit 4 l + 4 * of_nat w + (if w < lo then 2 else 0)"

definition dm_rel :: "dm_cache \<Rightarrow> (nat \<Rightarrow> u32) \<Rightarrow> bool" where
  "dm_rel A tv \<longleftrightarrow>
     (\<forall>k < 256. case A k of None \<Rightarrow> \<forall>w < 4. tv (4 * k + w) AND 3 \<noteq> 0
                | Some (l, lo) \<Rightarrow> l < 0x10000000 \<and> (\<forall>w < 4. tv (4 * k + w) = tag_of l lo w))"

section \<open>Addresses\<close>

lemma line_of_unat: "unat (line_of addr) = unat addr div 16"
  by (simp add: line_of_def unat_drop_bit_eq drop_bit_eq_div [where 'a = nat])

lemma line_of_less: "line_of addr < 0x10000000"
  using unsigned_less [of addr, where ?'a = nat] by (simp add: word_less_nat_alt line_of_unat less_mult_imp_div_less)

lemma word_of_less [simp]: "word_of addr < 4"
  by (simp add: word_of_def)

lemma set_of_less [simp]: "set_of addr < 256"
  by (simp add: set_of_def)

lemma aligned_unat: "addr AND 3 = 0 \<longleftrightarrow> unat addr mod 4 = 0" for addr :: u32
  by (simp flip: unat_and_3 add: unat_eq_0)

lemma fetch_index: "unat (drop_bit 2 (addr AND 0xFFC)) = 4 * set_of addr + word_of addr" for addr :: u32
proof -
  have "drop_bit 2 (addr AND 0xFFC) = drop_bit 2 addr AND mask 10"
    by (simp add: mask_eq_exp_minus_1)
  then have "unat (drop_bit 2 (addr AND 0xFFC)) = unat addr div 4 mod 1024"
    by (simp only: unat_and_mask unat_drop_bit_eq) (simp add: drop_bit_eq_div [where 'a = nat])
  then show ?thesis
    using mod_mult2_eq [of "unat addr div 4" 4 256]
    by (simp add: set_of_def line_of_unat word_of_def flip: div_mult2_eq)
qed

lemma line_index: "unat (drop_bit 2 (addr AND 0xFF0)) = 4 * set_of addr" for addr :: u32
proof -
  have lit: "(0x3FC :: u32) = push_bit 2 (mask 8)" by (simp add: mask_eq_exp_minus_1)
  have "drop_bit 2 (addr AND 0xFF0) = drop_bit 2 addr AND 0x3FC" by simp
  also have "\<dots> = push_bit 2 (drop_bit 4 addr AND mask 8)"
    unfolding lit by (rule bit_word_eqI) (auto simp: bit_simps)
  finally have "unat (drop_bit 2 (addr AND 0xFF0)) = 4 * (unat (line_of addr) mod 256) mod 2 ^ 32"
    by (simp only: unsigned_push_bit_eq unat_and_mask) (simp add: line_of_def push_bit_eq_mult take_bit_eq_mod)
  then show ?thesis
    by (simp add: set_of_def)
qed

lemma word_index: "unat (drop_bit 2 (addr AND 0xC)) = word_of addr" for addr :: u32
proof -
  have "drop_bit 2 (addr AND 0xC) = drop_bit 2 addr AND mask 2"
    by (simp add: mask_eq_exp_minus_1)
  then show ?thesis
    by (simp only: unat_and_mask unat_drop_bit_eq) (simp add: word_of_def drop_bit_eq_div [where 'a = nat])
qed

lemma unat_tag_of:
  assumes "l < 0x10000000" "w < 4"
  shows "unat (tag_of l lo w) = 16 * unat l + 4 * w + (if w < lo then 2 else 0)"
proof -
  have "tag_of l lo w = of_nat (16 * unat l + 4 * w + (if w < lo then 2 else 0))"
    by (simp add: tag_of_def push_bit_eq_mult)
  then have "unat (tag_of l lo w) = (16 * unat l + 4 * w + (if w < lo then 2 else 0)) mod 2 ^ 32"
    by (simp only: unat_word_of_nat len_num1 len_bit0) simp
  then show ?thesis
    using assms by (simp add: word_less_nat_alt)
qed

lemma address_parts: "addr AND 3 = 0 \<Longrightarrow> unat addr = 16 * unat (line_of addr) + 4 * word_of addr"
  using mult_div_mod_eq [of 4 "unat addr"] mult_div_mod_eq [of 4 "unat addr div 4"]
  by (simp add: aligned_unat line_of_unat word_of_def flip: div_mult2_eq)

section \<open>The tags refine the cache\<close>

text \<open>The hit test of the code is the lookup of the cache.\<close>

lemma tag_test:
  assumes "dm_rel A tv" "addr AND 3 = 0"
  shows "tv (unat (drop_bit 2 (addr AND 0xFFC))) = addr \<longleftrightarrow> dm_hit A addr"
proof (cases "A (set_of addr)")
  case None
  then have "tv (4 * set_of addr + word_of addr) AND 3 \<noteq> 0"
    using assms(1) by (auto simp: dm_rel_def dest!: spec [of _ "set_of addr"])
  then show ?thesis using None assms(2) unfolding fetch_index by (auto simp: dm_hit_def)
next
  case (Some e)
  obtain l lo where e: "e = (l, lo)" by (cases e)
  have l: "l < 0x10000000" and tag: "tv (4 * set_of addr + word_of addr) = tag_of l lo (word_of addr)"
    using assms(1) Some e by (auto simp: dm_rel_def dest!: spec [of _ "set_of addr"])
  have "tag_of l lo (word_of addr) = addr \<longleftrightarrow>
      16 * unat l + (if word_of addr < lo then 2 else 0) = 16 * unat (line_of addr)"
    using unat_tag_of [OF l, of "word_of addr" lo] address_parts [OF assms(2)]
    by (simp add: word_unat_eq_iff)
  also have "\<dots> \<longleftrightarrow> l = line_of addr \<and> lo \<le> word_of addr"
    by (auto simp: word_unat_eq_iff) presburger
  finally show ?thesis using Some e tag unfolding fetch_index by (simp add: dm_hit_def)
qed

text \<open>A refill leaves the tags of the line it filled and costs three cycles and one per word.\<close>

lemma refill_loop_4:
  "w < 4 \<Longrightarrow> refill_loop 4 b w c tv =
     (c + of_nat (4 - w), \<lambda>i. if b + w \<le> i \<and> i < b + 4 then tv i AND NOT 2 else tv i)"
  by (auto simp: numeral_eq_Suc less_Suc_eq fun_eq_iff)

lemma low_or_is_add: "x AND 0xF = 0 \<Longrightarrow> 0xF AND c = c \<Longrightarrow> x OR c = x + c" for x c :: u32
  by (rule disjunctive_add_eq_or [symmetric]) (metis and.assoc bit.conj_zero_left)

lemma clear_bit_1: "(push_bit 4 l OR c) AND NOT 2 = push_bit 4 l OR (c AND NOT 2)" for l c :: u32
proof -
  have lit: "(2 :: u32) = push_bit 1 1" by simp
  have "push_bit 4 l AND NOT 2 = push_bit 4 l"
    unfolding lit by (rule bit_word_eqI) (auto simp: bit_simps simp del: push_bit_of_1)
  then show ?thesis by (simp only: bit.conj_disj_distrib2)
qed

lemma line_base: "addr AND 0xFFFFFFF0 = push_bit 4 (line_of addr)" for addr :: u32
proof -
  have lit: "(0xFFFFFFF0 :: u32) = NOT (mask 4)" by (simp add: mask_eq_exp_minus_1)
  show ?thesis unfolding lit line_of_def by (rule bit_word_eqI) (auto simp: bit_simps)
qed

lemma line_base_low: "push_bit 4 l AND 0xF = 0" for l :: u32
proof -
  have lit: "(0xF :: u32) = mask 4" by (simp add: mask_eq_exp_minus_1)
  show ?thesis unfolding lit by (rule bit_word_eqI) (auto simp: bit_simps)
qed

lemma less_4_cases: "w < 4 \<Longrightarrow> w = 0 \<or> w = 1 \<or> w = 2 \<or> w = (3 :: nat)"
  by linarith

lemma refill_line_result:
  "refill_line addr tv =
     (3 + of_nat (4 - word_of addr),
      \<lambda>i. if i div 4 = set_of addr then tag_of (line_of addr) (word_of addr) (i mod 4) else tv i)"
proof -
  let ?k = "set_of addr" and ?w = "word_of addr" and ?l = "push_bit 4 (line_of addr)"
  define tv1 where "tv1 = tv(4 * ?k + 0 := ?l OR 0 OR 2, 4 * ?k + 1 := ?l OR 4 OR 2, 4 * ?k + 2 := ?l OR 8 OR 2, 4 * ?k + 3 := ?l OR 0xC OR 2)"
  have tv1: "tv1 (4 * ?k + w) = ?l OR (4 * of_nat w + 2)" if "w < 4" for w
    using less_4_cases [OF that] by (auto simp: tv1_def or.assoc)
  have tv1_other: "tv1 i = tv i" if "i div 4 \<noteq> ?k" for i
    using that by (auto simp: tv1_def)
  have dirty: "?l OR (4 * of_nat w + 2) = ?l + 4 * of_nat w + 2" if "w < 4" for w
    using less_4_cases [OF that] low_or_is_add [OF line_base_low] by auto
  have clean: "(?l OR (4 * of_nat w + 2)) AND NOT 2 = ?l + 4 * of_nat w" if "w < 4" for w
    unfolding clear_bit_1 using less_4_cases [OF that] low_or_is_add [OF line_base_low] by auto
  have at: "(if 4 * ?k + ?w \<le> i \<and> i < 4 * ?k + 4 then tv1 i AND NOT 2 else tv1 i)
      = (if i div 4 = ?k then tag_of (line_of addr) ?w (i mod 4) else tv i)" for i
  proof (cases "i div 4 = ?k")
    case True
    define w where "w = i mod 4"
    have i: "i = 4 * ?k + w" and w: "w < 4" using True mult_div_mod_eq [of 4 i] by (auto simp: w_def)
    have "(if ?w \<le> w then tv1 i AND NOT 2 else tv1 i) = tag_of (line_of addr) ?w w"
      unfolding i tv1 [OF w] clean [OF w] unfolding dirty [OF w] tag_of_def by simp
    then show ?thesis
      using True i w by (simp add: w_def [symmetric])
  next
    case False
    then have "\<not> (4 * ?k + ?w \<le> i \<and> i < 4 * ?k + 4)"
      by (auto simp: nat_less_iff)
    then show ?thesis using False tv1_other by auto
  qed
  show ?thesis
    unfolding refill_line_def Let_def line_index word_index line_base refill_loop_4 [OF word_of_less] tv1_def [symmetric] at ..
qed

lemma fill_keeps_rel:
  assumes "dm_rel A tv"
  shows "dm_rel (dm_fill A addr) (snd (refill_line addr tv))"
  using assms unfolding dm_rel_def refill_line_result dm_fill_def
  by (auto simp: line_of_less split: option.splits)

text \<open>One lookup is one access to the cache, with its cost.\<close>

lemma lookup_refines:
  assumes "dm_rel A tv" "addr AND 3 = 0"
  shows "fst (icache_lookup addr tv) = dm_cost A addr" "dm_rel (dm_access A addr) (snd (icache_lookup addr tv))"
  using assms fill_keeps_rel [OF assms(1), of addr]
  unfolding icache_lookup_def tag_test [OF assms]
  by (auto simp: dm_cost_def dm_access_def refill_line_result)

section \<open>Straight-line code that fits stays in the cache\<close>

definition code_words :: "u32 \<Rightarrow> nat \<Rightarrow> u32 list" where
  "code_words base n = map (\<lambda>i. base + 4 * of_nat i) [0 ..< n]"

definition fits_cache :: "u32 \<Rightarrow> nat \<Rightarrow> bool" where
  "fits_cache base n \<longleftrightarrow> base AND 3 = 0 \<and> unat base + 4 * n \<le> 0xA0000000 \<and> unat base mod 16 + 4 * n \<le> 4096"

lemma code_word_unat: "fits_cache base n \<Longrightarrow> i < n \<Longrightarrow> unat (base + 4 * of_nat i) = unat base + 4 * i"
proof -
  assume *: "fits_cache base n" "i < n"
  then have "base + 4 * of_nat i = of_nat (unat base + 4 * i)" by simp
  then have "unat (base + 4 * of_nat i) = (unat base + 4 * i) mod 2 ^ 32"
    by (simp only: unat_word_of_nat len_num1 len_bit0) simp
  then show ?thesis using * by (simp add: fits_cache_def)
qed

lemma code_word_aligned: "fits_cache base n \<Longrightarrow> i < n \<Longrightarrow> (base + 4 * of_nat i) AND 3 = 0"
  unfolding aligned_unat by (subst code_word_unat) (auto simp: fits_cache_def aligned_unat)

lemma code_word_cached: "fits_cache base n \<Longrightarrow> i < n \<Longrightarrow> \<not> (base + 4 * of_nat i) \<ge> 0xA0000000"
  unfolding word_le_nat_alt by (subst code_word_unat) (auto simp: fits_cache_def)

text \<open>Two words of such code that share a line of the cache are in the same block.\<close>

lemma same_set_same_line:
  fixes b i j :: nat
  assumes "b mod 16 + 4 * n \<le> 4096" "i \<le> j" "j < n" "(b + 4 * i) div 16 mod 256 = (b + 4 * j) div 16 mod 256"
  shows "(b + 4 * i) div 16 = (b + 4 * j) div 16"
proof -
  let ?q = "b div 16" and ?r = "b mod 16"
  have b: "b = 16 * ?q + ?r" by simp
  have d: "(b + 4 * k) div 16 = ?q + (?r + 4 * k) div 16" for k
    by (subst b) (simp only: add.assoc div_mult_self4 flip: mult.commute)
  have lt: "(?r + 4 * k) div 16 < 256" if "k < n" for k
    using assms(1) that by (intro less_mult_imp_div_less) linarith
  have le: "(?r + 4 * i) div 16 \<le> (?r + 4 * j) div 16" using assms(2) by (intro div_le_mono) simp
  have "256 dvd (?q + (?r + 4 * j) div 16) - (?q + (?r + 4 * i) div 16)"
    using assms(4) unfolding d by (metis mod_eq_dvd_iff_nat le add_left_mono)
  then have "256 dvd (?r + 4 * j) div 16 - (?r + 4 * i) div 16" by simp
  moreover have "(?r + 4 * j) div 16 - (?r + 4 * i) div 16 < 256" using lt [OF assms(3)] by linarith
  ultimately have "(?r + 4 * j) div 16 - (?r + 4 * i) div 16 = 0" by (metis dvd_imp_le gr_zeroI leD)
  then show ?thesis unfolding d using le by simp
qed

lemma code_word_line:
  assumes "fits_cache base n" "i \<le> j" "j < n" "set_of (base + 4 * of_nat i) = set_of (base + 4 * of_nat j)"
  shows "line_of (base + 4 * of_nat i) = line_of (base + 4 * of_nat j)"
    "word_of (base + 4 * of_nat i) \<le> word_of (base + 4 * of_nat j)"
proof -
  have u: "unat (base + 4 * of_nat k) = unat base + 4 * k" if "k \<le> j" for k
    using code_word_unat [OF assms(1)] that assms(3) by auto
  have eq: "(unat base + 4 * i) div 16 = (unat base + 4 * j) div 16"
    by (rule same_set_same_line [of _ n])
      (use assms u [OF assms(2)] u [of j] in \<open>auto simp: fits_cache_def set_of_def line_of_unat\<close>)
  then show l: "line_of (base + 4 * of_nat i) = line_of (base + 4 * of_nat j)"
    using u [OF assms(2)] u [of j] by (simp add: word_unat_eq_iff line_of_unat)
  have "16 * unat (line_of (base + 4 * of_nat i)) + 4 * word_of (base + 4 * of_nat i) \<le>
      16 * unat (line_of (base + 4 * of_nat j)) + 4 * word_of (base + 4 * of_nat j)"
    using u [OF assms(2)] u [of j] assms(2)
      address_parts [OF code_word_aligned [OF assms(1), of i]] address_parts [OF code_word_aligned [OF assms(1,3)]] assms(3) by simp
  then show "word_of (base + 4 * of_nat i) \<le> word_of (base + 4 * of_nat j)" using l by simp
qed

text \<open>Once fetched, a word of the code is not evicted by the words after it.\<close>

lemma pass_hits:
  assumes "fits_cache base n" "m \<le> n" "i < m"
  shows "dm_hit (foldl dm_access A (code_words base m)) (base + 4 * of_nat i)"
  using assms(2,3)
proof (induction m arbitrary: i)
  case (Suc m)
  let ?A = "foldl dm_access A (code_words base m)" and ?a = "base + 4 * of_nat m"
  have step: "foldl dm_access A (code_words base (Suc m)) = dm_access ?A ?a" by (simp add: code_words_def)
  have cached: "\<not> ?a \<ge> 0xA0000000" using code_word_cached [OF assms(1)] Suc.prems by simp
  show ?case
  proof (cases "i = m")
    case True
    then show ?thesis unfolding step using cached by (auto simp: dm_access_def dm_fill_def dm_hit_def)
  next
    case False
    then have hit: "dm_hit ?A (base + 4 * of_nat i)" using Suc by simp
    show ?thesis
    proof (cases "dm_hit ?A ?a \<or> set_of (base + 4 * of_nat i) \<noteq> set_of ?a")
      case True
      then show ?thesis unfolding step using hit cached by (auto simp: dm_access_def dm_fill_def dm_hit_def)
    next
      case miss: False
      have "dm_hit ?A ?a"
        using hit miss code_word_line [OF assms(1), of i m] Suc.prems
        by (auto simp: dm_hit_def split: option.splits)
      then show ?thesis using miss by blast
    qed
  qed
qed simp

lemma lookups_refine:
  assumes "dm_rel A tv" "\<And>a. a \<in> set as \<Longrightarrow> a AND 3 = 0"
  shows "dm_rel (foldl dm_access A as) (foldl (\<lambda>t a. snd (icache_lookup a t)) tv as)"
  using assms by (induction as arbitrary: A tv) (auto simp: lookup_refines)

section \<open>The properties of the fetch\<close>

lemma enabled_on: "icache_switch s > 0 \<Longrightarrow> psx_icache_enabled s = (True, s)"
  by (simp add: psx_icache_enabled_def Let_def)

lemma reset_is_empty: "dm_rel (\<lambda>_. None) (s_icache_tv (psx_icache_reset s))"
  by (auto simp: dm_rel_def psx_icache_reset_def)

text \<open>C23. The tag array refines a direct-mapped cache of 256 four-word lines. After a reset it stands for
  the empty cache. From then on a fetch with the cost model on is one access to that cache: a hit leaves the
  processor and the machine as they are; a miss drops the pending give-back of a load and charges four
  cycles for an uncached address, which leaves the cache alone, and otherwise three cycles and one for each
  word from the missing one to the end of its line, which the line then holds.\<close>

theorem fetch_refines_cache:
  assumes "dm_rel A (s_icache_tv s)" "addr AND 3 = 0" "\<not> g_ls_replay_active s" "icache_switch s > 0"
  shows "dm_rel (\<lambda>_. None) (s_icache_tv (psx_icache_reset s)) \<and>
    (\<exists>tv. dm_rel (dm_access A addr) tv \<and>
      psx_icache_fetch n C addr c s =
        (case dm_cost A addr of None \<Rightarrow> Some (c, s)
         | Some cost \<Rightarrow> map_option (Pair (cancel_give_back c)) (psx_advance_cycles n C cost (s\<lparr> s_icache_tv := tv \<rparr>))))"
proof (intro conjI exI)
  show "dm_rel (dm_access A addr) (snd (icache_lookup addr (s_icache_tv s)))"
    by (rule lookup_refines) (use assms in auto)
  show "psx_icache_fetch n C addr c s =
        (case dm_cost A addr of None \<Rightarrow> Some (c, s)
         | Some cost \<Rightarrow> map_option (Pair (cancel_give_back c))
             (psx_advance_cycles n C cost (s\<lparr> s_icache_tv := snd (icache_lookup addr (s_icache_tv s)) \<rparr>)))"
    using lookup_refines(1) [OF assms(1,2)] assms(3,4)
    by (auto simp: psx_icache_fetch_def enabled_on split: prod.splits option.splits)
qed (rule reset_is_empty)

primrec icache_fetch_all ::
  "nat \<Rightarrow> ('d, ('d, 'z) ic) clock_env \<Rightarrow> u32 list \<Rightarrow> cpu \<Rightarrow> ('d, 'z) ic \<Rightarrow> (cpu \<times> ('d, 'z) ic) option" where
  "icache_fetch_all n C [] c s = Some (c, s)"
| "icache_fetch_all n C (a # as) c s =
     (case psx_icache_fetch n C a c s of None \<Rightarrow> None | Some (c1, s1) \<Rightarrow> icache_fetch_all n C as c1 s1)"

lemma all_hits_free:
  assumes "dm_rel A (s_icache_tv s)" "\<not> g_ls_replay_active s" "icache_switch s > 0"
    and "\<And>a. a \<in> set as \<Longrightarrow> a AND 3 = 0 \<and> dm_hit A a"
  shows "icache_fetch_all n C as c s = Some (c, s)"
  using assms(4)
proof (induction as)
  case (Cons a as)
  then have "dm_cost A a = None" by (simp add: dm_cost_def)
  then have "fst (icache_lookup a (s_icache_tv s)) = None" using lookup_refines(1) [OF assms(1)] Cons.prems by auto
  then have "psx_icache_fetch n C a c s = Some (c, s)"
    using assms(2,3) by (auto simp: psx_icache_fetch_def enabled_on split: prod.splits)
  then show ?case using Cons by simp
qed simp

text \<open>Straight-line cached code of at most 4 KB, counted from the start of its first line, costs its
  fetches once: whatever the cache held, after the words of the code have been looked up in order, fetching
  all of them again charges no cycle and changes neither the processor nor the machine.\<close>

lemma hot_code_is_free:
  assumes "fits_cache base m" "dm_rel A tv" "\<not> g_ls_replay_active s" "icache_switch s > 0"
    and "s_icache_tv s = foldl (\<lambda>t a. snd (icache_lookup a t)) tv (code_words base m)"
  shows "icache_fetch_all n C (code_words base m) c s = Some (c, s)"
proof (rule all_hits_free)
  have aligned: "a AND 3 = 0" if "a \<in> set (code_words base m)" for a
    using that code_word_aligned [OF assms(1)] by (auto simp: code_words_def)
  show "dm_rel (foldl dm_access A (code_words base m)) (s_icache_tv s)"
    unfolding assms(5) using assms(2) aligned by (rule lookups_refine)
  show "a AND 3 = 0 \<and> dm_hit (foldl dm_access A (code_words base m)) a" if "a \<in> set (code_words base m)" for a
    using that aligned pass_hits [OF assms(1) order_refl] by (auto simp: code_words_def)
qed (use assms in auto)

section \<open>Examples\<close>

definition ic_clock :: "(u32 list, u32 list icache_st) clock_env" where
  "ic_clock = \<lparr> dma_ops = still_env, sio_advance = (\<lambda>c s. s), cdrom_advance = (\<lambda>c s. s),
     sio_cycles_to_irq = (\<lambda>m s. 0xFFFFFFFF), cdrom_cycles_to_irq = (\<lambda>m s. 0xFFFFFFFF), sio_get_seq = (\<lambda>s. 0),
     sio_card_protocol_active = (\<lambda>s. False), gpu_vblank = (\<lambda>d. d), starvation_watchdog_check = (\<lambda>s. s),
     starvation_ring_pc_sample = (\<lambda>s. s) \<rparr>"

text \<open>A cold cache, inside the servicing of the devices, where a charge only moves the clock.\<close>

definition ic_cold :: "(u32 list) icache_st" where
  "ic_cold = cyc_st.extend (cyc_zero\<lparr> s_in_device_service := True \<rparr>) (icache_st.fields (\<lambda>_. 1) 1 None)"

lemma ic_cold_simps [simp]:
  "s_icache_tv ic_cold = (\<lambda>_. 1)" "icache_switch ic_cold = 1" "\<not> g_ls_replay_active ic_cold"
  "\<not> g_event_step_conservative ic_cold" "s_in_device_service ic_cold" "cycle_count ic_cold = 0"
  "s_watchdog_throttle ic_cold = 0" "s_pc_sample_throttle ic_cold = 0"
  by (simp_all add: ic_cold_def cyc_st.defs icache_st.defs cyc_zero_def dma_st.defs dma_zero_def mem_boot_def sys_boot_def)

lemma cold_rel: "dm_rel (\<lambda>_. None) (\<lambda>_. 1)"
  by (simp add: dm_rel_def)

text \<open>A miss on the third word of a line costs five cycles.\<close>

lemma fetch_refines_cache_witness:
  "\<exists>t. psx_icache_fetch 0 ic_clock 0x80010008 cpu_zero ic_cold = Some (cancel_give_back cpu_zero, t) \<and> cycle_count t = 5"
proof -
  have "dm_cost (\<lambda>_. None) 0x80010008 = Some 5"
    by (simp add: dm_cost_def dm_hit_def word_of_def)
  then obtain tv where "psx_icache_fetch 0 ic_clock 0x80010008 cpu_zero ic_cold =
      map_option (Pair (cancel_give_back cpu_zero)) (psx_advance_cycles 0 ic_clock 5 (ic_cold\<lparr> s_icache_tv := tv \<rparr>))"
    using fetch_refines_cache [of "\<lambda>_. None" ic_cold "0x80010008" 0 ic_clock cpu_zero] cold_rel by auto
  then show ?thesis by (simp add: psx_advance_cycles_def note_throttles_def Let_def)
qed

text \<open>A loop of six instructions that starts in the middle of a line.\<close>

lemma hot_code_is_free_example:
  "let s = ic_cold\<lparr> s_icache_tv := foldl (\<lambda>t a. snd (icache_lookup a t)) (\<lambda>_. 1) (code_words 0x80010008 6) \<rparr>
   in icache_fetch_all 0 ic_clock (code_words 0x80010008 6) cpu_zero s = Some (cpu_zero, s)"
  unfolding Let_def by (rule hot_code_is_free [OF _ cold_rel]) (simp_all add: fits_cache_def)

end
