(* ===== verification/Crc32.thy ===== *)
theory Crc32
  imports Psx_Prelude
begin

text \<open>
  The checksum of runtime/src/crc32.c, by which the overlay loader recognises code: the lazily built
  table, the incremental update and the one-shot form. The reference it is compared with feeds the
  message to a 32-bit shift register one bit at a time.
\<close>

unbundle bit_operations_syntax

section \<open>The code\<close>

record crc_st =
  s_table :: "u32 list"
  s_table_ready :: bool

abbreviation (input) CRC32_POLY :: u32 where "CRC32_POLY \<equiv> 0xEDB88320"

text \<open>One turn of the inner loop that builds an entry.\<close>

definition crc32_shift :: "u32 \<Rightarrow> u32" where
  "crc32_shift c = (if c AND 1 \<noteq> 0 then CRC32_POLY XOR drop_bit 1 c else drop_bit 1 c)"

definition crc32_entry :: "u32 \<Rightarrow> u32" where
  "crc32_entry i = (crc32_shift ^^ 8) i"

definition crc32_init_table :: "crc_st \<Rightarrow> crc_st" where
  "crc32_init_table s = s\<lparr> s_table := map (\<lambda>i. crc32_entry (of_nat i)) [0 ..< 256], s_table_ready := True \<rparr>"

primrec crc32_loop :: "u32 list \<Rightarrow> u32 \<Rightarrow> u8 list \<Rightarrow> u32" where
  "crc32_loop t crc [] = crc"
| "crc32_loop t crc (d # ds) = crc32_loop t (t ! unat ((crc XOR ucast d) AND 0xFF) XOR drop_bit 8 crc) ds"

definition crc32_update :: "u32 \<Rightarrow> u8 list \<Rightarrow> crc_st \<Rightarrow> u32 \<times> crc_st" where
  "crc32_update crc data s =
     (let s1 = (if \<not> s_table_ready s then crc32_init_table s else s)
      in (crc32_loop (s_table s1) crc data, s1))"

definition crc32_compute :: "u8 list \<Rightarrow> crc_st \<Rightarrow> u32 \<times> crc_st" where
  "crc32_compute data s = (let (c, s1) = crc32_update 0xFFFFFFFF data s in (c XOR 0xFFFFFFFF, s1))"

text \<open>The table is either not built yet or built by \<open>crc32_init_table\<close>: the states the process can be in,
  since the two statics start at zero.\<close>

definition crc_ok :: "crc_st \<Rightarrow> bool" where
  "crc_ok s \<longleftrightarrow> (s_table_ready s \<longrightarrow> s_table s = map (\<lambda>i. crc32_entry (of_nat i)) [0 ..< 256])"

definition crc_start :: crc_st where
  "crc_start = \<lparr> s_table = replicate 256 0, s_table_ready = False \<rparr>"

section \<open>The reference: a shift register fed bit by bit\<close>

definition lfsr_feed :: "u32 \<Rightarrow> bool \<Rightarrow> u32" where
  "lfsr_feed crc m = (if bit crc 0 \<noteq> m then CRC32_POLY XOR drop_bit 1 crc else drop_bit 1 crc)"

definition byte_bits :: "u8 \<Rightarrow> bool list" where
  "byte_bits b = map (bit b) [0 ..< 8]"

definition lfsr_run :: "u32 \<Rightarrow> u8 list \<Rightarrow> u32" where
  "lfsr_run crc data = foldl lfsr_feed crc (concat (map byte_bits data))"

section \<open>The register is linear, and keeps its states apart\<close>

lemma xor_left_cancel: "x XOR a = x XOR b \<longleftrightarrow> a = b" for x :: u32
  by (metis xor.assoc xor_self_eq xor.left_neutral)

lemma xor_right_cancel: "a XOR x = b XOR x \<longleftrightarrow> a = b" for x :: u32
  by (simp add: xor.commute [of _ x] xor_left_cancel)

lemma crc32_shift_feed: "crc32_shift c = lfsr_feed c False"
  by (simp add: crc32_shift_def lfsr_feed_def bit_0 and_one_eq odd_iff_mod_2_eq_one)

lemma lfsr_feed_xor_False: "lfsr_feed (x XOR y) False = lfsr_feed x False XOR lfsr_feed y False"
  by (auto simp: lfsr_feed_def bit_xor_iff xor.assoc xor.left_commute)

lemma crc32_shift_xor: "crc32_shift (x XOR y) = crc32_shift x XOR crc32_shift y"
  by (simp add: crc32_shift_feed lfsr_feed_xor_False)

lemma crc32_shift_pow_xor: "(crc32_shift ^^ n) (x XOR y) = (crc32_shift ^^ n) x XOR (crc32_shift ^^ n) y"
  by (induction n) (simp_all add: crc32_shift_xor)

text \<open>A word whose low bits are clear is only shifted down.\<close>

lemma crc32_shift_pow_high:
  assumes "\<And>i. i < n \<Longrightarrow> \<not> bit c i"
  shows "(crc32_shift ^^ n) c = drop_bit n c"
  using assms
proof (induction n)
  case (Suc n)
  then have "\<not> bit (drop_bit n c) 0" by (simp add: bit_drop_bit_eq)
  then show ?case using Suc by (simp add: crc32_shift_feed lfsr_feed_def add.commute)
qed simp

text \<open>A byte entering the register: the code mixes it in at once, the reference bit by bit. The state
  after \<open>n\<close> bits is the one that has had the whole byte mixed in, less the bits still to come.\<close>

lemma lfsr_feed_bits:
  "n \<le> 8 \<Longrightarrow> foldl lfsr_feed crc (map (bit b) [0 ..< n]) = (crc32_shift ^^ n) (crc XOR ucast (take_bit n b))" for b :: u8
proof (induction n)
  case (Suc n)
  let ?x = "crc XOR ucast (take_bit n b) :: u32"
  have split: "ucast (take_bit (Suc n) b) = (ucast (take_bit n b) XOR (if bit b n then push_bit n 1 else 0) :: u32)"
    using Suc.prems by (auto intro!: bit_word_eqI simp: bit_simps less_Suc_eq)
  have shifted: "(crc32_shift ^^ n) (push_bit n 1 :: u32) = 1"
    using Suc.prems by (subst crc32_shift_pow_high) (auto intro!: bit_word_eqI simp: bit_simps)
  have feed: "lfsr_feed y m = crc32_shift (y XOR (if m then 1 else 0))" for y m
    by (cases m) (auto simp: crc32_shift_feed lfsr_feed_def bit_xor_iff drop_bit_xor bit_1_iff)
  have zero: "(crc32_shift ^^ n) 0 = 0" by (subst crc32_shift_pow_high) simp_all
  show ?case
    using Suc by (simp add: feed split flip: xor.assoc) (simp add: crc32_shift_pow_xor shifted [simplified] zero)
qed simp

lemma lfsr_byte: "foldl lfsr_feed crc (byte_bits b) = (crc32_shift ^^ 8) (crc XOR ucast b)"
  using lfsr_feed_bits [of 8 crc b] by (simp add: byte_bits_def take_bit_word_eq_self)

text \<open>The table step is one byte through the register.\<close>

lemma crc32_table_step:
  "map (\<lambda>i. crc32_entry (of_nat i)) [0 ..< 256] ! unat ((crc XOR ucast d) AND 0xFF) XOR drop_bit 8 crc
     = (crc32_shift ^^ 8) (crc XOR ucast d)" for d :: u8
proof -
  let ?c = "crc XOR ucast d :: u32"
  have low: "?c AND 0xFF = take_bit 8 ?c" by (simp add: take_bit_eq_mask mask_eq_exp_minus_1)
  have lt: "unat (?c AND 0xFF) < 256" by (simp add: low unsigned_take_bit_eq take_bit_nat_less_exp [of 8, simplified] del: take_bit_xor)
  have high: "drop_bit 8 ?c = drop_bit 8 crc"
    by (auto intro!: bit_word_eqI simp: bit_simps impossible_bit)
  have "x = take_bit 8 x XOR push_bit 8 (drop_bit 8 x)" for x :: u32
    by (rule bit_word_eqI) (auto simp: bit_simps)
  then have "(crc32_shift ^^ 8) ?c = (crc32_shift ^^ 8) (take_bit 8 ?c) XOR (crc32_shift ^^ 8) (push_bit 8 (drop_bit 8 ?c))"
    by (metis crc32_shift_pow_xor)
  also have "(crc32_shift ^^ 8) (push_bit 8 (drop_bit 8 ?c)) = drop_bit 8 ?c"
    by (subst crc32_shift_pow_high) (auto intro!: bit_word_eqI simp: bit_simps not_less impossible_bit)
  finally show ?thesis
    using lt unfolding high low by (simp add: crc32_entry_def del: take_bit_xor)
qed

lemma crc32_loop_lfsr: "crc32_loop (map (\<lambda>i. crc32_entry (of_nat i)) [0 ..< 256]) crc ds = lfsr_run crc ds"
proof (induction ds arbitrary: crc)
  case (Cons d ds)
  show ?case
    by (simp only: crc32_loop.simps crc32_table_step Cons.IH)
      (simp add: lfsr_run_def lfsr_byte)
qed (simp add: lfsr_run_def)

lemma crc32_update_lfsr:
  assumes "crc_ok s"
  shows "fst (crc32_update crc ds s) = lfsr_run crc ds" "crc_ok (snd (crc32_update crc ds s))"
    "s_table_ready (snd (crc32_update crc ds s))"
  using assms by (auto simp: crc32_update_def crc_ok_def crc32_init_table_def Let_def crc32_loop_lfsr)

lemma crc32_compute_lfsr:
  assumes "crc_ok s"
  shows "fst (crc32_compute ds s) = lfsr_run 0xFFFFFFFF ds XOR 0xFFFFFFFF" "crc_ok (snd (crc32_compute ds s))"
  using crc32_update_lfsr [OF assms, of "0xFFFFFFFF" ds] by (auto simp: crc32_compute_def split: prod.split)

lemma lfsr_run_append: "lfsr_run crc (xs @ ys) = lfsr_run (lfsr_run crc xs) ys"
  by (simp add: lfsr_run_def)

text \<open>No two register states are confused by a shift: the polynomial sets the bit that the shift cleared.\<close>

lemma lfsr_feed_inj: "lfsr_feed x m = lfsr_feed y m \<Longrightarrow> x = y"
proof -
  assume eq: "lfsr_feed x m = lfsr_feed y m"
  have top: "bit (lfsr_feed c m) 31 = (bit c 0 \<noteq> m)" for c
    by (auto simp: lfsr_feed_def bit_simps impossible_bit)
  have same: "bit x 0 = bit y 0" using top [of x] top [of y] eq by auto
  then have low: "drop_bit 1 x = drop_bit 1 y"
    using eq by (auto simp: lfsr_feed_def xor_left_cancel split: if_splits)
  show "x = y"
  proof (rule bit_word_eqI)
    fix n assume "n < LENGTH(32)"
    show "bit x n = bit y n"
    proof (cases n)
      case (Suc k)
      have "bit (drop_bit 1 x) k = bit (drop_bit 1 y) k" by (simp only: low)
      then show ?thesis using Suc by (simp add: bit_drop_bit_eq)
    qed (use same in simp)
  qed
qed

lemma lfsr_feeds_inj: "foldl lfsr_feed x ms = foldl lfsr_feed y ms \<Longrightarrow> x = y"
  by (induction ms arbitrary: x y) (auto dest: lfsr_feed_inj)

lemma lfsr_run_inj: "lfsr_run x ds = lfsr_run y ds \<Longrightarrow> x = y"
  unfolding lfsr_run_def by (rule lfsr_feeds_inj)

lemma crc32_shift_pow_inj: "(crc32_shift ^^ n) x = (crc32_shift ^^ n) y \<Longrightarrow> x = y"
  by (induction n) (auto simp: crc32_shift_feed dest: lfsr_feed_inj)

lemma lfsr_byte_inj: "lfsr_run x [a] = lfsr_run x [b] \<Longrightarrow> a = b" for a b :: u8
proof -
  assume "lfsr_run x [a] = lfsr_run x [b]"
  then have "x XOR ucast a = (x XOR ucast b :: u32)"
    by (simp add: lfsr_run_def lfsr_byte crc32_shift_pow_inj)
  then have "(ucast a :: u32) = ucast b" by (simp only: xor_left_cancel)
  then show ?thesis by (simp add: word_unat_eq_iff unat_ucast_up)
qed

section \<open>The properties of the checksum\<close>

text \<open>C24. The table-driven checksum is the bit-serial CRC-32: from every state of the lazily built table
  the one-shot form gives the value of a shift register fed with the bits of the message, low bit first,
  started at all ones and complemented at the end; hashing the pieces of a message one after the other
  with the incremental form and complementing once gives the same value as hashing the whole message.\<close>

theorem crc32_is_bit_serial:
  assumes "crc_ok s"
  shows "fst (crc32_compute (xs @ ys) s) = NOT (foldl lfsr_feed 0xFFFFFFFF (concat (map byte_bits (xs @ ys)))) \<and>
    (let (c, s1) = crc32_update 0xFFFFFFFF xs s; (d, s2) = crc32_update c ys s1
     in d XOR 0xFFFFFFFF) = fst (crc32_compute (xs @ ys) s) \<and>
    crc_ok (snd (crc32_compute (xs @ ys) s))"
proof -
  have ones: "(0xFFFFFFFF :: u32) = - 1" by simp
  have not: "c XOR 0xFFFFFFFF = NOT c" for c :: u32 by (simp only: ones bit.xor_one_right)
  have "fst (crc32_compute (xs @ ys) s) = NOT (foldl lfsr_feed 0xFFFFFFFF (concat (map byte_bits (xs @ ys))))"
    by (simp add: crc32_compute_lfsr assms lfsr_run_def not)
  moreover have "(let (c, s1) = crc32_update 0xFFFFFFFF xs s; (d, s2) = crc32_update c ys s1
          in d XOR 0xFFFFFFFF) = fst (crc32_compute (xs @ ys) s)"
    using crc32_update_lfsr [OF assms, of "0xFFFFFFFF" xs]
      crc32_update_lfsr(1) [OF crc32_update_lfsr(2) [OF assms], of "lfsr_run 0xFFFFFFFF xs" ys "0xFFFFFFFF" xs]
    by (cases "crc32_update 0xFFFFFFFF xs s") (simp add: Let_def split_beta crc32_compute_lfsr [OF assms] lfsr_run_append)
  ultimately show ?thesis using crc32_compute_lfsr(2) [OF assms] by blast
qed

lemma crc32_is_bit_serial_witness:
  "crc_ok crc_start \<and> fst (crc32_compute ([0x31] @ [0x32]) crc_start) = 0x4F5344CD"
  using crc32_is_bit_serial [of crc_start "[0x31]" "[0x32]", THEN conjunct1]
  by (simp add: crc_ok_def crc_start_def byte_bits_def upt_rec lfsr_feed_def)

text \<open>A change of one byte anywhere in a message changes its checksum, so code that differs from the
  recorded code in a single byte is never accepted by its checksum.\<close>

lemma crc32_detects_byte_change:
  assumes "crc_ok s" "a \<noteq> b"
  shows "fst (crc32_compute (xs @ a # ys) s) \<noteq> fst (crc32_compute (xs @ b # ys) s)"
proof
  assume "fst (crc32_compute (xs @ a # ys) s) = fst (crc32_compute (xs @ b # ys) s)"
  then have "lfsr_run 0xFFFFFFFF (xs @ a # ys) = lfsr_run 0xFFFFFFFF (xs @ b # ys)"
    by (simp only: crc32_compute_lfsr [OF assms(1)] xor_right_cancel)
  then have "lfsr_run (lfsr_run 0xFFFFFFFF xs) [a] = lfsr_run (lfsr_run 0xFFFFFFFF xs) [b]"
    using lfsr_run_append [of _ "[a]" ys] lfsr_run_append [of _ "[b]" ys]
    by (auto simp: lfsr_run_append dest: lfsr_run_inj)
  then show False using lfsr_byte_inj assms(2) by blast
qed

lemma crc32_detects_byte_change_example:
  "fst (crc32_compute ([1] @ 2 # [3]) crc_start) \<noteq> fst (crc32_compute ([1] @ 6 # [3]) crc_start)"
  by (rule crc32_detects_byte_change) (simp_all add: crc_ok_def crc_start_def)

end
