(* ===== verification/Cell_Store.thy ===== *)
theory Cell_Store
  imports Psx_Prelude
begin

text \<open>
  The contract of a store of cells: a cell reads as it was last written, and writing one cell leaves the
  others alone. The sectors of a memory card meet it in memory, and the same sectors meet it again at the
  other end of the serial wire. Facts about sequences of writes are proved once, here.
\<close>

locale cell_store =
  fixes valid :: "'i \<Rightarrow> 's \<Rightarrow> bool"
    and fits :: "'v \<Rightarrow> bool"
    and get :: "'i \<Rightarrow> 's \<Rightarrow> 'v option"
    and put :: "'i \<Rightarrow> 'v \<Rightarrow> 's \<Rightarrow> 's"
  assumes valid_put: "valid i s \<Longrightarrow> fits v \<Longrightarrow> valid j (put i v s) \<longleftrightarrow> valid j s"
    and get_put: "valid i s \<Longrightarrow> fits v \<Longrightarrow> valid j s \<Longrightarrow> get j (put i v s) = (if j = i then Some v else get j s)"
begin

definition put_all :: "('i \<times> 'v) list \<Rightarrow> 's \<Rightarrow> 's" where
  "put_all ws s = fold (\<lambda>(i, v). put i v) ws s"

lemma put_all_Cons: "put_all ((i, v) # ws) s = put_all ws (put i v s)"
  by (simp add: put_all_def)

lemma put_all_Nil: "put_all [] s = s"
  by (simp add: put_all_def)

lemma valid_put_all:
  assumes "\<forall>(i, v) \<in> set ws. valid i s \<and> fits v"
  shows "valid j (put_all ws s) \<longleftrightarrow> valid j s"
  using assms
proof (induction ws arbitrary: s)
  case (Cons w ws)
  obtain i v where w: "w = (i, v)" by (cases w)
  have iv: "valid i s" "fits v" using Cons.prems by (auto simp: w)
  have "\<forall>(k, u) \<in> set ws. valid k (put i v s) \<and> fits u"
    using Cons.prems valid_put [OF iv] by auto
  then show ?case using Cons.IH valid_put [OF iv] by (simp add: w put_all_Cons)
qed (simp add: put_all_Nil)

text \<open>The last write to a cell decides.\<close>

lemma get_put_all:
  assumes "\<forall>(i, v) \<in> set ws. valid i s \<and> fits v" and "valid j s"
  shows "get j (put_all ws s) = (case map_of (rev ws) j of Some v \<Rightarrow> Some v | None \<Rightarrow> get j s)"
  using assms
proof (induction ws arbitrary: s)
  case (Cons w ws)
  obtain i v where w: "w = (i, v)" by (cases w)
  have iv: "valid i s" "fits v" using Cons.prems by (auto simp: w)
  have "\<forall>(k, u) \<in> set ws. valid k (put i v s) \<and> fits u"
    using Cons.prems(1) valid_put [OF iv] by auto
  then have "get j (put_all ws (put i v s)) = (case map_of (rev ws) j of Some v \<Rightarrow> Some v | None \<Rightarrow> get j (put i v s))"
    using Cons.prems(2) valid_put [OF iv] by (intro Cons.IH) auto
  then show ?case
    using get_put [OF iv Cons.prems(2)] by (simp add: w put_all_Cons map_add_def split: option.split)
qed (simp add: put_all_Nil)

end

end
