(* ===== verification/Memcard.thy ===== *)
theory Memcard
  imports Cell_Store
begin

text \<open>
  The memory cards (runtime/src/memcard.c): the two card images, formatting, loading, sector access,
  the write-back to disk and the card browser's summary.

  The disk is a map from paths to contents. Each attempt to write a file takes the next outcome of a
  script: it succeeds, cannot open the file, or fails after the file was opened, which leaves some
  other contents behind (a short write, or an error from flush or close). Directories are not
  represented: a missing directory shows as a file that cannot be opened.
\<close>

type_synonym image = "nat \<Rightarrow> u8"

datatype write_outcome = Write_ok | Open_fails | Write_fails "u8 list"

record disk =
  files :: "string \<Rightarrow> u8 list option"
  outcomes :: "write_outcome list"
  mtimes :: "string \<Rightarrow> int option"

record mem_card =
  card_data :: image
  filepath :: string
  present :: bool
  dirty :: bool

record card_st = disk +
  cards :: "nat \<Rightarrow> mem_card"

record slot_config =
  slot_path :: "string option"
  slot_enabled :: bool

record card_summary =
  cs_exists :: bool
  cs_valid :: bool
  cs_used_blocks :: nat
  cs_total_blocks :: nat
  cs_block_used :: "nat \<Rightarrow> u8"
  cs_mtime :: int
  cs_size_bytes :: int

abbreviation (input) MAX_CARDS :: nat where "MAX_CARDS \<equiv> 2"
abbreviation (input) MEMCARD_SIZE :: nat where "MEMCARD_SIZE \<equiv> 131072"
abbreviation (input) MEMCARD_SECTOR_SIZE :: nat where "MEMCARD_SECTOR_SIZE \<equiv> 128"
abbreviation (input) MEMCARD_SECTORS :: nat where "MEMCARD_SECTORS \<equiv> 1024"

section \<open>Files\<close>

text \<open>\<open>fopen\<close>, \<open>fwrite\<close>, \<open>fflush\<close> and \<open>fclose\<close> of one write-back: whether all of them succeeded.\<close>

definition write_file :: "string \<Rightarrow> u8 list \<Rightarrow> 'z disk_scheme \<Rightarrow> bool \<times> 'z disk_scheme" where
  "write_file path bytes d =
     (case outcomes d of
        [] \<Rightarrow> (True, d\<lparr> files := (files d)(path \<mapsto> bytes) \<rparr>)
      | Write_ok # os \<Rightarrow> (True, d\<lparr> files := (files d)(path \<mapsto> bytes), outcomes := os \<rparr>)
      | Open_fails # os \<Rightarrow> (False, d\<lparr> outcomes := os \<rparr>)
      | Write_fails bs # os \<Rightarrow> (False, d\<lparr> files := (files d)(path \<mapsto> bs), outcomes := os \<rparr>))"

text \<open>\<open>fread\<close> of at most one card: the bytes it stores and how many.\<close>

definition read_bytes :: "u8 list \<Rightarrow> image \<Rightarrow> nat \<times> image" where
  "read_bytes contents data =
     (let n = min (length contents) MEMCARD_SIZE in (n, \<lambda>i. if i < n then contents ! i else data i))"

definition image_bytes :: "image \<Rightarrow> u8 list" where
  "image_bytes data = map data [0 ..< MEMCARD_SIZE]"

section \<open>Formatting\<close>

definition fill :: "nat \<Rightarrow> u8 \<Rightarrow> nat \<Rightarrow> image \<Rightarrow> image" where
  "fill off v n data = (\<lambda>i. if off \<le> i \<and> i < off + n then v else data i)"

definition frame_checksum :: "nat \<Rightarrow> image \<Rightarrow> u8" where
  "frame_checksum off data = fold (\<lambda>i x. x XOR data (off + i)) [0 ..< 127] 0"

definition seal :: "nat \<Rightarrow> image \<Rightarrow> image" where
  "seal off data = data(off + 0x7F := frame_checksum off data)"

definition format_header :: "image \<Rightarrow> image" where
  "format_header data = seal 0 ((fill 0 0 128 data)(0 := 0x4D, 1 := 0x43))"

definition format_directory :: "nat \<Rightarrow> image \<Rightarrow> image" where
  "format_directory s data =
     (let off = s * 128 in seal off ((fill off 0 128 data)(off := 0xA0, off + 8 := 0xFF, off + 9 := 0xFF)))"

definition format_broken :: "nat \<Rightarrow> image \<Rightarrow> image" where
  "format_broken s data =
     (let off = s * 128
      in seal off ((fill off 0 128 data)
           (off := 0xFF, off + 1 := 0xFF, off + 2 := 0xFF, off + 3 := 0xFF, off + 8 := 0xFF, off + 9 := 0xFF)))"

definition copy_frame :: "nat \<Rightarrow> nat \<Rightarrow> image \<Rightarrow> image" where
  "copy_frame dst src data = (\<lambda>i. if dst \<le> i \<and> i < dst + 128 then data (src + (i - dst)) else data i)"

definition memcard_format :: "image \<Rightarrow> image" where
  "memcard_format data0 =
     (let d1 = format_header (fill 0 0xFF MEMCARD_SIZE data0);
          d2 = fold format_directory [1 ..< 16] d1;
          d3 = fold format_broken [16 ..< 36] d2;
          d4 = fold (\<lambda>s. fill (s * 128) 0 128) [36 ..< 63] d3
      in copy_frame (63 * 128) 0 d4)"

section \<open>Cards\<close>

definition upd_card :: "nat \<Rightarrow> (mem_card \<Rightarrow> mem_card) \<Rightarrow> card_st \<Rightarrow> card_st" where
  "upd_card i f s = s\<lparr> cards := (cards s)(i := f (cards s i)) \<rparr>"

definition zero_card :: mem_card where
  "zero_card = \<lparr> card_data = (\<lambda>_. 0), filepath = [], present = False, dirty = False \<rparr>"

definition resolve_path :: "string option \<Rightarrow> string option \<Rightarrow> nat \<Rightarrow> string option" where
  "resolve_path dir path i =
     (case path of
        Some (c # cs) \<Rightarrow> Some (take 511 (c # cs))
      | _ \<Rightarrow> (case dir of
                Some d \<Rightarrow> Some (take 511 (d @ ''/card'' @ (if i = 0 then ''1'' else ''2'') @ ''.mcd''))
              | None \<Rightarrow> None))"

definition load_card :: "nat \<Rightarrow> card_st \<Rightarrow> card_st" where
  "load_card i s =
     (let path = filepath (cards s i)
      in case files s path of
           Some contents \<Rightarrow>
             let (n, data) = read_bytes contents (card_data (cards s i))
             in upd_card i (\<lambda>c. c\<lparr> card_data := data, present := (n = MEMCARD_SIZE) \<rparr>) s
         | None \<Rightarrow>
             let s1 = upd_card i (\<lambda>c. c\<lparr> card_data := memcard_format (card_data c) \<rparr>) s;
                 (ok, s2) = write_file path (image_bytes (card_data (cards s1 i))) s1
             in if ok then upd_card i (\<lambda>c. c\<lparr> present := True \<rparr>) s2 else s2)"

definition init_slot :: "string option \<Rightarrow> slot_config list option \<Rightarrow> nat \<Rightarrow> card_st \<Rightarrow> card_st" where
  "init_slot dir slots i s =
     (let (path, enabled) = (case slots of None \<Rightarrow> (None, True) | Some cs \<Rightarrow> (slot_path (cs ! i), slot_enabled (cs ! i)))
      in if \<not> enabled then s
         else case resolve_path dir path i of
                None \<Rightarrow> s
              | Some p \<Rightarrow> load_card i (upd_card i (\<lambda>c. c\<lparr> filepath := p \<rparr>) s))"

definition memcard_init_slots :: "string option \<Rightarrow> slot_config list option \<Rightarrow> card_st \<Rightarrow> card_st" where
  "memcard_init_slots dir slots s =
     fold (init_slot dir slots) [0 ..< MAX_CARDS] (s\<lparr> cards := (\<lambda>_. zero_card) \<rparr>)"

definition memcard_init :: "string option \<Rightarrow> card_st \<Rightarrow> card_st" where
  "memcard_init dir s =
     memcard_init_slots dir (Some [\<lparr> slot_path = None, slot_enabled = True \<rparr>, \<lparr> slot_path = None, slot_enabled = True \<rparr>]) s"

text \<open>\<open>malloc\<close> may fail: the first argument says whether it grants the buffer.\<close>

definition memcard_format_file :: "bool \<Rightarrow> string option \<Rightarrow> card_st \<Rightarrow> int \<times> card_st" where
  "memcard_format_file alloc path s =
     (case path of
        Some (c # cs) \<Rightarrow>
          (if \<not> alloc then (- 1, s)
           else let (ok, s1) = write_file (c # cs) (image_bytes (memcard_format (\<lambda>_. 0))) s in (if ok then 0 else - 1, s1))
      | _ \<Rightarrow> (- 1, s))"

definition empty_summary :: card_summary where
  "empty_summary = \<lparr> cs_exists = False, cs_valid = False, cs_used_blocks = 0, cs_total_blocks = 15, cs_block_used = (\<lambda>_. 0),
     cs_mtime = 0, cs_size_bytes = 0 \<rparr>"

definition block_in_use :: "u8 \<Rightarrow> bool" where
  "block_in_use status \<longleftrightarrow> status AND 0xF0 = 0x50"

definition memcard_summary_path :: "bool \<Rightarrow> string option \<Rightarrow> card_st \<Rightarrow> card_summary" where
  "memcard_summary_path alloc path s =
     (case path of
        Some (c # cs) \<Rightarrow>
          (case files s (c # cs) of
             None \<Rightarrow> empty_summary
           | Some contents \<Rightarrow>
               let m = empty_summary\<lparr> cs_exists := True \<rparr>
               in if \<not> alloc then m
                  else let (n, data) = read_bytes contents (\<lambda>_. 0);
                           m1 = m\<lparr> cs_size_bytes := int n \<rparr>;
                           m2 = (if n = MEMCARD_SIZE \<and> data 0 = 0x4D \<and> data 1 = 0x43
                                 then fold (\<lambda>b m. let used = block_in_use (data (b * 128))
                                                  in m\<lparr> cs_block_used := (cs_block_used m)(b - 1 := if used then 1 else 0),
                                                        cs_used_blocks := cs_used_blocks m + (if used then 1 else 0) \<rparr>)
                                        [1 ..< 16] (m1\<lparr> cs_valid := True \<rparr>)
                                 else m1)
                       in m2\<lparr> cs_mtime := (case mtimes s (c # cs) of Some t \<Rightarrow> t | None \<Rightarrow> 0) \<rparr>)
      | _ \<Rightarrow> empty_summary)"

definition memcard_read_sector :: "int \<Rightarrow> int \<Rightarrow> card_st \<Rightarrow> u8 list option" where
  "memcard_read_sector slot sector s =
     (if slot < 0 \<or> slot \<ge> int MAX_CARDS then None
      else if \<not> present (cards s (nat slot)) then None
      else if sector < 0 \<or> sector \<ge> int MEMCARD_SECTORS then None
      else Some (map (\<lambda>i. card_data (cards s (nat slot)) (nat sector * MEMCARD_SECTOR_SIZE + i)) [0 ..< MEMCARD_SECTOR_SIZE]))"

definition memcard_write_sector :: "int \<Rightarrow> int \<Rightarrow> u8 list \<Rightarrow> card_st \<Rightarrow> int \<times> card_st" where
  "memcard_write_sector slot sector buf s =
     (if slot < 0 \<or> slot \<ge> int MAX_CARDS then (- 1, s)
      else if \<not> present (cards s (nat slot)) then (- 1, s)
      else if sector < 0 \<or> sector \<ge> int MEMCARD_SECTORS then (- 1, s)
      else let off = nat sector * MEMCARD_SECTOR_SIZE
           in (0, upd_card (nat slot) (\<lambda>c. c\<lparr> card_data := (\<lambda>i. if off \<le> i \<and> i < off + MEMCARD_SECTOR_SIZE then buf ! (i - off)
                                                             else card_data c i), dirty := True \<rparr>) s))"

definition memcard_flush :: "int \<Rightarrow> card_st \<Rightarrow> card_st" where
  "memcard_flush slot s =
     (if slot < 0 \<or> slot \<ge> int MAX_CARDS then s
      else let c = cards s (nat slot)
           in if \<not> dirty c then s
              else if filepath c = [] then s
              else let (ok, s1) = write_file (filepath c) (image_bytes (card_data c)) s
                   in if ok then upd_card (nat slot) (\<lambda>c. c\<lparr> dirty := False \<rparr>) s1 else s1)"

definition memcard_flush_all :: "card_st \<Rightarrow> card_st" where
  "memcard_flush_all s = fold (\<lambda>i. memcard_flush (int i)) [0 ..< MAX_CARDS] s"

definition memcard_is_present :: "int \<Rightarrow> card_st \<Rightarrow> bool" where
  "memcard_is_present slot s \<longleftrightarrow> \<not> (slot < 0 \<or> slot \<ge> int MAX_CARDS) \<and> present (cards s (nat slot))"

definition memcard_debug_info :: "int \<Rightarrow> card_st \<Rightarrow> (string \<times> u8 \<times> u8 \<times> bool \<times> bool) option" where
  "memcard_debug_info slot s =
     (if slot < 0 \<or> slot \<ge> int MAX_CARDS then None
      else let c = cards s (nat slot) in Some (filepath c, card_data c 0, card_data c 1, present c, dirty c))"

definition memcard_debug_read_buffer :: "int \<Rightarrow> u32 \<Rightarrow> u32 \<Rightarrow> card_st \<Rightarrow> u8 list" where
  "memcard_debug_read_buffer slot offset len s =
     (if slot < 0 \<or> slot \<ge> int MAX_CARDS then []
      else if \<not> present (cards s (nat slot)) then []
      else if len = 0 then []
      else if offset \<ge> 0x20000 then []
      else let avail = 0x20000 - offset; n = (if len > avail then avail else len)
           in map (\<lambda>i. card_data (cards s (nat slot)) (unat offset + i)) [0 ..< unat n])"

section \<open>Sector access and persistence\<close>

definition valid_access :: "int \<Rightarrow> int \<Rightarrow> card_st \<Rightarrow> bool" where
  "valid_access slot sector s \<longleftrightarrow>
     0 \<le> slot \<and> slot < int MAX_CARDS \<and> present (cards s (nat slot)) \<and> 0 \<le> sector \<and> sector < int MEMCARD_SECTORS"

lemma write_sector_eq:
  assumes "valid_access slot sector s"
  shows "memcard_write_sector slot sector buf s =
     (0, upd_card (nat slot) (\<lambda>c. c\<lparr> card_data := (\<lambda>i. if nat sector * 128 \<le> i \<and> i < nat sector * 128 + 128
        then buf ! (i - nat sector * 128) else card_data c i), dirty := True \<rparr>) s)"
  using assms by (simp add: memcard_write_sector_def valid_access_def Let_def)

lemma read_sector_eq:
  "memcard_read_sector slot k s =
     (if valid_access slot k s then Some (map (\<lambda>i. card_data (cards s (nat slot)) (nat k * 128 + i)) [0 ..< 128]) else None)"
  by (auto simp: memcard_read_sector_def valid_access_def)

text \<open>Two sectors are the same or do not overlap.\<close>

lemma sector_window:
  assumes "i < 128"
  shows "(a * 128 \<le> b * 128 + i \<and> b * 128 + i < a * 128 + 128) \<longleftrightarrow> a = (b :: nat)"
  using assms by auto

lemma read_after_write:
  assumes "valid_access slot sector s" and "length buf = 128"
  shows "memcard_read_sector slot k (snd (memcard_write_sector slot sector buf s)) =
     (if k = sector then Some buf else memcard_read_sector slot k s)"
proof -
  let ?t = "snd (memcard_write_sector slot sector buf s)"
  have v: "valid_access slot k ?t \<longleftrightarrow> valid_access slot k s" for k
    by (simp add: write_sector_eq [OF assms(1)] valid_access_def upd_card_def)
  have d: "card_data (cards ?t (nat slot)) (nat k * 128 + i) =
      (if nat sector = nat k then buf ! i else card_data (cards s (nat slot)) (nat k * 128 + i))" if "i < 128" for i
    unfolding write_sector_eq [OF assms(1)] upd_card_def using sector_window [OF that, of "nat sector" "nat k"] by auto
  have same: "valid_access slot k s \<Longrightarrow> nat sector = nat k \<longleftrightarrow> k = sector"
    using assms(1) by (auto simp: valid_access_def)
  have "map (\<lambda>i. buf ! i) [0 ..< 128] = buf" using assms(2) by (metis map_nth)
  moreover have "map (\<lambda>i. card_data (cards ?t (nat slot)) (nat k * 128 + i)) [0 ..< 128] =
      (if nat sector = nat k then map (\<lambda>i. buf ! i) [0 ..< 128] else map (\<lambda>i. card_data (cards s (nat slot)) (nat k * 128 + i)) [0 ..< 128])"
    using d by auto
  ultimately show ?thesis
    using assms(1) same unfolding read_sector_eq [of slot k] v by auto
qed

interpretation card_sectors: cell_store
  "valid_access slot" "\<lambda>buf. length buf = 128" "memcard_read_sector slot" "\<lambda>k buf s. snd (memcard_write_sector slot k buf s)"
  for slot
proof (unfold_locales, goal_cases)
  case (1 i s v j)
  then show ?case by (simp add: write_sector_eq valid_access_def upd_card_def)
next
  case (2 i s v j)
  then show ?case by (simp add: read_after_write)
qed

lemma load_present:
  assumes "files s (filepath (cards s i)) = Some (image_bytes data)"
  shows "present (cards (load_card i s) i)" "k < MEMCARD_SIZE \<Longrightarrow> card_data (cards (load_card i s) i) k = data k"
    "j \<noteq> i \<Longrightarrow> cards (load_card i s) j = cards s j" "files (load_card i s) = files s"
  using assms by (simp_all add: load_card_def read_bytes_def image_bytes_def upd_card_def Let_def)

lemma load_other:
  "j \<noteq> i \<Longrightarrow> cards (load_card i s) j = cards s j"
  "p \<noteq> filepath (cards s i) \<Longrightarrow> files (load_card i s) p = files s p"
  by (auto simp: load_card_def write_file_def upd_card_def read_bytes_def Let_def
      split: option.splits list.splits write_outcome.splits)

lemma init_slot_other:
  assumes "resolve_path dir (slot_path (cfg ! i)) i \<noteq> Some p \<or> \<not> slot_enabled (cfg ! i)"
  shows "files (init_slot dir (Some cfg) i s) p = files s p" "j \<noteq> i \<Longrightarrow> cards (init_slot dir (Some cfg) i s) j = cards s j"
proof -
  show "files (init_slot dir (Some cfg) i s) p = files s p"
    using assms load_other(2) [of p "upd_card i (\<lambda>c. c\<lparr> filepath := q \<rparr>) s" i for q]
    by (auto simp: init_slot_def upd_card_def split: option.splits)
  show "j \<noteq> i \<Longrightarrow> cards (init_slot dir (Some cfg) i s) j = cards s j"
    by (auto simp: init_slot_def load_other upd_card_def split: option.splits)
qed

text \<open>A flush that succeeds puts the whole image into the card's file.\<close>

lemma flush_writes:
  assumes "0 \<le> slot" "slot < int MAX_CARDS" "dirty (cards s (nat slot))" "filepath (cards s (nat slot)) \<noteq> []"
    and "outcomes s = [] \<or> hd (outcomes s) = Write_ok"
  shows "files (memcard_flush slot s) (filepath (cards s (nat slot))) = Some (image_bytes (card_data (cards s (nat slot))))"
  using assms by (cases "outcomes s") (simp_all add: memcard_flush_def write_file_def upd_card_def Let_def)

text \<open>A flush that fails loses nothing: the card stays dirty and its image is kept, so that the next
  flush tries again.\<close>

lemma failed_flush_stays_dirty:
  assumes "0 \<le> slot" "slot < int MAX_CARDS" "dirty (cards s (nat slot))" and "outcomes s = w # os" and "w \<noteq> Write_ok"
  shows "cards (memcard_flush slot s) = cards s"
  using assms by (cases w) (simp_all add: memcard_flush_def write_file_def upd_card_def Let_def)

text \<open>C35. Saves survive a restart: after a sector write and a successful flush, initialising the cards
  again with the slot on the same file (and the other slot on another file or empty) gives back a
  present card on which the written sector reads as written and every other sector reads as it did
  before the write.\<close>

theorem card_survives_restart:
  assumes "valid_access slot sector s" and "length buf = 128" and "outcomes s = [] \<or> hd (outcomes s) = Write_ok"
    and "filepath (cards s (nat slot)) = p" and "p \<noteq> []" and "slot_enabled (cfg ! nat slot)"
    and "resolve_path dir (slot_path (cfg ! nat slot)) (nat slot) = Some p"
    and "resolve_path dir (slot_path (cfg ! (1 - nat slot))) (1 - nat slot) \<noteq> Some p \<or> \<not> slot_enabled (cfg ! (1 - nat slot))"
  shows "let t = memcard_init_slots dir (Some cfg) (memcard_flush slot (snd (memcard_write_sector slot sector buf s)))
     in memcard_read_sector slot k t = (if k = sector then Some buf else memcard_read_sector slot k s)"
proof -
  define w where "w = snd (memcard_write_sector slot sector buf s)"
  define f where "f = memcard_flush slot w"
  define i where "i = nat slot"
  have sl: "0 \<le> slot" "slot < int MAX_CARDS" "i < 2" using assms(1) by (auto simp: valid_access_def i_def)
  then have ne: "i \<noteq> 1 - i" by presburger
  have w: "dirty (cards w i)" "filepath (cards w i) = p" "outcomes w = outcomes s" "present (cards w i)"
    using assms(1,4) by (simp_all add: w_def i_def write_sector_eq upd_card_def valid_access_def)
  have stored: "files f p = Some (image_bytes (card_data (cards w i)))"
    using flush_writes [of slot w] sl w assms(3,5) by (simp add: f_def i_def)
  let ?z = "f\<lparr> cards := (\<lambda>_. zero_card) \<rparr>"
  let ?o = "init_slot dir (Some cfg) (1 - i)" and ?m = "init_slot dir (Some cfg) i"
  have other: "files (?o u) p = files u p" "cards (?o u) i = cards u i" for u
    using init_slot_other(1) [of dir cfg "1 - i" p u] init_slot_other(2) [of dir cfg "1 - i" p i u] assms(8) ne unfolding i_def [symmetric] by blast+
  have mine: "present (cards (?m u) i)" "k' < MEMCARD_SIZE \<Longrightarrow> card_data (cards (?m u) i) k' = card_data (cards w i) k'"
    if "files u p = Some (image_bytes (card_data (cards w i)))" for u k'
  proof -
    have m: "?m u = load_card i (upd_card i (\<lambda>c. c\<lparr> filepath := p \<rparr>) u)"
      using assms(6,7) by (simp add: init_slot_def i_def)
    have "files (upd_card i (\<lambda>c. c\<lparr> filepath := p \<rparr>) u) (filepath (cards (upd_card i (\<lambda>c. c\<lparr> filepath := p \<rparr>) u) i)) =
        Some (image_bytes (card_data (cards w i)))"
      using that by (simp add: upd_card_def)
    from load_present(1,2) [OF this] show "present (cards (?m u) i)"
      "k' < MEMCARD_SIZE \<Longrightarrow> card_data (cards (?m u) i) k' = card_data (cards w i) k'"
      unfolding m by blast+
  qed
  define t where "t = memcard_init_slots dir (Some cfg) f"
  have "t = (if i = 0 then ?o (?m ?z) else ?m (?o ?z))"
    using less_2_cases [OF sl(3)] by (elim disjE) (simp_all add: t_def memcard_init_slots_def numeral_2_eq_2)
  then have t: "present (cards t i)" "k' < MEMCARD_SIZE \<Longrightarrow> card_data (cards t i) k' = card_data (cards w i) k'" for k'
    using mine [of ?z] mine [of "?o ?z"] other stored by (auto split: if_splits)
  have acc: "valid_access slot k t \<longleftrightarrow> valid_access slot k w" using t(1) w(4) by (simp add: valid_access_def i_def)
  have "memcard_read_sector slot k t = memcard_read_sector slot k w"
    unfolding read_sector_eq [of slot k] acc i_def [symmetric]
    using t(2) by (auto simp: valid_access_def)
  then show ?thesis
    using read_after_write [OF assms(1,2), of k] unfolding t_def f_def w_def Let_def by simp
qed

text \<open>A session with one card in the first slot, loaded from the file named a.\<close>

definition demo_cards :: card_st where
  "demo_cards = \<lparr> files = (\<lambda>_. None), outcomes = [], mtimes = (\<lambda>_. None),
     cards = (\<lambda>_. zero_card)(0 := zero_card\<lparr> filepath := ''a'', present := True \<rparr>) \<rparr>"

definition demo_slots :: "slot_config list" where
  "demo_slots = [\<lparr> slot_path = Some ''a'', slot_enabled = True \<rparr>, \<lparr> slot_path = None, slot_enabled = False \<rparr>]"

theorem card_survives_restart_witness:
  "\<forall>k. let t = memcard_init_slots None (Some demo_slots)
         (memcard_flush 0 (snd (memcard_write_sector 0 3 (replicate 128 7) demo_cards)))
   in memcard_read_sector 0 k t = (if k = 3 then Some (replicate 128 7) else memcard_read_sector 0 k demo_cards)"
  using card_survives_restart [of 0 3 demo_cards "replicate 128 7" "''a''" demo_slots None]
  by (simp add: demo_cards_def demo_slots_def valid_access_def zero_card_def resolve_path_def)

end
