(* ===== verification/Pad_Negotiation.thy ===== *)
theory Pad_Negotiation
  imports Psx_Prelude
begin

text \<open>
  Automatic controller selection (runtime/src/pad_negotiation.c): a port starts as a plain digital pad
  when the game is entered, and becomes a configurable (hybrid) one when the game insists on probing
  for it. The null checks of the code guard against pointers that its only caller, the serial port,
  never passes; the policy is a value here.
\<close>

datatype negotiation_state =
  NEGOTIATION_OFF | NEGOTIATION_WAITING_FOR_GAME | NEGOTIATION_DPAD | NEGOTIATION_DPAD_PROBE | NEGOTIATION_HYBRID

record pad_policy =
  neg_enabled :: bool
  neg_state :: negotiation_state
  config_probe_streak :: u8

definition psx_pad_negotiation_reset :: "bool \<Rightarrow> pad_policy \<Rightarrow> pad_policy" where
  "psx_pad_negotiation_reset enabled p =
     p\<lparr> neg_enabled := enabled,
        neg_state := (if enabled then NEGOTIATION_WAITING_FOR_GAME else NEGOTIATION_OFF),
        config_probe_streak := 0 \<rparr>"

definition psx_pad_negotiation_begin_game :: "pad_policy \<Rightarrow> pad_policy" where
  "psx_pad_negotiation_begin_game p =
     (if \<not> neg_enabled p then p else p\<lparr> neg_state := NEGOTIATION_DPAD, config_probe_streak := 0 \<rparr>)"

definition psx_pad_negotiation_observe_command :: "u8 \<Rightarrow> pad_policy \<Rightarrow> bool \<times> pad_policy" where
  "psx_pad_negotiation_observe_command command p =
     (if \<not> neg_enabled p then (False, p)
      else if neg_state p \<noteq> NEGOTIATION_DPAD \<and> neg_state p \<noteq> NEGOTIATION_DPAD_PROBE then (False, p)
      else if command = 0x42 then (False, p\<lparr> neg_state := NEGOTIATION_DPAD, config_probe_streak := 0 \<rparr>)
      else if command \<noteq> 0x43 then (False, p)
      else if config_probe_streak p = 0
      then (False, p\<lparr> config_probe_streak := 1, neg_state := NEGOTIATION_DPAD_PROBE \<rparr>)
      else (True, p\<lparr> config_probe_streak := 2, neg_state := NEGOTIATION_HYBRID \<rparr>))"

definition psx_pad_negotiation_is_enabled :: "pad_policy \<Rightarrow> bool" where
  "psx_pad_negotiation_is_enabled p \<longleftrightarrow> neg_enabled p"

definition psx_pad_negotiation_uses_dpad :: "pad_policy \<Rightarrow> bool" where
  "psx_pad_negotiation_uses_dpad p \<longleftrightarrow> neg_enabled p \<and> neg_state p \<noteq> NEGOTIATION_HYBRID"

definition psx_pad_negotiation_uses_hybrid :: "pad_policy \<Rightarrow> bool" where
  "psx_pad_negotiation_uses_hybrid p \<longleftrightarrow> neg_enabled p \<and> neg_state p = NEGOTIATION_HYBRID"

definition psx_pad_negotiation_state_name :: "pad_policy \<Rightarrow> string" where
  "psx_pad_negotiation_state_name p =
     (case neg_state p of
        NEGOTIATION_WAITING_FOR_GAME \<Rightarrow> ''waiting_for_game''
      | NEGOTIATION_DPAD \<Rightarrow> ''dpad''
      | NEGOTIATION_DPAD_PROBE \<Rightarrow> ''dpad_probe''
      | NEGOTIATION_HYBRID \<Rightarrow> ''hybrid''
      | NEGOTIATION_OFF \<Rightarrow> ''off'')"

section \<open>When a port is promoted\<close>

definition observe :: "u8 \<Rightarrow> pad_policy \<Rightarrow> pad_policy" where
  "observe c p = snd (psx_pad_negotiation_observe_command c p)"

text \<open>Two probes with no poll between them.\<close>

fun probes_twice :: "bool \<Rightarrow> u8 list \<Rightarrow> bool" where
  "probes_twice pending [] = False"
| "probes_twice pending (c # cs) =
     (if c = 0x42 then probes_twice False cs
      else if c = 0x43 then pending \<or> probes_twice True cs
      else probes_twice pending cs)"

lemma hybrid_is_final: "neg_state p = NEGOTIATION_HYBRID \<Longrightarrow> fold observe cs p = p"
  by (induction cs) (simp_all add: observe_def psx_pad_negotiation_observe_command_def)

lemma observe_enabled [simp]: "neg_enabled (observe c p) = neg_enabled p"
  by (simp add: observe_def psx_pad_negotiation_observe_command_def)

text \<open>The states between game entry and the decision: the streak counts the unanswered probe.\<close>

definition undecided :: "bool \<Rightarrow> pad_policy \<Rightarrow> bool" where
  "undecided pending p \<longleftrightarrow> neg_enabled p \<and> config_probe_streak p = of_flag pending \<and>
     neg_state p = (if pending then NEGOTIATION_DPAD_PROBE else NEGOTIATION_DPAD)"

lemma undecided_step:
  assumes "undecided pending p"
  shows "c = 0x42 \<Longrightarrow> undecided False (observe c p)"
    and "c \<noteq> 0x42 \<Longrightarrow> c \<noteq> 0x43 \<Longrightarrow> observe c p = p"
    and "c = 0x43 \<Longrightarrow> pending \<Longrightarrow> neg_state (observe c p) = NEGOTIATION_HYBRID"
    and "c = 0x43 \<Longrightarrow> \<not> pending \<Longrightarrow> undecided True (observe c p)"
  using assms by (auto simp: undecided_def observe_def psx_pad_negotiation_observe_command_def)

lemma promoted_iff_probed:
  assumes "undecided pending p"
  shows "neg_state (fold observe cs p) = NEGOTIATION_HYBRID \<longleftrightarrow> probes_twice pending cs"
  using assms
proof (induction cs arbitrary: pending p)
  case Nil
  then show ?case by (simp add: undecided_def)
next
  case (Cons c cs)
  show ?case
  proof (cases "c = 0x43 \<and> pending")
    case True
    then show ?thesis using undecided_step(3) [OF Cons.prems] by (simp add: hybrid_is_final)
  next
    case False
    then show ?thesis using undecided_step(1,2,4) [OF Cons.prems, of c] Cons.IH Cons.prems by auto
  qed
qed

lemma probes_twice_iff:
  "probes_twice pending cs \<longleftrightarrow>
     (\<exists>as bs. cs = as @ 0x43 # bs \<and> (pending \<and> 0x42 \<notin> set as \<or> (\<exists>ds es. as = ds @ 0x43 # es \<and> 0x42 \<notin> set es)))"
  (is "_ \<longleftrightarrow> (\<exists>as bs. ?P pending cs as bs)")
proof
  assume "probes_twice pending cs"
  then show "\<exists>as bs. ?P pending cs as bs"
  proof (induction pending cs rule: probes_twice.induct)
    case (2 pending c cs)
    consider "c = 0x42" "probes_twice False cs" | "c = 0x43" "pending" | "c = 0x43" "probes_twice True cs"
      | "c \<noteq> 0x42" "c \<noteq> 0x43" "probes_twice pending cs"
      using "2.prems" by (auto split: if_splits)
    then show ?case
    proof cases
      case 1
      then obtain as bs where "?P False cs as bs" using 2(1) by auto
      then show ?thesis by (intro exI [of _ "c # as"] exI [of _ bs]) (auto intro: exI [of _ "c # _"] simp: Cons_eq_append_conv)
    next
      case 2
      then show ?thesis by (intro exI [of _ "[]"] exI [of _ cs]) simp
    next
      case 3
      then obtain as bs where P: "?P True cs as bs" using 2(2) by auto
      then show ?thesis using 3
        by (intro exI [of _ "c # as"] exI [of _ bs]) (auto simp: Cons_eq_append_conv)
    next
      case 4
      then obtain as bs where "?P pending cs as bs" using 2(3) by auto
      then show ?thesis using 4
        by (intro exI [of _ "c # as"] exI [of _ bs]) (auto simp: Cons_eq_append_conv)
    qed
  qed simp
next
  have "?P pending cs as bs \<Longrightarrow> probes_twice pending cs" for as bs
  proof (induction pending cs arbitrary: as rule: probes_twice.induct)
    case (2 pending c cs)
    then show ?case by (cases as) (auto simp: Cons_eq_append_conv split: if_splits)
  qed simp
  then show "\<exists>as bs. ?P pending cs as bs \<Longrightarrow> probes_twice pending cs" by blast
qed

text \<open>A port is promoted exactly when the game insists: after game entry it is a hybrid pad if and only
  if two configuration probes (0x43) came with no poll (0x42) between them.\<close>

lemma promotion_needs_two_probes:
  assumes "psx_pad_negotiation_is_enabled p"
  shows "psx_pad_negotiation_uses_hybrid (fold observe cs (psx_pad_negotiation_begin_game p)) \<longleftrightarrow>
     (\<exists>as bs ds. cs = as @ 0x43 # bs @ 0x43 # ds \<and> 0x42 \<notin> set bs)"
proof -
  have start: "undecided False (psx_pad_negotiation_begin_game p)"
    using assms by (simp add: undecided_def psx_pad_negotiation_begin_game_def psx_pad_negotiation_is_enabled_def)
  have enabled: "neg_enabled (fold observe cs q) = neg_enabled q" for q
    by (induction cs arbitrary: q) simp_all
  have "neg_enabled (fold observe cs (psx_pad_negotiation_begin_game p))"
    using start unfolding enabled by (simp add: undecided_def)
  then have "psx_pad_negotiation_uses_hybrid (fold observe cs (psx_pad_negotiation_begin_game p)) \<longleftrightarrow> probes_twice False cs"
    using promoted_iff_probed [OF start, of cs] by (simp add: psx_pad_negotiation_uses_hybrid_def)
  also have "\<dots> \<longleftrightarrow> (\<exists>as bs ds. cs = as @ 0x43 # bs @ 0x43 # ds \<and> 0x42 \<notin> set bs)"
    unfolding probes_twice_iff by (simp, metis append_Cons append_assoc)
  finally show ?thesis .
qed

lemma promotion_needs_two_probes_example:
  "let p = psx_pad_negotiation_begin_game \<lparr> neg_enabled = True, neg_state = NEGOTIATION_WAITING_FOR_GAME, config_probe_streak = 0 \<rparr>
   in psx_pad_negotiation_uses_hybrid (fold observe [0x42, 0x43, 0x45, 0x43] p)"
proof -
  let ?p = "\<lparr> neg_enabled = True, neg_state = NEGOTIATION_WAITING_FOR_GAME, config_probe_streak = 0 \<rparr>"
  have "\<exists>as bs ds. [0x42, 0x43, 0x45, 0x43 :: u8] = as @ 0x43 # bs @ 0x43 # ds \<and> 0x42 \<notin> set bs"
    by (intro exI [of _ "[0x42]"] exI [of _ "[0x45]"] exI [of _ "[]"]) simp
  moreover have "psx_pad_negotiation_is_enabled ?p" by (simp add: psx_pad_negotiation_is_enabled_def)
  ultimately show ?thesis using promotion_needs_two_probes [of ?p "[0x42, 0x43, 0x45, 0x43]"] by (simp only: Let_def simp_thms)
qed

end
