(* ===== verification/Sio.thy ===== *)
theory Sio
  imports Irq_Events Memcard Pad_Negotiation
begin

text \<open>
  The serial port (runtime/src/sio.c): the pad protocol with its configuration mode, the memory card
  protocol over the cards of Memcard, the byte shifter and its acknowledge, the registers and the host
  interface to the pads. Configuration: \<open>SIO_MODEL_CYCLE_PACED\<close>, the default of sio.h.

  The record \<open>sio\<close> has the functional state, the one the snapshot of the file lists (\<open>SIO_SNAP_FIELDS\<close>),
  with the host's button and stick values, the legacy switch and the byte sequence number that the
  vblank scheduler reads. What the file calls pure diagnostics has no counterpart: the byte, transaction
  and interrupt rings and the context captured for them, the starvation ring, the counters of probes,
  aborts and pacing, and the calls into the debug server. \<open>sio_card_burst_drain\<close> has no caller.

  Operations that can raise an interrupt act on the pair of this state and the system state. The C
  integers that hold indices, countdowns and truth values are nat, int and bool.
\<close>

datatype pad_phase = PAD_IDLE | PAD_WAIT_ACCESS | PAD_SEND_RESPONSE

datatype mc_phase =
  MC_IDLE | MC_CMD | MC_ID1 | MC_ID2 | MC_ADDR_MSB | MC_ADDR_LSB
| MC_READ_ACK1 | MC_READ_ACK2 | MC_READ_MSB_ECHO | MC_READ_LSB_ECHO | MC_READ_DATA | MC_READ_CHK | MC_READ_END
| MC_WRITE_LSB_ECHO | MC_WRITE_DATA | MC_WRITE_CHK | MC_WRITE_ACK1 | MC_WRITE_ACK2 | MC_WRITE_END
| MC_GETID_1 | MC_GETID_2 | MC_GETID_3 | MC_GETID_4

datatype sio_device = DEV_NONE | DEV_PAD | DEV_MEMCARD

datatype bus_owner = SIO_OWNER_NONE | SIO_OWNER_CARD | SIO_OWNER_PAD | SIO_OWNER_UNKNOWN

text \<open>\<open>McSlotState\<close>; the working variables \<open>mc_state\<close>, \<open>mc_cmd\<close> and so on have the same fields.\<close>

record mc_regs =
  mc_state :: mc_phase
  mc_cmd :: u8
  mc_sector :: u16
  mc_sector_msb :: u8
  mc_sector_lsb :: u8
  mc_data :: "nat \<Rightarrow> u8"
  mc_data_idx :: nat
  mc_checksum :: u8
  mc_flag :: u8

record sio =
  sio_tx_data :: u8
  sio_rx_data :: u8
  sio_stat :: u16
  sio_mode :: u16
  sio_ctrl :: u16
  sio_baud :: u16
  pad_buttons :: "nat \<Rightarrow> u16"
  pad_analog :: "nat \<Rightarrow> bool"
  pad_stick :: "nat \<Rightarrow> nat \<Rightarrow> u8"
  analog_mode_locked :: "nat \<Rightarrow> bool"
  pad_connected :: u8
  pad_state :: pad_phase
  selected_slot :: nat
  pad_response :: "nat \<Rightarrow> u8"
  pad_response_len :: nat
  pad_response_idx :: nat
  pad_current_cmd :: u8
  pad_in_config :: "nat \<Rightarrow> bool"
  pad_supports_config :: "nat \<Rightarrow> bool"
  pad_negotiation :: "nat \<Rightarrow> pad_policy"
  pad_type_req :: "nat \<Rightarrow> bool option"
  g_pad_legacy_cfg :: bool
  mc :: mc_regs
  mc_slot :: nat
  mc_slots :: "nat \<Rightarrow> mc_regs"
  active_device :: sio_device
  sio_trace_seq :: u32
  g_sio_timing_active :: bool
  sio_shift_active :: bool
  sio_shift_byte :: u8
  sio_shift_remaining :: int
  sio_tx_buffered :: bool
  sio_tx_buffer :: u8
  sio_shift_ack_irq_en :: bool
  sio_tx_buffer_ack_irq_en :: bool
  sio_pending_ack :: bool
  sio_ack_remaining :: int
  sio_pending_ack_irq_en :: bool
  sio_bus_owner :: bus_owner
  sio_bus_byte_index :: u32
  sio_irq_pending :: bool
  sio_irq_countdown :: int
  sio_ack_visible_reads :: int
  mem_cards :: card_st

abbreviation (input) SIO_STAT_TX_RDY :: u16 where "SIO_STAT_TX_RDY \<equiv> 0x001"
abbreviation (input) SIO_STAT_RX_RDY :: u16 where "SIO_STAT_RX_RDY \<equiv> 0x002"
abbreviation (input) SIO_STAT_TX_EMPTY :: u16 where "SIO_STAT_TX_EMPTY \<equiv> 0x004"
abbreviation (input) SIO_STAT_ACK :: u16 where "SIO_STAT_ACK \<equiv> 0x080"
abbreviation (input) SIO_STAT_IRQ :: u16 where "SIO_STAT_IRQ \<equiv> 0x200"

abbreviation (input) CTRL_TX_EN :: u32 where "CTRL_TX_EN \<equiv> 0x0001"
abbreviation (input) CTRL_SELECT :: u32 where "CTRL_SELECT \<equiv> 0x0002"
abbreviation (input) CTRL_ACK :: u32 where "CTRL_ACK \<equiv> 0x0010"
abbreviation (input) CTRL_RESET :: u32 where "CTRL_RESET \<equiv> 0x0040"
abbreviation (input) CTRL_ACK_IRQ_EN :: u32 where "CTRL_ACK_IRQ_EN \<equiv> 0x1000"
abbreviation (input) CTRL_SLOT :: u32 where "CTRL_SLOT \<equiv> 0x2000"

abbreviation (input) SIO_BAUD_CYCLES_DEFAULT :: int where "SIO_BAUD_CYCLES_DEFAULT \<equiv> 1088"
abbreviation (input) SIO_ACK_CYCLES_DEFAULT :: int where "SIO_ACK_CYCLES_DEFAULT \<equiv> 170"
abbreviation (input) SRC_SIO :: u8 where "SRC_SIO \<equiv> 28"
abbreviation (input) IRQ_SIO0 :: nat where "IRQ_SIO0 \<equiv> 7"
abbreviation (input) MAX_TRANSITIONS :: nat where "MAX_TRANSITIONS \<equiv> 8"

section \<open>Status and control\<close>

definition stat_on :: "u16 \<Rightarrow> sio \<Rightarrow> sio" where
  "stat_on b s = s\<lparr> sio_stat := sio_stat s OR b \<rparr>"

definition stat_off :: "u16 \<Rightarrow> sio \<Rightarrow> sio" where
  "stat_off b s = s\<lparr> sio_stat := sio_stat s AND NOT b \<rparr>"

text \<open>A bit of the control register, or of a value written to it.\<close>

definition ctrl_has :: "u32 \<Rightarrow> u32 \<Rightarrow> bool" where
  "ctrl_has b v \<longleftrightarrow> v AND b \<noteq> 0"

definition ctrl_on :: "u32 \<Rightarrow> sio \<Rightarrow> bool" where
  "ctrl_on b s = ctrl_has b (ucast (sio_ctrl s))"

definition ctrl_slot :: "sio \<Rightarrow> nat" where
  "ctrl_slot s = (if ctrl_on CTRL_SLOT s then 1 else 0)"

text \<open>An answered byte: the byte for the CPU and the acknowledge.\<close>

definition reply :: "u8 \<Rightarrow> sio \<Rightarrow> sio" where
  "reply b s = stat_on SIO_STAT_ACK (s\<lparr> sio_rx_data := b \<rparr>)"

definition reply_last :: "u8 \<Rightarrow> sio \<Rightarrow> sio" where
  "reply_last b s = s\<lparr> sio_rx_data := b \<rparr>"

text \<open>The end of every processed byte.\<close>

definition byte_done :: "sio \<Rightarrow> sio" where
  "byte_done s = stat_on (SIO_STAT_TX_RDY OR SIO_STAT_TX_EMPTY) (stat_on SIO_STAT_RX_RDY s)"

definition pad_to_idle :: "sio \<Rightarrow> sio" where
  "pad_to_idle s = s\<lparr> pad_state := PAD_IDLE, pad_response_len := 0, pad_response_idx := 0, pad_current_cmd := 0 \<rparr>"

section \<open>The pads\<close>

definition valid_slot :: "int \<Rightarrow> bool" where
  "valid_slot slot \<longleftrightarrow> \<not> (slot < 0 \<or> slot > 1)"

definition sio_connect_pad :: "int \<Rightarrow> sio \<Rightarrow> sio" where
  "sio_connect_pad slot s =
     (if valid_slot slot then s\<lparr> pad_connected := pad_connected s OR push_bit (nat slot) 1 \<rparr> else s)"

definition sio_set_pad_connected :: "int \<Rightarrow> bool \<Rightarrow> sio \<Rightarrow> sio" where
  "sio_set_pad_connected slot connected s =
     (if \<not> valid_slot slot then s
      else if connected then s\<lparr> pad_connected := pad_connected s OR push_bit (nat slot) 1 \<rparr>
      else s\<lparr> pad_connected := pad_connected s AND NOT (push_bit (nat slot) 1) \<rparr>)"

definition sio_set_pad_config_capable :: "int \<Rightarrow> bool \<Rightarrow> sio \<Rightarrow> sio" where
  "sio_set_pad_config_capable slot capable s =
     (if \<not> valid_slot slot then s
      else let s1 = s\<lparr> pad_supports_config := (pad_supports_config s)(nat slot := capable) \<rparr>
           in if \<not> capable then s1\<lparr> pad_in_config := (pad_in_config s1)(nat slot := False) \<rparr> else s1)"

definition pad_effective_config_capable :: "int \<Rightarrow> sio \<Rightarrow> bool" where
  "pad_effective_config_capable slot s =
     (if \<not> valid_slot slot then False
      else if psx_pad_negotiation_is_enabled (pad_negotiation s (nat slot))
      then psx_pad_negotiation_uses_hybrid (pad_negotiation s (nat slot))
      else pad_supports_config s (nat slot))"

text \<open>The pad as a fresh digital one.\<close>

definition pad_forget :: "nat \<Rightarrow> sio \<Rightarrow> sio" where
  "pad_forget i s =
     s\<lparr> pad_analog := (pad_analog s)(i := False), pad_in_config := (pad_in_config s)(i := False),
        pad_type_req := (pad_type_req s)(i := None), analog_mode_locked := (analog_mode_locked s)(i := False) \<rparr>"

definition sio_set_pad_auto_negotiate :: "int \<Rightarrow> bool \<Rightarrow> sio \<Rightarrow> sio" where
  "sio_set_pad_auto_negotiate slot enabled s =
     (if \<not> valid_slot slot then s
      else let i = nat slot
           in if psx_pad_negotiation_is_enabled (pad_negotiation s i) = enabled then s
              else let s1 = s\<lparr> pad_negotiation := (pad_negotiation s)(i := psx_pad_negotiation_reset enabled (pad_negotiation s i)) \<rparr>
                   in if enabled then pad_forget i s1 else s1)"

definition begin_game_slot :: "nat \<Rightarrow> sio \<Rightarrow> sio" where
  "begin_game_slot i s =
     (if \<not> psx_pad_negotiation_is_enabled (pad_negotiation s i) then s
      else pad_forget i (s\<lparr> pad_negotiation := (pad_negotiation s)(i := psx_pad_negotiation_begin_game (pad_negotiation s i)) \<rparr>))"

definition sio_begin_game_pad_negotiation :: "sio \<Rightarrow> sio" where
  "sio_begin_game_pad_negotiation s = fold begin_game_slot [0 ..< 2] s"

definition sio_get_pad_auto_negotiate :: "int \<Rightarrow> sio \<Rightarrow> bool" where
  "sio_get_pad_auto_negotiate slot s \<longleftrightarrow> valid_slot slot \<and> psx_pad_negotiation_is_enabled (pad_negotiation s (nat slot))"

definition sio_get_pad_negotiated_hybrid :: "int \<Rightarrow> sio \<Rightarrow> bool" where
  "sio_get_pad_negotiated_hybrid slot s \<longleftrightarrow> valid_slot slot \<and> psx_pad_negotiation_uses_hybrid (pad_negotiation s (nat slot))"

definition sio_get_pad_config_capable :: "int \<Rightarrow> sio \<Rightarrow> bool" where
  "sio_get_pad_config_capable slot s = pad_effective_config_capable slot s"

definition sio_get_pad_negotiation_state_name :: "int \<Rightarrow> sio \<Rightarrow> string" where
  "sio_get_pad_negotiation_state_name slot s =
     (if valid_slot slot then psx_pad_negotiation_state_name (pad_negotiation s (nat slot)) else ''off'')"

definition sio_set_pad_state :: "u16 \<Rightarrow> sio \<Rightarrow> sio" where
  "sio_set_pad_state buttons s = s\<lparr> pad_buttons := (pad_buttons s)(0 := buttons) \<rparr>"

definition sio_set_pad_state_slot :: "int \<Rightarrow> u16 \<Rightarrow> sio \<Rightarrow> sio" where
  "sio_set_pad_state_slot slot buttons s =
     (if valid_slot slot then s\<lparr> pad_buttons := (pad_buttons s)(nat slot := buttons) \<rparr> else s)"

definition sio_set_pad_sticks :: "int \<Rightarrow> u8 \<Rightarrow> u8 \<Rightarrow> u8 \<Rightarrow> u8 \<Rightarrow> sio \<Rightarrow> sio" where
  "sio_set_pad_sticks slot lx ly rx ry s =
     (if \<not> valid_slot slot then s
      else s\<lparr> pad_stick := (pad_stick s)(nat slot := (pad_stick s (nat slot))(0 := lx, 1 := ly, 2 := rx, 3 := ry)) \<rparr>)"

definition sio_set_pad_analog :: "int \<Rightarrow> bool \<Rightarrow> u8 \<Rightarrow> u8 \<Rightarrow> u8 \<Rightarrow> u8 \<Rightarrow> sio \<Rightarrow> sio" where
  "sio_set_pad_analog slot enabled0 lx ly rx ry s =
     (if \<not> valid_slot slot then s
      else let i = nat slot;
               enabled = (if psx_pad_negotiation_uses_dpad (pad_negotiation s i) then False else enabled0)
           in s\<lparr> pad_analog := (pad_analog s)(i := enabled), pad_type_req := (pad_type_req s)(i := None),
                 pad_stick := (pad_stick s)(i := (pad_stick s i)(0 := lx, 1 := ly, 2 := rx, 3 := ry)) \<rparr>)"

definition sio_request_pad_type :: "int \<Rightarrow> bool \<Rightarrow> sio \<Rightarrow> sio" where
  "sio_request_pad_type slot analog s =
     (if \<not> valid_slot slot then s
      else let i = nat slot;
               want = (if psx_pad_negotiation_uses_dpad (pad_negotiation s i) then False else analog)
           in s\<lparr> pad_type_req := (pad_type_req s)(i := (if pad_analog s i = want then None else Some want)) \<rparr>)"

definition sio_get_pad_buttons :: "sio \<Rightarrow> u16" where
  "sio_get_pad_buttons s = pad_buttons s 0"

definition sio_get_pad_buttons_slot :: "int \<Rightarrow> sio \<Rightarrow> u16" where
  "sio_get_pad_buttons_slot slot s = (if valid_slot slot then pad_buttons s (nat slot) else 0xFFFF)"

definition sio_get_pad_connected :: "int \<Rightarrow> sio \<Rightarrow> bool" where
  "sio_get_pad_connected slot s \<longleftrightarrow> valid_slot slot \<and> pad_connected s AND push_bit (nat slot) 1 \<noteq> 0"

definition sio_get_pad_analog :: "int \<Rightarrow> sio \<Rightarrow> bool" where
  "sio_get_pad_analog slot s \<longleftrightarrow> valid_slot slot \<and> pad_analog s (nat slot)"

definition sio_set_legacy_cfg :: "bool \<Rightarrow> sio \<Rightarrow> sio" where
  "sio_set_legacy_cfg v s = s\<lparr> g_pad_legacy_cfg := v, pad_in_config := (pad_in_config s)(0 := False, 1 := False) \<rparr>"

text \<open>The frame that answers a command; its first byte goes out at once.\<close>

definition set_response :: "u8 list \<Rightarrow> sio \<Rightarrow> sio" where
  "set_response bs s =
     reply (hd bs)
       (s\<lparr> pad_response := (\<lambda>i. if i < length bs then bs ! i else pad_response s i), pad_response_len := length bs,
           pad_state := PAD_SEND_RESPONSE \<rparr>)"

text \<open>A poll frame; the long form carries the sticks.\<close>

definition poll_frame :: "u8 \<Rightarrow> bool \<Rightarrow> sio \<Rightarrow> u8 list" where
  "poll_frame ident long s =
     (let i = selected_slot s; btn = pad_buttons s i
      in [ident, 0x5A, ucast (btn AND 0xFF), ucast (drop_bit 8 btn)] @
         (if long then [pad_stick s i 2, pad_stick s i 3, pad_stick s i 0, pad_stick s i 1] else []))"

definition cur_id :: "sio \<Rightarrow> u8" where
  "cur_id s = (if pad_in_config s (selected_slot s) then 0xF3 else if pad_analog s (selected_slot s) then 0x73 else 0x41)"

definition config_mode_response :: "sio \<Rightarrow> u8 list" where
  "config_mode_response s =
     (if g_pad_legacy_cfg s then [0xF3, 0x5A, 0, 0, 0, 0, 0, 0]
      else if \<not> pad_in_config s (selected_slot s) then poll_frame (cur_id s) (pad_analog s (selected_slot s)) s
      else [cur_id s, 0x5A, 0, 0, 0, 0, 0, 0])"

definition canned_response :: "u8 \<Rightarrow> sio \<Rightarrow> u8 list" where
  "canned_response b s =
     (if b = 0x45 then [0xF3, 0x5A, 0x03, of_flag (pad_analog s (selected_slot s)), 0x01, 0x02, 0x01, 0x00]
      else if b = 0x46 then [0xF3, 0x5A, 0x00, 0x00, 0x01, 0x02, 0x00, 0x0A]
      else if b = 0x47 then [0xF3, 0x5A, 0x00, 0x00, 0x02, 0x00, 0x01, 0x00]
      else if b = 0x4C then [0xF3, 0x5A, 0x00, 0x00, 0x00, 0x04, 0x00, 0x00]
      else [0xF3, 0x5A, 0x00, 0x00, 0x00, 0x00, 0x00, 0x00])"

definition apply_type_req :: "nat \<Rightarrow> sio \<Rightarrow> sio" where
  "apply_type_req i s =
     (case pad_type_req s i of
        Some want \<Rightarrow>
          (if \<not> pad_in_config s i \<and> \<not> analog_mode_locked s i
           then s\<lparr> pad_analog := (pad_analog s)(i := want), pad_type_req := (pad_type_req s)(i := None) \<rparr> else s)
      | None \<Rightarrow> s)"

definition pad_connected_on :: "nat \<Rightarrow> sio \<Rightarrow> bool" where
  "pad_connected_on i s \<longleftrightarrow> pad_connected s AND push_bit i 1 \<noteq> 0"

definition pad_idle_byte :: "u8 \<Rightarrow> sio \<Rightarrow> sio" where
  "pad_idle_byte b s =
     (if b = 0x01 \<and> pad_connected_on (selected_slot s) s then reply 0xFF (s\<lparr> pad_state := PAD_WAIT_ACCESS \<rparr>)
      else reply_last 0xFF s)"

definition pad_command_byte :: "u8 \<Rightarrow> sio \<Rightarrow> sio" where
  "pad_command_byte b s =
     (let i = selected_slot s;
          ident = cur_id s;
          s1 = s\<lparr> pad_current_cmd := b, pad_response_idx := 1 \<rparr>;
          s2 = s1\<lparr> pad_negotiation := (pad_negotiation s1)(i := snd (psx_pad_negotiation_observe_command b (pad_negotiation s1 i))) \<rparr>;
          ds = pad_effective_config_capable (int i) s2
      in if b = 0x42 then set_response (poll_frame ident (pad_analog s2 i \<or> pad_in_config s2 i) s2) s2
         else if ds \<and> b = 0x43 then set_response (config_mode_response s2) s2
         else if ds \<and> g_pad_legacy_cfg s2 \<and> b \<in> {0x45, 0x46, 0x47, 0x4C, 0x4D} then set_response (canned_response b s2) s2
         else if ds \<and> \<not> g_pad_legacy_cfg s2 \<and> pad_in_config s2 i \<and> b \<in> {0x44, 0x45, 0x46, 0x47, 0x4C, 0x4D, 0x4F}
         then set_response (canned_response b s2) s2
         else reply_last 0xFF (pad_to_idle s2))"

text \<open>The data bytes of commands 0x43 (configuration mode) and 0x44 (mode and lock).\<close>

definition pad_latch :: "u8 \<Rightarrow> sio \<Rightarrow> sio" where
  "pad_latch b s =
     (let i = selected_slot s; modern = (\<not> g_pad_legacy_cfg s);
          s1 = (if modern \<and> pad_current_cmd s = 0x43 \<and> pad_response_idx s = 2
                then s\<lparr> pad_in_config := (pad_in_config s)(i := (b = 0x01)) \<rparr> else s);
          s2 = (if modern \<and> pad_current_cmd s1 = 0x44 \<and> pad_response_idx s1 = 2
                then s1\<lparr> pad_analog := (pad_analog s1)(i := (b = 0x01)), pad_type_req := (pad_type_req s1)(i := None) \<rparr> else s1)
      in if modern \<and> pad_current_cmd s2 = 0x44 \<and> pad_response_idx s2 = 3
         then if b = 0x03 then s2\<lparr> analog_mode_locked := (analog_mode_locked s2)(i := True) \<rparr>
              else if b = 0x02 then s2\<lparr> analog_mode_locked := (analog_mode_locked s2)(i := False) \<rparr>
              else s2
         else s2)"

definition pad_response_byte :: "u8 \<Rightarrow> sio \<Rightarrow> sio" where
  "pad_response_byte b s0 =
     (let s = pad_latch b s0
      in if pad_response_idx s < pad_response_len s
         then let s1 = s\<lparr> sio_rx_data := pad_response s (pad_response_idx s), pad_response_idx := pad_response_idx s + 1 \<rparr>
              in if pad_response_idx s1 < pad_response_len s1 then stat_on SIO_STAT_ACK s1 else pad_to_idle s1
         else reply_last 0xFF (pad_to_idle s))"

definition pad_process_byte :: "u8 \<Rightarrow> sio \<Rightarrow> sio" where
  "pad_process_byte b s =
     (let s1 = (if pad_state s = PAD_IDLE then fold apply_type_req [0 ..< 2] s else s)
      in byte_done
           (case pad_state s1 of
              PAD_IDLE \<Rightarrow> pad_idle_byte b s1
            | PAD_WAIT_ACCESS \<Rightarrow> pad_command_byte b s1
            | PAD_SEND_RESPONSE \<Rightarrow> pad_response_byte b s1))"

section \<open>The memory cards\<close>

definition upd_mc :: "(mc_regs \<Rightarrow> mc_regs) \<Rightarrow> sio \<Rightarrow> sio" where
  "upd_mc f s = s\<lparr> mc := f (mc s) \<rparr>"

definition mc_goto :: "mc_phase \<Rightarrow> sio \<Rightarrow> sio" where
  "mc_goto st s = upd_mc (\<lambda>m. m\<lparr> mc_state := st \<rparr>) s"

definition mc_save_slot :: "nat \<Rightarrow> sio \<Rightarrow> sio" where
  "mc_save_slot slot s = (if slot > 1 then s else s\<lparr> mc_slots := (mc_slots s)(slot := mc s) \<rparr>)"

definition mc_load_slot :: "nat \<Rightarrow> sio \<Rightarrow> sio" where
  "mc_load_slot slot s = (if slot > 1 then s else s\<lparr> mc := mc_slots s slot \<rparr>)"

definition sio_get_seq :: "sio \<Rightarrow> u32" where
  "sio_get_seq s = sio_trace_seq s"

definition sio_card_protocol_active :: "sio \<Rightarrow> bool" where
  "sio_card_protocol_active s \<longleftrightarrow>
     mc_state (mc s) \<noteq> MC_IDLE \<or> mc_state (mc_slots s 0) \<noteq> MC_IDLE \<or> mc_state (mc_slots s 1) \<noteq> MC_IDLE"

text \<open>The checksum over the address and the 128 bytes of a sector.\<close>

definition sector_checksum :: "mc_regs \<Rightarrow> u8" where
  "sector_checksum m = fold (\<lambda>i x. x XOR mc_data m i) [0 ..< 128] (mc_sector_msb m XOR mc_sector_lsb m)"

definition sector_buffer :: "mc_regs \<Rightarrow> u8 list" where
  "sector_buffer m = map (mc_data m) [0 ..< 128]"

definition mc_address :: "u8 \<Rightarrow> mc_regs \<Rightarrow> mc_regs" where
  "mc_address lsb m =
     m\<lparr> mc_sector_lsb := lsb, mc_sector := push_bit 8 (ucast (mc_sector_msb m)) OR ucast lsb \<rparr>"

text \<open>The read of a sector at its address: a failed read leaves the buffer as it was.\<close>

definition mc_begin_read :: "sio \<Rightarrow> sio" where
  "mc_begin_read s =
     (let m = mc s;
          data = (if mc_sector m < 1024
                  then (case memcard_read_sector (int (mc_slot s)) (uint (mc_sector m)) (mem_cards s) of
                          Some buf \<Rightarrow> (\<lambda>i. if i < 128 then buf ! i else mc_data m i)
                        | None \<Rightarrow> mc_data m)
                  else (\<lambda>i. if i < 128 then 0xFF else mc_data m i));
          m1 = m\<lparr> mc_data := data, mc_data_idx := 0 \<rparr>
      in reply_last 0x00 (s\<lparr> mc := m1\<lparr> mc_checksum := sector_checksum m1, mc_state := MC_READ_ACK1 \<rparr> \<rparr>))"

text \<open>The end of a write: the sector goes to the card and to disk when the checksum and the address are
  right.\<close>

definition mc_commit :: "u8 \<Rightarrow> sio \<Rightarrow> sio" where
  "mc_commit b s =
     (let m = mc s; slot = int (mc_slot s)
      in if b = sector_checksum m \<and> mc_sector m < 1024
         then let s1 = s\<lparr> mem_cards := memcard_flush slot
                            (snd (memcard_write_sector slot (uint (mc_sector m)) (sector_buffer m) (mem_cards s))) \<rparr>
              in upd_mc (\<lambda>m. m\<lparr> mc_checksum := 0x47 \<rparr>) s1
         else upd_mc (\<lambda>m. m\<lparr> mc_checksum := (if mc_sector m \<ge> 1024 then 0xFF else 0x4E) \<rparr>) s)"

definition mc_store :: "u8 \<Rightarrow> mc_regs \<Rightarrow> mc_regs" where
  "mc_store b m = m\<lparr> mc_data := (mc_data m)(mc_data_idx m := b), mc_data_idx := mc_data_idx m + 1 \<rparr>"

definition mc_step :: "u8 \<Rightarrow> sio \<Rightarrow> sio" where
  "mc_step b s =
     (case mc_state (mc s) of
        MC_IDLE \<Rightarrow>
          (let s1 = s\<lparr> mc_slot := selected_slot s \<rparr>
           in if memcard_is_present (int (mc_slot s1)) (mem_cards s1) then reply 0xFF (mc_goto MC_CMD s1)
              else reply_last 0xFF s1)
      | MC_CMD \<Rightarrow>
          (let s1 = upd_mc (\<lambda>m. m\<lparr> mc_cmd := b \<rparr>) s
           in if b \<in> {0x52, 0x57, 0x53}
              then upd_mc (\<lambda>m. m\<lparr> mc_flag := 0x00 \<rparr>) (reply (mc_flag (mc s1)) (mc_goto MC_ID1 s1))
              else reply_last 0xFF (mc_goto MC_IDLE s1))
      | MC_ID1 \<Rightarrow> reply 0x5A (mc_goto MC_ID2 s)
      | MC_ID2 \<Rightarrow> reply 0x5D (mc_goto (if mc_cmd (mc s) = 0x53 then MC_GETID_1 else MC_ADDR_MSB) s)
      | MC_GETID_1 \<Rightarrow> reply 0x04 (mc_goto MC_GETID_2 s)
      | MC_GETID_2 \<Rightarrow> reply 0x00 (mc_goto MC_GETID_3 s)
      | MC_GETID_3 \<Rightarrow> reply 0x00 (mc_goto MC_GETID_4 s)
      | MC_GETID_4 \<Rightarrow> reply_last 0x80 (mc_goto MC_IDLE s)
      | MC_ADDR_MSB \<Rightarrow> reply 0x00 (mc_goto MC_ADDR_LSB (upd_mc (\<lambda>m. m\<lparr> mc_sector_msb := b \<rparr>) s))
      | MC_ADDR_LSB \<Rightarrow>
          (let s1 = upd_mc (mc_address b) s
           in stat_on SIO_STAT_ACK
                (if mc_cmd (mc s1) = 0x52 then mc_begin_read s1
                 else reply_last (mc_sector_msb (mc s1)) (mc_goto MC_WRITE_LSB_ECHO (upd_mc (\<lambda>m. m\<lparr> mc_data_idx := 0 \<rparr>) s1))))
      | MC_READ_ACK1 \<Rightarrow> reply 0x5C (mc_goto MC_READ_ACK2 s)
      | MC_READ_ACK2 \<Rightarrow> reply 0x5D (mc_goto MC_READ_MSB_ECHO s)
      | MC_READ_MSB_ECHO \<Rightarrow> reply (mc_sector_msb (mc s)) (mc_goto MC_READ_LSB_ECHO s)
      | MC_READ_LSB_ECHO \<Rightarrow> reply (mc_sector_lsb (mc s)) (mc_goto MC_READ_DATA (upd_mc (\<lambda>m. m\<lparr> mc_data_idx := 0 \<rparr>) s))
      | MC_READ_DATA \<Rightarrow>
          (let s1 = upd_mc (\<lambda>m. m\<lparr> mc_data_idx := mc_data_idx m + 1 \<rparr>) (reply (mc_data (mc s) (mc_data_idx (mc s))) s)
           in if mc_data_idx (mc s1) \<ge> 128 then mc_goto MC_READ_CHK s1 else s1)
      | MC_READ_CHK \<Rightarrow> reply (mc_checksum (mc s)) (mc_goto MC_READ_END s)
      | MC_READ_END \<Rightarrow> reply_last (if mc_sector (mc s) < 1024 then 0x47 else 0xFF) (mc_goto MC_IDLE s)
      | MC_WRITE_LSB_ECHO \<Rightarrow> reply (mc_sector_lsb (mc s)) (mc_goto MC_WRITE_DATA (upd_mc (mc_store b) s))
      | MC_WRITE_DATA \<Rightarrow>
          (let s1 = reply 0x00 (upd_mc (mc_store b) s)
           in if mc_data_idx (mc s1) \<ge> 128 then mc_goto MC_WRITE_CHK s1 else s1)
      | MC_WRITE_CHK \<Rightarrow> mc_commit b (reply 0x00 (mc_goto MC_WRITE_ACK1 s))
      | MC_WRITE_ACK1 \<Rightarrow> reply 0x5C (mc_goto MC_WRITE_ACK2 s)
      | MC_WRITE_ACK2 \<Rightarrow> reply 0x5D (mc_goto MC_WRITE_END s)
      | MC_WRITE_END \<Rightarrow> upd_mc (\<lambda>m. m\<lparr> mc_flag := 0x00 \<rparr>) (reply_last (mc_checksum (mc s)) (mc_goto MC_IDLE s)))"

definition mc_process_byte :: "u8 \<Rightarrow> sio \<Rightarrow> sio" where
  "mc_process_byte b s = byte_done (mc_step b s)"

section \<open>One byte on the bus\<close>

definition no_device :: "sio \<Rightarrow> sio" where
  "no_device s = stat_on (SIO_STAT_TX_RDY OR SIO_STAT_TX_EMPTY) (s\<lparr> sio_rx_data := 0xFF \<rparr>)"

definition byte_unselected :: "u8 \<Rightarrow> sio \<Rightarrow> sio" where
  "byte_unselected b s0 =
     (let s = s0\<lparr> selected_slot := ctrl_slot s0 \<rparr>
      in if b = 0x01
         then let s1 = (if mc_state (mc s) \<noteq> MC_IDLE then mc_goto MC_IDLE (mc_save_slot (mc_slot s) s) else s)
              in pad_process_byte b (s1\<lparr> active_device := DEV_PAD \<rparr>)
         else if b = 0x81
         then let s1 = mc_load_slot (selected_slot s) s;
                  s2 = (if mc_state (mc s1) \<noteq> MC_IDLE then mc_goto MC_IDLE s1 else s1)
              in mc_process_byte b (s2\<lparr> active_device := DEV_MEMCARD, mc_slot := selected_slot s2 \<rparr>)
         else let s1 = mc_load_slot (selected_slot s) s
              in if mc_state (mc s1) \<noteq> MC_IDLE \<and> selected_slot s1 = mc_slot s1
                 then mc_process_byte b (s1\<lparr> active_device := DEV_MEMCARD \<rparr>)
                 else no_device (mc_goto MC_IDLE s1))"

definition byte_to_card :: "u8 \<Rightarrow> sio \<Rightarrow> sio" where
  "byte_to_card b s =
     (if mc_state (mc s) = MC_IDLE
      then if b = 0x81 then mc_process_byte b s
           else let s1 = s\<lparr> active_device := DEV_NONE, selected_slot := ctrl_slot s \<rparr>
                in if b = 0x01 then pad_process_byte b (s1\<lparr> active_device := DEV_PAD \<rparr>) else no_device s1
      else mc_process_byte b s)"

definition sio_process_byte :: "u8 \<Rightarrow> sio \<Rightarrow> sio" where
  "sio_process_byte b s =
     (let s1 = (case active_device s of
                  DEV_NONE \<Rightarrow> byte_unselected b s
                | DEV_PAD \<Rightarrow> pad_process_byte b s
                | DEV_MEMCARD \<Rightarrow> byte_to_card b s)
      in s1\<lparr> sio_trace_seq := sio_trace_seq s1 + 1 \<rparr>)"

section \<open>The shifter and the acknowledge\<close>

type_synonym 'z sio_sys = "sio \<times> 'z sys_scheme"

definition on_sio :: "(sio \<Rightarrow> sio) \<Rightarrow> 'z sio_sys \<Rightarrow> 'z sio_sys" where
  "on_sio f p = (f (fst p), snd p)"

definition timing_idle_check :: "sio \<Rightarrow> sio" where
  "timing_idle_check s =
     (if \<not> sio_shift_active s \<and> \<not> sio_tx_buffered s \<and> \<not> sio_pending_ack s then s\<lparr> g_sio_timing_active := False \<rparr> else s)"

definition sio_consume_ack_event :: "sio \<Rightarrow> bool \<times> sio" where
  "sio_consume_ack_event s = (sio_stat s AND SIO_STAT_ACK \<noteq> 0, stat_off SIO_STAT_ACK s)"

definition raise_sio_irq :: "u32 \<Rightarrow> 'z sys_scheme \<Rightarrow> 'z sys_scheme" where
  "raise_sio_irq detail z = event_ring_record_aux EV_DEQ SRC_SIO detail (psx_irq_raise IRQ_SIO0 detail z)"

definition sio_fire_ack_irq :: "'z sio_sys \<Rightarrow> 'z sio_sys" where
  "sio_fire_ack_irq p =
     (let (s, z) = p;
          s1 = (stat_on SIO_STAT_ACK s)\<lparr> sio_ack_visible_reads := 2 \<rparr>;
          irq_enabled = (sio_pending_ack_irq_en s1 \<or> ctrl_on CTRL_ACK_IRQ_EN s1);
          s2 = s1\<lparr> sio_pending_ack_irq_en := False \<rparr>
      in if \<not> irq_enabled then (s2, z)
         else (timing_idle_check (stat_on SIO_STAT_IRQ s2), raise_sio_irq 0 z))"

definition sio_handle_shift_complete :: "sio \<Rightarrow> sio" where
  "sio_handle_shift_complete s =
     (let (acked, s1) = sio_consume_ack_event (sio_process_byte (sio_shift_byte s) s);
          s2 = stat_on SIO_STAT_RX_RDY (s1\<lparr> sio_shift_active := False \<rparr>);
          s3 = (if acked then s2\<lparr> sio_pending_ack := True, sio_ack_remaining := SIO_ACK_CYCLES_DEFAULT,
                                  sio_pending_ack_irq_en := sio_shift_ack_irq_en s2 \<rparr> else s2);
          s4 = (if sio_tx_buffered s3
                then stat_on SIO_STAT_TX_EMPTY
                       (s3\<lparr> sio_shift_byte := sio_tx_buffer s3, sio_shift_active := True,
                            sio_shift_remaining := SIO_BAUD_CYCLES_DEFAULT, sio_shift_ack_irq_en := sio_tx_buffer_ack_irq_en s3,
                            sio_tx_buffered := False, sio_tx_buffer_ack_irq_en := False,
                            sio_bus_byte_index := sio_bus_byte_index s3 + 1 \<rparr>)
                else stat_on (SIO_STAT_TX_RDY OR SIO_STAT_TX_EMPTY) s3)
      in timing_idle_check s4)"

datatype sio_event = Shift_event | Ack_event

text \<open>How far the scheduler may run before its next event, and which one it is.\<close>

definition next_transition :: "int \<Rightarrow> sio \<Rightarrow> int \<times> sio_event option" where
  "next_transition remaining s =
     (let r0 = (remaining, None);
          r1 = (if sio_shift_active s \<and> sio_shift_remaining s > 0 \<and> sio_shift_remaining s < fst r0
                then (sio_shift_remaining s, Some Shift_event) else r0);
          r2 = (if sio_pending_ack s \<and> sio_ack_remaining s > 0 \<and> sio_ack_remaining s < fst r1
                then (sio_ack_remaining s, Some Ack_event) else r1)
      in if sio_shift_active s \<and> sio_shift_remaining s \<le> 0 then (0, Some Shift_event)
         else if sio_pending_ack s \<and> sio_ack_remaining s \<le> 0 then (0, Some Ack_event)
         else r2)"

definition count_down :: "int \<Rightarrow> sio \<Rightarrow> sio" where
  "count_down dt s =
     s\<lparr> sio_shift_remaining := (if sio_shift_active s then sio_shift_remaining s - dt else sio_shift_remaining s),
        sio_ack_remaining := (if sio_pending_ack s then sio_ack_remaining s - dt else sio_ack_remaining s) \<rparr>"

text \<open>The loop of \<open>sio_advance\<close> and of \<open>sio_tick\<close>; only a turn with an event is followed by another.\<close>

primrec paced_loop :: "nat \<Rightarrow> int \<Rightarrow> 'z sio_sys \<Rightarrow> 'z sio_sys" where
  "paced_loop 0 remaining p = p"
| "paced_loop (Suc n) remaining p =
     (if remaining \<le> 0 then p
      else let (dt, ev) = next_transition remaining (fst p);
               p1 = on_sio (count_down dt) p
           in case ev of
                Some Shift_event \<Rightarrow> paced_loop n (remaining - dt) (on_sio sio_handle_shift_complete p1)
              | Some Ack_event \<Rightarrow>
                  paced_loop n (remaining - dt) (sio_fire_ack_irq (on_sio (\<lambda>s. s\<lparr> sio_pending_ack := False \<rparr>) p1))
              | None \<Rightarrow> p1)"

definition sio_advance :: "u32 \<Rightarrow> 'z sio_sys \<Rightarrow> 'z sio_sys" where
  "sio_advance cycles p =
     (if cycles = 0 then p
      else if \<not> g_sio_timing_active (fst p) then p
      else paced_loop MAX_TRANSITIONS (sint cycles) p)"

definition legacy_countdown :: "'z sio_sys \<Rightarrow> 'z sio_sys" where
  "legacy_countdown p =
     (let (s, z) = p
      in if sio_irq_pending s \<and> sio_irq_countdown s > 0
         then let s1 = s\<lparr> sio_irq_countdown := sio_irq_countdown s - 1 \<rparr>
              in if sio_irq_countdown s1 = 0
                 then (stat_on (SIO_STAT_TX_RDY OR SIO_STAT_TX_EMPTY)
                         (stat_on SIO_STAT_IRQ ((stat_on SIO_STAT_ACK (s1\<lparr> sio_irq_pending := False \<rparr>))\<lparr> sio_ack_visible_reads := 2 \<rparr>)),
                       raise_sio_irq 1 z)
                 else (s1, z)
         else (s, z))"

definition sio_tick :: "int \<Rightarrow> 'z sio_sys \<Rightarrow> 'z sio_sys" where
  "sio_tick cycles p = legacy_countdown (if cycles > 0 then paced_loop MAX_TRANSITIONS cycles p else p)"

definition sio_tick_quantum :: "'z sio_sys \<Rightarrow> 'z sio_sys" where
  "sio_tick_quantum p = sio_tick 64 p"

definition sio_cycles_to_irq :: "u32 \<Rightarrow> sio \<Rightarrow> u32" where
  "sio_cycles_to_irq mask_reg s =
     (if mask_reg AND 0x80 = 0 then 0xFFFFFFFF
      else let b0 = (0xFFFFFFFF :: u32);
               b1 = (if sio_irq_pending s \<and> sio_irq_countdown s > 0 \<and> word_of_int (sio_irq_countdown s) < b0
                     then word_of_int (sio_irq_countdown s) else b0);
               b2 = (if g_sio_timing_active s \<and> sio_pending_ack s \<and> sio_ack_remaining s > 0 \<and> word_of_int (sio_ack_remaining s) < b1
                     then word_of_int (sio_ack_remaining s) else b1)
           in if g_sio_timing_active s \<and> sio_shift_active s \<and> sio_shift_remaining s > 0 \<and> word_of_int (sio_shift_remaining s) < b2
              then word_of_int (sio_shift_remaining s) else b2)"

section \<open>Registers\<close>

text \<open>The shifter, the buffer and the acknowledge emptied.\<close>

definition drop_transfer :: "sio \<Rightarrow> sio" where
  "drop_transfer s =
     s\<lparr> sio_shift_active := False, sio_shift_remaining := 0, sio_tx_buffered := False, sio_shift_ack_irq_en := False,
        sio_tx_buffer_ack_irq_en := False, sio_pending_ack := False, sio_ack_remaining := 0, sio_pending_ack_irq_en := False \<rparr>"

definition release_bus :: "sio \<Rightarrow> sio" where
  "release_bus s = s\<lparr> sio_bus_owner := SIO_OWNER_NONE, sio_bus_byte_index := 0 \<rparr>"

definition stop_transfer :: "sio \<Rightarrow> sio" where
  "stop_transfer s = (release_bus (drop_transfer s))\<lparr> g_sio_timing_active := False \<rparr>"

definition fresh_slot :: mc_regs where
  "fresh_slot = \<lparr> mc_state = MC_IDLE, mc_cmd = 0, mc_sector = 0, mc_sector_msb = 0, mc_sector_lsb = 0, mc_data = (\<lambda>_. 0),
     mc_data_idx = 0, mc_checksum = 0, mc_flag = 0x08 \<rparr>"

definition sio_init :: "sio \<Rightarrow> sio" where
  "sio_init s =
     (let s1 = s\<lparr> sio_tx_data := 0, sio_rx_data := 0xFF, sio_stat := SIO_STAT_TX_RDY OR SIO_STAT_TX_EMPTY, sio_mode := 0,
                  sio_ctrl := 0, sio_baud := 0 \<rparr>;
          s2 = (pad_to_idle s1)\<lparr> pad_buttons := (pad_buttons s)(0 := 0xFFFF, 1 := 0xFFFF),
                  pad_in_config := (pad_in_config s)(0 := False, 1 := False), pad_type_req := (pad_type_req s)(0 := None, 1 := None),
                  analog_mode_locked := (analog_mode_locked s)(0 := False, 1 := False),
                  pad_negotiation := (\<lambda>i. if i < 2 then psx_pad_negotiation_reset
                     (psx_pad_negotiation_is_enabled (pad_negotiation s i)) (pad_negotiation s i) else pad_negotiation s i),
                  pad_connected := 0 \<rparr>;
          s3 = (mc_goto MC_IDLE s2)\<lparr> mc_slots := (mc_slots s)(0 := fresh_slot, 1 := fresh_slot), active_device := DEV_NONE,
                  sio_irq_pending := False, sio_irq_countdown := 0, sio_ack_visible_reads := 0 \<rparr>
      in stop_transfer s3)"

text \<open>The static initialisers of the file.\<close>

definition sio_power_on :: "card_st \<Rightarrow> sio" where
  "sio_power_on c =
     \<lparr> sio_tx_data = 0, sio_rx_data = 0, sio_stat = 0, sio_mode = 0, sio_ctrl = 0, sio_baud = 0,
       pad_buttons = (\<lambda>_. 0xFFFF), pad_analog = (\<lambda>_. False), pad_stick = (\<lambda>_ _. 0x80), analog_mode_locked = (\<lambda>_. False),
       pad_connected = 0, pad_state = PAD_IDLE, selected_slot = 0, pad_response = (\<lambda>_. 0), pad_response_len = 0,
       pad_response_idx = 0, pad_current_cmd = 0, pad_in_config = (\<lambda>_. False), pad_supports_config = (\<lambda>_. True),
       pad_negotiation = (\<lambda>_. \<lparr> neg_enabled = False, neg_state = NEGOTIATION_OFF, config_probe_streak = 0 \<rparr>),
       pad_type_req = (\<lambda>_. None), g_pad_legacy_cfg = False, mc = fresh_slot, mc_slot = 0, mc_slots = (\<lambda>_. fresh_slot),
       active_device = DEV_NONE, sio_trace_seq = 0, g_sio_timing_active = False, sio_shift_active = False, sio_shift_byte = 0,
       sio_shift_remaining = 0, sio_tx_buffered = False, sio_tx_buffer = 0, sio_shift_ack_irq_en = False,
       sio_tx_buffer_ack_irq_en = False, sio_pending_ack = False, sio_ack_remaining = 0, sio_pending_ack_irq_en = False,
       sio_bus_owner = SIO_OWNER_NONE, sio_bus_byte_index = 0, sio_irq_pending = False, sio_irq_countdown = 0,
       sio_ack_visible_reads = 0, mem_cards = c \<rparr>"

definition sio_read :: "u32 \<Rightarrow> 'z sio_sys \<Rightarrow> u32 \<times> 'z sio_sys" where
  "sio_read addr p0 =
     (let (s, z) = sio_tick 0 p0
      in if addr = 0x1F801040 then (ucast (sio_rx_data s), (stat_off SIO_STAT_RX_RDY s, z))
         else if addr = 0x1F801044
         then let observed = sio_stat s;
                  s1 = (if sio_ack_visible_reads s > 0
                        then let s2 = s\<lparr> sio_ack_visible_reads := sio_ack_visible_reads s - 1 \<rparr>
                             in if sio_ack_visible_reads s2 = 0 then stat_off SIO_STAT_ACK s2 else s2
                        else s)
              in (ucast observed, (s1, z))
         else if addr = 0x1F801048 then (ucast (sio_mode s), (s, z))
         else if addr = 0x1F80104A then (ucast (sio_ctrl s), (s, z))
         else if addr = 0x1F80104E then (ucast (sio_baud s), (s, z))
         else (0, (s, z)))"

definition sio_peek_stat :: "sio \<Rightarrow> u16" where
  "sio_peek_stat s = sio_stat s"

definition sio_peek_ctrl :: "sio \<Rightarrow> u16" where
  "sio_peek_ctrl s = sio_ctrl s"

definition sio_peek_rx_data :: "sio \<Rightarrow> u8" where
  "sio_peek_rx_data s = sio_rx_data s"

text \<open>A byte for a pad is processed at once and only its acknowledge is delayed; a byte for a card goes
  through the shifter.\<close>

definition tx_to_pad :: "u8 \<Rightarrow> 'z sio_sys \<Rightarrow> 'z sio_sys" where
  "tx_to_pad b p =
     (let (s, z) = p;
          s1 = (drop_transfer s)\<lparr> sio_bus_owner := SIO_OWNER_PAD, sio_bus_byte_index := sio_bus_byte_index s + 1,
                                  g_sio_timing_active := False \<rparr>;
          s2 = sio_process_byte b s1
      in if sio_stat s2 AND SIO_STAT_ACK \<noteq> 0 \<and> ctrl_on CTRL_ACK_IRQ_EN s2
         then let s3 = (stat_off (SIO_STAT_ACK OR SIO_STAT_TX_RDY OR SIO_STAT_TX_EMPTY) s2)
                         \<lparr> sio_pending_ack := True, sio_ack_remaining := SIO_BAUD_CYCLES_DEFAULT + SIO_ACK_CYCLES_DEFAULT,
                           sio_pending_ack_irq_en := True, g_sio_timing_active := True \<rparr>
              in (s3, event_ring_record_aux EV_ENQ SRC_SIO (word_of_int (sio_ack_remaining s3)) z)
         else (stat_on (SIO_STAT_TX_RDY OR SIO_STAT_TX_EMPTY) s2, z))"

definition tx_to_shifter :: "u8 \<Rightarrow> sio \<Rightarrow> sio" where
  "tx_to_shifter b s =
     (let s1 = (if sio_bus_byte_index s = 0
                then s\<lparr> sio_bus_owner := (if b = 0x81 then SIO_OWNER_CARD else if b = 0x01 then SIO_OWNER_PAD
                                         else SIO_OWNER_UNKNOWN) \<rparr> else s);
          s2 = s1\<lparr> sio_bus_byte_index := sio_bus_byte_index s1 + 1 \<rparr>
      in if \<not> sio_shift_active s2
         then stat_off (SIO_STAT_TX_RDY OR SIO_STAT_TX_EMPTY)
                (s2\<lparr> sio_shift_byte := b, sio_shift_active := True, sio_shift_remaining := SIO_BAUD_CYCLES_DEFAULT,
                     sio_shift_ack_irq_en := ctrl_on CTRL_ACK_IRQ_EN s2, g_sio_timing_active := True \<rparr>)
         else if \<not> sio_tx_buffered s2
         then stat_off SIO_STAT_TX_EMPTY
                (s2\<lparr> sio_tx_buffer := b, sio_tx_buffered := True, sio_tx_buffer_ack_irq_en := ctrl_on CTRL_ACK_IRQ_EN s2 \<rparr>)
         else s2)"

definition pad_fast_path :: "u8 \<Rightarrow> sio \<Rightarrow> bool" where
  "pad_fast_path b s \<longleftrightarrow>
     active_device s \<noteq> DEV_MEMCARD \<and> (active_device s = DEV_PAD \<or> sio_bus_owner s = SIO_OWNER_PAD \<or> b = 0x01)"

definition write_tx :: "u32 \<Rightarrow> 'z sio_sys \<Rightarrow> 'z sio_sys" where
  "write_tx value p0 =
     (let p = on_sio (\<lambda>s. s\<lparr> sio_tx_data := ucast value \<rparr>) p0; b = ucast value
      in if \<not> ctrl_on CTRL_TX_EN (fst p) then p
         else if pad_fast_path b (fst p) then tx_to_pad b p
         else on_sio (tx_to_shifter b) p)"

definition ctrl_reset :: "sio \<Rightarrow> sio" where
  "ctrl_reset s =
     (let s1 = pad_to_idle (s\<lparr> sio_stat := SIO_STAT_TX_RDY OR SIO_STAT_TX_EMPTY, sio_mode := 0, sio_ctrl := 0, sio_baud := 0 \<rparr>);
          idle = (\<lambda>m. m\<lparr> mc_state := MC_IDLE \<rparr>);
          s2 = (mc_goto MC_IDLE s1)\<lparr> mc_slots := (mc_slots s1)(0 := idle (mc_slots s1 0), 1 := idle (mc_slots s1 1)),
                  active_device := DEV_NONE, sio_irq_pending := False, sio_irq_countdown := 0, sio_ack_visible_reads := 0 \<rparr>
      in stop_transfer s2)"

definition ctrl_tx_disabled :: "u32 \<Rightarrow> sio \<Rightarrow> sio" where
  "ctrl_tx_disabled value s =
     (if sio_shift_active s \<or> sio_tx_buffered s \<or> sio_pending_ack s
      then let s1 = drop_transfer s;
               s2 = (if \<not> ctrl_has CTRL_SELECT value then release_bus s1 else s1)
           in stat_on (SIO_STAT_TX_RDY OR SIO_STAT_TX_EMPTY) (s2\<lparr> g_sio_timing_active := False \<rparr>)
      else s)"

definition slot_deselected :: "mc_regs \<Rightarrow> mc_regs" where
  "slot_deselected m =
     m\<lparr> mc_state := MC_IDLE, mc_cmd := 0, mc_sector := 0, mc_sector_msb := 0, mc_sector_lsb := 0, mc_data_idx := 0,
        mc_checksum := 0 \<rparr>"

definition ctrl_deselect :: "sio \<Rightarrow> sio" where
  "ctrl_deselect s =
     (let s1 = (if active_device s = DEV_MEMCARD \<and> mc_slot s \<le> 1
                then s\<lparr> mc_slots := (mc_slots s)(mc_slot s := (mc_slots s (mc_slot s))\<lparr> mc_flag := mc_flag (mc s) \<rparr>) \<rparr> else s);
          s2 = (mc_goto MC_IDLE s1)\<lparr> mc_slots := (mc_slots s1)(0 := slot_deselected (mc_slots s1 0), 1 := slot_deselected (mc_slots s1 1)) \<rparr>;
          s3 = (pad_to_idle s2)\<lparr> active_device := DEV_NONE \<rparr>
      in stat_on (SIO_STAT_TX_RDY OR SIO_STAT_TX_EMPTY) (stop_transfer s3))"

definition write_ctrl :: "u32 \<Rightarrow> sio \<Rightarrow> sio" where
  "write_ctrl value s0 =
     (let old = (ucast (sio_ctrl s0) :: u32);
          s1 = s0\<lparr> sio_ctrl := ucast value \<rparr>;
          s2 = (if ctrl_has CTRL_ACK value
                then (stat_off SIO_STAT_ACK (stat_off SIO_STAT_IRQ s1))\<lparr> sio_ack_visible_reads := 0 \<rparr> else s1);
          s3 = (if ctrl_has CTRL_RESET value then ctrl_reset s2 else s2);
          s4 = (if \<not> ctrl_has CTRL_SELECT old \<and> ctrl_has CTRL_SELECT value then release_bus s3 else s3);
          s5 = (if ctrl_has CTRL_TX_EN old \<and> \<not> ctrl_has CTRL_TX_EN value then ctrl_tx_disabled value s4 else s4)
      in if ctrl_has CTRL_SELECT old \<and> \<not> ctrl_has CTRL_SELECT value then ctrl_deselect s5 else s5)"

definition sio_write :: "u32 \<Rightarrow> u32 \<Rightarrow> 'z sio_sys \<Rightarrow> 'z sio_sys" where
  "sio_write addr value p =
     sio_tick 0
       (if addr = 0x1F801040 then write_tx value p
        else if addr = 0x1F801048 then on_sio (\<lambda>s. s\<lparr> sio_mode := ucast value \<rparr>) p
        else if addr = 0x1F80104A then on_sio (write_ctrl value) p
        else if addr = 0x1F80104E then on_sio (\<lambda>s. s\<lparr> sio_baud := ucast value \<rparr>) p
        else p)"

end
