(* ===== verification/Sio_Props.thy ===== *)
theory Sio_Props
  imports Sio
begin

text \<open>
  Correctness of the serial port: the invariant of every reachable state (all indices stay inside their
  arrays, pending work keeps the scheduler running), the card protocol as transactions on the memory
  cards, the coherence of pad polls, and the timing of the acknowledge.
\<close>

section \<open>Status bits\<close>

lemma stat_simps [simp]:
  "sio_stat (stat_on b s) = sio_stat s OR b" "sio_stat (stat_off b s) = sio_stat s AND NOT b"
  by (simp_all add: stat_on_def stat_off_def)

text \<open>The acknowledge as the shifter sees it: consumed with every byte.\<close>

definition ack_set :: "sio \<Rightarrow> bool" where
  "ack_set s \<longleftrightarrow> bit (sio_stat s) 7"

lemma ack_mask: "(w :: u16) AND 0x80 \<noteq> 0 \<longleftrightarrow> bit w 7"
  using and_power_two_iff [of w 7] by simp

definition bus_byte :: "u8 \<Rightarrow> sio \<Rightarrow> (u8 \<times> bool) \<times> sio" where
  "bus_byte b s = (let (acked, t) = sio_consume_ack_event (sio_process_byte b s) in ((sio_rx_data t, acked), t))"

fun exchange :: "u8 list \<Rightarrow> sio \<Rightarrow> (u8 \<times> bool) list \<times> sio" where
  "exchange [] s = ([], s)"
| "exchange (b # bs) s = (let (r, t) = bus_byte b s; (rs, u) = exchange bs t in (r # rs, u))"

lemma exchange_append:
  "exchange (bs @ cs) s = (let (r, t) = exchange bs s; (q, u) = exchange cs t in (r @ q, u))"
  by (induction bs arbitrary: s) (simp_all add: Let_def split: prod.splits)

section \<open>What a byte on the bus leaves alone\<close>

text \<open>The control register, the shifter and the acknowledge are out of the devices' reach.\<close>

definition timing_view :: "sio \<Rightarrow> (u16 \<times> bool \<times> bool \<times> u8 \<times> int) \<times> (bool \<times> u8 \<times> bool \<times> bool) \<times> (bool \<times> int \<times> bool) \<times> bool \<times> int \<times> int" where
  "timing_view s = ((sio_ctrl s, g_sio_timing_active s, sio_shift_active s, sio_shift_byte s, sio_shift_remaining s),
     (sio_tx_buffered s, sio_tx_buffer s, sio_shift_ack_irq_en s, sio_tx_buffer_ack_irq_en s),
     (sio_pending_ack s, sio_ack_remaining s, sio_pending_ack_irq_en s), (sio_irq_pending s, sio_irq_countdown s, sio_ack_visible_reads s))"

lemma timing_view_small [simp]:
  "timing_view (stat_on b s) = timing_view s" "timing_view (stat_off b s) = timing_view s" "timing_view (reply r s) = timing_view s"
  "timing_view (reply_last r s) = timing_view s" "timing_view (byte_done s) = timing_view s" "timing_view (pad_to_idle s) = timing_view s"
  "timing_view (upd_mc f s) = timing_view s" "timing_view (mc_goto p s) = timing_view s" "timing_view (set_response bs s) = timing_view s"
  "timing_view (apply_type_req i s) = timing_view s" "timing_view (no_device s) = timing_view s"
  "timing_view (mc_save_slot i s) = timing_view s" "timing_view (mc_load_slot i s) = timing_view s"
  by (simp_all add: timing_view_def stat_on_def stat_off_def reply_def reply_last_def byte_done_def pad_to_idle_def upd_mc_def mc_goto_def
      set_response_def apply_type_req_def no_device_def mc_save_slot_def mc_load_slot_def split: option.split)

lemma timing_view_updates [simp]:
  "timing_view (s\<lparr> sio_rx_data := x1 \<rparr>) = timing_view s" "timing_view (s\<lparr> pad_state := x2 \<rparr>) = timing_view s"
  "timing_view (s\<lparr> pad_response_idx := x3 \<rparr>) = timing_view s" "timing_view (s\<lparr> pad_current_cmd := x4 \<rparr>) = timing_view s"
  "timing_view (s\<lparr> pad_negotiation := x5 \<rparr>) = timing_view s" "timing_view (s\<lparr> pad_in_config := x6 \<rparr>) = timing_view s"
  "timing_view (s\<lparr> pad_analog := x7 \<rparr>) = timing_view s" "timing_view (s\<lparr> pad_type_req := x8 \<rparr>) = timing_view s"
  "timing_view (s\<lparr> analog_mode_locked := x9 \<rparr>) = timing_view s" "timing_view (s\<lparr> mc_slot := x10 \<rparr>) = timing_view s"
  "timing_view (s\<lparr> mc := x11 \<rparr>) = timing_view s" "timing_view (s\<lparr> mem_cards := x12 \<rparr>) = timing_view s"
  "timing_view (s\<lparr> active_device := x13 \<rparr>) = timing_view s" "timing_view (s\<lparr> selected_slot := x14 \<rparr>) = timing_view s"
  "timing_view (s\<lparr> sio_trace_seq := x15 \<rparr>) = timing_view s"
  by (simp_all add: timing_view_def)

lemma timing_view_pad [simp]: "timing_view (pad_process_byte b s) = timing_view s"
proof -
  have req: "timing_view (fold apply_type_req [0 ..< 2] s) = timing_view s" by (simp add: numeral_2_eq_2)
  have latch: "timing_view (pad_latch b u) = timing_view u" for u by (simp add: pad_latch_def Let_def)
  have step: "timing_view (pad_idle_byte b u) = timing_view u" "timing_view (pad_command_byte b u) = timing_view u"
    "timing_view (pad_response_byte b u) = timing_view u" for u
    by (simp_all add: pad_idle_byte_def pad_command_byte_def pad_response_byte_def latch Let_def)
  show ?thesis using req by (simp add: pad_process_byte_def Let_def step split: pad_phase.split)
qed

lemma timing_view_card [simp]: "timing_view (mc_process_byte b s) = timing_view s"
  by (simp add: mc_process_byte_def mc_step_def mc_begin_read_def mc_commit_def Let_def split: mc_phase.split)

lemma timing_view_process [simp]: "timing_view (sio_process_byte b s) = timing_view s"
  by (simp add: sio_process_byte_def byte_unselected_def byte_to_card_def Let_def split: sio_device.split)

section \<open>The card as a device\<close>

text \<open>The port is talking to the card in slot \<open>i\<close>, which holds \<open>m\<close>; the cards are \<open>c\<close> and no acknowledge is
  waiting.\<close>

definition card_at :: "nat \<Rightarrow> mc_regs \<Rightarrow> card_st \<Rightarrow> sio \<Rightarrow> bool" where
  "card_at i m c s \<longleftrightarrow> active_device s = DEV_MEMCARD \<and> mc_slot s = i \<and> mc s = m \<and> mem_cards s = c \<and> \<not> ack_set s"

text \<open>A byte is answered with \<open>r\<close> and leaves the card at \<open>m\<close>.\<close>

definition answers :: "u8 \<Rightarrow> sio \<Rightarrow> u8 \<Rightarrow> bool \<Rightarrow> nat \<Rightarrow> mc_regs \<Rightarrow> card_st \<Rightarrow> bool" where
  "answers b s r a i m c \<longleftrightarrow> fst (bus_byte b s) = (r, a) \<and> card_at i m c (snd (bus_byte b s))"

lemmas bus_defs = answers_def card_at_def ack_set_def bus_byte_def sio_consume_ack_event_def sio_process_byte_def
  byte_to_card_def mc_process_byte_def byte_done_def reply_def reply_last_def mc_goto_def upd_mc_def stat_on_def stat_off_def
  ack_mask bit_or_iff bit_and_iff bit_not_iff Let_def

lemma bit_status_constants [simp]:
  "bit (128 :: u16) 7" "\<not> bit (1 :: u16) 7" "\<not> bit (2 :: u16) 7" "\<not> bit (4 :: u16) 7" "\<not> bit (5 :: u16) 7" "\<not> bit (512 :: u16) 7"
  by (simp_all add: bit_numeral_rec)

lemma card_header:
  assumes "card_at i m c s"
  shows "mc_state m = MC_CMD \<Longrightarrow> b \<in> {0x52, 0x57, 0x53} \<Longrightarrow>
      answers b s (mc_flag m) True i (m\<lparr> mc_state := MC_ID1, mc_cmd := b, mc_flag := 0 \<rparr>) c"
    and "mc_state m = MC_CMD \<Longrightarrow> b \<notin> {0x52, 0x57, 0x53} \<Longrightarrow> answers b s 0xFF False i (m\<lparr> mc_state := MC_IDLE, mc_cmd := b \<rparr>) c"
    and "mc_state m = MC_ID1 \<Longrightarrow> answers b s 0x5A True i (m\<lparr> mc_state := MC_ID2 \<rparr>) c"
    and "mc_state m = MC_ID2 \<Longrightarrow>
      answers b s 0x5D True i (m\<lparr> mc_state := (if mc_cmd m = 0x53 then MC_GETID_1 else MC_ADDR_MSB) \<rparr>) c"
    and "mc_state m = MC_ADDR_MSB \<Longrightarrow> answers b s 0x00 True i (m\<lparr> mc_state := MC_ADDR_LSB, mc_sector_msb := b \<rparr>) c"
  using assms by (simp_all add: bus_defs mc_step_def)

lemma card_read_bytes:
  assumes "card_at i m c s"
  shows "mc_state m = MC_READ_ACK1 \<Longrightarrow> answers b s 0x5C True i (m\<lparr> mc_state := MC_READ_ACK2 \<rparr>) c"
    and "mc_state m = MC_READ_ACK2 \<Longrightarrow> answers b s 0x5D True i (m\<lparr> mc_state := MC_READ_MSB_ECHO \<rparr>) c"
    and "mc_state m = MC_READ_MSB_ECHO \<Longrightarrow> answers b s (mc_sector_msb m) True i (m\<lparr> mc_state := MC_READ_LSB_ECHO \<rparr>) c"
    and "mc_state m = MC_READ_LSB_ECHO \<Longrightarrow>
      answers b s (mc_sector_lsb m) True i (m\<lparr> mc_state := MC_READ_DATA, mc_data_idx := 0 \<rparr>) c"
    and "mc_state m = MC_READ_DATA \<Longrightarrow>
      answers b s (mc_data m (mc_data_idx m)) True i
        (m\<lparr> mc_state := (if mc_data_idx m + 1 \<ge> 128 then MC_READ_CHK else MC_READ_DATA), mc_data_idx := mc_data_idx m + 1 \<rparr>) c"
    and "mc_state m = MC_READ_CHK \<Longrightarrow> answers b s (mc_checksum m) True i (m\<lparr> mc_state := MC_READ_END \<rparr>) c"
    and "mc_state m = MC_READ_END \<Longrightarrow>
      answers b s (if mc_sector m < 1024 then 0x47 else 0xFF) False i (m\<lparr> mc_state := MC_IDLE \<rparr>) c"
  using assms by (simp_all add: bus_defs mc_step_def)

lemma card_id_bytes:
  assumes "card_at i m c s"
  shows "mc_state m = MC_GETID_1 \<Longrightarrow> answers b s 0x04 True i (m\<lparr> mc_state := MC_GETID_2 \<rparr>) c"
    and "mc_state m = MC_GETID_2 \<Longrightarrow> answers b s 0x00 True i (m\<lparr> mc_state := MC_GETID_3 \<rparr>) c"
    and "mc_state m = MC_GETID_3 \<Longrightarrow> answers b s 0x00 True i (m\<lparr> mc_state := MC_GETID_4 \<rparr>) c"
    and "mc_state m = MC_GETID_4 \<Longrightarrow> answers b s 0x80 False i (m\<lparr> mc_state := MC_IDLE \<rparr>) c"
  using assms by (simp_all add: bus_defs mc_step_def)

lemma card_write_bytes:
  assumes "card_at i m c s"
  shows "mc_state m = MC_WRITE_LSB_ECHO \<Longrightarrow> answers b s (mc_sector_lsb m) True i ((mc_store b m)\<lparr> mc_state := MC_WRITE_DATA \<rparr>) c"
    and "mc_state m = MC_WRITE_DATA \<Longrightarrow>
      answers b s 0x00 True i
        ((mc_store b m)\<lparr> mc_state := (if mc_data_idx m + 1 \<ge> 128 then MC_WRITE_CHK else MC_WRITE_DATA) \<rparr>) c"
    and "mc_state m = MC_WRITE_ACK1 \<Longrightarrow> answers b s 0x5C True i (m\<lparr> mc_state := MC_WRITE_ACK2 \<rparr>) c"
    and "mc_state m = MC_WRITE_ACK2 \<Longrightarrow> answers b s 0x5D True i (m\<lparr> mc_state := MC_WRITE_END \<rparr>) c"
    and "mc_state m = MC_WRITE_END \<Longrightarrow> answers b s (mc_checksum m) False i (m\<lparr> mc_state := MC_IDLE, mc_flag := 0 \<rparr>) c"
  using assms by (simp_all add: bus_defs mc_step_def mc_store_def)

text \<open>The address byte starts the read or the write.\<close>

definition read_data :: "nat \<Rightarrow> mc_regs \<Rightarrow> card_st \<Rightarrow> nat \<Rightarrow> u8" where
  "read_data i m c =
     (if mc_sector m < 1024
      then (case memcard_read_sector (int i) (uint (mc_sector m)) c of
              Some buf \<Rightarrow> (\<lambda>k. if k < 128 then buf ! k else mc_data m k)
            | None \<Rightarrow> mc_data m)
      else (\<lambda>k. if k < 128 then 0xFF else mc_data m k))"

lemma card_address_byte:
  assumes "card_at i m c s" and "mc_state m = MC_ADDR_LSB"
  shows "mc_cmd m = 0x52 \<Longrightarrow>
      answers b s 0x00 True i
        (let n = (mc_address b m)\<lparr> mc_data := read_data i (mc_address b m) c, mc_data_idx := 0 \<rparr>
         in n\<lparr> mc_checksum := sector_checksum n, mc_state := MC_READ_ACK1 \<rparr>) c"
    and "mc_cmd m \<noteq> 0x52 \<Longrightarrow>
      answers b s (mc_sector_msb m) True i ((mc_address b m)\<lparr> mc_state := MC_WRITE_LSB_ECHO, mc_data_idx := 0 \<rparr>) c"
  using assms by (auto simp add: bus_defs mc_step_def mc_begin_read_def mc_address_def read_data_def)

text \<open>The checksum byte ends a write: only a right one at a right address reaches the card.\<close>

lemma card_checksum_byte:
  fixes b :: u8
  assumes "card_at i m c s" and "mc_state m = MC_WRITE_CHK"
  defines "good \<equiv> b = sector_checksum m \<and> mc_sector m < 1024"
  shows "answers b s 0x00 True i
      (m\<lparr> mc_state := MC_WRITE_ACK1, mc_checksum := (if good then 0x47 else if mc_sector m \<ge> 1024 then 0xFF else 0x4E) \<rparr>)
      (if good then memcard_flush (int i) (snd (memcard_write_sector (int i) (uint (mc_sector m)) (sector_buffer m) c)) else c)"
  using assms by (auto simp add: bus_defs mc_step_def mc_commit_def sector_checksum_def sector_buffer_def)

section \<open>Transactions\<close>

text \<open>A run of the card from \<open>m\<close>: what it answers to \<open>bs\<close> and where it ends.\<close>

definition runs :: "nat \<Rightarrow> mc_regs \<Rightarrow> card_st \<Rightarrow> u8 list \<Rightarrow> (u8 \<times> bool) list \<Rightarrow> mc_regs \<Rightarrow> card_st \<Rightarrow> bool" where
  "runs i m c bs rs m' c' \<longleftrightarrow> (\<forall>s. card_at i m c s \<longrightarrow> fst (exchange bs s) = rs \<and> card_at i m' c' (snd (exchange bs s)))"

lemma runs_Nil: "runs i m c [] [] m c"
  by (simp add: runs_def)

lemma runs_Cons:
  assumes "\<And>s. card_at i m c s \<Longrightarrow> answers b s r a i m1 c1" and "runs i m1 c1 bs rs m' c'"
  shows "runs i m c (b # bs) ((r, a) # rs) m' c'"
  using assms unfolding runs_def answers_def
  by (auto simp: Let_def split: prod.splits) (metis fst_conv snd_conv)+

lemma runs_append:
  assumes "runs i m c bs rs m1 c1" and "runs i m1 c1 cs qs m' c'"
  shows "runs i m c (bs @ cs) (rs @ qs) m' c'"
  using assms unfolding runs_def exchange_append
  by (auto simp: Let_def split: prod.splits) (metis fst_conv snd_conv)+

text \<open>The same with the answer and the final state up to equality, for the fixed parts of a transaction.\<close>

lemma runs_byte:
  assumes "\<And>s. card_at i m c s \<Longrightarrow> answers b s r' a i m1 c1" and "r' = r" and "runs i m1 c1 bs rs m' c'"
  shows "runs i m c (b # bs) ((r, a) # rs) m' c'"
  using runs_Cons [OF assms(1,3)] assms(2) by simp

lemma runs_stop: "m = m' \<Longrightarrow> runs i m c [] [] m' c"
  by (simp add: runs_Nil)

text \<open>The 128 data bytes of a read, from index \<open>k\<close> on.\<close>

lemma read_data_run:
  assumes "mc_state m = MC_READ_DATA" and "mc_data_idx m < 128" and "length ds = 128 - mc_data_idx m"
  shows "runs i m c ds (map (\<lambda>k. (mc_data m k, True)) [mc_data_idx m ..< 128]) (m\<lparr> mc_state := MC_READ_CHK, mc_data_idx := 128 \<rparr>) c"
  using assms
proof (induction ds arbitrary: m)
  case (Cons d ds)
  let ?n = "m\<lparr> mc_state := (if mc_data_idx m + 1 \<ge> 128 then MC_READ_CHK else MC_READ_DATA), mc_data_idx := mc_data_idx m + 1 \<rparr>"
  have first: "[mc_data_idx m ..< 128] = mc_data_idx m # [mc_data_idx m + 1 ..< 128]"
    using Cons.prems(2) by (simp add: upt_conv_Cons)
  have rest: "runs i ?n c ds (map (\<lambda>k. (mc_data m k, True)) [mc_data_idx m + 1 ..< 128]) (m\<lparr> mc_state := MC_READ_CHK, mc_data_idx := 128 \<rparr>) c"
  proof (cases "mc_data_idx m + 1 < 128")
    case True
    then show ?thesis using Cons.IH [of ?n] Cons.prems by simp
  next
    case False
    then have "mc_data_idx m = 127" using Cons.prems(2) by simp
    moreover from this have "ds = []" using Cons.prems(3) by simp
    ultimately show ?thesis using runs_Nil [of i ?n c] by simp
  qed
  show ?case unfolding first list.map
    by (rule runs_Cons [OF _ rest]) (rule card_read_bytes(5) [OF _ Cons.prems(1)])
qed simp

text \<open>The data bytes of a write.\<close>

definition put_bytes :: "nat \<Rightarrow> u8 list \<Rightarrow> (nat \<Rightarrow> u8) \<Rightarrow> nat \<Rightarrow> u8" where
  "put_bytes k bs f = (\<lambda>j. if k \<le> j \<and> j < k + length bs then bs ! (j - k) else f j)"

lemma put_bytes_Cons: "put_bytes k (b # bs) f = put_bytes (Suc k) bs (f(k := b))"
proof (rule ext)
  fix j
  consider "j = k" | "j < k" | n where "j = Suc k + n" by (metis add.commute less_natE linorder_neqE_nat add_Suc)
  then show "put_bytes k (b # bs) f j = put_bytes (Suc k) bs (f(k := b)) j"
    by cases (auto simp: put_bytes_def)
qed

lemma put_bytes_Nil [simp]: "put_bytes k [] f = f"
  by (rule ext) (auto simp: put_bytes_def)

lemma write_data_run:
  assumes "mc_state m = MC_WRITE_DATA" and "mc_data_idx m < 128" and "length ds = 128 - mc_data_idx m"
  shows "runs i m c ds (replicate (length ds) (0, True))
      (m\<lparr> mc_state := MC_WRITE_CHK, mc_data := put_bytes (mc_data_idx m) ds (mc_data m), mc_data_idx := 128 \<rparr>) c"
  using assms
proof (induction ds arbitrary: m)
  case (Cons d ds)
  let ?n = "(mc_store d m)\<lparr> mc_state := (if mc_data_idx m + 1 \<ge> 128 then MC_WRITE_CHK else MC_WRITE_DATA) \<rparr>"
  let ?e = "m\<lparr> mc_state := MC_WRITE_CHK, mc_data := put_bytes (mc_data_idx m) (d # ds) (mc_data m), mc_data_idx := 128 \<rparr>"
  have rest: "runs i ?n c ds (replicate (length ds) (0, True)) ?e c"
  proof (cases "mc_data_idx m + 1 < 128")
    case True
    have "runs i ?n c ds (replicate (length ds) (0, True))
        (?n\<lparr> mc_state := MC_WRITE_CHK, mc_data := put_bytes (mc_data_idx ?n) ds (mc_data ?n), mc_data_idx := 128 \<rparr>) c"
      by (rule Cons.IH) (use True Cons.prems in \<open>simp_all add: mc_store_def\<close>)
    moreover have "?n\<lparr> mc_state := MC_WRITE_CHK, mc_data := put_bytes (mc_data_idx ?n) ds (mc_data ?n), mc_data_idx := 128 \<rparr> = ?e"
      by (simp add: mc_store_def put_bytes_Cons)
    ultimately show ?thesis by (simp only:)
  next
    case False
    then have "mc_data_idx m = 127" using Cons.prems(2) by simp
    moreover from this have "ds = []" using Cons.prems(3) by simp
    ultimately have "?n = ?e" "ds = []" by (simp_all add: mc_store_def put_bytes_Cons)
    then show ?thesis using runs_Nil [of i ?e c] by (simp only: list.size replicate_0)
  qed
  have "runs i m c (d # ds) ((0, True) # replicate (length ds) (0, True)) ?e c"
    by (rule runs_Cons [OF _ rest]) (rule card_write_bytes(2) [OF _ Cons.prems(1)])
  then show ?case by simp
qed simp

text \<open>What a transaction means: the sector an address names and the checksum over the bytes sent.\<close>

definition sector_of :: "u8 \<Rightarrow> u8 \<Rightarrow> int" where
  "sector_of msb lsb = 256 * uint msb + uint lsb"

definition card_checksum :: "u8 \<Rightarrow> u8 \<Rightarrow> u8 list \<Rightarrow> u8" where
  "card_checksum msb lsb bs = fold (\<lambda>b x. x XOR b) bs (msb XOR lsb)"

lemma sector_checksum_eq: "sector_checksum m = card_checksum (mc_sector_msb m) (mc_sector_lsb m) (sector_buffer m)"
  by (simp add: sector_checksum_def card_checksum_def sector_buffer_def fold_map comp_def)

lemma uint_address: "uint (push_bit 8 (ucast (msb :: u8)) OR ucast (lsb :: u8) :: u16) = sector_of msb lsb"
proof -
  have disj: "(push_bit 8 (ucast msb) :: u16) AND ucast lsb = 0"
    by (rule bit_word_eqI) (auto simp: bit_and_iff bit_push_bit_iff bit_ucast_iff dest: bit_imp_le_length)
  then have "push_bit 8 (ucast msb) OR ucast lsb = (push_bit 8 (ucast msb) + ucast lsb :: u16)"
    by (intro disjunctive_add [symmetric]) (metis bit_0_eq bit_and_iff bot_apply bot_bool_def)
  moreover have "uint msb < 256" "uint lsb < 256" using uint_lt2p [of msb] uint_lt2p [of lsb] by simp_all
  ultimately show ?thesis
    by (simp add: sector_of_def push_bit_eq_mult uint_word_ariths unsigned_ucast_eq take_bit_eq_mod)
qed

lemma mc_address_facts [simp]:
  "uint (mc_sector (mc_address lsb m)) = sector_of (mc_sector_msb m) lsb" "mc_sector_lsb (mc_address lsb m) = lsb"
  "mc_sector_msb (mc_address lsb m) = mc_sector_msb m" "mc_cmd (mc_address lsb m) = mc_cmd m" "mc_flag (mc_address lsb m) = mc_flag m"
  by (simp_all add: mc_address_def uint_address)

lemma sector_in_range: "mc_sector m < 1024 \<longleftrightarrow> uint (mc_sector m) < 1024"
  by (simp add: word_less_def)

lemma card_select:
  assumes "active_device s = DEV_NONE" and "memcard_is_present (int (ctrl_slot s)) (mem_cards s)"
  shows "answers 0x81 s 0xFF True (ctrl_slot s) ((mc_slots s (ctrl_slot s))\<lparr> mc_state := MC_CMD \<rparr>) (mem_cards s)"
proof -
  have "ctrl_slot s \<le> 1" by (simp add: ctrl_slot_def)
  then show ?thesis using assms by (simp add: bus_defs byte_unselected_def mc_load_slot_def mc_step_def)
qed

text \<open>The command, the identification and the high address byte.\<close>

lemma header_run:
  assumes "mc_state m = MC_CMD" and "cmd \<in> {0x52, 0x57}"
  shows "runs i m c [cmd, d1, d2, msb] [(mc_flag m, True), (0x5A, True), (0x5D, True), (0x00, True)]
      (m\<lparr> mc_state := MC_ADDR_LSB, mc_cmd := cmd, mc_flag := 0, mc_sector_msb := msb \<rparr>) c"
  apply (rule runs_byte, erule card_header(1), use assms in simp, use assms in blast, simp)
  apply (rule runs_byte, erule card_header(3), simp, simp)
  apply (rule runs_byte, erule card_header(4), simp, simp)
  apply (rule runs_byte, erule card_header(5), use assms in auto)
   apply (rule runs_stop, simp)+
  done

text \<open>A read, from the low address byte to the end mark.\<close>

lemma read_tail_run:
  assumes "mc_state m = MC_ADDR_LSB" and "mc_cmd m = 0x52" and "length ds = 128"
    and "memcard_read_sector (int i) (sector_of (mc_sector_msb m) lsb) c = Some buf"
  shows "\<exists>m'. mc_state m' = MC_IDLE \<and> mc_flag m' = mc_flag m \<and>
     runs i m c ([lsb, d3, d4, d5, d6] @ ds @ [d7, d8])
       ([(0x00, True), (0x5C, True), (0x5D, True), (mc_sector_msb m, True), (lsb, True)] @ map (\<lambda>b. (b, True)) buf @
        [(card_checksum (mc_sector_msb m) lsb buf, True), (0x47, False)]) m' c"
proof -
  have len: "length buf = 128" and range: "sector_of (mc_sector_msb m) lsb < 1024"
    using assms(4) by (auto simp: read_sector_eq valid_access_def split: if_splits)
  define n where "n = (mc_address lsb m)\<lparr> mc_data := read_data i (mc_address lsb m) c, mc_data_idx := 0 \<rparr>"
  define k where "k = n\<lparr> mc_checksum := sector_checksum n, mc_state := MC_READ_DATA \<rparr>"
  have data: "read_data i (mc_address lsb m) c = (\<lambda>k. if k < 128 then buf ! k else mc_data (mc_address lsb m) k)"
    using assms(4) range by (simp add: read_data_def sector_in_range)
  have buf: "sector_buffer n = buf" "map (mc_data n) [0 ..< 128] = buf"
    using len by (auto intro!: nth_equalityI simp: sector_buffer_def n_def data)
  have "runs i m c [lsb, d3, d4, d5, d6] [(0x00, True), (0x5C, True), (0x5D, True), (mc_sector_msb m, True), (lsb, True)] k c"
    apply (rule runs_byte, erule card_address_byte(1) [OF _ assms(1,2)], simp)
    apply (rule runs_byte, erule card_read_bytes(1), simp add: Let_def, simp)
    apply (rule runs_byte, erule card_read_bytes(2), simp, simp)
    apply (rule runs_byte, erule card_read_bytes(3), simp, simp add: Let_def)
    apply (rule runs_byte, erule card_read_bytes(4), simp, simp add: Let_def)
    apply (rule runs_stop, simp add: k_def n_def Let_def)
    done
  moreover have "runs i k c ds (map (\<lambda>b. (b, True)) buf) (k\<lparr> mc_state := MC_READ_CHK, mc_data_idx := 128 \<rparr>) c"
  proof -
    have "map (\<lambda>j. (mc_data k j, True)) [0 ..< 128] = map (\<lambda>b. (b, True)) (map (mc_data n) [0 ..< 128])"
      by (simp add: k_def)
    then show ?thesis using read_data_run [of k ds i c] assms(3) unfolding buf(2) by (simp add: k_def n_def)
  qed
  moreover have "runs i (k\<lparr> mc_state := MC_READ_CHK, mc_data_idx := 128 \<rparr>) c [d7, d8]
      [(card_checksum (mc_sector_msb m) lsb buf, True), (0x47, False)] (k\<lparr> mc_state := MC_IDLE, mc_data_idx := 128 \<rparr>) c"
    apply (rule runs_byte, erule card_read_bytes(6), simp, simp add: k_def sector_checksum_eq buf(1), simp add: n_def)
    apply (rule runs_byte, erule card_read_bytes(7), simp, use range in \<open>simp add: k_def n_def sector_in_range\<close>)
    apply (rule runs_stop, simp)
    done
  ultimately have "runs i m c ([lsb, d3, d4, d5, d6] @ ds @ [d7, d8])
       ([(0x00, True), (0x5C, True), (0x5D, True), (mc_sector_msb m, True), (lsb, True)] @ map (\<lambda>b. (b, True)) buf @
        [(card_checksum (mc_sector_msb m) lsb buf, True), (0x47, False)]) (k\<lparr> mc_state := MC_IDLE, mc_data_idx := 128 \<rparr>) c"
    by (intro runs_append)
  then show ?thesis by (intro exI conjI) (auto simp: k_def n_def)
qed

text \<open>A write, from the low address byte to the end mark.\<close>

definition write_status :: "int \<Rightarrow> bool \<Rightarrow> u8" where
  "write_status sector good = (if sector \<ge> 1024 then 0xFF else if good then 0x47 else 0x4E)"

definition card_write :: "nat \<Rightarrow> int \<Rightarrow> u8 list \<Rightarrow> bool \<Rightarrow> card_st \<Rightarrow> card_st" where
  "card_write i sector buf good c =
     (if good \<and> sector < 1024 then memcard_flush (int i) (snd (memcard_write_sector (int i) sector buf c)) else c)"

lemma write_tail_run:
  fixes lsb chk :: u8
  assumes "mc_state m = MC_ADDR_LSB" and "mc_cmd m = 0x57" and "length buf = 128"
  defines "sector \<equiv> sector_of (mc_sector_msb m) lsb" and "good \<equiv> chk = card_checksum (mc_sector_msb m) lsb buf"
  shows "\<exists>m'. mc_state m' = MC_IDLE \<and> mc_flag m' = 0 \<and>
     runs i m c ([lsb] @ buf @ [chk, d3, d4, d5])
       ([(mc_sector_msb m, True), (lsb, True)] @ replicate 127 (0x00, True) @
        [(0x00, True), (0x5C, True), (0x5D, True), (write_status sector good, False)]) m' (card_write i sector buf good c)"
proof -
  obtain b bs where buf: "buf = b # bs" "length bs = 127" using assms(3) by (cases buf) auto
  define n where "n = (mc_address lsb m)\<lparr> mc_state := MC_WRITE_LSB_ECHO, mc_data_idx := 0 \<rparr>"
  define k where "k = (mc_store b n)\<lparr> mc_state := MC_WRITE_DATA \<rparr>"
  define e where "e = k\<lparr> mc_state := MC_WRITE_CHK, mc_data := put_bytes 1 bs (mc_data k), mc_data_idx := 128 \<rparr>"
  have "sector_buffer e = buf"
    using buf by (intro nth_equalityI) (auto simp: sector_buffer_def e_def k_def n_def mc_store_def put_bytes_def nth_Cons split: nat.splits)
  then have e: "sector_checksum e = card_checksum (mc_sector_msb m) lsb buf" "sector_buffer e = buf" "uint (mc_sector e) = sector"
    by (simp_all add: sector_checksum_eq) (simp_all add: e_def k_def n_def mc_store_def sector_def)
  have "runs i m c [lsb, b] [(mc_sector_msb m, True), (lsb, True)] k c"
    apply (rule runs_byte, erule card_address_byte(2) [OF _ assms(1)], use assms(2) in simp, simp)
    apply (rule runs_byte, erule card_write_bytes(1), simp, simp)
    apply (rule runs_stop, simp add: k_def n_def)
    done
  moreover have "runs i k c bs (replicate 127 (0, True)) e c"
    using write_data_run [of k bs i c] buf(2) by (simp add: k_def e_def n_def mc_store_def)
  moreover have "runs i e c [chk, d3, d4, d5] [(0x00, True), (0x5C, True), (0x5D, True), (write_status sector good, False)]
      (e\<lparr> mc_state := MC_IDLE, mc_checksum := write_status sector good, mc_flag := 0 \<rparr>) (card_write i sector buf good c)"
  proof -
    have range: "mc_sector e < 1024 \<longleftrightarrow> sector < 1024" "mc_sector e \<ge> 1024 \<longleftrightarrow> sector \<ge> 1024"
      by (simp_all add: word_less_def word_le_def e(3))
    have "mc_state e = MC_WRITE_CHK" by (simp add: e_def)
    note card_checksum_byte [OF _ this, of i c _ chk, unfolded e range]
    then have chk: "answers chk s 0x00 True i (e\<lparr> mc_state := MC_WRITE_ACK1, mc_checksum := write_status sector good \<rparr>) (card_write i sector buf good c)"
      if "card_at i e c s" for s
      using that unfolding write_status_def card_write_def good_def by (auto simp: not_le split: if_splits)
    show ?thesis
      apply (rule runs_byte, erule chk, simp)
      apply (rule runs_byte, erule card_write_bytes(3), simp, simp)
      apply (rule runs_byte, erule card_write_bytes(4), simp, simp)
      apply (rule runs_byte, erule card_write_bytes(5), simp, simp)
      apply (rule runs_stop, simp)
      done
  qed
  ultimately have "runs i m c ([lsb, b] @ bs @ [chk, d3, d4, d5])
       ([(mc_sector_msb m, True), (lsb, True)] @ replicate 127 (0x00, True) @
        [(0x00, True), (0x5C, True), (0x5D, True), (write_status sector good, False)])
       (e\<lparr> mc_state := MC_IDLE, mc_checksum := write_status sector good, mc_flag := 0 \<rparr>) (card_write i sector buf good c)"
    by (intro runs_append)
  then show ?thesis unfolding buf(1) by (intro exI conjI) auto
qed

text \<open>The bytes of whole transactions, as the console sends them (with fillers \<open>f\<close>) and as the card answers
  them, each with its acknowledge.\<close>

definition read_request :: "u8 \<Rightarrow> u8 \<Rightarrow> (nat \<Rightarrow> u8) \<Rightarrow> u8 list" where
  "read_request msb lsb f = [0x81, 0x52, f 0, f 1, msb, lsb, f 2, f 3, f 4, f 5] @ map (\<lambda>i. f (6 + i)) [0 ..< 128] @ [f 134, f 135]"

definition read_reply :: "u8 \<Rightarrow> u8 \<Rightarrow> u8 \<Rightarrow> u8 list \<Rightarrow> (u8 \<times> bool) list" where
  "read_reply flag msb lsb buf =
     map (\<lambda>b. (b, True)) ([0xFF, flag, 0x5A, 0x5D, 0x00, 0x00, 0x5C, 0x5D, msb, lsb] @ buf @ [card_checksum msb lsb buf]) @
     [(0x47, False)]"

definition write_request :: "u8 \<Rightarrow> u8 \<Rightarrow> u8 list \<Rightarrow> u8 \<Rightarrow> (nat \<Rightarrow> u8) \<Rightarrow> u8 list" where
  "write_request msb lsb buf chk f = [0x81, 0x57, f 0, f 1, msb, lsb] @ buf @ [chk, f 2, f 3, f 4]"

definition write_reply :: "u8 \<Rightarrow> u8 \<Rightarrow> u8 \<Rightarrow> u8 \<Rightarrow> (u8 \<times> bool) list" where
  "write_reply flag msb lsb status =
     map (\<lambda>b. (b, True)) ([0xFF, flag, 0x5A, 0x5D, 0x00, msb, lsb] @ replicate 127 0x00 @ [0x00, 0x5C, 0x5D]) @ [(status, False)]"

lemma exchange_from_select:
  assumes "active_device s = DEV_NONE" and "memcard_is_present (int (ctrl_slot s)) (mem_cards s)"
    and "runs (ctrl_slot s) ((mc_slots s (ctrl_slot s))\<lparr> mc_state := MC_CMD \<rparr>) (mem_cards s) bs rs m' c'"
  shows "fst (exchange (0x81 # bs) s) = (0xFF, True) # rs" "card_at (ctrl_slot s) m' c' (snd (exchange (0x81 # bs) s))"
  using card_select [OF assms(1,2)] assms(3) by (auto simp: runs_def answers_def split: prod.splits)

lemma read_implies_present: "memcard_read_sector (int i) k c = Some buf \<Longrightarrow> memcard_is_present (int i) c"
  by (auto simp: read_sector_eq valid_access_def memcard_is_present_def split: if_splits)

lemma read_exchange:
  assumes "active_device s = DEV_NONE" and "memcard_read_sector (int (ctrl_slot s)) (sector_of msb lsb) (mem_cards s) = Some buf"
  shows "\<exists>m'. fst (exchange (read_request msb lsb f) s) = read_reply (mc_flag (mc_slots s (ctrl_slot s))) msb lsb buf \<and>
     mc_state m' = MC_IDLE \<and> mc_flag m' = 0 \<and> card_at (ctrl_slot s) m' (mem_cards s) (snd (exchange (read_request msb lsb f) s))"
proof -
  let ?i = "ctrl_slot s" and ?ds = "map (\<lambda>i. f (6 + i)) [0 ..< 128]"
  define m where "m = (mc_slots s ?i)\<lparr> mc_state := MC_CMD \<rparr>"
  define m1 where "m1 = m\<lparr> mc_state := MC_ADDR_LSB, mc_cmd := 0x52, mc_flag := 0, mc_sector_msb := msb \<rparr>"
  have head: "runs ?i m (mem_cards s) [0x52, f 0, f 1, msb] [(mc_flag m, True), (0x5A, True), (0x5D, True), (0x00, True)] m1 (mem_cards s)"
    unfolding m1_def by (rule header_run) (simp_all add: m_def)
  obtain m' where m': "mc_state m' = MC_IDLE" "mc_flag m' = 0"
    and tail: "runs ?i m1 (mem_cards s) ([lsb, f 2, f 3, f 4, f 5] @ ?ds @ [f 134, f 135])
       ([(0x00, True), (0x5C, True), (0x5D, True), (msb, True), (lsb, True)] @ map (\<lambda>b. (b, True)) buf @
        [(card_checksum msb lsb buf, True), (0x47, False)]) m' (mem_cards s)"
    using read_tail_run [of m1 ?ds ?i lsb "mem_cards s" buf "f 2" "f 3" "f 4" "f 5" "f 134" "f 135"] assms(2) by (auto simp: m1_def)
  show ?thesis
    using exchange_from_select [OF assms(1) read_implies_present [OF assms(2)] runs_append [OF head tail, unfolded m_def]] m'
    by (intro exI [of _ m']) (simp add: read_request_def read_reply_def)
qed

lemma write_exchange:
  assumes "active_device s = DEV_NONE" and "memcard_is_present (int (ctrl_slot s)) (mem_cards s)" and "length buf = 128"
  shows "\<exists>m'. fst (exchange (write_request msb lsb buf chk f) s) =
       write_reply (mc_flag (mc_slots s (ctrl_slot s))) msb lsb (write_status (sector_of msb lsb) (chk = card_checksum msb lsb buf)) \<and>
     mc_state m' = MC_IDLE \<and> mc_flag m' = 0 \<and>
     card_at (ctrl_slot s) m' (card_write (ctrl_slot s) (sector_of msb lsb) buf (chk = card_checksum msb lsb buf) (mem_cards s))
       (snd (exchange (write_request msb lsb buf chk f) s))"
proof -
  let ?i = "ctrl_slot s"
  define m where "m = (mc_slots s ?i)\<lparr> mc_state := MC_CMD \<rparr>"
  define m1 where "m1 = m\<lparr> mc_state := MC_ADDR_LSB, mc_cmd := 0x57, mc_flag := 0, mc_sector_msb := msb \<rparr>"
  have head: "runs ?i m (mem_cards s) [0x57, f 0, f 1, msb] [(mc_flag m, True), (0x5A, True), (0x5D, True), (0x00, True)] m1 (mem_cards s)"
    unfolding m1_def by (rule header_run) (simp_all add: m_def)
  obtain m' where m': "mc_state m' = MC_IDLE" "mc_flag m' = 0"
    and tail: "runs ?i m1 (mem_cards s) ([lsb] @ buf @ [chk, f 2, f 3, f 4])
       ([(msb, True), (lsb, True)] @ replicate 127 (0x00, True) @
        [(0x00, True), (0x5C, True), (0x5D, True), (write_status (sector_of msb lsb) (chk = card_checksum msb lsb buf), False)]) m'
       (card_write ?i (sector_of msb lsb) buf (chk = card_checksum msb lsb buf) (mem_cards s))"
    using write_tail_run [where m = m1 and buf = buf and lsb = lsb and chk = chk and i = ?i and c = "mem_cards s" and ?d3.0 = "f 2"
        and ?d4.0 = "f 3" and ?d5.0 = "f 4"] assms(3) by (auto simp: m1_def)
  show ?thesis
    using exchange_from_select [OF assms(1,2) runs_append [OF head tail, unfolded m_def]] m'
    by (intro exI [of _ m']) (simp add: write_request_def write_reply_def)
qed

lemma ctrl_of_view: "timing_view s = timing_view t \<Longrightarrow> ctrl_slot s = ctrl_slot t"
  by (simp add: timing_view_def ctrl_slot_def ctrl_on_def)

lemma exchange_ctrl_slot: "ctrl_slot (snd (exchange bs s)) = ctrl_slot s"
proof (induction bs arbitrary: s)
  case (Cons b bs)
  have "ctrl_slot (snd (bus_byte b s)) = ctrl_slot s"
    by (rule ctrl_of_view) (simp add: bus_byte_def sio_consume_ack_event_def Let_def)
  then show ?case using Cons.IH [of "snd (bus_byte b s)"] by (auto simp: Let_def split: prod.splits)
qed simp

text \<open>The drop of SELECT ends the conversation: no device is addressed, the card keeps its flag.\<close>

lemma deselect_fields:
  "active_device (ctrl_deselect s) = DEV_NONE" "mem_cards (ctrl_deselect s) = mem_cards s" "sio_ctrl (ctrl_deselect s) = sio_ctrl s"
  by (simp_all add: ctrl_deselect_def Let_def stop_transfer_def release_bus_def drop_transfer_def pad_to_idle_def mc_goto_def upd_mc_def stat_on_def)

lemma deselect_flag:
  assumes "active_device s = DEV_MEMCARD" and "i \<le> 1" and "mc_slot s = i"
  shows "mc_flag (mc_slots (ctrl_deselect s) i) = mc_flag (mc s)"
proof -
  have "mc_slots (ctrl_deselect s) i = slot_deselected ((mc_slots s i)\<lparr> mc_flag := mc_flag (mc s) \<rparr>)"
    using assms by (cases "i = 0")
      (simp_all add: le_Suc_eq ctrl_deselect_def Let_def stop_transfer_def release_bus_def drop_transfer_def pad_to_idle_def mc_goto_def upd_mc_def stat_on_def)
  then show ?thesis by (simp add: slot_deselected_def)
qed

lemma deselect_after_card:
  assumes "card_at i m c s" and "i \<le> 1"
  shows "active_device (ctrl_deselect s) = DEV_NONE" "mem_cards (ctrl_deselect s) = c"
    and "mc_flag (mc_slots (ctrl_deselect s) i) = mc_flag m" "ctrl_slot (ctrl_deselect s) = ctrl_slot s"
  using assms deselect_flag [of s i] by (simp_all add: card_at_def deselect_fields ctrl_slot_def ctrl_on_def)

lemma flush_keeps_reads: "memcard_read_sector slot k (memcard_flush j c) = memcard_read_sector slot k c"
proof -
  have "present (cards (memcard_flush j c) i) = present (cards c i)" "card_data (cards (memcard_flush j c) i) = card_data (cards c i)" for i
    by (auto simp: memcard_flush_def write_file_def upd_card_def Let_def split: list.splits write_outcome.splits)
  then show ?thesis by (simp add: memcard_read_sector_def)
qed

text \<open>C2. A write on the wire is a write to the card: the card answers each byte of the request with the
  acknowledge, and at the end the sector is written and flushed if the address exists and the checksum
  over the address and the 128 bytes is right; otherwise the last byte reports the error (0xFF or 0x4E)
  and nothing is written.\<close>

theorem card_write_transaction:
  assumes "active_device s = DEV_NONE" and "memcard_is_present (int (ctrl_slot s)) (mem_cards s)" and "length buf = 128"
  shows "let slot = ctrl_slot s; sector = sector_of msb lsb; good = (chk = card_checksum msb lsb buf);
             (rs, t) = exchange (write_request msb lsb buf chk f) s
     in rs = write_reply (mc_flag (mc_slots s slot)) msb lsb (if sector \<ge> 1024 then 0xFF else if good then 0x47 else 0x4E) \<and>
        mem_cards t = (if good \<and> sector < 1024
                       then memcard_flush (int slot) (snd (memcard_write_sector (int slot) sector buf (mem_cards s)))
                       else mem_cards s) \<and>
        mc_state (mc t) = MC_IDLE"
  using write_exchange [OF assms, of msb lsb chk f]
  by (auto simp: card_at_def write_status_def card_write_def Let_def split: prod.splits)

text \<open>A console that has just been switched on, with one card in the first slot.\<close>

definition demo_sio :: sio where
  "demo_sio = sio_power_on demo_cards"

lemma demo_sio_facts:
  "active_device demo_sio = DEV_NONE" "mem_cards demo_sio = demo_cards" "ctrl_slot demo_sio = 0"
  "memcard_is_present 0 demo_cards" "memcard_read_sector 0 3 demo_cards = Some (replicate 128 0)" "valid_access 0 3 demo_cards"
  by (simp_all add: demo_sio_def sio_power_on_def demo_cards_def ctrl_slot_def ctrl_on_def ctrl_has_def memcard_is_present_def
      memcard_read_sector_def valid_access_def zero_card_def map_replicate_const)

theorem card_write_transaction_witness:
  "let (rs, t) = exchange (write_request 0 3 (replicate 128 7) 9 (\<lambda>_. 0)) demo_sio
   in last rs = (if 9 = card_checksum 0 3 (replicate 128 7) then 0x47 else 0x4E, False) \<and> mc_state (mc t) = MC_IDLE"
  using card_write_transaction [of demo_sio "replicate 128 7" 0 3 9 "\<lambda>_. 0"]
  by (auto simp: demo_sio_facts sector_of_def write_reply_def Let_def split: prod.splits)

text \<open>What is written over the wire is read back over the wire: after a good write and the drop of
  SELECT, a read of the same sector returns the written bytes and a read of any other sector what it
  held before, both with their checksum and without the new-card flag.\<close>

lemma card_write_then_read:
  assumes "active_device s = DEV_NONE" and "valid_access (int (ctrl_slot s)) (sector_of msb lsb) (mem_cards s)" and "length buf = 128"
    and "memcard_read_sector (int (ctrl_slot s)) (sector_of msb' lsb') (mem_cards s) = Some old"
  shows "let t = snd (exchange (write_request msb lsb buf (card_checksum msb lsb buf) f) s)
     in fst (exchange (read_request msb' lsb' f') (ctrl_deselect t)) =
        read_reply 0 msb' lsb' (if sector_of msb' lsb' = sector_of msb lsb then buf else old)"
proof -
  let ?i = "ctrl_slot s" and ?chk = "card_checksum msb lsb buf"
  define t where "t = snd (exchange (write_request msb lsb buf ?chk f) s)"
  have le: "?i \<le> 1" by (simp add: ctrl_slot_def)
  have "memcard_is_present (int ?i) (mem_cards s)"
    using assms(2) by (simp add: valid_access_def memcard_is_present_def)
  from write_exchange [OF assms(1) this assms(3), of msb lsb ?chk f] obtain m'
    where m': "mc_flag m' = 0"
      and at: "card_at ?i m' (card_write ?i (sector_of msb lsb) buf True (mem_cards s)) t"
    by (auto simp: t_def)
  let ?u = "ctrl_deselect t"
  have slot: "ctrl_slot ?u = ?i"
    using deselect_after_card(4) [OF at le] exchange_ctrl_slot [of "write_request msb lsb buf ?chk f" s] by (simp add: t_def)
  have "memcard_read_sector (int ?i) (sector_of msb' lsb') (mem_cards ?u) =
      Some (if sector_of msb' lsb' = sector_of msb lsb then buf else old)"
    using deselect_after_card(2) [OF at le] read_after_write [OF assms(2,3), of "sector_of msb' lsb'"] assms(2,4)
    by (simp add: card_write_def flush_keeps_reads valid_access_def)
  from read_exchange [of ?u msb' lsb', unfolded slot, OF deselect_after_card(1) [OF at le] this, of f']
  show ?thesis
    using deselect_after_card(3) [OF at le] m' by (auto simp: t_def)
qed

section \<open>The wire as a store\<close>

text \<open>A sector read over the wire counts when it ends with the good mark; a write carries its checksum and
  ends with the drop of SELECT. Both are addressed by the two address bytes.\<close>

definition wire_read :: "u8 \<times> u8 \<Rightarrow> sio \<Rightarrow> u8 list option" where
  "wire_read k s =
     (let rs = fst (exchange (read_request (fst k) (snd k) (\<lambda>_. 0)) s)
      in if last rs = (0x47, False) then Some (map fst (take 128 (drop 10 rs))) else None)"

definition wire_write :: "u8 \<times> u8 \<Rightarrow> u8 list \<Rightarrow> sio \<Rightarrow> sio" where
  "wire_write k buf s =
     ctrl_deselect (snd (exchange (write_request (fst k) (snd k) buf (card_checksum (fst k) (snd k) buf) (\<lambda>_. 0)) s))"

definition wire_valid :: "u8 \<times> u8 \<Rightarrow> sio \<Rightarrow> bool" where
  "wire_valid k s \<longleftrightarrow> active_device s = DEV_NONE \<and> valid_access (int (ctrl_slot s)) (sector_of (fst k) (snd k)) (mem_cards s)"

lemma sector_of_inject: "sector_of m l = sector_of m' l' \<longleftrightarrow> m = m' \<and> l = l'"
proof
  assume eq: "sector_of m l = sector_of m' l'"
  have "sector_of x y mod 256 = uint y \<and> sector_of x y div 256 = uint x" for x y :: u8
    using uint_lt2p [of y] by (simp add: sector_of_def)
  then have "uint m = uint m'" "uint l = uint l'" using eq by metis+
  then show "m = m' \<and> l = l'" by (simp add: word_uint_eq_iff)
qed simp

lemma wire_read_eq:
  assumes "wire_valid k s"
  shows "wire_read k s = memcard_read_sector (int (ctrl_slot s)) (sector_of (fst k) (snd k)) (mem_cards s)"
proof -
  obtain buf where buf: "memcard_read_sector (int (ctrl_slot s)) (sector_of (fst k) (snd k)) (mem_cards s) = Some buf"
    using assms by (simp add: wire_valid_def read_sector_eq)
  then have "length buf = 128" by (auto simp: read_sector_eq split: if_splits)
  moreover have "fst (exchange (read_request (fst k) (snd k) (\<lambda>_. 0)) s) =
      read_reply (mc_flag (mc_slots s (ctrl_slot s))) (fst k) (snd k) buf"
    using read_exchange [OF _ buf] assms by (auto simp: wire_valid_def)
  ultimately show ?thesis unfolding buf by (simp add: wire_read_def read_reply_def comp_def)
qed

lemma wire_write_facts:
  assumes "wire_valid k s" and "length buf = 128"
  shows "active_device (wire_write k buf s) = DEV_NONE" "ctrl_slot (wire_write k buf s) = ctrl_slot s"
    and "memcard_read_sector slot j (mem_cards (wire_write k buf s)) =
      memcard_read_sector slot j (snd (memcard_write_sector (int (ctrl_slot s)) (sector_of (fst k) (snd k)) buf (mem_cards s)))"
proof -
  let ?i = "ctrl_slot s" and ?chk = "card_checksum (fst k) (snd k) buf"
  let ?t = "snd (exchange (write_request (fst k) (snd k) buf ?chk (\<lambda>_. 0)) s)"
  have le: "?i \<le> 1" by (simp add: ctrl_slot_def)
  have "active_device s = DEV_NONE" "memcard_is_present (int ?i) (mem_cards s)" and small: "sector_of (fst k) (snd k) < 1024"
    using assms(1) by (simp_all add: wire_valid_def valid_access_def memcard_is_present_def)
  from write_exchange [OF this(1,2) assms(2), of "fst k" "snd k" ?chk "\<lambda>_. 0"] obtain m'
    where at: "card_at ?i m' (card_write ?i (sector_of (fst k) (snd k)) buf True (mem_cards s)) ?t" by auto
  note d = deselect_after_card [OF at le]
  show "active_device (wire_write k buf s) = DEV_NONE" using d(1) by (simp add: wire_write_def)
  show "ctrl_slot (wire_write k buf s) = ctrl_slot s" using d(4) exchange_ctrl_slot by (simp add: wire_write_def)
  show "memcard_read_sector slot j (mem_cards (wire_write k buf s)) =
      memcard_read_sector slot j (snd (memcard_write_sector (int ?i) (sector_of (fst k) (snd k)) buf (mem_cards s)))"
    using d(2) small by (simp add: wire_write_def card_write_def flush_keeps_reads)
qed

lemma valid_access_iff_read: "valid_access slot k c \<longleftrightarrow> memcard_read_sector slot k c \<noteq> None"
  by (simp add: read_sector_eq)

interpretation wire: cell_store wire_valid "\<lambda>buf. length buf = 128" wire_read wire_write
proof (unfold_locales, goal_cases)
  case (1 k s buf j)
  note w = wire_write_facts [OF 1]
  show ?case
    using 1 card_sectors.valid_put [of "int (ctrl_slot s)" "sector_of (fst k) (snd k)" "mem_cards s" buf "sector_of (fst j) (snd j)"]
    by (simp add: wire_valid_def w valid_access_iff_read)
next
  case (2 k s buf j)
  note w = wire_write_facts [OF 2(1,2)]
  have "wire_valid j (wire_write k buf s)"
    using 2 card_sectors.valid_put [of "int (ctrl_slot s)" "sector_of (fst k) (snd k)" "mem_cards s" buf "sector_of (fst j) (snd j)"]
    by (simp add: wire_valid_def w valid_access_iff_read)
  then show ?case
    using 2 card_sectors.get_put [of "int (ctrl_slot s)" "sector_of (fst k) (snd k)" "mem_cards s" buf "sector_of (fst j) (snd j)"]
    by (auto simp: wire_read_eq w wire_valid_def sector_of_inject prod_eq_iff)
qed

text \<open>Over the wire the card is a store: after any sequence of sector writes sent by the console, a
  sector read by the console holds what was last written to it, or what the card held before if none of
  the writes was for it.\<close>

lemma wire_last_write_wins:
  assumes "\<forall>(k, buf) \<in> set ws. wire_valid k s \<and> length buf = 128" and "wire_valid k s"
  shows "wire_read k (fold (\<lambda>(k, buf). wire_write k buf) ws s) =
     (case map_of (rev ws) k of
        Some buf \<Rightarrow> Some buf
      | None \<Rightarrow> memcard_read_sector (int (ctrl_slot s)) (sector_of (fst k) (snd k)) (mem_cards s))"
  using wire.get_put_all [OF assms] wire_read_eq [OF assms(2)] by (simp add: wire.put_all_def split: option.split)

lemma wire_last_write_wins_example:
  "wire_read (0, 3) (fold (\<lambda>(k, buf). wire_write k buf) [((0, 3), replicate 128 7), ((0, 4), replicate 128 8)] demo_sio) = Some (replicate 128 7)"
proof -
  have "wire_valid (0, 3) demo_sio" "wire_valid (0, 4) demo_sio"
    using demo_sio_facts by (simp_all add: wire_valid_def sector_of_def valid_access_def)
  then show ?thesis
    using wire_last_write_wins [of "[((0, 3), replicate 128 7), ((0, 4), replicate 128 8)]" demo_sio "(0, 3)"] by simp
qed

end
