(* ===== verification/Sio_Inv.thy ===== *)
theory Sio_Inv
  imports Sio_Props
begin

text \<open>
  The states the serial port can reach, by any interleaving of register accesses, passing time and calls
  of the host, and the invariant they all share.
\<close>

section \<open>Host calls\<close>

datatype host_op =
  Host_connect int bool | Host_capable int bool | Host_negotiate int bool | Host_begin_game | Host_buttons int u16
| Host_sticks int u8 u8 u8 u8 | Host_analog int bool u8 u8 u8 u8 | Host_request int bool | Host_legacy bool

primrec host_exec :: "host_op \<Rightarrow> sio \<Rightarrow> sio" where
  "host_exec (Host_connect i v) s = sio_set_pad_connected i v s"
| "host_exec (Host_capable i v) s = sio_set_pad_config_capable i v s"
| "host_exec (Host_negotiate i v) s = sio_set_pad_auto_negotiate i v s"
| "host_exec Host_begin_game s = sio_begin_game_pad_negotiation s"
| "host_exec (Host_buttons i b) s = sio_set_pad_state_slot i b s"
| "host_exec (Host_sticks i lx ly rx ry) s = sio_set_pad_sticks i lx ly rx ry s"
| "host_exec (Host_analog i v lx ly rx ry) s = sio_set_pad_analog i v lx ly rx ry s"
| "host_exec (Host_request i v) s = sio_request_pad_type i v s"
| "host_exec (Host_legacy v) s = sio_set_legacy_cfg v s"

text \<open>No call of the host touches the conversation on the bus.\<close>

definition bus_view :: "sio \<Rightarrow> ((u8 \<times> u16) \<times> (pad_phase \<times> nat \<times> (nat \<Rightarrow> u8) \<times> nat \<times> nat \<times> u8)) \<times> (mc_regs \<times> nat \<times> (nat \<Rightarrow> mc_regs) \<times> sio_device \<times> card_st)" where
  "bus_view s = (((sio_rx_data s, sio_stat s), (pad_state s, selected_slot s, pad_response s, pad_response_len s, pad_response_idx s, pad_current_cmd s)),
     (mc s, mc_slot s, mc_slots s, active_device s, mem_cards s))"

lemma host_keeps:
  "bus_view (host_exec h s) = bus_view s" "timing_view (host_exec h s) = timing_view s"
  by (cases h; simp add: bus_view_def timing_view_def sio_set_pad_connected_def sio_set_pad_config_capable_def sio_set_pad_auto_negotiate_def
      sio_begin_game_pad_negotiation_def begin_game_slot_def pad_forget_def sio_set_pad_state_slot_def sio_set_pad_sticks_def
      sio_set_pad_analog_def sio_request_pad_type_def sio_set_legacy_cfg_def Let_def numeral_2_eq_2)+

section \<open>The invariant\<close>

definition card_regs_ok :: "mc_regs \<Rightarrow> bool" where
  "card_regs_ok m \<longleftrightarrow>
     (mc_state m = MC_READ_DATA \<longrightarrow> mc_data_idx m < 128) \<and> (mc_state m = MC_WRITE_LSB_ECHO \<longrightarrow> mc_data_idx m = 0) \<and>
     (mc_state m = MC_WRITE_DATA \<longrightarrow> mc_data_idx m < 128) \<and> mc_data_idx m \<le> 128"

definition devices_ok :: "sio \<Rightarrow> bool" where
  "devices_ok s \<longleftrightarrow> selected_slot s \<le> 1 \<and> mc_slot s \<le> 1 \<and> card_regs_ok (mc s) \<and> (\<forall>i. card_regs_ok (mc_slots s i)) \<and>
     pad_response_len s \<le> 8 \<and> pad_response_idx s \<le> 8 \<and>
     (pad_state s = PAD_SEND_RESPONSE \<longrightarrow> pad_response_idx s < pad_response_len s)"

definition shifter_ok :: "sio \<Rightarrow> bool" where
  "shifter_ok s \<longleftrightarrow>
     (sio_shift_active s \<longrightarrow> 0 \<le> sio_shift_remaining s \<and> sio_shift_remaining s \<le> 1088) \<and>
     (sio_pending_ack s \<longrightarrow> 0 \<le> sio_ack_remaining s \<and> sio_ack_remaining s \<le> 1258) \<and>
     (sio_tx_buffered s \<longrightarrow> sio_shift_active s) \<and>
     (sio_shift_active s \<or> sio_pending_ack s \<longrightarrow> g_sio_timing_active s) \<and> \<not> sio_irq_pending s"

lemma shifter_ok_view: "timing_view s = timing_view t \<Longrightarrow> shifter_ok s = shifter_ok t"
  by (simp add: timing_view_def shifter_ok_def)

lemma devices_ok_view: "bus_view s = bus_view t \<Longrightarrow> devices_ok s = devices_ok t"
  by (simp add: bus_view_def devices_ok_def)

lemma devices_ok_trivial [simp]:
  "devices_ok (stat_on b s) = devices_ok s" "devices_ok (stat_off b s) = devices_ok s" "devices_ok (reply r s) = devices_ok s"
  "devices_ok (reply_last r s) = devices_ok s" "devices_ok (byte_done s) = devices_ok s" "devices_ok (no_device s) = devices_ok s"
  "devices_ok (apply_type_req i s) = devices_ok s" "devices_ok (s\<lparr> active_device := d \<rparr>) = devices_ok s"
  "devices_ok (s\<lparr> sio_trace_seq := n \<rparr>) = devices_ok s" "devices_ok (s\<lparr> mem_cards := c \<rparr>) = devices_ok s"
  "devices_ok (pad_latch x s) = devices_ok s"
  by (simp_all add: devices_ok_def stat_on_def stat_off_def reply_def reply_last_def byte_done_def no_device_def apply_type_req_def
      pad_latch_def Let_def split: option.split)

lemma response_lengths:
  "length (poll_frame i l u) \<le> 8" "1 < length (poll_frame i l u)" "length (config_mode_response u) \<le> 8"
  "1 < length (config_mode_response u)" "length (canned_response b u) = 8"
  by (auto simp: poll_frame_def config_mode_response_def canned_response_def Let_def)

lemma devices_ok_response:
  assumes "devices_ok s" and "1 < length bs" and "length bs \<le> 8" and "pad_response_idx s = 1"
  shows "devices_ok (set_response bs s)"
  using assms by (simp add: devices_ok_def set_response_def reply_def stat_on_def)

lemma devices_ok_idle: "devices_ok s \<Longrightarrow> devices_ok (pad_to_idle s)"
  by (simp add: devices_ok_def pad_to_idle_def)

lemma devices_ok_command:
  assumes "devices_ok s" and "pad_state s = PAD_WAIT_ACCESS"
  shows "devices_ok (pad_command_byte b s)"
proof -
  have ok: "devices_ok (s\<lparr> pad_current_cmd := b, pad_response_idx := 1 \<rparr>\<lparr> pad_negotiation := g \<rparr>)" for g
    using assms by (simp add: devices_ok_def)
  have if_ok: "devices_ok x \<Longrightarrow> devices_ok y \<Longrightarrow> devices_ok (if c then x else y)" for c x y
    by simp
  show ?thesis
    unfolding pad_command_byte_def Let_def
    by (intro if_ok devices_ok_response devices_ok_idle ok devices_ok_trivial(4) [THEN iffD2] response_lengths) (simp_all add: response_lengths)
qed

lemma devices_ok_send:
  assumes "devices_ok s" and "pad_state s = PAD_SEND_RESPONSE"
  shows "devices_ok (pad_response_byte b s)"
proof -
  define t where "t = pad_latch b s"
  have "devices_ok t" using assms(1) by (simp add: t_def)
  moreover have "pad_state t = PAD_SEND_RESPONSE" using assms(2) by (simp add: t_def pad_latch_def Let_def)
  ultimately show ?thesis
    unfolding pad_response_byte_def Let_def t_def [symmetric]
    by (auto simp: devices_ok_idle) (auto simp: devices_ok_def pad_to_idle_def)
qed

lemma devices_ok_pad:
  assumes "devices_ok s"
  shows "devices_ok (pad_process_byte b s)"
proof -
  define t where "t = (if pad_state s = PAD_IDLE then fold apply_type_req [0 ..< 2] s else s)"
  have t: "devices_ok t" using assms by (simp add: t_def numeral_2_eq_2)
  have "devices_ok (pad_idle_byte b t)" if "pad_state t = PAD_IDLE"
    using t that by (simp add: pad_idle_byte_def) (simp add: devices_ok_def)
  then show ?thesis
    using t devices_ok_command [OF t] devices_ok_send [OF t]
    by (simp add: pad_process_byte_def t_def [symmetric] Let_def split: pad_phase.split)
qed

lemma card_regs_idle [simp]: "card_regs_ok m \<Longrightarrow> card_regs_ok (m\<lparr> mc_state := MC_IDLE \<rparr>)"
  by (simp add: card_regs_ok_def)

lemma devices_ok_card:
  assumes "devices_ok s"
  shows "devices_ok (mc_process_byte b s)"
proof -
  have "devices_ok (mc_step b s)"
    using assms by (cases "mc_state (mc s)")
      (auto simp: mc_step_def mc_begin_read_def mc_commit_def mc_goto_def upd_mc_def mc_store_def mc_address_def Let_def devices_ok_def
         card_regs_ok_def reply_def reply_last_def stat_on_def)
  then show ?thesis by (simp add: mc_process_byte_def)
qed

lemma devices_ok_goto_idle: "devices_ok s \<Longrightarrow> devices_ok (mc_goto MC_IDLE s)"
  by (simp add: devices_ok_def mc_goto_def upd_mc_def)

lemma devices_ok_slots: "devices_ok s \<Longrightarrow> devices_ok (mc_save_slot i s)" "devices_ok s \<Longrightarrow> devices_ok (mc_load_slot i s)"
  by (simp_all add: devices_ok_def mc_save_slot_def mc_load_slot_def)

lemma devices_ok_select: "devices_ok s \<Longrightarrow> devices_ok (s\<lparr> selected_slot := ctrl_slot u \<rparr>)"
  "devices_ok s \<Longrightarrow> devices_ok (s\<lparr> active_device := d, mc_slot := selected_slot s \<rparr>)"
  by (simp_all add: devices_ok_def ctrl_slot_def)

lemma devices_ok_process:
  assumes "devices_ok s"
  shows "devices_ok (sio_process_byte b s)"
proof -
  have "devices_ok (byte_unselected b u)" if "devices_ok u" for u
  proof -
    define v where "v = u\<lparr> selected_slot := ctrl_slot u \<rparr>"
    have "devices_ok v" using that by (simp add: v_def devices_ok_select)
    then show ?thesis
      unfolding byte_unselected_def Let_def v_def [symmetric]
      by (auto intro!: devices_ok_pad devices_ok_card devices_ok_goto_idle devices_ok_slots devices_ok_select
          simp del: devices_ok_trivial(1))
  qed
  moreover have "devices_ok (byte_to_card b u)" if "devices_ok u" for u
    using that by (auto simp: byte_to_card_def Let_def intro!: devices_ok_pad devices_ok_card devices_ok_select)
  ultimately show ?thesis
    using assms by (simp add: sio_process_byte_def Let_def devices_ok_pad split: sio_device.split)
qed

section \<open>The shifter\<close>

definition sio_ok :: "sio \<Rightarrow> bool" where
  "sio_ok s \<longleftrightarrow> devices_ok s \<and> shifter_ok s"

lemma shifter_ok_trivial [simp]:
  "shifter_ok (stat_on b s) = shifter_ok s" "shifter_ok (stat_off b s) = shifter_ok s" "shifter_ok (sio_process_byte x s) = shifter_ok s"
  by (rule shifter_ok_view, simp)+

text \<open>Outside the shifter's own variables, its operations do nothing to the devices.\<close>

lemma devices_ok_shifter [simp]:
  "devices_ok (s\<lparr> g_sio_timing_active := a1 \<rparr>) = devices_ok s" "devices_ok (s\<lparr> sio_shift_active := a2 \<rparr>) = devices_ok s"
  "devices_ok (s\<lparr> sio_shift_byte := a3 \<rparr>) = devices_ok s" "devices_ok (s\<lparr> sio_shift_remaining := a4 \<rparr>) = devices_ok s"
  "devices_ok (s\<lparr> sio_tx_buffered := a5 \<rparr>) = devices_ok s" "devices_ok (s\<lparr> sio_tx_buffer := a6 \<rparr>) = devices_ok s"
  "devices_ok (s\<lparr> sio_shift_ack_irq_en := a7 \<rparr>) = devices_ok s" "devices_ok (s\<lparr> sio_tx_buffer_ack_irq_en := a8 \<rparr>) = devices_ok s"
  "devices_ok (s\<lparr> sio_pending_ack := a9 \<rparr>) = devices_ok s" "devices_ok (s\<lparr> sio_ack_remaining := a10 \<rparr>) = devices_ok s"
  "devices_ok (s\<lparr> sio_pending_ack_irq_en := a11 \<rparr>) = devices_ok s" "devices_ok (s\<lparr> sio_bus_owner := a12 \<rparr>) = devices_ok s"
  "devices_ok (s\<lparr> sio_bus_byte_index := a13 \<rparr>) = devices_ok s" "devices_ok (s\<lparr> sio_irq_pending := a14 \<rparr>) = devices_ok s"
  "devices_ok (s\<lparr> sio_irq_countdown := a15 \<rparr>) = devices_ok s" "devices_ok (s\<lparr> sio_ack_visible_reads := a16 \<rparr>) = devices_ok s"
  "devices_ok (s\<lparr> sio_ctrl := a17 \<rparr>) = devices_ok s" "devices_ok (s\<lparr> sio_mode := a18 \<rparr>) = devices_ok s"
  "devices_ok (s\<lparr> sio_baud := a19 \<rparr>) = devices_ok s" "devices_ok (s\<lparr> sio_tx_data := a20 \<rparr>) = devices_ok s"
  "devices_ok (s\<lparr> sio_stat := a21 \<rparr>) = devices_ok s" "devices_ok (timing_idle_check s) = devices_ok s"
  by (simp_all add: devices_ok_def timing_idle_check_def)

lemma shift_complete_ok:
  assumes "sio_ok s" and "sio_shift_active s"
  shows "sio_ok (sio_handle_shift_complete s)"
proof -
  define t where "t = sio_process_byte (sio_shift_byte s) s"
  have view: "timing_view t = timing_view s" by (simp add: t_def)
  then have t: "devices_ok t" "shifter_ok t" "sio_shift_active t" "g_sio_timing_active t"
    using assms devices_ok_process by (auto simp: t_def sio_ok_def shifter_ok_def timing_view_def)
  have "devices_ok (sio_handle_shift_complete s)"
    using t(1) by (simp add: sio_handle_shift_complete_def sio_consume_ack_event_def t_def [symmetric] Let_def)
  moreover have "shifter_ok (sio_handle_shift_complete s)"
    using t(2-) unfolding sio_handle_shift_complete_def sio_consume_ack_event_def t_def [symmetric] Let_def
    by (auto simp: shifter_ok_def timing_idle_check_def stat_on_def stat_off_def)
  ultimately show ?thesis by (simp add: sio_ok_def)
qed

lemma fire_ack_ok: "sio_ok (fst p) \<Longrightarrow> \<not> sio_pending_ack (fst p) \<Longrightarrow> sio_ok (fst (sio_fire_ack_irq p))"
  by (cases p) (auto simp: sio_ok_def sio_fire_ack_irq_def Let_def shifter_ok_def timing_idle_check_def stat_on_def)

lemma next_transition_bounds:
  assumes "sio_ok s" and "0 < remaining" and "next_transition remaining s = (dt, ev)"
  shows "0 \<le> dt" "dt \<le> remaining" "sio_shift_active s \<Longrightarrow> dt \<le> sio_shift_remaining s" "sio_pending_ack s \<Longrightarrow> dt \<le> sio_ack_remaining s"
    and "ev = Some Shift_event \<Longrightarrow> sio_shift_active s \<and> dt = sio_shift_remaining s"
    and "ev = Some Ack_event \<Longrightarrow> sio_pending_ack s \<and> dt = sio_ack_remaining s"
  using assms by (auto simp: next_transition_def sio_ok_def shifter_ok_def Let_def split: if_splits)

lemma count_down_ok:
  assumes "sio_ok s" and "0 \<le> dt" "sio_shift_active s \<Longrightarrow> dt \<le> sio_shift_remaining s" "sio_pending_ack s \<Longrightarrow> dt \<le> sio_ack_remaining s"
  shows "sio_ok (count_down dt s)"
  using assms by (auto simp: sio_ok_def count_down_def shifter_ok_def devices_ok_def)

lemma paced_loop_ok: "sio_ok (fst p) \<Longrightarrow> sio_ok (fst (paced_loop n remaining p))"
proof (induction n arbitrary: remaining p)
  case (Suc n)
  show ?case
  proof (cases "remaining \<le> 0")
    case False
    obtain dt ev where nt: "next_transition remaining (fst p) = (dt, ev)" by (cases "next_transition remaining (fst p)")
    note b = next_transition_bounds [OF Suc.prems _ nt]
    let ?c = "count_down dt (fst p)"
    have c: "sio_ok ?c" using Suc.prems b False by (auto intro: count_down_ok)
    have shift: "sio_ok (sio_handle_shift_complete ?c)" if "ev = Some Shift_event"
      using shift_complete_ok [OF c] b(5) False that by (simp add: count_down_def)
    have "sio_ok (?c\<lparr> sio_pending_ack := False \<rparr>)" using c by (auto simp: sio_ok_def shifter_ok_def)
    then have ack: "sio_ok (fst (sio_fire_ack_irq (?c\<lparr> sio_pending_ack := False \<rparr>, z)))" for z :: "'a sys_scheme"
      by (intro fire_ack_ok) simp_all
    show ?thesis using False c shift ack
      by (simp add: nt on_sio_def Let_def Suc.IH split: option.split sio_event.split)
  qed (simp add: Suc.prems)
qed simp

lemma advance_ok: "sio_ok (fst p) \<Longrightarrow> sio_ok (fst (sio_advance c p))"
  by (simp add: sio_advance_def paced_loop_ok)

lemma tick_ok: "sio_ok (fst p) \<Longrightarrow> sio_ok (fst (sio_tick c p))"
proof -
  have legacy: "legacy_countdown q = q" if "sio_ok (fst q)" for q :: "'a sio_sys"
    using that by (cases q) (simp add: legacy_countdown_def sio_ok_def shifter_ok_def)
  assume "sio_ok (fst p)"
  then show ?thesis by (simp add: sio_tick_def legacy paced_loop_ok)
qed

section \<open>Registers\<close>

lemma drop_transfer_ok: "devices_ok s \<Longrightarrow> \<not> sio_irq_pending s \<Longrightarrow> sio_ok (drop_transfer s)"
  by (simp add: sio_ok_def drop_transfer_def shifter_ok_def)

lemma sio_ok_trivial [simp]:
  "sio_ok (stat_on b s) = sio_ok s" "sio_ok (stat_off b s) = sio_ok s" "sio_ok (release_bus s) = sio_ok s"
  "sio_ok (s\<lparr> sio_tx_data := x1 \<rparr>) = sio_ok s" "sio_ok (s\<lparr> sio_mode := x2 \<rparr>) = sio_ok s" "sio_ok (s\<lparr> sio_baud := x3 \<rparr>) = sio_ok s"
  "sio_ok (s\<lparr> sio_ctrl := x4 \<rparr>) = sio_ok s" "sio_ok (s\<lparr> sio_ack_visible_reads := x5 \<rparr>) = sio_ok s"
  "sio_ok (s\<lparr> sio_bus_owner := x6 \<rparr>) = sio_ok s" "sio_ok (s\<lparr> sio_bus_byte_index := x7 \<rparr>) = sio_ok s"
  by (simp_all add: sio_ok_def release_bus_def) (simp_all add: shifter_ok_def)

lemma process_ok: "sio_ok s \<Longrightarrow> sio_ok (sio_process_byte b s)"
  by (simp add: sio_ok_def devices_ok_process)

lemma stop_transfer_ok: "devices_ok s \<Longrightarrow> \<not> sio_irq_pending s \<Longrightarrow> sio_ok (stop_transfer s)"
  by (simp add: sio_ok_def stop_transfer_def release_bus_def drop_transfer_def shifter_ok_def)

lemma sio_okD: "sio_ok s \<Longrightarrow> devices_ok s" "sio_ok s \<Longrightarrow> \<not> sio_irq_pending s"
  by (simp_all add: sio_ok_def shifter_ok_def)

lemma tx_pad_ok:
  assumes "sio_ok (fst p)"
  shows "sio_ok (fst (tx_to_pad b p))"
proof -
  obtain s z where p: "p = (s, z)" by (cases p)
  define t where "t = sio_process_byte b ((drop_transfer s)\<lparr> sio_bus_owner := SIO_OWNER_PAD, sio_bus_byte_index := sio_bus_byte_index s + 1,
    g_sio_timing_active := False \<rparr>)"
  have "sio_ok t" unfolding t_def
    using assms by (intro process_ok) (simp add: p sio_ok_def drop_transfer_def shifter_ok_def)
  moreover have "\<not> sio_shift_active t \<and> \<not> sio_tx_buffered t" using timing_view_process [of b] unfolding t_def
    by (simp add: timing_view_def drop_transfer_def)
  ultimately show ?thesis
    unfolding p tx_to_pad_def Let_def prod.case t_def [symmetric]
    by (auto simp: sio_ok_def shifter_ok_def stat_on_def stat_off_def)
qed

lemma tx_shifter_ok:
  assumes "sio_ok s"
  shows "sio_ok (tx_to_shifter b s)"
proof -
  define t where "t = (if sio_bus_byte_index s = 0
      then s\<lparr> sio_bus_owner := (if b = 0x81 then SIO_OWNER_CARD else if b = 0x01 then SIO_OWNER_PAD else SIO_OWNER_UNKNOWN) \<rparr> else s)"
  have t: "sio_ok (t\<lparr> sio_bus_byte_index := n \<rparr>)" for n using assms by (simp add: t_def)
  show ?thesis
    unfolding tx_to_shifter_def Let_def t_def [symmetric] using t
    by (simp split: if_split) (simp add: sio_ok_def shifter_ok_def)
qed

lemma write_tx_ok: "sio_ok (fst p) \<Longrightarrow> sio_ok (fst (write_tx v p))"
  by (simp add: write_tx_def Let_def on_sio_def tx_shifter_ok tx_pad_ok)

lemma devices_ok_reset: "devices_ok s \<Longrightarrow> \<not> sio_irq_pending s \<Longrightarrow> sio_ok (ctrl_reset s)"
  unfolding ctrl_reset_def Let_def
  by (rule stop_transfer_ok) (auto simp: devices_ok_def card_regs_ok_def pad_to_idle_def mc_goto_def upd_mc_def)

lemma deselect_ok: "sio_ok s \<Longrightarrow> sio_ok (ctrl_deselect s)"
  unfolding ctrl_deselect_def Let_def sio_ok_trivial
  by (rule stop_transfer_ok)
    (auto simp: sio_ok_def devices_ok_def card_regs_ok_def shifter_ok_def pad_to_idle_def mc_goto_def upd_mc_def slot_deselected_def)

lemma tx_disabled_ok: "sio_ok s \<Longrightarrow> sio_ok (ctrl_tx_disabled v s)"
  by (simp add: ctrl_tx_disabled_def Let_def) (simp add: sio_ok_def shifter_ok_def drop_transfer_def release_bus_def)

lemma write_ctrl_ok:
  assumes "sio_ok s"
  shows "sio_ok (write_ctrl v s)"
proof -
  have if_ok: "sio_ok x \<Longrightarrow> sio_ok y \<Longrightarrow> sio_ok (if c then x else y)" for c x y by simp
  have reset: "sio_ok u \<Longrightarrow> sio_ok (ctrl_reset u)" for u using devices_ok_reset sio_okD by blast
  show ?thesis
    unfolding write_ctrl_def Let_def
    by (intro if_ok deselect_ok tx_disabled_ok reset sio_ok_trivial [THEN iffD2] assms)
qed

lemma write_ok: "sio_ok (fst p) \<Longrightarrow> sio_ok (fst (sio_write a v p))"
  by (auto simp: sio_write_def intro!: tick_ok write_tx_ok) (auto simp: on_sio_def write_ctrl_ok)

lemma read_ok: "sio_ok (fst p) \<Longrightarrow> sio_ok (fst (snd (sio_read a p)))"
  using tick_ok [of p 0] by (auto simp: sio_read_def Let_def split: prod.splits)

lemma host_ok: "sio_ok s \<Longrightarrow> sio_ok (host_exec h s)"
  using devices_ok_view [OF host_keeps(1)] shifter_ok_view [OF host_keeps(2)] by (auto simp: sio_ok_def)

lemma init_ok: "sio_ok s \<Longrightarrow> sio_ok (sio_init s)"
  unfolding sio_init_def Let_def
  by (rule stop_transfer_ok) (auto simp: sio_ok_def devices_ok_def card_regs_ok_def fresh_slot_def pad_to_idle_def mc_goto_def upd_mc_def)

section \<open>Reachable states\<close>

inductive sio_reach :: "'z sio_sys \<Rightarrow> bool" where
  Power_on: "sio_reach (sio_power_on c, z)"
| Init: "sio_reach (s, z) \<Longrightarrow> sio_reach (sio_init s, z)"
| Read: "sio_reach p \<Longrightarrow> sio_reach (snd (sio_read a p))"
| Write: "sio_reach p \<Longrightarrow> sio_reach (sio_write a v p)"
| Advance: "sio_reach p \<Longrightarrow> sio_reach (sio_advance n p)"
| Quantum: "sio_reach p \<Longrightarrow> sio_reach (sio_tick_quantum p)"
| Host: "sio_reach (s, z) \<Longrightarrow> sio_reach (host_exec h s, z)"
| Cards: "sio_reach (s, z) \<Longrightarrow> sio_reach (s\<lparr> mem_cards := c \<rparr>, z)"
| Elsewhere: "sio_reach (s, z) \<Longrightarrow> sio_reach (s, z')"

lemma power_on_ok: "sio_ok (sio_power_on c)"
  by (simp add: sio_ok_def devices_ok_def shifter_ok_def sio_power_on_def card_regs_ok_def fresh_slot_def)

lemma reach_ok: "sio_reach p \<Longrightarrow> sio_ok (fst p)"
proof (induction rule: sio_reach.induct)
  case (Cards s z c)
  then show ?case by (simp add: sio_ok_def) (simp add: shifter_ok_def)
qed (simp_all add: power_on_ok init_ok read_ok write_ok advance_ok sio_tick_quantum_def tick_ok host_ok)

text \<open>C4. However register accesses, time and calls of the host are interleaved: the sector buffer and
  the response buffer are only indexed inside their bounds, slots are 0 or 1, a buffered byte has a byte
  being shifted before it, unfinished work keeps the scheduler's gate open, the countdowns are within
  one byte and one acknowledge, and the access-paced countdown is never armed.\<close>

theorem sio_reachable_ok:
  assumes "sio_reach (s, z)"
  shows "(mc_state (mc s) \<in> {MC_READ_DATA, MC_WRITE_LSB_ECHO, MC_WRITE_DATA} \<longrightarrow> mc_data_idx (mc s) < 128) \<and>
     (pad_state s = PAD_SEND_RESPONSE \<longrightarrow> pad_response_idx s < pad_response_len s \<and> pad_response_len s \<le> 8) \<and>
     selected_slot s \<le> 1 \<and> mc_slot s \<le> 1 \<and> (sio_tx_buffered s \<longrightarrow> sio_shift_active s) \<and>
     (sio_shift_active s \<or> sio_pending_ack s \<longrightarrow> g_sio_timing_active s) \<and>
     (sio_shift_active s \<longrightarrow> 0 \<le> sio_shift_remaining s \<and> sio_shift_remaining s \<le> 1088) \<and>
     (sio_pending_ack s \<longrightarrow> 0 \<le> sio_ack_remaining s \<and> sio_ack_remaining s \<le> 1258) \<and> \<not> sio_irq_pending s"
  using reach_ok [OF assms] by (auto simp: sio_ok_def devices_ok_def shifter_ok_def card_regs_ok_def)

theorem sio_reachable_ok_witness:
  "let p = sio_write 0x1F801040 0x81 (sio_write 0x1F80104A 3 (demo_sio, sys_boot ()))
   in sio_shift_active (fst p) \<and> sio_shift_remaining (fst p) = 1088 \<and> g_sio_timing_active (fst p) \<and> selected_slot (fst p) \<le> 1"
proof -
  define p where "p = sio_write 0x1F801040 0x81 (sio_write 0x1F80104A 3 (demo_sio, sys_boot ()))"
  have "sio_reach p" unfolding p_def demo_sio_def by (intro sio_reach.intros)
  then have "sio_reach (fst p, snd p)" by simp
  note ok = sio_reachable_ok [OF this]
  have "sio_shift_active (fst p) \<and> sio_shift_remaining (fst p) = 1088"
    by (simp add: p_def sio_write_def write_tx_def write_ctrl_def on_sio_def sio_tick_def legacy_countdown_def demo_sio_def sio_power_on_def
        ctrl_on_def ctrl_has_def pad_fast_path_def tx_to_shifter_def release_bus_def stat_off_def stat_on_def Let_def)
  with ok show ?thesis by (simp add: p_def [symmetric] Let_def)
qed

section \<open>Polls\<close>

text \<open>Bytes on the bus, each after some calls of the host.\<close>

fun exchange_with :: "(host_op list \<times> u8) list \<Rightarrow> sio \<Rightarrow> (u8 \<times> bool) list \<times> sio" where
  "exchange_with [] s = ([], s)"
| "exchange_with ((hs, b) # bs) s = (let (r, t) = bus_byte b (fold host_exec hs s); (rs, u) = exchange_with bs t in (r # rs, u))"

text \<open>The pad is answering a poll with the frame \<open>f\<close>, of which \<open>k\<close> bytes are out.\<close>

definition polling :: "u8 list \<Rightarrow> nat \<Rightarrow> sio \<Rightarrow> bool" where
  "polling f k s \<longleftrightarrow> active_device s = DEV_PAD \<and> pad_state s = PAD_SEND_RESPONSE \<and> pad_current_cmd s = 0x42 \<and>
     pad_response_len s = length f \<and> (\<forall>i < length f. pad_response s i = f ! i) \<and> pad_response_idx s = k \<and> \<not> ack_set s"

lemma polling_host: "polling f k s \<Longrightarrow> polling f k (fold host_exec hs s)"
proof (induction hs arbitrary: s)
  case (Cons h hs)
  have "polling f k (host_exec h s)"
    using Cons.prems host_keeps(1) [of h s] by (simp add: polling_def bus_view_def ack_set_def)
  then show ?case using Cons.IH by simp
qed simp

lemma polling_byte:
  assumes "polling f k s" and "k < length f"
  shows "fst (bus_byte b s) = (f ! k, Suc k < length f)"
    and "Suc k < length f \<Longrightarrow> polling f (Suc k) (snd (bus_byte b s))"
    and "\<not> Suc k < length f \<Longrightarrow> pad_state (snd (bus_byte b s)) = PAD_IDLE"
  using assms
  by (simp_all add: polling_def bus_byte_def sio_consume_ack_event_def sio_process_byte_def pad_process_byte_def pad_response_byte_def
      pad_latch_def byte_done_def pad_to_idle_def stat_on_def stat_off_def ack_set_def ack_mask bit_or_iff bit_and_iff bit_not_iff Let_def)

lemma polling_run:
  assumes "polling f k s" and "k < length f" and "length bs = length f - k"
  shows "fst (exchange_with bs s) = map (\<lambda>i. (f ! i, Suc i < length f)) [k ..< length f] \<and> pad_state (snd (exchange_with bs s)) = PAD_IDLE"
  using assms
proof (induction bs arbitrary: k s)
  case (Cons hb bs)
  obtain hs b where hb: "hb = (hs, b)" by (cases hb)
  let ?s = "fold host_exec hs s"
  have p: "polling f k ?s" using Cons.prems(1) by (rule polling_host)
  have first: "[k ..< length f] = k # [Suc k ..< length f]" using Cons.prems(2) by (simp add: upt_conv_Cons)
  note step = polling_byte [OF p Cons.prems(2), of b]
  show ?case
  proof (cases "Suc k < length f")
    case True
    then show ?thesis
      using Cons.IH [OF step(2)] step(1) Cons.prems(3) unfolding first by (auto simp: hb Let_def split: prod.splits)
  next
    case False
    then have "length f - k = 1" using Cons.prems(2) by simp
    then have "bs = []" using Cons.prems(3) by simp
    then show ?thesis using False step(1,3) unfolding first by (auto simp: hb Let_def split: prod.splits)
  qed
qed simp

lemma poll_command:
  assumes "active_device s = DEV_PAD" and "pad_state s = PAD_WAIT_ACCESS"
  defines "f \<equiv> poll_frame (cur_id s) (pad_analog s (selected_slot s) \<or> pad_in_config s (selected_slot s)) s"
  shows "fst (bus_byte 0x42 s) = (f ! 0, True)" "polling f 1 (snd (bus_byte 0x42 s))"
proof -
  let ?t = "s\<lparr> pad_current_cmd := 0x42, pad_response_idx := 1, pad_negotiation := (pad_negotiation s)(selected_slot s :=
      snd (psx_pad_negotiation_observe_command 0x42 (pad_negotiation s (selected_slot s)))) \<rparr>"
  have f: "poll_frame (cur_id s) (pad_analog s (selected_slot s) \<or> pad_in_config s (selected_slot s)) ?t = f"
    by (simp add: f_def poll_frame_def Let_def)
  have hd: "hd f = f ! 0" by (simp add: f_def poll_frame_def Let_def)
  have "pad_command_byte 0x42 s = set_response f ?t" using f by (simp add: pad_command_byte_def Let_def)
  then have "sio_process_byte 0x42 s = (byte_done (set_response f ?t))\<lparr> sio_trace_seq := sio_trace_seq (byte_done (set_response f ?t)) + 1 \<rparr>"
    using assms(1,2) by (simp add: sio_process_byte_def pad_process_byte_def Let_def)
  then show "fst (bus_byte 0x42 s) = (f ! 0, True)" "polling f 1 (snd (bus_byte 0x42 s))"
    using assms(1) hd
    by (simp_all add: polling_def bus_byte_def sio_consume_ack_event_def set_response_def reply_def byte_done_def stat_on_def stat_off_def
        ack_set_def ack_mask bit_or_iff bit_and_iff bit_not_iff Let_def)
qed

text \<open>A request of the host on a locked or configuring pad is neither applied nor dropped: it stays pending.\<close>

lemma held_request_stays: "pad_in_config s i \<or> analog_mode_locked s i \<Longrightarrow> apply_type_req i s = s"
  by (auto simp: apply_type_req_def split: option.split)

text \<open>C27. A poll is never torn: once the pad has taken the poll command, the frame it sends is the one of
  that moment (identity, buttons, and the sticks for an analog pad), whatever the host does between the
  bytes to buttons, sticks, pad type, connection or negotiation; every byte but the last is acknowledged
  and the pad is idle afterwards.\<close>

theorem poll_is_coherent:
  assumes "active_device s = DEV_PAD" and "pad_state s = PAD_WAIT_ACCESS"
    and "f = poll_frame (cur_id s) (pad_analog s (selected_slot s) \<or> pad_in_config s (selected_slot s)) s"
    and "length bs = length f - 1"
  shows "let (rs, t) = exchange_with (([], 0x42) # bs) s
     in map fst rs = f \<and> map snd rs = replicate (length f - 1) True @ [False] \<and> pad_state t = PAD_IDLE"
proof -
  have len: "1 < length f" unfolding assms(3) by (rule response_lengths)
  note cmd = poll_command [OF assms(1,2), folded assms(3)]
  have run: "fst (exchange_with bs (snd (bus_byte 0x42 s))) = map (\<lambda>i. (f ! i, Suc i < length f)) [1 ..< length f]"
    "pad_state (snd (exchange_with bs (snd (bus_byte 0x42 s)))) = PAD_IDLE"
    using polling_run [OF cmd(2) len assms(4)] by auto
  have all: "[0 ..< length f] = 0 # [1 ..< length f]" using len by (subst upt_conv_Cons) auto
  have acks: "map (\<lambda>i. Suc i < length f) [0 ..< length f] = replicate (length f - 1) True @ [False]"
    using len by (intro nth_equalityI) (auto simp: nth_append)
  have "(f ! 0, True) # map (\<lambda>i. (f ! i, Suc i < length f)) [1 ..< length f] = map (\<lambda>i. (f ! i, Suc i < length f)) [0 ..< length f]"
    using len unfolding all by simp
  then have "fst (exchange_with (([], 0x42) # bs) s) = map (\<lambda>i. (f ! i, Suc i < length f)) [0 ..< length f]"
    using cmd(1) run(1) by (auto simp: Let_def split: prod.splits)
  moreover have "pad_state (snd (exchange_with (([], 0x42) # bs) s)) = PAD_IDLE"
    using run(2) by (auto simp: Let_def split: prod.splits)
  ultimately show ?thesis by (simp add: case_prod_beta acks map_nth comp_def del: exchange_with.simps)
qed

theorem poll_is_coherent_witness:
  "let (rs, t) = exchange_with [([], 0x42), ([Host_request 0 True, Host_buttons 0 0], 0), ([Host_connect 0 False], 0), ([Host_analog 0 True 1 2 3 4], 0)]
         (demo_sio\<lparr> active_device := DEV_PAD, pad_state := PAD_WAIT_ACCESS \<rparr>)
   in map fst rs = [0x41, 0x5A, 0xFF, 0xFF] \<and> map snd rs = [True, True, True, False] \<and> pad_state t = PAD_IDLE"
  using poll_is_coherent [of "demo_sio\<lparr> active_device := DEV_PAD, pad_state := PAD_WAIT_ACCESS \<rparr>" "[0x41, 0x5A, 0xFF, 0xFF]"
      "[([Host_request 0 True, Host_buttons 0 0], 0), ([Host_connect 0 False], 0), ([Host_analog 0 True 1 2 3 4], 0)]"]
  by (simp add: demo_sio_def sio_power_on_def poll_frame_def cur_id_def Let_def numeral_3_eq_3)

end
