(* ===== verification/Sio_Timing.thy ===== *)
theory Sio_Timing
  imports Sio_Inv
begin

text \<open>
  The serial port in time: which interrupt line it touches, when an acknowledge arrives, and how far its
  distance to the next event can be trusted.
\<close>

section \<open>What the port does to the rest of the system\<close>

text \<open>A property of the system state that recording and raising line 7 keep.\<close>

definition kept_by_sio :: "('z sys_scheme \<Rightarrow> bool) \<Rightarrow> bool" where
  "kept_by_sio P \<longleftrightarrow> (\<forall>z d a. P z \<longrightarrow> P (raise_sio_irq d z) \<and> P (event_ring_record_aux EV_ENQ SRC_SIO a z))"

lemma kept_paced_loop:
  assumes "kept_by_sio P" and "P (snd p)"
  shows "P (snd (paced_loop n r p))"
  using assms(2)
proof (induction n arbitrary: r p)
  case (Suc n)
  have "P (snd (sio_fire_ack_irq q))" if "P (snd q)" for q
    using assms(1) that by (cases q) (simp add: sio_fire_ack_irq_def Let_def kept_by_sio_def)
  then show ?case using Suc by (simp add: on_sio_def Let_def split: prod.split option.split sio_event.split)
qed simp

lemma kept_legacy: "kept_by_sio P \<Longrightarrow> P (snd p) \<Longrightarrow> P (snd (legacy_countdown p))"
  by (cases p) (simp add: legacy_countdown_def Let_def kept_by_sio_def)

lemma kept_by_operations:
  assumes "kept_by_sio P" and "P (snd p)"
  shows "P (snd (sio_advance n p))" "P (snd (sio_write a v p))" "P (snd (snd (sio_read a p)))"
proof -
  have tick: "P (snd (sio_tick k q))" if "P (snd q)" for k q
    using kept_legacy [OF assms(1)] kept_paced_loop [OF assms(1)] that by (simp add: sio_tick_def)
  have "P (snd (tx_to_pad b q))" if "P (snd q)" for b q
    using assms(1) that by (cases q) (simp add: tx_to_pad_def Let_def kept_by_sio_def)
  then have "P (snd (write_tx v p))"
    using assms(2) by (simp add: write_tx_def Let_def on_sio_def)
  then show "P (snd (sio_write a v p))"
    using assms(2) by (auto simp: sio_write_def on_sio_def intro!: tick)
  show "P (snd (sio_advance n p))" using kept_paced_loop [OF assms] assms(2) by (simp add: sio_advance_def)
  show "P (snd (snd (sio_read a p)))"
    using tick [OF assms(2), of 0] by (auto simp: sio_read_def Let_def split: prod.splits)
qed

definition line_7_only :: "'z sys_scheme \<Rightarrow> 'z sys_scheme \<Rightarrow> bool" where
  "line_7_only z y \<longleftrightarrow> (i_stat y = i_stat z \<or> i_stat y = i_stat z OR 0x80) \<and> i_mask y = i_mask z \<and> cycle_count y = cycle_count z \<and>
     in_exception y = in_exception z \<and> sys.more y = sys.more z"

lemma line_7_kept: "kept_by_sio (line_7_only z)"
proof -
  have "push_bit 7 (1 :: u32) = 0x80" by (simp add: push_bit_eq_mult)
  then show ?thesis
    by (auto simp: kept_by_sio_def line_7_only_def raise_sio_irq_def psx_irq_raise_def device_trace_note_def event_ring_record_aux_def
        or.assoc)
qed

text \<open>The serial port reaches the rest of the system through one wire: advancing it and accessing its
  registers can set line 7 of I_STAT and record events, and leaves the other lines, the mask, the clock,
  the exception state and every other component as they were.\<close>

lemma sio_touches_only_line_7:
  "line_7_only z (snd (sio_advance n (s, z))) \<and> line_7_only z (snd (sio_write a v (s, z))) \<and> line_7_only z (snd (snd (sio_read a (s, z))))"
  using kept_by_operations [OF line_7_kept [of z], of "(s, z)"] by (simp add: line_7_only_def)

section \<open>The next event\<close>

lemma sint_small: "uint (n :: u32) < 2 ^ 31 \<Longrightarrow> sint n = uint n"
  unfolding sint_uint by (rule signed_take_bit_int_eq_self) (auto intro: order_trans [of _ 0])

text \<open>A byte is being shifted and nothing else is pending.\<close>

definition only_shifting :: "sio \<Rightarrow> bool" where
  "only_shifting s \<longleftrightarrow> sio_shift_active s \<and> \<not> sio_pending_ack s \<and> 0 < sio_shift_remaining s"

lemma only_shifting_distance:
  assumes "sio_ok s" and "only_shifting s"
  shows "uint (sio_cycles_to_irq 0xFFFFFFFF s) = sio_shift_remaining s"
proof -
  have r: "0 < sio_shift_remaining s" "sio_shift_remaining s \<le> 1088" "g_sio_timing_active s" "\<not> sio_irq_pending s"
    using assms by (auto simp: sio_ok_def shifter_ok_def only_shifting_def)
  then have "uint (word_of_int (sio_shift_remaining s) :: u32) = sio_shift_remaining s"
    by (simp add: uint_word_of_int_eq take_bit_int_eq_self)
  then show ?thesis
    using r assms(2) by (simp add: sio_cycles_to_irq_def only_shifting_def Let_def word_less_def)
qed

lemma advance_within:
  assumes "sio_ok s" and "only_shifting s" and "uint n \<le> sio_shift_remaining s"
  shows "sio_advance n (s, z) = (s\<lparr> sio_shift_remaining := sio_shift_remaining s - uint n \<rparr>, z)"
proof -
  have r: "sio_shift_remaining s \<le> 1088" "g_sio_timing_active s" using assms by (auto simp: sio_ok_def shifter_ok_def only_shifting_def)
  then have n: "sint n = uint n" using assms(3) by (intro sint_small) simp
  show ?thesis
  proof (cases "n = 0")
    case False
    then have "0 < uint n" by (simp add: word_neq_0_conv word_less_def)
    then show ?thesis
      using assms(2,3) r n False
      by (simp add: sio_advance_def numeral_eq_Suc next_transition_def only_shifting_def count_down_def on_sio_def Let_def)
  qed (simp add: sio_advance_def)
qed

lemma due_is_invisible:
  assumes "sio_ok s" and "sio_shift_active s" "\<not> sio_pending_ack s" "sio_shift_remaining s = 0"
  shows "sio_cycles_to_irq m s = 0xFFFFFFFF"
  using assms by (simp add: sio_cycles_to_irq_def sio_ok_def shifter_ok_def Let_def)

lemma shift_complete_facts:
  assumes "sio_ok s" and "sio_shift_active s"
  defines "t \<equiv> sio_handle_shift_complete s"
  shows "sio_shift_active t = sio_tx_buffered s" "sio_tx_buffered s \<Longrightarrow> sio_shift_remaining t = 1088"
    and "ack_set (sio_process_byte (sio_shift_byte s) s) \<Longrightarrow> sio_pending_ack t \<and> sio_ack_remaining t = 170 \<and> sio_pending_ack_irq_en t = sio_shift_ack_irq_en s"
    and "\<not> sio_pending_ack s \<Longrightarrow> sio_pending_ack t \<Longrightarrow> sio_ack_remaining t = 170"
proof -
  define u where "u = sio_process_byte (sio_shift_byte s) s"
  have view: "sio_tx_buffered u = sio_tx_buffered s" "sio_shift_ack_irq_en u = sio_shift_ack_irq_en s" "sio_pending_ack u = sio_pending_ack s"
    using timing_view_process [of "sio_shift_byte s" s] by (simp_all add: u_def timing_view_def)
  show "sio_shift_active t = sio_tx_buffered s" "sio_tx_buffered s \<Longrightarrow> sio_shift_remaining t = 1088"
    "ack_set (sio_process_byte (sio_shift_byte s) s) \<Longrightarrow> sio_pending_ack t \<and> sio_ack_remaining t = 170 \<and> sio_pending_ack_irq_en t = sio_shift_ack_irq_en s"
    "\<not> sio_pending_ack s \<Longrightarrow> sio_pending_ack t \<Longrightarrow> sio_ack_remaining t = 170"
    unfolding t_def sio_handle_shift_complete_def sio_consume_ack_event_def u_def [symmetric] Let_def
    using view by (auto simp: timing_idle_check_def stat_on_def stat_off_def ack_set_def ack_mask)
qed

text \<open>C26. The distance to the next event is safe but not exact: no advance up to it does anything but count
  down; and an advance by exactly that distance, which is how the clock chooses its chunks, leaves the byte
  unprocessed in a state that reports no event at all, so that the deadline computed next ignores it. The
  byte is only processed by a later advance. A byte is in the shifter, none is buffered behind it and no
  acknowledge is pending.\<close>

theorem sio_due_event_is_missed:
  assumes "sio_reach (s, z)" and "only_shifting s" and "\<not> sio_tx_buffered s"
  defines "n \<equiv> sio_cycles_to_irq 0xFFFFFFFF s"
  shows "(k \<le> n \<longrightarrow> sio_advance k (s, z) = (s\<lparr> sio_shift_remaining := sio_shift_remaining s - uint k \<rparr>, z)) \<and>
     (let t = fst (sio_advance n (s, z))
      in sio_shift_active t \<and> sio_shift_byte t = sio_shift_byte s \<and> sio_cycles_to_irq 0xFFFFFFFF t = 0xFFFFFFFF \<and>
         \<not> sio_shift_active (fst (sio_advance 1 (t, z))))"
proof -
  have ok: "sio_ok s" using reach_ok [OF assms(1)] by simp
  have n: "uint n = sio_shift_remaining s" unfolding n_def by (rule only_shifting_distance [OF ok assms(2)])
  have within: "sio_advance k (s, z) = (s\<lparr> sio_shift_remaining := sio_shift_remaining s - uint k \<rparr>, z)" if "k \<le> n" for k
    using advance_within [OF ok assms(2), of k z] that n by (simp add: word_le_def)
  define t where "t = s\<lparr> sio_shift_remaining := 0 \<rparr>"
  have at: "sio_advance n (s, z) = (t, z)" using within [of n] n by (simp add: t_def)
  have t: "sio_ok t" "sio_shift_active t" "\<not> sio_pending_ack t" "sio_shift_remaining t = 0" "\<not> sio_tx_buffered t" "g_sio_timing_active t"
    using ok assms(2,3) by (auto simp: t_def sio_ok_def shifter_ok_def only_shifting_def)
  define u where "u = sio_handle_shift_complete t"
  have u: "\<not> sio_shift_active u" "sio_pending_ack u \<Longrightarrow> sio_ack_remaining u = 170"
    using shift_complete_facts(1,4) [OF t(1,2)] t(3,5) by (simp_all add: u_def)
  have "next_transition 1 t = (0, Some Shift_event)" "count_down 0 t = t"
    using t(2,4) by (simp_all add: next_transition_def count_down_def)
  moreover have "next_transition 1 u = (1, None)" using u by (cases "sio_pending_ack u") (simp_all add: next_transition_def)
  ultimately have "sio_advance 1 (t, z) = (count_down 1 u, z)"
    using t(6) by (simp add: sio_advance_def numeral_eq_Suc on_sio_def u_def Let_def)
  then have "\<not> sio_shift_active (fst (sio_advance 1 (t, z)))" using u(1) by (simp add: count_down_def)
  then show ?thesis using within [of k] due_is_invisible [OF t(1-4)] t(2) by (simp add: at Let_def) (simp add: t_def)
qed

text \<open>The console has just put the card select byte on the wire, with the acknowledge interrupt enabled.\<close>

definition demo_select :: "unit sio_sys" where
  "demo_select = sio_write 0x1F801040 0x81 (sio_write 0x1F80104A 0x1003 (demo_sio, sys_boot ()))"

lemma demo_select_reach: "sio_reach (fst demo_select, snd demo_select)"
proof -
  have "sio_reach demo_select" unfolding demo_select_def demo_sio_def by (intro sio_reach.intros)
  then show ?thesis by simp
qed

lemma demo_select_facts:
  "only_shifting (fst demo_select)" "\<not> sio_tx_buffered (fst demo_select)" "sio_shift_ack_irq_en (fst demo_select)"
  "sio_shift_remaining (fst demo_select) = 1088" "sio_shift_byte (fst demo_select) = 0x81" "active_device (fst demo_select) = DEV_NONE"
  "mem_cards (fst demo_select) = demo_cards" "sio_ctrl (fst demo_select) = 0x1003"
  by (simp_all add: demo_select_def only_shifting_def sio_write_def write_tx_def write_ctrl_def on_sio_def sio_tick_def legacy_countdown_def
      demo_sio_def sio_power_on_def ctrl_on_def ctrl_has_def pad_fast_path_def tx_to_shifter_def release_bus_def stat_off_def stat_on_def Let_def)

theorem sio_due_event_is_missed_witness:
  "sio_cycles_to_irq 0xFFFFFFFF (fst (sio_advance (sio_cycles_to_irq 0xFFFFFFFF (fst demo_select)) (fst demo_select, snd demo_select))) = 0xFFFFFFFF"
  using sio_due_event_is_missed [OF demo_select_reach demo_select_facts(1,2), of 0] by (simp add: Let_def)

text \<open>C28. The acknowledge arrives: when a device answers the byte in the shifter and the acknowledge
  interrupt was enabled when the byte was written, line 7 is raised once the rest of the byte and 170 more
  cycles have passed in one advance, no other acknowledge being pending.\<close>

theorem ack_interrupt_arrives:
  assumes "sio_reach (s, z)" and "only_shifting s" and "sio_shift_ack_irq_en s"
    and "ack_set (sio_process_byte (sio_shift_byte s) (s\<lparr> sio_shift_remaining := 0 \<rparr>))"
    and "sio_shift_remaining s + 170 < uint n" and "uint n < 2 ^ 31"
  shows "bit (i_stat (snd (sio_advance n (s, z)))) 7"
proof -
  have ok: "sio_ok s" using reach_ok [OF assms(1)] by simp
  let ?r = "sio_shift_remaining s"
  define t where "t = s\<lparr> sio_shift_remaining := 0 \<rparr>"
  define u where "u = sio_handle_shift_complete t"
  have r: "0 < ?r" "sio_shift_active s" "\<not> sio_pending_ack s" "g_sio_timing_active s" using ok assms(2)
    by (auto simp: sio_ok_def shifter_ok_def only_shifting_def)
  have t: "sio_ok t" "sio_shift_active t" "count_down ?r s = t"
    using ok r by (auto simp: t_def sio_ok_def shifter_ok_def count_down_def)
  have u: "sio_pending_ack u" "sio_ack_remaining u = 170" "sio_pending_ack_irq_en u" "sio_shift_active u \<Longrightarrow> sio_shift_remaining u = 1088"
    using shift_complete_facts [OF t(1,2)] assms(3,4) by (auto simp: u_def t_def)
  have e1: "next_transition (uint n) s = (?r, Some Shift_event)"
    using r assms(5) by (simp add: next_transition_def)
  have e2: "next_transition (uint n - ?r) u = (170, Some Ack_event)"
    using u assms(5) by (cases "sio_shift_active u") (simp_all add: next_transition_def Let_def)
  have n: "sint n = uint n" by (rule sint_small) (use assms(6) in simp)
  define q where "q = sio_fire_ack_irq ((count_down 170 u)\<lparr> sio_pending_ack := False \<rparr>, z)"
  have "bit (i_stat (snd q)) 7"
    using u(3) by (simp add: q_def sio_fire_ack_irq_def count_down_def stat_on_def raise_sio_irq_def Let_def bit_or_iff bit_push_bit_iff)
  moreover have "kept_by_sio (\<lambda>z :: 'a sys_scheme. bit (i_stat z) 7)"
    by (simp add: kept_by_sio_def raise_sio_irq_def bit_or_iff)
  ultimately have bit: "bit (i_stat (snd (paced_loop m (uint n - ?r - 170) q))) 7" for m
    using kept_paced_loop [where P = "\<lambda>z :: 'a sys_scheme. bit (i_stat z) 7"] by blast
  define m :: nat where "m = 6"
  have "n \<noteq> 0" using assms(5) r(1) by auto
  then have "sio_advance n (s, z) = paced_loop (Suc (Suc m)) (uint n) (s, z)"
    using r n by (simp add: sio_advance_def m_def numeral_eq_Suc del: paced_loop.simps)
  also have "\<dots> = paced_loop m (uint n - ?r - 170) q"
    using assms(5) r(1) by (simp add: e1 e2 [unfolded u_def] t(3) on_sio_def q_def u_def Let_def)
  finally show ?thesis using bit by simp
qed

lemma select_acknowledged:
  assumes "active_device s = DEV_NONE" and "memcard_is_present (int (ctrl_slot s)) (mem_cards s)"
  shows "ack_set (sio_process_byte 0x81 s)"
  using card_select [OF assms] by (simp add: answers_def bus_byte_def sio_consume_ack_event_def ack_set_def ack_mask Let_def)

theorem ack_interrupt_arrives_witness: "bit (i_stat (snd (sio_advance 1259 demo_select))) 7"
proof -
  let ?s = "(fst demo_select)\<lparr> sio_shift_remaining := 0 \<rparr>"
  have slot: "ctrl_slot ?s = 0" by (simp add: ctrl_slot_def ctrl_on_def ctrl_has_def demo_select_facts)
  have "ack_set (sio_process_byte 0x81 ?s)"
    by (rule select_acknowledged) (simp_all add: slot demo_select_facts demo_sio_facts)
  then show ?thesis
    using ack_interrupt_arrives [OF demo_select_reach demo_select_facts(1,3), of 1259] by (simp add: demo_select_facts)
qed

end
