(* ===== verification/Sio_Clock.thy ===== *)
theory Sio_Clock
  imports Sio_Timing Cycles_Props
begin

text \<open>
  The guest clock of Psx_Cycles with the serial port in the place of its parameters. The port is the first
  component of the device state; the remaining parameters (CD-ROM, GPU, DMA devices) stay as they are.
\<close>

definition port_advance :: "u32 \<Rightarrow> (sio \<times> 'e, 'z) cyc \<Rightarrow> (sio \<times> 'e, 'z) cyc" where
  "port_advance c s = (let (p, t) = Sio.sio_advance c (fst (devs s), s) in t\<lparr> devs := (p, snd (devs s)) \<rparr>)"

definition with_port :: "(sio \<times> 'e, 'z) clk \<Rightarrow> (sio \<times> 'e, 'z) clk" where
  "with_port C = C\<lparr> sio_advance := port_advance, sio_cycles_to_irq := (\<lambda>m s. Sio.sio_cycles_to_irq m (fst (devs s))),
     sio_get_seq := (\<lambda>s. Sio.sio_get_seq (fst (devs s))), sio_card_protocol_active := (\<lambda>s. Sio.sio_card_protocol_active (fst (devs s))) \<rparr>"

text \<open>The port meets the contract the clock asks of its devices.\<close>

lemma clock_view_more:
  fixes s t :: "('d, 'z) dma"
  assumes "cycle_count s = cycle_count t" "in_exception s = in_exception t" "sys.more s = sys.more t"
  shows "clock_view s = clock_view t"
  using assms by (cases s; cases t) (simp add: clock_view_def)

lemma port_advance_quiet: "clock_view (port_advance c s) = clock_view s"
proof -
  let ?t = "snd (Sio.sio_advance c (fst (devs s), s))"
  have "line_7_only s ?t"
    using kept_by_operations(1) [OF line_7_kept [of s], of "(fst (devs s), s)"] by (simp add: line_7_only_def)
  then have "clock_view ?t = clock_view s" by (intro clock_view_more) (simp_all add: line_7_only_def)
  then show ?thesis by (simp add: port_advance_def case_prod_beta)
qed

lemma with_port_quiet: "(\<And>c s. clock_view (cdrom_advance C c s) = clock_view s) \<Longrightarrow> quiet_devices (with_port C)"
  by (simp add: quiet_devices_def with_port_def port_advance_quiet)

text \<open>A byte that is due puts no bound on the clock's next deadline.\<close>

lemma due_byte_does_not_bound:
  assumes "sio_ok (fst (devs s))" and "sio_shift_active (fst (devs s))" "\<not> sio_pending_ack (fst (devs s))" "sio_shift_remaining (fst (devs s)) = 0"
  shows "devices_cycles_to_next_internal_event (with_port C) s =
     devices_cycles_to_next_internal_event (C\<lparr> sio_cycles_to_irq := (\<lambda>m s. 0xFFFFFFFF) \<rparr>) s"
  using due_is_invisible [OF assms] by (simp add: devices_cycles_to_next_internal_event_def with_port_def)

text \<open>With the port in place, servicing still reaches the present and sets a deadline within the cap.\<close>

lemma port_serviced_to_now:
  assumes "\<And>c s. clock_view (cdrom_advance C c s) = clock_view s" and "\<not> s_in_device_service s"
    and "s_devices_synced_cycle s < cycle_count s" and "unat (cycle_count s - s_devices_synced_cycle s) \<le> n"
  shows "\<exists>t. psx_devices_service_to_now n (with_port C) s = Some t \<and> cycle_count t = cycle_count s \<and>
     s_devices_synced_cycle t = cycle_count s \<and> 0 < s_next_service_cycle t - cycle_count t \<and> s_next_service_cycle t - cycle_count t \<le> 16384"
  using service_replay_facts [OF with_port_quiet [OF assms(1)] assms(2-)] by blast

end
