(* ===== verification/Cd_Audio.thy ===== *)
theory Cd_Audio
  imports Psx_Prelude "HOL-Library.Signed_Division"
begin

text \<open>
  The sound path of the CD controller (runtime/src/cdrom.c): the XA-ADPCM decoders, the resampler to
  44100 Hz and the volume matrix. A buffer of sample pairs is a list of pairs, samples and the decoder
  history are integers; the conversions to the 16 and 32 bits of the C types are written where the code
  can leave their range. The arrays of a sector are functions from the offset.
\<close>

section \<open>The code\<close>

type_synonym pcm = "(int \<times> int) list"

text \<open>The value of an \<open>int32_t\<close> and of an \<open>int16_t\<close> that an integer is stored in.\<close>

definition as_s32 :: "int \<Rightarrow> int" where "as_s32 x = signed_take_bit 31 x"
definition as_s16 :: "int \<Rightarrow> int" where "as_s16 x = signed_take_bit 15 x"

definition clamp16_cd :: "int \<Rightarrow> int" where
  "clamp16_cd v = (if v > 32767 then 32767 else if v < - 32768 then - 32768 else v)"

subsection \<open>ADPCM\<close>

definition xa_k0 :: "int list" where "xa_k0 = [0, 60, 115, 98, 122]"
definition xa_k1 :: "int list" where "xa_k1 = [0, 0, - 52, - 55, - 60]"

definition xa_shift :: "u8 \<Rightarrow> nat" where
  "xa_shift hdr = nat (12 - int (unat (hdr AND 0x0F)))"

definition xa_filter :: "u8 \<Rightarrow> nat" where
  "xa_filter hdr = unat (drop_bit 4 hdr AND 0x03)"

definition xa_nibble :: "bool \<Rightarrow> u8 \<Rightarrow> int" where
  "xa_nibble high b =
     (let n = int (unat (if high then drop_bit 4 b AND 0x0F else b AND 0x0F)) in if n \<ge> 8 then n - 16 else n)"

text \<open>One sample of one channel, with the two samples before it.\<close>

definition xa_sample :: "u8 \<Rightarrow> int \<Rightarrow> int \<times> int \<Rightarrow> int" where
  "xa_sample hdr nib h =
     clamp16_cd (nib * 2 ^ xa_shift hdr + (xa_k0 ! xa_filter hdr * fst h + xa_k1 ! xa_filter hdr * snd h + 32) div 64)"

definition xa_push_hist :: "int \<Rightarrow> int \<times> int \<Rightarrow> int \<times> int" where
  "xa_push_hist v h = (v, fst h)"

record xa_dec =
  xd_l :: "int \<times> int"
  xd_r :: "int \<times> int"
  xd_out :: pcm

definition xa_stereo_step :: "(nat \<Rightarrow> u8) \<Rightarrow> nat \<Rightarrow> nat \<Rightarrow> xa_dec \<Rightarrow> xa_dec" where
  "xa_stereo_step grp blk i d =
     (let b = grp (16 + blk + i * 4);
          l = xa_sample (grp (4 + blk * 2)) (xa_nibble False b) (xd_l d);
          r = xa_sample (grp (4 + blk * 2 + 1)) (xa_nibble True b) (xd_r d)
      in \<lparr> xd_l = xa_push_hist l (xd_l d), xd_r = xa_push_hist r (xd_r d), xd_out = xd_out d @ [(l, r)] \<rparr>)"

definition xa_decode_sector_4bit_stereo :: "(nat \<Rightarrow> u8) \<Rightarrow> int \<times> int \<Rightarrow> int \<times> int \<Rightarrow> xa_dec" where
  "xa_decode_sector_4bit_stereo data hl hr =
     fold (\<lambda>g. fold (\<lambda>blk. fold (\<lambda>i. xa_stereo_step (\<lambda>j. data (g * 128 + j)) blk i) [0 ..< 28]) [0 ..< 4]) [0 ..< 18]
       \<lparr> xd_l = hl, xd_r = hr, xd_out = [] \<rparr>"

definition xa_mono_step :: "(nat \<Rightarrow> u8) \<Rightarrow> nat \<Rightarrow> nat \<Rightarrow> nat \<Rightarrow> xa_dec \<Rightarrow> xa_dec" where
  "xa_mono_step grp blk nibble i d =
     (let v = xa_sample (grp (4 + blk * 2 + nibble)) (xa_nibble (nibble \<noteq> 0) (grp (16 + blk + i * 4))) (xd_l d)
      in d\<lparr> xd_l := xa_push_hist v (xd_l d), xd_out := xd_out d @ [(v, v)] \<rparr>)"

definition xa_decode_sector_4bit_mono :: "(nat \<Rightarrow> u8) \<Rightarrow> int \<times> int \<Rightarrow> int \<times> int \<Rightarrow> xa_dec" where
  "xa_decode_sector_4bit_mono data hl hr =
     (let d = fold (\<lambda>g. fold (\<lambda>blk. fold (\<lambda>nibble. fold (\<lambda>i. xa_mono_step (\<lambda>j. data (g * 128 + j)) blk nibble i)
                     [0 ..< 28]) [0 ..< 2]) [0 ..< 4]) [0 ..< 18] \<lparr> xd_l = hl, xd_r = hr, xd_out = [] \<rparr>
      in d\<lparr> xd_r := xd_l d \<rparr>)"

subsection \<open>Resampling\<close>

text \<open>The product is taken in 32 bits.\<close>

definition xa_lerp :: "int \<Rightarrow> int \<Rightarrow> nat \<Rightarrow> int" where
  "xa_lerp cur nxt phase = as_s16 (cur + as_s32 ((nxt - cur) * int phase) sdiv 44100)"

fun phase_carry :: "nat \<Rightarrow> nat \<Rightarrow> nat \<times> nat" where
  "phase_carry in_pos phase = (if phase \<ge> 44100 then phase_carry (in_pos + 1) (phase - 44100) else (in_pos, phase))"

declare phase_carry.simps [simp del]

text \<open>The room left in the output bounds the number of turns.\<close>

primrec resample_loop :: "nat \<Rightarrow> pcm \<Rightarrow> nat \<Rightarrow> nat \<Rightarrow> nat \<Rightarrow> pcm" where
  "resample_loop 0 inp sample_rate in_pos phase = []"
| "resample_loop (Suc n) inp sample_rate in_pos phase =
     (if in_pos < length inp
      then let next_pos = (if in_pos + 1 < length inp then in_pos + 1 else in_pos);
               (cur_l, cur_r) = inp ! in_pos;
               (next_l, next_r) = inp ! next_pos;
               (in_pos1, phase1) = phase_carry in_pos (phase + sample_rate)
           in (xa_lerp cur_l next_l phase, xa_lerp cur_r next_r phase) # resample_loop n inp sample_rate in_pos1 phase1
      else [])"

definition xa_resample_to_44100 :: "pcm \<Rightarrow> nat \<Rightarrow> nat \<Rightarrow> pcm" where
  "xa_resample_to_44100 inp sample_rate max_frames =
     (if inp = [] \<or> sample_rate = 0 \<or> max_frames = 0 then [] else resample_loop max_frames inp sample_rate 0 0)"

subsection \<open>The volume matrix\<close>

type_synonym volume = "nat \<Rightarrow> nat \<Rightarrow> u8"

definition unit_volume :: volume where
  "unit_volume = (\<lambda>i j. if i = j \<and> i < 2 then 0x80 else 0)"

definition volume_pair :: "volume \<Rightarrow> int \<times> int \<Rightarrow> int \<times> int" where
  "volume_pair v p =
     (let l = fst p; r = snd p;
          lo = (l * int (unat (v 0 0))) div 128 + (r * int (unat (v 1 0))) div 128;
          ro = (l * int (unat (v 0 1))) div 128 + (r * int (unat (v 1 1))) div 128
      in (clamp16_cd lo, clamp16_cd ro))"

definition cd_apply_decode_volume :: "volume \<Rightarrow> pcm \<Rightarrow> pcm" where
  "cd_apply_decode_volume v stereo =
     (if v 0 0 = 0x80 \<and> v 1 1 = 0x80 \<and> v 0 1 = 0 \<and> v 1 0 = 0 then stereo else map (volume_pair v) stereo)"

section \<open>Sample ranges and counts\<close>

definition s16_ok :: "int \<Rightarrow> bool" where
  "s16_ok v \<longleftrightarrow> - 32768 \<le> v \<and> v \<le> 32767"

definition pcm_ok :: "pcm \<Rightarrow> bool" where
  "pcm_ok p = list_all (\<lambda>(l, r). s16_ok l \<and> s16_ok r) p"

definition hist_ok :: "int \<times> int \<Rightarrow> bool" where
  "hist_ok h \<longleftrightarrow> s16_ok (fst h) \<and> s16_ok (snd h)"

definition dec_ok :: "xa_dec \<Rightarrow> bool" where
  "dec_ok d \<longleftrightarrow> hist_ok (xd_l d) \<and> hist_ok (xd_r d) \<and> pcm_ok (xd_out d)"

lemma clamp16_ok [simp]: "s16_ok (clamp16_cd v)"
  by (simp add: s16_ok_def clamp16_cd_def)

lemma clamp16_id: "s16_ok v \<Longrightarrow> clamp16_cd v = v"
  by (simp add: s16_ok_def clamp16_cd_def)

lemma as_s16_ok [simp]: "s16_ok (as_s16 v)"
  using signed_take_bit_int_greater_eq_minus_exp [of 15 v] signed_take_bit_int_less_exp [of 15 v]
  by (simp add: s16_ok_def as_s16_def)

lemma xa_sample_ok [simp]: "s16_ok (xa_sample hdr nib h)"
  by (simp add: xa_sample_def)

lemma fold_adds:
  fixes m :: "'s \<Rightarrow> nat"
  assumes "\<And>x d. m (f x d) = m d + c"
  shows "m (fold f xs d) = m d + c * length xs"
  by (induction xs arbitrary: d) (simp_all add: assms)

lemma fold_keeps:
  assumes "\<And>x d. P d \<Longrightarrow> P (f x d)" and "P d"
  shows "P (fold f xs d)"
  using assms(2) by (induction xs arbitrary: d) (simp_all add: assms(1))

lemma stereo_step_ok: "dec_ok d \<Longrightarrow> dec_ok (xa_stereo_step grp blk i d)"
  by (simp add: dec_ok_def hist_ok_def pcm_ok_def xa_stereo_step_def xa_push_hist_def Let_def)

lemma mono_step_ok: "dec_ok d \<Longrightarrow> dec_ok (xa_mono_step grp blk nibble i d)"
  by (simp add: dec_ok_def hist_ok_def pcm_ok_def xa_mono_step_def xa_push_hist_def Let_def)

lemma stereo_step_length: "length (xd_out (xa_stereo_step grp blk i d)) = length (xd_out d) + 1"
  by (simp add: xa_stereo_step_def Let_def)

lemma mono_step_length: "length (xd_out (xa_mono_step grp blk nibble i d)) = length (xd_out d) + 1"
  by (simp add: xa_mono_step_def Let_def)

lemma stereo_decode_facts:
  assumes "hist_ok hl" "hist_ok hr"
  shows "dec_ok (xa_decode_sector_4bit_stereo data hl hr)" "length (xd_out (xa_decode_sector_4bit_stereo data hl hr)) = 2016"
proof -
  show "dec_ok (xa_decode_sector_4bit_stereo data hl hr)"
    unfolding xa_decode_sector_4bit_stereo_def
    by (intro fold_keeps [where P = dec_ok] stereo_step_ok) (use assms in \<open>simp_all add: dec_ok_def pcm_ok_def\<close>)
  have block: "length (xd_out (fold (\<lambda>i. xa_stereo_step grp blk i) [0 ..< 28] d)) = length (xd_out d) + 28" for grp blk d
    using fold_adds [where m = "\<lambda>d. length (xd_out d)" and f = "xa_stereo_step grp blk" and c = 1 and xs = "[0 ..< 28]" and d = d]
    by (simp add: stereo_step_length)
  have group: "length (xd_out (fold (\<lambda>blk. fold (\<lambda>i. xa_stereo_step grp blk i) [0 ..< 28]) [0 ..< 4] d)) = length (xd_out d) + 112" for grp d
    using fold_adds [where m = "\<lambda>d. length (xd_out d)" and f = "\<lambda>blk. fold (\<lambda>i. xa_stereo_step grp blk i) [0 ..< 28]" and c = 28 and xs = "[0 ..< 4]" and d = d]
    by (simp add: block)
  show "length (xd_out (xa_decode_sector_4bit_stereo data hl hr)) = 2016"
    unfolding xa_decode_sector_4bit_stereo_def
    by (subst fold_adds [where m = "\<lambda>d. length (xd_out d)" and c = 112]) (simp_all add: group)
qed

lemma mono_decode_facts:
  assumes "hist_ok hl" "hist_ok hr"
  shows "dec_ok (xa_decode_sector_4bit_mono data hl hr)" "length (xd_out (xa_decode_sector_4bit_mono data hl hr)) = 4032"
proof -
  let ?run = "fold (\<lambda>g. fold (\<lambda>blk. fold (\<lambda>nibble. fold (\<lambda>i. xa_mono_step (\<lambda>j. data (g * 128 + j)) blk nibble i)
                     [0 ..< 28]) [0 ..< 2]) [0 ..< 4]) [0 ..< 18] \<lparr> xd_l = hl, xd_r = hr, xd_out = [] \<rparr>"
  have "dec_ok ?run"
    by (intro fold_keeps [where P = dec_ok] mono_step_ok) (use assms in \<open>simp_all add: dec_ok_def pcm_ok_def\<close>)
  then show "dec_ok (xa_decode_sector_4bit_mono data hl hr)"
    by (simp add: xa_decode_sector_4bit_mono_def Let_def dec_ok_def)
  have unit: "length (xd_out (fold (\<lambda>i. xa_mono_step grp blk nibble i) [0 ..< 28] d)) = length (xd_out d) + 28" for grp blk nibble d
    using fold_adds [where m = "\<lambda>d. length (xd_out d)" and f = "xa_mono_step grp blk nibble" and c = 1 and xs = "[0 ..< 28]" and d = d]
    by (simp add: mono_step_length)
  have block: "length (xd_out (fold (\<lambda>nibble. fold (\<lambda>i. xa_mono_step grp blk nibble i) [0 ..< 28]) [0 ..< 2] d)) = length (xd_out d) + 56" for grp blk d
    using fold_adds [where m = "\<lambda>d. length (xd_out d)" and f = "\<lambda>nibble. fold (\<lambda>i. xa_mono_step grp blk nibble i) [0 ..< 28]" and c = 28 and xs = "[0 ..< 2]" and d = d]
    by (simp add: unit)
  have group: "length (xd_out (fold (\<lambda>blk. fold (\<lambda>nibble. fold (\<lambda>i. xa_mono_step grp blk nibble i) [0 ..< 28]) [0 ..< 2]) [0 ..< 4] d)) = length (xd_out d) + 224" for grp d
    using fold_adds [where m = "\<lambda>d. length (xd_out d)" and f = "\<lambda>blk. fold (\<lambda>nibble. fold (\<lambda>i. xa_mono_step grp blk nibble i) [0 ..< 28]) [0 ..< 2]" and c = 56 and xs = "[0 ..< 4]" and d = d]
    by (simp add: block)
  have "length (xd_out ?run) = 4032"
    by (subst fold_adds [where m = "\<lambda>d. length (xd_out d)" and c = 224]) (simp_all add: group)
  then show "length (xd_out (xa_decode_sector_4bit_mono data hl hr)) = 4032"
    by (simp add: xa_decode_sector_4bit_mono_def Let_def)
qed

subsection \<open>The resampler\<close>

lemma phase_carry_eq: "phase_carry p ph = (p + ph div 44100, ph mod 44100)"
proof (induction p ph rule: phase_carry.induct)
  case (1 p ph)
  then show ?case by (subst phase_carry.simps) (simp add: le_div_geq le_mod_geq)
qed

text \<open>The position of the loop on the time axis is \<open>44100 * in_pos + phase\<close>; a turn moves it by the
  sample rate of the input.\<close>

lemma resample_loop_length:
  assumes "0 < rate" "ph < 44100"
  shows "length (resample_loop m inp rate p ph) = min m ((length inp * 44100 - (p * 44100 + ph) + (rate - 1)) div rate)"
  using assms(2)
proof (induction m arbitrary: p ph)
  case (Suc m)
  let ?n = "length inp * 44100" and ?t = "p * 44100 + ph"
  have inside: "p < length inp \<longleftrightarrow> ?t < ?n" using Suc.prems by auto
  show ?case
  proof (cases "?t < ?n")
    case True
    let ?p = "p + (ph + rate) div 44100" and ?ph = "(ph + rate) mod 44100"
    have pos: "?p * 44100 + ?ph = ?t + rate"
      by (simp add: distrib_right)
    have "(?n - ?t + (rate - 1)) div rate = Suc ((?n - (?t + rate) + (rate - 1)) div rate)"
    proof (cases "?t + rate \<le> ?n")
      case True
      then have eq: "?n - ?t + (rate - 1) = (?n - (?t + rate) + (rate - 1)) + rate" using assms(1) by linarith
      show ?thesis unfolding eq using div_add_self2 [of rate "?n - (?t + rate) + (rate - 1)"] assms(1) by simp
    next
      case False
      then have "rate \<le> ?n - ?t + (rate - 1)" "?n - ?t + (rate - 1) < 2 * rate" using \<open>?t < ?n\<close> assms(1) by linarith+
      then have "(?n - ?t + (rate - 1)) div rate = 1" by (simp add: div_nat_eqI)
      then show ?thesis using False assms(1) by simp
    qed
    then show ?thesis
      using Suc.IH [of ?ph ?p, unfolded pos] True inside
      by (simp add: phase_carry_eq Let_def split_beta)
  next
    case False
    then show ?thesis using inside assms(1) by simp
  qed
qed simp

lemma resample_loop_ok: "pcm_ok (resample_loop m inp rate p ph)"
  by (induction m arbitrary: p ph) (auto simp: pcm_ok_def Let_def xa_lerp_def split: prod.split)

lemma volume_ok: "pcm_ok p \<Longrightarrow> pcm_ok (cd_apply_decode_volume v p)"
  by (auto simp: pcm_ok_def cd_apply_decode_volume_def volume_pair_def Let_def list.pred_set)

lemma volume_length [simp]: "length (cd_apply_decode_volume v p) = length p"
  by (simp add: cd_apply_decode_volume_def)

text \<open>The frame at output position \<open>k\<close> is the input interpolated at the time of that position.\<close>

lemma resample_loop_nth:
  assumes "0 < rate" "ph < 44100" "k < length (resample_loop m inp rate p ph)"
  shows "resample_loop m inp rate p ph ! k =
     (let t = ph + k * rate; i = p + t div 44100; j = (if i + 1 < length inp then i + 1 else i)
      in (xa_lerp (fst (inp ! i)) (fst (inp ! j)) (t mod 44100), xa_lerp (snd (inp ! i)) (snd (inp ! j)) (t mod 44100)))"
  using assms(2,3)
proof (induction m arbitrary: p ph k)
  case (Suc m)
  have in_range: "p < length inp" using Suc.prems by (auto split: if_splits)
  show ?case
  proof (cases k)
    case 0
    then show ?thesis using in_range Suc.prems(1) by (simp add: Let_def split_beta)
  next
    case (Suc k')
    let ?p = "p + (ph + rate) div 44100" and ?ph = "(ph + rate) mod 44100"
    have step: "resample_loop (Suc m) inp rate p ph ! k = resample_loop m inp rate ?p ?ph ! k'"
      using in_range Suc by (simp add: phase_carry_eq Let_def split_beta)
    have k': "k' < length (resample_loop m inp rate ?p ?ph)"
      using in_range Suc Suc.prems(2) by (simp add: phase_carry_eq Let_def split_beta)
    have e: "?p + (?ph + k' * rate) div 44100 = p + (ph + k * rate) div 44100"
      "(?ph + k' * rate) mod 44100 = (ph + k * rate) mod 44100"
    proof -
      have t: "ph + k * rate = (ph + rate) + k' * rate" by (simp add: Suc)
      show "(?ph + k' * rate) mod 44100 = (ph + k * rate) mod 44100" unfolding t by (simp add: mod_add_left_eq)
      have "(ph + rate) + k' * rate = (?ph + k' * rate) + 44100 * ((ph + rate) div 44100)" by simp
      then show "?p + (?ph + k' * rate) div 44100 = p + (ph + k * rate) div 44100"
        unfolding t using div_mult_self2 [of 44100 "?ph + k' * rate" "(ph + rate) div 44100"] by simp
    qed
    have "?ph < 44100" by simp
    from Suc.IH [OF this k'] show ?thesis unfolding step Let_def e .
  qed
qed simp

section \<open>The properties of the sound path\<close>

text \<open>A real-time audio sector of either layout and either sample rate becomes exactly its duration at
  44100 Hz, in the buffer the code reserves for it: the number of frames handed to the sound unit is that of
  the decoded frames times the ratio of the rates, at most 9408, so that no frame is cut off; frame \<open>k\<close> before
  the volume is the interpolation of the decoded frames around position \<open>k\<close>; every sample that leaves the
  volume matrix and every sample kept for the next sector is a 16-bit value.\<close>

lemma xa_sector_frames:
  assumes "hist_ok hl" "hist_ok hr" "rate = 37800 \<or> rate = 18900"
  shows "let d = (if stereo then xa_decode_sector_4bit_stereo data hl hr else xa_decode_sector_4bit_mono data hl hr);
             mid = xa_resample_to_44100 (xd_out d) rate 9408;
             out = cd_apply_decode_volume v mid
     in length (xd_out d) = (if stereo then 2016 else 4032) \<and> length out * rate = length (xd_out d) * 44100 \<and>
        pcm_ok out \<and> hist_ok (xd_l d) \<and> hist_ok (xd_r d) \<and>
        (\<forall>k < length mid. let i = k * rate div 44100; j = min (i + 1) (length (xd_out d) - 1); ph = k * rate mod 44100
           in mid ! k = (xa_lerp (fst (xd_out d ! i)) (fst (xd_out d ! j)) ph, xa_lerp (snd (xd_out d ! i)) (snd (xd_out d ! j)) ph))"
proof -
  define d where "d = (if stereo then xa_decode_sector_4bit_stereo data hl hr else xa_decode_sector_4bit_mono data hl hr)"
  define mid where "mid = xa_resample_to_44100 (xd_out d) rate 9408"
  have d: "dec_ok d" "length (xd_out d) = (if stereo then 2016 else 4032)"
    using stereo_decode_facts [OF assms(1,2), of data] mono_decode_facts [OF assms(1,2), of data] by (auto simp: d_def)
  have mid: "mid = resample_loop 9408 (xd_out d) rate 0 0"
  proof -
    have "xd_out d \<noteq> []" using d(2) by (cases stereo) auto
    then show ?thesis using assms(3) by (auto simp: mid_def xa_resample_to_44100_def)
  qed
  have len: "length mid * rate = length (xd_out d) * 44100"
    using assms(3) d(2) by (auto simp: mid resample_loop_length)
  have at: "mid ! k = (let i = k * rate div 44100; j = min (i + 1) (length (xd_out d) - 1); ph = k * rate mod 44100
           in (xa_lerp (fst (xd_out d ! i)) (fst (xd_out d ! j)) ph, xa_lerp (snd (xd_out d ! i)) (snd (xd_out d ! j)) ph))"
    if "k < length mid" for k
  proof -
    have "k * rate < length mid * rate" using that assms(3) by auto
    then have "k * rate div 44100 < length (xd_out d)" unfolding len by (simp add: less_mult_imp_div_less)
    then have "(if k * rate div 44100 + 1 < length (xd_out d) then k * rate div 44100 + 1 else k * rate div 44100)
        = min (k * rate div 44100 + 1) (length (xd_out d) - 1)" by auto
    then show ?thesis using resample_loop_nth [of rate 0 k 9408 "xd_out d" 0] that assms(3) by (auto simp: mid Let_def)
  qed
  have "pcm_ok (cd_apply_decode_volume v mid)" unfolding mid by (rule volume_ok) (rule resample_loop_ok)
  then show ?thesis
    unfolding Let_def d_def [symmetric] mid_def [symmetric] using d len at by (simp add: dec_ok_def Let_def)
qed

lemma xa_sector_frames_example:
  "length (cd_apply_decode_volume unit_volume (xa_resample_to_44100 (xd_out (xa_decode_sector_4bit_mono (\<lambda>_. 0) (0, 0) (0, 0))) 18900 9408)) = 9408"
  using xa_sector_frames [of "(0, 0)" "(0, 0)" 18900 False "\<lambda>_. 0" unit_volume] by (simp add: Let_def hist_ok_def s16_ok_def)

text \<open>C40. The interpolation is right as long as its product fits in 32 bits: between two 16-bit samples the
  result lies between them and within one step of the exact value. It does not fit for steps near full
  scale: from the lowest to the highest sample the product overflows at phase 37800, which both sample rates
  reach, and the value comes out on the wrong side of zero.\<close>

theorem xa_lerp_between:
  "(\<forall>cur nxt phase. s16_ok cur \<and> s16_ok nxt \<and> phase < 44100 \<and> \<bar>nxt - cur\<bar> * int phase < 2 ^ 31 \<longrightarrow>
     min cur nxt \<le> xa_lerp cur nxt phase \<and> xa_lerp cur nxt phase \<le> max cur nxt \<and>
     \<bar>44100 * (xa_lerp cur nxt phase - cur) - (nxt - cur) * int phase\<bar> < 44100) \<and>
   xa_lerp (- 32768) 32767 37800 = - 8450"
proof (intro conjI allI impI)
  fix cur nxt :: int and phase :: nat
  assume *: "s16_ok cur \<and> s16_ok nxt \<and> phase < 44100 \<and> \<bar>nxt - cur\<bar> * int phase < 2 ^ 31"
  let ?d = "nxt - cur"
  let ?q = "(?d * int phase) sdiv 44100"
  have fit: "as_s32 (?d * int phase) = ?d * int phase"
  proof -
    have "\<bar>?d * int phase\<bar> < 2 ^ 31" using * by (simp add: abs_mult)
    then show ?thesis by (auto simp: as_s32_def intro!: signed_take_bit_int_eq_self)
  qed
  have q: "?q = sgn ?d * ((\<bar>?d\<bar> * int phase) div 44100)"
    by (cases "phase = 0") (simp_all add: signed_divide_int_def abs_mult sgn_mult)
  let ?m = "(\<bar>?d\<bar> * int phase) div 44100"
  have m: "0 \<le> ?m" "44100 * ?m \<le> \<bar>?d\<bar> * int phase" "\<bar>?d\<bar> * int phase < 44100 * ?m + 44100"
    by (simp_all add: mult.commute pos_imp_zdiv_nonneg_iff)
  have "\<bar>?d\<bar> * int phase \<le> \<bar>?d\<bar> * 44100" using * by (intro mult_left_mono) auto
  then have "?m \<le> \<bar>?d\<bar> * 44100 div 44100" by (rule zdiv_mono1) simp
  then have le: "?m \<le> \<bar>?d\<bar>" by simp
  have between: "min cur nxt \<le> cur + ?q" "cur + ?q \<le> max cur nxt"
    unfolding q using le m(1) by (auto simp: sgn_if min_def max_def)
  then have "as_s16 (cur + ?q) = cur + ?q"
    using * by (auto simp: as_s16_def s16_ok_def min_def max_def intro!: signed_take_bit_int_eq_self split: if_splits)
  then have val: "xa_lerp cur nxt phase = cur + ?q" by (simp add: xa_lerp_def fit)
  show "min cur nxt \<le> xa_lerp cur nxt phase" "xa_lerp cur nxt phase \<le> max cur nxt" using between val by simp_all
  show "\<bar>44100 * (xa_lerp cur nxt phase - cur) - ?d * int phase\<bar> < 44100"
  proof -
    define x where "x = \<bar>?d\<bar> * int phase"
    have p: "?d * int phase = sgn ?d * x" unfolding x_def by (simp add: mult_sgn_abs flip: mult.assoc)
    show ?thesis unfolding val q unfolding p using m unfolding x_def [symmetric] by (auto simp: sgn_if)
  qed
next
  show "xa_lerp (- 32768) 32767 37800 = - 8450" by (simp add: xa_lerp_def as_s16_def as_s32_def signed_divide_int_def)
qed

text \<open>Half way between two samples.\<close>

lemma xa_lerp_between_witness:
  "0 \<le> xa_lerp 0 100 22050 \<and> xa_lerp 0 100 22050 \<le> 100 \<and> \<bar>44100 * xa_lerp 0 100 22050 - 100 * 22050\<bar> < 44100"
proof -
  have "s16_ok 0 \<and> s16_ok 100 \<and> (22050 :: nat) < 44100 \<and> \<bar>100 - 0 :: int\<bar> * int 22050 < 2 ^ 31" by (simp add: s16_ok_def)
  then show ?thesis using conjunct1 [OF xa_lerp_between, THEN spec, THEN spec, THEN spec, THEN mp, of 0 100 22050] by simp
qed

end
