(* ===== verification/Cdrom.thy ===== *)
theory Cdrom
  imports Irq_Events Cd_Audio
begin

text \<open>
  The CD-ROM controller (runtime/src/cdrom.c): the banked registers, the parameter and response FIFOs,
  the one-slot command queue, the delayed second responses, the sector stream with its one-deep pended
  notification, the interrupt latch with its presentation delay, the sector buffer and its readers.

  The record \<open>cd\<close> has the functional state, the fields of \<open>CDROM_SNAP_FIELDS\<close>, with the volume matrix, the
  region string, the load bursts and the disc. The disc image reader is code of another language: a mounted
  disc is a record of what its functions return. The calls the controller makes to the sound unit are the
  list \<open>spu_calls\<close>. What the file calls pure diagnostics has no counterpart: the trace ring, the command and
  sector histories and the counters; nor do the wall-clock fields of a burst, the zero-run scan of decoded
  audio and the self-stop trap for a debugger. Whether a CD DMA is under way is an argument.

  Operations that can raise an interrupt act on the pair of this state and the system state. C integers
  that hold indices and truth values are nat and bool; countdowns and addresses are int.
\<close>

section \<open>State\<close>

text \<open>A mounted disc: raw 2352-byte sectors and 2048-byte sectors where the image has them, and its table of
  contents.\<close>

record disc =
  iso_read_raw_sector :: "u32 \<Rightarrow> (nat \<Rightarrow> u8) option"
  iso_read_sector :: "u32 \<Rightarrow> (nat \<Rightarrow> u8) option"
  iso_sector_count :: u32
  iso_track_count :: int
  iso_track_start_lba :: "int \<Rightarrow> u32"

datatype spu_call = Cd_Audio_Push pcm | Cd_Audio_Reset

record pending_cmd =
  pc_cmd :: u8
  pc_pending :: bool
  pc_delay :: int
  pc_phase :: nat

record queued_cmd =
  qc_cmd :: u8
  qc_params :: "nat \<Rightarrow> u8"
  qc_param_count :: nat
  qc_pending :: bool

record cd_burst =
  cb_start_frame :: u32
  cb_end_frame :: u32
  cb_sectors :: u32
  cb_rate :: u32
  cb_divisor :: u32

record sector_delivery =
  raw_mode :: u8
  xa_file :: u8
  xa_channel :: u8
  xa_submode :: u8
  xa_coding :: u8

record cd =
  index_reg :: u8
  stat_reg :: u8
  request_reg :: u8
  irq_enable :: u8
  irq_flag :: u8
  disc_scex :: "nat \<Rightarrow> u8"
  cdrom_intc_request_latched :: bool
  cdrom_irq_generation :: u32
  cdrom_intc_latched_generation :: u32
  cdrom_irq_present_delay :: int
  param_fifo :: "nat \<Rightarrow> u8"
  param_count :: nat
  response_fifo :: "nat \<Rightarrow> u8"
  response_read :: nat
  response_count :: nat
  sector_buffer :: "nat \<Rightarrow> u8"
  sector_read_pos :: nat
  sector_available :: bool
  sector_size :: nat
  last_sector_buffer :: "nat \<Rightarrow> u8"
  last_sector_lba :: int
  last_sector_size :: nat
  last_sector_frame :: u32
  last_sector_mode :: u8
  last_sector_have_raw :: bool
  last_delivery :: sector_delivery
  seek_min :: u8
  seek_sec :: u8
  seek_sect :: u8
  s_setloc_lba :: int
  setloc_seek_far :: bool
  reading :: bool
  read_min :: int
  read_sec :: int
  read_sect :: int
  mode_reg :: u8
  read_cmd :: u8
  read_delay :: int
  filter_file :: u8
  filter_channel :: u8
  cd_muted :: bool
  xa_hist_l :: "int \<times> int"
  xa_hist_r :: "int \<times> int"
  xa_stream_file :: u8
  xa_stream_channel :: u8
  xa_stream_coding :: u8
  xa_stream_active :: bool
  g_disc_speed_divisor :: int
  g_game_divisor :: int
  g_instant_max_per_frame :: int
  s_bursts :: "nat \<Rightarrow> cd_burst"
  s_burst_count :: u32
  pending :: pending_cmd
  queued :: queued_cmd
  iso_handle :: "disc option"
  cd_pending_vol :: volume
  cd_decode_vol :: volume
  pending_dataready :: bool
  pending_dataready_stat :: u8
  spu_calls :: "spu_call list"

type_synonym 'a cdm = "cd \<times> 'a sys_scheme"

abbreviation (input) CDROM_IRQ_PRESENT_DELAY :: int where "CDROM_IRQ_PRESENT_DELAY \<equiv> 5000"
abbreviation (input) PARAM_FIFO_SIZE :: nat where "PARAM_FIFO_SIZE \<equiv> 16"
abbreviation (input) RESPONSE_FIFO_SIZE :: nat where "RESPONSE_FIFO_SIZE \<equiv> 16"
abbreviation (input) SECTOR_SIZE :: nat where "SECTOR_SIZE \<equiv> 2048"
abbreviation (input) RAW_USER_DATA_OFFSET :: nat where "RAW_USER_DATA_OFFSET \<equiv> 24"
abbreviation (input) WHOLE_SECTOR_OFFSET :: nat where "WHOLE_SECTOR_OFFSET \<equiv> 12"
abbreviation (input) WHOLE_SECTOR_SIZE :: nat where "WHOLE_SECTOR_SIZE \<equiv> 2340"
abbreviation (input) FALLBACK_SECTOR_HEADER_SIZE :: nat where "FALLBACK_SECTOR_HEADER_SIZE \<equiv> 12"
abbreviation (input) FALLBACK_WHOLE_SECTOR_SIZE :: nat where "FALLBACK_WHOLE_SECTOR_SIZE \<equiv> 2060"
abbreviation (input) SECTOR_BUFFER_SIZE :: nat where "SECTOR_BUFFER_SIZE \<equiv> 2340"
abbreviation (input) CDROM_REQUEST_BFRD :: u8 where "CDROM_REQUEST_BFRD \<equiv> 0x80"
abbreviation (input) CDROM_MIN_DELAY :: int where "CDROM_MIN_DELAY \<equiv> 500"
abbreviation (input) CDROM_SINGLE_SPEED_SECTOR_CYCLES :: int where "CDROM_SINGLE_SPEED_SECTOR_CYCLES \<equiv> 451584"
abbreviation (input) CD_BURST_CAP :: nat where "CD_BURST_CAP \<equiv> 128"
abbreviation (input) CD_BURST_GAP_FRAMES :: u32 where "CD_BURST_GAP_FRAMES \<equiv> 30"

abbreviation (input) CDSTAT_ERROR :: u8 where "CDSTAT_ERROR \<equiv> 0x01"
abbreviation (input) CDSTAT_MOTOR :: u8 where "CDSTAT_MOTOR \<equiv> 0x02"
abbreviation (input) CDSTAT_SEEKERR :: u8 where "CDSTAT_SEEKERR \<equiv> 0x04"
abbreviation (input) CDSTAT_IDERROR :: u8 where "CDSTAT_IDERROR \<equiv> 0x08"
abbreviation (input) CDSTAT_SHELL :: u8 where "CDSTAT_SHELL \<equiv> 0x10"
abbreviation (input) CDSTAT_READ :: u8 where "CDSTAT_READ \<equiv> 0x20"
abbreviation (input) CDSTAT_SEEK :: u8 where "CDSTAT_SEEK \<equiv> 0x40"
abbreviation (input) CDSTAT_PLAY :: u8 where "CDSTAT_PLAY \<equiv> 0x80"

abbreviation (input) CDIRQ_DATA_READY :: u8 where "CDIRQ_DATA_READY \<equiv> 1"
abbreviation (input) CDIRQ_COMPLETE :: u8 where "CDIRQ_COMPLETE \<equiv> 2"
abbreviation (input) CDIRQ_ACK :: u8 where "CDIRQ_ACK \<equiv> 3"
abbreviation (input) CDIRQ_ERROR :: u8 where "CDIRQ_ERROR \<equiv> 5"

abbreviation (input) SRC_CD_CMD :: u8 where "SRC_CD_CMD \<equiv> 17"
abbreviation (input) SRC_CD_READ :: u8 where "SRC_CD_READ \<equiv> 18"
abbreviation (input) SRC_CD_IRQ :: u8 where "SRC_CD_IRQ \<equiv> 19"
abbreviation (input) EV_CD_ISTAT_RAISE :: u16 where "EV_CD_ISTAT_RAISE \<equiv> 3"

text \<open>An operation on the controller alone, in the pair.\<close>

definition on_cd :: "(cd \<Rightarrow> cd) \<Rightarrow> 'a cdm \<Rightarrow> 'a cdm" where
  "on_cd f m = (f (fst m), snd m)"

section \<open>Configuration\<close>

definition cdrom_set_disc_scex :: "(nat \<Rightarrow> u8) \<Rightarrow> cd \<Rightarrow> cd" where
  "cdrom_set_disc_scex scex s = s\<lparr> disc_scex := (\<lambda>i. if i < 4 then scex i else disc_scex s i) \<rparr>"

definition cdrom_set_speed :: "int \<Rightarrow> cd \<Rightarrow> cd" where
  "cdrom_set_speed divisor s = s\<lparr> g_disc_speed_divisor := divisor \<rparr>"

definition cdrom_set_game_speed :: "int \<Rightarrow> cd \<Rightarrow> cd" where
  "cdrom_set_game_speed divisor s = s\<lparr> g_game_divisor := divisor \<rparr>"

definition cdrom_notify_game_started :: "cd \<Rightarrow> cd" where
  "cdrom_notify_game_started s = s\<lparr> g_disc_speed_divisor := g_game_divisor s \<rparr>"

definition cdrom_get_setloc_lba :: "cd \<Rightarrow> int" where
  "cdrom_get_setloc_lba s = s_setloc_lba s"

definition cdrom_xa_stream_active :: "cd \<Rightarrow> bool" where
  "cdrom_xa_stream_active s = xa_stream_active s"

definition cdrom_set_instant_rate :: "int \<Rightarrow> cd \<Rightarrow> cd" where
  "cdrom_set_instant_rate per_frame s =
     (let p = (if per_frame < 1 then 1 else per_frame);
          p = (if p > 4096 then 4096 else p)
      in s\<lparr> g_instant_max_per_frame := p \<rparr>)"

definition cdrom_get_instant_rate :: "cd \<Rightarrow> int" where
  "cdrom_get_instant_rate s = g_instant_max_per_frame s"

section \<open>Delays\<close>

definition instant_period :: "cd \<Rightarrow> int" where
  "instant_period s = (let p = 564480 sdiv g_instant_max_per_frame s in if p < CDROM_MIN_DELAY then CDROM_MIN_DELAY else p)"

definition apply_speed :: "int \<Rightarrow> cd \<Rightarrow> int" where
  "apply_speed delay s =
     (if xa_stream_active s then delay
      else if g_disc_speed_divisor s = 0 then instant_period s
      else let d = delay sdiv g_disc_speed_divisor s in if d < CDROM_MIN_DELAY then CDROM_MIN_DELAY else d)"

definition sector_delay_cycles :: "cd \<Rightarrow> int" where
  "sector_delay_cycles s =
     apply_speed (if mode_reg s AND 0x80 \<noteq> 0 then CDROM_SINGLE_SPEED_SECTOR_CYCLES div 2 else CDROM_SINGLE_SPEED_SECTOR_CYCLES) s"

definition initial_read_delay_cycles :: "cd \<Rightarrow> int" where
  "initial_read_delay_cycles s =
     apply_speed (if mode_reg s AND 0x80 \<noteq> 0 then CDROM_SINGLE_SPEED_SECTOR_CYCLES else CDROM_SINGLE_SPEED_SECTOR_CYCLES * 2) s"

definition seek_complete_delay_cycles :: "cd \<Rightarrow> int" where
  "seek_complete_delay_cycles s = apply_speed (if setloc_seek_far s then CDROM_SINGLE_SPEED_SECTOR_CYCLES * 4 else 0x800) s"

section \<open>Load bursts\<close>

definition burst_note_sector :: "u32 \<Rightarrow> cd \<Rightarrow> cd" where
  "burst_note_sector f s =
     (let cur = unat (s_burst_count s - 1) mod CD_BURST_CAP;
          fresh = (s_burst_count s = 0 \<or> f > cb_end_frame (s_bursts s cur) + CD_BURST_GAP_FRAMES);
          slot = (if fresh then unat (s_burst_count s) mod CD_BURST_CAP else cur);
          b = (if fresh then (s_bursts s slot)\<lparr> cb_start_frame := f, cb_sectors := 0 \<rparr> else s_bursts s slot);
          b1 = b\<lparr> cb_end_frame := f, cb_sectors := cb_sectors b + 1,
                  cb_rate := word_of_int (g_instant_max_per_frame s), cb_divisor := word_of_int (g_disc_speed_divisor s) \<rparr>
      in s\<lparr> s_bursts := (s_bursts s)(slot := b1), s_burst_count := (if fresh then s_burst_count s + 1 else s_burst_count s) \<rparr>)"

definition cdrom_get_bursts :: "nat \<Rightarrow> cd \<Rightarrow> cd_burst list" where
  "cdrom_get_bursts maxn s =
     map (\<lambda>k. s_bursts s (unat (s_burst_count s - 1 - of_nat k) mod CD_BURST_CAP))
       [0 ..< min maxn (min CD_BURST_CAP (unat (s_burst_count s)))]"

definition cdrom_get_burst_total :: "cd \<Rightarrow> u32" where
  "cdrom_get_burst_total s = s_burst_count s"

definition cdrom_load_in_progress :: "u64 \<Rightarrow> cd \<Rightarrow> bool" where
  "cdrom_load_in_progress frame s =
     (if xa_stream_active s then False
      else if reading s then True
      else s_burst_count s > 0 \<and>
           ucast frame \<le> cb_end_frame (s_bursts s (unat (s_burst_count s - 1) mod CD_BURST_CAP)) + CD_BURST_GAP_FRAMES)"

section \<open>FIFOs and interrupts\<close>

definition has_disc :: "cd \<Rightarrow> bool" where
  "has_disc s \<longleftrightarrow> iso_handle s \<noteq> None"

definition response_clear :: "cd \<Rightarrow> cd" where
  "response_clear s = s\<lparr> response_read := 0, response_count := 0 \<rparr>"

definition response_push :: "u8 \<Rightarrow> cd \<Rightarrow> cd" where
  "response_push val s =
     (if response_count s < RESPONSE_FIFO_SIZE
      then s\<lparr> response_fifo := (response_fifo s)(response_count s := val), response_count := response_count s + 1 \<rparr> else s)"

definition response_pushes :: "u8 list \<Rightarrow> cd \<Rightarrow> cd" where
  "response_pushes vals s = fold response_push vals s"

definition set_irq :: "u8 \<Rightarrow> 'a cdm \<Rightarrow> 'a cdm" where
  "set_irq type m =
     (case m of (s, y) \<Rightarrow>
       (s\<lparr> irq_flag := type, cdrom_irq_generation := cdrom_irq_generation s + 1, cdrom_intc_request_latched := False,
           cdrom_irq_present_delay := CDROM_IRQ_PRESENT_DELAY \<rparr>,
        event_ring_record_aux EV_DEQ SRC_CD_IRQ (ucast type) y))"

text \<open>The interrupt that is up is enabled: bit \<open>irq_flag - 1\<close> of the enable register.\<close>

definition cd_irq_armed :: "cd \<Rightarrow> bool" where
  "cd_irq_armed s \<longleftrightarrow> irq_flag s \<noteq> 0 \<and> (ucast (irq_enable s) :: u32) AND push_bit (unat (irq_flag s) - 1) 1 \<noteq> 0"

definition present_cdrom_irq :: "'a cdm \<Rightarrow> 'a cdm" where
  "present_cdrom_irq m =
     (case m of (s, y) \<Rightarrow>
       if cdrom_irq_present_delay s > 0 then m
       else if cd_irq_armed s \<and> \<not> cdrom_intc_request_latched s
       then (s\<lparr> cdrom_intc_request_latched := True, cdrom_intc_latched_generation := cdrom_irq_generation s \<rparr>,
             event_ring_record EV_CD_ISTAT_RAISE 2 (psx_irq_raise 2 (ucast (irq_flag s)) y))
       else m)"

definition fire_cdrom_irq :: "'a cdm \<Rightarrow> 'a cdm" where
  "fire_cdrom_irq m = present_cdrom_irq m"

definition refresh_cdrom_irq_line :: "'a cdm \<Rightarrow> 'a cdm" where
  "refresh_cdrom_irq_line m = present_cdrom_irq m"

section \<open>Addresses\<close>

definition bcd_to_bin :: "u8 \<Rightarrow> int" where
  "bcd_to_bin bcd = int (unat (drop_bit 4 bcd)) * 10 + int (unat (bcd AND 0x0F))"

definition msf_to_lba :: "int \<Rightarrow> int \<Rightarrow> int \<Rightarrow> int" where
  "msf_to_lba m s f = (m * 60 + s) * 75 + f - 150"

definition bin_to_bcd :: "int \<Rightarrow> u8" where
  "bin_to_bcd val = word_of_int (push_bit 4 (val sdiv 10) OR (val smod 10))"

definition lba_to_msf :: "int \<Rightarrow> int \<Rightarrow> int \<times> int \<times> int" where
  "lba_to_msf lba pregap =
     (let frames = lba + pregap;
          frames = (if frames < 0 then 0 else frames);
          m = frames div (60 * 75);
          frames = frames mod (60 * 75)
      in (m, frames div 75, frames mod 75))"

definition advance_msf :: "int \<times> int \<times> int \<Rightarrow> int \<times> int \<times> int" where
  "advance_msf msf =
     (case msf of (m, s, f) \<Rightarrow>
       let f = f + 1;
           (s, f) = (if f \<ge> 75 then (s + 1, 0) else (s, f));
           (m, s) = (if s \<ge> 60 then (m + 1, 0) else (m, s))
       in (m, s, f))"

section \<open>XA audio\<close>

definition xa_is_audio_realtime :: "sector_delivery \<Rightarrow> bool" where
  "xa_is_audio_realtime d \<longleftrightarrow> raw_mode d = 2 \<and> xa_submode d AND 0x44 = 0x44"

definition no_delivery :: sector_delivery where
  "no_delivery = \<lparr> raw_mode = 0, xa_file = 0, xa_channel = 0, xa_submode = 0, xa_coding = 0 \<rparr>"

definition classify_raw_sector :: "(nat \<Rightarrow> u8) option \<Rightarrow> sector_delivery" where
  "classify_raw_sector raw =
     (case raw of None \<Rightarrow> no_delivery
      | Some r \<Rightarrow>
          if r 15 = 2 then \<lparr> raw_mode = r 15, xa_file = r 16, xa_channel = r 17, xa_submode = r 18, xa_coding = r 19 \<rparr>
          else no_delivery\<lparr> raw_mode := r 15 \<rparr>)"

definition xa_reset_decode :: "cd \<Rightarrow> cd" where
  "xa_reset_decode s =
     s\<lparr> xa_hist_l := (0, 0), xa_hist_r := (0, 0), xa_stream_file := 0xFF, xa_stream_channel := 0xFF,
        xa_stream_coding := 0xFF, xa_stream_active := False \<rparr>"

definition log_audio_push :: "pcm \<Rightarrow> cd \<Rightarrow> cd" where
  "log_audio_push samples s = s\<lparr> spu_calls := spu_calls s @ [Cd_Audio_Push samples] \<rparr>"

definition log_audio_reset :: "cd \<Rightarrow> cd" where
  "log_audio_reset s = s\<lparr> spu_calls := spu_calls s @ [Cd_Audio_Reset] \<rparr>"

definition xa_sample_rate :: "u8 \<Rightarrow> nat" where
  "xa_sample_rate coding =
     (let rate_code = drop_bit 2 coding AND 0x03 in if rate_code = 0 then 37800 else if rate_code = 1 then 18900 else 0)"

text \<open>The decoding of one audio sector for the stream it belongs to.\<close>

definition xa_play_sector :: "(nat \<Rightarrow> u8) \<Rightarrow> sector_delivery \<Rightarrow> cd \<Rightarrow> cd" where
  "xa_play_sector raw d s =
     (let s1 = (if \<not> xa_stream_active s \<or> xa_stream_file s \<noteq> xa_file d \<or> xa_stream_channel s \<noteq> xa_channel d \<or>
                   xa_stream_coding s \<noteq> xa_coding d
                then (xa_reset_decode s)\<lparr> xa_stream_file := xa_file d, xa_stream_channel := xa_channel d,
                       xa_stream_coding := xa_coding d, xa_stream_active := True \<rparr>
                else s);
          dec = (if xa_coding d AND 1 \<noteq> 0
                 then xa_decode_sector_4bit_stereo (\<lambda>i. raw (24 + i)) (xa_hist_l s1) (xa_hist_r s1)
                 else xa_decode_sector_4bit_mono (\<lambda>i. raw (24 + i)) (xa_hist_l s1) (xa_hist_r s1));
          pcm_44100 = xa_resample_to_44100 (xd_out dec) (xa_sample_rate (xa_coding d)) 9408
      in log_audio_push (cd_apply_decode_volume (cd_decode_vol s1) pcm_44100)
           (s1\<lparr> xa_hist_l := xd_l dec, xa_hist_r := xd_r dec \<rparr>))"

definition maybe_deliver_xa_audio :: "(nat \<Rightarrow> u8) \<Rightarrow> sector_delivery \<Rightarrow> cd \<Rightarrow> bool \<times> cd" where
  "maybe_deliver_xa_audio raw d s =
     (if mode_reg s AND 0x40 = 0 \<or> cd_muted s then (False, s)
      else if \<not> xa_is_audio_realtime d then (False, s)
      else if mode_reg s AND 0x08 \<noteq> 0 \<and> (xa_file d \<noteq> filter_file s \<or> xa_channel d \<noteq> filter_channel s) then (False, s)
      else if drop_bit 4 (xa_coding d) AND 0x03 \<noteq> 0 \<or> xa_sample_rate (xa_coding d) = 0 then (False, s)
      else (True, xa_play_sector raw d s))"

section \<open>Sectors\<close>

text \<open>\<open>memcpy\<close> into a buffer.\<close>

definition blit :: "(nat \<Rightarrow> u8) \<Rightarrow> nat \<Rightarrow> (nat \<Rightarrow> u8) \<Rightarrow> nat \<Rightarrow> nat \<Rightarrow> u8" where
  "blit dst at src n = (\<lambda>i. if at \<le> i \<and> i < at + n then src (i - at) else dst i)"

definition sector_raw :: "int \<Rightarrow> cd \<Rightarrow> (nat \<Rightarrow> u8) option" where
  "sector_raw lba s = (case iso_handle s of None \<Rightarrow> None | Some d \<Rightarrow> iso_read_raw_sector d (word_of_int lba))"

definition sector_user_data :: "int \<Rightarrow> cd \<Rightarrow> nat \<Rightarrow> u8" where
  "sector_user_data lba s =
     (case iso_handle s of None \<Rightarrow> (\<lambda>_. 0)
      | Some d \<Rightarrow> (case iso_read_raw_sector d (word_of_int lba) of
                    Some raw \<Rightarrow> (\<lambda>i. raw (RAW_USER_DATA_OFFSET + i))
                  | None \<Rightarrow> (case iso_read_sector d (word_of_int lba) of Some u \<Rightarrow> u | None \<Rightarrow> (\<lambda>_. 0))))"

text \<open>The sector buffer and its size for a sector handed to the CPU: the whole sector or its user data, by
  the mode register.\<close>

definition sector_payload :: "int \<Rightarrow> int \<Rightarrow> int \<Rightarrow> cd \<Rightarrow> (nat \<Rightarrow> u8) \<times> nat" where
  "sector_payload mn sec sect s =
     (let lba = msf_to_lba mn sec sect;
          user_data = sector_user_data lba s
      in if mode_reg s AND 0x20 \<noteq> 0
         then case sector_raw lba s of
                Some raw \<Rightarrow> (blit (\<lambda>_. 0) 0 (\<lambda>i. raw (WHOLE_SECTOR_OFFSET + i)) WHOLE_SECTOR_SIZE, WHOLE_SECTOR_SIZE)
              | None \<Rightarrow> (blit ((\<lambda>_. 0)(0 := bin_to_bcd mn, 1 := bin_to_bcd sec, 2 := bin_to_bcd sect, 3 := 2))
                          FALLBACK_SECTOR_HEADER_SIZE user_data SECTOR_SIZE, FALLBACK_WHOLE_SECTOR_SIZE)
         else (blit (\<lambda>_. 0) 0 user_data SECTOR_SIZE, SECTOR_SIZE))"

definition read_sector_at :: "int \<Rightarrow> int \<Rightarrow> int \<Rightarrow> u64 \<Rightarrow> cd \<Rightarrow> bool \<times> cd" where
  "read_sector_at mn sec sect frame s =
     (let lba = msf_to_lba mn sec sect;
          user_data = sector_user_data lba s;
          raw = sector_raw lba s;
          delivery = classify_raw_sector raw;
          (audio, s1) = maybe_deliver_xa_audio (case raw of Some r \<Rightarrow> r | None \<Rightarrow> (\<lambda>_. 0)) delivery s;
          data_delivered = (\<not> (audio \<or> mode_reg s1 AND 0x08 \<noteq> 0 \<and> xa_is_audio_realtime delivery));
          (buf, sz) = (if data_delivered then sector_payload mn sec sect s1 else (\<lambda>_. 0, 0));
          s2 = s1\<lparr> sector_buffer := buf, sector_size := sz, sector_read_pos := 0, sector_available := data_delivered \<rparr>;
          s3 = (if data_delivered
                then burst_note_sector (ucast frame) (s2\<lparr> last_sector_buffer := blit (last_sector_buffer s2) 0 buf sz \<rparr>)
                else s2\<lparr> last_sector_buffer := blit (\<lambda>_. 0) 0 user_data SECTOR_SIZE \<rparr>)
      in (data_delivered,
          s3\<lparr> last_sector_lba := lba, last_sector_size := (if data_delivered then sz else SECTOR_SIZE),
              last_sector_frame := ucast frame, last_sector_mode := mode_reg s3, last_sector_have_raw := (raw \<noteq> None),
              last_delivery := delivery \<rparr>))"

definition clear_sector_buffer :: "cd \<Rightarrow> cd" where
  "clear_sector_buffer s =
     s\<lparr> sector_read_pos := 0, sector_size := 0, sector_available := False,
        request_reg := request_reg s AND NOT CDROM_REQUEST_BFRD \<rparr>"

definition cdrom_clear_pending_dataready :: "cd \<Rightarrow> cd" where
  "cdrom_clear_pending_dataready s = s\<lparr> pending_dataready := False, pending_dataready_stat := 0 \<rparr>"

section \<open>The read stream\<close>

definition start_read_stream :: "u8 \<Rightarrow> 'a cdm \<Rightarrow> 'a cdm" where
  "start_read_stream cmd m =
     (case m of (s, y) \<Rightarrow>
       let s1 = cdrom_clear_pending_dataready (clear_sector_buffer s);
           s2 = (if mode_reg s1 AND 0x40 \<noteq> 0 then log_audio_reset (xa_reset_decode s1) else s1);
           s3 = s2\<lparr> read_min := int (unat (seek_min s2)), read_sec := int (unat (seek_sec s2)),
                    read_sect := int (unat (seek_sect s2)), read_cmd := cmd \<rparr>;
           s4 = s3\<lparr> read_delay := initial_read_delay_cycles s3, reading := True, stat_reg := stat_reg s3 OR CDSTAT_READ \<rparr>
       in (s4, event_ring_record_aux EV_ENQ SRC_CD_READ (word_of_int (read_delay s4)) y))"

definition stop_read_stream :: "cd \<Rightarrow> cd" where
  "stop_read_stream s = cdrom_clear_pending_dataready (s\<lparr> reading := False, read_cmd := 0, read_delay := 0 \<rparr>)"

definition data_fifo_ready :: "cd \<Rightarrow> bool" where
  "data_fifo_ready s \<longleftrightarrow> request_reg s AND CDROM_REQUEST_BFRD \<noteq> 0 \<and> sector_available s \<and> sector_read_pos s < sector_size s"

text \<open>\<open>read_sector_at\<close> at the position of the stream, which then moves on.\<close>

definition deliver_read_sector_without_irq :: "'a cdm \<Rightarrow> bool \<times> 'a cdm" where
  "deliver_read_sector_without_irq m =
     (case m of (s, y) \<Rightarrow>
       let (delivered, s1) = read_sector_at (read_min s) (read_sec s) (read_sect s) (s_frame_count y) s;
           (mn, sec, sect) = advance_msf (read_min s1, read_sec s1, read_sect s1)
       in (delivered, (s1\<lparr> read_min := mn, read_sec := sec, read_sect := sect \<rparr>, y)))"

text \<open>A one-byte response with its interrupt.\<close>

definition respond :: "u8 list \<Rightarrow> u8 \<Rightarrow> 'a cdm \<Rightarrow> 'a cdm" where
  "respond vals type m = set_irq type (on_cd (response_pushes vals) m)"

definition deliver_read_sector :: "'a cdm \<Rightarrow> bool \<times> 'a cdm" where
  "deliver_read_sector m =
     (let (delivered, m1) = deliver_read_sector_without_irq m
      in if \<not> delivered then (False, m1)
         else (True, fire_cdrom_irq (respond [stat_reg (fst m1)] CDIRQ_DATA_READY (on_cd response_clear m1))))"

section \<open>Commands\<close>

definition pause_complete_delay_cycles :: "cd \<Rightarrow> int" where
  "pause_complete_delay_cycles s =
     (if \<not> reading s \<and> stat_reg s AND (CDSTAT_READ OR CDSTAT_PLAY) = 0 then 5000
      else let lba = (if reading s then msf_to_lba (read_min s) (read_sec s) (read_sect s) else last_sector_lba s);
               lba = (if lba < 0 then 0 else lba);
               cycles = 1124584 + lba * 42596 div (75 * 60)
           in if mode_reg s AND 0x80 = 0 then cycles * 2 else cycles)"

definition schedule_second :: "u8 \<Rightarrow> int \<Rightarrow> 'a cdm \<Rightarrow> 'a cdm" where
  "schedule_second cmd delay m =
     on_cd (\<lambda>s. s\<lparr> pending := \<lparr> pc_cmd = cmd, pc_pending = True, pc_delay = delay, pc_phase = 1 \<rparr> \<rparr>) m"

text \<open>The status byte and the acknowledge interrupt, with which most commands end.\<close>

definition ack_stat :: "'a cdm \<Rightarrow> 'a cdm" where
  "ack_stat m = respond [stat_reg (fst m)] CDIRQ_ACK m"

definition reject :: "u8 \<Rightarrow> u8 list \<Rightarrow> 'a cdm \<Rightarrow> 'a cdm" where
  "reject bits codes m = respond ((stat_reg (fst m) OR bits) # codes) CDIRQ_ERROR m"

definition cd_stat_on :: "u8 \<Rightarrow> cd \<Rightarrow> cd" where
  "cd_stat_on b s = s\<lparr> stat_reg := stat_reg s OR b \<rparr>"

definition cd_stat_off :: "u8 \<Rightarrow> cd \<Rightarrow> cd" where
  "cd_stat_off b s = s\<lparr> stat_reg := stat_reg s AND NOT b \<rparr>"

definition cmd_setloc :: "cd \<Rightarrow> cd" where
  "cmd_setloc s =
     (if param_count s \<ge> 3
      then let current_lba = (if last_sector_lba s \<ge> 0 then last_sector_lba s
                              else msf_to_lba (int (unat (seek_min s))) (int (unat (seek_sec s))) (int (unat (seek_sect s))));
               mn = word_of_int (bcd_to_bin (param_fifo s 0)) :: u8;
               sec = word_of_int (bcd_to_bin (param_fifo s 1)) :: u8;
               sect = word_of_int (bcd_to_bin (param_fifo s 2)) :: u8;
               lba = msf_to_lba (int (unat mn)) (int (unat sec)) (int (unat sect))
           in s\<lparr> seek_min := mn, seek_sec := sec, seek_sect := sect, s_setloc_lba := lba,
                 setloc_seek_far := (\<bar>current_lba - lba\<bar> > 16) \<rparr>
      else s)"

definition cmd_read :: "u8 \<Rightarrow> 'a cdm \<Rightarrow> 'a cdm" where
  "cmd_read cmd m = (if \<not> has_disc (fst m) then reject CDSTAT_ERROR [] m else ack_stat (start_read_stream cmd m))"

definition getloc_l_bytes :: "cd \<Rightarrow> u8 list" where
  "getloc_l_bytes s =
     (let lba = (if last_sector_lba s \<ge> 0 then last_sector_lba s else msf_to_lba (read_min s) (read_sec s) (read_sect s));
          (mn, sec, f) = lba_to_msf lba 150;
          d = last_delivery s
      in [bin_to_bcd mn, bin_to_bcd sec, bin_to_bcd f, if raw_mode d \<noteq> 0 then raw_mode d else 2,
          xa_file d, xa_channel d, xa_submode d, xa_coding d])"

definition getloc_p_bytes :: "cd \<Rightarrow> u8 list" where
  "getloc_p_bytes s =
     (let lba = (if reading s then msf_to_lba (read_min s) (read_sec s) (read_sect s)
                 else if last_sector_lba s \<ge> 0 then last_sector_lba s
                 else msf_to_lba (int (unat (seek_min s))) (int (unat (seek_sec s))) (int (unat (seek_sect s))));
          (rm, rs, rf) = lba_to_msf lba 0;
          (am, as, af) = lba_to_msf lba 150
      in [1, 1, bin_to_bcd rm, bin_to_bcd rs, bin_to_bcd rf, bin_to_bcd am, bin_to_bcd as, bin_to_bcd af])"

definition get_tn_bytes :: "cd \<Rightarrow> u8 list" where
  "get_tn_bytes s =
     (let last = (case iso_handle s of Some d \<Rightarrow> iso_track_count d | None \<Rightarrow> 1);
          last = (if last < 1 then 1 else last)
      in [stat_reg s, 1, bin_to_bcd last])"

definition get_td_bytes :: "disc \<Rightarrow> cd \<Rightarrow> u8 list" where
  "get_td_bytes d s =
     (let raw = (if param_count s \<ge> 1 then param_fifo s 0 else 0);
          track = bcd_to_bin raw;
          lba = (if raw = 0xAA \<or> track = 0 then sint (iso_sector_count d) else sint (iso_track_start_lba d track));
          (mn, sec, f) = lba_to_msf lba 150
      in [stat_reg s, bin_to_bcd mn, bin_to_bcd sec])"

definition cmd_get_td :: "'a cdm \<Rightarrow> 'a cdm" where
  "cmd_get_td m =
     (case iso_handle (fst m) of None \<Rightarrow> reject CDSTAT_ERROR [0x80] m
      | Some d \<Rightarrow> respond (get_td_bytes d (fst m)) CDIRQ_ACK m)"

definition cmd_motor_on :: "'a cdm \<Rightarrow> 'a cdm" where
  "cmd_motor_on m =
     (if stat_reg (fst m) AND CDSTAT_MOTOR \<noteq> 0 then reject CDSTAT_ERROR [0x20] m
      else let m1 = ack_stat m in schedule_second 0x07 (apply_speed 30000 (fst m1)) m1)"

definition cmd_stop :: "'a cdm \<Rightarrow> 'a cdm" where
  "cmd_stop m =
     (let m1 = ack_stat (on_cd (\<lambda>s. cd_stat_off (CDSTAT_READ OR CDSTAT_PLAY OR CDSTAT_SEEK)
                 (log_audio_reset (xa_reset_decode (stop_read_stream s)))) m)
      in schedule_second 0x08 (apply_speed 30000 (fst m1)) m1)"

definition cmd_pause :: "'a cdm \<Rightarrow> 'a cdm" where
  "cmd_pause m =
     (let complete_delay = pause_complete_delay_cycles (fst m)
      in schedule_second 0x09 complete_delay
           (ack_stat (on_cd (\<lambda>s. cd_stat_off CDSTAT_READ (log_audio_reset (xa_reset_decode (stop_read_stream s)))) m)))"

definition cmd_init :: "'a cdm \<Rightarrow> 'a cdm" where
  "cmd_init m =
     schedule_second 0x0A 1136000
       (ack_stat (on_cd (\<lambda>s. (xa_reset_decode (log_audio_reset (stop_read_stream s)))
          \<lparr> stat_reg := if has_disc s then CDSTAT_MOTOR else CDSTAT_SHELL \<rparr>) m))"

definition cmd_setfilter :: "cd \<Rightarrow> cd" where
  "cmd_setfilter s =
     (if param_count s \<ge> 2
      then xa_reset_decode (s\<lparr> filter_file := param_fifo s 0, filter_channel := param_fifo s 1 \<rparr>) else s)"

definition cmd_setmode :: "cd \<Rightarrow> cd" where
  "cmd_setmode s =
     (if param_count s \<ge> 1
      then let s1 = s\<lparr> mode_reg := param_fifo s 0 \<rparr>
           in if mode_reg s1 AND 0x40 = 0 then log_audio_reset (xa_reset_decode s1) else s1
      else s)"

definition cmd_play :: "'a cdm \<Rightarrow> 'a cdm" where
  "cmd_play m =
     (if \<not> has_disc (fst m) then reject CDSTAT_ERROR [] m
      else ack_stat (on_cd (\<lambda>s. s\<lparr> stat_reg := (stat_reg s AND NOT (CDSTAT_SEEK OR CDSTAT_READ)) OR CDSTAT_MOTOR OR CDSTAT_PLAY \<rparr>) m))"

definition cmd_seek :: "u8 \<Rightarrow> 'a cdm \<Rightarrow> 'a cdm" where
  "cmd_seek cmd m =
     (if \<not> has_disc (fst m) then reject (CDSTAT_ERROR OR CDSTAT_SEEKERR) [] m
      else let m1 = ack_stat (on_cd (\<lambda>s. cd_stat_on CDSTAT_SEEK (log_audio_reset (xa_reset_decode s))) m)
           in schedule_second cmd (seek_complete_delay_cycles (fst m1)) m1)"

definition cmd_test :: "'a cdm \<Rightarrow> 'a cdm" where
  "cmd_test m =
     (if param_count (fst m) \<ge> 1 \<and> param_fifo (fst m) 0 = 0x20 then respond [0x94, 0x09, 0x19, 0xC0] CDIRQ_ACK m
      else ack_stat m)"

text \<open>The \<open>switch\<close> of \<open>exec_command\<close>.\<close>

definition exec_switch :: "u8 \<Rightarrow> 'a cdm \<Rightarrow> 'a cdm" where
  "exec_switch cmd m =
     (if cmd = 0x01 then ack_stat (on_cd (cd_stat_on (if has_disc (fst m) then CDSTAT_MOTOR else CDSTAT_SHELL)) m)
      else if cmd = 0x02 then ack_stat (on_cd cmd_setloc m)
      else if cmd = 0x06 then cmd_read cmd m
      else if cmd = 0x07 then cmd_motor_on m
      else if cmd = 0x08 then cmd_stop m
      else if cmd = 0x09 then cmd_pause m
      else if cmd = 0x0A then cmd_init m
      else if cmd = 0x0B then ack_stat (on_cd (cd_muted_update (\<lambda>_. True)) m)
      else if cmd = 0x0C then ack_stat (on_cd (cd_muted_update (\<lambda>_. False)) m)
      else if cmd = 0x0D then ack_stat (on_cd cmd_setfilter m)
      else if cmd = 0x0E then ack_stat (on_cd cmd_setmode m)
      else if cmd = 0x0F
      then respond [stat_reg (fst m), mode_reg (fst m), 0, filter_file (fst m), filter_channel (fst m)] CDIRQ_ACK m
      else if cmd = 0x10 then respond (getloc_l_bytes (fst m)) CDIRQ_ACK m
      else if cmd = 0x11 then respond (getloc_p_bytes (fst m)) CDIRQ_ACK m
      else if cmd = 0x13 then respond (get_tn_bytes (fst m)) CDIRQ_ACK m
      else if cmd = 0x14 then cmd_get_td m
      else if cmd = 0x03 then cmd_play m
      else if cmd = 0x15 \<or> cmd = 0x16 then cmd_seek cmd m
      else if cmd = 0x1A then schedule_second 0x1A 33868 (ack_stat m)
      else if cmd = 0x1B then cmd_read cmd m
      else if cmd = 0x1E then schedule_second 0x1E 30000000 (ack_stat m)
      else if cmd = 0x19 then cmd_test m
      else reject CDSTAT_ERROR [] m)"

definition exec_command :: "u8 \<Rightarrow> 'a cdm \<Rightarrow> 'a cdm" where
  "exec_command cmd m =
     (let m1 = (fst m, event_ring_record_aux EV_ENQ SRC_CD_CMD (ucast cmd) (snd m));
          m2 = exec_switch cmd (on_cd response_clear m1)
      in fire_cdrom_irq (on_cd (param_count_update (\<lambda>_. 0)) m2))"

definition no_queued :: queued_cmd where
  "no_queued = \<lparr> qc_cmd = 0, qc_params = (\<lambda>_. 0), qc_param_count = 0, qc_pending = False \<rparr>"

definition try_execute_queued_command :: "'a cdm \<Rightarrow> 'a cdm" where
  "try_execute_queued_command m =
     (if \<not> qc_pending (queued (fst m)) \<or> irq_flag (fst m) \<noteq> 0 then m
      else let q = queued (fst m);
               n = (if qc_param_count q > PARAM_FIFO_SIZE then PARAM_FIFO_SIZE else qc_param_count q)
           in exec_command (qc_cmd q)
                (on_cd (\<lambda>s. s\<lparr> param_fifo := blit (param_fifo s) 0 (qc_params q) n, param_count := n, queued := no_queued \<rparr>) m))"

definition queue_or_exec_command :: "u8 \<Rightarrow> 'a cdm \<Rightarrow> 'a cdm" where
  "queue_or_exec_command cmd m =
     (if irq_flag (fst m) = 0 then exec_command cmd m
      else on_cd (\<lambda>s. let n = (if param_count s > PARAM_FIFO_SIZE then PARAM_FIFO_SIZE else param_count s)
                      in s\<lparr> queued := \<lparr> qc_cmd = cmd, qc_params = blit (qc_params (queued s)) 0 (param_fifo s) n,
                              qc_param_count = n, qc_pending = True \<rparr>,
                            param_count := 0 \<rparr>) m)"

section \<open>Second responses and the stream\<close>

definition complete_with :: "(cd \<Rightarrow> cd) \<Rightarrow> 'a cdm \<Rightarrow> 'a cdm" where
  "complete_with f m = (let m1 = on_cd f m in fire_cdrom_irq (respond [stat_reg (fst m1)] CDIRQ_COMPLETE m1))"

definition complete_get_id :: "'a cdm \<Rightarrow> 'a cdm" where
  "complete_get_id m =
     (let s = fst m
      in fire_cdrom_irq
           (if \<not> has_disc s then reject CDSTAT_IDERROR [0x80] m
            else respond ([stat_reg s, 0, 0x20, 0] @ map (disc_scex s) [0 ..< 4]) CDIRQ_COMPLETE m))"

definition pending_switch :: "u8 \<Rightarrow> 'a cdm \<Rightarrow> 'a cdm" where
  "pending_switch cmd m =
     (if cmd = 0x06 \<or> cmd = 0x1B
      then if reading (fst m)
           then let (delivered, m1) = deliver_read_sector_without_irq m
                in if delivered then fire_cdrom_irq (respond [stat_reg (fst m1)] CDIRQ_DATA_READY m1) else m1
           else m
      else if cmd = 0x07 then complete_with (cd_stat_on CDSTAT_MOTOR) m
      else if cmd = 0x08 then complete_with (cd_stat_off (CDSTAT_MOTOR OR CDSTAT_READ OR CDSTAT_PLAY OR CDSTAT_SEEK)) m
      else if cmd = 0x09 then complete_with (cd_stat_off CDSTAT_READ) m
      else if cmd = 0x0A then complete_with id m
      else if cmd = 0x15 \<or> cmd = 0x16 then complete_with (\<lambda>s. (cd_stat_off CDSTAT_SEEK s)\<lparr> setloc_seek_far := False \<rparr>) m
      else if cmd = 0x1A then complete_get_id m
      else if cmd = 0x1E then complete_with id m
      else m)"

definition process_pending :: "u32 \<Rightarrow> 'a cdm \<Rightarrow> 'a cdm" where
  "process_pending cycles m =
     (if \<not> pc_pending (pending (fst m)) then m
      else if cycles = 0 then m
      else if irq_flag (fst m) \<noteq> 0 then m
      else let delay = pc_delay (pending (fst m)) - sint cycles;
               m1 = on_cd (\<lambda>s. s\<lparr> pending := (pending s)\<lparr> pc_delay := delay \<rparr> \<rparr>) m
           in if delay > 0 then m1
              else let m2 = on_cd (\<lambda>s. response_clear (s\<lparr> pending := (pending s)\<lparr> pc_pending := False \<rparr> \<rparr>)) m1
                   in pending_switch (pc_cmd (pending (fst m2))) m2)"

text \<open>A sector that is due; \<open>dma\<close> tells whether a CD DMA is under way.\<close>

definition stream_sector :: "bool \<Rightarrow> 'a cdm \<Rightarrow> 'a cdm" where
  "stream_sector dma m =
     (if irq_flag (fst m) = 0 then snd (deliver_read_sector m)
      else if dma then snd (deliver_read_sector_without_irq m)
      else let (delivered, m1) = deliver_read_sector_without_irq m
           in if delivered then on_cd (\<lambda>s. s\<lparr> pending_dataready := True, pending_dataready_stat := stat_reg s \<rparr>) m1 else m1)"

definition process_read_stream :: "bool \<Rightarrow> u32 \<Rightarrow> 'a cdm \<Rightarrow> 'a cdm" where
  "process_read_stream dma cycles m =
     (if \<not> reading (fst m) then m
      else let m1 = (if cycles > 0 then on_cd (\<lambda>s. s\<lparr> read_delay := read_delay s - sint cycles \<rparr>) m else m)
           in if read_delay (fst m1) \<le> 0
              then on_cd (\<lambda>s. let d = read_delay s + sector_delay_cycles s
                              in s\<lparr> read_delay := if d \<le> 0 then sector_delay_cycles s else d \<rparr>)
                     (stream_sector dma m1)
              else m1)"

definition present_pending_dataready :: "'a cdm \<Rightarrow> 'a cdm" where
  "present_pending_dataready m =
     (if \<not> pending_dataready (fst m) \<or> irq_flag (fst m) \<noteq> 0 then m
      else fire_cdrom_irq (respond [pending_dataready_stat (fst m)] CDIRQ_DATA_READY
             (on_cd (\<lambda>s. response_clear (s\<lparr> pending_dataready := False \<rparr>)) m)))"

section \<open>The interface\<close>

definition cdrom_init :: "(string \<Rightarrow> disc option) \<Rightarrow> string option \<Rightarrow> cd \<Rightarrow> cd" where
  "cdrom_init iso_open cue_path s =
     (let s1 = stop_read_stream (s\<lparr>
            param_fifo := (\<lambda>_. 0), response_fifo := (\<lambda>_. 0), sector_buffer := (\<lambda>_. 0), last_sector_buffer := (\<lambda>_. 0),
            index_reg := 0, request_reg := 0, irq_enable := 0x1F, irq_flag := 0, cdrom_intc_request_latched := False,
            cdrom_irq_generation := 0, cdrom_intc_latched_generation := 0, cdrom_irq_present_delay := 0, param_count := 0,
            response_read := 0, response_count := 0, sector_read_pos := 0, sector_size := 0, sector_available := False,
            last_sector_lba := - 1, last_sector_size := 0, last_sector_frame := 0, last_sector_mode := 0,
            last_sector_have_raw := False, last_delivery := no_delivery \<rparr>);
          s2 = log_audio_reset (xa_reset_decode (s1\<lparr> mode_reg := 0, filter_file := 0, filter_channel := 0, cd_muted := False \<rparr>));
          s3 = s2\<lparr> pending := (pending s2)\<lparr> pc_pending := False \<rparr>, queued := no_queued,
                   seek_min := 0, seek_sec := 0, seek_sect := 0, setloc_seek_far := False \<rparr>;
          s4 = (case cue_path of None \<Rightarrow> s3 | Some path \<Rightarrow> s3\<lparr> iso_handle := iso_open path \<rparr>)
      in s4\<lparr> stat_reg := if has_disc s4 then CDSTAT_MOTOR else CDSTAT_SHELL \<rparr>)"

definition status_byte :: "cd \<Rightarrow> u8" where
  "status_byte s =
     (index_reg s AND 0x03) OR (if param_count s = 0 then 0x08 else 0) OR (if param_count s < PARAM_FIFO_SIZE then 0x10 else 0)
     OR (if response_read s < response_count s then 0x20 else 0) OR (if data_fifo_ready s then 0x40 else 0)
     OR (if qc_pending (queued s) then 0x80 else 0)"

definition read_response :: "cd \<Rightarrow> u8 \<times> cd" where
  "read_response s =
     (if response_read s < response_count s
      then (response_fifo s (response_read s), s\<lparr> response_read := response_read s + 1 \<rparr>) else (0, s))"

definition cd_read_data :: "cd \<Rightarrow> u8 \<times> cd" where
  "cd_read_data s =
     (if data_fifo_ready s
      then let s1 = s\<lparr> sector_read_pos := sector_read_pos s + 1 \<rparr>
           in (sector_buffer s (sector_read_pos s),
               if sector_read_pos s1 \<ge> sector_size s1 then s1\<lparr> sector_available := False \<rparr> else s1)
      else (0, s))"

definition cdrom_read :: "u32 \<Rightarrow> cd \<Rightarrow> u32 \<times> cd" where
  "cdrom_read addr s =
     (if addr = 0x1F801800 then (ucast (status_byte s), s)
      else if addr = 0x1F801801 then map_prod ucast id (read_response s)
      else if addr = 0x1F801802 then map_prod ucast id (cd_read_data s)
      else if addr = 0x1F801803
      then (if index_reg s = 0 \<or> index_reg s = 2 then ucast (irq_enable s) else ucast (irq_flag s OR 0xE0), s)
      else (0, s))"

definition ack_irq :: "u8 \<Rightarrow> cd \<Rightarrow> cd" where
  "ack_irq val s =
     (let had_active_irq = (irq_flag s AND 0x1F \<noteq> 0);
          s1 = s\<lparr> irq_flag := irq_flag s AND NOT (val AND 0x1F) \<rparr>;
          s2 = (if had_active_irq \<and> irq_flag s1 AND 0x1F = 0 then s1\<lparr> cdrom_intc_request_latched := False \<rparr> else s1)
      in if val AND 0x40 \<noteq> 0 then s2\<lparr> param_count := 0 \<rparr> else s2)"

definition set_pending_vol :: "nat \<Rightarrow> nat \<Rightarrow> u8 \<Rightarrow> cd \<Rightarrow> cd" where
  "set_pending_vol i j val s = s\<lparr> cd_pending_vol := (cd_pending_vol s)(i := (cd_pending_vol s i)(j := val)) \<rparr>"

definition push_param :: "u8 \<Rightarrow> cd \<Rightarrow> cd" where
  "push_param val s =
     (if param_count s < PARAM_FIFO_SIZE
      then s\<lparr> param_fifo := (param_fifo s)(param_count s := val), param_count := param_count s + 1 \<rparr> else s)"

definition cd_write_request :: "u8 \<Rightarrow> cd \<Rightarrow> cd" where
  "cd_write_request val s =
     (let s1 = s\<lparr> request_reg := val \<rparr> in if request_reg s1 AND CDROM_REQUEST_BFRD = 0 then s1\<lparr> sector_read_pos := 0 \<rparr> else s1)"

definition cdrom_write :: "u32 \<Rightarrow> u32 \<Rightarrow> 'a cdm \<Rightarrow> 'a cdm" where
  "cdrom_write addr value m =
     (let val = ucast value :: u8; idx = index_reg (fst m)
      in if addr = 0x1F801800 then on_cd (index_reg_update (\<lambda>_. val AND 0x03)) m
         else if addr = 0x1F801801
         then if idx = 0 then queue_or_exec_command val m
              else if idx = 3 then on_cd (set_pending_vol 1 1 val) m else m
         else if addr = 0x1F801802
         then if idx = 0 then on_cd (push_param val) m
              else if idx = 1 then on_cd (irq_enable_update (\<lambda>_. val AND 0x1F)) m
              else if idx = 2 then on_cd (set_pending_vol 0 0 val) m
              else if idx = 3 then on_cd (set_pending_vol 1 0 val) m else m
         else if addr = 0x1F801803
         then if idx = 2 then on_cd (set_pending_vol 0 1 val) m
              else if idx = 3
              then if val AND 0x20 \<noteq> 0 then on_cd (\<lambda>s. s\<lparr> cd_decode_vol := cd_pending_vol s \<rparr>) m else m
              else if idx = 0 then on_cd (cd_write_request val) m
              else if idx = 1 then try_execute_queued_command (present_pending_dataready (on_cd (ack_irq val) m)) else m
         else m)"

definition cdrom_cycles_to_irq :: "u32 \<Rightarrow> cd \<Rightarrow> u32" where
  "cdrom_cycles_to_irq imask s =
     (if imask AND push_bit 2 1 = 0 then 0xFFFFFFFF
      else let best = 0xFFFFFFFF :: u32;
               best = (if cd_irq_armed s
                       then let d = (if cdrom_irq_present_delay s > 0 then word_of_int (cdrom_irq_present_delay s) else 0)
                            in if d < best then d else best
                       else best);
               best = (if pc_pending (pending s) \<and> pc_delay (pending s) > 0 \<and> word_of_int (pc_delay (pending s)) < best
                       then word_of_int (pc_delay (pending s)) else best);
               best = (if reading s \<and> read_delay s > 0 \<and> word_of_int (read_delay s) < best
                       then word_of_int (read_delay s) else best)
           in best)"

definition age_present_delay :: "u32 \<Rightarrow> cd \<Rightarrow> cd" where
  "age_present_delay cycles s =
     (if cdrom_irq_present_delay s > 0
      then let d = cdrom_irq_present_delay s - sint cycles in s\<lparr> cdrom_irq_present_delay := if d < 0 then 0 else d \<rparr> else s)"

definition cdrom_advance :: "bool \<Rightarrow> u32 \<Rightarrow> 'a cdm \<Rightarrow> 'a cdm" where
  "cdrom_advance dma cycles m =
     (let m1 = refresh_cdrom_irq_line (on_cd (age_present_delay cycles) m);
          m2 = try_execute_queued_command m1;
          m3 = process_pending cycles m2;
          m4 = process_read_stream dma cycles m3
      in refresh_cdrom_irq_line m4)"

definition cdrom_tick :: "bool \<Rightarrow> 'a cdm \<Rightarrow> 'a cdm" where
  "cdrom_tick dma m = cdrom_advance dma 33868 m"

text \<open>A little-endian word of the sector buffer.\<close>

definition sector_word :: "(nat \<Rightarrow> u8) \<Rightarrow> nat \<Rightarrow> u32" where
  "sector_word b i =
     ucast (b i) OR push_bit 8 (ucast (b (i + 1))) OR push_bit 16 (ucast (b (i + 2))) OR push_bit 24 (ucast (b (i + 3)))"

definition cdrom_dma_ready :: "cd \<Rightarrow> bool" where
  "cdrom_dma_ready s \<longleftrightarrow> request_reg s AND CDROM_REQUEST_BFRD \<noteq> 0 \<and> sector_available s \<and> sector_read_pos s + 4 \<le> sector_size s"

definition cdrom_dma_read :: "cd \<Rightarrow> u32 \<times> cd" where
  "cdrom_dma_read s =
     (if request_reg s AND CDROM_REQUEST_BFRD \<noteq> 0 \<and> sector_available s \<and> sector_read_pos s + 4 \<le> sector_size s
      then let s1 = s\<lparr> sector_read_pos := sector_read_pos s + 4 \<rparr>
           in (sector_word (sector_buffer s) (sector_read_pos s),
               if sector_read_pos s1 \<ge> sector_size s1 then s1\<lparr> sector_available := False \<rparr> else s1)
      else (0, s))"

definition cdrom_dma_sector_word_count :: "cd \<Rightarrow> u32" where
  "cdrom_dma_sector_word_count s =
     (let sz = (if sector_size s = 0 then if mode_reg s AND 0x20 \<noteq> 0 then WHOLE_SECTOR_SIZE else SECTOR_SIZE else sector_size s)
      in of_nat ((sz + 3) div 4))"

definition cdrom_debug_copy_last_sector :: "u32 \<Rightarrow> u32 \<Rightarrow> cd \<Rightarrow> u8 list" where
  "cdrom_debug_copy_last_sector offset len s =
     (if last_sector_size s = 0 \<or> unat offset \<ge> last_sector_size s then []
      else map (\<lambda>i. last_sector_buffer s (unat offset + i)) [0 ..< min (unat len) (last_sector_size s - unat offset)])"

text \<open>The static storage of the file before \<open>cdrom_init\<close>.\<close>

definition cd_static :: cd where
  "cd_static =
     \<lparr> index_reg = 0, stat_reg = 0, request_reg = 0, irq_enable = 0, irq_flag = 0,
       disc_scex = (\<lambda>i. [0x53, 0x43, 0x45, 0x41] ! (i mod 4)),
       cdrom_intc_request_latched = False, cdrom_irq_generation = 0, cdrom_intc_latched_generation = 0,
       cdrom_irq_present_delay = 0, param_fifo = (\<lambda>_. 0), param_count = 0, response_fifo = (\<lambda>_. 0), response_read = 0,
       response_count = 0, sector_buffer = (\<lambda>_. 0), sector_read_pos = 0, sector_available = False, sector_size = 0,
       last_sector_buffer = (\<lambda>_. 0), last_sector_lba = 0, last_sector_size = 0, last_sector_frame = 0, last_sector_mode = 0,
       last_sector_have_raw = False, last_delivery = no_delivery, seek_min = 0, seek_sec = 0, seek_sect = 0,
       s_setloc_lba = - 1, setloc_seek_far = False, reading = False, read_min = 0, read_sec = 0, read_sect = 0, mode_reg = 0,
       read_cmd = 0, read_delay = 0, filter_file = 0, filter_channel = 0, cd_muted = False, xa_hist_l = (0, 0),
       xa_hist_r = (0, 0), xa_stream_file = 0, xa_stream_channel = 0, xa_stream_coding = 0, xa_stream_active = False,
       g_disc_speed_divisor = 1, g_game_divisor = 1, g_instant_max_per_frame = 32,
       s_bursts = (\<lambda>_. \<lparr> cb_start_frame = 0, cb_end_frame = 0, cb_sectors = 0, cb_rate = 0, cb_divisor = 0 \<rparr>), s_burst_count = 0,
       pending = \<lparr> pc_cmd = 0, pc_pending = False, pc_delay = 0, pc_phase = 0 \<rparr>, queued = no_queued, iso_handle = None,
       cd_pending_vol = unit_volume, cd_decode_vol = unit_volume, pending_dataready = False, pending_dataready_stat = 0,
       spu_calls = [] \<rparr>"

end
