(* ===== verification/Line_Device.thy ===== *)
theory Line_Device
  imports Irq_Events
begin

text \<open>
  The contract of a device on one interrupt line: whatever it is asked to do, it reaches the rest of the
  system only by raising its line and by recording events. The client's view of such a device is proved
  once: after any sequence of operations the other lines, the mask, the clock, the exception state and the
  other components are as they were, and the line itself is at most set.
\<close>

inductive wired :: "nat \<Rightarrow> 'z sys_scheme \<Rightarrow> 'z sys_scheme \<Rightarrow> bool" for line :: nat and z :: "'z sys_scheme" where
  wired_refl [intro!, simp]: "wired line z z"
| wired_raise [intro]: "wired line z y \<Longrightarrow> wired line z (psx_irq_raise line d y)"
| wired_record [intro]: "wired line z y \<Longrightarrow> wired line z (event_ring_record_aux k a c y)"

definition line_only :: "nat \<Rightarrow> 'z sys_scheme \<Rightarrow> 'z sys_scheme \<Rightarrow> bool" where
  "line_only line z y \<longleftrightarrow> (i_stat y = i_stat z \<or> i_stat y = i_stat z OR push_bit line 1) \<and> i_mask y = i_mask z \<and>
     cycle_count y = cycle_count z \<and> s_frame_count y = s_frame_count z \<and> in_exception y = in_exception z \<and>
     g_debug_last_store_pc y = g_debug_last_store_pc z \<and> sys.more y = sys.more z"

lemma wired_event [intro]: "wired line z y \<Longrightarrow> wired line z (event_ring_record k a y)"
  unfolding event_ring_record_def by (rule wired_record)

lemma event_in_exception [simp]: "in_exception (event_ring_record_aux k d a s) = in_exception s"
  by (simp add: event_ring_record_aux_def)

lemma raise_in_exception [simp]: "in_exception (psx_irq_raise b d s) = in_exception s"
  by (simp add: psx_irq_raise_def device_trace_note_def)

lemma wired_line_only: "wired line z y \<Longrightarrow> line_only line z y"
  by (induction rule: wired.induct) (auto simp: line_only_def or.assoc)

lemma wired_trans: "wired line x y \<Longrightarrow> wired line y z \<Longrightarrow> wired line x z"
  by (rotate_tac, induction rule: wired.induct) auto

locale line_device =
  fixes line :: nat
    and step :: "'c \<Rightarrow> 'p \<times> 'z sys_scheme \<Rightarrow> 'p \<times> 'z sys_scheme"
  assumes step_wired: "wired line (snd m) (snd (step c m))"
begin

lemma run_wired: "wired line (snd m) (snd (fold step cs m))"
proof (induction cs arbitrary: m)
  case (Cons c cs)
  show ?case using wired_trans [OF step_wired Cons.IH] by simp
qed simp

lemma run_line_only: "line_only line (snd m) (snd (fold step cs m))"
  by (rule wired_line_only) (rule run_wired)

lemma other_lines:
  assumes "n \<noteq> line"
  shows "bit (i_stat (snd (fold step cs m))) n = bit (i_stat (snd m)) n"
  using run_line_only [of m cs] assms by (auto simp: line_only_def bit_simps)

lemma line_stays_up:
  assumes "bit (i_stat (snd m)) line"
  shows "bit (i_stat (snd (fold step cs m))) line"
  using run_line_only [of m cs] assms by (auto simp: line_only_def bit_simps)

end

end
