(* ===== verification/Cdrom_Props.thy ===== *)
theory Cdrom_Props
  imports Cdrom Line_Device
begin

text \<open>
  The CD-ROM controller: what every operation leaves alone, the wire to the interrupt controller, the
  presentation of responses, the serialisation of responses and of commands, the sector read-out and the
  addresses on the disc.
\<close>

section \<open>Frames\<close>

lemma on_cd_simps [simp]: "fst (on_cd f m) = f (fst m)" "snd (on_cd f m) = snd m" "on_cd f (s, y) = (f s, y)"
  by (simp_all add: on_cd_def)

lemma on_cd_on_cd: "on_cd f (on_cd g m) = on_cd (f \<circ> g) m"
  by (simp add: on_cd_def)

text \<open>Three views of the controller, as tuples: the interrupt side, the response FIFO, and everything that
  the sector buffer, the sound decoder and the load bursts are not. An operation on other fields leaves a view alone.\<close>

definition cd_irq_view :: "cd \<Rightarrow> u8 \<times> u8 \<times> bool \<times> u32 \<times> u32 \<times> int" where
  "cd_irq_view s = (irq_flag s, irq_enable s, cdrom_intc_request_latched s, cdrom_irq_generation s,
     cdrom_intc_latched_generation s, cdrom_irq_present_delay s)"

definition fifo_view :: "cd \<Rightarrow> (nat \<Rightarrow> u8) \<times> nat \<times> nat" where
  "fifo_view s = (response_fifo s, response_read s, response_count s)"

definition ctl_view where
  "ctl_view s = (cd_irq_view s, fifo_view s, index_reg s, stat_reg s, request_reg s, disc_scex s, param_fifo s, param_count s, seek_min s, seek_sec s, seek_sect s,
     s_setloc_lba s, setloc_seek_far s, reading s, read_min s, read_sec s, read_sect s, mode_reg s, read_cmd s,
     read_delay s, filter_file s, filter_channel s, cd_muted s, g_disc_speed_divisor s, g_game_divisor s,
     g_instant_max_per_frame s, pending s, queued s, iso_handle s, cd_pending_vol s, cd_decode_vol s, pending_dataready s,
     pending_dataready_stat s)"

lemma irq_view_update [simp]:
  "cd_irq_view (s\<lparr> index_reg := x0 \<rparr>) = cd_irq_view s"
  "cd_irq_view (s\<lparr> stat_reg := x1 \<rparr>) = cd_irq_view s"
  "cd_irq_view (s\<lparr> request_reg := x2 \<rparr>) = cd_irq_view s"
  "cd_irq_view (s\<lparr> disc_scex := x3 \<rparr>) = cd_irq_view s"
  "cd_irq_view (s\<lparr> param_fifo := x4 \<rparr>) = cd_irq_view s"
  "cd_irq_view (s\<lparr> param_count := x5 \<rparr>) = cd_irq_view s"
  "cd_irq_view (s\<lparr> response_fifo := x6 \<rparr>) = cd_irq_view s"
  "cd_irq_view (s\<lparr> response_read := x7 \<rparr>) = cd_irq_view s"
  "cd_irq_view (s\<lparr> response_count := x8 \<rparr>) = cd_irq_view s"
  "cd_irq_view (s\<lparr> sector_buffer := x9 \<rparr>) = cd_irq_view s"
  "cd_irq_view (s\<lparr> sector_read_pos := x10 \<rparr>) = cd_irq_view s"
  "cd_irq_view (s\<lparr> sector_available := x11 \<rparr>) = cd_irq_view s"
  "cd_irq_view (s\<lparr> sector_size := x12 \<rparr>) = cd_irq_view s"
  "cd_irq_view (s\<lparr> last_sector_buffer := x13 \<rparr>) = cd_irq_view s"
  "cd_irq_view (s\<lparr> last_sector_lba := x14 \<rparr>) = cd_irq_view s"
  "cd_irq_view (s\<lparr> last_sector_size := x15 \<rparr>) = cd_irq_view s"
  "cd_irq_view (s\<lparr> last_sector_frame := x16 \<rparr>) = cd_irq_view s"
  "cd_irq_view (s\<lparr> last_sector_mode := x17 \<rparr>) = cd_irq_view s"
  "cd_irq_view (s\<lparr> last_sector_have_raw := x18 \<rparr>) = cd_irq_view s"
  "cd_irq_view (s\<lparr> last_delivery := x19 \<rparr>) = cd_irq_view s"
  "cd_irq_view (s\<lparr> seek_min := x20 \<rparr>) = cd_irq_view s"
  "cd_irq_view (s\<lparr> seek_sec := x21 \<rparr>) = cd_irq_view s"
  "cd_irq_view (s\<lparr> seek_sect := x22 \<rparr>) = cd_irq_view s"
  "cd_irq_view (s\<lparr> s_setloc_lba := x23 \<rparr>) = cd_irq_view s"
  "cd_irq_view (s\<lparr> setloc_seek_far := x24 \<rparr>) = cd_irq_view s"
  "cd_irq_view (s\<lparr> reading := x25 \<rparr>) = cd_irq_view s"
  "cd_irq_view (s\<lparr> read_min := x26 \<rparr>) = cd_irq_view s"
  "cd_irq_view (s\<lparr> read_sec := x27 \<rparr>) = cd_irq_view s"
  "cd_irq_view (s\<lparr> read_sect := x28 \<rparr>) = cd_irq_view s"
  "cd_irq_view (s\<lparr> mode_reg := x29 \<rparr>) = cd_irq_view s"
  "cd_irq_view (s\<lparr> read_cmd := x30 \<rparr>) = cd_irq_view s"
  "cd_irq_view (s\<lparr> read_delay := x31 \<rparr>) = cd_irq_view s"
  "cd_irq_view (s\<lparr> filter_file := x32 \<rparr>) = cd_irq_view s"
  "cd_irq_view (s\<lparr> filter_channel := x33 \<rparr>) = cd_irq_view s"
  "cd_irq_view (s\<lparr> cd_muted := x34 \<rparr>) = cd_irq_view s"
  "cd_irq_view (s\<lparr> xa_hist_l := x35 \<rparr>) = cd_irq_view s"
  "cd_irq_view (s\<lparr> xa_hist_r := x36 \<rparr>) = cd_irq_view s"
  "cd_irq_view (s\<lparr> xa_stream_file := x37 \<rparr>) = cd_irq_view s"
  "cd_irq_view (s\<lparr> xa_stream_channel := x38 \<rparr>) = cd_irq_view s"
  "cd_irq_view (s\<lparr> xa_stream_coding := x39 \<rparr>) = cd_irq_view s"
  "cd_irq_view (s\<lparr> xa_stream_active := x40 \<rparr>) = cd_irq_view s"
  "cd_irq_view (s\<lparr> g_disc_speed_divisor := x41 \<rparr>) = cd_irq_view s"
  "cd_irq_view (s\<lparr> g_game_divisor := x42 \<rparr>) = cd_irq_view s"
  "cd_irq_view (s\<lparr> g_instant_max_per_frame := x43 \<rparr>) = cd_irq_view s"
  "cd_irq_view (s\<lparr> s_bursts := x44 \<rparr>) = cd_irq_view s"
  "cd_irq_view (s\<lparr> s_burst_count := x45 \<rparr>) = cd_irq_view s"
  "cd_irq_view (s\<lparr> pending := x46 \<rparr>) = cd_irq_view s"
  "cd_irq_view (s\<lparr> queued := x47 \<rparr>) = cd_irq_view s"
  "cd_irq_view (s\<lparr> iso_handle := x48 \<rparr>) = cd_irq_view s"
  "cd_irq_view (s\<lparr> cd_pending_vol := x49 \<rparr>) = cd_irq_view s"
  "cd_irq_view (s\<lparr> cd_decode_vol := x50 \<rparr>) = cd_irq_view s"
  "cd_irq_view (s\<lparr> pending_dataready := x51 \<rparr>) = cd_irq_view s"
  "cd_irq_view (s\<lparr> pending_dataready_stat := x52 \<rparr>) = cd_irq_view s"
  "cd_irq_view (s\<lparr> spu_calls := x53 \<rparr>) = cd_irq_view s"
  by (simp_all add: cd_irq_view_def)

lemma fifo_view_update [simp]:
  "fifo_view (s\<lparr> index_reg := x0 \<rparr>) = fifo_view s"
  "fifo_view (s\<lparr> stat_reg := x1 \<rparr>) = fifo_view s"
  "fifo_view (s\<lparr> request_reg := x2 \<rparr>) = fifo_view s"
  "fifo_view (s\<lparr> irq_enable := x3 \<rparr>) = fifo_view s"
  "fifo_view (s\<lparr> irq_flag := x4 \<rparr>) = fifo_view s"
  "fifo_view (s\<lparr> disc_scex := x5 \<rparr>) = fifo_view s"
  "fifo_view (s\<lparr> cdrom_intc_request_latched := x6 \<rparr>) = fifo_view s"
  "fifo_view (s\<lparr> cdrom_irq_generation := x7 \<rparr>) = fifo_view s"
  "fifo_view (s\<lparr> cdrom_intc_latched_generation := x8 \<rparr>) = fifo_view s"
  "fifo_view (s\<lparr> cdrom_irq_present_delay := x9 \<rparr>) = fifo_view s"
  "fifo_view (s\<lparr> param_fifo := x10 \<rparr>) = fifo_view s"
  "fifo_view (s\<lparr> param_count := x11 \<rparr>) = fifo_view s"
  "fifo_view (s\<lparr> sector_buffer := x12 \<rparr>) = fifo_view s"
  "fifo_view (s\<lparr> sector_read_pos := x13 \<rparr>) = fifo_view s"
  "fifo_view (s\<lparr> sector_available := x14 \<rparr>) = fifo_view s"
  "fifo_view (s\<lparr> sector_size := x15 \<rparr>) = fifo_view s"
  "fifo_view (s\<lparr> last_sector_buffer := x16 \<rparr>) = fifo_view s"
  "fifo_view (s\<lparr> last_sector_lba := x17 \<rparr>) = fifo_view s"
  "fifo_view (s\<lparr> last_sector_size := x18 \<rparr>) = fifo_view s"
  "fifo_view (s\<lparr> last_sector_frame := x19 \<rparr>) = fifo_view s"
  "fifo_view (s\<lparr> last_sector_mode := x20 \<rparr>) = fifo_view s"
  "fifo_view (s\<lparr> last_sector_have_raw := x21 \<rparr>) = fifo_view s"
  "fifo_view (s\<lparr> last_delivery := x22 \<rparr>) = fifo_view s"
  "fifo_view (s\<lparr> seek_min := x23 \<rparr>) = fifo_view s"
  "fifo_view (s\<lparr> seek_sec := x24 \<rparr>) = fifo_view s"
  "fifo_view (s\<lparr> seek_sect := x25 \<rparr>) = fifo_view s"
  "fifo_view (s\<lparr> s_setloc_lba := x26 \<rparr>) = fifo_view s"
  "fifo_view (s\<lparr> setloc_seek_far := x27 \<rparr>) = fifo_view s"
  "fifo_view (s\<lparr> reading := x28 \<rparr>) = fifo_view s"
  "fifo_view (s\<lparr> read_min := x29 \<rparr>) = fifo_view s"
  "fifo_view (s\<lparr> read_sec := x30 \<rparr>) = fifo_view s"
  "fifo_view (s\<lparr> read_sect := x31 \<rparr>) = fifo_view s"
  "fifo_view (s\<lparr> mode_reg := x32 \<rparr>) = fifo_view s"
  "fifo_view (s\<lparr> read_cmd := x33 \<rparr>) = fifo_view s"
  "fifo_view (s\<lparr> read_delay := x34 \<rparr>) = fifo_view s"
  "fifo_view (s\<lparr> filter_file := x35 \<rparr>) = fifo_view s"
  "fifo_view (s\<lparr> filter_channel := x36 \<rparr>) = fifo_view s"
  "fifo_view (s\<lparr> cd_muted := x37 \<rparr>) = fifo_view s"
  "fifo_view (s\<lparr> xa_hist_l := x38 \<rparr>) = fifo_view s"
  "fifo_view (s\<lparr> xa_hist_r := x39 \<rparr>) = fifo_view s"
  "fifo_view (s\<lparr> xa_stream_file := x40 \<rparr>) = fifo_view s"
  "fifo_view (s\<lparr> xa_stream_channel := x41 \<rparr>) = fifo_view s"
  "fifo_view (s\<lparr> xa_stream_coding := x42 \<rparr>) = fifo_view s"
  "fifo_view (s\<lparr> xa_stream_active := x43 \<rparr>) = fifo_view s"
  "fifo_view (s\<lparr> g_disc_speed_divisor := x44 \<rparr>) = fifo_view s"
  "fifo_view (s\<lparr> g_game_divisor := x45 \<rparr>) = fifo_view s"
  "fifo_view (s\<lparr> g_instant_max_per_frame := x46 \<rparr>) = fifo_view s"
  "fifo_view (s\<lparr> s_bursts := x47 \<rparr>) = fifo_view s"
  "fifo_view (s\<lparr> s_burst_count := x48 \<rparr>) = fifo_view s"
  "fifo_view (s\<lparr> pending := x49 \<rparr>) = fifo_view s"
  "fifo_view (s\<lparr> queued := x50 \<rparr>) = fifo_view s"
  "fifo_view (s\<lparr> iso_handle := x51 \<rparr>) = fifo_view s"
  "fifo_view (s\<lparr> cd_pending_vol := x52 \<rparr>) = fifo_view s"
  "fifo_view (s\<lparr> cd_decode_vol := x53 \<rparr>) = fifo_view s"
  "fifo_view (s\<lparr> pending_dataready := x54 \<rparr>) = fifo_view s"
  "fifo_view (s\<lparr> pending_dataready_stat := x55 \<rparr>) = fifo_view s"
  "fifo_view (s\<lparr> spu_calls := x56 \<rparr>) = fifo_view s"
  by (simp_all add: fifo_view_def)

lemma ctl_view_update [simp]:
  "ctl_view (s\<lparr> sector_buffer := x0 \<rparr>) = ctl_view s"
  "ctl_view (s\<lparr> sector_read_pos := x1 \<rparr>) = ctl_view s"
  "ctl_view (s\<lparr> sector_available := x2 \<rparr>) = ctl_view s"
  "ctl_view (s\<lparr> sector_size := x3 \<rparr>) = ctl_view s"
  "ctl_view (s\<lparr> last_sector_buffer := x4 \<rparr>) = ctl_view s"
  "ctl_view (s\<lparr> last_sector_lba := x5 \<rparr>) = ctl_view s"
  "ctl_view (s\<lparr> last_sector_size := x6 \<rparr>) = ctl_view s"
  "ctl_view (s\<lparr> last_sector_frame := x7 \<rparr>) = ctl_view s"
  "ctl_view (s\<lparr> last_sector_mode := x8 \<rparr>) = ctl_view s"
  "ctl_view (s\<lparr> last_sector_have_raw := x9 \<rparr>) = ctl_view s"
  "ctl_view (s\<lparr> last_delivery := x10 \<rparr>) = ctl_view s"
  "ctl_view (s\<lparr> xa_hist_l := x11 \<rparr>) = ctl_view s"
  "ctl_view (s\<lparr> xa_hist_r := x12 \<rparr>) = ctl_view s"
  "ctl_view (s\<lparr> xa_stream_file := x13 \<rparr>) = ctl_view s"
  "ctl_view (s\<lparr> xa_stream_channel := x14 \<rparr>) = ctl_view s"
  "ctl_view (s\<lparr> xa_stream_coding := x15 \<rparr>) = ctl_view s"
  "ctl_view (s\<lparr> xa_stream_active := x16 \<rparr>) = ctl_view s"
  "ctl_view (s\<lparr> s_bursts := x17 \<rparr>) = ctl_view s"
  "ctl_view (s\<lparr> s_burst_count := x18 \<rparr>) = ctl_view s"
  "ctl_view (s\<lparr> spu_calls := x19 \<rparr>) = ctl_view s"
  by (simp_all add: ctl_view_def)

lemma irq_viewD:
  assumes "cd_irq_view s = cd_irq_view t"
  shows "irq_flag s = irq_flag t" "irq_enable s = irq_enable t" "cdrom_intc_request_latched s = cdrom_intc_request_latched t"
    "cdrom_irq_generation s = cdrom_irq_generation t" "cdrom_intc_latched_generation s = cdrom_intc_latched_generation t"
    "cdrom_irq_present_delay s = cdrom_irq_present_delay t"
  using assms by (simp_all add: cd_irq_view_def)

lemma fifo_viewD:
  assumes "fifo_view s = fifo_view t"
  shows "response_fifo s = response_fifo t" "response_read s = response_read t" "response_count s = response_count t"
  using assms by (simp_all add: fifo_view_def)

lemma ctl_viewD:
  assumes "ctl_view s = ctl_view t"
  shows "cd_irq_view s = cd_irq_view t" "fifo_view s = fifo_view t"
    "index_reg s = index_reg t" "stat_reg s = stat_reg t" "request_reg s = request_reg t" "disc_scex s = disc_scex t"
    "param_fifo s = param_fifo t" "param_count s = param_count t" "seek_min s = seek_min t" "seek_sec s = seek_sec t"
    "seek_sect s = seek_sect t" "s_setloc_lba s = s_setloc_lba t" "setloc_seek_far s = setloc_seek_far t"
    "reading s = reading t" "read_min s = read_min t" "read_sec s = read_sec t" "read_sect s = read_sect t"
    "mode_reg s = mode_reg t" "read_cmd s = read_cmd t" "read_delay s = read_delay t" "filter_file s = filter_file t"
    "filter_channel s = filter_channel t" "cd_muted s = cd_muted t" "g_disc_speed_divisor s = g_disc_speed_divisor t"
    "g_game_divisor s = g_game_divisor t" "g_instant_max_per_frame s = g_instant_max_per_frame t" "pending s = pending t"
    "queued s = queued t" "iso_handle s = iso_handle t" "cd_pending_vol s = cd_pending_vol t"
    "cd_decode_vol s = cd_decode_vol t" "pending_dataready s = pending_dataready t"
    "pending_dataready_stat s = pending_dataready_stat t"
  using assms by (simp_all add: ctl_view_def)

lemma response_push_frame [simp]:
  "cd_irq_view (response_push v s) = cd_irq_view s" "stat_reg (response_push v s) = stat_reg s"
  "response_read (response_push v s) = response_read s" "iso_handle (response_push v s) = iso_handle s"
  by (simp_all add: response_push_def cd_irq_view_def)

lemma response_pushes_frame [simp]:
  "cd_irq_view (response_pushes vs s) = cd_irq_view s" "stat_reg (response_pushes vs s) = stat_reg s"
  "response_read (response_pushes vs s) = response_read s" "iso_handle (response_pushes vs s) = iso_handle s"
  by (induction vs arbitrary: s) (simp_all add: response_pushes_def)

lemma blit_0 [simp]: "blit dst i src 0 = dst"
  by (auto simp: blit_def fun_eq_iff)

text \<open>What a response leaves in the FIFO: the bytes, up to its size.\<close>

lemma response_pushes_fifo:
  "response_count s + length vs \<le> 16 \<Longrightarrow>
   response_pushes vs s = s\<lparr> response_fifo := blit (response_fifo s) (response_count s) ((!) vs) (length vs),
     response_count := response_count s + length vs \<rparr>"
proof (induction vs arbitrary: s)
  case Nil
  then show ?case by (simp add: response_pushes_def)
next
  case (Cons v vs)
  let ?t = "response_push v s"
  have t: "?t = s\<lparr> response_fifo := (response_fifo s)(response_count s := v), response_count := response_count s + 1 \<rparr>"
    using Cons.prems by (simp add: response_push_def)
  have b: "blit (response_fifo ?t) (response_count ?t) ((!) vs) (length vs) =
      blit (response_fifo s) (response_count s) ((!) (v # vs)) (length (v # vs))"
    by (auto simp: t blit_def fun_eq_iff nth_Cons' Suc_diff_le)
  have "response_pushes (v # vs) s = response_pushes vs ?t" by (simp add: response_pushes_def)
  also have "\<dots> = ?t\<lparr> response_fifo := blit (response_fifo ?t) (response_count ?t) ((!) vs) (length vs),
     response_count := response_count ?t + length vs \<rparr>"
    by (rule Cons.IH) (use Cons.prems in \<open>simp add: t\<close>)
  finally show ?case unfolding b by (simp add: t)
qed

lemma set_irq_facts [simp]:
  "irq_flag (fst (set_irq t m)) = t" "irq_enable (fst (set_irq t m)) = irq_enable (fst m)"
  "cdrom_irq_present_delay (fst (set_irq t m)) = 5000" "\<not> cdrom_intc_request_latched (fst (set_irq t m))"
  "cdrom_irq_generation (fst (set_irq t m)) = cdrom_irq_generation (fst m) + 1"
  "fifo_view (fst (set_irq t m)) = fifo_view (fst m)" "i_stat (snd (set_irq t m)) = i_stat (snd m)"
  by (simp_all add: set_irq_def fifo_view_def split: prod.split)

lemma present_held: "cdrom_irq_present_delay (fst m) > 0 \<Longrightarrow> present_cdrom_irq m = m"
  by (cases m) (simp add: present_cdrom_irq_def)

lemma present_frame [simp]:
  "irq_flag (fst (present_cdrom_irq m)) = irq_flag (fst m)" "irq_enable (fst (present_cdrom_irq m)) = irq_enable (fst m)"
  "cdrom_irq_present_delay (fst (present_cdrom_irq m)) = cdrom_irq_present_delay (fst m)"
  "cdrom_irq_generation (fst (present_cdrom_irq m)) = cdrom_irq_generation (fst m)"
  "fifo_view (fst (present_cdrom_irq m)) = fifo_view (fst m)"
  "queued (fst (present_cdrom_irq m)) = queued (fst m)" "pending (fst (present_cdrom_irq m)) = pending (fst m)"
  "reading (fst (present_cdrom_irq m)) = reading (fst m)" "read_delay (fst (present_cdrom_irq m)) = read_delay (fst m)"
  by (simp_all add: present_cdrom_irq_def fifo_view_def split: prod.split)

section \<open>A response is up\<close>

text \<open>A new response: its interrupt and bytes are in place and its presentation is still to come. The
  interrupt status of the system is that of \<open>z\<close>.\<close>

definition fresh_response :: "'z sys_scheme \<Rightarrow> 'z cdm \<Rightarrow> bool" where
  "fresh_response z m \<longleftrightarrow>
     irq_flag (fst m) \<in> {1, 2, 3, 5} \<and> cdrom_irq_present_delay (fst m) = 5000 \<and> \<not> cdrom_intc_request_latched (fst m) \<and>
     wired 2 z (snd m) \<and> i_stat (snd m) = i_stat z"

lemma wired_set_irq [intro]: "wired b z (snd m) \<Longrightarrow> wired b z (snd (set_irq t m))"
  by (auto simp: set_irq_def split: prod.split)

lemma respond_fresh:
  assumes "wired 2 z (snd m)" "i_stat (snd m) = i_stat z" "t \<in> {1, 2, 3, 5}"
  shows "fresh_response z (respond vs t m)"
  using assms by (simp add: fresh_response_def respond_def wired_set_irq)

lemma fire_fresh: "fresh_response z m \<Longrightarrow> fire_cdrom_irq m = m"
  by (simp add: fire_cdrom_irq_def present_held fresh_response_def)

lemma fire_respond [simp]: "fire_cdrom_irq (respond vs t m) = respond vs t m"
  by (simp add: fire_cdrom_irq_def present_held respond_def)

lemma schedule_fresh: "fresh_response z m \<Longrightarrow> fresh_response z (schedule_second c d m)"
  by (simp add: fresh_response_def schedule_second_def)

lemma ack_stat_fresh: "wired 2 z (snd m) \<Longrightarrow> i_stat (snd m) = i_stat z \<Longrightarrow> fresh_response z (ack_stat m)"
  unfolding ack_stat_def by (rule respond_fresh) auto

lemma reject_fresh: "wired 2 z (snd m) \<Longrightarrow> i_stat (snd m) = i_stat z \<Longrightarrow> fresh_response z (reject b cs m)"
  unfolding reject_def by (rule respond_fresh) auto

lemma respond_ack_fresh: "wired 2 z (snd m) \<Longrightarrow> i_stat (snd m) = i_stat z \<Longrightarrow> fresh_response z (respond vs 3 m)"
  by (rule respond_fresh) auto

lemma start_stream_sys:
  "wired 2 z (snd m) \<Longrightarrow> wired 2 z (snd (start_read_stream c m))" "i_stat (snd (start_read_stream c m)) = i_stat (snd m)"
  by (auto simp: start_read_stream_def Let_def split: prod.split)

lemmas fresh_intros = schedule_fresh ack_stat_fresh reject_fresh respond_ack_fresh

lemma if_split_fresh: "fresh_response z m1 \<Longrightarrow> fresh_response z m2 \<Longrightarrow> fresh_response z (if b then m1 else m2)"
  by simp

lemma commands_fresh:
  assumes "wired 2 z (snd m)" "i_stat (snd m) = i_stat z"
  shows "fresh_response z (cmd_read c m)" "fresh_response z (cmd_motor_on m)" "fresh_response z (cmd_stop m)"
    "fresh_response z (cmd_pause m)" "fresh_response z (cmd_init m)" "fresh_response z (cmd_play m)"
    "fresh_response z (cmd_seek c m)" "fresh_response z (cmd_test m)" "fresh_response z (cmd_get_td m)"
  using assms
  by (auto simp: cmd_read_def cmd_motor_on_def cmd_stop_def cmd_pause_def cmd_init_def cmd_play_def cmd_seek_def cmd_test_def
      cmd_get_td_def Let_def start_stream_sys intro!: fresh_intros split: option.split)

text \<open>Every command answers, with an acknowledge or an error.\<close>

lemma exec_switch_fresh:
  assumes "wired 2 z (snd m)" "i_stat (snd m) = i_stat z"
  shows "fresh_response z (exec_switch cmd m)"
  unfolding exec_switch_def
  by (intro if_split_fresh commands_fresh fresh_intros) (use assms in simp_all)

lemma exec_command_fresh:
  assumes "wired 2 z (snd m)" "i_stat (snd m) = i_stat z"
  shows "fresh_response z (exec_command cmd m)"
proof -
  let ?m = "on_cd response_clear (fst m, event_ring_record_aux EV_ENQ SRC_CD_CMD (ucast cmd) (snd m))"
  have "fresh_response z (on_cd (param_count_update (\<lambda>_. 0)) (exec_switch cmd ?m))"
    using exec_switch_fresh [of z ?m cmd] assms by (simp add: fresh_response_def wired_record)
  then show ?thesis by (simp add: exec_command_def fire_fresh)
qed

section \<open>Sectors leave the controller alone\<close>

lemma burst_frame [simp]:
  "ctl_view (burst_note_sector f s) = ctl_view s" "sector_size (burst_note_sector f s) = sector_size s"
  "sector_read_pos (burst_note_sector f s) = sector_read_pos s" "sector_buffer (burst_note_sector f s) = sector_buffer s"
  "sector_available (burst_note_sector f s) = sector_available s" "mode_reg (burst_note_sector f s) = mode_reg s"
  "xa_hist_l (burst_note_sector f s) = xa_hist_l s" "xa_hist_r (burst_note_sector f s) = xa_hist_r s"
  by (simp_all add: burst_note_sector_def Let_def)

lemma deliver_audio_frame [simp]: "ctl_view (snd (maybe_deliver_xa_audio r d s)) = ctl_view s"
  by (simp add: maybe_deliver_xa_audio_def xa_play_sector_def log_audio_push_def xa_reset_decode_def Let_def)

lemma read_sector_frame [simp]: "ctl_view (snd (read_sector_at a b c f s)) = ctl_view s"
proof -
  obtain aud s1 where 1: "maybe_deliver_xa_audio (case sector_raw (msf_to_lba a b c) s of Some r \<Rightarrow> r | None \<Rightarrow> (\<lambda>_. 0))
      (classify_raw_sector (sector_raw (msf_to_lba a b c) s)) s = (aud, s1)" by fastforce
  then have "ctl_view s1 = ctl_view s" by (metis deliver_audio_frame snd_conv)
  then show ?thesis by (simp add: read_sector_at_def 1 Let_def split_beta)
qed

lemmas read_sector_fields [simp] =
  ctl_viewD [OF read_sector_frame] irq_viewD [OF ctl_viewD(1) [OF read_sector_frame]] fifo_viewD [OF ctl_viewD(2) [OF read_sector_frame]]

text \<open>The view of the stream step: the position moves, nothing else of the controller does.\<close>

lemma deliver_without_irq_frame [simp]:
  "cd_irq_view (fst (snd (deliver_read_sector_without_irq m))) = cd_irq_view (fst m)"
  "fifo_view (fst (snd (deliver_read_sector_without_irq m))) = fifo_view (fst m)"
  "snd (snd (deliver_read_sector_without_irq m)) = snd m"
  "reading (fst (snd (deliver_read_sector_without_irq m))) = reading (fst m)"
  "read_delay (fst (snd (deliver_read_sector_without_irq m))) = read_delay (fst m)"
  "stat_reg (fst (snd (deliver_read_sector_without_irq m))) = stat_reg (fst m)"
  "queued (fst (snd (deliver_read_sector_without_irq m))) = queued (fst m)"
  "pending (fst (snd (deliver_read_sector_without_irq m))) = pending (fst m)"
  by (simp_all add: deliver_read_sector_without_irq_def Let_def split_beta)

section \<open>Steps that do not raise the line\<close>

text \<open>The contract of the internal steps: the line is not raised, the interrupt side stays as it is or a new
  response comes up, and the latter only if none was; a response that is up keeps its bytes.\<close>

definition calm :: "'z cdm \<Rightarrow> 'z cdm \<Rightarrow> bool" where
  "calm m m' \<longleftrightarrow> wired 2 (snd m) (snd m') \<and> i_stat (snd m') = i_stat (snd m) \<and>
     (cd_irq_view (fst m') = cd_irq_view (fst m) \<and> (irq_flag (fst m) \<noteq> 0 \<longrightarrow> fifo_view (fst m') = fifo_view (fst m)) \<or>
      irq_flag (fst m) = 0 \<and> fresh_response (snd m) m')"

lemma calm_refl [simp]: "calm m m"
  by (simp add: calm_def)

lemma fresh_view:
  "fresh_response z m \<Longrightarrow> cd_irq_view (fst m') = cd_irq_view (fst m) \<Longrightarrow> wired 2 z (snd m') \<Longrightarrow> i_stat (snd m') = i_stat z \<Longrightarrow>
   fresh_response z m'"
  by (auto simp: fresh_response_def cd_irq_view_def)

lemma calm_trans: "calm m m' \<Longrightarrow> calm m' m'' \<Longrightarrow> calm m m''"
  unfolding calm_def
  by (elim conjE disjE) (auto simp: wired_trans cd_irq_view_def fresh_response_def intro: wired_trans)

lemma calm_fresh: "irq_flag (fst m) = 0 \<Longrightarrow> fresh_response (snd m) m' \<Longrightarrow> calm m m'"
  by (auto simp: calm_def fresh_response_def)

lemma calm_on_cd:
  "cd_irq_view (f (fst m)) = cd_irq_view (fst m) \<Longrightarrow> (irq_flag (fst m) \<noteq> 0 \<Longrightarrow> fifo_view (f (fst m)) = fifo_view (fst m)) \<Longrightarrow> calm m (on_cd f m)"
  by (auto simp: calm_def)

lemma calm_deliver_without_irq: "calm m (snd (deliver_read_sector_without_irq m))"
  by (simp add: calm_def)

lemma calm_deliver: "irq_flag (fst m) = 0 \<Longrightarrow> calm m (snd (deliver_read_sector m))"
  by (auto simp: deliver_read_sector_def Let_def split_beta calm_deliver_without_irq
      intro!: calm_fresh respond_fresh)

lemma exec_command_calm: "irq_flag (fst m) = 0 \<Longrightarrow> calm m (exec_command c m)"
  by (rule calm_fresh) (auto intro: exec_command_fresh)

lemma try_execute_calm: "calm m (try_execute_queued_command m)"
proof (cases "qc_pending (queued (fst m)) \<and> irq_flag (fst m) = 0")
  case True
  let ?q = "queued (fst m)"
  let ?m = "on_cd (\<lambda>s. s\<lparr> param_fifo := blit (param_fifo s) 0 (qc_params ?q) (if qc_param_count ?q > 16 then 16 else qc_param_count ?q),
     param_count := (if qc_param_count ?q > 16 then 16 else qc_param_count ?q), queued := no_queued \<rparr>) m"
  have "calm m (exec_command (qc_cmd ?q) ?m)"
    using True by (intro calm_trans [OF calm_on_cd exec_command_calm]) auto
  then show ?thesis using True by (simp add: try_execute_queued_command_def Let_def)
qed (auto simp: try_execute_queued_command_def)

lemma present_pending_calm: "calm m (present_pending_dataready m)"
  unfolding present_pending_dataready_def
  by (auto intro!: calm_fresh respond_fresh)

lemma complete_calm: "irq_flag (fst m) = 0 \<Longrightarrow> calm m (complete_with f m)"
  by (auto simp: complete_with_def Let_def intro!: calm_fresh respond_fresh)

lemma get_id_calm: "irq_flag (fst m) = 0 \<Longrightarrow> calm m (complete_get_id m)"
  by (auto simp: complete_get_id_def Let_def reject_def intro!: calm_fresh respond_fresh)

lemma if_split_calm: "calm m m1 \<Longrightarrow> calm m m2 \<Longrightarrow> calm m (if b then m1 else m2)"
  by simp

lemma pending_data_calm:
  "irq_flag (fst m) = 0 \<Longrightarrow>
   calm m (let (delivered, m1) = deliver_read_sector_without_irq m
           in if delivered then fire_cdrom_irq (respond [stat_reg (fst m1)] 1 m1) else m1)"
  by (auto simp: Let_def split_beta calm_deliver_without_irq intro!: calm_fresh respond_fresh)

lemma pending_switch_calm:
  assumes "irq_flag (fst m) = 0"
  shows "calm m (pending_switch c m)"
  unfolding pending_switch_def
  by (intro if_split_calm pending_data_calm complete_calm get_id_calm calm_refl assms)

lemma process_pending_calm: "calm m (process_pending c m)"
proof (cases "pc_pending (pending (fst m)) \<and> c \<noteq> 0 \<and> irq_flag (fst m) = 0")
  case True
  let ?delay = "pc_delay (pending (fst m)) - sint c"
  let ?m1 = "on_cd (\<lambda>s. s\<lparr> pending := (pending s)\<lparr> pc_delay := ?delay \<rparr> \<rparr>) m"
  let ?m2 = "on_cd (\<lambda>s. response_clear (s\<lparr> pending := (pending s)\<lparr> pc_pending := False \<rparr> \<rparr>)) ?m1"
  have "calm m ?m1" by (rule calm_on_cd) simp_all
  moreover have "calm ?m1 ?m2" using True by (intro calm_on_cd) (simp_all add: response_clear_def)
  moreover have "calm ?m2 (pending_switch (pc_cmd (pending (fst ?m2))) ?m2)"
    using True by (intro pending_switch_calm) (simp add: response_clear_def)
  ultimately have "calm m ?m1" "calm m (pending_switch (pc_cmd (pending (fst ?m2))) ?m2)" by (blast intro: calm_trans)+
  then show ?thesis using True by (simp add: process_pending_def Let_def)
qed (auto simp: process_pending_def)

lemma stream_sector_calm: "calm m (stream_sector dma m)"
proof (cases "irq_flag (fst m) = 0")
  case False
  let ?r = "deliver_read_sector_without_irq m"
  have "calm (snd ?r) (on_cd (\<lambda>s. s\<lparr> pending_dataready := True, pending_dataready_stat := stat_reg s \<rparr>) (snd ?r))"
    by (rule calm_on_cd) simp_all
  then show ?thesis
    using False calm_trans [OF calm_deliver_without_irq [of m]] by (auto simp: stream_sector_def Let_def split_beta calm_deliver_without_irq)
qed (simp add: stream_sector_def calm_deliver)

lemma process_read_stream_calm: "calm m (process_read_stream dma c m)"
proof -
  let ?m1 = "if c > 0 then on_cd (\<lambda>s. s\<lparr> read_delay := read_delay s - sint c \<rparr>) m else m"
  let ?fin = "\<lambda>s. let d = read_delay s + sector_delay_cycles s in s\<lparr> read_delay := if d \<le> 0 then sector_delay_cycles s else d \<rparr>"
  have 1: "calm m ?m1" by (auto intro: calm_on_cd)
  have 2: "calm (stream_sector dma ?m1) (on_cd ?fin (stream_sector dma ?m1))" by (rule calm_on_cd) (simp_all add: Let_def)
  have "calm m (on_cd ?fin (stream_sector dma ?m1))"
    by (rule calm_trans [OF calm_trans [OF 1 stream_sector_calm] 2])
  then show ?thesis using 1 by (simp add: process_read_stream_def Let_def)
qed

text \<open>The middle of \<open>cdrom_advance\<close>.\<close>

lemma advance_middle_calm: "calm m (process_read_stream dma c (process_pending c (try_execute_queued_command m)))"
  by (rule calm_trans [OF try_execute_calm calm_trans [OF process_pending_calm process_read_stream_calm]])

section \<open>The operations as inputs\<close>

datatype cd_input =
    CdRead u32 | CdWrite u32 u32 | CdAdvance bool u32 | CdTick bool | CdDmaRead
  | CdInit "string option" | CdSpeed int | CdGameSpeed int | CdGameStarted | CdInstantRate int | CdScex "nat \<Rightarrow> u8"

primrec cd_step :: "(string \<Rightarrow> disc option) \<Rightarrow> cd_input \<Rightarrow> 'z cdm \<Rightarrow> 'z cdm" where
  "cd_step iopen (CdRead addr) m = on_cd (\<lambda>s. snd (cdrom_read addr s)) m"
| "cd_step iopen (CdWrite addr v) m = cdrom_write addr v m"
| "cd_step iopen (CdAdvance dma c) m = cdrom_advance dma c m"
| "cd_step iopen (CdTick dma) m = cdrom_tick dma m"
| "cd_step iopen CdDmaRead m = on_cd (\<lambda>s. snd (cdrom_dma_read s)) m"
| "cd_step iopen (CdInit cue) m = on_cd (cdrom_init iopen cue) m"
| "cd_step iopen (CdSpeed d) m = on_cd (cdrom_set_speed d) m"
| "cd_step iopen (CdGameSpeed d) m = on_cd (cdrom_set_game_speed d) m"
| "cd_step iopen CdGameStarted m = on_cd cdrom_notify_game_started m"
| "cd_step iopen (CdInstantRate n) m = on_cd (cdrom_set_instant_rate n) m"
| "cd_step iopen (CdScex x) m = on_cd (cdrom_set_disc_scex x) m"

section \<open>The wire to the interrupt controller\<close>

lemma calm_wired: "calm m m' \<Longrightarrow> wired 2 z (snd m) \<Longrightarrow> wired 2 z (snd m')"
  unfolding calm_def by (blast intro: wired_trans)

lemma present_wired: "wired 2 z (snd m) \<Longrightarrow> wired 2 z (snd (present_cdrom_irq m))"
  by (auto simp: present_cdrom_irq_def intro!: wired_event wired_raise split: prod.split)

lemma queue_or_exec_calm: "calm m (queue_or_exec_command c m)"
  by (auto simp: queue_or_exec_command_def exec_command_calm Let_def intro!: calm_on_cd)

lemma advance_wired: "wired 2 (snd m) (snd (cdrom_advance dma c m))"
  unfolding cdrom_advance_def refresh_cdrom_irq_line_def Let_def
  by (rule present_wired, rule calm_wired [OF advance_middle_calm], rule present_wired) simp

lemma ack_path_wired: "wired 2 (snd m) (snd (try_execute_queued_command (present_pending_dataready (on_cd f m))))"
  by (rule calm_wired [OF calm_trans [OF present_pending_calm try_execute_calm]]) simp

lemma write_wired: "wired 2 (snd m) (snd (cdrom_write addr v m))"
  unfolding cdrom_write_def Let_def by (simp add: calm_wired [OF queue_or_exec_calm wired_refl] ack_path_wired)

lemma cd_step_wired: "wired 2 (snd m) (snd (cd_step iopen i m))"
  by (cases i) (simp_all add: write_wired advance_wired cdrom_tick_def)

interpretation cd_line: line_device 2 "cd_step iopen"
  by unfold_locales (rule cd_step_wired)

section \<open>Presentation\<close>

lemma irq_armed_view: "cd_irq_view s = cd_irq_view t \<Longrightarrow> cd_irq_armed s = cd_irq_armed t"
  by (simp add: cd_irq_armed_def cd_irq_view_def)

lemma present_blocked:
  "cdrom_irq_present_delay (fst m) > 0 \<or> \<not> cd_irq_armed (fst m) \<or> cdrom_intc_request_latched (fst m) \<Longrightarrow> present_cdrom_irq m = m"
  by (cases m) (auto simp: present_cdrom_irq_def)

lemma present_raises:
  assumes "cdrom_irq_present_delay (fst m) \<le> 0" "cd_irq_armed (fst m)" "\<not> cdrom_intc_request_latched (fst m)"
  shows "i_stat (snd (present_cdrom_irq m)) = i_stat (snd m) OR 4" "cdrom_intc_request_latched (fst (present_cdrom_irq m))"
    "cdrom_intc_latched_generation (fst (present_cdrom_irq m)) = cdrom_irq_generation (fst m)"
proof -
  have "push_bit 2 (1 :: u32) = 4" by (simp add: push_bit_eq_mult)
  then show "i_stat (snd (present_cdrom_irq m)) = i_stat (snd m) OR 4" "cdrom_intc_request_latched (fst (present_cdrom_irq m))"
    "cdrom_intc_latched_generation (fst (present_cdrom_irq m)) = cdrom_irq_generation (fst m)"
    using assms by (auto simp: present_cdrom_irq_def event_ring_record_def split: prod.split)
qed

lemma present_irq_armed [simp]: "cd_irq_armed (fst (present_cdrom_irq m)) = cd_irq_armed (fst m)"
  by (simp add: cd_irq_armed_def)

text \<open>After the middle of an advance nothing is presented that was not armed, unlatched and due before.\<close>

lemma present_after_calm:
  assumes "calm m m'" "cdrom_irq_present_delay (fst m) > 0 \<or> \<not> cd_irq_armed (fst m) \<or> cdrom_intc_request_latched (fst m)"
  shows "present_cdrom_irq m' = m'"
proof (rule present_blocked)
  have "cdrom_irq_present_delay (fst m') = 5000" if "fresh_response (snd m) m'" using that by (simp add: fresh_response_def)
  then show "cdrom_irq_present_delay (fst m') > 0 \<or> \<not> cd_irq_armed (fst m') \<or> cdrom_intc_request_latched (fst m')"
    using assms irq_armed_view [of "fst m'" "fst m"] by (auto simp: calm_def dest: irq_viewD)
qed

definition response_due :: "u32 \<Rightarrow> cd \<Rightarrow> bool" where
  "response_due c s \<longleftrightarrow> cd_irq_armed s \<and> \<not> cdrom_intc_request_latched s \<and>
     (cdrom_irq_present_delay s \<le> 0 \<or> cdrom_irq_present_delay s \<le> sint c)"

lemma age_simps [simp]:
  "cd_irq_armed (age_present_delay c s) = cd_irq_armed s"
  "cdrom_intc_request_latched (age_present_delay c s) = cdrom_intc_request_latched s"
  "cdrom_irq_generation (age_present_delay c s) = cdrom_irq_generation s"
  "irq_flag (age_present_delay c s) = irq_flag s" "fifo_view (age_present_delay c s) = fifo_view s"
  "cdrom_irq_present_delay (age_present_delay c s) \<le> 0 \<longleftrightarrow> cdrom_irq_present_delay s \<le> 0 \<or> cdrom_irq_present_delay s \<le> sint c"
  "0 < cdrom_irq_present_delay (age_present_delay c s) \<longleftrightarrow> 0 < cdrom_irq_present_delay s \<and> sint c < cdrom_irq_present_delay s"
  by (simp_all add: age_present_delay_def cd_irq_armed_def Let_def)

lemma advance_i_stat:
  "i_stat (snd (cdrom_advance dma c m)) = (if response_due c (fst m) then i_stat (snd m) OR 4 else i_stat (snd m))" (is ?stat)
  "response_due c (fst m) \<Longrightarrow> cdrom_intc_request_latched (fst (cdrom_advance dma c m)) \<and>
     cdrom_intc_latched_generation (fst (cdrom_advance dma c m)) = cdrom_irq_generation (fst m)" (is "_ \<Longrightarrow> ?latch")
proof -
  let ?a = "on_cd (age_present_delay c) m"
  let ?m1 = "present_cdrom_irq ?a"
  let ?m4 = "process_read_stream dma c (process_pending c (try_execute_queued_command ?m1))"
  have adv: "cdrom_advance dma c m = present_cdrom_irq ?m4"
    by (simp add: cdrom_advance_def refresh_cdrom_irq_line_def Let_def)
  have calm: "calm ?m1 ?m4" by (rule advance_middle_calm)
  have due: "response_due c (fst m) \<longleftrightarrow>
      cd_irq_armed (fst ?a) \<and> \<not> cdrom_intc_request_latched (fst ?a) \<and> cdrom_irq_present_delay (fst ?a) \<le> 0"
    by (simp add: response_due_def)
  have pre: "cdrom_irq_present_delay (fst ?m1) > 0 \<or> \<not> cd_irq_armed (fst ?m1) \<or> cdrom_intc_request_latched (fst ?m1)"
    using present_raises(2) [of ?a] present_blocked [of ?a] by (cases "response_due c (fst m)") (auto simp: due)
  have id: "cdrom_advance dma c m = ?m4" unfolding adv by (rule present_after_calm [OF calm pre])
  have "i_stat (snd ?m1) = (if response_due c (fst m) then i_stat (snd m) OR 4 else i_stat (snd m))"
    using present_raises(1) [of ?a] present_blocked [of ?a] by (cases "response_due c (fst m)") (auto simp: due)
  then show ?stat using calm by (simp add: id calm_def)
  show ?latch if "response_due c (fst m)"
  proof -
    have "irq_flag (fst ?m1) \<noteq> 0" using that by (simp add: response_due_def cd_irq_armed_def)
    then have "cd_irq_view (fst ?m4) = cd_irq_view (fst ?m1)" using calm by (simp add: calm_def)
    then show ?thesis using that present_raises(2,3) [of ?a] by (auto simp: id due dest: irq_viewD)
  qed
qed

text \<open>While a response is up, an advance only ages its presentation; its bytes and its code stay.\<close>

lemma advance_unacked:
  assumes "irq_flag (fst m) \<noteq> 0"
  shows "irq_flag (fst (cdrom_advance dma c m)) = irq_flag (fst m)" "fifo_view (fst (cdrom_advance dma c m)) = fifo_view (fst m)"
    "cdrom_irq_generation (fst (cdrom_advance dma c m)) = cdrom_irq_generation (fst m)"
    "cdrom_intc_request_latched (fst m) \<Longrightarrow> cdrom_intc_request_latched (fst (cdrom_advance dma c m))"
proof -
  let ?a = "on_cd (age_present_delay c) m"
  let ?m1 = "present_cdrom_irq ?a"
  let ?m4 = "process_read_stream dma c (process_pending c (try_execute_queued_command ?m1))"
  have adv: "cdrom_advance dma c m = present_cdrom_irq ?m4"
    by (simp add: cdrom_advance_def refresh_cdrom_irq_line_def Let_def)
  have "calm ?m1 ?m4" by (rule advance_middle_calm)
  then have v: "cd_irq_view (fst ?m4) = cd_irq_view (fst ?m1)" and f: "fifo_view (fst ?m4) = fifo_view (fst ?m1)"
    using assms by (simp_all add: calm_def)
  show "irq_flag (fst (cdrom_advance dma c m)) = irq_flag (fst m)" "fifo_view (fst (cdrom_advance dma c m)) = fifo_view (fst m)"
    "cdrom_irq_generation (fst (cdrom_advance dma c m)) = cdrom_irq_generation (fst m)"
    using irq_viewD [OF v] f by (simp_all add: adv)
  show "cdrom_intc_request_latched (fst (cdrom_advance dma c m))" if "cdrom_intc_request_latched (fst m)"
    using irq_viewD(3) [OF v] that present_blocked [of ?a] present_blocked [of ?m4] by (simp add: adv)
qed

lemma latched_is_silent:
  assumes "irq_flag (fst m) \<noteq> 0" "cdrom_intc_request_latched (fst m)"
  shows "i_stat (snd (fold (\<lambda>(d, c). cdrom_advance d c) cs m)) = i_stat (snd m)"
  using assms
proof (induction cs arbitrary: m)
  case (Cons dc cs)
  obtain d c where dc: "dc = (d, c)" by (cases dc)
  have "i_stat (snd (cdrom_advance d c m)) = i_stat (snd m)"
    using Cons.prems by (simp add: advance_i_stat response_due_def)
  then show ?case using Cons.IH [of "cdrom_advance d c m"] advance_unacked [OF Cons.prems(1)] Cons.prems by (simp add: dc)
qed simp

text \<open>C11. A response reaches the interrupt controller exactly once. An advance sets line 2 of I_STAT if and
  only if a response is up, enabled, not yet presented and its latency ends within the advance; it then marks
  the response as presented. From there on no further advance sets the line again, whatever the program does
  to I_STAT, as long as it does not acknowledge the controller: an unacknowledged interrupt cannot storm.\<close>

theorem response_presented_once:
  fixes y :: "'z sys_scheme"
  shows "let m = cdrom_advance dma c (s, y)
   in i_stat (snd m) = (if response_due c s then i_stat y OR 4 else i_stat y) \<and>
      (response_due c s \<longrightarrow>
         cdrom_intc_latched_generation (fst m) = cdrom_irq_generation s \<and>
         (\<forall>(y2 :: 'z sys_scheme) cs. i_stat (snd (fold (\<lambda>(d, c). cdrom_advance d c) cs (fst m, y2))) = i_stat y2))"
proof -
  let ?m = "cdrom_advance dma c (s, y)"
  have stat: "i_stat (snd ?m) = (if response_due c s then i_stat y OR 4 else i_stat y)" by (simp add: advance_i_stat(1))
  have latch: "cdrom_intc_request_latched (fst ?m) \<and> cdrom_intc_latched_generation (fst ?m) = cdrom_irq_generation s"
    and flag: "irq_flag (fst ?m) \<noteq> 0" if "response_due c s"
    using that advance_i_stat(2) [of c "(s, y)" dma] advance_unacked(1) [of "(s, y)" dma c] by (auto simp: response_due_def cd_irq_armed_def)
  have "i_stat (snd (fold (\<lambda>(d, c). cdrom_advance d c) cs (fst ?m, y2))) = i_stat y2" if "response_due c s" for y2 :: "'z sys_scheme" and cs
    using latched_is_silent [of "(fst ?m, y2)" cs] latch [OF that] flag [OF that] by simp
  then show ?thesis using stat latch by (auto simp: Let_def)
qed

text \<open>A response whose latency has passed is presented by an advance of one cycle, and not again in the next
  second although the program has cleared I_STAT.\<close>

lemma response_presented_once_witness:
  "let s = cd_static\<lparr> irq_flag := 3, irq_enable := 0x1F, cdrom_irq_present_delay := 0, cdrom_intc_request_latched := False \<rparr>;
       m = cdrom_advance False 1 (s, sys_boot ());
       y2 = (sys_boot ())\<lparr> i_stat := 0 \<rparr>
   in bit (i_stat (snd m)) 2 \<and> i_stat (snd (cdrom_advance False 33868800 (fst m, y2))) = 0"
proof -
  let ?s = "cd_static\<lparr> irq_flag := 3, irq_enable := 0x1F, cdrom_irq_present_delay := 0, cdrom_intc_request_latched := False \<rparr>"
  have due: "response_due 1 ?s" by (simp add: response_due_def cd_irq_armed_def)
  show ?thesis
    using response_presented_once [of False 1 ?s "sys_boot ()"] due
    by (auto simp: Let_def bit_simps dest!: spec [where x = "(sys_boot ())\<lparr> i_stat := 0 \<rparr>"] spec [where x = "[(False, 33868800)]"])
qed

section \<open>Responses are serialised\<close>

text \<open>The inputs that end a response: the acknowledge register and a reset.\<close>

definition ends_response :: "'z cdm \<Rightarrow> cd_input \<Rightarrow> bool" where
  "ends_response m i = (case i of CdWrite addr v \<Rightarrow> addr = 0x1F801803 \<and> index_reg (fst m) = 1 | CdInit _ \<Rightarrow> True | _ \<Rightarrow> False)"

primrec ack_free :: "(string \<Rightarrow> disc option) \<Rightarrow> 'z cdm \<Rightarrow> cd_input list \<Rightarrow> bool" where
  "ack_free iopen m [] = True"
| "ack_free iopen m (i # is) = (\<not> ends_response m i \<and> ack_free iopen (cd_step iopen i m) is)"

definition response_bytes :: "cd \<Rightarrow> u8 \<times> u32 \<times> (nat \<Rightarrow> u8) \<times> nat" where
  "response_bytes s = (irq_flag s, cdrom_irq_generation s, response_fifo s, response_count s)"

lemma response_bytes_views:
  "cd_irq_view s = cd_irq_view t \<Longrightarrow> fifo_view s = fifo_view t \<Longrightarrow> response_bytes s = response_bytes t"
  by (simp add: response_bytes_def cd_irq_view_def fifo_view_def)

lemma read_keeps_response: "response_bytes (snd (cdrom_read addr s)) = response_bytes s"
  by (auto simp: cdrom_read_def read_response_def cd_read_data_def Let_def response_bytes_def)

lemma dma_read_keeps_response: "response_bytes (snd (cdrom_dma_read s)) = response_bytes s"
  by (auto simp: cdrom_dma_read_def Let_def response_bytes_def)

lemma advance_keeps_response: "irq_flag (fst m) \<noteq> 0 \<Longrightarrow> response_bytes (fst (cdrom_advance dma c m)) = response_bytes (fst m)"
  using advance_unacked [of m dma c] by (simp add: response_bytes_def fifo_view_def)

lemma queue_keeps_response: "irq_flag (fst m) \<noteq> 0 \<Longrightarrow> response_bytes (fst (queue_or_exec_command v m)) = response_bytes (fst m)"
  by (simp add: queue_or_exec_command_def Let_def response_bytes_def)

lemma config_keeps_response:
  "response_bytes (cdrom_set_speed d s) = response_bytes s" "response_bytes (cdrom_set_game_speed d s) = response_bytes s"
  "response_bytes (cdrom_notify_game_started s) = response_bytes s" "response_bytes (cdrom_set_instant_rate n s) = response_bytes s"
  "response_bytes (cdrom_set_disc_scex x s) = response_bytes s"
  by (simp_all add: response_bytes_def cdrom_set_speed_def cdrom_set_game_speed_def cdrom_notify_game_started_def
      cdrom_set_instant_rate_def cdrom_set_disc_scex_def Let_def)

lemma write_keeps_response:
  assumes "irq_flag (fst m) \<noteq> 0" "\<not> (addr = 0x1F801803 \<and> index_reg (fst m) = 1)"
  shows "response_bytes (fst (cdrom_write addr v m)) = response_bytes (fst m)"
proof -
  have regs: "response_bytes (set_pending_vol i j b s) = response_bytes s" "response_bytes (push_param b s) = response_bytes s"
    "response_bytes (cd_write_request b s) = response_bytes s" for i j b s
    by (simp_all add: response_bytes_def set_pending_vol_def push_param_def cd_write_request_def Let_def)
  show ?thesis
    using assms queue_keeps_response [OF assms(1)] unfolding cdrom_write_def Let_def
    by (auto simp: regs) (simp_all add: response_bytes_def)
qed

lemma step_keeps_response:
  assumes "irq_flag (fst m) \<noteq> 0" "\<not> ends_response m i"
  shows "response_bytes (fst (cd_step iopen i m)) = response_bytes (fst m)"
proof (cases i)
  case (CdWrite addr v)
  then show ?thesis using assms write_keeps_response [of m addr v] by (simp add: ends_response_def)
qed (use assms in \<open>simp_all add: read_keeps_response dma_read_keeps_response advance_keeps_response config_keeps_response
    cdrom_tick_def ends_response_def\<close>)

text \<open>C10. Responses are serialised: once a response is up, whatever is read, written, transferred or elapses,
  sectors that come due and completions of earlier commands included, its interrupt code, its generation and
  its bytes stay until the program acknowledges the controller or resets it. No response is overwritten.\<close>

theorem response_waits_for_ack:
  assumes "irq_flag (fst m) \<noteq> 0" "ack_free iopen m is"
  shows "response_bytes (fst (fold (cd_step iopen) is m)) = response_bytes (fst m)"
  using assms
proof (induction "is" arbitrary: m)
  case (Cons i "is")
  have "response_bytes (fst (cd_step iopen i m)) = response_bytes (fst m)"
    using step_keeps_response [OF Cons.prems(1), of i iopen] Cons.prems(2) by simp
  then show ?case using Cons.IH [of "cd_step iopen i m"] Cons.prems by (simp add: response_bytes_def)
qed simp

text \<open>A response that is up while a second passes and its bytes are read.\<close>

lemma response_waits_for_ack_witness:
  "let m = (cd_static\<lparr> irq_flag := 3, response_count := 1 \<rparr>, sys_boot ())
   in irq_flag (fst (fold (cd_step (\<lambda>_. None)) [CdRead 0x1F801801, CdAdvance False 33868800, CdWrite 0x1F801801 0x09] m)) = 3"
  using response_waits_for_ack [of "(cd_static\<lparr> irq_flag := 3, response_count := 1 \<rparr>, sys_boot ())" "\<lambda>_. None"
      "[CdRead 0x1F801801, CdAdvance False 33868800, CdWrite 0x1F801801 0x09]"]
  by (simp add: ends_response_def response_bytes_def Let_def)

end
