(* ===== verification/Cdrom_Inv.thy ===== *)
theory Cdrom_Inv
  imports Cdrom_Props
begin

text \<open>
  The states the CD-ROM controller can reach: the bounds of its FIFOs and buffers, the ranges of its
  countdowns, and how the interrupt code, the command queue, the pended notification and the latch go
  together. Every operation keeps them.
\<close>

section \<open>The invariant\<close>

text \<open>The commands that have a second response.\<close>

definition two_phase :: "u8 set" where
  "two_phase = {0x07, 0x08, 0x09, 0x0A, 0x15, 0x16, 0x1A, 0x1E}"

definition buffers_ok :: "cd \<Rightarrow> bool" where
  "buffers_ok s \<longleftrightarrow> param_count s \<le> 16 \<and> response_read s \<le> response_count s \<and> response_count s \<le> 16 \<and>
     sector_read_pos s \<le> sector_size s \<and> sector_size s \<le> 2340 \<and> (sector_available s \<longrightarrow> sector_read_pos s < sector_size s) \<and>
     last_sector_size s \<le> 2340 \<and> qc_param_count (queued s) \<le> 16 \<and> hist_ok (xa_hist_l s) \<and> hist_ok (xa_hist_r s)"

text \<open>The countdown of the stream is positive between the steps (\<open>r\<close>), not inside one.\<close>

definition drive_ok :: "bool \<Rightarrow> cd \<Rightarrow> bool" where
  "drive_ok r s \<longleftrightarrow> index_reg s < 4 \<and> irq_enable s < 0x20 \<and> 0 \<le> cdrom_irq_present_delay s \<and> cdrom_irq_present_delay s \<le> 5000 \<and>
     (r \<and> reading s \<longrightarrow> 0 < read_delay s) \<and> 0 \<le> read_min s \<and> 0 \<le> read_sec s \<and> 0 \<le> read_sect s \<and>
     (pc_pending (pending s) \<longrightarrow> pc_cmd (pending s) \<in> two_phase \<and> 0 < pc_delay (pending s))"

definition link_ok :: "cd \<Rightarrow> bool" where
  "link_ok s \<longleftrightarrow> irq_flag s < 6 \<and> (irq_flag s = 0 \<longrightarrow> \<not> qc_pending (queued s) \<and> \<not> pending_dataready s \<and> \<not> cdrom_intc_request_latched s)"

definition cd_ok :: "cd \<Rightarrow> bool" where
  "cd_ok s \<longleftrightarrow> buffers_ok s \<and> drive_ok True s \<and> link_ok s"

text \<open>The first two parts are kept by every step on its own.\<close>

definition base_ok :: "bool \<Rightarrow> cd \<Rightarrow> bool" where
  "base_ok r s \<longleftrightarrow> buffers_ok s \<and> drive_ok r s"

lemmas base_defs = base_ok_def buffers_ok_def drive_ok_def

section \<open>Delays are positive\<close>

lemma apply_speed_pos: "0 < d \<Longrightarrow> 0 < apply_speed d s"
  by (simp add: apply_speed_def instant_period_def Let_def)

lemma delays_pos [simp]:
  "0 < sector_delay_cycles s" "0 < initial_read_delay_cycles s" "0 < seek_complete_delay_cycles s"
  by (simp_all add: sector_delay_cycles_def initial_read_delay_cycles_def seek_complete_delay_cycles_def apply_speed_pos)

lemma if_pos: "0 < a \<Longrightarrow> 0 < b \<Longrightarrow> 0 < (if c then a else b :: int)"
  by simp

lemma pause_delay_pos [simp]: "0 < pause_complete_delay_cycles s"
proof -
  have nonneg: "0 \<le> (if x < 0 then 0 else x) * 42596 div (75 * 60)" for x :: int
    by (rule pos_imp_zdiv_nonneg_iff [THEN iffD2]) auto
  have "0 < 1124584 + (if x < 0 then 0 else x) * 42596 div (75 * 60)" for x :: int
    by (rule add_pos_nonneg) (auto intro: nonneg)
  then show ?thesis
    unfolding pause_complete_delay_cycles_def Let_def by (intro if_pos mult_pos_pos) simp_all
qed

section \<open>The pieces keep the bounds\<close>

lemma push_ok: "base_ok r s \<Longrightarrow> base_ok r (response_push v s)"
  by (auto simp: base_defs response_push_def)

lemma pushes_ok: "base_ok r s \<Longrightarrow> base_ok r (response_pushes vs s)"
  unfolding response_pushes_def by (rule fold_keeps) (rule push_ok)

lemma clear_ok: "base_ok r s \<Longrightarrow> base_ok r (response_clear s)"
  by (simp add: base_defs response_clear_def)

lemma set_irq_ok: "base_ok r (fst m) \<Longrightarrow> base_ok r (fst (set_irq t m))"
  by (cases m) (simp add: base_defs set_irq_def)

lemma respond_ok: "base_ok r (fst m) \<Longrightarrow> base_ok r (fst (respond vs t m))"
  by (simp add: respond_def set_irq_ok pushes_ok)

lemma ack_stat_ok: "base_ok r (fst m) \<Longrightarrow> base_ok r (fst (ack_stat m))"
  by (simp add: ack_stat_def respond_ok)

lemma reject_ok: "base_ok r (fst m) \<Longrightarrow> base_ok r (fst (reject b cs m))"
  by (simp add: reject_def respond_ok)

lemma present_ok: "base_ok r (fst m) \<Longrightarrow> base_ok r (fst (present_cdrom_irq m))"
  by (cases m) (simp add: present_cdrom_irq_def base_defs)

lemma schedule_ok: "base_ok r (fst m) \<Longrightarrow> c \<in> two_phase \<Longrightarrow> 0 < d \<Longrightarrow> base_ok r (fst (schedule_second c d m))"
  by (simp add: schedule_second_def base_defs)

lemma on_cd_ok: "base_ok r (f (fst m)) \<Longrightarrow> base_ok r (fst (on_cd f m))"
  by simp

lemma hist_zero [simp]: "hist_ok (0, 0)"
  by (simp add: hist_ok_def s16_ok_def)

lemma small_ok:
  assumes "base_ok r s"
  shows "base_ok r (xa_reset_decode s)" "base_ok r (log_audio_reset s)" "base_ok r (stop_read_stream s)" "base_ok r (cd_stat_on b s)"
    "base_ok r (cd_stat_off b s)" "base_ok r (s\<lparr> stat_reg := b \<rparr>)" "base_ok r (cmd_setloc s)" "base_ok r (s\<lparr> cd_muted := x \<rparr>)"
    "base_ok r (s\<lparr> setloc_seek_far := x \<rparr>)" "base_ok r (cdrom_clear_pending_dataready s)" "base_ok r (clear_sector_buffer s)"
  using assms
  by (simp_all add: base_defs xa_reset_decode_def log_audio_reset_def stop_read_stream_def cd_stat_on_def cd_stat_off_def cmd_setloc_def
      cdrom_clear_pending_dataready_def clear_sector_buffer_def Let_def)

lemma setmode_ok: "base_ok r s \<Longrightarrow> base_ok r (cmd_setmode s)"
proof -
  assume "base_ok r s"
  then have "base_ok r (s\<lparr> mode_reg := param_fifo s 0 \<rparr>)" by (simp add: base_defs)
  then show ?thesis using \<open>base_ok r s\<close> by (simp add: cmd_setmode_def Let_def small_ok)
qed

lemma setfilter_ok: "base_ok r s \<Longrightarrow> base_ok r (cmd_setfilter s)"
  by (simp add: cmd_setfilter_def base_defs xa_reset_decode_def)

lemma start_stream_ok: "base_ok r (fst m) \<Longrightarrow> base_ok r (fst (start_read_stream c m))"
proof -
  assume "base_ok r (fst m)"
  then have "base_ok r (cdrom_clear_pending_dataready (clear_sector_buffer (fst m)))" by (simp add: small_ok)
  then have "base_ok r (let s1 = cdrom_clear_pending_dataready (clear_sector_buffer (fst m))
      in if mode_reg s1 AND 0x40 \<noteq> 0 then log_audio_reset (xa_reset_decode s1) else s1)" by (simp add: Let_def small_ok)
  then show ?thesis by (cases m) (simp add: start_read_stream_def Let_def base_defs split del: if_split)
qed

lemmas ok_intros = on_cd_ok respond_ok ack_stat_ok reject_ok schedule_ok small_ok setmode_ok setfilter_ok start_stream_ok

lemma if_split_ok: "(b \<Longrightarrow> base_ok r (fst m1)) \<Longrightarrow> (\<not> b \<Longrightarrow> base_ok r (fst m2)) \<Longrightarrow> base_ok r (fst (if b then m1 else m2))"
  by simp

lemma commands_ok:
  assumes "base_ok r (fst m)"
  shows "base_ok r (fst (cmd_read c m))" "base_ok r (fst (cmd_motor_on m))" "base_ok r (fst (cmd_stop m))" "base_ok r (fst (cmd_pause m))"
    "base_ok r (fst (cmd_init m))" "base_ok r (fst (cmd_play m))" "c = 0x15 \<or> c = 0x16 \<Longrightarrow> base_ok r (fst (cmd_seek c m))"
    "base_ok r (fst (cmd_test m))" "base_ok r (fst (cmd_get_td m))"
  using assms
  by (auto simp: cmd_read_def cmd_motor_on_def cmd_stop_def cmd_pause_def cmd_init_def cmd_play_def cmd_seek_def cmd_test_def
      cmd_get_td_def Let_def two_phase_def apply_speed_pos intro!: ok_intros split: option.split)

lemma exec_switch_ok: "base_ok r (fst m) \<Longrightarrow> base_ok r (fst (exec_switch cmd m))"
  unfolding exec_switch_def
  by (intro if_split_ok commands_ok ok_intros) (auto simp: two_phase_def intro!: commands_ok ok_intros)

lemma exec_command_ok: "base_ok r (fst m) \<Longrightarrow> base_ok r (fst (exec_command cmd m))"
proof -
  assume "base_ok r (fst m)"
  let ?m = "on_cd response_clear (fst m, event_ring_record_aux EV_ENQ SRC_CD_CMD (ucast cmd) (snd m))"
  have "base_ok r (fst (exec_switch cmd ?m))" by (rule exec_switch_ok) (simp add: clear_ok \<open>base_ok r (fst m)\<close>)
  then have "base_ok r (fst (on_cd (param_count_update (\<lambda>_. 0)) (exec_switch cmd ?m)))" by (simp add: base_defs)
  then show ?thesis by (simp add: exec_command_def fire_cdrom_irq_def present_ok)
qed

lemma try_execute_ok: "base_ok r (fst m) \<Longrightarrow> base_ok r (fst (try_execute_queued_command m))"
  unfolding try_execute_queued_command_def Let_def
  by (intro if_split_ok exec_command_ok) (auto simp: base_defs no_queued_def)

lemma queue_or_exec_ok: "base_ok r (fst m) \<Longrightarrow> base_ok r (fst (queue_or_exec_command c m))"
  unfolding queue_or_exec_command_def by (intro if_split_ok exec_command_ok) (auto simp: base_defs Let_def)

lemma payload_size: "0 < snd (sector_payload a b c s)" "snd (sector_payload a b c s) \<le> 2340"
  by (auto simp: sector_payload_def Let_def split: option.split)

lemma play_sector_hist:
  "hist_ok (xa_hist_l s) \<Longrightarrow> hist_ok (xa_hist_r s) \<Longrightarrow>
   hist_ok (xa_hist_l (xa_play_sector r d s)) \<and> hist_ok (xa_hist_r (xa_play_sector r d s))"
  using stereo_decode_facts(1) mono_decode_facts(1)
  by (auto simp: xa_play_sector_def log_audio_push_def xa_reset_decode_def Let_def dec_ok_def)

lemma play_sector_frame:
  "ctl_view (xa_play_sector r d s) = ctl_view s" "sector_read_pos (xa_play_sector r d s) = sector_read_pos s"
  "sector_size (xa_play_sector r d s) = sector_size s" "sector_available (xa_play_sector r d s) = sector_available s"
  "last_sector_size (xa_play_sector r d s) = last_sector_size s"
  by (simp_all add: xa_play_sector_def log_audio_push_def xa_reset_decode_def Let_def)

lemma base_ok_view:
  assumes "base_ok r s" "ctl_view t = ctl_view s" "sector_read_pos t \<le> sector_size t" "sector_size t \<le> 2340"
    "sector_available t \<longrightarrow> sector_read_pos t < sector_size t" "last_sector_size t \<le> 2340" "hist_ok (xa_hist_l t)" "hist_ok (xa_hist_r t)"
  shows "base_ok r t"
  using assms(1,3-) ctl_viewD [OF assms(2)] irq_viewD [OF ctl_viewD(1) [OF assms(2)]] fifo_viewD [OF ctl_viewD(2) [OF assms(2)]]
  by (simp add: base_defs)

lemma audio_ok: "base_ok r s \<Longrightarrow> base_ok r (snd (maybe_deliver_xa_audio raw d s))"
proof -
  assume ok: "base_ok r s"
  have "base_ok r (xa_play_sector raw d s)"
    by (rule base_ok_view [OF ok play_sector_frame(1)]) (use ok play_sector_hist [of s raw d] in \<open>auto simp: play_sector_frame base_defs\<close>)
  then show ?thesis using ok by (simp add: maybe_deliver_xa_audio_def)
qed

lemma read_sector_ok: "base_ok r s \<Longrightarrow> base_ok r (snd (read_sector_at a b c f s))"
proof -
  assume ok: "base_ok r s"
  let ?raw = "case sector_raw (msf_to_lba a b c) s of Some r \<Rightarrow> r | None \<Rightarrow> (\<lambda>_. 0)"
  obtain aud s1 where 1: "maybe_deliver_xa_audio ?raw (classify_raw_sector (sector_raw (msf_to_lba a b c) s)) s = (aud, s1)" by fastforce
  have ok1: "base_ok r s1" using audio_ok [OF ok, of ?raw "classify_raw_sector (sector_raw (msf_to_lba a b c) s)"] by (simp add: 1)
  show ?thesis
    by (rule base_ok_view [OF ok read_sector_frame])
      (use ok1 payload_size [of a b c s1] in \<open>auto simp: read_sector_at_def 1 Let_def split_beta base_defs\<close>)
qed

lemma advance_msf_nonneg:
  "0 \<le> a \<Longrightarrow> 0 \<le> b \<Longrightarrow> 0 \<le> c \<Longrightarrow> advance_msf (a, b, c) = (x, y, z) \<Longrightarrow> 0 \<le> x \<and> 0 \<le> y \<and> 0 \<le> z"
  by (auto simp: advance_msf_def Let_def split: if_splits)

lemma deliver_without_irq_ok: "base_ok r (fst m) \<Longrightarrow> base_ok r (fst (snd (deliver_read_sector_without_irq m)))"
proof -
  assume ok: "base_ok r (fst m)"
  obtain s y where m: "m = (s, y)" by (cases m)
  obtain dl s1 where 1: "read_sector_at (read_min s) (read_sec s) (read_sect s) (s_frame_count y) s = (dl, s1)" by fastforce
  have ok1: "base_ok r s1" using read_sector_ok [of r s "read_min s" "read_sec s" "read_sect s" "s_frame_count y"] ok by (simp add: m 1)
  obtain a b c where adv: "advance_msf (read_min s1, read_sec s1, read_sect s1) = (a, b, c)" by (cases "advance_msf (read_min s1, read_sec s1, read_sect s1)")
  have "0 \<le> a \<and> 0 \<le> b \<and> 0 \<le> c" using ok1 advance_msf_nonneg [OF _ _ _ adv] by (simp add: base_defs)
  then show ?thesis using ok1 by (simp add: deliver_read_sector_without_irq_def m 1 adv Let_def base_defs)
qed

lemma complete_ok: "base_ok r (f (fst m)) \<Longrightarrow> base_ok r (fst (complete_with f m))"
  by (simp add: complete_with_def Let_def respond_ok)

lemma pending_switch_ok: "base_ok r (fst m) \<Longrightarrow> c \<in> two_phase \<Longrightarrow> base_ok r (fst (pending_switch c m))"
  unfolding two_phase_def
  by (auto simp: pending_switch_def complete_get_id_def Let_def reject_def respond_ok fire_cdrom_irq_def intro!: complete_ok small_ok present_ok)

lemma process_pending_ok: "base_ok r (fst m) \<Longrightarrow> base_ok r (fst (process_pending c m))"
proof (cases "pc_pending (pending (fst m)) \<and> c \<noteq> 0 \<and> irq_flag (fst m) = 0")
  case True
  assume ok: "base_ok r (fst m)"
  let ?delay = "pc_delay (pending (fst m)) - sint c"
  let ?m1 = "on_cd (\<lambda>s. s\<lparr> pending := (pending s)\<lparr> pc_delay := ?delay \<rparr> \<rparr>) m"
  let ?m2 = "on_cd (\<lambda>s. response_clear (s\<lparr> pending := (pending s)\<lparr> pc_pending := False \<rparr> \<rparr>)) ?m1"
  have "base_ok r (fst ?m2)" using ok by (simp add: base_defs response_clear_def)
  moreover have "pc_cmd (pending (fst ?m2)) \<in> two_phase" using True ok by (simp add: base_defs response_clear_def)
  ultimately have "base_ok r (fst (pending_switch (pc_cmd (pending (fst ?m2))) ?m2))" by (rule pending_switch_ok)
  moreover have "base_ok r (fst ?m1)" if "0 < ?delay" using that ok True by (simp add: base_defs)
  ultimately show ?thesis using True by (simp add: process_pending_def Let_def)
qed (auto simp: process_pending_def)

lemma respond_deliver_ok: "base_ok r (fst m) \<Longrightarrow> base_ok r (fst (snd (deliver_read_sector m)))"
  using deliver_without_irq_ok [of r m] by (simp add: deliver_read_sector_def Let_def split_beta respond_ok clear_ok)

lemma stream_sector_ok: "base_ok r (fst m) \<Longrightarrow> base_ok r (fst (stream_sector dma m))"
  using deliver_without_irq_ok [of r m] respond_deliver_ok [of r m]
  by (auto simp: stream_sector_def Let_def split_beta base_defs)

lemma process_read_stream_ok: "base_ok True (fst m) \<Longrightarrow> base_ok True (fst (process_read_stream dma c m))"
proof -
  assume ok: "base_ok True (fst m)"
  let ?m1 = "if c > 0 then on_cd (\<lambda>s. s\<lparr> read_delay := read_delay s - sint c \<rparr>) m else m"
  have "base_ok False (fst ?m1)" using ok by (auto simp: base_defs)
  then have "base_ok False (fst (stream_sector dma ?m1))" by (rule stream_sector_ok)
  then have "base_ok True (fst (on_cd (\<lambda>s. let d = read_delay s + sector_delay_cycles s
      in s\<lparr> read_delay := if d \<le> 0 then sector_delay_cycles s else d \<rparr>) (stream_sector dma ?m1)))"
    by (simp add: base_defs Let_def)
  moreover have "base_ok True (fst ?m1)" if "0 < read_delay (fst ?m1)" using ok that by (auto simp: base_defs split: if_splits)
  ultimately show ?thesis using ok by (simp add: process_read_stream_def Let_def not_le)
qed

lemma present_pending_ok: "base_ok r (fst m) \<Longrightarrow> base_ok r (fst (present_pending_dataready m))"
proof -
  assume ok: "base_ok r (fst m)"
  then have "base_ok r (response_clear ((fst m)\<lparr> pending_dataready := False \<rparr>))" by (simp add: base_defs response_clear_def)
  then show ?thesis using ok by (simp add: present_pending_dataready_def respond_ok)
qed

lemma age_ok: "base_ok r s \<Longrightarrow> 0 \<le> sint c \<Longrightarrow> base_ok r (age_present_delay c s)"
  by (auto simp: age_present_delay_def base_defs Let_def)

lemma cd_advance_ok: "base_ok True (fst m) \<Longrightarrow> 0 \<le> sint c \<Longrightarrow> base_ok True (fst (cdrom_advance dma c m))"
  unfolding cdrom_advance_def refresh_cdrom_irq_line_def Let_def
  by (intro present_ok process_read_stream_ok process_pending_ok try_execute_ok) (simp add: age_ok)

section \<open>The interrupt code, the queue, the notification and the latch\<close>

lemma fresh_link: "fresh_response z m \<Longrightarrow> link_ok (fst m)"
  by (auto simp: fresh_response_def link_ok_def)

lemma link_nonzero: "irq_flag s \<noteq> 0 \<Longrightarrow> irq_flag s < 6 \<Longrightarrow> link_ok s"
  by (simp add: link_ok_def)

lemma try_execute_link: "link_ok (fst m) \<Longrightarrow> link_ok (fst (try_execute_queued_command m))"
  by (auto simp: try_execute_queued_command_def link_ok_def)

lemma pending_switch_fresh: "c \<in> two_phase \<Longrightarrow> fresh_response (snd m) (pending_switch c m)"
  unfolding two_phase_def
  by (auto simp: pending_switch_def complete_with_def complete_get_id_def Let_def reject_def intro!: respond_fresh)

lemma process_pending_link:
  assumes "base_ok r (fst m)" "link_ok (fst m)"
  shows "link_ok (fst (process_pending c m))"
proof (cases "pc_pending (pending (fst m)) \<and> c \<noteq> 0 \<and> irq_flag (fst m) = 0")
  case True
  have "pc_cmd (pending (fst m)) \<in> two_phase" using True assms(1) by (simp add: base_defs)
  then show ?thesis
    using True assms(2) by (auto simp: process_pending_def Let_def response_clear_def link_ok_def
        dest: fresh_link [OF pending_switch_fresh])
qed (use assms in \<open>auto simp: process_pending_def\<close>)

lemma deliver_without_irq_link: "link_ok (fst m) \<Longrightarrow> link_ok (fst (snd (deliver_read_sector_without_irq m)))"
  by (auto simp: link_ok_def deliver_read_sector_without_irq_def Let_def split_beta dest: irq_viewD)

lemma stream_sector_link: "link_ok (fst m) \<Longrightarrow> link_ok (fst (stream_sector dma m))"
proof -
  assume ok: "link_ok (fst m)"
  let ?r = "deliver_read_sector_without_irq m"
  have fresh: "fresh_response (snd m) (snd (deliver_read_sector m))" if "fst ?r"
    using that by (auto simp: deliver_read_sector_def Let_def split_beta intro!: respond_fresh)
  have "link_ok (fst (snd (deliver_read_sector m)))"
  proof (cases "fst ?r")
    case True
    show ?thesis by (rule fresh_link [OF fresh [OF True]])
  next
    case False
    then show ?thesis using deliver_without_irq_link [OF ok] by (simp add: deliver_read_sector_def Let_def split_beta)
  qed
  moreover have "link_ok (fst (on_cd (\<lambda>s. s\<lparr> pending_dataready := True, pending_dataready_stat := stat_reg s \<rparr>) (snd ?r)))"
    if "irq_flag (fst m) \<noteq> 0"
    using ok that irq_viewD [OF deliver_without_irq_frame(1) [of m]] by (auto simp: link_ok_def)
  ultimately show ?thesis using deliver_without_irq_link [OF ok] by (simp add: stream_sector_def Let_def split_beta)
qed

lemma process_read_stream_link: "link_ok (fst m) \<Longrightarrow> link_ok (fst (process_read_stream dma c m))"
proof -
  assume ok: "link_ok (fst m)"
  let ?m1 = "if c > 0 then on_cd (\<lambda>s. s\<lparr> read_delay := read_delay s - sint c \<rparr>) m else m"
  have 1: "link_ok (fst ?m1)" using ok by (simp add: link_ok_def)
  have "link_ok (fst (stream_sector dma ?m1))" using 1 by (rule stream_sector_link)
  then show ?thesis using ok 1 by (simp add: process_read_stream_def Let_def link_ok_def)
qed

lemma present_link: "link_ok (fst m) \<Longrightarrow> link_ok (fst (present_cdrom_irq m))"
  by (cases m) (auto simp: present_cdrom_irq_def link_ok_def cd_irq_armed_def)

lemma advance_link: "base_ok True (fst m) \<Longrightarrow> link_ok (fst m) \<Longrightarrow> 0 \<le> sint c \<Longrightarrow> link_ok (fst (cdrom_advance dma c m))"
proof -
  assume ok: "base_ok True (fst m)" "link_ok (fst m)" "0 \<le> sint c"
  let ?m1 = "present_cdrom_irq (on_cd (age_present_delay c) m)"
  have "link_ok (fst (on_cd (age_present_delay c) m))" using ok(2) by (simp add: age_present_delay_def link_ok_def Let_def)
  then have 1: "link_ok (fst (try_execute_queued_command ?m1))" by (intro try_execute_link present_link)
  have "base_ok True (fst (try_execute_queued_command ?m1))" by (intro try_execute_ok present_ok) (simp add: age_ok ok)
  from present_link [OF process_read_stream_link [OF process_pending_link [OF this 1]]]
  show ?thesis by (simp add: cdrom_advance_def refresh_cdrom_irq_line_def Let_def)
qed

lemma queue_or_exec_link: "link_ok (fst m) \<Longrightarrow> link_ok (fst (queue_or_exec_command c m))"
  using fresh_link [OF exec_command_fresh [of "snd m" m c]]
  by (auto simp: queue_or_exec_command_def link_ok_def Let_def)

text \<open>The acknowledge: what it leaves open, the notification and the queue close.\<close>

lemma small_flag: "f < 6 \<Longrightarrow> f AND 0x1F = f" for f :: u8
proof -
  assume "f < 6"
  then have "unat f < 6" by (simp add: word_less_nat_alt)
  moreover have "unat (f AND mask 5) = unat f mod 32" by (simp only: unat_and_mask) simp
  ultimately show ?thesis by (simp add: word_unat_eq_iff mask_eq_exp_minus_1)
qed

lemma and_less: "f < k \<Longrightarrow> f AND b < k" for f k :: u8
  using word_and_le2 [of f b] by (rule le_less_trans)

lemma ack_irq_link:
  assumes "link_ok s"
  shows "irq_flag (ack_irq v s) < 6" "irq_flag (ack_irq v s) = 0 \<Longrightarrow> \<not> cdrom_intc_request_latched (ack_irq v s)"
  using assms small_flag [of "irq_flag s"] small_flag [OF and_less, of "irq_flag s"]
  by (auto simp: ack_irq_def Let_def link_ok_def and_less)

lemma ack_path_link:
  assumes "link_ok (fst m)"
  shows "link_ok (fst (try_execute_queued_command (present_pending_dataready (on_cd (ack_irq v) m))))"
proof -
  let ?a = "on_cd (ack_irq v) m"
  let ?p = "present_pending_dataready ?a"
  have flag: "irq_flag (fst ?a) < 6" "irq_flag (fst ?a) = 0 \<Longrightarrow> \<not> cdrom_intc_request_latched (fst ?a)"
    using ack_irq_link [OF assms, of v] by simp_all
  show ?thesis
  proof (cases "irq_flag (fst ?a) = 0 \<and> \<not> pending_dataready (fst ?a)")
    case True
    then have p: "?p = ?a" by (simp add: present_pending_dataready_def)
    show ?thesis
    proof (cases "qc_pending (queued (fst ?a))")
      case True
      then have "fresh_response (snd ?a) (try_execute_queued_command ?a)"
        using \<open>irq_flag (fst ?a) = 0 \<and> _\<close> by (auto simp: try_execute_queued_command_def Let_def intro!: exec_command_fresh)
      then show ?thesis unfolding p by (rule fresh_link)
    next
      case False
      then show ?thesis unfolding p using True flag by (simp add: try_execute_queued_command_def link_ok_def)
    qed
  next
    case False
    have "link_ok (fst ?p)"
    proof (cases "irq_flag (fst ?a) = 0")
      case True
      then have "fresh_response (snd ?a) ?p"
        using False by (auto simp: present_pending_dataready_def intro!: respond_fresh)
      then show ?thesis by (rule fresh_link)
    next
      case False
      then show ?thesis using flag(1) by (simp add: present_pending_dataready_def link_ok_def)
    qed
    then show ?thesis by (rule try_execute_link)
  qed
qed

lemma ack_irq_ok: "base_ok r s \<Longrightarrow> base_ok r (ack_irq v s)"
  by (simp add: ack_irq_def Let_def base_defs)

lemma request_ok: "base_ok r s \<Longrightarrow> base_ok r (cd_write_request v s)"
  by (auto simp: cd_write_request_def Let_def base_defs)

lemma register_writes_ok:
  assumes "base_ok r s"
  shows "base_ok r (set_pending_vol i j v s)" "base_ok r (push_param v s)" "base_ok r (s\<lparr> cd_decode_vol := x \<rparr>)"
    "base_ok r (s\<lparr> index_reg := v AND 3 \<rparr>)" "base_ok r (s\<lparr> irq_enable := v AND 0x1F \<rparr>)"
proof -
  have "v AND 3 < 4" "v AND 0x1F < 0x20" by (rule le_less_trans [OF word_and_le1], simp)+
  then show "base_ok r (set_pending_vol i j v s)" "base_ok r (push_param v s)" "base_ok r (s\<lparr> cd_decode_vol := x \<rparr>)"
    "base_ok r (s\<lparr> index_reg := v AND 3 \<rparr>)" "base_ok r (s\<lparr> irq_enable := v AND 0x1F \<rparr>)"
    using assms by (simp_all add: set_pending_vol_def push_param_def base_defs)
qed

lemma cd_write_ok: "base_ok r (fst m) \<Longrightarrow> base_ok r (fst (cdrom_write addr v m))"
  unfolding cdrom_write_def Let_def
  by (intro if_split_ok) (simp_all add: register_writes_ok request_ok queue_or_exec_ok ack_irq_ok present_pending_ok try_execute_ok)

lemma write_link: "link_ok (fst m) \<Longrightarrow> link_ok (fst (cdrom_write addr v m))"
  using queue_or_exec_link [of m "ucast v"] ack_path_link [of m "ucast v"]
  by (simp add: cdrom_write_def Let_def set_pending_vol_def push_param_def cd_write_request_def link_ok_def)

section \<open>Reachable states\<close>

lemma cd_read_ok: "base_ok r s \<Longrightarrow> base_ok r (snd (cdrom_read addr s))"
  by (auto simp: cdrom_read_def read_response_def cd_read_data_def data_fifo_ready_def Let_def base_defs)

lemma read_link: "link_ok s \<Longrightarrow> link_ok (snd (cdrom_read addr s))"
  by (auto simp: cdrom_read_def read_response_def cd_read_data_def Let_def link_ok_def)

lemma dma_read_ok: "base_ok r s \<Longrightarrow> base_ok r (snd (cdrom_dma_read s))"
  by (auto simp: cdrom_dma_read_def Let_def base_defs)

lemma dma_read_link: "link_ok s \<Longrightarrow> link_ok (snd (cdrom_dma_read s))"
  by (auto simp: cdrom_dma_read_def Let_def link_ok_def)

lemma cd_init_ok:
  assumes "0 \<le> read_min s" "0 \<le> read_sec s" "0 \<le> read_sect s"
  shows "cd_ok (cdrom_init iopen cue s)"
  using assms
  by (auto simp: cd_ok_def buffers_ok_def drive_ok_def link_ok_def cdrom_init_def stop_read_stream_def cdrom_clear_pending_dataready_def
      log_audio_reset_def xa_reset_decode_def no_queued_def Let_def split: option.split)

lemma config_ok:
  assumes "cd_ok s"
  shows "cd_ok (cdrom_set_speed d s)" "cd_ok (cdrom_set_game_speed d s)" "cd_ok (cdrom_notify_game_started s)"
    "cd_ok (cdrom_set_instant_rate n s)" "cd_ok (cdrom_set_disc_scex x s)"
  using assms
  by (simp_all add: cd_ok_def buffers_ok_def drive_ok_def link_ok_def cdrom_set_speed_def cdrom_set_game_speed_def
      cdrom_notify_game_started_def cdrom_set_instant_rate_def cdrom_set_disc_scex_def Let_def)

text \<open>Time passes in pieces that an \<open>int\<close> holds.\<close>

definition input_ok :: "cd_input \<Rightarrow> bool" where
  "input_ok i = (case i of CdAdvance dma c \<Rightarrow> 0 \<le> sint c | _ \<Rightarrow> True)"

inductive cd_reach :: "(string \<Rightarrow> disc option) \<Rightarrow> cd \<Rightarrow> bool" for iopen where
  cd_start: "cd_reach iopen (cdrom_init iopen cue cd_static)"
| cd_next: "cd_reach iopen s \<Longrightarrow> input_ok i \<Longrightarrow> cd_reach iopen (fst (cd_step iopen i (s, y :: unit sys_scheme)))"

lemma cd_ok_split: "cd_ok s \<longleftrightarrow> base_ok True s \<and> link_ok s"
  by (auto simp: cd_ok_def base_ok_def)

lemma cd_step_ok:
  assumes "cd_ok (fst m)" "input_ok i"
  shows "cd_ok (fst (cd_step iopen i m))"
proof (cases i)
  case (CdInit cue)
  have "0 \<le> read_min (fst m)" "0 \<le> read_sec (fst m)" "0 \<le> read_sect (fst m)"
    using assms(1) by (simp_all add: cd_ok_split base_defs)
  then show ?thesis using CdInit cd_init_ok by simp
qed (use assms in \<open>simp_all add: cd_ok_split cd_read_ok read_link dma_read_ok dma_read_link cd_write_ok write_link cd_advance_ok advance_link
    cdrom_tick_def config_ok [unfolded cd_ok_split] input_ok_def\<close>)

text \<open>C3. Every state the controller reaches is well formed: the parameter, response and queue counts are
  within the 16-byte FIFOs and the read positions within what was written, so that no register access leaves
  an array; the sector size is at most that of the buffer and a sector that is offered has bytes left; the
  decoder keeps 16-bit samples; the latency, the stream and the second response count down from positive
  values and only the eight two-phase commands schedule one; the interrupt code is at most 5, and when it is
  0 there is no queued command, no pended notification and no latched request.\<close>

theorem cd_reachable_ok: "cd_reach iopen s \<Longrightarrow> cd_ok s"
proof (induction rule: cd_reach.induct)
  case (cd_start cue)
  then show ?case by (rule cd_init_ok) (simp_all add: cd_static_def)
next
  case (cd_next s i y)
  then show ?case using cd_step_ok [of "(s, y)" i iopen] by simp
qed

definition no_disc :: "string \<Rightarrow> disc option" where "no_disc = (\<lambda>_. None)"

text \<open>A GetID command written at once after a reset.\<close>

lemma cd_reachable_ok_witness:
  "cd_ok (fst (cd_step no_disc (CdWrite 0x1F801801 0x1A) (cdrom_init no_disc None cd_static, sys_boot ())))"
  by (rule cd_reachable_ok [of no_disc], rule cd_next, rule cd_start) (simp add: input_ok_def)

end
