(* ===== verification/Cdrom_Cmds.thy ===== *)
theory Cdrom_Cmds
  imports Cdrom_Inv
begin

text \<open>
  The CD-ROM controller as its driver sees it: a command is answered, a command issued early waits its turn,
  the distance to the next interrupt can be trusted, and what is read out of the sector buffer is what the
  disc holds at the place the program asked for.
\<close>

section \<open>Every command is answered\<close>

definition answered :: "u8 \<Rightarrow> 'z cdm \<Rightarrow> bool" where
  "answered e m \<longleftrightarrow> irq_flag (fst m) \<in> {3, 5} \<and> irq_enable (fst m) = e \<and> 0 < response_count (fst m) \<and> response_read (fst m) = 0"

definition ready_for :: "u8 \<Rightarrow> 'z cdm \<Rightarrow> bool" where
  "ready_for e m \<longleftrightarrow> irq_enable (fst m) = e \<and> response_count (fst m) = 0 \<and> response_read (fst m) = 0"

lemma pushes_count: "response_count s \<le> response_count (response_pushes vs s)"
proof (induction vs arbitrary: s)
  case (Cons v vs)
  have "response_count s \<le> response_count (response_push v s)" by (simp add: response_push_def)
  also have "\<dots> \<le> response_count (response_pushes (v # vs) s)"
    using Cons.IH [of "response_push v s"] by (simp add: response_pushes_def)
  finally show ?case .
qed (simp add: response_pushes_def)

lemmas fifo_frames [simp] = fifo_viewD [OF set_irq_facts(6)] fifo_viewD [OF present_frame(5)]

lemma respond_answered: "ready_for e m \<Longrightarrow> vs \<noteq> [] \<Longrightarrow> t \<in> {3, 5} \<Longrightarrow> answered e (respond vs t m)"
proof -
  assume a: "ready_for e m" "vs \<noteq> []" "t \<in> {3, 5}"
  then obtain v ws where vs: "vs = v # ws" by (cases vs) auto
  let ?s = "response_pushes vs (fst m)"
  have "response_pushes vs (fst m) = response_pushes ws (response_push v (fst m))" by (simp add: vs response_pushes_def)
  then have "0 < response_count ?s"
    using a(1) pushes_count [of "response_push v (fst m)" ws] by (simp add: ready_for_def response_push_def split: if_splits)
  moreover have "irq_enable ?s = e" using a(1) irq_viewD(2) [OF response_pushes_frame(1)] by (simp add: ready_for_def)
  ultimately show ?thesis
    using a by (simp add: answered_def respond_def ready_for_def)
qed

lemma ack_stat_answered: "ready_for e m \<Longrightarrow> answered e (ack_stat m)"
  unfolding ack_stat_def by (rule respond_answered) auto

lemma reject_answered: "ready_for e m \<Longrightarrow> answered e (reject b cs m)"
  unfolding reject_def by (rule respond_answered) auto

lemma respond_ack_answered: "ready_for e m \<Longrightarrow> vs \<noteq> [] \<Longrightarrow> answered e (respond vs 3 m)"
  by (rule respond_answered) auto

lemma schedule_answered: "answered e m \<Longrightarrow> answered e (schedule_second c d m)"
  by (simp add: answered_def schedule_second_def)

lemma ready_on_cd: "cd_irq_view (f (fst m)) = cd_irq_view (fst m) \<Longrightarrow> fifo_view (f (fst m)) = fifo_view (fst m) \<Longrightarrow>
  ready_for e m \<Longrightarrow> ready_for e (on_cd f m)"
  by (simp add: ready_for_def cd_irq_view_def fifo_view_def)

lemma start_stream_ready: "ready_for e m \<Longrightarrow> ready_for e (start_read_stream c m)"
  by (cases m) (simp add: ready_for_def start_read_stream_def cdrom_clear_pending_dataready_def clear_sector_buffer_def log_audio_reset_def
      xa_reset_decode_def Let_def)

lemmas answered_intros = schedule_answered ack_stat_answered reject_answered respond_ack_answered ready_on_cd start_stream_ready

lemmas small_defs = xa_reset_decode_def log_audio_reset_def stop_read_stream_def cdrom_clear_pending_dataready_def
  cd_stat_on_def cd_stat_off_def cmd_setloc_def cmd_setfilter_def cmd_setmode_def

lemma commands_answered:
  assumes "ready_for e m"
  shows "answered e (cmd_read c m)" "answered e (cmd_motor_on m)" "answered e (cmd_stop m)" "answered e (cmd_pause m)"
    "answered e (cmd_init m)" "answered e (cmd_play m)" "answered e (cmd_seek c m)" "answered e (cmd_test m)" "answered e (cmd_get_td m)"
  using assms
  by (auto simp: cmd_read_def cmd_motor_on_def cmd_stop_def cmd_pause_def cmd_init_def cmd_play_def cmd_seek_def cmd_test_def
      cmd_get_td_def get_td_bytes_def small_defs Let_def split_beta intro!: answered_intros split: option.split)

lemma if_split_answered: "answered e m1 \<Longrightarrow> answered e m2 \<Longrightarrow> answered e (if b then m1 else m2)"
  by simp

lemma exec_switch_answered:
  assumes "ready_for e m"
  shows "answered e (exec_switch cmd m)"
  unfolding exec_switch_def
  by (intro if_split_answered commands_answered answered_intros assms)
    (auto simp: small_defs Let_def getloc_l_bytes_def getloc_p_bytes_def get_tn_bytes_def split_beta)

lemma exec_command_answered: "answered (irq_enable (fst m)) (exec_command cmd m)"
proof -
  let ?m = "on_cd response_clear (fst m, event_ring_record_aux EV_ENQ SRC_CD_CMD (ucast cmd) (snd m))"
  have "ready_for (irq_enable (fst m)) ?m" by (simp add: ready_for_def response_clear_def)
  then have "answered (irq_enable (fst m)) (on_cd (param_count_update (\<lambda>_. 0)) (exec_switch cmd ?m))"
    using exec_switch_answered [of "irq_enable (fst m)" ?m cmd] by (simp add: answered_def)
  then show ?thesis
    by (simp add: exec_command_def fire_cdrom_irq_def answered_def)
qed

lemma enable_all: "irq_enable s = 0x1F \<Longrightarrow> irq_flag s \<in> {1, 2, 3, 5} \<Longrightarrow> cd_irq_armed s"
  by (auto simp: cd_irq_armed_def push_bit_eq_mult)

text \<open>C12. Every command byte is answered, asynchronously and in bounded time: a command written while no
  response is up leaves the interrupt line alone during the write, puts up an acknowledge or an error with at
  least one byte, and, with the interrupts enabled, the first advance of 5000 cycles raises line 2 with the
  response still in place.\<close>

theorem command_is_answered:
  assumes "irq_flag s = 0" "irq_enable s = 0x1F" "index_reg s = 0" "5000 \<le> sint c"
  shows "let m1 = cdrom_write 0x1F801801 cmd (s, y); m2 = cdrom_advance dma c m1
     in i_stat (snd m1) = i_stat y \<and> i_stat (snd m2) = i_stat y OR 4 \<and>
        irq_flag (fst m2) \<in> {3, 5} \<and> 0 < response_count (fst m2) \<and> response_bytes (fst m2) = response_bytes (fst m1)"
proof -
  let ?m1 = "exec_command (ucast cmd) (s, y)"
  have w: "cdrom_write 0x1F801801 cmd (s, y) = ?m1" using assms by (simp add: cdrom_write_def queue_or_exec_command_def Let_def)
  have a: "answered 0x1F ?m1" using exec_command_answered [of "(s, y)" "ucast cmd"] assms(2) by simp
  have f: "fresh_response y ?m1" by (rule exec_command_fresh) simp_all
  have "cd_irq_armed (fst ?m1)" using a by (intro enable_all) (auto simp: answered_def)
  then have "response_due c (fst ?m1)" using f assms(4) by (simp add: response_due_def fresh_response_def)
  then have "i_stat (snd (cdrom_advance dma c ?m1)) = i_stat y OR 4" using f by (simp add: advance_i_stat(1) fresh_response_def)
  moreover have "response_bytes (fst (cdrom_advance dma c ?m1)) = response_bytes (fst ?m1)"
    by (rule advance_keeps_response) (use a in \<open>auto simp: answered_def\<close>)
  ultimately show ?thesis using a f unfolding Let_def w by (auto simp: answered_def fresh_response_def response_bytes_def)
qed

lemma command_is_answered_witness:
  "i_stat (snd (cdrom_advance False 5000 (cdrom_write 0x1F801801 0xFE (cd_static\<lparr> irq_enable := 0x1F \<rparr>, sys_boot ())))) = 4"
  using command_is_answered [of "cd_static\<lparr> irq_enable := 0x1F \<rparr>" 5000 "0xFE" "sys_boot ()" False]
  by (simp add: Let_def cd_static_def sys_boot_def)

section \<open>A command issued early waits its turn\<close>

definition write_all :: "(u32 \<times> u32) list \<Rightarrow> 'z cdm \<Rightarrow> 'z cdm" where
  "write_all ws m = fold (\<lambda>(addr, v). cdrom_write addr v) ws m"

lemma write_all_simps [simp]:
  "write_all [] m = m" "write_all ((addr, v) # ws) m = write_all ws (cdrom_write addr v m)"
  by (simp_all add: write_all_def)

lemma select_index: "cdrom_write 0x1F801800 v m = on_cd (index_reg_update (\<lambda>_. ucast v AND 3)) m"
  by (simp add: cdrom_write_def Let_def)

lemma blit_back: "blit p 0 (blit q 0 p n) n = p"
  by (auto simp: blit_def fun_eq_iff)

lemma pushes_queue [simp]: "queued (response_pushes vs s) = queued s" "pending_dataready (response_pushes vs s) = pending_dataready s"
  by (induction vs arbitrary: s) (simp_all add: response_pushes_def response_push_def)

lemma respond_queue [simp]:
  "irq_flag (fst (respond vs t m)) = t" "queued (fst (respond vs t m)) = queued (fst m)"
  "pending_dataready (fst (respond vs t m)) = pending_dataready (fst m)"
  by (simp_all add: respond_def) (simp_all add: set_irq_def split_beta)

text \<open>The state in which the queued command is to run.\<close>

definition acknowledged :: "u8 \<Rightarrow> cd \<Rightarrow> cd" where
  "acknowledged v s = (ack_irq v s)\<lparr> index_reg := 1 \<rparr>"

text \<open>A command issued while a response is up waits for the acknowledge and then runs as it was issued.
  The controller shows itself busy and neither executes the command nor disturbs the response; the full
  acknowledge runs it in the acknowledged state with the parameters written before it, and leaves the queue
  empty. A sector notification that is pended goes first: the same acknowledge then puts up its interrupt,
  and the command stays queued behind it.\<close>

lemma early_command_waits:
  assumes "irq_flag s \<noteq> 0" "irq_flag s AND NOT (v AND 0x1F) = 0" "v AND 0x40 = 0" "queued s = no_queued" "param_count s \<le> 16"
  shows "let m = write_all [(0x1F801800, 0), (0x1F801801, cmd), (0x1F801800, 1)] (s, y);
             m' = cdrom_write 0x1F801803 (ucast v) m
     in status_byte (fst m) AND 0x80 \<noteq> 0 \<and> response_bytes (fst m) = response_bytes s \<and> snd m = y \<and>
        (if pending_dataready s
         then irq_flag (fst m') = 1 \<and> qc_pending (queued (fst m')) \<and> qc_cmd (queued (fst m')) = ucast cmd \<and> \<not> pending_dataready (fst m')
         else m' = exec_command (ucast cmd) (acknowledged v s, y))"
proof -
  let ?n = "param_count s"
  let ?q = "\<lparr> qc_cmd = ucast cmd, qc_params = blit (\<lambda>_. 0) 0 (param_fifo s) ?n, qc_param_count = ?n, qc_pending = True \<rparr>"
  let ?s = "s\<lparr> queued := ?q, param_count := 0, index_reg := 1 \<rparr>"
  have m: "write_all [(0x1F801800, 0), (0x1F801801, cmd), (0x1F801800, 1)] (s, y) = (?s, y)"
    using assms(1,4,5) by (simp add: select_index) (simp add: cdrom_write_def queue_or_exec_command_def Let_def no_queued_def)
  have v8: "ucast (ucast v :: u32) = (v :: u8)" by (rule bit_word_eqI) (simp add: bit_simps)
  have m': "cdrom_write 0x1F801803 (ucast v) (?s, y) = try_execute_queued_command (present_pending_dataready (ack_irq v ?s, y))"
    by (simp add: cdrom_write_def Let_def v8)
  have ack: "irq_flag (ack_irq v ?s) = 0" "queued (ack_irq v ?s) = ?q" "pending_dataready (ack_irq v ?s) = pending_dataready s"
    using assms(2,3) by (simp_all add: ack_irq_def Let_def)
  have run: "try_execute_queued_command (ack_irq v ?s, y) = exec_command (ucast cmd) (acknowledged v s, y)"
  proof -
    have "(ack_irq v ?s)\<lparr> param_fifo := blit (param_fifo (ack_irq v ?s)) 0 (qc_params ?q) ?n, param_count := ?n, queued := no_queued \<rparr>
        = acknowledged v s"
      using assms(3,4) by (simp add: acknowledged_def ack_irq_def Let_def blit_back)
    then show ?thesis using ack(1,2) assms(5) by (simp add: try_execute_queued_command_def Let_def)
  qed
  have notify: "irq_flag (fst p) = 1 \<and> queued (fst p) = ?q \<and> \<not> pending_dataready (fst p)"
    if "pending_dataready s" "p = present_pending_dataready (ack_irq v ?s, y)" for p
    using that ack by (simp add: present_pending_dataready_def response_clear_def)
  have "status_byte ?s AND 0x80 \<noteq> 0"
    by (simp add: status_byte_def bit.conj_disj_distrib2)
  moreover have "response_bytes ?s = response_bytes s" by (simp add: response_bytes_def)
  moreover have "try_execute_queued_command p = p" if "irq_flag (fst p) = 1" for p :: "'a cdm"
    using that by (simp add: try_execute_queued_command_def)
  ultimately show ?thesis
    using notify run ack(3) unfolding Let_def m m' by (auto simp: present_pending_dataready_def)
qed

lemma early_command_waits_example:
  "cdrom_write 0x1F801803 7 (write_all [(0x1F801800, 0), (0x1F801801, 9), (0x1F801800, 1)] (cd_static\<lparr> irq_flag := 3 \<rparr>, sys_boot ()))
     = exec_command 9 (acknowledged 7 (cd_static\<lparr> irq_flag := 3 \<rparr>), sys_boot ())"
  using early_command_waits [of "cd_static\<lparr> irq_flag := 3 \<rparr>" 7 9 "sys_boot ()"] by (simp add: Let_def cd_static_def)

section \<open>The distance to the next interrupt\<close>

lemma distance_le_latency:
  assumes "cd_irq_armed s" "0 \<le> cdrom_irq_present_delay s" "cdrom_irq_present_delay s \<le> 5000"
  shows "uint (cdrom_cycles_to_irq 0xFFFFFFFF s) \<le> cdrom_irq_present_delay s"
proof -
  have u: "uint (word_of_int (cdrom_irq_present_delay s) :: u32) = cdrom_irq_present_delay s"
    using assms(2,3) by (simp add: uint_word_of_int_eq take_bit_int_eq_self)
  then show ?thesis
    using assms by (auto simp: cdrom_cycles_to_irq_def Let_def word_less_def)
qed

text \<open>C15. The distance to the next CD interrupt is safe, but not tight. In a well-formed state an advance by
  fewer cycles than the distance does not raise the line. The distance ignores the latch, though: from the
  moment a response has been presented until its acknowledge it is 0, as if the interrupt were due, although
  no advance, however long, raises the line in this state.\<close>

theorem cd_distance_is_safe:
  assumes "cd_ok s"
  shows "(c < cdrom_cycles_to_irq 0xFFFFFFFF s \<longrightarrow> i_stat (snd (cdrom_advance dma c (s, y))) = i_stat y) \<and>
     (cd_irq_armed s \<and> cdrom_intc_request_latched s \<and> cdrom_irq_present_delay s = 0 \<longrightarrow>
        cdrom_cycles_to_irq 0xFFFFFFFF s = 0 \<and> (\<forall>d. i_stat (snd (cdrom_advance dma d (s, y))) = i_stat y))"
proof (intro conjI impI allI)
  have lat: "0 \<le> cdrom_irq_present_delay s" "cdrom_irq_present_delay s \<le> 5000"
    using assms by (simp_all add: cd_ok_def drive_ok_def)
  assume c: "c < cdrom_cycles_to_irq 0xFFFFFFFF s"
  have "\<not> response_due c s"
  proof
    assume due: "response_due c s"
    then have "uint c < cdrom_irq_present_delay s"
      using c distance_le_latency [OF _ lat] by (auto simp: response_due_def word_less_def)
    moreover from this have "uint c < 2 ^ 31" using lat(2) by simp
    then have "sint c = uint c"
      unfolding sint_uint by (intro signed_take_bit_int_eq_self) (auto intro: order_trans [of _ 0])
    ultimately show False using due uint_ge_0 [of c] unfolding response_due_def by linarith
  qed
  then show "i_stat (snd (cdrom_advance dma c (s, y))) = i_stat y" by (simp add: advance_i_stat(1))
next
  assume l: "cd_irq_armed s \<and> cdrom_intc_request_latched s \<and> cdrom_irq_present_delay s = 0"
  then have "uint (cdrom_cycles_to_irq 0xFFFFFFFF s) \<le> 0" using distance_le_latency [of s] by simp
  then have "uint (cdrom_cycles_to_irq 0xFFFFFFFF s) = 0" using uint_ge_0 [of "cdrom_cycles_to_irq 0xFFFFFFFF s"] by linarith
  then show "cdrom_cycles_to_irq 0xFFFFFFFF s = 0" by (simp add: uint_0_iff)
  show "i_stat (snd (cdrom_advance dma d (s, y))) = i_stat y" for d
    using l by (simp add: advance_i_stat(1) response_due_def)
qed

text \<open>A presented acknowledge: the distance is 0, and an advance by a whole second raises nothing.\<close>

lemma cd_distance_is_safe_witness:
  "let s = (cdrom_init no_disc None cd_static)\<lparr> irq_flag := 3, cdrom_intc_request_latched := True \<rparr>
   in cdrom_cycles_to_irq 0xFFFFFFFF s = 0 \<and> i_stat (snd (cdrom_advance False 33868800 (s, sys_boot ()))) = 0"
proof -
  let ?i = "cdrom_init no_disc None cd_static"
  let ?s = "?i\<lparr> irq_flag := 3, cdrom_intc_request_latched := True \<rparr>"
  have f: "irq_enable ?i = 0x1F" "cdrom_irq_present_delay ?i = 0"
    by (simp_all add: cdrom_init_def Let_def stop_read_stream_def cdrom_clear_pending_dataready_def log_audio_reset_def xa_reset_decode_def)
  have "cd_ok ?i" by (rule cd_init_ok) (simp_all add: cd_static_def)
  then have "cd_ok ?s" by (simp add: cd_ok_def buffers_ok_def drive_ok_def link_ok_def)
  moreover have "cd_irq_armed ?s" by (rule enable_all) (simp_all add: f)
  ultimately show ?thesis
    using cd_distance_is_safe [of ?s 0 False "sys_boot ()"] f by (simp add: Let_def sys_boot_def)
qed

end
