(* ===== verification/Cdrom_Data.thy ===== *)
theory Cdrom_Data
  imports Cdrom_Cmds
begin

text \<open>
  The data path of the CD-ROM controller: addresses in BCD, minutes, seconds and frames, the sector stream,
  the words that come out of the sector buffer, and the whole of a sector read from SetLoc to DMA.
\<close>

section \<open>Addresses\<close>

lemma bin_to_bcd_nat:
  assumes "0 \<le> v" "v \<le> 99"
  shows "unat (bin_to_bcd v) = 16 * nat (v div 10) + nat (v mod 10)"
proof -
  have d: "v sdiv 10 = v div 10" "v smod 10 = v mod 10"
    using assms by (simp_all add: signed_divide_int_def signed_modulo_int_def minus_div_mult_eq_mod sgn_if)
  have "push_bit 4 (v div 10) AND v mod 10 = 0"
  proof (rule bit_eqI)
    fix n
    have "\<not> bit (v mod 10) n" if "4 \<le> n"
    proof -
      have "take_bit 4 (v mod 10) = v mod 10" by (rule take_bit_int_eq_self) (auto intro: less_trans [of _ 10])
      then show ?thesis using that by (metis bit_take_bit_iff not_less)
    qed
    then show "bit (push_bit 4 (v div 10) AND v mod 10) n = bit 0 n" by (auto simp: bit_simps)
  qed
  then have "push_bit 4 (v div 10) OR v mod 10 = push_bit 4 (v div 10) + v mod 10" by (rule disjunctive_add_eq_or [symmetric])
  also have "\<dots> = int (16 * nat (v div 10) + nat (v mod 10))" using assms by (simp add: push_bit_eq_mult)
  finally have "bin_to_bcd v = of_nat (16 * nat (v div 10) + nat (v mod 10))" by (simp only: bin_to_bcd_def d of_int_of_nat_eq)
  then have "unat (bin_to_bcd v) = (16 * nat (v div 10) + nat (v mod 10)) mod 256"
    by (simp only: unat_word_of_nat) simp
  moreover have "v div 10 \<le> 99 div 10" using assms by (intro zdiv_mono1) auto
  then have "nat (v div 10) \<le> 9" "nat (v mod 10) \<le> 9" by (simp_all add: nat_le_iff)
  ultimately show ?thesis by simp
qed

lemma bcd_round_trip: "0 \<le> v \<Longrightarrow> v \<le> 99 \<Longrightarrow> bcd_to_bin (bin_to_bcd v) = v"
proof -
  assume v: "0 \<le> v" "v \<le> 99"
  let ?b = "bin_to_bcd v"
  have l: "?b AND 0x0F = ?b AND mask 4" by (simp add: mask_eq_exp_minus_1)
  have "nat (v mod 10) < 16" by simp
  then have "unat (drop_bit 4 ?b) = nat (v div 10)" "unat (?b AND 0x0F) = nat (v mod 10)"
    unfolding l unat_and_mask unat_drop_bit_eq by (simp_all add: bin_to_bcd_nat [OF v] drop_bit_eq_div)
  moreover have "0 \<le> v div 10" using v by (simp add: pos_imp_zdiv_nonneg_iff)
  ultimately show ?thesis by (simp add: bcd_to_bin_def)
qed

lemma msf_round_trip:
  "0 \<le> m \<Longrightarrow> 0 \<le> s \<Longrightarrow> s < 60 \<Longrightarrow> 0 \<le> f \<Longrightarrow> f < 75 \<Longrightarrow> lba_to_msf (msf_to_lba m s f) 150 = (m, s, f)"
proof -
  assume a: "0 \<le> m" "0 \<le> s" "s < 60" "0 \<le> f" "f < 75"
  let ?fr = "m * 4500 + (s * 75 + f)"
  have fr: "msf_to_lba m s f + 150 = ?fr" by (simp add: msf_to_lba_def)
  have in_min: "0 \<le> s * 75 + f" "s * 75 + f < 4500" using a by simp_all
  have "?fr div 4500 = m" "?fr mod 4500 = s * 75 + f" using in_min by simp_all
  moreover have "(s * 75 + f) div 75 = s" "(s * 75 + f) mod 75 = f" using a by simp_all
  moreover have "\<not> ?fr < 0" using a in_min by (simp add: not_less add_nonneg_nonneg)
  ultimately show ?thesis by (simp add: lba_to_msf_def fr Let_def)
qed

lemma advance_msf_next:
  assumes "s < 60" "f < 75" "advance_msf (m, s, f) = (m', s', f')"
  shows "msf_to_lba m' s' f' = msf_to_lba m s f + 1" "0 \<le> s \<Longrightarrow> 0 \<le> f \<Longrightarrow> 0 \<le> s' \<and> s' < 60 \<and> 0 \<le> f' \<and> f' < 75"
  using assms by (auto simp: advance_msf_def msf_to_lba_def Let_def split: if_splits)

section \<open>Reading the sector buffer\<close>

primrec dma_words :: "nat \<Rightarrow> cd \<Rightarrow> u32 list \<times> cd" where
  "dma_words 0 s = ([], s)"
| "dma_words (Suc n) s = (let (w, s1) = cdrom_dma_read s; (ws, s2) = dma_words n s1 in (w # ws, s2))"

definition data_open :: "cd \<Rightarrow> bool" where
  "data_open s \<longleftrightarrow> request_reg s AND 0x80 \<noteq> 0 \<and> sector_available s"

lemma dma_words_take:
  assumes "data_open s" "sector_read_pos s + 4 * n \<le> sector_size s"
  shows "fst (dma_words n s) = map (\<lambda>i. sector_word (sector_buffer s) (sector_read_pos s + 4 * i)) [0 ..< n]"
  using assms
proof (induction n arbitrary: s)
  case (Suc n)
  let ?s1 = "s\<lparr> sector_read_pos := sector_read_pos s + 4 \<rparr>"
  have rd: "cdrom_dma_read s = (sector_word (sector_buffer s) (sector_read_pos s),
      if sector_read_pos s + 4 \<ge> sector_size s then ?s1\<lparr> sector_available := False \<rparr> else ?s1)"
    using Suc.prems by (simp add: cdrom_dma_read_def data_open_def Let_def)
  have rest: "fst (dma_words n (snd (cdrom_dma_read s))) = map (\<lambda>i. sector_word (sector_buffer s) (sector_read_pos s + 4 * (i + 1))) [0 ..< n]"
  proof (cases "n = 0")
    case False
    then have "snd (cdrom_dma_read s) = ?s1" using Suc.prems rd by simp
    then show ?thesis using Suc.IH [of ?s1] Suc.prems by (simp add: data_open_def algebra_simps)
  qed simp
  have "map (\<lambda>i. sector_word (sector_buffer s) (sector_read_pos s + 4 * i)) [0 ..< Suc n] =
      sector_word (sector_buffer s) (sector_read_pos s) # map (\<lambda>i. sector_word (sector_buffer s) (sector_read_pos s + 4 * (i + 1))) [0 ..< n]"
    by (simp add: upt_conv_Cons map_Suc_upt [symmetric] del: upt_Suc)
  then show ?case using rest rd by (simp add: Let_def split_beta)
qed simp

section \<open>Reading a sector\<close>

text \<open>Commands without their presentation, which only comes later.\<close>

lemma exec_command_eq:
  "exec_command cmd m = on_cd (param_count_update (\<lambda>_. 0))
     (exec_switch cmd (on_cd response_clear (fst m, event_ring_record_aux EV_ENQ SRC_CD_CMD (ucast cmd) (snd m))))"
proof -
  let ?m = "on_cd response_clear (fst m, event_ring_record_aux EV_ENQ SRC_CD_CMD (ucast cmd) (snd m))"
  have "fresh_response (snd m) (on_cd (param_count_update (\<lambda>_. 0)) (exec_switch cmd ?m))"
    using exec_switch_fresh [of "snd m" ?m cmd] by (simp add: fresh_response_def wired_record)
  then show ?thesis by (simp add: exec_command_def fire_fresh)
qed

text \<open>What a sector read depends on.\<close>

definition source_view where
  "source_view s = (iso_handle s, mode_reg s, pending s, queued s, irq_enable s, index_reg s)"

lemma setloc_effect:
  assumes "param_count s \<ge> 3"
  shows "seek_min (fst (exec_command 2 (s, y))) = word_of_int (bcd_to_bin (param_fifo s 0))"
    "seek_sec (fst (exec_command 2 (s, y))) = word_of_int (bcd_to_bin (param_fifo s 1))"
    "seek_sect (fst (exec_command 2 (s, y))) = word_of_int (bcd_to_bin (param_fifo s 2))"
    "source_view (fst (exec_command 2 (s, y))) = source_view s" "irq_flag (fst (exec_command 2 (s, y))) = 3"
    "pending_dataready (fst (exec_command 2 (s, y))) = pending_dataready s"
  using assms
  by (simp_all add: exec_command_eq exec_switch_def ack_stat_def respond_def set_irq_def response_pushes_def response_push_def
      response_clear_def cmd_setloc_def Let_def source_view_def)

lemma ack_effect:
  assumes "irq_flag s = 3"
  shows "irq_flag (ack_irq 7 s) = 0" "source_view (ack_irq 7 s) = source_view s" "seek_min (ack_irq 7 s) = seek_min s"
    "seek_sec (ack_irq 7 s) = seek_sec s" "seek_sect (ack_irq 7 s) = seek_sect s" "reading (ack_irq 7 s) = reading s"
    "read_min (ack_irq 7 s) = read_min s" "read_sec (ack_irq 7 s) = read_sec s" "read_sect (ack_irq 7 s) = read_sect s"
    "read_delay (ack_irq 7 s) = read_delay s"
  using assms by (simp_all add: ack_irq_def Let_def source_view_def)

lemma read_command_effect:
  assumes "iso_handle s \<noteq> None"
  shows "reading (fst (exec_command 6 (s, y)))" "read_min (fst (exec_command 6 (s, y))) = int (unat (seek_min s))"
    "read_sec (fst (exec_command 6 (s, y))) = int (unat (seek_sec s))" "read_sect (fst (exec_command 6 (s, y))) = int (unat (seek_sect s))"
    "source_view (fst (exec_command 6 (s, y))) = source_view s" "irq_flag (fst (exec_command 6 (s, y))) = 3"
    "\<exists>t. read_delay (fst (exec_command 6 (s, y))) = initial_read_delay_cycles t"
    "\<not> pending_dataready (fst (exec_command 6 (s, y)))"
  using assms
  by (auto simp: exec_command_eq exec_switch_def cmd_read_def has_disc_def start_read_stream_def ack_stat_def respond_def set_irq_def
      response_pushes_def response_push_def response_clear_def clear_sector_buffer_def cdrom_clear_pending_dataready_def
      log_audio_reset_def xa_reset_decode_def Let_def source_view_def)

lemma initial_delay_bound: "initial_read_delay_cycles s \<le> 903168"
proof -
  have pos: "a div b \<le> a" if "0 < a" "0 < b" for a b :: int
    using that int_div_less_self [of a b] by (cases "b = 1") auto
  have le: "d sdiv k \<le> d" if "0 \<le> d" for d k :: int
    using that pos [of d k] pos_imp_zdiv_nonneg_iff [of "- k" d] by (auto simp: signed_divide_int_def sgn_if)
  have "apply_speed d s \<le> 903168" if "d = 451584 \<or> d = 903168" for d
    using that le [of 564480 "g_instant_max_per_frame s"] le [of d "g_disc_speed_divisor s"]
    by (auto simp: apply_speed_def instant_period_def Let_def)
  then show ?thesis by (simp add: initial_read_delay_cycles_def)
qed

text \<open>The stream, when its sector is due and no response is up.\<close>

lemma due_sector_delivered:
  assumes "irq_flag s = 0" "reading s" "read_delay s \<le> sint c" "0 < sint c" "\<not> pc_pending (pending s)" "\<not> qc_pending (queued s)"
  shows "\<exists>t. fst (cdrom_advance dma c (s, y)) =
     (let u = fst (snd (deliver_read_sector (t, y))) in u\<lparr> read_delay := read_delay (fst (cdrom_advance dma c (s, y))) \<rparr>) \<and>
     source_view t = source_view s \<and> read_min t = read_min s \<and> read_sec t = read_sec s \<and> read_sect t = read_sect s"
proof -
  let ?t = "(age_present_delay c s)\<lparr> read_delay := read_delay s - sint c \<rparr>"
  let ?u = "fst (snd (deliver_read_sector (?t, y)))"
  have c: "c > 0" using assms(4) by (auto simp: word_greater_zero_iff)
  have age: "irq_flag (age_present_delay c s) = 0" "queued (age_present_delay c s) = queued s" "pending (age_present_delay c s) = pending s"
    "reading (age_present_delay c s) = reading s" "read_delay (age_present_delay c s) = read_delay s"
    using assms(1) by (simp_all add: age_present_delay_def Let_def)
  have 1: "present_cdrom_irq (age_present_delay c s, y) = (age_present_delay c s, y)"
    using assms(1) by (intro present_blocked) (simp add: cd_irq_armed_def)
  have 2: "process_pending c (try_execute_queued_command (age_present_delay c s, y)) = (age_present_delay c s, y)"
    using assms(5,6) age by (simp add: try_execute_queued_command_def process_pending_def)
  define fin where "fin = (\<lambda>s. let d = read_delay s + sector_delay_cycles s in s\<lparr> read_delay := if d \<le> 0 then sector_delay_cycles s else d \<rparr>)"
  have 3: "process_read_stream dma c (age_present_delay c s, y) = on_cd fin (snd (deliver_read_sector (?t, y)))"
    using assms(1,2,3) age c by (simp add: process_read_stream_def stream_sector_def Let_def fin_def)
  have 4: "present_cdrom_irq (on_cd fin (snd (deliver_read_sector (?t, y)))) = on_cd fin (snd (deliver_read_sector (?t, y)))"
    using present_after_calm [OF calm_trans [OF calm_deliver [of "(?t, y)"] calm_on_cd [of fin]]] age
    by (simp add: fin_def Let_def cd_irq_armed_def)
  have adv: "cdrom_advance dma c (s, y) = on_cd fin (snd (deliver_read_sector (?t, y)))"
    unfolding cdrom_advance_def refresh_cdrom_irq_line_def Let_def on_cd_simps(3) 1 2 3 4 ..
  have "fin ?u = ?u\<lparr> read_delay := read_delay (fin ?u) \<rparr>" by (simp add: fin_def Let_def)
  moreover have "source_view ?t = source_view s" "read_min ?t = read_min s" "read_sec ?t = read_sec s" "read_sect ?t = read_sect s"
    by (simp_all add: source_view_def age_present_delay_def Let_def)
  ultimately show ?thesis by (intro exI [of _ ?t]) (simp add: adv Let_def)
qed

text \<open>A data sector that is delivered: the response, the buffer and the position.\<close>

lemma delivered_sector:
  fixes y :: "'z sys_scheme"
  assumes "iso_handle s = Some d" "iso_read_raw_sector d (word_of_int (msf_to_lba (read_min s) (read_sec s) (read_sect s))) = Some raw"
    "\<not> xa_is_audio_realtime (classify_raw_sector (Some raw))" "mode_reg s AND 0x20 = 0"
  defines "u \<equiv> fst (snd (deliver_read_sector (s, y)))"
  shows "irq_flag u = 1" "last_sector_lba u = msf_to_lba (read_min s) (read_sec s) (read_sect s)" "sector_available u"
    "sector_read_pos u = 0" "sector_size u = 2048" "\<And>i. i < 2048 \<Longrightarrow> sector_buffer u i = raw (24 + i)"
    "(read_min u, read_sec u, read_sect u) = advance_msf (read_min s, read_sec s, read_sect s)"
proof -
  let ?lba = "msf_to_lba (read_min s) (read_sec s) (read_sect s)"
  obtain dl s1 where 1: "read_sector_at (read_min s) (read_sec s) (read_sect s) (s_frame_count y) s = (dl, s1)" by fastforce
  have raw: "sector_raw ?lba s = Some raw" using assms(1,2) by (simp add: sector_raw_def)
  have no_audio: "maybe_deliver_xa_audio raw (classify_raw_sector (Some raw)) s = (False, s)"
    using assms(3) by (simp add: maybe_deliver_xa_audio_def)
  have payload: "sector_payload (read_min s) (read_sec s) (read_sect s) s = (blit (\<lambda>_. 0) 0 (\<lambda>i. raw (24 + i)) 2048, 2048)"
    using assms(1,2,4) by (simp add: sector_payload_def sector_user_data_def Let_def)
  have rs: "dl" "sector_buffer s1 = blit (\<lambda>_. 0) 0 (\<lambda>i. raw (24 + i)) 2048" "sector_size s1 = 2048" "sector_read_pos s1 = 0"
    "sector_available s1" "last_sector_lba s1 = ?lba"
    using 1 assms(3) by (auto simp: read_sector_at_def raw no_audio payload Let_def)
  have pos: "read_min s1 = read_min s" "read_sec s1 = read_sec s" "read_sect s1 = read_sect s"
    using read_sector_fields [of "read_min s" "read_sec s" "read_sect s" "s_frame_count y" s] by (simp_all add: 1)
  obtain a b c where adv: "advance_msf (read_min s, read_sec s, read_sect s) = (a, b, c)"
    by (cases "advance_msf (read_min s, read_sec s, read_sect s)")
  have del: "deliver_read_sector_without_irq (s, y) = (True, s1\<lparr> read_min := a, read_sec := b, read_sect := c \<rparr>, y)"
    using rs(1) by (simp add: deliver_read_sector_without_irq_def 1 pos adv Let_def)
  have u: "u = fst (respond [stat_reg s1] 1 (on_cd response_clear (s1\<lparr> read_min := a, read_sec := b, read_sect := c \<rparr>, y)))"
    by (simp add: u_def deliver_read_sector_def del Let_def)
  show "irq_flag u = 1" "last_sector_lba u = ?lba" "sector_available u" "sector_read_pos u = 0" "sector_size u = 2048"
    "\<And>i. i < 2048 \<Longrightarrow> sector_buffer u i = raw (24 + i)"
    "(read_min u, read_sec u, read_sect u) = advance_msf (read_min s, read_sec s, read_sect s)"
    unfolding u respond_def using rs
    by (simp_all add: set_irq_def response_pushes_def response_push_def response_clear_def blit_def adv)
qed

text \<open>The driver's acknowledge: bank 1, clear the code, back to bank 0.\<close>

definition driver_ack :: "'z cdm \<Rightarrow> 'z cdm" where
  "driver_ack = write_all [(0x1F801800, 1), (0x1F801803, 7), (0x1F801800, 0)]"

lemma driver_ack_effect:
  assumes "irq_flag s = 3" "\<not> qc_pending (queued s)" "\<not> pending_dataready s"
  shows "\<exists>t. driver_ack (s, y) = (t, y) \<and> irq_flag t = 0 \<and> index_reg t = 0 \<and> iso_handle t = iso_handle s \<and> mode_reg t = mode_reg s \<and>
     pending t = pending s \<and> queued t = queued s \<and> seek_min t = seek_min s \<and> seek_sec t = seek_sec s \<and> seek_sect t = seek_sect s \<and>
     reading t = reading s \<and> read_min t = read_min s \<and> read_sec t = read_sec s \<and> read_sect t = read_sect s \<and> read_delay t = read_delay s \<and>
     \<not> pending_dataready t"
proof -
  have "driver_ack (s, y) = ((ack_irq 7 (s\<lparr> index_reg := 1 \<rparr>))\<lparr> index_reg := 0 \<rparr>, y)"
    using assms by (simp add: driver_ack_def select_index)
      (simp add: cdrom_write_def Let_def ack_irq_def present_pending_dataready_def try_execute_queued_command_def)
  then show ?thesis using assms by (simp add: ack_irq_def Let_def)
qed

lemma bcd_byte: "0 \<le> v \<Longrightarrow> v \<le> 99 \<Longrightarrow> int (unat (word_of_int (bcd_to_bin (bin_to_bcd v)) :: u8)) = v"
  by (simp add: bcd_round_trip uint_word_of_int_eq take_bit_int_eq_self flip: uint_nat)

lemma same_words:
  assumes "\<And>i. i < 2048 \<Longrightarrow> b i = raw (24 + i)"
  shows "map (\<lambda>i. sector_word b (4 * i)) [0 ..< 512] = map (\<lambda>i. sector_word raw (24 + 4 * i)) [0 ..< 512]"
proof (rule map_cong [OF refl])
  fix i assume "i \<in> set [0 ..< 512]"
  then have "4 * i < 2048" "4 * i + 1 < 2048" "4 * i + 2 < 2048" "4 * i + 3 < 2048" by auto
  note this [THEN assms]
  then show "sector_word b (4 * i) = sector_word raw (24 + 4 * i)" by (simp add: sector_word_def add.assoc)
qed

text \<open>SetLoc and ReadN, each acknowledged: the stream runs towards the address that was written.\<close>

lemma setloc_then_read:
  fixes y :: "'z sys_scheme"
  assumes ok: "cd_ok s" "irq_flag s = 0" "index_reg s = 0"
    and params: "param_count s = 3" "param_fifo s 0 = bin_to_bcd mn" "param_fifo s 1 = bin_to_bcd sec" "param_fifo s 2 = bin_to_bcd f"
    and msf: "0 \<le> mn" "mn \<le> 99" "0 \<le> sec" "sec < 60" "0 \<le> f" "f < 75" and disc: "iso_handle s = Some d"
  shows "\<exists>g y2. driver_ack (cdrom_write 0x1F801801 6 (driver_ack (cdrom_write 0x1F801801 2 (s, y)))) = (g, y2) \<and> irq_flag g = 0 \<and>
     iso_handle g = Some d \<and> mode_reg g = mode_reg s \<and> pending g = pending s \<and> \<not> qc_pending (queued g) \<and> reading g \<and>
     read_min g = mn \<and> read_sec g = sec \<and> read_sect g = f \<and> read_delay g \<le> 903168"
proof -
  have idle: "\<not> qc_pending (queued s)" "\<not> pending_dataready s" using ok(1,2) by (simp_all add: cd_ok_def link_ok_def)
  let ?a = "fst (exec_command 2 (s, y))"
  have w1: "cdrom_write 0x1F801801 2 (s, y) = (?a, snd (exec_command 2 (s, y)))"
    using ok(2,3) by (simp add: cdrom_write_def queue_or_exec_command_def Let_def)
  have sl: "seek_min ?a = word_of_int (bcd_to_bin (bin_to_bcd mn))" "seek_sec ?a = word_of_int (bcd_to_bin (bin_to_bcd sec))"
    "seek_sect ?a = word_of_int (bcd_to_bin (bin_to_bcd f))" "source_view ?a = source_view s" "irq_flag ?a = 3" "\<not> pending_dataready ?a"
    using setloc_effect [of s y] params idle by simp_all
  obtain b y1 where b: "driver_ack (?a, snd (exec_command 2 (s, y))) = (b, y1)" "irq_flag b = 0" "index_reg b = 0" "iso_handle b = Some d"
    "mode_reg b = mode_reg s" "pending b = pending s" "queued b = queued s" "seek_min b = seek_min ?a" "seek_sec b = seek_sec ?a"
    "seek_sect b = seek_sect ?a"
    using driver_ack_effect [OF sl(5), of "snd (exec_command 2 (s, y))"] sl(4,6) idle disc by (auto simp: source_view_def)
  let ?e = "fst (exec_command 6 (b, y1))"
  have w2: "cdrom_write 0x1F801801 6 (b, y1) = (?e, snd (exec_command 6 (b, y1)))"
    using b(2,3) by (simp add: cdrom_write_def queue_or_exec_command_def Let_def)
  have rd: "reading ?e" "read_min ?e = mn" "read_sec ?e = sec" "read_sect ?e = f" "source_view ?e = source_view b" "irq_flag ?e = 3"
    "\<not> pending_dataready ?e" "read_delay ?e \<le> 903168"
    using read_command_effect [of b y1] b sl msf bcd_byte [of mn] bcd_byte [of sec] bcd_byte [of f] initial_delay_bound by auto
  show ?thesis
    using driver_ack_effect [OF rd(6), of "snd (exec_command 6 (b, y1))"] rd b idle unfolding w1 b(1) w2 by (auto simp: source_view_def)
qed

text \<open>The driver's side of a read: SetLoc, ReadN, each acknowledged, and the wait for the sector.\<close>

definition read_one_sector :: "bool \<Rightarrow> u32 \<Rightarrow> 'z cdm \<Rightarrow> 'z cdm" where
  "read_one_sector dma c m =
     cdrom_advance dma c (driver_ack (cdrom_write 0x1F801801 6 (driver_ack (cdrom_write 0x1F801801 2 m))))"

lemma sector_arrives:
  fixes y :: "'z sys_scheme" and dma :: bool
  assumes ok: "cd_ok s" "irq_flag s = 0" "index_reg s = 0" "\<not> pc_pending (pending s)" "mode_reg s AND 0x20 = 0"
    and params: "param_count s = 3" "param_fifo s 0 = bin_to_bcd mn" "param_fifo s 1 = bin_to_bcd sec" "param_fifo s 2 = bin_to_bcd f"
    and msf: "0 \<le> mn" "mn \<le> 99" "0 \<le> sec" "sec < 60" "0 \<le> f" "f < 75"
    and disc: "iso_handle s = Some d" "iso_read_raw_sector d (word_of_int (msf_to_lba mn sec f)) = Some raw"
      "\<not> xa_is_audio_realtime (classify_raw_sector (Some raw))"
    and c: "903168 \<le> sint c"
  defines "t \<equiv> fst (read_one_sector dma c (s, y))"
  shows "irq_flag t = 1" "last_sector_lba t = msf_to_lba mn sec f" "sector_available t" "sector_read_pos t = 0" "sector_size t = 2048"
    "\<And>i. i < 2048 \<Longrightarrow> sector_buffer t i = raw (24 + i)" "(read_min t, read_sec t, read_sect t) = advance_msf (mn, sec, f)"
proof -
  obtain g y2 where m2: "driver_ack (cdrom_write 0x1F801801 6 (driver_ack (cdrom_write 0x1F801801 2 (s, y)))) = (g, y2)"
    and g: "irq_flag g = 0" "iso_handle g = Some d" "mode_reg g = mode_reg s" "pending g = pending s" "\<not> qc_pending (queued g)"
      "reading g" "read_min g = mn" "read_sec g = sec" "read_sect g = f" "read_delay g \<le> 903168"
    using setloc_then_read [OF ok(1-3) params msf disc(1), of y] by blast
  obtain t' where t': "fst (cdrom_advance dma c (g, y2)) =
      (let u = fst (snd (deliver_read_sector (t', y2))) in u\<lparr> read_delay := read_delay (fst (cdrom_advance dma c (g, y2))) \<rparr>)"
    "source_view t' = source_view g" "read_min t' = mn" "read_sec t' = sec" "read_sect t' = f"
    using due_sector_delivered [of g c dma y2] g ok(4) c by auto
  let ?u = "fst (snd (deliver_read_sector (t', y2)))"
  have t_eq: "t = fst (cdrom_advance dma c (g, y2))" by (simp add: t_def read_one_sector_def m2)
  have t: "t = ?u\<lparr> read_delay := read_delay t \<rparr>" using t'(1) by (simp add: t_eq Let_def)
  have src: "iso_handle t' = Some d" "mode_reg t' AND 0x20 = 0" using t'(2) g ok(5) by (simp_all add: source_view_def)
  note del = delivered_sector [where s = t' and d = d and raw = raw and y = y2, unfolded t'(3-5), OF src(1) disc(2,3) src(2)]
  have fields: "irq_flag t = irq_flag ?u" "last_sector_lba t = last_sector_lba ?u" "sector_available t = sector_available ?u"
    "sector_read_pos t = sector_read_pos ?u" "sector_size t = sector_size ?u" "sector_buffer t = sector_buffer ?u"
    "read_min t = read_min ?u" "read_sec t = read_sec ?u" "read_sect t = read_sect ?u"
    by (subst t, simp)+
  show "irq_flag t = 1" "last_sector_lba t = msf_to_lba mn sec f" "sector_available t" "sector_read_pos t = 0" "sector_size t = 2048"
    "\<And>i. i < 2048 \<Longrightarrow> sector_buffer t i = raw (24 + i)" "(read_min t, read_sec t, read_sect t) = advance_msf (mn, sec, f)"
    using del fields by simp_all
qed

text \<open>C13. A sector is read from end to end. From a well-formed idle state with a disc, the driver writes SetLoc
  with an address in BCD, acknowledges, writes ReadN, acknowledges and lets the initial delay pass. Then the
  data-ready interrupt is up, GetlocL reports the address that was asked for, the head stands at the next
  sector, and once the program requests the data the 512 words that DMA takes out of the controller are the
  user data of that sector of the disc, in order. The drive is in 2048-byte mode and the sector is readable and
  not real-time audio.\<close>

theorem sector_read_end_to_end:
  fixes y :: "'z sys_scheme"
  assumes ok: "cd_ok s" "irq_flag s = 0" "index_reg s = 0" "\<not> pc_pending (pending s)" "mode_reg s AND 0x20 = 0"
    and params: "param_count s = 3" "param_fifo s 0 = bin_to_bcd mn" "param_fifo s 1 = bin_to_bcd sec" "param_fifo s 2 = bin_to_bcd f"
    and msf: "0 \<le> mn" "mn \<le> 99" "0 \<le> sec" "sec < 60" "0 \<le> f" "f < 75" "0 \<le> msf_to_lba mn sec f"
    and disc: "iso_handle s = Some d" "iso_read_raw_sector d (word_of_int (msf_to_lba mn sec f)) = Some raw"
      "\<not> xa_is_audio_realtime (classify_raw_sector (Some raw))"
    and c: "903168 \<le> sint c"
  shows "let t = fst (read_one_sector dma c (s, y))
     in irq_flag t = 1 \<and> take 3 (getloc_l_bytes t) = [bin_to_bcd mn, bin_to_bcd sec, bin_to_bcd f] \<and>
        msf_to_lba (read_min t) (read_sec t) (read_sect t) = msf_to_lba mn sec f + 1 \<and>
        fst (dma_words 512 (cd_write_request 0x80 t)) = map (\<lambda>i. sector_word raw (24 + 4 * i)) [0 ..< 512]"
proof -
  let ?t = "fst (read_one_sector dma c (s, y))"
  note del = sector_arrives [OF ok params msf(1-6) disc c, where dma = dma and y = y]
  have "fst (dma_words 512 (cd_write_request 0x80 ?t)) = map (\<lambda>i. sector_word (sector_buffer ?t) (4 * i)) [0 ..< 512]"
    using dma_words_take [of "cd_write_request 0x80 ?t" 512] del by (simp add: cd_write_request_def data_open_def Let_def)
  moreover have "take 3 (getloc_l_bytes ?t) = [bin_to_bcd mn, bin_to_bcd sec, bin_to_bcd f]"
    using del(2) msf msf_round_trip [of mn sec f] by (simp add: getloc_l_bytes_def Let_def)
  moreover have "msf_to_lba (read_min ?t) (read_sec ?t) (read_sect ?t) = msf_to_lba mn sec f + 1"
    using advance_msf_next(1) [OF msf(4,6)] del(7) by metis
  ultimately show ?thesis
    using del(1,6) same_words [of "sector_buffer ?t" raw] unfolding Let_def by simp
qed

text \<open>The first sector of a disc, at 00:02:00.\<close>

definition demo_disc :: disc where
  "demo_disc = \<lparr> iso_read_raw_sector = (\<lambda>lba. Some (\<lambda>i. of_nat i)), iso_read_sector = (\<lambda>_. None), iso_sector_count = 100,
     iso_track_count = 1, iso_track_start_lba = (\<lambda>_. 0) \<rparr>"

definition demo_drive :: cd where
  "demo_drive = (cdrom_init (\<lambda>_. Some demo_disc) (Some ''game'') cd_static)\<lparr> param_count := 3, param_fifo := (\<lambda>_. 0)(1 := 2) \<rparr>"

lemma demo_drive_ready:
  "cd_ok demo_drive" "irq_flag demo_drive = 0" "index_reg demo_drive = 0" "\<not> pc_pending (pending demo_drive)"
  "mode_reg demo_drive AND 0x20 = 0" "param_count demo_drive = 3" "param_fifo demo_drive = (\<lambda>_. 0)(1 := 2)"
  "iso_handle demo_drive = Some demo_disc"
proof -
  have init: "cd_ok (cdrom_init (\<lambda>_. Some demo_disc) (Some ''game'') cd_static)" by (rule cd_init_ok) (simp_all add: cd_static_def)
  then show "cd_ok demo_drive" by (simp add: demo_drive_def cd_ok_def buffers_ok_def drive_ok_def link_ok_def)
  show "irq_flag demo_drive = 0" "index_reg demo_drive = 0" "\<not> pc_pending (pending demo_drive)" "mode_reg demo_drive AND 0x20 = 0"
    "param_count demo_drive = 3" "param_fifo demo_drive = (\<lambda>_. 0)(1 := 2)" "iso_handle demo_drive = Some demo_disc"
    by (simp_all add: demo_drive_def cdrom_init_def stop_read_stream_def cdrom_clear_pending_dataready_def log_audio_reset_def
        xa_reset_decode_def Let_def)
qed

lemma demo_address: "bin_to_bcd 0 = 0" "bin_to_bcd 2 = 2" "msf_to_lba 0 2 0 = 0"
  by (simp_all add: bin_to_bcd_def msf_to_lba_def signed_divide_int_def signed_modulo_int_def)

lemma demo_sector:
  "iso_read_raw_sector demo_disc 0 = Some of_nat" "\<not> xa_is_audio_realtime (classify_raw_sector (Some of_nat))"
  by (simp_all add: demo_disc_def classify_raw_sector_def xa_is_audio_realtime_def no_delivery_def Let_def)

lemma sector_read_end_to_end_witness:
  "fst (dma_words 512 (cd_write_request 0x80 (fst (read_one_sector False 1000000 (demo_drive, sys_boot ()))))) =
     map (\<lambda>i. sector_word of_nat (24 + 4 * i)) [0 ..< 512]"
  using sector_read_end_to_end [of demo_drive 0 2 0 demo_disc of_nat 1000000 False "sys_boot ()"]
  by (simp add: Let_def demo_drive_ready demo_address demo_sector)

end
