(* ===== verification/Cdrom_Stream.thy ===== *)
theory Cdrom_Stream
  imports Cdrom_Data
begin

text \<open>
  The sector stream in time: the disc turns whether or not the program keeps up, sectors come in order and
  exactly when their countdown ends, and a sector that finds a response up is announced after it.
\<close>

section \<open>What the other steps leave of the stream\<close>

definition stream_view where
  "stream_view s = (reading s, read_min s, read_sec s, read_sect s, read_delay s, last_sector_lba s)"

lemma stream_viewD:
  assumes "stream_view s = stream_view t"
  shows "reading s = reading t" "read_min s = read_min t" "read_sec s = read_sec t" "read_sect s = read_sect t"
    "read_delay s = read_delay t" "last_sector_lba s = last_sector_lba t"
  using assms by (simp_all add: stream_view_def)

lemma pushes_stream [simp]: "stream_view (response_pushes vs s) = stream_view s"
  by (induction vs arbitrary: s) (simp_all add: response_pushes_def response_push_def stream_view_def)

lemma set_irq_stream [simp]: "stream_view (fst (set_irq t m)) = stream_view (fst m)"
  by (simp add: set_irq_def stream_view_def split_beta)

lemma respond_stream [simp]: "stream_view (fst (respond vs t m)) = stream_view (fst m)"
  by (simp add: respond_def)

lemma present_stream [simp]: "stream_view (fst (present_cdrom_irq m)) = stream_view (fst m)"
  by (cases m) (simp add: present_cdrom_irq_def stream_view_def)

lemma complete_stream: "(\<And>s. stream_view (f s) = stream_view s) \<Longrightarrow> stream_view (fst (complete_with f m)) = stream_view (fst m)"
  by (simp add: complete_with_def Let_def)

lemma pending_switch_stream: "c \<in> two_phase \<Longrightarrow> stream_view (fst (pending_switch c m)) = stream_view (fst m)"
  unfolding two_phase_def
  by (auto simp: pending_switch_def complete_get_id_def reject_def Let_def intro!: complete_stream)
    (simp_all add: stream_view_def cd_stat_on_def cd_stat_off_def)

lemma stream_view_update [simp]:
  "stream_view (s\<lparr> pending := x \<rparr>) = stream_view s" "stream_view (response_clear s) = stream_view s"
  "pending (response_clear s) = pending s"
  by (simp_all add: stream_view_def response_clear_def)

lemma process_pending_stream: "base_ok r (fst m) \<Longrightarrow> stream_view (fst (process_pending c m)) = stream_view (fst m)"
proof (cases "pc_pending (pending (fst m)) \<and> c \<noteq> 0 \<and> irq_flag (fst m) = 0")
  case True
  assume "base_ok r (fst m)"
  then have "pc_cmd (pending (fst m)) \<in> two_phase" using True by (simp add: base_defs)
  then show ?thesis
    using True by (simp add: process_pending_def Let_def pending_switch_stream)
qed (auto simp: process_pending_def)

lemma try_execute_idle: "link_ok (fst m) \<Longrightarrow> try_execute_queued_command m = m"
  by (auto simp: try_execute_queued_command_def link_ok_def)

lemma age_stream [simp]: "stream_view (age_present_delay c s) = stream_view s"
  by (simp add: age_present_delay_def stream_view_def Let_def)

lemma age_link: "link_ok s \<Longrightarrow> link_ok (age_present_delay c s)"
  by (simp add: age_present_delay_def link_ok_def Let_def)

section \<open>A due sector\<close>

definition head_lba :: "cd \<Rightarrow> int" where
  "head_lba s = msf_to_lba (read_min s) (read_sec s) (read_sect s)"

definition head_ok :: "cd \<Rightarrow> bool" where
  "head_ok s \<longleftrightarrow> 0 \<le> read_sec s \<and> read_sec s < 60 \<and> 0 \<le> read_sect s \<and> read_sect s < 75"

lemma sector_lba: "last_sector_lba (snd (read_sector_at a b c f s)) = msf_to_lba a b c"
  by (simp add: read_sector_at_def Let_def split_beta)

lemma deliver_moves:
  assumes "head_ok (fst m)"
  shows "last_sector_lba (fst (snd (deliver_read_sector_without_irq m))) = head_lba (fst m)"
    "head_lba (fst (snd (deliver_read_sector_without_irq m))) = head_lba (fst m) + 1"
    "head_ok (fst (snd (deliver_read_sector_without_irq m)))"
proof -
  obtain s y where m: "m = (s, y)" by (cases m)
  obtain a b c where adv: "advance_msf (read_min s, read_sec s, read_sect s) = (a, b, c)"
    by (cases "advance_msf (read_min s, read_sec s, read_sect s)")
  have ok: "read_sec s < 60" "read_sect s < 75" "0 \<le> read_sec s" "0 \<le> read_sect s" using assms by (simp_all add: m head_ok_def)
  note nxt = advance_msf_next [OF ok(1,2) adv]
  show "last_sector_lba (fst (snd (deliver_read_sector_without_irq m))) = head_lba (fst m)"
    "head_lba (fst (snd (deliver_read_sector_without_irq m))) = head_lba (fst m) + 1"
    "head_ok (fst (snd (deliver_read_sector_without_irq m)))"
    using nxt(1) nxt(2) [OF ok(3,4)]
    by (simp_all add: m deliver_read_sector_without_irq_def Let_def split_beta adv sector_lba head_lba_def head_ok_def)
qed

text \<open>The three ways a due sector is read differ in the announcement only.\<close>

lemma stream_sector_moves:
  assumes "head_ok (fst m)"
  shows "last_sector_lba (fst (stream_sector dma m)) = head_lba (fst m)" "head_lba (fst (stream_sector dma m)) = head_lba (fst m) + 1"
    "head_ok (fst (stream_sector dma m))" "reading (fst (stream_sector dma m)) = reading (fst m)"
    "read_delay (fst (stream_sector dma m)) = read_delay (fst m)"
proof -
  let ?r = "snd (deliver_read_sector_without_irq m)"
  have clear: "stream_view (response_clear s) = stream_view s" for s by (simp add: stream_view_def response_clear_def)
  have "stream_view (fst (snd (deliver_read_sector m))) = stream_view (fst ?r)"
    by (simp add: deliver_read_sector_def Let_def split_beta clear)
  then have "stream_view (fst (stream_sector dma m)) = stream_view (fst ?r)"
    by (simp add: stream_sector_def Let_def split_beta) (simp add: stream_view_def)
  note v = stream_viewD [OF this]
  show "last_sector_lba (fst (stream_sector dma m)) = head_lba (fst m)" "head_lba (fst (stream_sector dma m)) = head_lba (fst m) + 1"
    "head_ok (fst (stream_sector dma m))" "reading (fst (stream_sector dma m)) = reading (fst m)"
    "read_delay (fst (stream_sector dma m)) = read_delay (fst m)"
    using deliver_moves [OF assms] by (simp_all add: v head_lba_def head_ok_def)
qed

lemma sector_delay_frame:
  "sector_delay_cycles (s\<lparr> read_delay := d \<rparr>) = sector_delay_cycles s"
  "sector_delay_cycles (fst (present_cdrom_irq m)) = sector_delay_cycles (fst m)"
  by (cases m; simp add: present_cdrom_irq_def sector_delay_cycles_def apply_speed_def instant_period_def Let_def)+

text \<open>C14. Disc time does not wait for the program. While the drive reads in a well-formed state with the head
  at a valid address (seconds below 60, frames below 75: SetLoc does not check them), and whether a response is
  up, acknowledged or not, a positive advance shorter than the countdown only shortens it. An advance that
  reaches the countdown reads exactly the sector under the head and moves the head one sector on; the overshoot
  is charged to the next sector, whose countdown starts at the sector period of the speed then in force, or at
  the whole period when the overshoot is longer than that.\<close>

theorem disc_time_never_pauses:
  assumes "cd_ok s" "reading s" "head_ok s" "0 < sint c"
  shows "let t = fst (cdrom_advance dma c (s, y)); left = read_delay s - sint c; period = sector_delay_cycles t
     in reading t \<and> head_ok t \<and>
        (if 0 < left then head_lba t = head_lba s \<and> last_sector_lba t = last_sector_lba s \<and> read_delay t = left
         else last_sector_lba t = head_lba s \<and> head_lba t = head_lba s + 1 \<and>
              read_delay t = (if 0 < left + period then left + period else period) \<and> 0 < period)"
proof -
  let ?a = "on_cd (age_present_delay c) (s, y)"
  let ?m2 = "process_pending c (try_execute_queued_command (present_cdrom_irq ?a))"
  have base: "base_ok True (fst (present_cdrom_irq ?a))"
    by (rule present_ok) (use assms(1,4) in \<open>simp add: cd_ok_split age_ok\<close>)
  have link: "link_ok (fst (present_cdrom_irq ?a))"
    by (rule present_link) (use assms(1) in \<open>simp add: cd_ok_def age_link\<close>)
  have v: "stream_view (fst ?m2) = stream_view s"
    unfolding try_execute_idle [OF link] using process_pending_stream [OF base, of c] by simp
  define fin where "fin = (\<lambda>s. let d = read_delay s + sector_delay_cycles s in s\<lparr> read_delay := if d \<le> 0 then sector_delay_cycles s else d \<rparr>)"
  define m3 where "m3 = on_cd (\<lambda>s. s\<lparr> read_delay := read_delay s - sint c \<rparr>) ?m2"
  have c: "c > 0" using assms(4) by (auto simp: word_greater_zero_iff)
  define m4 where "m4 = (if read_delay s \<le> sint c then on_cd fin (stream_sector dma m3) else m3)"
  have "process_read_stream dma c ?m2 = m4"
    using assms(2) c stream_viewD [OF v] by (simp add: process_read_stream_def Let_def m3_def m4_def fin_def)
  then have t: "cdrom_advance dma c (s, y) = present_cdrom_irq m4"
    by (simp add: cdrom_advance_def refresh_cdrom_irq_line_def Let_def)
  have view: "stream_view (fst (cdrom_advance dma c (s, y))) = stream_view (fst m4)"
    "sector_delay_cycles (fst (cdrom_advance dma c (s, y))) = sector_delay_cycles (fst m4)"
    by (simp_all add: t sector_delay_frame)
  have m3: "reading (fst m3)" "head_lba (fst m3) = head_lba s" "head_ok (fst m3)" "last_sector_lba (fst m3) = last_sector_lba s"
    "read_delay (fst m3) = read_delay s - sint c"
    using assms(2,3) stream_viewD [OF v] by (simp_all add: m3_def head_lba_def head_ok_def)
  let ?z = "fst (stream_sector dma m3)"
  have fin: "reading (fin ?z) = reading ?z" "head_lba (fin ?z) = head_lba ?z" "head_ok (fin ?z) = head_ok ?z"
    "last_sector_lba (fin ?z) = last_sector_lba ?z" "sector_delay_cycles (fin ?z) = sector_delay_cycles ?z"
    "read_delay (fin ?z) = (if 0 < read_delay ?z + sector_delay_cycles ?z then read_delay ?z + sector_delay_cycles ?z else sector_delay_cycles ?z)"
    by (simp_all add: fin_def head_lba_def head_ok_def Let_def sector_delay_frame)
  show ?thesis
    using view m3 fin stream_sector_moves [OF m3(3), of dma] delays_pos(1) [of ?z]
    by (auto simp: Let_def m4_def stream_view_def head_lba_def head_ok_def not_less split: if_splits)
qed

lemma disc_time_never_pauses_witness:
  "let s = (cdrom_init no_disc None cd_static)\<lparr> irq_flag := 3, reading := True, read_delay := 1000 \<rparr>
   in last_sector_lba (fst (cdrom_advance False 1000 (s, sys_boot ()))) = - 150"
proof -
  let ?i = "cdrom_init no_disc None cd_static"
  let ?s = "?i\<lparr> irq_flag := 3, reading := True, read_delay := 1000 \<rparr>"
  have f: "read_min ?i = 0" "read_sec ?i = 0" "read_sect ?i = 0"
    by (simp_all add: cdrom_init_def Let_def stop_read_stream_def cdrom_clear_pending_dataready_def log_audio_reset_def xa_reset_decode_def
        cd_static_def)
  have "cd_ok ?i" by (rule cd_init_ok) (simp_all add: cd_static_def)
  then have "cd_ok ?s" by (simp add: cd_ok_def buffers_ok_def drive_ok_def link_ok_def)
  then show ?thesis
    using disc_time_never_pauses [of ?s 1000 False "sys_boot ()"] f by (simp add: Let_def head_ok_def head_lba_def msf_to_lba_def)
qed

end
