(* ===== verification/Cd_System.thy ===== *)
theory Cd_System
  imports Cdrom_Data Dma_Props
begin

text \<open>
  The CD-ROM controller behind the DMA controller: the drive is the first component of the device state of
  Dma, its operations take the place of the CD-ROM parameters of \<open>dma_env\<close>. The result is the whole way of a
  sector, from the commands of the driver over the sector buffer and channel 3 into main RAM.
\<close>

section \<open>The drive as a DMA device\<close>

definition drive_read :: "cd \<times> 'e \<Rightarrow> u32 \<times> (cd \<times> 'e)" where
  "drive_read p = (let (w, d) = Cdrom.cdrom_dma_read (fst p) in (w, d, snd p))"

definition with_drive :: "(cd \<times> 'e, 'z) env \<Rightarrow> (cd \<times> 'e, 'z) env" where
  "with_drive E = E\<lparr> cdrom_dma_read := drive_read, cdrom_dma_ready := (\<lambda>p. Cdrom.cdrom_dma_ready (fst p)),
     cdrom_dma_sector_word_count := (\<lambda>p. Cdrom.cdrom_dma_sector_word_count (fst p)),
     cdrom_get_setloc_lba := (\<lambda>p. Cdrom.cdrom_get_setloc_lba (fst p)) \<rparr>"

definition on_drive ::
  "(cd \<times> (cd \<times> 'e, 'z) dma \<Rightarrow> cd \<times> (cd \<times> 'e, 'z) dma) \<Rightarrow> (cd \<times> 'e, 'z) dma \<Rightarrow> (cd \<times> 'e, 'z) dma" where
  "on_drive f s = (let (p, t) = f (fst (devs s), s) in t\<lparr> devs := (p, snd (devs s)) \<rparr>)"

lemma with_drive_simps [simp]:
  "cdrom_dma_read (with_drive E) = drive_read" "cdrom_dma_ready (with_drive E) = (\<lambda>p. Cdrom.cdrom_dma_ready (fst p))"
  "cdrom_dma_sector_word_count (with_drive E) = (\<lambda>p. Cdrom.cdrom_dma_sector_word_count (fst p))"
  by (simp_all add: with_drive_def)

text \<open>What the drive does as a device leaves memory and the DMA registers alone: it only touches its interrupt
  line and the event ring.\<close>

lemma more_fields:
  fixes s t :: "('d, 'z) dma"
  assumes "sys.more t = sys.more s"
  shows "ram t = ram s" "channels t = channels s" "cdrom_async t = cdrom_async s" "dpcr t = dpcr s" "dicr t = dicr s"
    "mdec_async t = mdec_async s" "delayed_complete t = delayed_complete s" "sr_ref t = sr_ref s" "fntrace_game_started t = fntrace_game_started s"
  using assms by (cases s; cases t; simp)+

lemma on_drive_frame:
  fixes s :: "(cd \<times> 'e, 'z) dma"
  assumes "line_only 2 s (snd (f (fst (devs s), s)))"
  shows "ram (on_drive f s) = ram s" "channels (on_drive f s) = channels s" "cdrom_async (on_drive f s) = cdrom_async s"
    "dpcr (on_drive f s) = dpcr s" "dicr (on_drive f s) = dicr s" "mdec_async (on_drive f s) = mdec_async s"
    "delayed_complete (on_drive f s) = delayed_complete s" "stores_pass (on_drive f s) = stores_pass s"
    "devs (on_drive f s) = (fst (f (fst (devs s), s)), snd (devs s))"
  using assms more_fields [of "snd (f (fst (devs s), s))" s]
  by (simp_all add: on_drive_def line_only_def stores_pass_def store_isolated_def split_beta Let_def)

section \<open>Channel 3\<close>

text \<open>Marking a range as executable keeps what the transfer depends on.\<close>

lemma mark_frame [simp]:
  fixes s :: "('d, 'z) dma"
  shows "ram (dirty_ram_mark_executable_range a n s) = ram s" "channels (dirty_ram_mark_executable_range a n s) = channels s"
    "cdrom_async (dirty_ram_mark_executable_range a n s) = cdrom_async s" "devs (dirty_ram_mark_executable_range a n s) = devs s"
    "stores_pass (dirty_ram_mark_executable_range a n s) = stores_pass s"
proof -
  have keep: "f (dirty_ram_mark_executable_range a n s) = f s"
    if "\<And>i t. f (kbless_drop i t) = f t" and "\<And>b t. f (t\<lparr> dirty_ram_bitmap := b \<rparr>) = f t" and "\<And>g t. f (t\<lparr> g_dirty_ram_code_gen := g \<rparr>) = f t"
    for f :: "('d, 'z) dma \<Rightarrow> 'c"
    by (simp add: dirty_ram_mark_executable_range_def psx_kernel_bless_note_range_def Let_def fold_kbless_keeps(2) [OF that(1)] that(2,3))
  show "ram (dirty_ram_mark_executable_range a n s) = ram s" "channels (dirty_ram_mark_executable_range a n s) = channels s"
    "cdrom_async (dirty_ram_mark_executable_range a n s) = cdrom_async s" "devs (dirty_ram_mark_executable_range a n s) = devs s"
    "stores_pass (dirty_ram_mark_executable_range a n s) = stores_pass s"
    by (rule keep; simp add: stores_pass_def store_isolated_def kbless_drop_def)+
qed

lemma record_word_frame [simp]:
  "ram (record_cdrom_dma_word w s) = ram s" "channels (record_cdrom_dma_word w s) = channels s"
  "cdrom_async (record_cdrom_dma_word w s) = cdrom_async s" "devs (record_cdrom_dma_word w s) = devs s"
  "stores_pass (record_cdrom_dma_word w s) = stores_pass s"
  by (simp_all add: record_cdrom_dma_word_def stores_pass_def store_isolated_def)

lemma dec_frame [simp]:
  "ram (cd_dec_remaining s) = ram s" "channels (cd_dec_remaining s) = channels s" "devs (cd_dec_remaining s) = devs s"
  "stores_pass (cd_dec_remaining s) = stores_pass s"
  "as_remaining_words (cdrom_async (cd_dec_remaining s)) = as_remaining_words (cdrom_async s) - 1"
  "as_total_words (cdrom_async (cd_dec_remaining s)) = as_total_words (cdrom_async s)"
  "as_cycles_accum (cdrom_async (cd_dec_remaining s)) = as_cycles_accum (cdrom_async s)"
  "as_start_addr (cdrom_async (cd_dec_remaining s)) = as_start_addr (cdrom_async s)"
  by (simp_all add: cd_dec_remaining_def stores_pass_def store_isolated_def)

text \<open>What is left to move, without the words that are stored.\<close>

definition chan_view :: "('d, 'z) dma \<Rightarrow> (nat \<Rightarrow> dma_channel) \<times> u32 \<times> u32 \<times> u32" where
  "chan_view s = (channels s, as_total_words (cdrom_async s), as_cycles_accum (cdrom_async s), as_start_addr (cdrom_async s))"

lemma move_stops: "as_remaining_words (cdrom_async s) = 0 \<Longrightarrow> cdrom_move k E st a mv s = (a, mv, s)"
  by (cases k) simp_all

lemma open_read:
  assumes "data_open d" "sector_read_pos d + 4 * Suc n \<le> sector_size d"
  shows "Cdrom.cdrom_dma_ready d" "fst (Cdrom.cdrom_dma_read d) = sector_word (sector_buffer d) (sector_read_pos d)"
    "n > 0 \<Longrightarrow> data_open (snd (Cdrom.cdrom_dma_read d))"
    "sector_read_pos (snd (Cdrom.cdrom_dma_read d)) = sector_read_pos d + 4" "sector_size (snd (Cdrom.cdrom_dma_read d)) = sector_size d"
    "sector_buffer (snd (Cdrom.cdrom_dma_read d)) = sector_buffer d"
  using assms by (auto simp: data_open_def Cdrom.cdrom_dma_ready_def Cdrom.cdrom_dma_read_def Let_def)

lemma cdrom_move_fills:
  fixes s :: "(cd \<times> 'e, 'z) dma"
  assumes "stores_pass s" and "unat a mod 4 = 0" "unat a < 0x200000" "unat a + 4 * n \<le> 0x200000"
    and "as_remaining_words (cdrom_async s) = of_nat n" and "data_open (fst (devs s)) \<or> n = 0"
    and "sector_read_pos (fst (devs s)) + 4 * n \<le> sector_size (fst (devs s))" and "n \<le> k"
  shows "\<exists>t. cdrom_move k (with_drive E) 0 a mv s = (ram_addr (a + of_nat (4 * n)), mv + of_nat n, t) \<and>
     devs t = (snd (dma_words n (fst (devs s))), snd (devs s)) \<and> chan_view t = chan_view s \<and>
     as_remaining_words (cdrom_async t) = 0 \<and> stores_pass t \<and>
     (\<forall>i<n. word_at (ram t) (unat a + 4 * i) = sector_word (sector_buffer (fst (devs s))) (sector_read_pos (fst (devs s)) + 4 * i)) \<and>
     (\<forall>j. j < unat a \<or> unat a + 4 * n \<le> j \<longrightarrow> ram t j = ram s j)"
  using assms
proof (induction n arbitrary: a mv s k)
  case 0
  then show ?case by (simp add: move_stops ram_addr_id)
next
  case (Suc n)
  obtain k' where k: "k = Suc k'" "n \<le> k'" using Suc.prems(8) by (cases k) auto
  let ?d = "fst (devs s)"
  have op: "data_open ?d" using Suc.prems(6) by simp
  note rd = open_read [OF op Suc.prems(7)]
  have id: "ram_addr a = a" using Suc.prems by (intro ram_addr_id)
  let ?w = "sector_word (sector_buffer ?d) (sector_read_pos ?d)"
  let ?s1 = "s\<lparr> devs := (snd (Cdrom.cdrom_dma_read ?d), snd (devs s)), g_dma_cur_madr := a \<rparr>"
  let ?st = "dma_store (with_drive E) a ?w ?s1"
  define z where "z = cd_dec_remaining (dirty_ram_mark_executable_range a 4 (record_cdrom_dma_word ?w ?st))"
  have rem: "as_remaining_words (cdrom_async s) \<noteq> 0"
  proof
    assume "as_remaining_words (cdrom_async s) = 0"
    then have "unat (of_nat (Suc n) :: u32) = 0" using Suc.prems(5) by simp
    then show False using Suc.prems(4) by (simp add: unat_of_nat take_bit_nat_eq_self del: of_nat_Suc)
  qed
  have move: "cdrom_move k (with_drive E) 0 a mv s = cdrom_move k' (with_drive E) 0 (ram_addr (a + 4)) (mv + 1) z"
    using rem rd(1,2) by (simp add: z_def k drive_read_def next_addr_def split_beta Let_def)
  have sp1: "stores_pass ?s1" using Suc.prems(1) by (simp add: stores_pass_def store_isolated_def)
  have st: "devs ?st = devs ?s1" "channels ?st = channels s" "cdrom_async ?st = cdrom_async s" "stores_pass ?st"
    "ram ?st = put_word (ram s) (unat a) ?w"
    using dma_store_frame [of "with_drive E" a ?w ?s1] dma_store_ram [OF sp1, of "with_drive E" a ?w] sp1 by (simp_all add: id)
  have s3: "devs z = (snd (Cdrom.cdrom_dma_read ?d), snd (devs s))" "chan_view z = chan_view s" "stores_pass z"
    "ram z = put_word (ram s) (unat a) ?w" "as_remaining_words (cdrom_async z) = of_nat n"
    using st Suc.prems(5) by (simp_all add: z_def chan_view_def)
  have dw: "snd (dma_words (Suc n) ?d) = snd (dma_words n (snd (Cdrom.cdrom_dma_read ?d)))" by (simp add: split_beta Let_def)
  show ?case
  proof (cases "n = 0")
    case True
    then show ?thesis using move s3 dw by (simp add: move_stops put_word_other)
  next
    case False
    have a4: "unat (a + 4) = unat a + 4" using Suc.prems(4) by (simp add: unat_word_ariths(1))
    have id4: "ram_addr (a + 4) = a + 4" using Suc.prems(2,4) False a4 by (intro ram_addr_id) simp_all
    have hyp: "stores_pass z" "unat (a + 4) mod 4 = 0" "unat (a + 4) < 0x200000" "unat (a + 4) + 4 * n \<le> 0x200000"
      "as_remaining_words (cdrom_async z) = of_nat n" "data_open (fst (devs z)) \<or> n = 0"
      "sector_read_pos (fst (devs z)) + 4 * n \<le> sector_size (fst (devs z))"
      using s3 a4 Suc.prems(2,4,7) False rd by simp_all
    obtain t where t: "cdrom_move k' (with_drive E) 0 (a + 4) (mv + 1) z = (ram_addr (a + 4 + of_nat (4 * n)), mv + 1 + of_nat n, t)"
      "devs t = (snd (dma_words n (fst (devs z))), snd (devs z))" "chan_view t = chan_view z"
      "as_remaining_words (cdrom_async t) = 0" "stores_pass t"
      "\<forall>i<n. word_at (ram t) (unat (a + 4) + 4 * i) = sector_word (sector_buffer (fst (devs z))) (sector_read_pos (fst (devs z)) + 4 * i)"
      "\<forall>j. j < unat (a + 4) \<or> unat (a + 4) + 4 * n \<le> j \<longrightarrow> ram t j = ram z j"
      using Suc.IH [OF hyp k(2), of "mv + 1"] by blast
    have head: "word_at (ram t) (unat a) = ?w"
    proof -
      have "word_at (ram t) (unat a) = word_at (ram z) (unat a)" using t(7) a4 by (simp add: word_at_def)
      then show ?thesis unfolding s3(4) by simp
    qed
    have words: "word_at (ram t) (unat a + 4 * i) = sector_word (sector_buffer ?d) (sector_read_pos ?d + 4 * i)" if "i < Suc n" for i
      using that head t(6) by (cases i) (simp_all add: a4 s3 rd algebra_simps)
    have other: "ram t j = ram s j" if "j < unat a \<or> unat a + 4 * Suc n \<le> j" for j
      using that t(7) a4 unfolding s3(4) by (auto simp: put_word_other)
    show ?thesis
      unfolding move id4 t(1) using t(2-5) s3 dw words other by (simp add: algebra_simps)
  qed
qed


text \<open>The end of a transfer: the channel is idle, its address register stands behind the last word, and RAM is
  left as it was.\<close>

lemma finish_capture_frame [simp]:
  "ram (finish_cdrom_dma_capture E a b s) = ram s" "channels (finish_cdrom_dma_capture E a b s) = channels s"
  "cdrom_async (finish_cdrom_dma_capture E a b s) = cdrom_async s"
  by (simp_all add: finish_cdrom_dma_capture_def Let_def)

lemma complete_frame [simp]:
  "ram (complete_transfer ch s) = ram s" "cdrom_async (complete_transfer ch s) = cdrom_async s"
  "channels (complete_transfer ch s) = (channels s)(ch := chcr_update clear_start_busy (channels s ch))"
  by (simp_all add: complete_transfer_def raise_dma_irq_on_master_edge_def trace_dma_def upd_channel_def Let_def)

lemma finish_transfer_effect:
  "ram (finish_async_cdrom_transfer E a s) = ram s" "\<not> chan_busy (chcr (channels (finish_async_cdrom_transfer E a s) 3))"
  "madr (channels (finish_async_cdrom_transfer E a s) 3) = a" "as_active (cdrom_async (finish_async_cdrom_transfer E a s)) = 0"
  by (simp_all add: finish_async_cdrom_transfer_def cancel_async_transfer_def idle_async_def upd_channel_def on_devs_def cd_dma_log_push_def Let_def)

lemma channel_3_delivers:
  fixes s :: "(cd \<times> 'e, 'z) dma" and E :: "(cd \<times> 'e, 'z) env"
  assumes act: "dma_cdrom_transfer_active s" and step: "chan_step (chcr (channels s 3)) = 0"
    and a: "madr (channels s 3) = a" "unat a mod 4 = 0" "unat a < 0x200000" "unat a + 4 * n \<le> 0x200000" and pass: "stores_pass s"
    and n: "0 < n" "as_remaining_words (cdrom_async s) = of_nat n" "as_cycles_accum (cdrom_async s) = 0" "n \<le> unat c"
    and d: "data_open (fst (devs s))" "sector_read_pos (fst (devs s)) + 4 * n \<le> sector_size (fst (devs s))"
  defines "t \<equiv> advance_cdrom_channel (with_drive E) c s"
  shows "\<forall>i<n. word_at (ram t) (unat a + 4 * i) = sector_word (sector_buffer (fst (devs s))) (sector_read_pos (fst (devs s)) + 4 * i)"
    "\<forall>j. j < unat a \<or> unat a + 4 * n \<le> j \<longrightarrow> ram t j = ram s j"
    "\<not> chan_busy (chcr (channels t 3))" "as_active (cdrom_async t) = 0" "madr (channels t 3) = ram_addr (a + of_nat (4 * n))"
proof -
  let ?s2 = "s\<lparr> cdrom_async := (cdrom_async s)\<lparr> as_cycles_accum := c \<rparr>, g_dma_cur_ch := 3, g_dma_cur_bcr := bcr (channels s 3),
     g_dma_initiator_pc := s_dma_ch_initiator_pc s 3 \<rparr>"
  have id: "ram_addr a = a" using a by (intro ram_addr_id)
  have pass2: "stores_pass ?s2" using pass by (simp add: stores_pass_def store_isolated_def)
  have "unat c < 2 ^ LENGTH(32)" by (rule unsigned_less)
  then have sat: "sat_add 0 c = c" by (simp add: sat_add_def word_less_nat_alt)
  obtain u where u: "cdrom_move (unat c) (with_drive E) 0 a 0 ?s2 = (ram_addr (a + of_nat (4 * n)), of_nat n, u)"
    "\<forall>i<n. word_at (ram u) (unat a + 4 * i) = sector_word (sector_buffer (fst (devs s))) (sector_read_pos (fst (devs s)) + 4 * i)"
    "\<forall>j. j < unat a \<or> unat a + 4 * n \<le> j \<longrightarrow> ram u j = ram s j" "as_remaining_words (cdrom_async u) = 0"
    using cdrom_move_fills [OF pass2 a(2-4), of "unat c" E 0] n d by auto
  have nz: "(of_nat n :: u32) \<noteq> 0"
  proof
    assume "(of_nat n :: u32) = 0"
    then have "unat (of_nat n :: u32) = 0" by simp
    then show False using n(1) a(4) by (simp add: unat_of_nat take_bit_nat_eq_self)
  qed
  have ready: "Cdrom.cdrom_dma_ready (fst (devs s))" using d n(1) by (simp add: data_open_def Cdrom.cdrom_dma_ready_def)
  have dir: "chcr (channels s 3) AND 1 = 0" using act by (simp add: dma_cdrom_transfer_active_def)
  have t: "t = finish_async_cdrom_transfer (with_drive E) (ram_addr (a + of_nat (4 * n)))
      (upd_channel 3 (madr_update (\<lambda>_. ram_addr (a + of_nat (4 * n))))
        (u\<lparr> cdrom_async := (cdrom_async u)\<lparr> as_cycles_accum := as_cycles_accum (cdrom_async u) - of_nat n \<rparr> \<rparr>))"
    unfolding t_def advance_cdrom_channel_def cdrom_advance_words_def
    using act dir ready by (simp add: n(3) sat id a(1) u(1,4) nz step upd_channel_def Let_def)
  show "\<forall>i<n. word_at (ram t) (unat a + 4 * i) = sector_word (sector_buffer (fst (devs s))) (sector_read_pos (fst (devs s)) + 4 * i)"
    "\<forall>j. j < unat a \<or> unat a + 4 * n \<le> j \<longrightarrow> ram t j = ram s j"
    "\<not> chan_busy (chcr (channels t 3))" "as_active (cdrom_async t) = 0" "madr (channels t 3) = ram_addr (a + of_nat (4 * n))"
    using u(2,3) by (simp_all add: t finish_transfer_effect upd_channel_def)
qed

text \<open>Starting the channel: a CHCR write with start and trigger, from the device, upwards.\<close>

abbreviation (input) CHCR_CD_READ :: u32 where "CHCR_CD_READ \<equiv> 0x11000000"

lemma word_count_enter: "transfer_word_count E ch (enter_exec c s) = transfer_word_count E ch s"
  by (simp add: enter_exec_def transfer_word_count_def Let_def)

lemma channel_3_starts:
  fixes s :: "(cd \<times> 'e, 'z) dma"
  assumes idle: "as_active (cdrom_async s) = 0" and en: "channel_enabled 3 s" and n: "bcr (channels s 3) = of_nat n" "0 < n" "n \<le> 0xFFFF"
  shows "\<exists>u. write_chcr E 3 CHCR_CD_READ 0xFFFFFFFF s = Inr u \<and> dma_cdrom_transfer_active u \<and> chan_step (chcr (channels u 3)) = 0 \<and>
     madr (channels u 3) = madr (channels s 3) \<and> ram u = ram s \<and> devs u = devs s \<and> stores_pass u = stores_pass s \<and>
     as_remaining_words (cdrom_async u) = of_nat n \<and> as_cycles_accum (cdrom_async u) = 0"
proof -
  have nn: "unat (of_nat n :: u32) = n" using n(3) by (simp add: unat_of_nat take_bit_nat_eq_self)
  have nz: "(of_nat n :: u32) \<noteq> 0" using nn n(2) by auto
  have low: "(of_nat n :: u32) AND 0xFFFF = of_nat n"
    using n(3) unat_and_mask [of "of_nat n :: u32" 16] by (simp add: nn word_unat_eq_iff mask_eq_exp_minus_1)
  define k where "k = enter_exec 3 (note_kick E 3 (upd_channel 3 (chcr_update (masked 0xFFFFFFFF CHCR_CD_READ)) s))"
  have all: "(0xFFFFFFFF :: u32) = - 1" by simp
  have cr: "masked 0xFFFFFFFF CHCR_CD_READ c = 0x11000000" for c unfolding masked_def all by simp
  have ch: "channels k = (channels s)(3 := (channels s 3)\<lparr> chcr := 0x01000000 \<rparr>)"
    by (cases "channels s 3") (simp add: k_def enter_exec_def upd_channel_def cr comp_def)
  have k: "devs k = devs s" "ram k = ram s" "dpcr k = dpcr s"
    "cdrom_async k = cdrom_async s"
    "sr_ref k = sr_ref s" "fntrace_game_started k = fntrace_game_started s" "g_debug_last_store_pc k = g_debug_last_store_pc s"
    by (simp_all add: k_def enter_exec_def upd_channel_def)
      (simp_all add: note_kick_def trace_dma_def push_trace_def event_ring_record_aux_def upd_channel_def Let_def)
  have wc: "transfer_word_count E 3 k = of_nat n"
    using n nz by (simp add: transfer_word_count_def k ch chan_sync_mode_def low Let_def)
  define u where "u = leave_exec (execute_ch3_cdrom E k)"
  have "write_chcr E 3 CHCR_CD_READ 0xFFFFFFFF s = Inr u"
  proof -
    let ?s1 = "upd_channel 3 (chcr_update (masked 0xFFFFFFFF CHCR_CD_READ)) s"
    have c: "chcr (channels ?s1 3) = 0x11000000" by (simp add: upd_channel_def cr)
    have "transfer_word_count E 3 (note_kick E 3 ?s1) = transfer_word_count E 3 k"
      unfolding k_def by (rule word_count_enter [symmetric])
    then have "validate_transfer_length E 3 (note_kick E 3 ?s1) = None"
      using wc n(3) by (simp add: validate_transfer_length_def word_less_nat_alt nn)
    moreover have "channel_enabled 3 ?s1" using en by (simp add: channel_enabled_def upd_channel_def)
    ultimately have "try_execute E 3 ?s1 = Inr u"
      unfolding try_execute_def Let_def c u_def k_def by (simp add: chan_busy_def execute_channel_def)
    moreover have "(0xFFFFFFFF :: u32) AND push_bit 24 1 \<noteq> 0" unfolding all by simp
    ultimately show ?thesis unfolding write_chcr_def Let_def by (simp add: cr chan_busy_def)
  qed
  moreover have "dma_cdrom_transfer_active u \<and> chan_step (chcr (channels u 3)) = 0 \<and>
     madr (channels u 3) = madr (channels s 3) \<and> ram u = ram s \<and> devs u = devs s \<and> stores_pass u = stores_pass s \<and>
     as_remaining_words (cdrom_async u) = of_nat n \<and> as_cycles_accum (cdrom_async u) = 0"
    using idle en nz by (simp add: u_def leave_exec_def execute_ch3_cdrom_def start_async_cdrom_transfer_def start_cdrom_dma_capture_def
        wc k ch dma_cdrom_transfer_active_def chan_busy_def chan_step_def channel_enabled_def stores_pass_def store_isolated_def Let_def)
  ultimately show ?thesis by blast
qed

section \<open>From the disc into RAM\<close>

text \<open>The program opens the data port: bank 0, request register.\<close>

definition request_data :: "'z cdm \<Rightarrow> 'z cdm" where
  "request_data = write_all [(0x1F801800, 0), (0x1F801803, 0x80)]"

lemma driver_line_only:
  "line_only 2 (snd m) (snd (read_one_sector dma c m))" "line_only 2 (snd m) (snd (request_data m))"
proof -
  have "read_one_sector dma c m = fold (cd_step (\<lambda>_. None)) [CdWrite 0x1F801801 2, CdWrite 0x1F801800 1, CdWrite 0x1F801803 7, CdWrite 0x1F801800 0,
      CdWrite 0x1F801801 6, CdWrite 0x1F801800 1, CdWrite 0x1F801803 7, CdWrite 0x1F801800 0, CdAdvance dma c] m"
    by (simp add: read_one_sector_def driver_ack_def)
  then show "line_only 2 (snd m) (snd (read_one_sector dma c m))" by (simp only: cd_line.run_line_only)
  have "request_data m = fold (cd_step (\<lambda>_. None)) [CdWrite 0x1F801800 0, CdWrite 0x1F801803 0x80] m" by (simp add: request_data_def)
  then show "line_only 2 (snd m) (snd (request_data m))" by (simp only: cd_line.run_line_only)
qed

lemma request_data_fields:
  "fst (request_data m) = (cd_write_request 0x80 ((fst m)\<lparr> index_reg := 0 \<rparr>))"
  by (cases m) (simp add: request_data_def select_index cdrom_write_def Let_def)

text \<open>C1. A sector travels from the disc into RAM. With the drive of Cdrom behind the DMA controller, from a
  well-formed idle drive: the program writes SetLoc and ReadN, acknowledges each, waits for the sector, opens the
  data port and starts channel 3 with a destination and 512 words. The start does not fault, and after 512 more
  cycles the words of main RAM at the destination are the user data of exactly that sector of the disc; the rest
  of RAM is untouched, the channel is idle again and its address register stands behind the data. The drive is
  in 2048-byte mode, the sector is readable and not real-time audio, and channel 3 is enabled, idle and set up
  with a destination that lies in RAM.\<close>

theorem disc_to_ram:
  fixes s :: "(cd \<times> 'e, 'z) dma"
  assumes d0: "fst (devs s) = d0"
    and ok: "cd_ok d0" "irq_flag d0 = 0" "index_reg d0 = 0" "\<not> pc_pending (cd.pending d0)" "mode_reg d0 AND 0x20 = 0"
    and params: "param_count d0 = 3" "param_fifo d0 0 = bin_to_bcd mn" "param_fifo d0 1 = bin_to_bcd sec" "param_fifo d0 2 = bin_to_bcd f"
    and msf: "0 \<le> mn" "mn \<le> 99" "0 \<le> sec" "sec < 60" "0 \<le> f" "f < 75"
    and disc: "iso_handle d0 = Some d" "iso_read_raw_sector d (word_of_int (msf_to_lba mn sec f)) = Some raw"
      "\<not> xa_is_audio_realtime (classify_raw_sector (Some raw))"
    and c: "903168 \<le> sint c" "512 \<le> unat c2"
    and chan: "madr (channels s 3) = a" "unat a mod 4 = 0" "unat a + 2048 \<le> 0x200000" "bcr (channels s 3) = 512"
      "channel_enabled 3 s" "as_active (cdrom_async s) = 0" "stores_pass s"
  shows "\<exists>u. write_chcr (with_drive E) 3 CHCR_CD_READ 0xFFFFFFFF (on_drive request_data (on_drive (read_one_sector dma c) s)) = Inr u \<and>
     (let t = advance_cdrom_channel (with_drive E) c2 u
      in (\<forall>i<512. word_at (ram t) (unat a + 4 * i) = sector_word raw (24 + 4 * i)) \<and>
         (\<forall>j. j < unat a \<or> unat a + 2048 \<le> j \<longrightarrow> ram t j = ram s j) \<and>
         \<not> chan_busy (chcr (channels t 3)) \<and> as_active (cdrom_async t) = 0 \<and> madr (channels t 3) = ram_addr (a + 2048))"
proof -
  define s1 where "s1 = on_drive (read_one_sector dma c) s"
  define s2 where "s2 = on_drive request_data s1"
  note f1 = on_drive_frame [where f = "read_one_sector dma c" and s = s, OF driver_line_only(1) [of "(fst (devs s), s)", simplified], folded s1_def]
  note f2 = on_drive_frame [where f = request_data and s = s1, OF driver_line_only(2) [of "(fst (devs s1), s1)", simplified], folded s2_def]
  let ?t = "fst (read_one_sector dma c (d0, s))"
  note arr = sector_arrives [OF ok params msf disc c(1), where dma = dma and y = s]
  have drive: "fst (devs s2) = cd_write_request 0x80 (?t\<lparr> index_reg := 0 \<rparr>)"
    using f2(9) f1(9) by (simp add: request_data_fields d0)
  have d2: "data_open (fst (devs s2))" "sector_read_pos (fst (devs s2)) = 0" "sector_size (fst (devs s2)) = 2048"
    "sector_buffer (fst (devs s2)) = sector_buffer ?t"
    using arr by (simp_all add: drive cd_write_request_def data_open_def Let_def)
  have chan2: "channels s2 = channels s" "ram s2 = ram s" "cdrom_async s2 = cdrom_async s" "channel_enabled 3 s2" "stores_pass s2"
    using f1 f2 chan by (simp_all add: channel_enabled_def)
  obtain u where u: "write_chcr (with_drive E) 3 CHCR_CD_READ 0xFFFFFFFF s2 = Inr u" "dma_cdrom_transfer_active u"
    "chan_step (chcr (channels u 3)) = 0" "madr (channels u 3) = a" "ram u = ram s" "devs u = devs s2" "stores_pass u"
    "as_remaining_words (cdrom_async u) = of_nat 512" "as_cycles_accum (cdrom_async u) = 0"
    using channel_3_starts [of s2 512 "with_drive E"] chan2 chan by auto
  have pre: "unat a < 0x200000" "unat a + 4 * 512 \<le> 0x200000" "(0 :: nat) < 512" "data_open (fst (devs u))"
    "sector_read_pos (fst (devs u)) + 4 * 512 \<le> sector_size (fst (devs u))"
    using chan(3) d2 by (simp_all add: u(6))
  note del = channel_3_delivers [OF u(2-4) chan(2) pre(1,2) u(7) pre(3) u(8,9) c(2) pre(4,5), where E = E]
  let ?r = "advance_cdrom_channel (with_drive E) c2 u"
  have w: "word_at (ram ?r) (unat a + 4 * i) = sector_word raw (24 + 4 * i)" if "i < 512" for i
  proof -
    have "sector_word (sector_buffer ?t) (4 * i) = sector_word raw (24 + 4 * i)"
      using same_words [of "sector_buffer ?t" raw, OF arr(6)] that by (auto simp: map_eq_conv)
    then show ?thesis using del(1) that by (simp add: u(6) d2)
  qed
  have "(\<forall>j. j < unat a \<or> unat a + 2048 \<le> j \<longrightarrow> ram ?r j = ram s j) \<and>
     \<not> chan_busy (chcr (channels ?r 3)) \<and> as_active (cdrom_async ?r) = 0 \<and> madr (channels ?r 3) = ram_addr (a + 2048)"
    using del(2-5) by (simp add: u(5))
  then show ?thesis using u(1) w unfolding s2_def s1_def Let_def by blast
qed

text \<open>A machine with the demo drive and channel 3 set up for 512 words at 0x80010000.\<close>

definition demo_env :: "(cd \<times> unit, unit) env" where
  "demo_env = \<lparr> io = no_mmio, gpu_write_gp0 = (\<lambda>w d. d), gpu_set_gp0_source = (\<lambda>a d. d), gpu_read_gpuread = (\<lambda>d. (0, d)),
     gpu_ws_begin_linked_list = (\<lambda>d. d), spu_dma_write = (\<lambda>w d. d), audio_trace_event = (\<lambda>k a b d. d), cdrom_dma_read = drive_read,
     cdrom_dma_ready = (\<lambda>d. False), cdrom_dma_sector_word_count = (\<lambda>d. 512), cdrom_get_setloc_lba = (\<lambda>d. 0),
     cdrom_debug_snapshot = (\<lambda>d. \<lparr> cs_last_sector_lba = 0, cs_sector_size = 0, cs_last_sector_size = 0,
       cs_sector_read_pos = 0, cs_last_sector_mode = 0, cs_mode_reg = 0, cs_sector_available = 0 \<rparr>),
     overlay_capture_on_dma = (\<lambda>a n m d. d) \<rparr>"

definition dma_boot :: "'d \<Rightarrow> ('d, unit) dma" where
  "dma_boot d = mem_boot (mdec_st_ext 0 0 0 (\<lambda>_. 0) 0 (\<lambda>_. 0) 0 0 0 (\<lambda>_. 0) (\<lambda>_. 0) (\<lambda>_. 0)
     0 0 0 0 0 0 0 0 0 0 0 0 0 0 0 0 0 (\<lambda>_. mdec_event_zero) 0 0 0 0 (\<lambda>_. True)
     (dma_st.fields (\<lambda>_. no_channel) (\<lambda>_. zero_async) zero_async (\<lambda>_. \<lparr> ce_lba = 0, ce_dest = 0, ce_size = 0 \<rparr>) 0 0
        (\<lambda>_. 0) (\<lambda>_. no_delayed) 0 0 (\<lambda>_. zero_trace_entry) 0 (\<lambda>_. zero_history_entry) 0 zero_history_entry 0 0 0 d))"

definition demo_machine :: "(cd \<times> unit, unit) dma" where
  "demo_machine = (dma_boot (demo_drive, ()))
     \<lparr> channels := (\<lambda>_. no_channel)(3 := \<lparr> madr = 0x10000, bcr = 512, chcr = 0 \<rparr>), dpcr := 0x8000 \<rparr>"

lemma demo_machine_simps:
  "devs demo_machine = (demo_drive, ())" "channels demo_machine 3 = \<lparr> madr = 0x10000, bcr = 512, chcr = 0 \<rparr>"
  "channel_enabled 3 demo_machine" "as_active (cdrom_async demo_machine) = 0" "stores_pass demo_machine"
  by (simp_all add: demo_machine_def channel_enabled_def stores_pass_def store_isolated_def)
    (simp_all add: dma_boot_def mem_boot_def sys_boot_def dma_st.defs zero_async_def)

lemma disc_to_ram_witness:
  "\<exists>u. write_chcr (with_drive demo_env) 3 CHCR_CD_READ 0xFFFFFFFF
       (on_drive request_data (on_drive (read_one_sector False 1000000) demo_machine)) = Inr u \<and>
     word_at (ram (advance_cdrom_channel (with_drive demo_env) 512 u)) 0x10000 = 0x1B1A1918"
proof -
  have w: "sector_word of_nat 24 = 0x1B1A1918" by (simp add: sector_word_def)
  show ?thesis
    using disc_to_ram [where s = demo_machine and mn = 0 and sec = 2 and f = 0 and d = demo_disc and raw = of_nat and c = 1000000 and
        ?c2.0 = 512 and a = "0x10000" and E = demo_env and dma = False]
    by (fastforce simp: Let_def demo_machine_simps demo_drive_ready demo_address demo_sector w dest: spec [of _ 0])
qed

end
