(* ===== verification/Board_Clock.thy ===== *)
theory Board_Clock
  imports Sio_Clock Cd_System
begin

text \<open>
  The guest clock with both of its asynchronous devices in place: the serial port of Sio and the CD-ROM
  controller of Cdrom are the first two components of the device state. What the clock asks of its devices
  (they leave the clock alone) is proved of them, so that the properties of the clock hold of the board
  without hypotheses about its devices.
\<close>

definition drive_advance :: "u32 \<Rightarrow> (sio \<times> cd \<times> 'e, 'z) cyc \<Rightarrow> (sio \<times> cd \<times> 'e, 'z) cyc" where
  "drive_advance c s =
     (let (p, t) = Cdrom.cdrom_advance (dma_cdrom_transfer_active s) c (fst (snd (devs s)), s)
      in t\<lparr> devs := (fst (devs s), p, snd (snd (devs s))) \<rparr>)"

definition with_board :: "(sio \<times> cd \<times> 'e, 'z) clk \<Rightarrow> (sio \<times> cd \<times> 'e, 'z) clk" where
  "with_board C = (with_port C)\<lparr> cdrom_advance := drive_advance,
     cdrom_cycles_to_irq := (\<lambda>m s. Cdrom.cdrom_cycles_to_irq m (fst (snd (devs s)))) \<rparr>"

lemma drive_advance_quiet: "clock_view (drive_advance c s) = clock_view s"
proof -
  let ?m = "(fst (snd (devs s)), s)"
  let ?t = "snd (Cdrom.cdrom_advance (dma_cdrom_transfer_active s) c ?m)"
  have "line_only 2 s ?t"
    using cd_line.run_line_only [of ?m "\<lambda>_. None" "[CdAdvance (dma_cdrom_transfer_active s) c]"] by simp
  then have "clock_view ?t = clock_view s" by (intro clock_view_more) (simp_all add: line_only_def)
  then show ?thesis by (simp add: drive_advance_def case_prod_beta)
qed

lemma board_quiet: "quiet_devices (with_board C)"
  by (simp add: quiet_devices_def with_board_def with_port_def port_advance_quiet drive_advance_quiet)

text \<open>Until a presented response is acknowledged the clock is serviced cycle by cycle: the distance of the
  controller is 0, so the board's next event is one cycle away and every chunk of a catch-up has one cycle.\<close>

lemma unacked_response_is_next_event:
  assumes "cd_irq_armed (fst (snd (devs s)))" "cdrom_irq_present_delay (fst (snd (devs s))) = 0"
  shows "devices_cycles_to_next_internal_event (with_board C) s = 1"
proof -
  have "Cdrom.cdrom_cycles_to_irq 0xFFFFFFFF (fst (snd (devs s))) = 0"
    using assms by (simp add: Cdrom.cdrom_cycles_to_irq_def Let_def)
  then show ?thesis by (auto simp: devices_cycles_to_next_internal_event_def with_board_def Let_def word_gt_0)
qed

text \<open>C6. The whole board catches up. With the serial port and the CD-ROM controller on the clock, servicing
  the devices always returns, for every state of the board and without a hypothesis about its devices: the clock
  is where it was, the devices are synchronised to it, and the next deadline is between 1 and 16384 cycles ahead.
  While a response of the controller is up and presented but not acknowledged, that deadline is one cycle ahead.\<close>

theorem board_catches_up:
  fixes s :: "(sio \<times> cd \<times> 'e, 'z) cyc"
  assumes "\<not> s_in_device_service s" and "s_devices_synced_cycle s < cycle_count s"
    and "unat (cycle_count s - s_devices_synced_cycle s) \<le> n"
  shows "\<exists>t. psx_devices_service_to_now n (with_board C) s = Some t \<and> cycle_count t = cycle_count s \<and>
     s_devices_synced_cycle t = cycle_count s \<and> \<not> s_in_device_service t \<and>
     0 < s_next_service_cycle t - cycle_count t \<and> s_next_service_cycle t - cycle_count t \<le> 16384 \<and>
     (cd_irq_armed (fst (snd (devs t))) \<and> cdrom_irq_present_delay (fst (snd (devs t))) = 0 \<longrightarrow>
        s_next_service_cycle t - cycle_count t = 1)"
proof -
  obtain t where t: "psx_devices_service_to_now n (with_board C) s = Some t" "cycle_count t = cycle_count s"
    "s_devices_synced_cycle t = cycle_count s" "\<not> s_in_device_service t" "0 < s_next_service_cycle t - cycle_count t"
    "s_next_service_cycle t - cycle_count t \<le> 16384"
    using service_replay_facts [OF board_quiet assms, of C] by blast
  obtain e where e: "t = (psx_devices_recompute_deadline (with_board C) e)\<lparr> s_in_device_service := False \<rparr>"
    using t(1) assms(1) by (auto simp: psx_devices_service_to_now_def Let_def)
  have "s_next_service_cycle t - cycle_count t = 1"
    if "cd_irq_armed (fst (snd (devs t)))" "cdrom_irq_present_delay (fst (snd (devs t))) = 0"
    using that unacked_response_is_next_event [of e C] by (simp add: e psx_devices_recompute_deadline_def Let_def)
  then show ?thesis using t(1-6) by blast
qed

section \<open>No VBlank is lost\<close>

text \<open>C8. No VBlank is lost and none is invented, on the board with its serial port and CD-ROM controller and
  with no hypothesis about them. Advance the devices by any slices whose total, with the cycles already counted,
  stays below \<open>2 ^ 32\<close>: the edges raised, 564480 cycles each, and the counter together account for every cycle,
  also while edges are deferred for a card transaction or an exception. When the last slice ends outside an
  exception and with nothing deferred, the edges raised are exactly the whole periods that have passed and the
  counter holds the rest.\<close>

theorem vblank_count_exact:
  fixes s :: "(sio \<times> cd \<times> 'e, 'z) cyc"
  assumes "unat (cycles_since_vblank s) + sum_list (map unat cs) < 2 ^ 32"
  shows "let t = fold (advance_devices (with_board C)) cs s; elapsed = unat (cycles_since_vblank s) + sum_list (map unat cs)
     in \<exists>k. g_vblank_raise_count t = g_vblank_raise_count s + of_nat k \<and>
            elapsed = 564480 * k + unat (cycles_since_vblank t) \<and>
            (cs \<noteq> [] \<and> in_exception s = 0 \<and> \<not> should_defer_vblank_for_sio (with_board C) t \<longrightarrow>
               k = elapsed div 564480 \<and> unat (cycles_since_vblank t) = elapsed mod 564480)"
proof -
  let ?A = "advance_devices (with_board C)"
  define t where "t = fold ?A cs s"
  define el where "el = unat (cycles_since_vblank s) + sum_list (map unat cs)"
  obtain k where k: "g_vblank_raise_count t = g_vblank_raise_count s + of_nat k"
    "unat (cycles_since_vblank t) + 564480 * k = el" "in_exception t = in_exception s"
    using advance_devices_account [OF board_quiet assms] unfolding t_def el_def by blast
  have "unat (cycles_since_vblank t) < 564480"
    if idle: "cs \<noteq> []" "in_exception s = 0" "\<not> should_defer_vblank_for_sio (with_board C) t"
  proof -
    obtain ds d where cs: "cs = ds @ [d]" using idle(1) by (cases cs rule: rev_cases) auto
    let ?m = "fold ?A ds s"
    have small: "unat (cycles_since_vblank s) + sum_list (map unat ds) < 2 ^ 32" using assms cs by simp
    obtain j where "unat (cycles_since_vblank ?m) + 564480 * j = unat (cycles_since_vblank s) + sum_list (map unat ds)"
      "in_exception ?m = in_exception s"
      using advance_devices_account [OF board_quiet small, of C] by blast
    moreover from this have "unat (cycles_since_vblank ?m) + unat d < 2 ^ 32" using assms cs by simp
    ultimately show ?thesis
      using advance_devices_edges [OF board_quiet, of ?m d C] idle(2,3) cs by (auto simp: t_def)
  qed
  then have "k = el div 564480 \<and> unat (cycles_since_vblank t) = el mod 564480"
    if "cs \<noteq> []" "in_exception s = 0" "\<not> should_defer_vblank_for_sio (with_board C) t"
    using that k(2) by fastforce
  then show ?thesis
    using k unfolding Let_def t_def [symmetric] el_def [symmetric] by (intro exI [of _ k]) auto
qed

section \<open>The root counters on the board\<close>

text \<open>C9. The root counters do not notice the servicing. After a catch-up of the board, wherever the chunk
  boundaries fell and whatever the serial port, the CD-ROM controller and DMA did in between, every counter with
  its mode, its flags and its fraction is what one advance by the whole gap makes of it. The catch-up must not
  be in progress already, the devices must be behind the clock, and the gap with the fraction below \<open>2 ^ 32\<close>.\<close>

theorem board_counters_exact:
  fixes s :: "(sio \<times> cd \<times> 'e, 'z) cyc"
  assumes "\<not> s_in_device_service s" and "s_devices_synced_cycle s < cycle_count s"
    and "unat (cycle_count s - s_devices_synced_cycle s) \<le> n" and "t < 3"
    and "unat (timer_frac s t) + unat (cycle_count s - s_devices_synced_cycle s) < 2 ^ 32"
  shows "\<exists>u. psx_devices_service_to_now n (with_board C) s = Some u \<and>
     (let v = timers_advance (ucast (cycle_count s - s_devices_synced_cycle s)) s
      in timers u t = timers v t \<and> timer_frac u t = timer_frac v t)"
  using counters_after_service [OF board_quiet assms] .

text \<open>A board with the demo drive, 1000 cycles behind.\<close>

definition board_clock :: "(sio \<times> cd \<times> unit, unit) clk" where
  "board_clock = \<lparr> dma_ops = \<lparr> io = no_mmio, gpu_write_gp0 = (\<lambda>w d. d), gpu_set_gp0_source = (\<lambda>a d. d), gpu_read_gpuread = (\<lambda>d. (0, d)),
       gpu_ws_begin_linked_list = (\<lambda>d. d), spu_dma_write = (\<lambda>w d. d), audio_trace_event = (\<lambda>k a b d. d), cdrom_dma_read = (\<lambda>d. (0, d)),
       cdrom_dma_ready = (\<lambda>d. False), cdrom_dma_sector_word_count = (\<lambda>d. 512), cdrom_get_setloc_lba = (\<lambda>d. 0),
       cdrom_debug_snapshot = cdrom_debug_snapshot demo_env \<circ> snd, overlay_capture_on_dma = (\<lambda>a n m d. d) \<rparr>,
     sio_advance = (\<lambda>c s. s), cdrom_advance = (\<lambda>c s. s), sio_cycles_to_irq = (\<lambda>m s. 0), cdrom_cycles_to_irq = (\<lambda>m s. 0), sio_get_seq = (\<lambda>s. 0),
     sio_card_protocol_active = (\<lambda>s. False), gpu_vblank = (\<lambda>d. d), starvation_watchdog_check = (\<lambda>s. s), starvation_ring_pc_sample = (\<lambda>s. s) \<rparr>"

definition board_boot :: "(sio \<times> cd \<times> unit, unit) cyc" where
  "board_boot = dma_st.extend (dma_boot (demo_sio, demo_drive, ()))
     (cyc_st.fields 0 0 False 0 0 False False 0 0 0 0 0 0 0 0 0 0 False 0 0 0 (\<lambda>_. 0) 0 0 (- 2) 0 0 0 0 0 False False 0 False)"

lemma board_catches_up_witness:
  "\<exists>t. psx_devices_service_to_now 1000 (with_board board_clock) (board_boot\<lparr> cycle_count := 1000 \<rparr>) = Some t \<and>
     s_devices_synced_cycle t = 1000"
proof -
  have "\<not> s_in_device_service board_boot" "s_devices_synced_cycle board_boot = 0"
    by (simp_all add: board_boot_def dma_boot_def dma_st.defs cyc_st.defs mem_boot_def sys_boot_def)
  then show ?thesis using board_catches_up [of "board_boot\<lparr> cycle_count := 1000 \<rparr>" 1000 board_clock] by auto
qed

lemma board_boot_simps:
  "\<not> s_in_device_service board_boot" "s_devices_synced_cycle board_boot = 0" "cycles_since_vblank board_boot = 0"
  "g_vblank_raise_count board_boot = 0" "in_exception board_boot = 0" "timer_frac board_boot = (\<lambda>_. 0)"
  by (simp_all add: board_boot_def dma_boot_def dma_st.defs cyc_st.defs mem_boot_def sys_boot_def)

theorem vblank_count_exact_witness:
  "\<exists>k. 1500000 = 564480 * k + unat (cycles_since_vblank (fold (advance_devices (with_board board_clock)) [500000, 500000, 500000] board_boot)) \<and>
     g_vblank_raise_count (fold (advance_devices (with_board board_clock)) [500000, 500000, 500000] board_boot) = of_nat k"
  using vblank_count_exact [of board_boot "[500000, 500000, 500000]" board_clock] by (auto simp: Let_def board_boot_simps)

theorem board_counters_exact_witness:
  "\<exists>u. psx_devices_service_to_now 1000 (with_board board_clock) (board_boot\<lparr> cycle_count := 1000 \<rparr>) = Some u \<and>
     timers u 2 = timers (timers_advance 1000 (board_boot\<lparr> cycle_count := 1000 \<rparr>)) 2"
  using board_counters_exact [of "board_boot\<lparr> cycle_count := 1000 \<rparr>" 1000 2 board_clock]
  by (auto simp: Let_def board_boot_simps)

end
