(* ===== verification/Spu.thy ===== *)
theory Spu
  imports Cd_Audio
begin

text \<open>
  The sound processing unit (runtime/src/spu.c): sample RAM and its transfer port, the 24 ADPCM voices with
  their envelopes, the input ring for CD audio, the mixer, the registers and the event ring. Samples are
  integers, with the conversions to 16 and 32 bits where the code can leave their range; counters and addresses
  keep their width. The CD ring holds stereo frames. \<open>fr\<close> is the frame counter of the runtime, which events are
  stamped with. The optional float renderer (its tap, \<open>spu_shadow_process\<close>) is off, as by default, and the audio
  trace is left out.
\<close>

section \<open>State\<close>

abbreviation (input) SPU_RAM_SIZE :: u32 where "SPU_RAM_SIZE \<equiv> 0x80000"
abbreviation (input) SPU_REG_COUNT :: nat where "SPU_REG_COUNT \<equiv> 256"
abbreviation (input) SPU_VOICE_COUNT :: nat where "SPU_VOICE_COUNT \<equiv> 24"
abbreviation (input) SPU_BLOCK_SAMPLES :: nat where "SPU_BLOCK_SAMPLES \<equiv> 28"
abbreviation (input) SPU_EVENT_CAP :: u32 where "SPU_EVENT_CAP \<equiv> 0x100000"
abbreviation (input) SPU_CD_RING_FRAMES :: u32 where "SPU_CD_RING_FRAMES \<equiv> 352800"
abbreviation (input) ADSR_ATTACK :: u8 where "ADSR_ATTACK \<equiv> 0"
abbreviation (input) ADSR_DECAY :: u8 where "ADSR_DECAY \<equiv> 1"
abbreviation (input) ADSR_SUSTAIN :: u8 where "ADSR_SUSTAIN \<equiv> 2"
abbreviation (input) ADSR_RELEASE :: u8 where "ADSR_RELEASE \<equiv> 3"
abbreviation (input) SPU_EV_KEYON :: u8 where "SPU_EV_KEYON \<equiv> 1"
abbreviation (input) SPU_EV_KEYOFF :: u8 where "SPU_EV_KEYOFF \<equiv> 2"
abbreviation (input) SPU_EV_END_STOP :: u8 where "SPU_EV_END_STOP \<equiv> 3"
abbreviation (input) SPU_EV_END_LOOP :: u8 where "SPU_EV_END_LOOP \<equiv> 4"

record spu_event =
  se_seq :: u64
  se_frame :: u32
  se_kind :: u8
  se_voice :: u8
  se_pitch :: u16
  se_addr :: u32
  se_adsr_lo :: u16
  se_adsr_hi :: u16
  se_vol_l :: u16
  se_vol_r :: u16

record spu_voice =
  v_active :: bool
  v_cur_addr :: u32
  v_repeat_addr :: u32
  v_samples :: "nat \<Rightarrow> int"
  v_sample_idx :: nat
  v_phase :: u32
  v_hist1 :: int
  v_hist2 :: int
  v_flags :: u8
  v_env_level :: u16
  v_adsr_divider :: u32
  v_adsr_phase :: u8

record spu =
  spu_ram :: "nat \<Rightarrow> u8"
  spu_regs :: "nat \<Rightarrow> u16"
  transfer_addr :: u32
  key_on_count :: u32
  render_frames :: u64
  nonzero_frames :: u64
  last_peak :: int
  peak :: int
  endx_latch :: u32
  kon_latch :: u32
  koff_latch :: u32
  s_events :: "nat \<Rightarrow> spu_event"
  s_event_idx :: u32
  s_event_seq :: u64
  cd_ring :: "nat \<Rightarrow> int \<times> int"
  cd_read_pos :: u32
  cd_write_pos :: u32
  cd_frame_count :: u32
  cd_push_frames :: u64
  cd_overflow_frames :: u64
  cd_underflow_frames :: u64
  voices :: "nat \<Rightarrow> spu_voice"

definition upd_voice :: "nat \<Rightarrow> (spu_voice \<Rightarrow> spu_voice) \<Rightarrow> spu \<Rightarrow> spu" where
  "upd_voice i f s = s\<lparr> voices := (voices s)(i := f (voices s i)) \<rparr>"

definition voice_reg :: "spu \<Rightarrow> nat \<Rightarrow> nat \<Rightarrow> u16" where
  "voice_reg s voice reg = spu_regs s (voice * 8 + reg)"

section \<open>The event ring\<close>

definition mk_spu_event :: "u64 \<Rightarrow> u8 \<Rightarrow> nat \<Rightarrow> u32 \<Rightarrow> spu \<Rightarrow> spu_event" where
  "mk_spu_event fr kind voice addr s =
     \<lparr> se_seq = s_event_seq s, se_frame = ucast fr, se_kind = kind, se_voice = of_nat voice, se_pitch = voice_reg s voice 2,
       se_addr = addr, se_adsr_lo = voice_reg s voice 4, se_adsr_hi = voice_reg s voice 5, se_vol_l = voice_reg s voice 0,
       se_vol_r = voice_reg s voice 1 \<rparr>"

definition spu_event_record :: "u64 \<Rightarrow> u8 \<Rightarrow> nat \<Rightarrow> u32 \<Rightarrow> spu \<Rightarrow> spu" where
  "spu_event_record fr kind voice addr s =
     s\<lparr> s_events := (s_events s)(unat (s_event_idx s AND (SPU_EVENT_CAP - 1)) := mk_spu_event fr kind voice addr s),
        s_event_seq := s_event_seq s + 1, s_event_idx := s_event_idx s + 1 \<rparr>"

definition zero_spu_event :: spu_event where
  "zero_spu_event = \<lparr> se_seq = 0, se_frame = 0, se_kind = 0, se_voice = 0, se_pitch = 0, se_addr = 0, se_adsr_lo = 0,
     se_adsr_hi = 0, se_vol_l = 0, se_vol_r = 0 \<rparr>"

definition spu_event_total :: "spu \<Rightarrow> u64" where
  "spu_event_total s = s_event_seq s"

text \<open>The most recent entries, oldest first.\<close>

definition spu_event_get :: "u32 \<Rightarrow> spu \<Rightarrow> spu_event list" where
  "spu_event_get max_count s =
     (let avail = (if s_event_seq s < ucast SPU_EVENT_CAP then s_event_seq s else ucast SPU_EVENT_CAP);
          n = (if (ucast max_count :: u64) > avail then ucast avail else max_count) :: u32;
          start = (s_event_idx s + SPU_EVENT_CAP - n) AND (SPU_EVENT_CAP - 1)
      in map (\<lambda>i. s_events s (unat ((start + of_nat i) AND (SPU_EVENT_CAP - 1)))) [0 ..< unat n])"

definition spu_event_reset :: "spu \<Rightarrow> spu" where
  "spu_event_reset s = s\<lparr> s_event_idx := 0, s_event_seq := 0, s_events := (\<lambda>_. zero_spu_event) \<rparr>"

section \<open>Envelopes\<close>

text \<open>The increment of the level and the increment of the divider, by rate.\<close>

definition calc_vc_delta :: "nat \<Rightarrow> nat \<Rightarrow> bool \<Rightarrow> bool \<Rightarrow> bool \<Rightarrow> int \<Rightarrow> int \<times> nat" where
  "calc_vc_delta zs speed log_mode dec_mode inv_increment current =
     (let increment = 7 - int (speed mod 4);
          increment = (if inv_increment then - increment - 1 else increment);
          increment = (if speed < 0x2C then as_s32 (increment * 2 ^ ((0x2F - speed) div 4)) else increment);
          divinco = (if speed \<ge> 0x30 then 32768 div 2 ^ ((speed - 0x2C) div 4) else 32768);
          (increment, divinco) =
            (if log_mode
             then if dec_mode then ((current * increment) div 32768, divinco)
                  else if current mod 32768 \<ge> 0x6000
                  then if speed < 0x28 then (increment div 4, divinco)
                       else if speed \<ge> 0x2C then (increment, divinco div 4)
                       else (increment div 2, divinco div 2)
                  else (increment, divinco)
             else (increment, divinco));
          divinco = (if divinco = 0 \<and> speed < zs then 1 else divinco)
      in (increment, divinco))"

text \<open>A field of the envelope registers.\<close>

definition adsr_field :: "u32 \<Rightarrow> nat \<Rightarrow> u32 \<Rightarrow> nat" where
  "adsr_field raw sh m = unat (drop_bit sh raw AND m)"

definition adsr_delta :: "u32 \<Rightarrow> u8 \<Rightarrow> int \<Rightarrow> (int \<times> nat \<times> u16) option" where
  "adsr_delta raw ph level =
     (let sustain_dec = (adsr_field raw 30 1 = 1)
      in if ph = ADSR_ATTACK
         then let (i, d) = calc_vc_delta 0x7F (adsr_field raw 8 0x7F) (adsr_field raw 15 1 = 1) False False level in Some (i, d, 0x7FFF)
         else if ph = ADSR_DECAY
         then let (i, d) = calc_vc_delta 0x7C (adsr_field raw 4 0xF * 4) True True True level in Some (i, d, 0)
         else if ph = ADSR_SUSTAIN
         then let (i, d) = calc_vc_delta 0x7F (adsr_field raw 22 0x7F) (adsr_field raw 31 1 = 1) sustain_dec sustain_dec level
              in Some (i, d, if sustain_dec then 0 else 0x7FFF)
         else if ph = ADSR_RELEASE
         then let (i, d) = calc_vc_delta 0x7C (adsr_field raw 16 0x1F * 4) (adsr_field raw 21 1 = 1) True True level in Some (i, d, 0)
         else None)"

text \<open>An update of the level that is due.\<close>

definition adsr_update :: "u32 \<Rightarrow> int \<Rightarrow> u16 \<Rightarrow> spu_voice \<Rightarrow> spu_voice" where
  "adsr_update raw increment uoflow_reset v =
     (let prev = v_env_level v;
          level = prev + word_of_int increment;
          level = (if v_adsr_phase v = ADSR_ATTACK
                   then if (prev XOR level) AND level AND 0x8000 \<noteq> 0 then uoflow_reset else level
                   else if level AND 0x8000 \<noteq> 0 then uoflow_reset else level);
          sustain_lvl = of_nat ((adsr_field raw 0 0xF + 1) * 2048)
      in v\<lparr> v_adsr_divider := 0, v_env_level := level,
           v_adsr_phase := if v_adsr_phase v = ADSR_DECAY \<and> level < sustain_lvl then ADSR_SUSTAIN else v_adsr_phase v \<rparr>)"

definition adsr_raw :: "spu \<Rightarrow> nat \<Rightarrow> u32" where
  "adsr_raw s idx = ucast (voice_reg s idx 4) OR push_bit 16 (ucast (voice_reg s idx 5))"

definition adsr_run :: "u32 \<Rightarrow> spu_voice \<Rightarrow> spu_voice" where
  "adsr_run raw v0 =
     (let v = (if v_adsr_phase v0 = ADSR_ATTACK \<and> v_env_level v0 = 0x7FFF then v0\<lparr> v_adsr_phase := ADSR_DECAY \<rparr> else v0)
      in case adsr_delta raw (v_adsr_phase v) (sint (v_env_level v)) of
           None \<Rightarrow> v
         | Some (increment, divinco, uoflow_reset) \<Rightarrow>
             let v1 = v\<lparr> v_adsr_divider := v_adsr_divider v + of_nat divinco \<rparr>
             in if v_adsr_divider v1 AND 0x8000 \<noteq> 0 then adsr_update raw increment uoflow_reset v1 else v1)"

section \<open>Volumes\<close>

definition clamp16 :: "int \<Rightarrow> int" where
  "clamp16 v = (if v > 32767 then 32767 else if v < - 32768 then - 32768 else v)"

definition reg_index :: "u32 \<Rightarrow> nat" where
  "reg_index addr = unat (drop_bit 1 (addr - 0x1F801C00))"

definition direct_volume :: "u16 \<Rightarrow> int" where
  "direct_volume raw =
     (let v = int (unat (raw AND 0x7FFF));
          v = (if raw AND 0x8000 \<noteq> 0 then v else if v \<ge> 0x4000 then v - 0x8000 else v);
          v = (if v > 0x3FFF then 0x3FFF else v)
      in if v < - 0x4000 then - 0x4000 else v)"

definition cd_input_volume :: "u16 \<Rightarrow> int" where
  "cd_input_volume raw = sint raw"

section \<open>CD input\<close>

definition spu_cd_audio_reset :: "spu \<Rightarrow> spu" where
  "spu_cd_audio_reset s =
     s\<lparr> cd_ring := (\<lambda>_. (0, 0)), cd_read_pos := 0, cd_write_pos := 0, cd_frame_count := 0, cd_push_frames := 0,
        cd_overflow_frames := 0, cd_underflow_frames := 0 \<rparr>"

primrec cd_store :: "pcm \<Rightarrow> spu \<Rightarrow> spu" where
  "cd_store [] s = s"
| "cd_store (f # fs) s =
     cd_store fs (s\<lparr> cd_ring := (cd_ring s)(unat (cd_write_pos s) := f), cd_write_pos := (cd_write_pos s + 1) mod SPU_CD_RING_FRAMES \<rparr>)"

text \<open>The loss of the oldest frames when the new ones do not fit.\<close>

definition cd_make_room :: "u32 \<Rightarrow> spu \<Rightarrow> spu" where
  "cd_make_room in_frames s =
     (if cd_frame_count s + in_frames > SPU_CD_RING_FRAMES
      then let d = cd_frame_count s + in_frames - SPU_CD_RING_FRAMES
           in s\<lparr> cd_read_pos := (cd_read_pos s + d) mod SPU_CD_RING_FRAMES, cd_frame_count := cd_frame_count s - d,
                 cd_overflow_frames := cd_overflow_frames s + ucast d \<rparr>
      else s)"

definition spu_cd_audio_push :: "pcm \<Rightarrow> spu \<Rightarrow> spu" where
  "spu_cd_audio_push stereo s0 =
     (if stereo = [] then s0
      else let skip = length stereo - unat SPU_CD_RING_FRAMES;
               s = (if length stereo > unat SPU_CD_RING_FRAMES then s0\<lparr> cd_overflow_frames := cd_overflow_frames s0 + of_nat skip \<rparr> else s0);
               stereo = drop skip stereo;
               in_frames = of_nat (length stereo) :: u32;
               s2 = cd_store stereo (cd_make_room in_frames s)
           in s2\<lparr> cd_frame_count := cd_frame_count s2 + in_frames, cd_push_frames := cd_push_frames s2 + ucast in_frames \<rparr>)"

definition cd_audio_pop :: "spu \<Rightarrow> (int \<times> int) option \<times> spu" where
  "cd_audio_pop s =
     (if cd_frame_count s = 0 then (None, s)
      else (Some (cd_ring s (unat (cd_read_pos s))),
            s\<lparr> cd_read_pos := (cd_read_pos s + 1) mod SPU_CD_RING_FRAMES, cd_frame_count := cd_frame_count s - 1 \<rparr>))"

section \<open>Voices\<close>

definition spu_f0 :: "int list" where "spu_f0 = [0, 60, 115, 98, 122]"
definition spu_f1 :: "int list" where "spu_f1 = [0, 0, - 52, - 55, - 60]"

text \<open>One sample of a block, with the two samples before it.\<close>

definition spu_sample :: "u8 \<Rightarrow> int \<Rightarrow> int \<times> int \<Rightarrow> int" where
  "spu_sample header sample4 h =
     (let shift = unat (header AND 0x0F);
          filt = unat (drop_bit 4 header AND 0x0F);
          filt = (if filt > 4 then 0 else filt);
          shift = (if shift > 12 then 12 else shift)
      in clamp16 ((sample4 * 4096) div 2 ^ shift + (fst h * spu_f0 ! filt + snd h * spu_f1 ! filt + 32) div 64))"

definition spu_nibble :: "nat \<Rightarrow> u8 \<Rightarrow> int" where
  "spu_nibble n packed =
     (let sample4 = int (unat (if n = 0 then packed AND 0x0F else drop_bit 4 packed)) in if sample4 \<ge> 8 then sample4 - 16 else sample4)"

text \<open>The 28 samples of a block: sample \<open>out\<close> is in nibble \<open>out mod 2\<close> of byte \<open>out div 2\<close>.\<close>

definition block_step :: "(nat \<Rightarrow> u8) \<Rightarrow> nat \<Rightarrow> nat \<Rightarrow> spu_voice \<Rightarrow> spu_voice" where
  "block_step m addr out v =
     (let x = spu_sample (m addr) (spu_nibble (out mod 2) (m (addr + 2 + out div 2))) (v_hist1 v, v_hist2 v)
      in v\<lparr> v_hist2 := v_hist1 v, v_hist1 := x, v_samples := (v_samples v)(out := x) \<rparr>)"

definition block_addr :: "spu_voice \<Rightarrow> u32" where
  "block_addr v =
     (let addr = v_cur_addr v AND (SPU_RAM_SIZE - 1) in if addr + 16 > SPU_RAM_SIZE then 0 else addr)"

definition decode_block :: "nat \<Rightarrow> spu \<Rightarrow> spu" where
  "decode_block idx s =
     (let v = voices s idx;
          addr = block_addr v;
          flags = spu_ram s (unat addr + 1);
          v1 = fold (block_step (spu_ram s) (unat addr)) [0 ..< SPU_BLOCK_SAMPLES] v;
          v2 = (if flags AND 0x04 \<noteq> 0 then v1\<lparr> v_repeat_addr := addr \<rparr> else v1);
          s1 = (if flags AND 0x04 \<noteq> 0 then s\<lparr> spu_regs := (spu_regs s)(idx * 8 + 7 := ucast (drop_bit 3 addr)) \<rparr> else s);
          v3 = v2\<lparr> v_flags := flags, v_sample_idx := 0, v_cur_addr := (addr + 16) AND (SPU_RAM_SIZE - 1) \<rparr>;
          s2 = upd_voice idx (\<lambda>_. v3) s1
      in if flags AND 0x01 \<noteq> 0 then s2\<lparr> endx_latch := endx_latch s2 OR push_bit idx 1 \<rparr> else s2)"

text \<open>The move through the block at the voice's pitch; it stops at the end of the block.\<close>

function phase_loop :: "nat \<Rightarrow> u32 \<Rightarrow> nat \<times> u32" where
  "phase_loop idx ph =
     (if ph \<ge> 0x1000
      then if Suc idx \<ge> SPU_BLOCK_SAMPLES then (Suc idx, ph - 0x1000) else phase_loop (Suc idx) (ph - 0x1000)
      else (idx, ph))"
  by auto
termination by (relation "measure (\<lambda>(idx, ph). SPU_BLOCK_SAMPLES - idx)") auto

text \<open>What a voice does at the end of a block with the end flag: it goes on at the repeat address, silenced
  unless the block asks for the repetition.\<close>

definition block_end :: "u64 \<Rightarrow> nat \<Rightarrow> spu \<Rightarrow> spu" where
  "block_end fr idx s =
     (if v_flags (voices s idx) AND 0x01 \<noteq> 0
      then let s1 = upd_voice idx (\<lambda>v. v\<lparr> v_cur_addr := v_repeat_addr v AND (SPU_RAM_SIZE - 1) \<rparr>) s
           in if v_flags (voices s1 idx) AND 0x02 \<noteq> 0
              then spu_event_record fr SPU_EV_END_LOOP idx (v_repeat_addr (voices s1 idx)) s1
              else upd_voice idx (\<lambda>v. v\<lparr> v_adsr_phase := ADSR_RELEASE, v_adsr_divider := 0, v_env_level := 0 \<rparr>)
                     (spu_event_record fr SPU_EV_END_STOP idx (v_cur_addr (voices s1 idx)) s1)
      else s)"

definition voice_pitch :: "spu \<Rightarrow> nat \<Rightarrow> u32" where
  "voice_pitch s idx = (let pitch = ucast (voice_reg s idx 2) AND 0x3FFF in if pitch = 0 then 0x1000 else pitch)"

definition shape :: "spu_voice \<Rightarrow> int" where
  "shape v = clamp16 ((v_samples v (v_sample_idx v) * int (unat (v_env_level v))) div 32768)"

definition voice_next_sample :: "u64 \<Rightarrow> nat \<Rightarrow> spu \<Rightarrow> int \<times> spu" where
  "voice_next_sample fr idx s0 =
     (if \<not> v_active (voices s0 idx) then (0, s0)
      else let s = (if v_sample_idx (voices s0 idx) \<ge> SPU_BLOCK_SAMPLES then decode_block idx (block_end fr idx s0) else s0);
               shaped = shape (voices s idx);
               v1 = adsr_run (adsr_raw s idx) (voices s idx);
               v2 = (if v_adsr_phase v1 = ADSR_RELEASE \<and> v_env_level v1 = 0 then v1\<lparr> v_active := False \<rparr> else v1);
               (i, ph) = phase_loop (v_sample_idx v2) (v_phase v2 + voice_pitch s idx)
           in (shaped, upd_voice idx (\<lambda>_. v2\<lparr> v_sample_idx := i, v_phase := ph \<rparr>) s))"

definition zero_voice :: spu_voice where
  "zero_voice = \<lparr> v_active = False, v_cur_addr = 0, v_repeat_addr = 0, v_samples = (\<lambda>_. 0), v_sample_idx = 0, v_phase = 0, v_hist1 = 0,
     v_hist2 = 0, v_flags = 0, v_env_level = 0, v_adsr_divider = 0, v_adsr_phase = 0 \<rparr>"

definition reg_address :: "u16 \<Rightarrow> u32" where
  "reg_address r = push_bit 3 (ucast r) AND (SPU_RAM_SIZE - 1)"

definition key_on_voice :: "u64 \<Rightarrow> nat \<Rightarrow> spu \<Rightarrow> spu" where
  "key_on_voice fr i s =
     (let v = zero_voice\<lparr> v_active := True, v_cur_addr := reg_address (voice_reg s i 3), v_repeat_addr := reg_address (voice_reg s i 7),
                v_sample_idx := SPU_BLOCK_SAMPLES \<rparr>;
          s1 = upd_voice i (\<lambda>_. v) s
      in spu_event_record fr SPU_EV_KEYON i (v_cur_addr v)
           (s1\<lparr> key_on_count := key_on_count s1 + 1, endx_latch := endx_latch s1 AND NOT (push_bit i 1) \<rparr>))"

definition key_on :: "u64 \<Rightarrow> u32 \<Rightarrow> spu \<Rightarrow> spu" where
  "key_on fr msk s = fold (\<lambda>i s. if msk AND push_bit i 1 = 0 then s else key_on_voice fr i s) [0 ..< SPU_VOICE_COUNT] s"

definition key_off_voice :: "u64 \<Rightarrow> nat \<Rightarrow> spu \<Rightarrow> spu" where
  "key_off_voice fr i s =
     (if \<not> v_active (voices s i) then s
      else upd_voice i (\<lambda>v. v\<lparr> v_adsr_phase := ADSR_RELEASE, v_adsr_divider := 0 \<rparr>)
             (spu_event_record fr SPU_EV_KEYOFF i (v_cur_addr (voices s i)) s))"

definition key_off :: "u64 \<Rightarrow> u32 \<Rightarrow> spu \<Rightarrow> spu" where
  "key_off fr msk s = fold (\<lambda>i s. if msk AND push_bit i 1 = 0 then s else key_off_voice fr i s) [0 ..< SPU_VOICE_COUNT] s"

section \<open>Reset\<close>

text \<open>The static state before the first reset.\<close>

definition spu_statics :: spu where
  "spu_statics = \<lparr> spu_ram = (\<lambda>_. 0), spu_regs = (\<lambda>_. 0), transfer_addr = 0, key_on_count = 0, render_frames = 0, nonzero_frames = 0,
     last_peak = 0, peak = 0, endx_latch = 0, kon_latch = 0, koff_latch = 0, s_events = (\<lambda>_. zero_spu_event), s_event_idx = 0,
     s_event_seq = 0, cd_ring = (\<lambda>_. (0, 0)), cd_read_pos = 0, cd_write_pos = 0, cd_frame_count = 0, cd_push_frames = 0,
     cd_overflow_frames = 0, cd_underflow_frames = 0, voices = (\<lambda>_. zero_voice) \<rparr>"

definition spu_init :: "spu \<Rightarrow> spu" where
  "spu_init s =
     spu_cd_audio_reset
       (s\<lparr> spu_ram := (\<lambda>_. 0), spu_regs := (\<lambda>_. 0), voices := (\<lambda>_. zero_voice), s_events := (\<lambda>_. zero_spu_event),
          transfer_addr := 0, key_on_count := 0, render_frames := 0, nonzero_frames := 0, last_peak := 0, peak := 0,
          endx_latch := 0, kon_latch := 0, koff_latch := 0, s_event_idx := 0, s_event_seq := 0 \<rparr>)"

section \<open>The mixer\<close>

text \<open>The sum of the voices, one after the other.\<close>

definition mix_voice :: "u64 \<Rightarrow> nat \<Rightarrow> (int \<times> int) \<times> spu \<Rightarrow> (int \<times> int) \<times> spu" where
  "mix_voice fr v ms =
     (let ((l, r), s) = ms;
          (x, s1) = voice_next_sample fr v s;
          vl = direct_volume (voice_reg s1 v 0);
          vr = direct_volume (voice_reg s1 v 1)
      in (if x = 0 then (l, r) else (l + (x * vl) div 16384, r + (x * vr) div 16384), s1))"

definition mix_voices :: "u64 \<Rightarrow> spu \<Rightarrow> (int \<times> int) \<times> spu" where
  "mix_voices fr s = fold (mix_voice fr) [0 ..< SPU_VOICE_COUNT] ((0, 0), s)"

text \<open>The CD input, when control bit 0 is set; the volumes are those at the start of the block.\<close>

definition mix_cd :: "u16 \<Rightarrow> int \<times> int \<Rightarrow> (int \<times> int) \<times> spu \<Rightarrow> (int \<times> int) \<times> spu" where
  "mix_cd ctrl vol ms =
     (let ((l, r), s) = ms
      in if ctrl AND 0x0001 = 0 then ms
         else case cd_audio_pop s of
                (Some (cl, cr), s1) \<Rightarrow> ((l + (cl * fst vol) div 32768, r + (cr * snd vol) div 32768), s1)
              | (None, s1) \<Rightarrow> ((l, r), if cd_push_frames s1 \<noteq> 0 then s1\<lparr> cd_underflow_frames := cd_underflow_frames s1 + 1 \<rparr> else s1))"

text \<open>The main volume; the product is one of 32 bits.\<close>

definition main_scale :: "int \<Rightarrow> int \<Rightarrow> int" where
  "main_scale main m = as_s32 (m * main) div 16384"

definition render_frame :: "u64 \<Rightarrow> u16 \<Rightarrow> int \<times> int \<Rightarrow> int \<times> int \<Rightarrow> spu \<Rightarrow> (int \<times> int) \<times> spu" where
  "render_frame fr ctrl main cd_vol s =
     (let ((l, r), s1) =
            (if ctrl AND 0x8000 \<noteq> 0
             then let ((l, r), t) = mix_cd ctrl cd_vol (mix_voices fr s) in ((main_scale (fst main) l, main_scale (snd main) r), t)
             else ((0, 0), s))
      in ((clamp16 l, clamp16 r), s1))"

definition frame_peak :: "int \<times> int \<Rightarrow> int" where
  "frame_peak f = max \<bar>fst f\<bar> \<bar>snd f\<bar>"

primrec render_loop :: "nat \<Rightarrow> u64 \<Rightarrow> u16 \<Rightarrow> int \<times> int \<Rightarrow> int \<times> int \<Rightarrow> int \<Rightarrow> spu \<Rightarrow> pcm \<times> int \<times> spu" where
  "render_loop 0 fr ctrl main cd_vol block_peak s = ([], block_peak, s)"
| "render_loop (Suc n) fr ctrl main cd_vol block_peak s =
     (let (f, s1) = render_frame fr ctrl main cd_vol s;
          s2 = (if frame_peak f \<noteq> 0 then s1\<lparr> nonzero_frames := nonzero_frames s1 + 1 \<rparr> else s1);
          (fs, bp, s3) = render_loop n fr ctrl main cd_vol (if frame_peak f > block_peak then frame_peak f else block_peak) s2
      in (f # fs, bp, s3))"

definition spu_render :: "u64 \<Rightarrow> nat \<Rightarrow> spu \<Rightarrow> pcm \<times> spu" where
  "spu_render fr frames s =
     (if frames = 0 then ([], s)
      else let ctrl = spu_regs s (reg_index 0x1F801DAA);
               main = (direct_volume (spu_regs s (reg_index 0x1F801D80)), direct_volume (spu_regs s (reg_index 0x1F801D82)));
               cd_vol = (cd_input_volume (spu_regs s (reg_index 0x1F801DB0)), cd_input_volume (spu_regs s (reg_index 0x1F801DB2)));
               (out, block_peak, s1) = render_loop frames fr ctrl main cd_vol 0 s
           in (out, s1\<lparr> render_frames := render_frames s1 + of_nat frames, last_peak := block_peak,
                        peak := if block_peak > peak s1 then block_peak else peak s1 \<rparr>))"

section \<open>Registers and transfers\<close>

definition spu_read :: "u32 \<Rightarrow> spu \<Rightarrow> u32" where
  "spu_read addr s =
     (if addr \<ge> 0x1F801C00 \<and> addr \<le> 0x1F801DFF
      then let idx = reg_index addr
           in if idx < SPU_REG_COUNT
              then if addr = 0x1F801DAE then 0x0400
                   else if addr = 0x1F801D9C then endx_latch s AND 0xFFFF
                   else if addr = 0x1F801D9E then drop_bit 16 (endx_latch s) AND 0xFF
                   else if addr \<ge> 0x1F801C00 \<and> addr < 0x1F801D80 \<and> idx mod 8 = 6 \<and> idx div 8 < SPU_VOICE_COUNT
                   then ucast (v_env_level (voices s (idx div 8)))
                   else ucast (spu_regs s idx)
              else 0
      else 0)"

definition write_ram_byte :: "u32 \<Rightarrow> u8 \<Rightarrow> spu \<Rightarrow> spu" where
  "write_ram_byte a b s = s\<lparr> spu_ram := (spu_ram s)(unat a := b) \<rparr>"

definition write_repeat :: "nat \<Rightarrow> u16 \<Rightarrow> spu \<Rightarrow> spu" where
  "write_repeat idx r s =
     (if idx < SPU_VOICE_COUNT * 8 \<and> idx mod 8 = 7
      then upd_voice (idx div 8) (\<lambda>v. v\<lparr> v_repeat_addr := reg_address r \<rparr>) s else s)"

definition write_keys :: "u64 \<Rightarrow> u32 \<Rightarrow> u16 \<Rightarrow> spu \<Rightarrow> spu" where
  "write_keys fr addr r s =
     (if addr = 0x1F801D88 then key_on fr (ucast r) (s\<lparr> kon_latch := (kon_latch s AND 0xFFFF0000) OR ucast r \<rparr>)
      else if addr = 0x1F801D8A
      then key_on fr (push_bit 16 (ucast r)) (s\<lparr> kon_latch := (kon_latch s AND 0x0000FFFF) OR push_bit 16 (ucast r) \<rparr>)
      else if addr = 0x1F801D8C then key_off fr (ucast r) (s\<lparr> koff_latch := (koff_latch s AND 0xFFFF0000) OR ucast r \<rparr>)
      else if addr = 0x1F801D8E
      then key_off fr (push_bit 16 (ucast r)) (s\<lparr> koff_latch := (koff_latch s AND 0x0000FFFF) OR push_bit 16 (ucast r) \<rparr>)
      else s)"

definition write_transfer :: "u32 \<Rightarrow> u32 \<Rightarrow> spu \<Rightarrow> spu" where
  "write_transfer addr v s =
     (if addr = 0x1F801DA6
      then let a = push_bit 3 (ucast (ucast v :: u16)) in s\<lparr> transfer_addr := if a \<ge> SPU_RAM_SIZE then 0 else a \<rparr>
      else if addr = 0x1F801DA8
      then let a = transfer_addr s;
               s1 = (if a + 1 < SPU_RAM_SIZE then write_ram_byte (a + 1) (ucast (drop_bit 8 v)) (write_ram_byte a (ucast v) s) else s)
           in s1\<lparr> transfer_addr := (a + 2) mod SPU_RAM_SIZE \<rparr>
      else s)"

definition spu_write :: "u64 \<Rightarrow> u32 \<Rightarrow> u32 \<Rightarrow> spu \<Rightarrow> spu" where
  "spu_write fr addr v s =
     (if addr \<ge> 0x1F801C00 \<and> addr \<le> 0x1F801DFF \<and> reg_index addr < SPU_REG_COUNT
      then let idx = reg_index addr; r = ucast v :: u16
           in write_transfer addr v (write_keys fr addr r (write_repeat idx r (s\<lparr> spu_regs := (spu_regs s)(idx := r) \<rparr>)))
      else s)"

definition spu_dma_write :: "u32 \<Rightarrow> spu \<Rightarrow> spu" where
  "spu_dma_write w s =
     (let a = transfer_addr s;
          s1 = (if a + 3 < SPU_RAM_SIZE
                then write_ram_byte (a + 3) (ucast (drop_bit 24 w)) (write_ram_byte (a + 2) (ucast (drop_bit 16 w))
                       (write_ram_byte (a + 1) (ucast (drop_bit 8 w)) (write_ram_byte a (ucast w) s)))
                else s)
      in s1\<lparr> transfer_addr := (a + 4) mod SPU_RAM_SIZE \<rparr>)"

definition spu_dma_ready :: "spu \<Rightarrow> bool" where
  "spu_dma_ready s = True"

section \<open>What the debug server reads\<close>

record spu_debug_state =
  di_ctrl :: u16
  di_main :: "int \<times> int"
  di_cd :: "int \<times> int"
  di_active_mask :: u32
  di_key_on_count :: u32
  di_render_frames :: u64
  di_nonzero_frames :: u64
  di_last_peak :: int
  di_peak :: int
  di_cd_frames :: u32
  di_cd_push_frames :: u64
  di_cd_overflow_frames :: u64
  di_cd_underflow_frames :: u64

definition active_mask :: "spu \<Rightarrow> u32" where
  "active_mask s = fold (\<lambda>i m. if v_active (voices s i) then m OR push_bit i 1 else m) [0 ..< SPU_VOICE_COUNT] 0"

definition spu_debug_info :: "spu \<Rightarrow> spu_debug_state" where
  "spu_debug_info s =
     \<lparr> di_ctrl = spu_regs s (reg_index 0x1F801DAA),
       di_main = (direct_volume (spu_regs s (reg_index 0x1F801D80)), direct_volume (spu_regs s (reg_index 0x1F801D82))),
       di_cd = (cd_input_volume (spu_regs s (reg_index 0x1F801DB0)), cd_input_volume (spu_regs s (reg_index 0x1F801DB2))),
       di_active_mask = active_mask s, di_key_on_count = key_on_count s, di_render_frames = render_frames s,
       di_nonzero_frames = nonzero_frames s, di_last_peak = last_peak s, di_peak = peak s, di_cd_frames = cd_frame_count s,
       di_cd_push_frames = cd_push_frames s, di_cd_overflow_frames = cd_overflow_frames s, di_cd_underflow_frames = cd_underflow_frames s \<rparr>"

record spu_voice_state =
  vs_active :: bool
  vs_regs :: "u16 list"
  vs_cur_addr :: u32
  vs_repeat_addr :: u32
  vs_last_flags :: u8
  vs_sample_idx :: u8
  vs_phase :: u16
  vs_env_level :: u16
  vs_adsr_phase :: u8

definition spu_get_voice_state :: "int \<Rightarrow> spu \<Rightarrow> spu_voice_state" where
  "spu_get_voice_state idx s =
     (if idx < 0 \<or> idx \<ge> int SPU_VOICE_COUNT
      then \<lparr> vs_active = False, vs_regs = replicate 7 0, vs_cur_addr = 0, vs_repeat_addr = 0, vs_last_flags = 0, vs_sample_idx = 0, vs_phase = 0,
             vs_env_level = 0, vs_adsr_phase = 0 \<rparr>
      else let i = nat idx; v = voices s i
           in \<lparr> vs_active = v_active v, vs_regs = map (voice_reg s i) [0, 1, 2, 3, 4, 5, 7], vs_cur_addr = v_cur_addr v,
                vs_repeat_addr = v_repeat_addr v, vs_last_flags = v_flags v, vs_sample_idx = of_nat (v_sample_idx v), vs_phase = ucast (v_phase v),
                vs_env_level = v_env_level v, vs_adsr_phase = v_adsr_phase v \<rparr>)"

definition spu_ram_peek :: "u32 \<Rightarrow> u32 \<Rightarrow> spu \<Rightarrow> u8 list" where
  "spu_ram_peek addr len s =
     (if addr \<ge> SPU_RAM_SIZE then []
      else let n = (if len > SPU_RAM_SIZE - addr then SPU_RAM_SIZE - addr else len) in map (\<lambda>i. spu_ram s (unat addr + i)) [0 ..< unat n])"

record spu_global_state =
  gs_ctrl :: u16
  gs_main :: "u16 \<times> u16"
  gs_kon_latch :: u32
  gs_koff_latch :: u32
  gs_pmon :: u32
  gs_non :: u32
  gs_eon :: u32
  gs_endx :: u32
  gs_active_mask :: u32

definition reg_pair :: "spu \<Rightarrow> u32 \<Rightarrow> u32" where
  "reg_pair s addr = ucast (spu_regs s (reg_index addr)) OR push_bit 16 (ucast (spu_regs s (reg_index (addr + 2))))"

definition spu_get_global_state :: "spu \<Rightarrow> spu_global_state" where
  "spu_get_global_state s =
     \<lparr> gs_ctrl = spu_regs s (reg_index 0x1F801DAA), gs_main = (spu_regs s (reg_index 0x1F801D80), spu_regs s (reg_index 0x1F801D82)),
       gs_kon_latch = kon_latch s AND 0xFFFFFF, gs_koff_latch = koff_latch s AND 0xFFFFFF, gs_pmon = reg_pair s 0x1F801D90,
       gs_non = reg_pair s 0x1F801D94, gs_eon = reg_pair s 0x1F801D98, gs_endx = endx_latch s AND 0xFFFFFF, gs_active_mask = active_mask s \<rparr>"

end
