(* ===== verification/Spu_Props.thy ===== *)
theory Spu_Props
  imports Spu
begin

text \<open>
  The voices of the sound unit: the rates and levels of the envelopes, the fall of a released voice, and the
  invariant of a voice, which every sample it gives keeps.
\<close>

section \<open>Envelope rates\<close>

lemma shift_power: "(2 :: int) ^ ((0x2F - speed) div 4) \<le> 2048" "(1 :: int) \<le> 2 ^ ((0x2F - speed) div 4)" for speed :: nat
proof -
  have "(2 :: int) ^ ((0x2F - speed) div 4) \<le> 2 ^ 11" by (rule power_increasing) (auto intro: order_trans [OF div_le_mono])
  then show "(2 :: int) ^ ((0x2F - speed) div 4) \<le> 2048" by simp
qed simp

lemma as_s32_id: "- (2 ^ 31) \<le> x \<Longrightarrow> x < 2 ^ 31 \<Longrightarrow> as_s32 x = x"
  by (simp add: as_s32_def signed_take_bit_int_eq_self)

text \<open>The base step of a rate: upwards between 1 and 14336, downwards between -16384 and -1.\<close>

definition rate_step :: "nat \<Rightarrow> bool \<Rightarrow> int" where
  "rate_step speed down =
     (let i = 7 - int (speed mod 4); i = (if down then - i - 1 else i) in if speed < 0x2C then i * 2 ^ ((0x2F - speed) div 4) else i)"

lemma rate_step_bounds:
  "4 \<le> rate_step speed False" "rate_step speed False \<le> 14336" "- 16384 \<le> rate_step speed True" "rate_step speed True \<le> - 5"
  "speed < 0x28 \<Longrightarrow> 16 \<le> rate_step speed False" 
proof -
  let ?p = "(2 :: int) ^ ((0x2F - speed) div 4)"
  have m: "0 \<le> int (speed mod 4)" "int (speed mod 4) \<le> 3" by (auto simp flip: of_nat_mod)
  have up: "4 \<le> (7 - int (speed mod 4)) * ?p" "(7 - int (speed mod 4)) * ?p \<le> 7 * 2048"
    using mult_mono [of 4 "7 - int (speed mod 4)" 1 ?p] mult_mono [of "7 - int (speed mod 4)" 7 ?p 2048] m shift_power [of speed] by auto
  have dn: "5 \<le> (8 - int (speed mod 4)) * ?p" "(8 - int (speed mod 4)) * ?p \<le> 8 * 2048"
    using mult_mono [of 5 "8 - int (speed mod 4)" 1 ?p] mult_mono [of "8 - int (speed mod 4)" 8 ?p 2048] m shift_power [of speed] by auto
  have neg: "(- (7 - int (speed mod 4)) - 1) * ?p = - ((8 - int (speed mod 4)) * ?p)" by (simp add: algebra_simps)
  show "4 \<le> rate_step speed False" "rate_step speed False \<le> 14336"
    using up m by (auto simp: rate_step_def Let_def)
  show "- 16384 \<le> rate_step speed True" "rate_step speed True \<le> - 5"
    using dn m unfolding rate_step_def Let_def if_True neg by auto
  assume "speed < 0x28"
  then have "2 \<le> (0x2F - speed) div 4" by simp
  then have "(2 :: int) ^ 2 \<le> ?p" by (rule power_increasing) simp
  then have "16 \<le> (7 - int (speed mod 4)) * ?p" using mult_mono [of 4 "7 - int (speed mod 4)" 4 ?p] m by auto
  then show "16 \<le> rate_step speed False" using \<open>speed < 0x28\<close> by (simp add: rate_step_def Let_def)
qed

lemma calc_step:
  "calc_vc_delta zs speed log dec down current =
     (let i = rate_step speed down;
          d = (if speed \<ge> 0x30 then 32768 div 2 ^ ((speed - 0x2C) div 4) else 32768);
          (i, d) = (if log then if dec then ((current * i) div 32768, d)
                    else if current mod 32768 \<ge> 0x6000
                    then if speed < 0x28 then (i div 4, d) else if speed \<ge> 0x2C then (i, d div 4) else (i div 2, d div 2)
                    else (i, d) else (i, d))
      in (i, if d = 0 \<and> speed < zs then 1 else d))"
proof -
  have s: "(if speed < 0x2C then as_s32 ((if down then - (7 - int (speed mod 4)) - 1 else 7 - int (speed mod 4)) * 2 ^ ((0x2F - speed) div 4))
      else if down then - (7 - int (speed mod 4)) - 1 else 7 - int (speed mod 4)) = rate_step speed down"
    using rate_step_bounds [of speed] by (cases down; cases "speed < 0x2C") (simp_all add: rate_step_def Let_def as_s32_id)
  show ?thesis unfolding calc_vc_delta_def Let_def s ..
qed

lemma divider_step: "snd (calc_vc_delta zs speed log dec down current) \<le> 32768" "speed < zs \<Longrightarrow> 0 < snd (calc_vc_delta zs speed log dec down current)"
proof -
  have "32768 div 2 ^ k div n \<le> (32768 :: nat)" for k n
    by (meson div_le_dividend order_trans)
  moreover have "32768 div 2 ^ k \<le> (32768 :: nat)" for k by simp
  ultimately show "snd (calc_vc_delta zs speed log dec down current) \<le> 32768" by (auto simp: calc_step Let_def)
  show "0 < snd (calc_vc_delta zs speed log dec down current)" if "speed < zs" using that by (auto simp: calc_step Let_def)
qed

lemma up_step:
  "0 < fst (calc_vc_delta zs speed log False False current)" "fst (calc_vc_delta zs speed log False False current) \<le> 14336"
  using rate_step_bounds [of speed] by (auto simp: calc_step Let_def)

lemma down_step:
  assumes "0 \<le> current" "current < 32768"
  shows "- 16384 \<le> fst (calc_vc_delta zs speed log True True current)" "fst (calc_vc_delta zs speed log True True current) \<le> 0"
    "0 < current \<Longrightarrow> fst (calc_vc_delta zs speed log True True current) < 0"
proof -
  let ?i = "rate_step speed True"
  note b = rate_step_bounds(3,4) [of speed]
  have lo: "- 16384 * 32768 \<le> current * ?i" using b assms mult_mono [of current 32768 "- ?i" 16384] by auto
  have hi: "current * ?i \<le> 0" using b assms by (simp add: mult_nonneg_nonpos)
  have neg: "current * ?i < 0" if "0 < current" using b that by (simp add: mult_pos_neg)
  have eq: "fst (calc_vc_delta zs speed log True True current) = (if log then (current * ?i) div 32768 else ?i)"
    by (simp add: calc_step Let_def)
  show "- 16384 \<le> fst (calc_vc_delta zs speed log True True current)" unfolding eq using lo b by (simp add: int_div_le_self zdiv_mono1 [of "- 16384 * 32768" "current * ?i" 32768, simplified])
  show "fst (calc_vc_delta zs speed log True True current) \<le> 0" unfolding eq using hi b by (simp add: div_nonpos_pos_le0)
  show "fst (calc_vc_delta zs speed log True True current) < 0" if "0 < current"
    unfolding eq using neg [OF that] b by (simp add: div_neg_pos_less0)
qed

section \<open>Levels\<close>

definition env_ok :: "spu_voice \<Rightarrow> bool" where
  "env_ok v \<longleftrightarrow> unat (v_env_level v) < 0x8000 \<and> unat (v_adsr_divider v) < 0x8000 \<and> v_adsr_phase v \<le> 3"

abbreviation level :: "spu_voice \<Rightarrow> int" where "level v \<equiv> int (unat (v_env_level v))"

lemma bit_15_u16: "bit (w :: u16) 15 \<longleftrightarrow> 0x8000 \<le> unat w"
proof -
  have "unat w div 32768 = 0 \<or> unat w div 32768 = 1" using unat_lt_65536 [of w] by auto
  moreover have "bit w 15 \<longleftrightarrow> bit (unat w) 15" by (simp add: bit_unsigned_iff)
  moreover have "bit (unat w) 15 \<longleftrightarrow> odd (unat w div 2 ^ 15)" by (rule bit_iff_odd)
  ultimately show ?thesis by auto
qed

lemma top_bit_u16: "(w :: u16) AND 0x8000 \<noteq> 0 \<longleftrightarrow> 0x8000 \<le> unat w"
  using and_power_two_iff [of w 15] by (simp add: bit_15_u16)

text \<open>The sum of a level and a step, seen as a number: it leaves the range exactly when the top bit is set.\<close>

lemma level_sum:
  fixes w :: u16
  assumes "unat w < 0x8000" "- 16384 \<le> i" "i \<le> 14336"
  shows "(w + word_of_int i) AND 0x8000 \<noteq> 0 \<longleftrightarrow> int (unat w) + i < 0 \<or> 0x8000 \<le> int (unat w) + i"
    "0 \<le> int (unat w) + i \<Longrightarrow> int (unat w) + i < 0x8000 \<Longrightarrow> int (unat (w + word_of_int i)) = int (unat w) + i"
proof -
  let ?x = "int (unat w) + i"
  have m: "int (unat (w + word_of_int i)) = ?x mod 65536"
    by (simp add: uint_word_ariths uint_word_of_int mod_simps flip: uint_nat)
  have "x mod 65536 = (if x < 0 then x + 65536 else x)" if "- 65536 \<le> x" "x < 65536" for x :: int
    using that mod_pos_pos_trivial [of "x + 65536" 65536] by auto
  moreover have "- 65536 \<le> ?x" "?x < 65536" using assms by linarith+
  ultimately have "?x mod 65536 = (if ?x < 0 then ?x + 65536 else ?x)" .
  then have v: "int (unat (w + word_of_int i)) = (if ?x < 0 then ?x + 65536 else ?x)" using m by simp
  then show "0 \<le> ?x \<Longrightarrow> ?x < 0x8000 \<Longrightarrow> int (unat (w + word_of_int i)) = ?x" by simp
  show "(w + word_of_int i) AND 0x8000 \<noteq> 0 \<longleftrightarrow> ?x < 0 \<or> 0x8000 \<le> ?x"
  proof (cases "?x < 0")
    case True
    then have "0x8000 \<le> unat (w + word_of_int i)" using v assms by (simp only: if_True)
    with True show ?thesis by (simp add: top_bit_u16)
  next
    case False
    then have "0x8000 \<le> unat (w + word_of_int i) \<longleftrightarrow> 0x8000 \<le> ?x" using v by (simp only: if_False) linarith
    with False show ?thesis by (simp only: top_bit_u16 simp_thms)
  qed
qed

lemma xor_top:
  fixes w x :: u16
  assumes "unat w < 0x8000"
  shows "(w XOR x) AND x AND 0x8000 \<noteq> 0 \<longleftrightarrow> x AND 0x8000 \<noteq> 0"
proof -
  have "\<not> bit w 15" using assms by (simp add: bit_15_u16)
  then have "bit ((w XOR x) AND x) 15 \<longleftrightarrow> bit x 15" by (simp add: bit_simps)
  then show ?thesis using and_power_two_iff [of "(w XOR x) AND x" 15] and_power_two_iff [of x 15] by (simp add: and.assoc)
qed

text \<open>An update in numbers.\<close>

lemma adsr_update_level:
  assumes "unat (v_env_level v) < 0x8000" "- 16384 \<le> i" "i \<le> 14336"
  shows "v_env_level (adsr_update raw i r v) = (if level v + i < 0 \<or> 0x8000 \<le> level v + i then r else v_env_level v + word_of_int i)"
    "v_adsr_divider (adsr_update raw i r v) = 0"
    "v_adsr_phase (adsr_update raw i r v) = v_adsr_phase v \<or> v_adsr_phase v = 1 \<and> v_adsr_phase (adsr_update raw i r v) = 2"
    "v_adsr_phase v \<noteq> 1 \<Longrightarrow> v_adsr_phase (adsr_update raw i r v) = v_adsr_phase v"
  using xor_top [OF assms(1), of "v_env_level v + word_of_int i"] level_sum(1) [OF assms]
  by (auto simp: adsr_update_def Let_def)

lemma adsr_update_range:
  assumes "unat (v_env_level v) < 0x8000" "- 16384 \<le> i" "i \<le> 14336" "r = 0 \<or> r = 0x7FFF"
  shows "unat (v_env_level (adsr_update raw i r v)) < 0x8000"
proof (cases "level v + i < 0 \<or> 0x8000 \<le> level v + i")
  case True
  then show ?thesis using adsr_update_level(1) [OF assms(1-3), of raw r] assms(4) by auto
next
  case False
  then have "v_env_level (adsr_update raw i r v) = v_env_level v + word_of_int i" using adsr_update_level(1) [OF assms(1-3), of raw r] by simp
  moreover have "int (unat (v_env_level v + word_of_int i)) = level v + i" using level_sum(2) [OF assms(1-3)] False by linarith
  then have "unat (v_env_level v + word_of_int i) < 0x8000" using False by linarith
  ultimately show ?thesis by (simp only:)
qed

text \<open>The step of a phase: where it leads and what it is set to when it overshoots.\<close>

lemma sint_level: "unat (v_env_level v) < 0x8000 \<Longrightarrow> sint (v_env_level v) = level v"
proof -
  assume "unat (v_env_level v) < 0x8000"
  then have "- 32768 \<le> int (unat (v_env_level v))" "int (unat (v_env_level v)) < 32768" by linarith+
  then have "signed_take_bit 15 (int (unat (v_env_level v))) = int (unat (v_env_level v))" by (intro signed_take_bit_int_eq_self) simp_all
  then show ?thesis by (simp add: sint_uint)
qed

lemma adsr_delta_form:
  assumes "adsr_delta raw ph l = Some (i, d, r)"
  obtains zs sp lg where "calc_vc_delta zs sp lg False False l = (i, d)" "r = 0x7FFF" "ph \<noteq> 1" "ph \<noteq> 3"
  | zs sp lg where "calc_vc_delta zs sp lg True True l = (i, d)" "r = 0" "ph \<noteq> 0"
  using assms that by (cases "adsr_field raw 30 1 = 1") (auto simp: adsr_delta_def Let_def split: if_splits prod.splits)

lemma adsr_delta_cases:
  assumes "adsr_delta raw ph l = Some (i, d, r)" "0 \<le> l" "l < 0x8000"
  shows "- 16384 \<le> i" "i \<le> 14336" "d \<le> 32768" "i \<le> 0 \<and> r = 0 \<or> 0 < i \<and> r = 0x7FFF"
    "ph = 0 \<Longrightarrow> 0 < i \<and> r = 0x7FFF" "ph = 1 \<or> ph = 3 \<Longrightarrow> i \<le> 0 \<and> r = 0 \<and> (0 < l \<longrightarrow> i < 0)"
proof -
  have "- 16384 \<le> i \<and> i \<le> 14336 \<and> d \<le> 32768 \<and> (i \<le> 0 \<and> r = 0 \<or> 0 < i \<and> r = 0x7FFF) \<and>
      (ph = 0 \<longrightarrow> 0 < i \<and> r = 0x7FFF) \<and> (ph = 1 \<or> ph = 3 \<longrightarrow> i \<le> 0 \<and> r = 0 \<and> (0 < l \<longrightarrow> i < 0))"
    using assms(1)
  proof (cases rule: adsr_delta_form)
    case (1 zs sp lg)
    then show ?thesis using up_step [of zs sp lg l] divider_step(1) [of zs sp lg False False l] by simp
  next
    case (2 zs sp lg)
    then show ?thesis using down_step [OF assms(2,3), of zs sp lg] divider_step(1) [of zs sp lg True True l] by simp
  qed
  then show "- 16384 \<le> i" "i \<le> 14336" "d \<le> 32768" "i \<le> 0 \<and> r = 0 \<or> 0 < i \<and> r = 0x7FFF"
    "ph = 0 \<Longrightarrow> 0 < i \<and> r = 0x7FFF" "ph = 1 \<or> ph = 3 \<Longrightarrow> i \<le> 0 \<and> r = 0 \<and> (0 < l \<longrightarrow> i < 0)"
    by blast+
qed

text \<open>The divider in numbers: an update is due when it reaches 32768.\<close>

lemma divider_sum:
  fixes w :: u32
  assumes "unat w < 0x8000" "d \<le> 32768"
  shows "unat (w + of_nat d) = unat w + d" "(w + of_nat d) AND 0x8000 \<noteq> 0 \<longleftrightarrow> 0x8000 \<le> unat w + d"
proof -
  show s: "unat (w + of_nat d) = unat w + d"
    using assms by (simp add: unat_word_ariths(1) unat_of_nat take_bit_nat_eq_self)
  have "(unat w + d) div 32768 = 0 \<or> (unat w + d) div 32768 = 1" using assms by auto
  moreover have "bit (w + of_nat d) 15 \<longleftrightarrow> bit (unat (w + of_nat d)) 15" by (simp add: bit_unsigned_iff)
  moreover have "bit (unat w + d) 15 \<longleftrightarrow> odd ((unat w + d) div 2 ^ 15)" by (rule bit_iff_odd)
  ultimately have "bit (w + of_nat d) 15 \<longleftrightarrow> 0x8000 \<le> unat w + d" unfolding s by auto
  then show "(w + of_nat d) AND 0x8000 \<noteq> 0 \<longleftrightarrow> 0x8000 \<le> unat w + d" using and_power_two_iff [of "w + of_nat d" 15] by simp
qed

lemma level_bounds: "env_ok v \<Longrightarrow> 0 \<le> level v" "env_ok v \<Longrightarrow> level v < 0x8000"
proof -
  assume "env_ok v"
  then have "unat (v_env_level v) < 0x8000" by (simp add: env_ok_def)
  then show "level v < 0x8000" by linarith
qed (rule of_nat_0_le_iff)

lemma adsr_run_unfold:
  assumes "env_ok v"
  shows "adsr_run raw v =
     (let u = (if v_adsr_phase v = 0 \<and> v_env_level v = 0x7FFF then v\<lparr> v_adsr_phase := 1 \<rparr> else v)
      in case adsr_delta raw (v_adsr_phase u) (level v) of None \<Rightarrow> u
         | Some (i, d, r) \<Rightarrow> let w = u\<lparr> v_adsr_divider := v_adsr_divider v + of_nat d \<rparr>
             in if 0x8000 \<le> unat (v_adsr_divider v) + d then adsr_update raw i r w else w)"
proof -
  have lv: "sint (v_env_level v) = level v" and dv: "unat (v_adsr_divider v) < 0x8000" using assms sint_level [of v] by (simp_all add: env_ok_def)
  define u where "u = (if v_adsr_phase v = 0 \<and> v_env_level v = 0x7FFF then v\<lparr> v_adsr_phase := 1 \<rparr> else v)"
  have u: "v_env_level u = v_env_level v" "v_adsr_divider u = v_adsr_divider v" by (simp_all add: u_def)
  show ?thesis
  proof (cases "adsr_delta raw (v_adsr_phase u) (level v)")
    case None
    then show ?thesis unfolding adsr_run_def Let_def u_def [symmetric] u lv by simp
  next
    case (Some x)
    obtain i d r where x: "x = (i, d, r)" by (cases x)
    have "d \<le> 32768" using adsr_delta_cases(3) [OF Some [unfolded x] level_bounds [OF assms]] .
    note due = divider_sum(2) [OF dv this]
    show ?thesis unfolding adsr_run_def Let_def u_def [symmetric] u lv Some x by (simp add: u due)
  qed
qed

text \<open>An envelope step keeps the level, the divider and the phase in range, and leaves the rest of the voice alone.\<close>

lemma adsr_run_ok:
  assumes "env_ok v"
  shows "env_ok (adsr_run raw v)"
proof -
  define u where "u = (if v_adsr_phase v = 0 \<and> v_env_level v = 0x7FFF then v\<lparr> v_adsr_phase := 1 \<rparr> else v)"
  have u: "v_env_level u = v_env_level v" "v_adsr_divider u = v_adsr_divider v" "env_ok u"
    using assms by (simp_all add: u_def env_ok_def)
  show ?thesis
  proof (cases "adsr_delta raw (v_adsr_phase u) (level v)")
    case None
    then show ?thesis using u(3) by (simp add: adsr_run_unfold [OF assms] u_def [symmetric])
  next
    case (Some x)
    obtain i d r where x: "x = (i, d, r)" by (cases x)
    note dc = adsr_delta_cases [OF Some [unfolded x] level_bounds [OF assms]]
    let ?w = "u\<lparr> v_adsr_divider := v_adsr_divider v + of_nat d \<rparr>"
    have lw: "unat (v_env_level ?w) < 0x8000" using u(3) by (simp add: env_ok_def)
    have "env_ok (adsr_update raw i r ?w)"
    proof -
      have "unat (v_env_level (adsr_update raw i r ?w)) < 0x8000"
        using dc(4) by (intro adsr_update_range [OF lw dc(1,2)]) auto
      moreover have "v_adsr_phase (adsr_update raw i r ?w) \<le> 3"
        using adsr_update_level(3) [OF lw dc(1,2), of raw r] u(3) by (auto simp: env_ok_def)
      ultimately show ?thesis using adsr_update_level(2) [OF lw dc(1,2)] by (simp add: env_ok_def)
    qed
    moreover have "env_ok ?w" if "unat (v_adsr_divider v) + d < 0x8000"
    proof -
      have "unat (v_adsr_divider v + of_nat d) = unat (v_adsr_divider v) + d"
        using divider_sum(1) [OF _ dc(3)] assms by (simp add: env_ok_def)
      then show ?thesis using that u(3) by (simp add: env_ok_def)
    qed
    ultimately show ?thesis
      unfolding adsr_run_unfold [OF assms] Let_def u_def [symmetric] Some x by simp
  qed
qed

section \<open>Release\<close>

text \<open>What is left of a release: the level, and the part of the divider that the next update waits for.\<close>

definition fade_left :: "spu_voice \<Rightarrow> nat" where
  "fade_left v = unat (v_env_level v) * 0x8000 + (0x8000 - unat (v_adsr_divider v))"

definition release_rate :: "u32 \<Rightarrow> nat" where
  "release_rate raw = adsr_field raw 16 0x1F"

lemma release_delta:
  assumes "release_rate raw < 31" "0 \<le> l" "l < 0x8000"
  obtains i d where "adsr_delta raw 3 l = Some (i, d, 0)" "0 < d" "d \<le> 32768" "- 16384 \<le> i" "i \<le> 0" "0 < l \<Longrightarrow> i < 0"
proof -
  let ?c = "calc_vc_delta 0x7C (release_rate raw * 4) (adsr_field raw 21 1 = 1) True True l"
  have eq: "adsr_delta raw 3 l = Some (fst ?c, snd ?c, 0)" by (simp add: adsr_delta_def release_rate_def Let_def split_beta)
  show ?thesis
    using that [OF eq] divider_step [where zs = "0x7C" and speed = "release_rate raw * 4" and log = "adsr_field raw 21 1 = 1" and dec = True and down = True and current = l]
      down_step [OF assms(2,3), of "0x7C" "release_rate raw * 4" "adsr_field raw 21 1 = 1"] assms(1) by auto
qed

lemma adsr_run_release:
  assumes ok: "env_ok v" and ph: "v_adsr_phase v = 3" and rate: "release_rate raw < 31"
  shows "v_adsr_phase (adsr_run raw v) = 3" "v_env_level v = 0 \<Longrightarrow> v_env_level (adsr_run raw v) = 0"
    "v_env_level (adsr_run raw v) = 0 \<or> fade_left (adsr_run raw v) < fade_left v" "unat (v_env_level (adsr_run raw v)) \<le> unat (v_env_level v)"
proof -
  obtain i d where c: "adsr_delta raw 3 (level v) = Some (i, d, 0)" "0 < d" "d \<le> 32768" "- 16384 \<le> i" "i \<le> 0" "0 < level v \<Longrightarrow> i < 0"
    using release_delta [OF rate level_bounds [OF ok]] by blast
  let ?w = "v\<lparr> v_adsr_divider := v_adsr_divider v + of_nat d \<rparr>"
  have run: "adsr_run raw v = (if 0x8000 \<le> unat (v_adsr_divider v) + d then adsr_update raw i 0 ?w else ?w)"
    using c(1) by (simp add: adsr_run_unfold [OF ok] ph)
  have dv: "unat (v_adsr_divider v) < 0x8000" and lw: "unat (v_env_level ?w) < 0x8000" using ok by (simp_all add: env_ok_def)
  have i: "i \<le> 14336" using c(5) by simp
  have sum: "unat (v_adsr_divider v + of_nat d) = unat (v_adsr_divider v) + d" by (rule divider_sum(1) [OF dv c(3)])
  note up = adsr_update_level [OF lw c(4) i, where raw = raw and r = 0]
  show "v_adsr_phase (adsr_run raw v) = 3" unfolding run using up(4) ph by simp
  show "v_env_level (adsr_run raw v) = 0" if "v_env_level v = 0"
    unfolding run using up(1) that c(5) by auto
  have new: "v_env_level (adsr_update raw i 0 ?w) = 0 \<or>
      int (unat (v_env_level (adsr_update raw i 0 ?w))) = level v + i \<and> 0 \<le> level v + i"
  proof (cases "level v + i < 0 \<or> 0x8000 \<le> level v + i")
    case False
    then have "v_env_level (adsr_update raw i 0 ?w) = v_env_level v + word_of_int i" using up(1) by simp
    moreover have "int (unat (v_env_level v + word_of_int i)) = level v + i" using level_sum(2) [OF lw c(4) i] False by simp
    ultimately show ?thesis using False by simp
  qed (use up(1) in simp)
  define U where "U = adsr_update raw i 0 ?w"
  have le: "unat (v_env_level U) \<le> unat (v_env_level v)" and lt: "v_env_level U = 0 \<or> unat (v_env_level U) < unat (v_env_level v)"
  proof -
    have "v_env_level U = 0 \<or> unat (v_env_level U) \<le> unat (v_env_level v) \<and> (i < 0 \<longrightarrow> unat (v_env_level U) < unat (v_env_level v))"
      using new c(5) unfolding U_def [symmetric] by linarith
    moreover have "i < 0 \<or> unat (v_env_level v) = 0" using c(6) by linarith
    ultimately show "unat (v_env_level U) \<le> unat (v_env_level v)" "v_env_level U = 0 \<or> unat (v_env_level U) < unat (v_env_level v)"
      by (auto simp: unat_eq_0)
  qed
  show "unat (v_env_level (adsr_run raw v)) \<le> unat (v_env_level v)" unfolding run U_def [symmetric] using le by simp
  have "fade_left U < fade_left v" if "unat (v_env_level U) < unat (v_env_level v)"
  proof -
    have "(unat (v_env_level U) + 1) * 0x8000 \<le> unat (v_env_level v) * 0x8000" using that by (intro mult_right_mono) simp_all
    then show ?thesis using dv up(2) unfolding fade_left_def U_def [symmetric] by simp
  qed
  moreover have "fade_left ?w < fade_left v" if "unat (v_adsr_divider v) + d < 0x8000"
    using that c(2) by (simp add: fade_left_def sum)
  ultimately show "v_env_level (adsr_run raw v) = 0 \<or> fade_left (adsr_run raw v) < fade_left v"
    unfolding run U_def [symmetric] using lt by auto
qed

section \<open>Voices\<close>

definition tone_ok :: "spu_voice \<Rightarrow> bool" where
  "tone_ok v \<longleftrightarrow> env_ok v \<and> s16_ok (v_hist1 v) \<and> s16_ok (v_hist2 v) \<and> (\<forall>i. s16_ok (v_samples v i)) \<and>
     v_cur_addr v < 0x80000 \<and> v_repeat_addr v < 0x80000"

definition place_ok :: "nat \<Rightarrow> u32 \<Rightarrow> bool" where
  "place_ok idx ph \<longleftrightarrow> idx \<le> 28 \<and> unat ph < 0x4000 \<and> (idx < 28 \<longrightarrow> unat ph < 0x1000)"

definition voice_ok :: "spu_voice \<Rightarrow> bool" where
  "voice_ok v \<longleftrightarrow> tone_ok v \<and> place_ok (v_sample_idx v) (v_phase v)"

lemma adsr_run_frame [simp]:
  "v_active (adsr_run raw v) = v_active v" "v_cur_addr (adsr_run raw v) = v_cur_addr v" "v_repeat_addr (adsr_run raw v) = v_repeat_addr v"
  "v_samples (adsr_run raw v) = v_samples v" "v_sample_idx (adsr_run raw v) = v_sample_idx v" "v_phase (adsr_run raw v) = v_phase v"
  "v_hist1 (adsr_run raw v) = v_hist1 v" "v_hist2 (adsr_run raw v) = v_hist2 v" "v_flags (adsr_run raw v) = v_flags v"
  by (simp_all add: adsr_run_def adsr_update_def Let_def split: option.splits)

lemma clamp16_s16 [simp]: "s16_ok (clamp16 x)"
  by (simp add: clamp16_def s16_ok_def)

lemma phase_loop_facts:
  assumes "idx < 28" "phase_loop idx ph = (i, ph')"
  shows "idx \<le> i" "i \<le> 28" "i < 28 \<Longrightarrow> unat ph' < 0x1000" "i = 28 \<Longrightarrow> unat ph' + 0x1000 \<le> unat ph" "idx + unat ph div 0x1000 < 28 \<Longrightarrow> i < 28"
proof -
  have "idx \<le> i \<and> i \<le> 28 \<and> (i < 28 \<longrightarrow> unat ph' < 0x1000) \<and> (i = 28 \<longrightarrow> unat ph' + 0x1000 \<le> unat ph) \<and> (idx + unat ph div 0x1000 < 28 \<longrightarrow> i < 28)"
    using assms
  proof (induction idx ph rule: phase_loop.induct)
    case (1 idx ph)
    show ?case
    proof (cases "0x1000 \<le> ph")
      case False
      then show ?thesis using "1.prems" by (simp add: word_le_nat_alt)
    next
      case True
      then have u: "unat (ph - 0x1000) = unat ph - 0x1000" "0x1000 \<le> unat ph" by (simp_all add: unat_sub_le word_le_nat_alt)
      have dv: "unat ph div 0x1000 = Suc ((unat ph - 0x1000) div 0x1000)" using u(2) by (simp add: le_div_geq)
      show ?thesis
      proof (cases "28 \<le> Suc idx")
        case True
        then show ?thesis using "1.prems" \<open>0x1000 \<le> ph\<close> u dv by auto
      next
        case False
        then have "phase_loop (Suc idx) (ph - 0x1000) = (i, ph')" using "1.prems" \<open>0x1000 \<le> ph\<close> by simp
        from "1.IH" [OF \<open>0x1000 \<le> ph\<close> False _ this] False show ?thesis using u dv by auto
      qed
    qed
  qed
  then show "idx \<le> i" "i \<le> 28" "i < 28 \<Longrightarrow> unat ph' < 0x1000" "i = 28 \<Longrightarrow> unat ph' + 0x1000 \<le> unat ph" "idx + unat ph div 0x1000 < 28 \<Longrightarrow> i < 28"
    by blast+
qed

declare phase_loop.simps [simp del]

lemma voice_pitch_bound: "unat (voice_pitch s idx) < 0x4000" "0 < unat (voice_pitch s idx)"
proof -
  have "(ucast (voice_reg s idx 2) :: u32) AND 0x3FFF \<le> 0x3FFF" by (rule word_and_le1)
  then show "unat (voice_pitch s idx) < 0x4000" by (auto simp: voice_pitch_def Let_def word_le_nat_alt)
  show "0 < unat (voice_pitch s idx)" by (simp add: voice_pitch_def Let_def unat_gt_0)
qed

text \<open>The fields of a voice after a block has been decoded.\<close>

lemma block_steps_frame:
  "v_active (fold (block_step m a) is v) = v_active v" "v_cur_addr (fold (block_step m a) is v) = v_cur_addr v"
  "v_repeat_addr (fold (block_step m a) is v) = v_repeat_addr v" "v_phase (fold (block_step m a) is v) = v_phase v"
  "v_env_level (fold (block_step m a) is v) = v_env_level v" "v_adsr_divider (fold (block_step m a) is v) = v_adsr_divider v"
  "v_adsr_phase (fold (block_step m a) is v) = v_adsr_phase v"
  by (induction "is" arbitrary: v) (simp_all add: block_step_def Let_def)

lemma block_steps_s16:
  assumes "s16_ok (v_hist1 v)" "s16_ok (v_hist2 v)" "\<And>i. s16_ok (v_samples v i)"
  shows "s16_ok (v_hist1 (fold (block_step m a) is v)) \<and> s16_ok (v_hist2 (fold (block_step m a) is v)) \<and>
    (\<forall>i. s16_ok (v_samples (fold (block_step m a) is v) i))"
  using assms
proof (induction "is" arbitrary: v)
  case (Cons i "is")
  show ?case using Cons.prems by (simp, intro Cons.IH) (simp_all add: block_step_def spu_sample_def Let_def)
qed simp

lemma ram_wrap: "(a :: u32) AND 0x7FFFF < 0x80000"
  using word_and_le1 [of a "0x7FFFF"] by (simp add: word_le_nat_alt word_less_nat_alt)

text \<open>A block lies inside sample RAM.\<close>

lemma block_in_ram: "unat (block_addr v) + 16 \<le> 0x80000"
proof -
  let ?a = "v_cur_addr v AND 0x7FFFF"
  have "unat ?a < 0x80000" using ram_wrap [of "v_cur_addr v"] by (simp add: word_less_nat_alt)
  then have "unat (?a + 16) = unat ?a + 16" by (simp add: unat_word_ariths(1))
  then show ?thesis by (auto simp: block_addr_def Let_def word_less_nat_alt)
qed

lemma block_addr_lt: "block_addr v < 0x80000"
  using block_in_ram [of v] by (simp add: word_less_nat_alt)

lemma upd_voice_simps [simp]:
  "voices (upd_voice i f s) = (voices s)(i := f (voices s i))" "spu_regs (upd_voice i f s) = spu_regs s" "spu_ram (upd_voice i f s) = spu_ram s"
  by (simp_all add: upd_voice_def)

lemma event_record_simps [simp]:
  "voices (spu_event_record fr k i a s) = voices s" "spu_regs (spu_event_record fr k i a s) = spu_regs s" "spu_ram (spu_event_record fr k i a s) = spu_ram s"
  by (simp_all add: spu_event_record_def)

lemma decode_block_voice:
  fixes idx :: nat and s :: spu
  defines "v \<equiv> voices s idx" and "w \<equiv> voices (decode_block idx s) idx"
  shows "v_active w = v_active v" "v_phase w = v_phase v" "v_env_level w = v_env_level v" "v_adsr_divider w = v_adsr_divider v"
    "v_adsr_phase w = v_adsr_phase v" "v_sample_idx w = 0" "j \<noteq> idx \<Longrightarrow> voices (decode_block idx s) j = voices s j" "tone_ok v \<Longrightarrow> tone_ok w"
proof -
  show "v_active w = v_active v" "v_phase w = v_phase v" "v_env_level w = v_env_level v" "v_adsr_divider w = v_adsr_divider v"
    "v_adsr_phase w = v_adsr_phase v" "v_sample_idx w = 0" "j \<noteq> idx \<Longrightarrow> voices (decode_block idx s) j = voices s j"
    by (simp_all add: v_def w_def decode_block_def Let_def block_steps_frame)
  assume "tone_ok v"
  then show "tone_ok w"
    using block_steps_s16 [of v "spu_ram s" "unat (block_addr v)" "[0 ..< 28]"] block_addr_lt [of v] ram_wrap [of "block_addr v + 16"]
    by (simp add: tone_ok_def env_ok_def v_def w_def decode_block_def Let_def block_steps_frame)
qed

lemma block_end_voice:
  fixes idx :: nat and s :: spu and fr :: u64
  defines "v \<equiv> voices s idx" and "w \<equiv> voices (block_end fr idx s) idx"
  shows "v_active w = v_active v" "v_phase w = v_phase v" "v_sample_idx w = v_sample_idx v" "j \<noteq> idx \<Longrightarrow> voices (block_end fr idx s) j = voices s j"
    "tone_ok v \<Longrightarrow> tone_ok w" "spu_regs (block_end fr idx s) = spu_regs s" "spu_ram (block_end fr idx s) = spu_ram s"
    "v_env_level w = v_env_level v \<and> v_adsr_divider w = v_adsr_divider v \<and> v_adsr_phase w = v_adsr_phase v \<or>
     v_env_level w = 0 \<and> v_adsr_divider w = 0 \<and> v_adsr_phase w = 3"
  using ram_wrap [of "v_repeat_addr v"]
  by (auto simp: v_def w_def block_end_def Let_def tone_ok_def env_ok_def)

text \<open>The voice that is sampled: a new block has been fetched when the last one was used up.\<close>

definition fetched :: "u64 \<Rightarrow> nat \<Rightarrow> spu \<Rightarrow> spu" where
  "fetched fr idx s = (if v_sample_idx (voices s idx) \<ge> 28 then decode_block idx (block_end fr idx s) else s)"

lemma decode_regs: "spu_regs (decode_block idx s) k = spu_regs s k \<or> k = idx * 8 + 7" "spu_ram (decode_block idx s) = spu_ram s"
  by (auto simp: decode_block_def Let_def)

lemma fetched_voice:
  fixes idx :: nat and s :: spu and fr :: u64
  defines "v \<equiv> voices s idx" and "w \<equiv> voices (fetched fr idx s) idx"
  assumes ok: "voice_ok v"
  shows "v_active w = v_active v" "tone_ok w" "v_sample_idx w < 28" "v_phase w = v_phase v" "unat (v_phase w) < 0x4000"
    "v_sample_idx w = 0 \<or> unat (v_phase w) < 0x1000" "j \<noteq> idx \<Longrightarrow> voices (fetched fr idx s) j = voices s j"
    "k \<noteq> idx * 8 + 7 \<Longrightarrow> spu_regs (fetched fr idx s) k = spu_regs s k"
    "v_env_level w = v_env_level v \<and> v_adsr_divider w = v_adsr_divider v \<and> v_adsr_phase w = v_adsr_phase v \<or>
     v_env_level w = 0 \<and> v_adsr_divider w = 0 \<and> v_adsr_phase w = 3"
proof -
  let ?s1 = "block_end fr idx s"
  note e = block_end_voice [where idx = idx and s = s and fr = fr, folded v_def] and d = decode_block_voice [where idx = idx and s = ?s1] and r = decode_regs [where idx = idx and s = ?s1]
  show "v_active w = v_active v" "tone_ok w" "v_sample_idx w < 28" "v_phase w = v_phase v" "unat (v_phase w) < 0x4000"
    "v_sample_idx w = 0 \<or> unat (v_phase w) < 0x1000" "j \<noteq> idx \<Longrightarrow> voices (fetched fr idx s) j = voices s j"
    "k \<noteq> idx * 8 + 7 \<Longrightarrow> spu_regs (fetched fr idx s) k = spu_regs s k"
    "v_env_level w = v_env_level v \<and> v_adsr_divider w = v_adsr_divider v \<and> v_adsr_phase w = v_adsr_phase v \<or>
     v_env_level w = 0 \<and> v_adsr_divider w = 0 \<and> v_adsr_phase w = 3"
    using ok e d(1-6,8) d(7) [where j = j] r(1) [where k = k] by (auto simp: w_def v_def fetched_def voice_ok_def place_ok_def)
qed

lemma next_sample_eq:
  assumes "v_active (voices s idx)"
  shows "voice_next_sample fr idx s =
     (let t = fetched fr idx s; v1 = adsr_run (adsr_raw t idx) (voices t idx);
          v2 = (if v_adsr_phase v1 = 3 \<and> v_env_level v1 = 0 then v1\<lparr> v_active := False \<rparr> else v1);
          (i, ph) = phase_loop (v_sample_idx v2) (v_phase v2 + voice_pitch t idx)
      in (shape (voices t idx), upd_voice idx (\<lambda>_. v2\<lparr> v_sample_idx := i, v_phase := ph \<rparr>) t))"
  using assms by (simp add: voice_next_sample_def fetched_def Let_def)

lemma next_place:
  assumes "idx < 28" "unat ph < 0x4000" "idx = 0 \<or> unat ph < 0x1000" "unat pitch < 0x4000" "phase_loop idx (ph + pitch) = (i, ph')"
  shows "place_ok i ph'"
proof -
  have u: "unat (ph + pitch) = unat ph + unat pitch" using assms by (simp add: unat_word_ariths(1))
  note f = phase_loop_facts [OF assms(1,5)]
  show ?thesis
  proof (cases "i < 28")
    case True
    then show ?thesis using f by (simp add: place_ok_def)
  next
    case False
    then have i: "i = 28" using f(2) by simp
    have "unat ph < 0x1000"
    proof (rule ccontr)
      assume "\<not> unat ph < 0x1000"
      then have "idx = 0" "unat (ph + pitch) < 0x8000" using assms u by auto
      then have "idx + unat (ph + pitch) div 0x1000 < 28" by simp
      then show False using f(5) i by simp
    qed
    then show ?thesis using f(4) [OF i] i u assms(4) by (simp add: place_ok_def)
  qed
qed

lemma next_sample_ok:
  assumes "voice_ok (voices s idx)"
  shows "voice_ok (voices (snd (voice_next_sample fr idx s)) idx)" "s16_ok (fst (voice_next_sample fr idx s))"
    "j \<noteq> idx \<Longrightarrow> voices (snd (voice_next_sample fr idx s)) j = voices s j"
proof -
  show "s16_ok (fst (voice_next_sample fr idx s))"
    by (simp add: voice_next_sample_def Let_def split_beta shape_def) (simp add: s16_ok_def)
  show "j \<noteq> idx \<Longrightarrow> voices (snd (voice_next_sample fr idx s)) j = voices s j"
    using fetched_voice(7) [OF assms, of j fr] by (cases "v_active (voices s idx)") (simp_all add: next_sample_eq Let_def split_beta, simp add: voice_next_sample_def)
  show "voice_ok (voices (snd (voice_next_sample fr idx s)) idx)"
  proof (cases "v_active (voices s idx)")
    case True
    note f = fetched_voice [OF assms, where fr = fr]
    let ?t = "fetched fr idx s"
    let ?v1 = "adsr_run (adsr_raw ?t idx) (voices ?t idx)"
    obtain i ph where l: "phase_loop (v_sample_idx (voices ?t idx)) (v_phase (voices ?t idx) + voice_pitch ?t idx) = (i, ph)" by fastforce
    have "place_ok i ph" using next_place [OF f(3,5,6) voice_pitch_bound(1) l] .
    moreover have "tone_ok ?v1" using f(2) adsr_run_ok [of "voices ?t idx"] by (simp add: tone_ok_def)
    ultimately show ?thesis using l by (auto simp: next_sample_eq [OF True] Let_def voice_ok_def tone_ok_def env_ok_def)
  next
    case False
    then show ?thesis using assms by (simp add: voice_next_sample_def)
  qed
qed

section \<open>A released voice falls silent\<close>

lemma adsr_raw_regs: "(\<And>k. k \<noteq> idx * 8 + 7 \<Longrightarrow> spu_regs t k = spu_regs s k) \<Longrightarrow> adsr_raw t idx = adsr_raw s idx"
  by (simp add: adsr_raw_def voice_reg_def)

lemma adsr_raw_upd [simp]: "adsr_raw (upd_voice i f s) idx = adsr_raw s idx"
  by (simp add: adsr_raw_def voice_reg_def)

lemma next_sample_release:
  fixes s :: spu and idx :: nat and fr :: u64
  assumes ok: "voice_ok (voices s idx)" and act: "v_active (voices s idx)" and ph: "v_adsr_phase (voices s idx) = 3"
    and rate: "release_rate (adsr_raw s idx) < 31"
  defines "t \<equiv> snd (voice_next_sample fr idx s)"
  shows "v_adsr_phase (voices t idx) = 3" "adsr_raw t idx = adsr_raw s idx" "\<not> v_active (voices t idx) \<or> fade_left (voices t idx) < fade_left (voices s idx)"
    "unat (v_env_level (voices t idx)) \<le> unat (v_env_level (voices s idx))"
proof -
  let ?u = "fetched fr idx s"
  let ?v = "voices ?u idx"
  note f = fetched_voice [OF ok, where fr = fr]
  have raw: "adsr_raw ?u idx = adsr_raw s idx" by (rule adsr_raw_regs) (rule f(8))
  define v1 where "v1 = adsr_run (adsr_raw s idx) ?v"
  have env: "env_ok ?v" using f(2) by (simp add: tone_ok_def)
  have ph3: "v_adsr_phase ?v = 3" using f(9) ph by auto
  note r = adsr_run_release [OF env ph3 rate, folded v1_def]
  obtain i q where l: "phase_loop (v_sample_idx ?v) (v_phase ?v + voice_pitch ?u idx) = (i, q)" by fastforce
  have t: "voices t idx = (if v_env_level v1 = 0 then v1\<lparr> v_active := False \<rparr> else v1)\<lparr> v_sample_idx := i, v_phase := q \<rparr>"
    using r(1) by (simp add: t_def next_sample_eq [OF act] Let_def raw v1_def l)
  have traw: "adsr_raw t idx = adsr_raw s idx" by (simp add: t_def next_sample_eq [OF act] Let_def split_beta raw)
  show "v_adsr_phase (voices t idx) = 3" "adsr_raw t idx = adsr_raw s idx" using t r(1) traw by simp_all
  show "unat (v_env_level (voices t idx)) \<le> unat (v_env_level (voices s idx))"
    using t r(4) f(9) by auto
  have "v_env_level v1 = 0 \<or> fade_left v1 < fade_left (voices s idx)"
    using r(2,3) f(9) by (auto simp: fade_left_def)
  then show "\<not> v_active (voices t idx) \<or> fade_left (voices t idx) < fade_left (voices s idx)"
    unfolding t by (auto simp: fade_left_def)
qed

lemma fade_bound: "env_ok v \<Longrightarrow> fade_left v \<le> 2 ^ 30"
proof -
  assume "env_ok v"
  then have "unat (v_env_level v) \<le> 0x7FFF" by (simp add: env_ok_def)
  then have "unat (v_env_level v) * 0x8000 \<le> 0x7FFF * 0x8000" by (intro mult_right_mono) simp_all
  then show ?thesis unfolding fade_left_def by simp
qed

end
