(* ===== verification/Spu_Queue.thy ===== *)
theory Spu_Queue
  imports Spu Ring_Log
begin

text \<open>
  The CD input of the sound unit as a queue. The locale \<open>lossy_queue\<close> is the contract of a bounded buffer that
  loses its oldest elements when new ones do not fit; the ring of spu.c implements it. Ring positions are handled
  by the ring contract of Ring_Log.
\<close>

section \<open>The contract\<close>

definition latest :: "nat \<Rightarrow> 'a list \<Rightarrow> 'a list" where
  "latest n xs = drop (length xs - n) xs"

lemma latest_short [simp]: "length xs \<le> n \<Longrightarrow> latest n xs = xs"
  by (simp add: latest_def)

datatype 'a queue_op = Push "'a list" | Pop

text \<open>A run of operations: what was popped, and the state reached. It fits when no push loses anything.\<close>

primrec queue_run :: "('a list \<Rightarrow> 's \<Rightarrow> 's) \<Rightarrow> ('s \<Rightarrow> 'a option \<times> 's) \<Rightarrow> 'a queue_op list \<Rightarrow> 's \<Rightarrow> 'a list \<times> 's" where
  "queue_run push pop [] s = ([], s)"
| "queue_run push pop (x # ops) s =
     (case x of Push xs \<Rightarrow> queue_run push pop ops (push xs s)
      | Pop \<Rightarrow> (let (y, t) = pop s; (ys, u) = queue_run push pop ops t in (case y of None \<Rightarrow> ys | Some z \<Rightarrow> z # ys, u)))"

fun queue_fits :: "nat \<Rightarrow> nat \<Rightarrow> 'a queue_op list \<Rightarrow> bool" where
  "queue_fits cap n [] = True"
| "queue_fits cap n (Push xs # ops) = (n + length xs \<le> cap \<and> queue_fits cap (n + length xs) ops)"
| "queue_fits cap n (Pop # ops) = queue_fits cap (n - 1) ops"

definition queue_pushed :: "'a queue_op list \<Rightarrow> 'a list" where
  "queue_pushed ops = concat (map (\<lambda>x. case x of Push xs \<Rightarrow> xs | Pop \<Rightarrow> []) ops)"

locale lossy_queue =
  fixes cap :: nat
    and ok :: "'s \<Rightarrow> bool"
    and contents :: "'s \<Rightarrow> 'a list"
    and push :: "'a list \<Rightarrow> 's \<Rightarrow> 's"
    and pop :: "'s \<Rightarrow> 'a option \<times> 's"
  assumes push_ok: "ok s \<Longrightarrow> ok (push xs s)"
    and pop_ok: "ok s \<Longrightarrow> ok (snd (pop s))"
    and contents_le: "ok s \<Longrightarrow> length (contents s) \<le> cap"
    and contents_push: "ok s \<Longrightarrow> contents (push xs s) = latest cap (contents s @ xs)"
    and pop_empty: "ok s \<Longrightarrow> contents s = [] \<Longrightarrow> fst (pop s) = None \<and> contents (snd (pop s)) = []"
    and pop_head: "ok s \<Longrightarrow> contents s = x # q \<Longrightarrow> fst (pop s) = Some x \<and> contents (snd (pop s)) = q"
begin

text \<open>While nothing is lost, what comes out is what went in, in order; the rest is still inside.\<close>

lemma run_in_order:
  "ok s \<Longrightarrow> queue_fits cap (length (contents s)) ops \<Longrightarrow>
   fst (queue_run push pop ops s) @ contents (snd (queue_run push pop ops s)) = contents s @ queue_pushed ops"
proof (induction ops arbitrary: s)
  case (Cons x ops)
  show ?case
  proof (cases x)
    case (Push xs)
    then show ?thesis using Cons push_ok [of s xs] contents_push [of s xs] by (simp add: queue_pushed_def)
  next
    case Pop
    show ?thesis
    proof (cases "contents s")
      case Nil
      then show ?thesis using Cons Pop pop_ok [of s] pop_empty [of s] by (simp add: queue_pushed_def split_beta Let_def)
    next
      case (Cons y q)
      then show ?thesis using Cons.IH Cons.prems Pop pop_ok [of s] pop_head [of s y q] by (simp add: queue_pushed_def split_beta Let_def)
    qed
  qed
qed (simp add: queue_pushed_def)

end

section \<open>The ring\<close>

definition store_frame :: "int \<times> int \<Rightarrow> spu \<Rightarrow> spu" where
  "store_frame f s = s\<lparr> cd_ring := (cd_ring s)(unat (cd_write_pos s) := f), cd_write_pos := (cd_write_pos s + 1) mod SPU_CD_RING_FRAMES \<rparr>"

lemma cd_store_fold: "cd_store fs s = fold store_frame fs s"
  by (induction fs arbitrary: s) (simp_all add: store_frame_def)

interpretation cd_frames: ring_log
  352800
  "\<lambda>s. unat (cd_write_pos s) < 352800"
  "\<lambda>s. unat (cd_write_pos s)"
  cd_ring
  store_frame
  "\<lambda>f s. f"
proof unfold_locales
  fix s :: spu and x
  assume "unat (cd_write_pos s) < 352800"
  then show "unat (cd_write_pos (store_frame x s)) = Suc (unat (cd_write_pos s)) mod 352800"
    by (simp add: store_frame_def unat_mod unat_word_ariths(1))
qed (auto simp: store_frame_def unat_mod)

lemma store_frames_keep [simp]:
  "cd_read_pos (fold store_frame fs s) = cd_read_pos s" "cd_frame_count (fold store_frame fs s) = cd_frame_count s"
  "cd_push_frames (fold store_frame fs s) = cd_push_frames s"
  by (induction fs arbitrary: s) (simp_all add: store_frame_def)

definition ring_ok :: "spu \<Rightarrow> bool" where
  "ring_ok s \<longleftrightarrow> unat (cd_read_pos s) < 352800 \<and> unat (cd_frame_count s) \<le> 352800 \<and>
     unat (cd_write_pos s) = (unat (cd_read_pos s) + unat (cd_frame_count s)) mod 352800"

definition cd_queue :: "spu \<Rightarrow> pcm" where
  "cd_queue s = map (\<lambda>i. cd_ring s ((unat (cd_read_pos s) + i) mod 352800)) [0 ..< unat (cd_frame_count s)]"

lemma length_cd_queue [simp]: "length (cd_queue s) = unat (cd_frame_count s)"
  by (simp add: cd_queue_def)

lemma ring_ok_length: "ring_ok s \<Longrightarrow> unat (cd_frame_count s) \<le> 352800"
  by (simp add: ring_ok_def)

lemma distinct_positions:
  assumes "i < j" "j < i + c"
  shows "(r + i) mod c \<noteq> (r + j) mod (c :: nat)"
proof
  assume "(r + i) mod c = (r + j) mod c"
  then have "c dvd r + j - (r + i)" using assms(1) by (metis add_le_cancel_left less_imp_le mod_eq_dvd_iff_nat)
  then have "c dvd j - i" by simp
  then show False using assms by (auto dest: dvd_imp_le)
qed

text \<open>Frames that fit are appended.\<close>

lemma store_appends:
  assumes "ring_ok s" "unat (cd_frame_count s) + length fs \<le> 352800"
  shows "cd_queue ((fold store_frame fs s)\<lparr> cd_frame_count := cd_frame_count s + of_nat (length fs) \<rparr>) = cd_queue s @ fs"
    "ring_ok ((fold store_frame fs s)\<lparr> cd_frame_count := cd_frame_count s + of_nat (length fs) \<rparr>)"
proof -
  let ?n = "unat (cd_frame_count s)" and ?r = "unat (cd_read_pos s)" and ?t = "fold store_frame fs s"
  have okw: "unat (cd_write_pos s) < 352800" and w: "unat (cd_write_pos s) = (?r + ?n) mod 352800" using assms(1) by (simp_all add: ring_ok_def)
  have cnt: "unat (cd_frame_count s + of_nat (length fs)) = ?n + length fs"
    using assms(2) by (simp add: unat_word_ariths(1) unat_of_nat take_bit_nat_eq_self)
  have old: "cd_ring ?t ((?r + i) mod 352800) = cd_ring s ((?r + i) mod 352800)" if "i < ?n" for i
  proof (rule cd_frames.notes_keep_distant [OF okw])
    fix j assume "j < length fs"
    then have "(?r + i) mod 352800 \<noteq> (?r + (?n + j)) mod 352800" using that assms(2) by (intro distinct_positions) auto
    then show "(?r + i) mod 352800 \<noteq> (unat (cd_write_pos s) + j) mod 352800" by (simp add: w mod_simps add.assoc)
  qed
  have new: "cd_ring ?t ((?r + (?n + j)) mod 352800) = fs ! j" if "j < length fs" for j
    using cd_frames.entry_retained [OF okw that] assms(2) by (simp add: w mod_simps add.assoc)
  have new': "cd_ring ?t ((?r + i) mod 352800) = fs ! (i - ?n)" if "\<not> i < ?n" "i < ?n + length fs" for i
    using new [of "i - ?n"] that by simp
  have q: "cd_queue (?t\<lparr> cd_frame_count := cd_frame_count s + of_nat (length fs) \<rparr>) = map (\<lambda>i. cd_ring ?t ((?r + i) mod 352800)) [0 ..< ?n + length fs]"
    by (simp add: cd_queue_def cnt)
  show "cd_queue (?t\<lparr> cd_frame_count := cd_frame_count s + of_nat (length fs) \<rparr>) = cd_queue s @ fs"
    unfolding q by (rule nth_equalityI) (auto simp: cd_queue_def nth_append old new')
  show "ring_ok (?t\<lparr> cd_frame_count := cd_frame_count s + of_nat (length fs) \<rparr>)"
    using assms(1,2) cd_frames.head_notes [OF okw, of fs] by (simp add: ring_ok_def cnt w mod_simps add.assoc)
qed

text \<open>Making room drops the oldest frames.\<close>

lemma make_room:
  assumes "ring_ok s" "unat n \<le> 352800"
  shows "ring_ok (cd_make_room n s)" "cd_queue (cd_make_room n s) = latest (352800 - unat n) (cd_queue s)"
    "unat (cd_frame_count (cd_make_room n s)) + unat n \<le> 352800"
proof -
  let ?c = "unat (cd_frame_count s)" and ?r = "unat (cd_read_pos s)"
  have b: "?r < 352800" "?c \<le> 352800" "unat (cd_write_pos s) = (?r + ?c) mod 352800" using assms(1) by (simp_all add: ring_ok_def)
  have sum: "unat (cd_frame_count s + n) = ?c + unat n" using b assms(2) by (simp add: unat_word_ariths(1))
  have "ring_ok (cd_make_room n s) \<and> cd_queue (cd_make_room n s) = latest (352800 - unat n) (cd_queue s) \<and>
      unat (cd_frame_count (cd_make_room n s)) + unat n \<le> 352800"
  proof (cases "352800 < ?c + unat n")
    case False
    then have "cd_make_room n s = s" by (simp add: cd_make_room_def word_less_nat_alt sum)
    then show ?thesis using assms(1) False by simp
  next
    case True
    define d where "d = cd_frame_count s + n - 352800"
    have du: "unat d = ?c + unat n - 352800" using True by (simp add: d_def unat_sub_le word_le_nat_alt sum)
    have dle: "unat d \<le> ?c" using du assms(2) by simp
    have dc: "unat (cd_frame_count s - d) = ?c - unat d" using du True assms(2) b(2) by (simp add: unat_sub_le word_le_nat_alt)
    have rd: "unat ((cd_read_pos s + d) mod 352800) = (?r + unat d) mod 352800"
      using b du assms(2) by (simp add: unat_mod unat_word_ariths(1))
    have room: "cd_make_room n s = s\<lparr> cd_read_pos := (cd_read_pos s + d) mod 352800, cd_frame_count := cd_frame_count s - d,
        cd_overflow_frames := cd_overflow_frames s + ucast d \<rparr>"
      using True by (simp add: cd_make_room_def word_less_nat_alt sum d_def Let_def)
    have q: "cd_queue (cd_make_room n s) = drop (unat d) (cd_queue s)"
      unfolding room by (rule nth_equalityI) (auto simp: cd_queue_def dc rd mod_simps add.assoc)
    have "((?r + unat d) mod 352800 + (?c - unat d)) mod 352800 = (?r + ?c) mod 352800"
      by (subst mod_add_left_eq) (use dle in simp)
    then have "ring_ok (cd_make_room n s)"
      unfolding room using b dle by (simp add: ring_ok_def dc rd)
    moreover have "unat d = length (cd_queue s) - (352800 - unat n)" using du True assms(2) by simp
    ultimately show ?thesis using q du True assms(2) b(2) unfolding latest_def by (simp add: room dc)
  qed
  then show "ring_ok (cd_make_room n s)" "cd_queue (cd_make_room n s) = latest (352800 - unat n) (cd_queue s)"
    "unat (cd_frame_count (cd_make_room n s)) + unat n \<le> 352800" by blast+
qed

lemma queue_counters [simp]:
  "cd_queue (s\<lparr> cd_overflow_frames := a \<rparr>) = cd_queue s" "cd_queue (s\<lparr> cd_push_frames := b \<rparr>) = cd_queue s"
  "ring_ok (s\<lparr> cd_overflow_frames := a \<rparr>) = ring_ok s" "ring_ok (s\<lparr> cd_push_frames := b \<rparr>) = ring_ok s"
  by (simp_all add: cd_queue_def ring_ok_def)

lemma push_refines:
  assumes "ring_ok s"
  shows "ring_ok (spu_cd_audio_push fs s)" "cd_queue (spu_cd_audio_push fs s) = latest 352800 (cd_queue s @ fs)"
proof -
  have le: "unat (cd_frame_count s) \<le> 352800" using assms by (simp add: ring_ok_def)
  have "ring_ok (spu_cd_audio_push fs s) \<and> cd_queue (spu_cd_audio_push fs s) = latest 352800 (cd_queue s @ fs)"
  proof (cases "fs = []")
    case True
    then show ?thesis using assms le by (simp add: spu_cd_audio_push_def)
  next
    case False
    define k where "k = length fs - 352800"
    define gs where "gs = drop k fs"
    define s0 where "s0 = (if length fs > 352800 then s\<lparr> cd_overflow_frames := cd_overflow_frames s + of_nat k \<rparr> else s)"
    have s0: "ring_ok s0" "cd_queue s0 = cd_queue s" using assms by (simp_all add: s0_def)
    have n: "length gs \<le> 352800" by (simp add: gs_def k_def)
    then have u: "unat (of_nat (length gs) :: u32) = length gs" by (simp add: unat_of_nat take_bit_nat_eq_self)
    note room = make_room [OF s0(1), of "of_nat (length gs)", unfolded u, OF n]
    let ?m = "cd_make_room (of_nat (length gs)) s0"
    have push: "spu_cd_audio_push fs s = (let t = fold store_frame gs ?m in t\<lparr> cd_frame_count := cd_frame_count t + of_nat (length gs),
        cd_push_frames := cd_push_frames t + ucast (of_nat (length gs) :: u32) \<rparr>)"
      using False by (simp add: spu_cd_audio_push_def Let_def cd_store_fold k_def gs_def s0_def)
    note app = store_appends [OF room(1,3)]
    have "latest (352800 - length gs) (cd_queue s) @ gs = latest 352800 (cd_queue s @ fs)"
      using le by (cases "length fs \<le> 352800") (auto simp: latest_def gs_def k_def)
    then show ?thesis
      unfolding push Let_def using app room(2) s0(2) by (simp add: cd_queue_def ring_ok_def)
  qed
  then show "ring_ok (spu_cd_audio_push fs s)" "cd_queue (spu_cd_audio_push fs s) = latest 352800 (cd_queue s @ fs)" by blast+
qed

lemma pop_refines:
  assumes "ring_ok s"
  shows "ring_ok (snd (cd_audio_pop s))" "cd_queue s = [] \<Longrightarrow> cd_audio_pop s = (None, s)"
    "cd_queue s = x # q \<Longrightarrow> fst (cd_audio_pop s) = Some x \<and> cd_queue (snd (cd_audio_pop s)) = q"
proof -
  let ?c = "unat (cd_frame_count s)" and ?r = "unat (cd_read_pos s)"
  have b: "?r < 352800" "?c \<le> 352800" "unat (cd_write_pos s) = (?r + ?c) mod 352800" using assms by (simp_all add: ring_ok_def)
  have rd: "unat ((cd_read_pos s + 1) mod 352800) = (?r + 1) mod 352800" using b(1) by (simp add: unat_mod unat_word_ariths(1))
  have dec: "unat (cd_frame_count s - 1) = ?c - 1" if "cd_frame_count s \<noteq> 0"
    using that by (simp add: unat_minus_one)
  have pos: "0 < ?c" if "cd_frame_count s \<noteq> 0" using that by (simp add: unat_gt_0)
  show "ring_ok (snd (cd_audio_pop s))"
    using b assms pos by (auto simp: cd_audio_pop_def ring_ok_def rd dec mod_simps)
  show "cd_queue s = [] \<Longrightarrow> cd_audio_pop s = (None, s)" by (simp add: cd_queue_def cd_audio_pop_def unat_eq_0)
  assume q: "cd_queue s = x # q"
  then have nz: "cd_frame_count s \<noteq> 0" by (auto simp: cd_queue_def)
  have "cd_queue s = cd_ring s ?r # map (\<lambda>i. cd_ring s ((?r + Suc i) mod 352800)) [0 ..< ?c - 1]"
    using pos [OF nz] b(1) by (cases ?c) (simp_all add: cd_queue_def upt_conv_Cons map_Suc_upt [symmetric] del: upt_Suc)
  then have "x = cd_ring s ?r" "q = map (\<lambda>i. cd_ring s ((?r + Suc i) mod 352800)) [0 ..< ?c - 1]" using q by simp_all
  then show "fst (cd_audio_pop s) = Some x \<and> cd_queue (snd (cd_audio_pop s)) = q"
    using nz by (simp add: cd_audio_pop_def cd_queue_def rd dec mod_simps)
qed

interpretation cd_input: lossy_queue 352800 ring_ok cd_queue spu_cd_audio_push cd_audio_pop
  by unfold_locales (auto simp: push_refines pop_refines ring_ok_length)

text \<open>C17. The CD input ring of spu.c is a bounded queue that loses its oldest frames: pushing appends and keeps the
  latest 352800 frames, popping takes the oldest frame (none when the queue is empty), and over any sequence of pushes
  that fit and pops, the frames that came out followed by those still queued are the frames that went in, in order.\<close>

theorem cd_ring_is_queue:
  assumes "ring_ok s"
  shows "cd_queue (spu_cd_audio_push fs s) = latest 352800 (cd_queue s @ fs) \<and>
    fst (cd_audio_pop s) = (case cd_queue s of [] \<Rightarrow> None | f # q \<Rightarrow> Some f) \<and>
    cd_queue (snd (cd_audio_pop s)) = tl (cd_queue s) \<and>
    (queue_fits 352800 (length (cd_queue s)) ops \<longrightarrow>
     fst (queue_run spu_cd_audio_push cd_audio_pop ops s) @ cd_queue (snd (queue_run spu_cd_audio_push cd_audio_pop ops s)) =
       cd_queue s @ queue_pushed ops)"
  using pop_refines [OF assms] push_refines(2) [OF assms] cd_input.run_in_order [OF assms]
  by (cases "cd_queue s") auto

theorem cd_ring_is_queue_witness:
  "let r = queue_run spu_cd_audio_push cd_audio_pop [Push [(1, 2), (3, 4)], Pop, Push [(5, 6)]] (spu_init spu_statics)
   in fst r @ cd_queue (snd r) = [(1, 2), (3, 4), (5, 6)]"
proof -
  let ?s = "spu_init spu_statics"
  have r: "ring_ok ?s" and e: "cd_queue ?s = []" by (simp_all add: spu_init_def spu_cd_audio_reset_def ring_ok_def cd_queue_def)
  show ?thesis
    using cd_ring_is_queue [OF r, of "[]" "[Push [(1, 2), (3, 4)], Pop, Push [(5, 6)]]"] by (simp add: e queue_pushed_def Let_def del: length_cd_queue)
qed

end
