(* ===== verification/Spu_Inv.thy ===== *)
theory Spu_Inv
  imports Spu_Props Spu_Queue
begin

text \<open>
  The sound unit as a whole: the invariant of its state over every operation of the interface, the end of a
  released voice, the mixer, and the transfer port.
\<close>

section \<open>The invariant\<close>

definition frame_ok :: "int \<times> int \<Rightarrow> bool" where
  "frame_ok f \<longleftrightarrow> s16_ok (fst f) \<and> s16_ok (snd f)"

definition all_voices_ok :: "spu \<Rightarrow> bool" where
  "all_voices_ok s \<longleftrightarrow> (\<forall>i. voice_ok (voices s i))"

definition cd_side_ok :: "spu \<Rightarrow> bool" where
  "cd_side_ok s \<longleftrightarrow> ring_ok s \<and> (\<forall>i. frame_ok (cd_ring s i))"

definition port_ok :: "spu \<Rightarrow> bool" where
  "port_ok s \<longleftrightarrow> unat (transfer_addr s) < 0x80000 \<and> even (unat (transfer_addr s))"

definition spu_ok :: "spu \<Rightarrow> bool" where
  "spu_ok s \<longleftrightarrow> all_voices_ok s \<and> cd_side_ok s \<and> port_ok s"

text \<open>The reachable states: after a reset, any sequence of register writes, DMA words, CD audio and rendering.\<close>

inductive spu_reach :: "spu \<Rightarrow> bool" where
  reset: "spu_reach (spu_init s)"
| reg_write: "spu_reach s \<Longrightarrow> spu_reach (spu_write fr addr v s)"
| dma: "spu_reach s \<Longrightarrow> spu_reach (spu_dma_write w s)"
| push: "spu_reach s \<Longrightarrow> list_all frame_ok fs \<Longrightarrow> spu_reach (spu_cd_audio_push fs s)"
| cd_reset: "spu_reach s \<Longrightarrow> spu_reach (spu_cd_audio_reset s)"
| render: "spu_reach s \<Longrightarrow> spu_reach (snd (spu_render fr n s))"
| clear_events: "spu_reach s \<Longrightarrow> spu_reach (spu_event_reset s)"

text \<open>What voices do stays in the voices: the CD input and the transfer port are not touched.\<close>

definition outside :: "spu \<Rightarrow> (nat \<Rightarrow> int \<times> int) \<times> u32 \<times> u32 \<times> u32 \<times> u32" where
  "outside s = (cd_ring s, cd_read_pos s, cd_write_pos s, cd_frame_count s, transfer_addr s)"

lemma outside_parts: "outside t = outside s \<Longrightarrow> cd_side_ok t = cd_side_ok s" "outside t = outside s \<Longrightarrow> port_ok t = port_ok s"
  by (simp_all add: outside_def cd_side_ok_def ring_ok_def port_ok_def)

lemma outside_steps [simp]:
  "outside (upd_voice i f s) = outside s" "outside (spu_event_record fr k i a s) = outside s" "outside (decode_block i s) = outside s"
  "outside (block_end fr i s) = outside s" "outside (key_on_voice fr i s) = outside s" "outside (key_off_voice fr i s) = outside s"
  "outside (write_repeat i r s) = outside s"
  by (simp_all add: outside_def upd_voice_def spu_event_record_def decode_block_def block_end_def key_on_voice_def key_off_voice_def
      write_repeat_def Let_def)

lemma outside_sample [simp]: "outside (snd (voice_next_sample fr i s)) = outside s"
  by (simp add: voice_next_sample_def Let_def split_beta)

lemma outside_keys [simp]: "outside (key_on fr msk s) = outside s" "outside (key_off fr msk s) = outside s"
  unfolding key_on_def key_off_def by (rule fold_keeps [where P = "\<lambda>t. outside t = outside s"]; simp)+

lemma outside_write_keys [simp]: "outside (write_keys fr a r s) = outside s"
proof -
  have "outside (s\<lparr> kon_latch := x \<rparr>) = outside s" "outside (s\<lparr> koff_latch := x \<rparr>) = outside s" for x by (simp_all add: outside_def)
  then show ?thesis by (simp add: write_keys_def)
qed

lemma fold_keeps_from:
  assumes "\<And>x d. x \<in> set xs \<Longrightarrow> P d \<Longrightarrow> P (f x d)" and "P d"
  shows "P (fold f xs d)"
  using assms by (induction xs arbitrary: d) simp_all

subsection \<open>Voices\<close>

lemma fresh_voice_ok: "v_cur_addr v < 0x80000 \<Longrightarrow> v_repeat_addr v < 0x80000 \<Longrightarrow> v_sample_idx v = 28 \<Longrightarrow> v_phase v = 0 \<Longrightarrow>
  v_samples v = (\<lambda>_. 0) \<Longrightarrow> v_hist1 v = 0 \<Longrightarrow> v_hist2 v = 0 \<Longrightarrow> v_env_level v = 0 \<Longrightarrow> v_adsr_divider v = 0 \<Longrightarrow> v_adsr_phase v = 0 \<Longrightarrow> voice_ok v"
  by (simp add: voice_ok_def tone_ok_def env_ok_def place_ok_def s16_ok_def)

lemma zero_voice_ok: "voice_ok zero_voice"
  by (simp add: zero_voice_def voice_ok_def tone_ok_def env_ok_def place_ok_def s16_ok_def)

lemma reg_address_lt: "reg_address r < 0x80000"
  using ram_wrap [of "push_bit 3 (ucast r)"] by (simp add: reg_address_def)

lemma key_on_voice_ok: "all_voices_ok s \<Longrightarrow> all_voices_ok (key_on_voice fr i s)"
  by (auto simp: all_voices_ok_def key_on_voice_def Let_def zero_voice_def reg_address_lt intro!: fresh_voice_ok)

lemma key_off_voice_ok: "all_voices_ok s \<Longrightarrow> all_voices_ok (key_off_voice fr i s)"
  by (auto simp: all_voices_ok_def key_off_voice_def voice_ok_def tone_ok_def env_ok_def)

lemma keys_ok: "all_voices_ok s \<Longrightarrow> all_voices_ok (key_on fr msk s)" "all_voices_ok s \<Longrightarrow> all_voices_ok (key_off fr msk s)"
  unfolding key_on_def key_off_def by (rule fold_keeps; simp add: key_on_voice_ok key_off_voice_ok)+

lemma voices_latches [simp]:
  "all_voices_ok (s\<lparr> kon_latch := x \<rparr>) = all_voices_ok s" "all_voices_ok (s\<lparr> koff_latch := x \<rparr>) = all_voices_ok s"
  "all_voices_ok (s\<lparr> spu_regs := r \<rparr>) = all_voices_ok s" "all_voices_ok (s\<lparr> nonzero_frames := y \<rparr>) = all_voices_ok s"
  by (simp_all add: all_voices_ok_def)

lemma write_voices_ok:
  assumes "all_voices_ok s"
  shows "all_voices_ok (write_keys fr a r (write_repeat k r' (s\<lparr> spu_regs := g \<rparr>)))"
proof -
  have "all_voices_ok (write_repeat k r' (s\<lparr> spu_regs := g \<rparr>))"
    using assms reg_address_lt [of r'] by (auto simp: write_repeat_def all_voices_ok_def voice_ok_def tone_ok_def env_ok_def)
  then show ?thesis by (simp add: write_keys_def keys_ok)
qed

lemma sample_voices_ok: "all_voices_ok s \<Longrightarrow> all_voices_ok (snd (voice_next_sample fr i s))"
proof -
  assume ok: "all_voices_ok s"
  then have v: "voice_ok (voices s i)" by (simp add: all_voices_ok_def)
  have "voice_ok (voices (snd (voice_next_sample fr i s)) j)" for j
    using ok next_sample_ok(1) [OF v] next_sample_ok(3) [OF v, of j fr] by (cases "j = i") (simp_all add: all_voices_ok_def)
  then show ?thesis by (simp add: all_voices_ok_def)
qed

subsection \<open>The transfer port\<close>

lemma port_step: "even k \<Longrightarrow> port_ok s \<Longrightarrow> port_ok (t\<lparr> transfer_addr := (transfer_addr s + of_nat k) mod 0x80000 \<rparr>)" if "k < 16"
proof -
  assume "even k" "port_ok s"
  then have "unat (transfer_addr s + of_nat k) = unat (transfer_addr s) + k"
    using that by (simp add: port_ok_def unat_word_ariths(1) unat_of_nat take_bit_nat_eq_self)
  then show ?thesis using \<open>even k\<close> \<open>port_ok s\<close> by (simp add: port_ok_def unat_mod dvd_mod_iff)
qed

lemma transfer_voices [simp]: "voices (write_transfer a v s) = voices s" "voices (spu_dma_write w s) = voices s"
  by (simp_all add: write_transfer_def spu_dma_write_def write_ram_byte_def Let_def)

lemma transfer_input [simp]: "cd_side_ok (write_transfer a v s) = cd_side_ok s" "cd_side_ok (spu_dma_write w s) = cd_side_ok s"
  by (simp_all add: write_transfer_def spu_dma_write_def write_ram_byte_def Let_def cd_side_ok_def ring_ok_def)

lemma eighth_address: "unat (push_bit 3 (ucast (r :: u16)) :: u32) = 8 * unat r"
  using unat_lt_65536 [of r] by (simp add: push_bit_eq_mult unat_word_ariths(2) unat_ucast_up)

lemma write_transfer_port: "port_ok s \<Longrightarrow> port_ok (write_transfer a v s)"
proof -
  assume ok: "port_ok s"
  have "port_ok (s\<lparr> transfer_addr := if push_bit 3 (ucast r) \<ge> (0x80000 :: u32) then 0 else push_bit 3 (ucast r) \<rparr>)" for r :: u16
    by (auto simp: port_ok_def word_le_nat_alt eighth_address)
  then show ?thesis using port_step [of 2 s] ok by (simp add: write_transfer_def Let_def)
qed

lemma dma_write_port: "port_ok s \<Longrightarrow> port_ok (spu_dma_write w s)"
  using port_step [of 4 s] by (simp add: spu_dma_write_def Let_def)

subsection \<open>The CD input\<close>

lemma store_frame_voices [simp]: "voices (store_frame f s) = voices s" "transfer_addr (store_frame f s) = transfer_addr s"
  by (simp_all add: store_frame_def)

lemma push_frame [simp]: "voices (spu_cd_audio_push fs s) = voices s" "transfer_addr (spu_cd_audio_push fs s) = transfer_addr s"
proof -
  have "voices (fold store_frame gs t) = voices t" "transfer_addr (fold store_frame gs t) = transfer_addr t" for gs t
    by (induction gs arbitrary: t) simp_all
  then show "voices (spu_cd_audio_push fs s) = voices s" "transfer_addr (spu_cd_audio_push fs s) = transfer_addr s"
    by (simp_all add: spu_cd_audio_push_def cd_make_room_def cd_store_fold Let_def)
qed

lemma push_input:
  assumes "cd_side_ok s" "list_all frame_ok fs"
  shows "cd_side_ok (spu_cd_audio_push fs s)"
proof -
  have "\<forall>i. frame_ok (cd_ring (fold store_frame gs t) i)" if "list_all frame_ok gs" "\<forall>i. frame_ok (cd_ring t i)" for gs t
    using that by (induction gs arbitrary: t) (simp_all add: store_frame_def)
  moreover have "list_all frame_ok (drop k fs)" for k using assms(2) by (auto simp: list_all_iff dest: in_set_dropD)
  ultimately have "\<forall>i. frame_ok (cd_ring (spu_cd_audio_push fs s) i)"
    using assms(1) by (simp add: spu_cd_audio_push_def cd_make_room_def cd_store_fold Let_def cd_side_ok_def)
  then show ?thesis using push_refines(1) assms(1) by (simp add: cd_side_ok_def)
qed

lemma pop_frame [simp]: "voices (snd (cd_audio_pop s)) = voices s" "transfer_addr (snd (cd_audio_pop s)) = transfer_addr s"
    "spu_regs (snd (cd_audio_pop s)) = spu_regs s"
  by (simp_all add: cd_audio_pop_def)

lemma pop_input: "cd_side_ok s \<Longrightarrow> cd_side_ok (snd (cd_audio_pop s))"
  using pop_refines(1) [of s] by (auto simp: cd_side_ok_def cd_audio_pop_def)

lemma reset_input: "cd_side_ok (spu_cd_audio_reset s)"
  by (simp add: cd_side_ok_def ring_ok_def spu_cd_audio_reset_def frame_ok_def s16_ok_def)

subsection \<open>Rendering\<close>

lemma mix_voice_snd: "snd (mix_voice fr v ms) = snd (voice_next_sample fr v (snd ms))"
  by (simp add: mix_voice_def Let_def split_beta)

text \<open>A property of the state that every sample keeps is kept by a frame, and by a block of frames.\<close>

lemma mix_voices_keeps:
  assumes "\<And>i t. i < 24 \<Longrightarrow> P t \<Longrightarrow> P (snd (voice_next_sample fr i t))" and "P s"
  shows "P (snd (mix_voices fr s))"
  unfolding mix_voices_def by (rule fold_keeps_from [where P = "\<lambda>ms. P (snd ms)"]) (simp_all add: assms mix_voice_snd)

lemma mix_cd_state:
  "snd (mix_cd ctrl vol ms) =
     (if ctrl AND 1 = 0 then snd ms
      else let t = snd (cd_audio_pop (snd ms))
           in if fst (cd_audio_pop (snd ms)) = None \<and> cd_push_frames t \<noteq> 0 then t\<lparr> cd_underflow_frames := cd_underflow_frames t + 1 \<rparr> else t)"
  by (simp add: mix_cd_def Let_def split_beta split: option.splits)

lemma render_frame_state:
  "snd (render_frame fr ctrl main vol s) = (if ctrl AND 0x8000 \<noteq> 0 then snd (mix_cd ctrl vol (mix_voices fr s)) else s)"
  by (simp add: render_frame_def Let_def split_beta)

lemma render_loop_keeps:
  assumes "\<And>t. P t \<Longrightarrow> P (snd (render_frame fr ctrl main vol t))" and "\<And>t x. P t \<Longrightarrow> P (t\<lparr> nonzero_frames := x \<rparr>)" and "P s"
  shows "P (snd (snd (render_loop n fr ctrl main vol bp s)))"
  using assms(3)
proof (induction n arbitrary: bp s)
  case (Suc n)
  then show ?case using assms(1) [OF Suc.prems] assms(2) by (simp add: Let_def split_beta Suc.IH)
qed simp

lemma render_loop_output:
  "length (fst (render_loop n fr ctrl main vol bp s)) = n" "list_all frame_ok (fst (render_loop n fr ctrl main vol bp s))"
proof (induction n arbitrary: bp s)
  case (Suc n)
  {
    case 1
    show ?case using Suc(1) by (simp add: Let_def split_beta)
  next
    case 2
    show ?case using Suc(2) by (simp add: Let_def split_beta) (simp add: render_frame_def split_beta frame_ok_def)
  }
qed simp_all

lemma spu_ok_parts [simp]:
  "spu_ok (s\<lparr> nonzero_frames := x \<rparr>) = spu_ok s" "spu_ok (s\<lparr> cd_underflow_frames := x \<rparr>) = spu_ok s"
  "spu_ok (s\<lparr> render_frames := x, last_peak := y, peak := z \<rparr>) = spu_ok s"
  by (simp_all add: spu_ok_def all_voices_ok_def cd_side_ok_def ring_ok_def port_ok_def)

lemma sample_ok: "spu_ok s \<Longrightarrow> spu_ok (snd (voice_next_sample fr i s))"
  by (simp add: spu_ok_def sample_voices_ok outside_parts [OF outside_sample])

lemma mix_cd_ok: "spu_ok (snd ms) \<Longrightarrow> spu_ok (snd (mix_cd ctrl vol ms))"
proof -
  assume "spu_ok (snd ms)"
  then have "spu_ok (snd (cd_audio_pop (snd ms)))" using pop_input [of "snd ms"] by (simp add: spu_ok_def all_voices_ok_def port_ok_def)
  then show ?thesis using \<open>spu_ok (snd ms)\<close> by (simp add: mix_cd_state Let_def)
qed

lemma render_frame_ok: "spu_ok s \<Longrightarrow> spu_ok (snd (render_frame fr ctrl main vol s))"
  by (simp add: render_frame_state mix_cd_ok mix_voices_keeps [where P = spu_ok] sample_ok)

lemma spu_render_state:
  "n \<noteq> 0 \<Longrightarrow> \<exists>ctrl main vol a b c. ctrl = spu_regs s (reg_index 0x1F801DAA) \<and>
     spu_render fr n s = (fst (render_loop n fr ctrl main vol 0 s), (snd (snd (render_loop n fr ctrl main vol 0 s)))\<lparr> render_frames := a, last_peak := b, peak := c \<rparr>)"
  unfolding spu_render_def Let_def split_beta by (simp only: if_False simp_thms) blast

lemma render_ok: "spu_ok s \<Longrightarrow> spu_ok (snd (spu_render fr n s))"
proof (cases "n = 0")
  case False
  assume "spu_ok s"
  then have "spu_ok (snd (snd (render_loop n fr ctrl main vol bp s)))" for ctrl main vol bp
    using render_loop_keeps [where P = spu_ok] render_frame_ok by simp
  then show ?thesis using spu_render_state [OF False, of s fr] by auto
qed (simp add: spu_render_def)

lemma render_output: "length (fst (spu_render fr n s)) = n" "list_all frame_ok (fst (spu_render fr n s))"
proof -
  have "length (fst (spu_render fr n s)) = n \<and> list_all frame_ok (fst (spu_render fr n s))"
  proof (cases "n = 0")
    case False
    then show ?thesis using spu_render_state [OF False, of s fr] by (auto simp: render_loop_output)
  qed (simp add: spu_render_def)
  then show "length (fst (spu_render fr n s)) = n" "list_all frame_ok (fst (spu_render fr n s))" by simp_all
qed

subsection \<open>Every operation\<close>

lemma spu_init_ok: "spu_ok (spu_init s)"
  using reset_input by (simp add: spu_init_def spu_ok_def) (simp add: spu_cd_audio_reset_def all_voices_ok_def zero_voice_ok port_ok_def)

lemma outside_regs: "outside (s\<lparr> spu_regs := g \<rparr>) = outside s"
  by (simp add: outside_def)

lemma spu_write_ok: "spu_ok s \<Longrightarrow> spu_ok (spu_write fr a v s)"
proof -
  assume ok: "spu_ok s"
  define t where "t = write_keys fr a (ucast v) (write_repeat (reg_index a) (ucast v) (s\<lparr> spu_regs := (spu_regs s)(reg_index a := ucast v) \<rparr>))"
  have "outside t = outside s" by (simp add: t_def outside_regs)
  then have "cd_side_ok t" "port_ok t" using ok outside_parts [of t s] by (simp_all add: spu_ok_def)
  moreover have "all_voices_ok t" using ok write_voices_ok by (simp add: spu_ok_def t_def)
  ultimately have "spu_ok (write_transfer a v t)" using write_transfer_port [of t a v] by (simp add: spu_ok_def all_voices_ok_def)
  then show ?thesis using ok by (simp add: spu_write_def Let_def t_def)
qed

lemma spu_reach_ok: "spu_reach s \<Longrightarrow> spu_ok s"
proof (induction rule: spu_reach.induct)
  case (dma s w)
  then show ?case using dma_write_port by (simp add: spu_ok_def all_voices_ok_def)
next
  case (push s fs)
  then show ?case using push_input by (simp add: spu_ok_def all_voices_ok_def port_ok_def)
next
  case (cd_reset s)
  then show ?case using reset_input [of s] by (simp add: spu_ok_def) (simp add: spu_cd_audio_reset_def all_voices_ok_def port_ok_def)
next
  case (clear_events s)
  then show ?case by (simp add: spu_event_reset_def spu_ok_def all_voices_ok_def cd_side_ok_def ring_ok_def port_ok_def)
qed (simp_all add: spu_init_ok spu_write_ok render_ok)

text \<open>C5. In every state that resets, register writes, DMA words, CD audio and rendering lead to, the sound unit is
  well-formed: envelope levels and dividers stay below 32768 and the phase is one of the four, decoder histories and
  samples are signed 16-bit values, voice addresses lie in sample RAM, the CD ring is consistent and the transfer
  address is even and inside RAM. Rendering then stays inside its arrays: a block is read from within sample RAM, the
  sample index is below 28 once a block is fetched, and \<open>n\<close> frames of signed 16-bit values come out.\<close>

theorem spu_reachable_ok:
  assumes "spu_reach s"
  shows "spu_ok s \<and> unat (block_addr (voices s i)) + 16 \<le> 0x80000 \<and> v_sample_idx (voices (fetched fr i s) i) < 28 \<and>
    length (fst (spu_render fr n s)) = n \<and> list_all frame_ok (fst (spu_render fr n s))"
proof -
  have "spu_ok s" by (rule spu_reach_ok [OF assms])
  then have "voice_ok (voices s i)" by (simp add: spu_ok_def all_voices_ok_def)
  then show ?thesis using \<open>spu_ok s\<close> fetched_voice(3) by (simp add: block_in_ram render_output)
qed

theorem spu_reachable_ok_witness:
  "spu_ok (snd (spu_render 7 3 (spu_write 7 0x1F801D88 5 (spu_init spu_statics)))) \<and>
   length (fst (spu_render 8 2 (snd (spu_render 7 3 (spu_write 7 0x1F801D88 5 (spu_init spu_statics)))))) = 2"
  using spu_reachable_ok [OF spu_reach.render [OF spu_reach.reg_write [OF spu_reach.reset, of 7 "0x1F801D88" 5 spu_statics], of 7 3], of 0 8 2] by simp

end
