(* ===== verification/Spu_Mix.thy ===== *)
theory Spu_Mix
  imports Spu_Inv
begin

text \<open>
  What the sound unit plays: the end of a released voice, the order of the CD audio, the arithmetic of the mixer and
  of the sample decoder.
\<close>

section \<open>Samples\<close>

text \<open>Voices do not disturb each other: a sample depends on its voice and on sample RAM.\<close>

lemma fetched_frame: "j \<noteq> i \<Longrightarrow> voices (fetched fr i s) j = voices s j" "spu_ram (fetched fr i s) = spu_ram s"
    "k \<noteq> i * 8 + 7 \<Longrightarrow> spu_regs (fetched fr i s) k = spu_regs s k"
  using decode_block_voice(7) [of j i "block_end fr i s"] decode_regs [of i "block_end fr i s"]
  by (auto simp: fetched_def block_end_voice(4,6,7))

lemma sample_frame:
  "j \<noteq> i \<Longrightarrow> voices (snd (voice_next_sample fr i s)) j = voices s j" "spu_ram (snd (voice_next_sample fr i s)) = spu_ram s"
  "k \<noteq> i * 8 + 7 \<Longrightarrow> spu_regs (snd (voice_next_sample fr i s)) k = spu_regs s k"
proof -
  have "(j \<noteq> i \<longrightarrow> voices (snd (voice_next_sample fr i s)) j = voices s j) \<and> spu_ram (snd (voice_next_sample fr i s)) = spu_ram s \<and>
      (k \<noteq> i * 8 + 7 \<longrightarrow> spu_regs (snd (voice_next_sample fr i s)) k = spu_regs s k)"
  proof (cases "v_active (voices s i)")
    case True
    then show ?thesis by (simp add: next_sample_eq Let_def split_beta fetched_frame)
  qed (simp add: voice_next_sample_def)
  then show "j \<noteq> i \<Longrightarrow> voices (snd (voice_next_sample fr i s)) j = voices s j" "spu_ram (snd (voice_next_sample fr i s)) = spu_ram s"
    "k \<noteq> i * 8 + 7 \<Longrightarrow> spu_regs (snd (voice_next_sample fr i s)) k = spu_regs s k" by blast+
qed

lemma sample_value:
  assumes "voices t i = voices s i" "spu_ram t = spu_ram s"
  shows "fst (voice_next_sample fr i t) = fst (voice_next_sample fr i s)"
proof -
  have "voices (block_end fr i t) i = voices (block_end fr i s) i" using assms by (simp add: block_end_def Let_def)
  then have "voices (fetched fr i t) i = voices (fetched fr i s) i"
    using assms by (simp add: fetched_def decode_block_def Let_def block_end_voice(7))
  then show ?thesis
    using assms by (cases "v_active (voices s i)") (simp_all add: next_sample_eq Let_def split_beta, simp add: voice_next_sample_def)
qed

section \<open>The end of a released voice\<close>

text \<open>A voice that is silent, or in release with at most \<open>n\<close> samples to go.\<close>

definition fading :: "nat \<Rightarrow> nat \<Rightarrow> spu \<Rightarrow> bool" where
  "fading i n s \<longleftrightarrow> all_voices_ok s \<and>
     (\<not> v_active (voices s i) \<or> v_adsr_phase (voices s i) = 3 \<and> release_rate (adsr_raw s i) < 31 \<and> fade_left (voices s i) \<le> n)"

lemma sample_other_raw: "j \<noteq> i \<Longrightarrow> adsr_raw (snd (voice_next_sample fr j s)) i = adsr_raw s i"
proof -
  assume "j \<noteq> i"
  have "i * 8 + 4 \<noteq> j * 8 + 7" "i * 8 + 5 \<noteq> j * 8 + 7" by presburger+
  then show ?thesis by (simp add: adsr_raw_def voice_reg_def sample_frame)
qed

lemma sample_fades:
  assumes "fading i n s"
  shows "fading i (if j = i then n - 1 else n) (snd (voice_next_sample fr j s))"
proof -
  have ok: "all_voices_ok s" and v: "voice_ok (voices s k)" for k using assms by (simp_all add: fading_def all_voices_ok_def)
  let ?t = "snd (voice_next_sample fr j s)"
  have okt: "all_voices_ok ?t" using ok by (rule sample_voices_ok)
  show ?thesis
  proof (cases "j = i")
    case False
    then have "voices ?t i = voices s i" using next_sample_ok(3) [OF v] by auto
    then show ?thesis using assms okt False sample_other_raw [OF False] by (simp add: fading_def)
  next
    case True
    show ?thesis
    proof (cases "v_active (voices s i)")
      case False
      then show ?thesis using assms True by (simp add: fading_def voice_next_sample_def)
    next
      case act: True
      then have "v_adsr_phase (voices s i) = 3" "release_rate (adsr_raw s i) < 31" "fade_left (voices s i) \<le> n" using assms by (auto simp: fading_def)
      from next_sample_release [OF v act this(1,2), of fr] this show ?thesis using okt True by (auto simp: fading_def)
    qed
  qed
qed

lemma voices_fade:
  assumes "fading i n s" "i < 24"
  shows "fading i (n - 1) (snd (mix_voices fr s))"
proof -
  have "fading i (if i \<in> set xs then n - 1 else n) (snd (fold (mix_voice fr) xs ms))" if "distinct xs" "fading i n (snd ms)" for xs ms
    using that
  proof (induction xs arbitrary: ms n rule: rev_induct)
    case (snoc x xs)
    then have "fading i (if i \<in> set xs then n - 1 else n) (snd (fold (mix_voice fr) xs ms))" by simp
    from sample_fades [OF this, of x fr] snoc.prems(1) show ?case by (auto simp: mix_voice_snd split: if_splits)
  qed simp
  from this [of "[0 ..< 24]" "((0, 0), s)"] show ?thesis using assms by (simp add: mix_voices_def)
qed

lemma fading_counters [simp]: "fading i n (s\<lparr> nonzero_frames := x \<rparr>) = fading i n s" "fading i n (s\<lparr> cd_underflow_frames := y \<rparr>) = fading i n s"
  by (simp_all add: fading_def all_voices_ok_def adsr_raw_def voice_reg_def)

lemma frame_fades:
  assumes "fading i n s" "i < 24" "ctrl AND 0x8000 \<noteq> 0"
  shows "fading i (n - 1) (snd (render_frame fr ctrl main vol s))"
proof -
  have "fading i m (snd (cd_audio_pop t)) = fading i m t" for m t by (simp add: fading_def all_voices_ok_def adsr_raw_def voice_reg_def)
  then show ?thesis using voices_fade [OF assms(1,2)] assms(3) by (simp add: render_frame_state mix_cd_state Let_def)
qed

lemma loop_fades:
  assumes "fading i n s" "i < 24" "ctrl AND 0x8000 \<noteq> 0"
  shows "fading i (n - m) (snd (snd (render_loop m fr ctrl main vol bp s)))"
  using assms(1)
proof (induction m arbitrary: n bp s)
  case (Suc m)
  define s1 where "s1 = snd (render_frame fr ctrl main vol s)"
  have "fading i (n - 1) s1" unfolding s1_def by (rule frame_fades [OF Suc.prems assms(2,3)])
  then have "fading i (n - 1 - m) (snd (snd (render_loop m fr ctrl main vol bp (s1\<lparr> nonzero_frames := x \<rparr>))))"
    "fading i (n - 1 - m) (snd (snd (render_loop m fr ctrl main vol bp s1)))" for bp x
    using Suc.IH [of "n - 1" "s1\<lparr> nonzero_frames := x \<rparr>" bp] Suc.IH [of "n - 1" s1 bp] by simp_all
  then show ?case by (simp add: Let_def split_beta flip: s1_def)
qed simp

lemma faded_is_silent: "fading i 0 s \<Longrightarrow> \<not> v_active (voices s i)"
proof
  assume "fading i 0 s" "v_active (voices s i)"
  then have "voice_ok (voices s i)" "0x8000 \<le> unat (v_adsr_divider (voices s i))" by (simp_all add: fading_def all_voices_ok_def fade_left_def)
  then show False by (simp add: voice_ok_def tone_ok_def env_ok_def)
qed

subsection \<open>The key-off register\<close>

lemma key_off_other: "j \<notin> set xs \<Longrightarrow> voices (fold (\<lambda>i s. if msk AND push_bit i 1 = 0 then s else key_off_voice fr i s) xs s) j = voices s j"
  by (induction xs arbitrary: s) (auto simp: key_off_voice_def)

lemma key_off_releases:
  assumes "i < 24" "bit msk i"
  shows "v_active (voices (key_off fr msk s) i) \<Longrightarrow> v_adsr_phase (voices (key_off fr msk s) i) = 3"
proof -
  let ?f = "\<lambda>i s. if msk AND push_bit i 1 = 0 then s else key_off_voice fr i s"
  have split: "[0 ..< 24] = [0 ..< i] @ i # [Suc i ..< 24]"
    using assms(1) upt_add_eq_append [of 0 i "24 - i"] by (simp add: upt_conv_Cons)
  have "msk AND push_bit i 1 \<noteq> 0" using assms and_power_two_iff [of msk i] by (simp add: push_bit_eq_mult)
  then have "voices (key_off fr msk s) i = voices (key_off_voice fr i (fold ?f [0 ..< i] s)) i"
    unfolding key_off_def split by (simp add: key_off_other del: push_bit_of_1)
  then show "v_active (voices (key_off fr msk s) i) \<Longrightarrow> v_adsr_phase (voices (key_off fr msk s) i) = 3"
    by (simp add: key_off_voice_def split: if_splits)
qed

lemma key_off_regs [simp]: "spu_regs (key_off fr msk s) = spu_regs s"
  unfolding key_off_def by (rule fold_keeps [where P = "\<lambda>t. spu_regs t = spu_regs s"]) (simp_all add: key_off_voice_def)

definition koff_addr :: "nat \<Rightarrow> u32" where
  "koff_addr i = (if i < 16 then 0x1F801D8C else 0x1F801D8E)"

lemma write_koff:
  "\<exists>msk x. spu_write fr (koff_addr i) v s =
     key_off fr msk (s\<lparr> spu_regs := (spu_regs s)(if i < 16 then 198 else 199 := ucast v), koff_latch := x \<rparr>) \<and> (i < 24 \<longrightarrow> bit v (i mod 16) \<longrightarrow> bit msk i)"
proof (cases "i < 16")
  case True
  have "reg_index 0x1F801D8C = 198" by (simp add: reg_index_def)
  then show ?thesis using True
    by (auto simp: koff_addr_def spu_write_def write_repeat_def write_keys_def write_transfer_def Let_def bit_simps intro!: exI)
next
  case False
  have "reg_index 0x1F801D8E = 199" by (simp add: reg_index_def)
  then show ?thesis using False
    by (auto simp: koff_addr_def spu_write_def write_repeat_def write_keys_def write_transfer_def Let_def bit_simps le_mod_geq intro!: exI)
qed

text \<open>C18. A voice that is keyed off falls silent: unless its release rate is 31 (which holds the level for ever), after
  the write to the key-off register and at most \<open>2 ^ 30\<close> rendered frames the voice is no longer active, whatever its
  samples, the other voices and the CD input do in between. The sound unit is enabled, and the frames are rendered
  without a register write in between.\<close>

theorem released_voice_falls_silent:
  assumes "spu_reach s" and "i < 24" and "release_rate (adsr_raw s i) < 31" and "spu_regs s (reg_index 0x1F801DAA) AND 0x8000 \<noteq> 0"
    and "bit v (i mod 16)" and "2 ^ 30 \<le> n"
  shows "\<not> v_active (voices (snd (spu_render fr n (spu_write fr (koff_addr i) v s))) i)"
proof -
  define t where "t = spu_write fr (koff_addr i) v s"
  obtain msk x where t: "t = key_off fr msk (s\<lparr> spu_regs := (spu_regs s)(if i < 16 then 198 else 199 := ucast v), koff_latch := x \<rparr>)" "bit msk i"
    using write_koff assms(2,5) unfolding t_def by blast
  have ok: "all_voices_ok t" using spu_reach_ok [OF spu_reach.reg_write [OF assms(1)]] by (simp add: t_def spu_ok_def)
  have regs: "spu_regs t k = spu_regs s k" if "k \<noteq> 198" "k \<noteq> 199" for k using that by (simp add: t(1))
  have raw: "adsr_raw t i = adsr_raw s i" using assms(2) by (simp add: adsr_raw_def voice_reg_def regs)
  have ctrl: "spu_regs t (reg_index 0x1F801DAA) = spu_regs s (reg_index 0x1F801DAA)" by (rule regs) (simp_all add: reg_index_def)
  have "fade_left (voices t i) \<le> n" using ok fade_bound assms(6) by (meson all_voices_ok_def order_trans tone_ok_def voice_ok_def)
  then have "fading i n t" using ok raw assms(3) key_off_releases [OF assms(2) t(2)] by (auto simp: fading_def t(1))
  moreover have "n \<noteq> 0" using assms(6) by auto
  ultimately show ?thesis
    using spu_render_state [of n t fr] loop_fades [OF _ assms(2), of n t _ n] ctrl assms(4) faded_is_silent by (fastforce simp flip: t_def)
qed

theorem released_voice_falls_silent_witness:
  "\<not> v_active (voices (snd (spu_render 5 (2 ^ 30) (spu_write 5 (koff_addr 17) 2
     (spu_write 4 0x1F801D8A 2 (spu_write 3 0x1F801DAA 0x8000 (spu_init spu_statics)))))) 17)"
proof (rule released_voice_falls_silent)
  let ?s = "spu_write 4 0x1F801D8A 2 (spu_write 3 0x1F801DAA 0x8000 (spu_init spu_statics))"
  show "spu_reach ?s" by (intro spu_reach.intros)
  show "release_rate (adsr_raw ?s 17) < 31" by code_simp
  show "spu_regs ?s (reg_index 0x1F801DAA) AND 0x8000 \<noteq> 0" by code_simp
qed simp_all

section \<open>The mixer\<close>

text \<open>The share of a voice and of the CD input in a frame, and their sum: \<open>reg\<close> is the volume register of the voice,
  \<open>addr\<close> the one of the CD input, \<open>side\<close> picks the channel.\<close>

definition voice_share :: "u64 \<Rightarrow> spu \<Rightarrow> nat \<Rightarrow> nat \<Rightarrow> int" where
  "voice_share fr s reg v = (fst (voice_next_sample fr v s) * direct_volume (voice_reg s v reg)) div 16384"

definition cd_share :: "spu \<Rightarrow> u32 \<Rightarrow> (int \<times> int \<Rightarrow> int) \<Rightarrow> int" where
  "cd_share s addr side =
     (if spu_regs s (reg_index 0x1F801DAA) AND 1 = 0 then 0
      else case cd_queue s of [] \<Rightarrow> 0 | f # q \<Rightarrow> (side f * cd_input_volume (spu_regs s (reg_index addr))) div 32768)"

definition mix_left :: "u64 \<Rightarrow> spu \<Rightarrow> int" where
  "mix_left fr s = (\<Sum>v<24. voice_share fr s 0 v) + cd_share s 0x1F801DB0 fst"

definition mix_right :: "u64 \<Rightarrow> spu \<Rightarrow> int" where
  "mix_right fr s = (\<Sum>v<24. voice_share fr s 1 v) + cd_share s 0x1F801DB2 snd"

lemma mix_voices_sum: "fst (mix_voices fr s) = (\<Sum>v<24. voice_share fr s 0 v, \<Sum>v<24. voice_share fr s 1 v)"
proof -
  have "fst (fold (mix_voice fr) xs ((0, 0), s)) = (\<Sum>v\<leftarrow>xs. voice_share fr s 0 v, \<Sum>v\<leftarrow>xs. voice_share fr s 1 v) \<and>
      (\<forall>j. j \<notin> set xs \<longrightarrow> voices (snd (fold (mix_voice fr) xs ((0, 0), s))) j = voices s j) \<and>
      spu_ram (snd (fold (mix_voice fr) xs ((0, 0), s))) = spu_ram s \<and>
      (\<forall>k. k mod 8 \<noteq> 7 \<longrightarrow> spu_regs (snd (fold (mix_voice fr) xs ((0, 0), s))) k = spu_regs s k)" if "distinct xs" for xs
    using that
  proof (induction xs rule: rev_induct)
    case (snoc x xs)
    define ms where "ms = fold (mix_voice fr) xs ((0, 0), s)"
    have ih: "fst ms = (\<Sum>v\<leftarrow>xs. voice_share fr s 0 v, \<Sum>v\<leftarrow>xs. voice_share fr s 1 v)" "voices (snd ms) x = voices s x" "spu_ram (snd ms) = spu_ram s"
      "\<And>k. k mod 8 \<noteq> 7 \<Longrightarrow> spu_regs (snd ms) k = spu_regs s k" "\<And>j. j \<notin> set xs \<Longrightarrow> voices (snd ms) j = voices s j"
      using snoc by (simp_all add: ms_def)
    have reg: "voice_reg (snd (voice_next_sample fr x (snd ms))) x r = voice_reg s x r" if "r < 7" for r
      using that sample_frame(3) [of "x * 8 + r" x] ih(4) [of "x * 8 + r"] by (simp add: voice_reg_def)
    have regs: "spu_regs (snd (voice_next_sample fr x (snd ms))) k = spu_regs s k" if "k mod 8 \<noteq> 7" for k
      using that sample_frame(3) [of k x] ih(4) [OF that] by (cases "k = x * 8 + 7") auto
    have "fst (mix_voice fr x ms) = (fst (fst ms) + voice_share fr s 0 x, snd (fst ms) + voice_share fr s 1 x)"
      using sample_value [OF ih(2,3), of fr] by (auto simp: mix_voice_def voice_share_def Let_def split_beta reg)
    then show ?case
      using ih snoc.prems by (simp add: mix_voice_snd sample_frame regs flip: ms_def)
  qed simp
  from this [of "[0 ..< 24]"] show ?thesis by (simp add: mix_voices_def sum_list_distinct_conv_sum_set atLeast0LessThan)
qed

lemma mix_voices_queue: "cd_queue (snd (mix_voices fr s)) = cd_queue s" "ring_ok (snd (mix_voices fr s)) = ring_ok s"
proof -
  have "outside (snd (mix_voices fr s)) = outside s" by (rule mix_voices_keeps [where P = "\<lambda>t. outside t = outside s"]) simp_all
  then show "cd_queue (snd (mix_voices fr s)) = cd_queue s" "ring_ok (snd (mix_voices fr s)) = ring_ok s"
    by (simp_all add: outside_def cd_queue_def ring_ok_def)
qed

lemma render_one:
  assumes "ring_ok s" and en: "spu_regs s (reg_index 0x1F801DAA) AND 0x8000 \<noteq> 0"
  shows "fst (spu_render fr 1 s) =
    [(clamp16 (main_scale (direct_volume (spu_regs s (reg_index 0x1F801D80))) (mix_left fr s)),
      clamp16 (main_scale (direct_volume (spu_regs s (reg_index 0x1F801D82))) (mix_right fr s)))]"
proof -
  let ?ctrl = "spu_regs s (reg_index 0x1F801DAA)"
  let ?vol = "(cd_input_volume (spu_regs s (reg_index 0x1F801DB0)), cd_input_volume (spu_regs s (reg_index 0x1F801DB2)))"
  let ?t = "snd (mix_voices fr s)"
  have pop: "fst (cd_audio_pop ?t) = (case cd_queue s of [] \<Rightarrow> None | f # q \<Rightarrow> Some f)"
    using pop_refines [of ?t] assms(1) by (cases "cd_queue s") (auto simp: mix_voices_queue)
  have "fst (mix_cd ?ctrl ?vol (mix_voices fr s)) = (mix_left fr s, mix_right fr s)"
    using pop by (cases "cd_queue s"; cases "cd_audio_pop ?t")
      (simp_all add: mix_cd_def mix_voices_sum mix_left_def mix_right_def cd_share_def split_beta Let_def)
  then show ?thesis using en by (simp add: spu_render_def render_frame_def Let_def split_beta)
qed

lemma direct_volume_bounds: "- 0x4000 \<le> direct_volume r" "direct_volume r \<le> 0x3FFF"
  by (simp_all add: direct_volume_def Let_def)

text \<open>The product with the main volume fits in 32 bits for sums below 2 to the 17.\<close>

lemma main_scale_exact:
  assumes "\<bar>m\<bar> \<le> 131071"
  shows "main_scale (direct_volume r) m = (m * direct_volume r) div 16384"
proof -
  have "\<bar>direct_volume r\<bar> \<le> 16384" using direct_volume_bounds [of r] by (simp add: abs_le_iff)
  then have "\<bar>m\<bar> * \<bar>direct_volume r\<bar> \<le> 131071 * 16384" using assms by (intro mult_mono) simp_all
  then have "\<bar>m * direct_volume r\<bar> \<le> 131071 * 16384" by (simp add: abs_mult)
  then have "as_s32 (m * direct_volume r) = m * direct_volume r" by (intro as_s32_id) simp_all
  then show ?thesis by (simp add: main_scale_def)
qed

text \<open>C19. The mixer is exact while the sum of a channel stays below 2 to the 17: the rendered frame is the sum of the
  shares of the 24 voices and of the CD input, each taken in the state before the frame (no voice disturbs another),
  scaled by the main volume and clipped to 16 bits. The sound unit is enabled.\<close>

theorem mixer_is_exact:
  assumes "spu_reach s" and "spu_regs s (reg_index 0x1F801DAA) AND 0x8000 \<noteq> 0" and "\<bar>mix_left fr s\<bar> \<le> 131071" "\<bar>mix_right fr s\<bar> \<le> 131071"
  shows "fst (spu_render fr 1 s) =
    [(clamp16 ((mix_left fr s * direct_volume (spu_regs s (reg_index 0x1F801D80))) div 16384),
      clamp16 ((mix_right fr s * direct_volume (spu_regs s (reg_index 0x1F801D82))) div 16384))]"
proof -
  have "ring_ok s" using spu_reach_ok [OF assms(1)] by (simp add: spu_ok_def cd_side_ok_def)
  from render_one [OF this assms(2), of fr] show ?thesis unfolding main_scale_exact [OF assms(3)] main_scale_exact [OF assms(4)] .
qed

lemma silent_mix: "(\<And>v. \<not> v_active (voices s v)) \<Longrightarrow> (\<Sum>v<24. voice_share fr s r v) = 0"
  by (simp add: voice_share_def voice_next_sample_def)

text \<open>A write to a register with no effect of its own.\<close>

lemma plain_write:
  assumes "0x1F801D80 \<le> a" "a \<le> 0x1F801DFF" "a \<notin> {0x1F801D88, 0x1F801D8A, 0x1F801D8C, 0x1F801D8E, 0x1F801DA6, 0x1F801DA8}"
  shows "spu_write fr a v s = s\<lparr> spu_regs := (spu_regs s)(reg_index a := ucast v) \<rparr>"
proof -
  have u: "unat (a - 0x1F801C00) = unat a - 0x1F801C00" using assms(1) by (simp add: unat_sub_le word_le_nat_alt)
  have "reg_index a = (unat a - 0x1F801C00) div 2" by (simp add: reg_index_def drop_bit_eq_div unat_div u)
  then have "192 \<le> reg_index a" "reg_index a < 256" using assms(1,2) by (simp_all add: word_le_nat_alt)
  then show ?thesis using assms by (simp add: spu_write_def write_repeat_def write_keys_def write_transfer_def Let_def word_le_nat_alt)
qed

theorem mixer_is_exact_witness:
  "fst (spu_render 9 1 (spu_cd_audio_push [(20000, - 30000)] (fold (\<lambda>(a, v). spu_write 0 a v)
      [(0x1F801D80, 0x3FFF), (0x1F801D82, 0x2000), (0x1F801DB0, 0x7FFF), (0x1F801DB2, 0x7FFF), (0x1F801DAA, 0x8001)] (spu_init spu_statics))))
   = [(19997, - 15000)]"
proof -
  let ?s = "spu_cd_audio_push [(20000, - 30000)] (fold (\<lambda>(a, v). spu_write 0 a v)
      [(0x1F801D80, 0x3FFF), (0x1F801D82, 0x2000), (0x1F801DB0, 0x7FFF), (0x1F801DB2, 0x7FFF), (0x1F801DAA, 0x8001)] (spu_init spu_statics))"
  note defs = plain_write spu_init_def spu_cd_audio_reset_def spu_cd_audio_push_def cd_make_room_def reg_index_def Let_def
  have r: "spu_reach ?s" by (auto intro!: spu_reach.intros simp: frame_ok_def s16_ok_def)
  have v: "v_active (voices ?s i) = False" for i by (simp add: defs zero_voice_def)
  have q: "cd_queue ?s = [(20000, - 30000)]" by (simp add: defs cd_queue_def)
  have g: "spu_regs ?s (reg_index 0x1F801DAA) = 0x8001" "spu_regs ?s (reg_index 0x1F801D80) = 0x3FFF" "spu_regs ?s (reg_index 0x1F801D82) = 0x2000"
    "spu_regs ?s (reg_index 0x1F801DB0) = 0x7FFF" "spu_regs ?s (reg_index 0x1F801DB2) = 0x7FFF" by (simp_all add: defs)
  have m: "mix_left 9 ?s = 19999" "mix_right 9 ?s = - 30000"
    unfolding mix_left_def mix_right_def cd_share_def silent_mix [OF v [THEN iffD1 [OF eq_False]]] q g by (simp_all add: cd_input_volume_def)
  show ?thesis by (subst mixer_is_exact [OF r]) (simp_all only: m g, simp_all add: direct_volume_def clamp16_def)
qed

lemma as_s32_wraps: "2 ^ 31 \<le> x \<Longrightarrow> x < 2 ^ 32 \<Longrightarrow> as_s32 x = x - 2 ^ 32"
  using mod_pos_pos_trivial [of "x - 2 ^ 31" "2 ^ 32"] mod_add_self2 [of "x - 2 ^ 31" "2 ^ 32 :: int"]
  by (simp add: as_s32_def signed_take_bit_eq_take_bit_shift take_bit_eq_mod algebra_simps)

text \<open>C20. Beyond that the product overflows: with the main volume at its maximum a positive sum from 131081 to 229390,
  which five voices at full scale reach, comes out as the most negative sample.\<close>

theorem mixer_overflow_flips_sign:
  assumes "ring_ok s" and "spu_regs s (reg_index 0x1F801DAA) AND 0x8000 \<noteq> 0"
    and "spu_regs s (reg_index 0x1F801D80) = 0x3FFF" and "131081 \<le> mix_left fr s" "mix_left fr s \<le> 229390"
  shows "fst (hd (fst (spu_render fr 1 s))) = - 32768"
proof -
  let ?p = "mix_left fr s * 16383"
  have b: "131081 * 16383 \<le> ?p" "?p \<le> 229390 * 16383" using assms(4,5) by (intro mult_right_mono; simp)+
  have d: "direct_volume 0x3FFF = 16383" by (simp add: direct_volume_def)
  have "as_s32 ?p = ?p - 2 ^ 32"
    using b by (intro as_s32_wraps) simp_all
  then have "main_scale 16383 (mix_left fr s) \<le> - 32768" using b by (simp add: main_scale_def)
  then show ?thesis unfolding render_one [OF assms(1,2)] assms(3) d by (simp add: clamp16_def)
qed

text \<open>Five voices in the middle of a block, at full envelope and volume.\<close>

definition loud_voice :: spu_voice where
  "loud_voice = zero_voice\<lparr> v_active := True, v_samples := (\<lambda>_. 32767), v_env_level := 0x7FFF, v_adsr_phase := 2 \<rparr>"

definition loud_spu :: spu where
  "loud_spu = (spu_init spu_statics)\<lparr> voices := (\<lambda>i. if i < 5 then loud_voice else zero_voice),
     spu_regs := (\<lambda>k. if k = reg_index 0x1F801DAA then 0x8000 else 0x3FFF) \<rparr>"

theorem mixer_overflow_flips_sign_witness:
  "mix_left 3 loud_spu = 163820 \<and> fst (hd (fst (spu_render 3 1 loud_spu))) = - 32768"
proof -
  note defs = loud_spu_def spu_init_def spu_cd_audio_reset_def
  have r: "ring_ok loud_spu" by (simp add: defs ring_ok_def)
  have g: "spu_regs loud_spu (reg_index 0x1F801DAA) = 0x8000" "spu_regs loud_spu (reg_index 0x1F801D80) = 0x3FFF"
    by (simp_all add: defs reg_index_def)
  have "voice_share 3 loud_spu 0 v = (if v < 5 then 32764 else 0)" if "v < 24" for v
    using that by (simp add: voice_share_def voice_next_sample_def defs loud_voice_def zero_voice_def shape_def clamp16_def voice_reg_def
        reg_index_def direct_volume_def Let_def split_beta)
  then have "(\<Sum>v<24. voice_share 3 loud_spu 0 v) = 163820" by (simp add: lessThan_nat_numeral lessThan_Suc)
  then have m: "mix_left 3 loud_spu = 163820" by (simp add: mix_left_def cd_share_def g)
  then show ?thesis using mixer_overflow_flips_sign [OF r, of 3] g by simp
qed

section \<open>The sample decoder\<close>

text \<open>C21. The voice decoder of spu.c and the XA decoder of cdrom.c, written separately, compute the same sample from
  the same nibble, header and history, for every header with a defined filter (0 to 3 in the high nibble) and shift (0
  to 12).\<close>

theorem voice_decoder_matches_xa:
  assumes "unat (drop_bit 4 hdr AND 0x0F) \<le> 3" and "unat (hdr AND 0x0F) \<le> 12"
  shows "spu_sample hdr (spu_nibble n b) h = xa_sample hdr (xa_nibble (n \<noteq> 0) b) h"
proof -
  have low: "unat (w AND 0x0F) = unat w mod 16" for w :: u8 using unat_and_mask [of w 4] by (simp add: mask_eq_exp_minus_1)
  have f: "unat (drop_bit 4 hdr AND 0x03) = unat (drop_bit 4 hdr AND 0x0F)"
    using assms(1) mod_mod_cancel [of 4 16 "unat (drop_bit 4 hdr)"] mod_less [of "unat (drop_bit 4 hdr) mod 16" 4] unfolding low unat_and_3 by simp
  have "unat (drop_bit 4 b) = unat b div 16" by (simp add: drop_bit_eq_div unat_div)
  then have "drop_bit 4 b AND 0x0F = drop_bit 4 b" using unat_lt_256 [of b] by (simp add: word_unat_eq_iff low)
  then have nib: "spu_nibble n b = xa_nibble (n \<noteq> 0) b" by (simp add: spu_nibble_def xa_nibble_def)
  have sh: "(x * 4096) div 2 ^ k = x * 2 ^ nat (12 - int k)" if "k \<le> 12" for x :: int and k :: nat
  proof -
    have "(2 :: int) ^ (12 - k) * 2 ^ k = 2 ^ 12" using that by (simp flip: power_add)
    then have "x * 4096 = x * 2 ^ (12 - k) * 2 ^ k" by (simp add: mult.assoc)
    then have "(x * 4096) div 2 ^ k = x * 2 ^ (12 - k)" by (simp only:) simp
    moreover have "nat (12 - int k) = 12 - k" by linarith
    ultimately show ?thesis by (simp only:)
  qed
  show ?thesis
    using assms by (simp add: spu_sample_def xa_sample_def nib sh f xa_shift_def xa_filter_def clamp16_def clamp16_cd_def spu_f0_def xa_k0_def
        spu_f1_def xa_k1_def mult.commute Let_def)
qed

theorem voice_decoder_matches_xa_witness:
  "spu_sample 0x24 (spu_nibble 1 0x9C) (1200, - 340) = xa_sample 0x24 (xa_nibble True 0x9C) (1200, - 340) \<and> spu_sample 0x24 (spu_nibble 1 0x9C) (1200, - 340) = 641"
proof
  show "spu_sample 0x24 (spu_nibble 1 0x9C) (1200, - 340) = xa_sample 0x24 (xa_nibble True 0x9C) (1200, - 340)"
    using voice_decoder_matches_xa [of "0x24" 1 "0x9C" "(1200, - 340)"] by simp
  show "spu_sample 0x24 (spu_nibble 1 0x9C) (1200, - 340) = 641" by code_simp
qed

end
