(* ===== verification/Spu_System.thy ===== *)
theory Spu_System
  imports Spu_Inv Cd_System
begin

text \<open>
  The sound unit behind the DMA controller: the sound unit is the first component of the device state of Dma, its
  transfer port takes the place of the parameter \<open>spu_dma_write\<close> of \<open>dma_env\<close>. The audio trace is still a parameter;
  it keeps its state in the second component. The result is the upload of sample data, from main RAM over channel 4
  into sample RAM.
\<close>

section \<open>The transfer port\<close>

text \<open>Words are stored one after the other, little end first.\<close>

lemma dma_write_stores:
  assumes "unat (transfer_addr s) + 4 \<le> 0x80000"
  shows "spu_ram (Spu.spu_dma_write w s) = put_word (spu_ram s) (unat (transfer_addr s)) w"
    "unat (transfer_addr (Spu.spu_dma_write w s)) = (unat (transfer_addr s) + 4) mod 0x80000"
proof -
  have u: "unat (transfer_addr s + 1) = unat (transfer_addr s) + 1" "unat (transfer_addr s + 2) = unat (transfer_addr s) + 2"
    "unat (transfer_addr s + 3) = unat (transfer_addr s) + 3" "unat (transfer_addr s + 4) = unat (transfer_addr s) + 4"
    using assms by (simp_all add: unat_word_ariths(1))
  then have "transfer_addr s + 3 < 0x80000" using assms by (simp add: word_less_nat_alt)
  then show "spu_ram (Spu.spu_dma_write w s) = put_word (spu_ram s) (unat (transfer_addr s)) w"
    by (simp add: Spu.spu_dma_write_def write_ram_byte_def put_word_def u Let_def)
  show "unat (transfer_addr (Spu.spu_dma_write w s)) = (unat (transfer_addr s) + 4) mod 0x80000"
    by (simp add: Spu.spu_dma_write_def unat_mod u Let_def)
qed

lemma upload_stores:
  assumes "unat (transfer_addr s) + 4 * length ws \<le> 0x80000"
  shows "(\<forall>i<length ws. word_at (spu_ram (fold Spu.spu_dma_write ws s)) (unat (transfer_addr s) + 4 * i) = ws ! i) \<and>
    (\<forall>j. j < unat (transfer_addr s) \<or> unat (transfer_addr s) + 4 * length ws \<le> j \<longrightarrow> spu_ram (fold Spu.spu_dma_write ws s) j = spu_ram s j) \<and>
    voices (fold Spu.spu_dma_write ws s) = voices s"
  using assms
proof (induction ws arbitrary: s rule: rev_induct)
  case (snoc w ws)
  define t where "t = fold Spu.spu_dma_write ws s"
  have ih: "\<And>i. i < length ws \<Longrightarrow> word_at (spu_ram t) (unat (transfer_addr s) + 4 * i) = ws ! i"
    "\<And>j. j < unat (transfer_addr s) \<or> unat (transfer_addr s) + 4 * length ws \<le> j \<Longrightarrow> spu_ram t j = spu_ram s j" "voices t = voices s"
    using snoc.IH [of s] snoc.prems by (auto simp: t_def)
  have "unat (transfer_addr (fold Spu.spu_dma_write xs s)) = unat (transfer_addr s) + 4 * length xs"
    if "unat (transfer_addr s) + 4 * length xs < 0x80000" for xs
    using that by (induction xs arbitrary: s) (simp_all add: dma_write_stores(2))
  then have a: "unat (transfer_addr t) = unat (transfer_addr s) + 4 * length ws" using snoc.prems by (simp add: t_def)
  have st: "spu_ram (Spu.spu_dma_write w t) = put_word (spu_ram t) (unat (transfer_addr s) + 4 * length ws) w"
    using dma_write_stores(1) [of t w] snoc.prems by (simp add: a)
  have "word_at (spu_ram (Spu.spu_dma_write w t)) (unat (transfer_addr s) + 4 * i) = (ws @ [w]) ! i" if "i < Suc (length ws)" for i
    using that ih(1) by (cases "i = length ws") (simp_all add: st word_at_put_word_other nth_append)
  moreover have "spu_ram (Spu.spu_dma_write w t) j = spu_ram s j" if "j < unat (transfer_addr s) \<or> unat (transfer_addr s) + 4 * Suc (length ws) \<le> j" for j
    using that ih(2) by (auto simp: st put_word_other)
  ultimately show ?case using ih(3) by (simp flip: t_def)
qed simp

section \<open>Channel 4\<close>

definition with_sound :: "(spu \<times> 'e, 'z) env \<Rightarrow> (spu \<times> 'e, 'z) env" where
  "with_sound E = E\<lparr> spu_dma_write := (\<lambda>w p. (Spu.spu_dma_write w (fst p), snd p)),
     audio_trace_event := (\<lambda>k a b p. (fst p, snd (audio_trace_event E k a b p))) \<rparr>"

lemma with_sound_simps [simp]:
  "spu_dma_write (with_sound E) w p = (Spu.spu_dma_write w (fst p), snd p)" "fst (audio_trace_event (with_sound E) k a b p) = fst p"
  by (simp_all add: with_sound_def)

definition words_at :: "(nat \<Rightarrow> u8) \<Rightarrow> nat \<Rightarrow> nat \<Rightarrow> u32 list" where
  "words_at m a n = map (\<lambda>i. word_at m (a + 4 * i)) [0 ..< n]"

lemma words_at_Suc: "words_at m a (Suc n) = word_at m a # words_at m (a + 4) n"
  unfolding words_at_def by (simp add: upt_conv_Cons map_Suc_upt [symmetric] comp_def algebra_simps del: upt_Suc)

lemma spu_loop_sends:
  fixes s :: "(spu \<times> 'e, 'z) dma"
  assumes "unat a mod 4 = 0" "unat a + 4 * n \<le> 0x200000" "0 < n"
  shows "snd (spu_loop n (with_sound E) 0 a s) = s\<lparr> devs := (fold Spu.spu_dma_write (words_at (ram s) (unat a) n) (fst (devs s)), snd (devs s)) \<rparr>"
  using assms
proof (induction n arbitrary: a s)
  case (Suc n)
  have id: "ram_addr a = a" using Suc.prems by (intro ram_addr_id) simp_all
  have ld: "dma_load (with_sound E) a s = (word_at (ram s) (unat a), s)" using dma_load_ram [of "with_sound E" a s] by (simp add: id)
  define s1 where "s1 = s\<lparr> devs := (Spu.spu_dma_write (word_at (ram s) (unat a)) (fst (devs s)), snd (devs s)) \<rparr>"
  have step: "spu_loop (Suc n) (with_sound E) 0 a s = spu_loop n (with_sound E) 0 (ram_addr (a + 4)) s1"
    by (simp add: ld next_addr_def on_devs_def s1_def)
  show ?case
  proof (cases "n = 0")
    case True
    then show ?thesis unfolding step by (simp add: words_at_Suc s1_def) (simp add: words_at_def)
  next
    case False
    have a4: "unat (a + 4) = unat a + 4" using Suc.prems(2) by (simp add: unat_word_ariths(1))
    have id4: "ram_addr (a + 4) = a + 4" using Suc.prems(1,2) False a4 by (intro ram_addr_id) simp_all
    show ?thesis
      unfolding step id4 using Suc.IH [of "a + 4" s1] Suc.prems False by (simp add: a4 s1_def words_at_Suc)
  qed
qed (simp only: less_irrefl)

text \<open>The start of an upload: from RAM upwards in blocks.\<close>

abbreviation (input) CHCR_SPU_WRITE :: u32 where "CHCR_SPU_WRITE \<equiv> 0x01000201"

lemma masked_all: "masked 0xFFFFFFFF v c = v"
proof -
  have "(0xFFFFFFFF :: u32) = - 1" by simp
  then show ?thesis unfolding masked_def by (simp only:) simp
qed

lemma block_words:
  assumes "0 < sz" "sz < 0x10000" "0 < blocks" "blocks < 0x10000" "chcr (channels s 4) = CHCR_SPU_WRITE" "bcr (channels s 4) = of_nat (blocks * 0x10000 + sz)"
  shows "transfer_word_count E 4 s = of_nat (sz * blocks)"
proof -
  let ?b = "of_nat (blocks * 0x10000 + sz) :: u32"
  have u: "unat ?b = blocks * 0x10000 + sz" using assms by (simp add: unat_of_nat take_bit_nat_eq_self del: of_nat_add of_nat_mult)
  have "unat (?b AND 0xFFFF) = sz" "unat (drop_bit 16 ?b AND 0xFFFF) = blocks"
    using assms unat_and_mask [of ?b 16] unat_and_mask [of "drop_bit 16 ?b" 16] by (simp_all add: mask_eq_exp_minus_1 drop_bit_eq_div unat_div u del: of_nat_add of_nat_mult)
  then have "?b AND 0xFFFF = of_nat sz" "drop_bit 16 ?b AND 0xFFFF = of_nat blocks" by (metis of_nat_unat ucast_id)+
  moreover have "(of_nat sz :: u32) \<noteq> 0" "(of_nat blocks :: u32) \<noteq> 0"
    using assms(1-4) by (simp_all add: word_of_nat_eq_0_iff nat_dvd_not_less)
  ultimately show ?thesis by (simp add: transfer_word_count_def assms(5,6) chan_sync_mode_def Let_def del: of_nat_add)
qed

text \<open>Channel 4 in one go: the words are sent, the completion is scheduled.\<close>

lemma channel_4_sends:
  fixes s :: "(spu \<times> 'e, 'z) dma"
  assumes en: "channel_enabled 4 s" and a: "madr (channels s 4) = a" "unat a mod 4 = 0" "unat a + 4 * n \<le> 0x200000"
    and b: "bcr (channels s 4) = of_nat (blocks * 0x10000 + sz)" "0 < sz" "sz < 0x10000" "0 < blocks" "blocks < 0x10000" "n = sz * blocks"
  shows "\<exists>u. write_chcr (with_sound E) 4 CHCR_SPU_WRITE 0xFFFFFFFF s = Inr u \<and>
     fst (devs u) = fold Spu.spu_dma_write (words_at (ram s) (unat a) n) (fst (devs s)) \<and> ram u = ram s \<and>
     dc_active (delayed_complete u 4) = 1 \<and> unat (dc_cycles_remaining (delayed_complete u 4)) = 48 * n \<and> chcr (channels u 4) = CHCR_SPU_WRITE"
proof -
  have n: "0 < n" "n \<le> 0x80000" using a(3) b by simp_all
  define s1 where "s1 = upd_channel 4 (chcr_update (masked 0xFFFFFFFF CHCR_SPU_WRITE)) s"
  define k where "k = enter_exec 4 (note_kick (with_sound E) 4 s1)"
  have c1: "chcr (channels s1 4) = CHCR_SPU_WRITE" by (simp add: s1_def upd_channel_def masked_all)
  have ch: "channels k 4 = (channels s 4)\<lparr> chcr := CHCR_SPU_WRITE \<rparr>" "channels (note_kick (with_sound E) 4 s1) 4 = (channels s 4)\<lparr> chcr := CHCR_SPU_WRITE \<rparr>"
    by (cases "channels s 4"; simp add: k_def s1_def enter_exec_def note_kick_def trace_dma_def push_trace_def event_ring_record_aux_def upd_channel_def masked_all Let_def comp_def)+
  have k: "devs k = devs s" "ram k = ram s"
    by (simp_all add: k_def s1_def enter_exec_def note_kick_def trace_dma_def push_trace_def event_ring_record_aux_def upd_channel_def Let_def)
  have wc: "transfer_word_count (with_sound E) 4 k = of_nat n" "transfer_word_count (with_sound E) 4 (note_kick (with_sound E) 4 s1) = of_nat n"
    unfolding b(6) by (rule block_words [OF b(2-5)]; unfold ch; simp add: b(1))+
  have nn: "unat (of_nat n :: u32) = n" using n(2) by (simp add: unat_of_nat take_bit_nat_eq_self)
  have id: "ram_addr a = a" using a n(1) by (intro ram_addr_id) simp_all
  define d where "d = fold Spu.spu_dma_write (words_at (ram s) (unat a) n) (fst (devs s))"
  obtain x where loop: "spu_loop n (with_sound E) 0 a k = (x, k\<lparr> devs := (d, snd (devs s)) \<rparr>)"
    using spu_loop_sends [OF a(2,3) n(1), of E k] by (cases "spu_loop n (with_sound E) 0 a k") (simp add: k d_def)
  define t where "t = snd (execute_ch4_spu (with_sound E) k)"
  have ex: "execute_ch4_spu (with_sound E) k = (of_nat n, t)" "fst (devs t) = d" "ram t = ram s" "chcr (channels t 4) = CHCR_SPU_WRITE"
    using loop by (simp_all add: t_def execute_ch4_spu_def wc ch nn a(1) id chan_step_def upd_channel_def on_devs_def k Let_def)
  define u where "u = leave_exec (schedule_delayed_complete 4 (of_nat n) 48 t)"
  have "validate_transfer_length (with_sound E) 4 (note_kick (with_sound E) 4 s1) = None"
    unfolding validate_transfer_length_def wc(2) using n(2) by (simp add: word_less_nat_alt nn)
  moreover have "channel_enabled 4 s1" using en by (simp add: channel_enabled_def s1_def upd_channel_def)
  ultimately have "try_execute (with_sound E) 4 s1 = Inr u"
    unfolding try_execute_def Let_def c1 by (simp add: chan_busy_def execute_channel_def ex(1) u_def flip: k_def)
  moreover have "(0xFFFFFFFF :: u32) AND push_bit 24 1 \<noteq> 0" by simp
  ultimately have w: "write_chcr (with_sound E) 4 CHCR_SPU_WRITE 0xFFFFFFFF s = Inr u"
    unfolding write_chcr_def Let_def s1_def [symmetric] c1 by (simp add: chan_busy_def c1)
  have nz: "(of_nat n :: u32) \<noteq> 0" using nn n(1) by auto
  have "unat (ucast (of_nat n :: u32) * 48 :: u64) = n * 48"
    using n(2) by (simp add: unat_word_ariths(2) unat_ucast_up nn)
  then have cyc: "unat (ucast (ucast (of_nat n :: u32) * 48 :: u64) :: u32) = n * 48" "\<not> (ucast (of_nat n :: u32) * 48 :: u64) > ucast UINT32_MAX"
    using n(2) by (simp_all add: unat_ucast_mod word_less_nat_alt)
  have "devs u = devs t \<and> ram u = ram t \<and> channels u = channels t \<and> dc_active (delayed_complete u 4) = 1 \<and> unat (dc_cycles_remaining (delayed_complete u 4)) = n * 48"
    using nz cyc by (simp add: u_def leave_exec_def schedule_delayed_complete_def event_ring_record_aux_def Let_def)
  then show ?thesis using w ex(2-4) by (auto simp: d_def)
qed

text \<open>C16. Sample data travels from main RAM into sample RAM. With the sound unit behind the DMA controller, the program
  having set the transfer address and channel 4 (address, block size and count): the start does not fault, every word of
  main RAM in the range stands at its place in sample RAM, the rest of sample RAM and all voices are untouched, and
  after 48 cycles per word the channel is idle.\<close>

theorem ram_to_sample_ram:
  fixes s :: "(spu \<times> 'e, 'z) dma"
  assumes "channel_enabled 4 s" and a: "madr (channels s 4) = a" "unat a mod 4 = 0" "unat a + 4 * n \<le> 0x200000"
    and b: "bcr (channels s 4) = of_nat (blocks * 0x10000 + sz)" "0 < sz" "sz < 0x10000" "0 < blocks" "blocks < 0x10000" "n = sz * blocks"
    and p: "p = unat (transfer_addr (fst (devs s)))" "p + 4 * n \<le> 0x80000"
  shows "\<exists>u. write_chcr (with_sound E) 4 CHCR_SPU_WRITE 0xFFFFFFFF s = Inr u \<and>
     (\<forall>i<n. word_at (spu_ram (fst (devs u))) (p + 4 * i) = word_at (ram s) (unat a + 4 * i)) \<and>
     (\<forall>j. j < p \<or> p + 4 * n \<le> j \<longrightarrow> spu_ram (fst (devs u)) j = spu_ram (fst (devs s)) j) \<and>
     voices (fst (devs u)) = voices (fst (devs s)) \<and> ram u = ram s \<and>
     (48 * n \<le> unat c \<longrightarrow> \<not> chan_busy (chcr (channels (advance_delayed_complete c 4 u) 4)))"
proof -
  obtain u where u: "write_chcr (with_sound E) 4 CHCR_SPU_WRITE 0xFFFFFFFF s = Inr u"
    "fst (devs u) = fold Spu.spu_dma_write (words_at (ram s) (unat a) n) (fst (devs s))" "ram u = ram s"
    "dc_active (delayed_complete u 4) = 1" "unat (dc_cycles_remaining (delayed_complete u 4)) = 48 * n" "chcr (channels u 4) = CHCR_SPU_WRITE"
    using channel_4_sends [OF assms(1) a b, of E] by auto
  have len: "length (words_at (ram s) (unat a) n) = n" by (simp add: words_at_def)
  have "\<not> chan_busy (chcr (channels (advance_delayed_complete c 4 u) 4))" if "48 * n \<le> unat c"
    using that u(4-6) by (simp add: advance_delayed_complete_def word_less_nat_alt Let_def clear_start_busy_def chan_busy_def)
  then show ?thesis
    using u(1-3) upload_stores [of "fst (devs s)" "words_at (ram s) (unat a) n"] p by (auto simp: len words_at_def)
qed

text \<open>A machine with RAM filled by address and channel 4 set up for two blocks of 16 words.\<close>

definition sound_env :: "(spu \<times> unit, unit) env" where
  "sound_env = \<lparr> io = no_mmio, gpu_write_gp0 = (\<lambda>w d. d), gpu_set_gp0_source = (\<lambda>a d. d), gpu_read_gpuread = (\<lambda>d. (0, d)),
     gpu_ws_begin_linked_list = (\<lambda>d. d), spu_dma_write = (\<lambda>w d. d), audio_trace_event = (\<lambda>a b c d. d), cdrom_dma_read = (\<lambda>d. (0, d)),
     cdrom_dma_ready = (\<lambda>d. False), cdrom_dma_sector_word_count = (\<lambda>d. 0), cdrom_get_setloc_lba = (\<lambda>d. 0),
     cdrom_debug_snapshot = (\<lambda>d. \<lparr> cs_last_sector_lba = 0, cs_sector_size = 0, cs_last_sector_size = 0, cs_sector_read_pos = 0, cs_last_sector_mode = 0,
       cs_mode_reg = 0, cs_sector_available = 0 \<rparr>), overlay_capture_on_dma = (\<lambda>a b m d. d) \<rparr>"

definition sound_machine :: "(spu \<times> unit, unit) dma" where
  "sound_machine = (dma_boot ((spu_init spu_statics)\<lparr> transfer_addr := 0x1000 \<rparr>, ()))
     \<lparr> channels := (\<lambda>_. \<lparr> madr = 0x10000, bcr = 0x20010, chcr = 0 \<rparr>), dpcr := 0x00080000, ram := of_nat \<rparr>"

lemma sound_machine_simps:
  "devs sound_machine = ((spu_init spu_statics)\<lparr> transfer_addr := 0x1000 \<rparr>, ())" "channels sound_machine 4 = \<lparr> madr = 0x10000, bcr = 0x20010, chcr = 0 \<rparr>"
  "channel_enabled 4 sound_machine" "ram sound_machine = of_nat"
  by (simp_all add: sound_machine_def channel_enabled_def) (simp add: dma_boot_def mem_boot_def sys_boot_def dma_st.defs)

theorem ram_to_sample_ram_witness:
  "\<exists>u. write_chcr (with_sound sound_env) 4 CHCR_SPU_WRITE 0xFFFFFFFF sound_machine = Inr u \<and> word_at (spu_ram (fst (devs u))) 0x1014 = 0x17161514"
proof -
  have w: "word_at of_nat 0x10014 = 0x17161514" by (simp add: word_at_def)
  show ?thesis
    using ram_to_sample_ram [where s = sound_machine and E = sound_env and a = "0x10000" and n = 32 and blocks = 2 and sz = 16 and p = "0x1000" and c = 0]
    by (fastforce simp: sound_machine_simps w dest: spec [of _ 5])
qed

end
