(* ===== verification/Spec2Isabelle.thy ===== *)
theory Spec2Isabelle
  imports Timers Mdec_Spec Memory_Props Dma_Props Cpu_State Interpreter_Props Unaligned Interp_Debug Interp_Exec
    Cycles_Props Icache Crc32 Memcard Sio_Clock Cdrom_Stream Board_Clock Spu_Mix Spu_System
begin

text \<open>
  \<^bold>\<open>The program.\<close> RecompilationStudio turns PlayStation executables into native programs. The recompiled
  code runs inside a runtime written in C (src/runtime/src), which plays the machine around the CPU:
  memory and its code guards, interrupt controller, root counters, DMA controller, motion decoder, CD-ROM
  controller, sound unit, the guest clock that drives them, serial port and memory cards, and an interpreter of the
  R3000A that serves as the oracle for the recompiled code. This development models that core and proves
  what the rest of the runtime relies on.

  \<^bold>\<open>How the parts interact.\<close> Executed code charges cycles to the clock (psx_cycles.c), and so do its fetches
  that miss the instruction cache (psx_icache.c). The clock asks the devices for the distance to their next
  event, lets time run up to the nearest one and then advances the vblank scheduler (interrupts.c), the
  counters (timers.c), the serial port (sio.c), the CD-ROM controller (cdrom.c) and the DMA controller (dma.c)
  by the same amount. Devices raise lines of \<open>I_STAT\<close>; the DMA controller moves words between RAM (memory.c)
  and its devices, among them the motion decoder (mdec.c), the sector buffer of the CD-ROM controller and the sample
  RAM of the sound unit (spu.c), which also takes the audio of the CD-ROM controller.
  Stores of the CPU pass the guards of memory.c, which decide whether statically compiled code still matches
  the bytes in RAM. Every part reports to always-on diagnostic rings. The state records follow the same order,
  each one extending the one before: \<open>sys\<close> (interrupts and rings), \<open>timers_st\<close>, \<open>mem_st\<close>, the MDEC state,
  \<open>dma_st\<close>, \<open>cyc_st\<close>, \<open>icache_st\<close>; the interpreter, the memory cards, the serial port (which holds the cards)
  and the CD-ROM controller have states of their own, and the operations of the last two act on the pair of
  their state and \<open>sys\<close>. Cd_System and Board_Clock put these two into the device state of the machine.

  \<^bold>\<open>Theories.\<close>

  \<^item> Psx_Prelude: machine integer types, shared facts on words, arrays and iterated steps, the
    collections \<open>bit_test\<close>, \<open>frame_simps\<close>, \<open>step_defs\<close>. Ring_Log: the locale \<open>ring_log\<close>, the contract of every
    diagnostic ring (the newest entries are found by age until they are overwritten), interpreted on
    the event ring, the device trace, the CD transfer log, the DMA trace and the interpreter trace.
    Cell_Store: the locale \<open>cell_store\<close>, the contract of a store of cells (the last write to a cell
    decides), interpreted on the sectors of a memory card and on the same sectors at the other end of
    the serial wire. Line_Device: the locale \<open>line_device\<close>, the contract of a device that owns one interrupt
    line (whatever it is asked, of the system it changes that line and the event ring only), interpreted on
    the CD-ROM controller.

  \<^item> Irq_Events (event_ring.c, device_trace.c, \<open>psx_irq_raise\<close> of interrupts.c, the \<open>I_STAT\<close>/\<open>I_MASK\<close>
    writes of memory.c).

  \<^item> Timers (timers.c). C25: the bulk advance is the iterated one-count step.
    Lemmas: the distance to the next interrupt is safe and exact in ticks, advancing in slices is advancing
    at once.

  \<^item> Psx_Memory, Memory_Props (memory.c). C29: main RAM is one array of 2 MB under every
    mirror and segment. C30: the kernel bless table approves only code that still equals
    its ROM source. C31: the text guard approves only unmodified image code. Lemmas:
    the search in the bless table is exact, every store to a watched page moves the overlay generation.

  \<^item> Mdec, Mdec_Props, Mdec_Spec (mdec.c). C22: the invariant of every reachable state.
    C7: from the command to the drained words the output is the image of an independent
    specification (\<open>decoded_image\<close>: a parser over lists, an integer transform and colour conversion). Lemmas: table
    reads and samples stay in range, a command consumes exactly its parameters, the DMA port drains the output in order.

  \<^item> Dma, Dma_Props (dma.c). C32: the linked-list walk sends what the list holds.
    C33: the cycle budget is safe. C34: faulty CHCR writes. Lemmas: the interrupt
    on the master flag's edge, the bound of the walk, the cleared ordering table, delayed completion.

  \<^item> Cpu_State (cpu_state.h, the bail ledger of traps.c). C36: a wild return
    unwinds to the first frame that matches. Lemma: the ledger counts what happened.

  \<^item> Interpreter, Interpreter_Props, Unaligned, Interp_Debug, Interp_Exec (psx_interpreter.c).
    C37: the step loop returns and register 0 stays zero. C38: \<open>exec_one\<close> returns. C39: LWL/LWR
    load the four bytes at any address. Lemmas: an interrupt from injection to return, SWL/SWR,
    the breakpoint table is a bag, the trace by age, multiplication and division, what the step loop reports.

  \<^item> Psx_Cycles, Cycles_Props (psx_cycles.c and the vblank scheduler of interrupts.c), over any devices that leave the
    clock alone (\<open>quiet_devices\<close>). Lemmas: servicing reaches the present, every cycle is in an edge or in the
    vblank counter, the counters do not see how time was sliced, an idle loop is skipped to where it would have arrived.

  \<^item> Icache (psx_icache.c). C23: the tag array refines a direct-mapped cache. Lemma: code that
    fits costs its fetches once. Crc32 (crc32.c). C24: the table-driven checksum is the bit-serial
    one. Lemma: a changed byte changes the checksum.

  \<^item> Memcard (memcard.c). C35: saves survive a restart. Pad_Negotiation (pad_negotiation.c):
    a port is promoted exactly after two probes without a poll.

  \<^item> Sio, Sio_Props, Sio_Inv, Sio_Timing, Sio_Clock (sio.c): the pad and card protocols, the shifter and its
    acknowledge, the registers and the host interface, in the cycle-paced configuration.
    C2: a write on the wire is a write to the card, or an error and no write.
    Lemma: over the wire the card is a store. C4: the invariant of every reachable
    state (step relation \<open>sio_reach\<close>). C27: a poll is never torn by the host.
    C28: the acknowledge interrupt arrives. C26: what the distance to the
    next event is worth. Sio_Clock puts the port in the place of the clock's parameters.

  \<^item> Cd_Audio, Cdrom, Cdrom_Props, Cdrom_Inv, Cdrom_Cmds, Cdrom_Data, Cdrom_Stream (cdrom.c): the record \<open>cd\<close> holds
    the file's variables, one definition per function and per command; the inputs of the controller are the datatype
    \<open>cd_input\<close>, its runs folds of \<open>cd_step\<close>. C3: the invariant of every reachable state (\<open>cd_reach\<close>).
    C10, C11: responses are serialised and presented once.
    C12: every command is answered; lemma: an early one waits.
    C15: the distance to the next interrupt. C13: a sector from SetLoc to the
    last word. C14: the stream keeps its pace. C40: the resampled
    audio; lemma: the frames of a sector.

  \<^item> Spu, Spu_Props, Spu_Queue, Spu_Inv, Spu_Mix (spu.c): the record \<open>spu\<close> holds the file's variables, \<open>spu_voice\<close> a
    voice. C5: the invariant of every reachable state (\<open>spu_reach\<close>). C17: the CD input
    implements the locale \<open>lossy_queue\<close>, a bounded queue that loses its oldest frames. C18: a
    voice that is keyed off ends. C19, C20: what the mixer computes, and where its
    32-bit product fails. C21: voices and XA audio decode alike.

  \<^item> Cd_System, Spu_System, Board_Clock: the composition. C16: sample data travels from RAM over channel
    4 into sample RAM. C1: a sector travels from the disc over channel 3 into RAM.
    C6: with serial port and CD-ROM controller in place the clock catches up, unconditionally.
    C8: no vblank is lost or invented. C9: the root counters do not notice how
    the catch-up was cut into chunks.

  \<^bold>\<open>Fuel.\<close> Three loops of the code have no structural bound. \<open>exec_one\<close> calls itself in delay slots: from an
  aligned program counter \<open>2 ^ 30 + 1\<close> levels are enough for any memory (C38), because the slots
  are distinct words. The catch-up loop of \<open>psx_devices_service_to_now\<close> is given as many turns as there are
  cycles to catch up, which is enough when the devices leave the clock alone (lemma \<open>service_replay_facts\<close>), and they do
  (C6). The linked-list walk stops by the code's own limit of nodes. The remaining recursions are
  on lists, on counters, or have a measure.

  \<^bold>\<open>Parameters.\<close> What is reached through pointers or lives in parts not modelled here is an argument: the
  memory access functions of \<open>CPUState\<close> and the GTE (the interpreter's environment), GPU, SPU, CD-ROM and
  overlay capture (\<open>dma_env\<close>; the CD-ROM until Cd_System, the SPU until Spu_System), serial port, CD-ROM (until Board_Clock) and GPU tick
  (\<open>clock_env\<close>), the disc image (record \<open>disc\<close>), the MMIO dispatch of memory.c, the tables the recompiler emits, the
  host's allocator and disk. The properties that need something of them say so as hypotheses, and their witnesses
  give concrete functions. The calls of the CD-ROM controller into the SPU are kept as a list.

  \<^bold>\<open>Not modelled.\<close> Exception delivery in interrupts.c and the thread switches of traps.c (host stack
  switching), dirty_ram_interp.c and the overlay loader (they run compiled host code), the renderers
  (gpu_gl_renderer.c, gpu_vk_renderer.c, gpu_sw_renderer.c, gpu.c), debug_server.c and the crash
  diagnostics (input and output around state modelled here), the snapshot walks of save states, the
  window, audio and input shell. The C++ recompiler and the studio front end are other programs.

  Of sio.c and cdrom.c the diagnostics are left out: rings, histories, counters and audit records, which only
  the debug server reads. Of spu.c the audio trace and the tap of the optional float renderer are left out.

  \<^bold>\<open>Order of further work.\<close> The GP0 command state machine of gpu.c with the integer paths of
  gpu_sw_renderer.c, and the MMIO dispatch of memory.c over the device models.
\<close>

end
